(* ===== verification/Prelude.thy ===== *)
theory Prelude
  imports Complex_Main "HOL-Library.AList" "HOL-Library.Char_ord" "HOL-Library.List_Lexorder"
    "HOL-Library.Product_Lexorder"
begin

text \<open>
  Shared vocabulary of the development: the exceptions of the modelled Python as values,
  the bind of the exception monad, insertion-ordered dictionaries, the string operations
  the code uses, and the generic lemmas the components share.

  Strings are \<open>char list\<close>s, a \<open>char\<close> standing for one code point below 256; code points
  above 255 are outside the model. Python \<open>int\<close>s are \<open>int\<close>, \<open>float\<close>s that are only
  compared and subtracted are \<open>rat\<close> (rounding is not modelled).
\<close>

named_theorems unf \<open>definitions that a step or branch lemma unfolds\<close>
named_theorems inv_pres \<open>preservation lemmas of the component invariants\<close>

section \<open>Exceptions as values\<close>

text \<open>
  One constructor per exception class that a modelled function raises. The string is the
  fixed part of the message; interpolated values are left out of messages (they are kept
  in the reason strings that the code stores in its decisions).
\<close>

datatype exc =
    ValueError string
  | KeyError string
  | LookupError string
  | TypeError string
  | RuntimeError string
  | CircuitOpenError
  | LoadShedError
  | OverrideWriterError string
  | RiskTableError "string list"
  | UnknownLinkTypeError
  | TraversalDepthExceededError
  | IncidentTransitionError
  | IncidentWriteConflictError string
  | IncidentReplayError exc

type_synonym 'a res = "exc + 'a"

definition bind_res :: "'a res \<Rightarrow> ('a \<Rightarrow> 'b res) \<Rightarrow> 'b res" where
  "bind_res r f = (case r of Inl e \<Rightarrow> Inl e | Inr x \<Rightarrow> f x)"

lemma bind_res_simps [simp]:
  "bind_res (Inl e) f = Inl e"
  "bind_res (Inr x) f = f x"
  by (simp_all add: bind_res_def)

lemma bind_res_Inr: "bind_res r f = Inr y \<longleftrightarrow> (\<exists>x. r = Inr x \<and> f x = Inr y)"
  by (cases r) auto

lemma bind_res_Inl: "bind_res r f = Inl e \<longleftrightarrow> r = Inl e \<or> (\<exists>x. r = Inr x \<and> f x = Inl e)"
  by (cases r) auto

fun map_res :: "('a \<Rightarrow> 'b res) \<Rightarrow> 'a list \<Rightarrow> 'b list res" where
  "map_res f [] = Inr []"
| "map_res f (x # xs) =
     bind_res (f x) (\<lambda>y. bind_res (map_res f xs) (\<lambda>ys. Inr (y # ys)))"

lemma map_res_all_Inr: "(\<And>x. x \<in> set xs \<Longrightarrow> f x = Inr (g x)) \<Longrightarrow> map_res f xs = Inr (map g xs)"
  by (induction xs) auto

text \<open>A run of \<open>if condition: raise ValueError(message)\<close> statements.\<close>

fun first_failure :: "(bool \<times> string) list \<Rightarrow> unit res" where
  "first_failure [] = Inr ()"
| "first_failure ((failed, message) # rest) =
     (if failed then Inl (ValueError message) else first_failure rest)"

lemma first_failure_append:
  "first_failure (xs @ ys) = bind_res (first_failure xs) (\<lambda>_. first_failure ys)"
  by (induction xs) auto

lemma first_failure_Inr [simp]:
  "first_failure [] = Inr u" "first_failure (c # cs) = Inr u \<longleftrightarrow> \<not> fst c \<and> first_failure cs = Inr u"
  by (cases c; simp)+

lemma first_failure_append_Inr [simp]:
  "first_failure (xs @ ys) = Inr u \<longleftrightarrow> first_failure xs = Inr u \<and> first_failure ys = Inr u"
  by (simp add: first_failure_append bind_res_Inr)

lemma first_failure_ok: "first_failure checks = Inr u \<longleftrightarrow> list_all (\<lambda>c. \<not> fst c) checks"
  by (induction checks) (simp_all del: first_failure.simps)

declare first_failure.simps [simp del]

section \<open>Insertion-ordered dictionaries\<close>

text \<open>
  A Python \<open>dict\<close> whose iteration order matters is an association list: \<open>AList.update\<close>
  keeps the position of a known key and appends a new one, as \<open>d[k] = v\<close> does.
\<close>

type_synonym ('k, 'v) dict = "('k \<times> 'v) list"

abbreviation dict_get :: "('k, 'v) dict \<Rightarrow> 'k \<Rightarrow> 'v option" where
  "dict_get \<equiv> map_of"

abbreviation dict_set :: "('k, 'v) dict \<Rightarrow> 'k \<Rightarrow> 'v \<Rightarrow> ('k, 'v) dict" where
  "dict_set d k v \<equiv> AList.update k v d"

abbreviation dict_keys :: "('k, 'v) dict \<Rightarrow> 'k list" where
  "dict_keys \<equiv> map fst"

abbreviation dict_values :: "('k, 'v) dict \<Rightarrow> 'v list" where
  "dict_values \<equiv> map snd"

lemma dict_get_set [simp]: "dict_get (dict_set d k v) j = (if j = k then Some v else dict_get d j)"
  by (simp add: update_conv')

lemma dict_keys_set_set [simp]: "set (dict_keys (dict_set d k v)) = insert k (set (dict_keys d))"
  by (simp add: dom_update)

lemma dict_distinct_set [simp, intro]:
  "distinct (dict_keys d) \<Longrightarrow> distinct (dict_keys (dict_set d k v))"
  by (rule distinct_update)

text \<open>\<open>dict.fromkeys(xs)\<close> read as a list: the first occurrence of each element, in order.\<close>

fun fromkeys :: "'a list \<Rightarrow> 'a list" where
  "fromkeys [] = []"
| "fromkeys (x # xs) = x # filter (\<lambda>y. y \<noteq> x) (fromkeys xs)"

lemma set_fromkeys [simp]: "set (fromkeys xs) = set xs"
  by (induction xs) auto

lemma distinct_fromkeys [simp]: "distinct (fromkeys xs)"
  by (induction xs) auto

lemma fromkeys_id: "distinct xs \<Longrightarrow> fromkeys xs = xs"
proof (induction xs)
  case (Cons x xs)
  then have "filter (\<lambda>y. y \<noteq> x) xs = xs" by (auto intro: filter_True)
  with Cons show ?case by simp
qed simp

section \<open>Strings\<close>

definition code_point :: "char \<Rightarrow> nat" where
  "code_point c = of_char c"

text \<open>\<open>str.isspace\<close> on the code points below 256.\<close>

definition py_space :: "char \<Rightarrow> bool" where
  "py_space c = (let n = code_point c in
     (9 \<le> n \<and> n \<le> 13) \<or> (28 \<le> n \<and> n \<le> 32) \<or> n = 133 \<or> n = 160)"

definition py_strip :: "string \<Rightarrow> string" where
  "py_strip s = rev (dropWhile py_space (rev (dropWhile py_space s)))"

text \<open>\<open>str.lower\<close> on the code points below 256.\<close>

definition py_lower_char :: "char \<Rightarrow> char" where
  "py_lower_char c = (let n = code_point c in
     if (65 \<le> n \<and> n \<le> 90) \<or> (192 \<le> n \<and> n \<le> 222 \<and> n \<noteq> 215) then char_of (n + 32) else c)"

definition py_lower :: "string \<Rightarrow> string" where
  "py_lower s = map py_lower_char s"

lemma length_py_lower [simp]: "length (py_lower s) = length s"
  by (simp add: py_lower_def)

definition starts_with :: "string \<Rightarrow> string \<Rightarrow> bool" where
  "starts_with p s = (take (length p) s = p)"

text \<open>\<open>s.find(sub)\<close>, with \<open>None\<close> for -1.\<close>

fun find_sub :: "string \<Rightarrow> string \<Rightarrow> nat option" where
  "find_sub sub [] = (if sub = [] then Some 0 else None)"
| "find_sub sub (c # cs) =
     (if starts_with sub (c # cs) then Some 0 else map_option Suc (find_sub sub cs))"

text \<open>Decimal rendering of integers (\<open>str(n)\<close> and f-strings).\<close>

definition digit_char :: "nat \<Rightarrow> char" where
  "digit_char d = char_of (48 + d)"

fun str_nat :: "nat \<Rightarrow> string" where
  "str_nat n = (if n < 10 then [digit_char n] else str_nat (n div 10) @ [digit_char (n mod 10)])"

declare str_nat.simps [simp del]

definition str_int :: "int \<Rightarrow> string" where
  "str_int i = (if i < 0 then ''-'' @ str_nat (nat (- i)) else str_nat (nat i))"

lemma str_nat_nonempty [simp]: "str_nat n \<noteq> []"
  by (subst str_nat.simps) simp

lemma str_int_nonempty [simp]: "str_int i \<noteq> []"
  by (simp add: str_int_def)

text \<open>
  \<open>str.casefold\<close>: as \<open>lower\<close>, but the sharp s (223) becomes \<open>ss\<close>. The micro sign
  (181), which Python maps outside the model's code points, is left alone.
\<close>

definition py_casefold :: "string \<Rightarrow> string" where
  "py_casefold s = concat (map (\<lambda>c. if code_point c = 223 then ''ss'' else [py_lower_char c]) s)"

text \<open>\<open>repr\<close> of a string (code points below 256).\<close>

definition hex_char :: "nat \<Rightarrow> char" where
  "hex_char d = char_of (if d < 10 then 48 + d else 87 + d)"

definition repr_char :: "char \<Rightarrow> char \<Rightarrow> string" where
  "repr_char q c = (let n = code_point c in
     if c = q \<or> n = 92 then [char_of (92::nat), c]
     else if n = 9 then [char_of (92::nat), CHR ''t'']
     else if n = 10 then [char_of (92::nat), CHR ''n'']
     else if n = 13 then [char_of (92::nat), CHR ''r'']
     else if n < 32 \<or> (127 \<le> n \<and> n \<le> 160) \<or> n = 173 then
       [char_of (92::nat), CHR ''x'', hex_char (n div 16), hex_char (n mod 16)]
     else [c])"

definition py_repr :: "string \<Rightarrow> string" where
  "py_repr s = (let sq = char_of (39::nat); dq = char_of (34::nat);
       q = (if sq \<in> set s \<and> dq \<notin> set s then dq else sq)
     in [q] @ concat (map (repr_char q) s) @ [q])"

section \<open>Digests and canonical text\<close>

definition hex_lower :: "char \<Rightarrow> bool" where
  "hex_lower c = (let n = code_point c in (48 \<le> n \<and> n \<le> 57) \<or> (97 \<le> n \<and> n \<le> 102))"

definition sha256_ref :: "string \<Rightarrow> bool" where
  "sha256_ref s = (starts_with ''sha256:'' s \<and> length s = 71 \<and> list_all hex_lower (drop 7 s))"

text \<open>A text that is not blank, has no blanks at its ends and at most \<open>n\<close> characters.\<close>

definition canonical_text :: "nat \<Rightarrow> string \<Rightarrow> bool" where
  "canonical_text n s = (py_strip s \<noteq> [] \<and> s = py_strip s \<and> length s \<le> n)"

section \<open>JSON-shaped values\<close>

text \<open>
  The dynamically typed values that cross the modelled interfaces (YAML and JSON
  documents, audit rows). A mapping is an insertion-ordered dictionary.
\<close>

datatype json =
    JNull
  | JBool bool
  | JInt int
  | JFloat rat
  | JStr string
  | JList "json list"
  | JObj "(string \<times> json) list"

text \<open>
  Python's \<open>==\<close> on scalars: \<open>True == 1 == 1.0\<close>, and values of other types are equal only
  when they are the same. (Only comparisons with a scalar on one side are modelled.)
\<close>

fun as_num :: "json \<Rightarrow> rat option" where
  "as_num (JBool b) = Some (if b then 1 else 0)"
| "as_num (JInt i) = Some (of_int i)"
| "as_num (JFloat r) = Some r"
| "as_num _ = None"

definition py_eq :: "json \<Rightarrow> json \<Rightarrow> bool" where
  "py_eq a b = (case (as_num a, as_num b) of
     (Some x, Some y) \<Rightarrow> x = y
   | (None, None) \<Rightarrow> a = b
   | _ \<Rightarrow> False)"

text \<open>\<open>bool(x)\<close>\<close>

fun json_truthy :: "json \<Rightarrow> bool" where
  "json_truthy JNull = False"
| "json_truthy (JBool b) = b"
| "json_truthy (JInt i) = (i \<noteq> 0)"
| "json_truthy (JFloat r) = (r \<noteq> 0)"
| "json_truthy (JStr s) = (s \<noteq> [])"
| "json_truthy (JList xs) = (xs \<noteq> [])"
| "json_truthy (JObj kvs) = (kvs \<noteq> [])"

text \<open>\<open>isinstance(x, Mapping)\<close>\<close>

fun as_mapping :: "json option \<Rightarrow> (string, json) dict option" where
  "as_mapping (Some (JObj kvs)) = Some kvs"
| "as_mapping _ = None"

text \<open>
  \<open>str(x)\<close>, where \<open>other\<close> renders the values that are neither a string nor an integer, and
  \<open>str(d.get(key) or default)\<close>.
\<close>

definition py_str :: "(json \<Rightarrow> string) \<Rightarrow> json \<Rightarrow> string" where
  "py_str other j = (case j of JStr s \<Rightarrow> s | JInt i \<Rightarrow> str_int i | _ \<Rightarrow> other j)"

definition text_or :: "(json \<Rightarrow> string) \<Rightarrow> (string, json) dict \<Rightarrow> string \<Rightarrow> string \<Rightarrow> string" where
  "text_or other d key alt = (case dict_get d key of
     None \<Rightarrow> alt | Some j \<Rightarrow> (if json_truthy j then py_str other j else alt))"

text \<open>\<open>value.strip() or None\<close>\<close>

definition some_stripped :: "string \<Rightarrow> string option" where
  "some_stripped s = (if py_strip s = [] then None else Some (py_strip s))"

section \<open>Lists\<close>

text \<open>Python's \<open>min(xs, key=f)\<close>: the first element whose key no other undercuts.\<close>

fun min_by :: "('a \<Rightarrow> 'b::linorder) \<Rightarrow> 'a \<Rightarrow> 'a list \<Rightarrow> 'a" where
  "min_by f x [] = x"
| "min_by f x (y # ys) = (if f y < f x then min_by f y ys else min_by f x ys)"

lemma min_by_in: "min_by f x ys \<in> insert x (set ys)"
  by (induction ys arbitrary: x) fastforce+

lemma min_by_le: "z \<in> insert x (set ys) \<Longrightarrow> f (min_by f x ys) \<le> f z"
proof (induction ys arbitrary: x z)
  case (Cons y ys)
  show ?case
  proof (cases "f y < f x")
    case True
    with Cons.prems Cons.IH [of y y] Cons.IH [of z y] show ?thesis by force
  next
    case False
    with Cons.prems Cons.IH [of x x] Cons.IH [of z x] show ?thesis by force
  qed
qed simp

lemma min_by_Min: "f (min_by f x ys) = Min (f ` insert x (set ys))"
proof -
  have le: "\<And>k. k \<in> f ` insert x (set ys) \<Longrightarrow> f (min_by f x ys) \<le> k"
    by (auto intro: min_by_le)
  have mem: "f (min_by f x ys) \<in> f ` insert x (set ys)"
    by (rule imageI) (rule min_by_in)
  have fin: "finite (f ` insert x (set ys))" by simp
  show ?thesis using Min_eqI [OF fin le mem] by simp
qed

text \<open>Stable sorting never puts a smaller key behind a larger one.\<close>

lemma sort_key_hd_le:
  assumes "xs \<noteq> []" and "y \<in> set xs"
  shows "f (hd (sort_key f xs)) \<le> f y"
proof -
  have ne: "sort_key f xs \<noteq> []" using assms(1) by (metis set_empty set_sort)
  have y: "y \<in> set (sort_key f xs)" using assms(2) by simp
  have s: "sorted (map f (sort_key f xs))" by simp
  show ?thesis
    using ne y s by (cases "sort_key f xs") auto
qed

end
