(* ===== verification/Contracts.thy ===== *)
theory Contracts
  imports Prelude
begin

text \<open>
  The contract models of \<open>shared/contracts/models\<close> and of the service-contracts package
  that the modelled components exchange: enumerations as datatypes, pydantic models as
  records. A record holds the fields the modelled code reads or writes; display and
  provenance fields (\<open>schema_version\<close>, \<open>description\<close>, \<open>argument_schema\<close>, \<open>semantic\<close>,
  \<open>provenance\<close> and the like) are left out. UUIDs and datetimes are described where they
  are used.
\<close>

section \<open>Enumerations\<close>

datatype mode = SHADOW | ENFORCE

datatype tier = T0 | T1 | T2

fun tier_value :: "tier \<Rightarrow> string" where
  "tier_value T0 = ''t0''"
| "tier_value T1 = ''t1''"
| "tier_value T2 = ''t2''"

datatype operation =
    OpCREATE | OpUPDATE | OpDELETE | OpDISABLE | OpENABLE | OpTAG | OpDROP | OpPURGE
  | OpSCALE | OpRESTART | OpFAILOVER | OpROTATE | OpREVERT | OpATTACH | OpDETACH
  | OpQUARANTINE

datatype blast_scope = RESOURCE | RESOURCE_GROUP | SUBSCRIPTION

fun blast_scope_value :: "blast_scope \<Rightarrow> string" where
  "blast_scope_value RESOURCE = ''resource''"
| "blast_scope_value RESOURCE_GROUP = ''resource_group''"
| "blast_scope_value SUBSCRIPTION = ''subscription''"

datatype rollback_kind =
    PR_REVERT | SCRIPTED | PITR | SNAPSHOT_RESTORE | STATE_FORWARD_ONLY

fun rollback_kind_value :: "rollback_kind \<Rightarrow> string" where
  "rollback_kind_value PR_REVERT = ''pr_revert''"
| "rollback_kind_value SCRIPTED = ''scripted''"
| "rollback_kind_value PITR = ''pitr''"
| "rollback_kind_value SNAPSHOT_RESTORE = ''snapshot_restore''"
| "rollback_kind_value STATE_FORWARD_ONLY = ''state_forward_only''"

datatype action_interface =
    CONTROL_PLANE | DATA_PLANE_MUTATING | IDEMPOTENT_BY_KEY | RATE_LIMITED
  | REQUIRES_INVENTORY_FRESH | GRAPH_TRAVERSAL_REQUIRED | CROSS_RESOURCE
  | ASYMMETRIC_ROLLBACK | REQUIRES_MAINTENANCE_WINDOW

datatype blast_computation = STATIC_ENUM | GRAPH_DERIVED

datatype precondition_kind =
    GRAPH_FRESH_WITHIN_SECONDS | LINK_EXISTS | LINK_ABSENT
  | NO_CONFLICTING_OPEN_ACTION_ON_RESOURCE | MAINTENANCE_WINDOW_ACTIVE
  | RESOURCE_PROPERTY_EQUALS | RESOURCE_TAG_PRESENT

fun precondition_kind_value :: "precondition_kind \<Rightarrow> string" where
  "precondition_kind_value GRAPH_FRESH_WITHIN_SECONDS = ''graph_fresh_within_seconds''"
| "precondition_kind_value LINK_EXISTS = ''link_exists''"
| "precondition_kind_value LINK_ABSENT = ''link_absent''"
| "precondition_kind_value NO_CONFLICTING_OPEN_ACTION_ON_RESOURCE =
     ''no_conflicting_open_action_on_resource''"
| "precondition_kind_value MAINTENANCE_WINDOW_ACTIVE = ''maintenance_window_active''"
| "precondition_kind_value RESOURCE_PROPERTY_EQUALS = ''resource_property_equals''"
| "precondition_kind_value RESOURCE_TAG_PRESENT = ''resource_tag_present''"

datatype autonomy = AUT_ENFORCE_AUTO | AUT_ENFORCE_HIL | AUT_SHADOW_ONLY

fun autonomy_value :: "autonomy \<Rightarrow> string" where
  "autonomy_value AUT_ENFORCE_AUTO = ''enforce_auto''"
| "autonomy_value AUT_ENFORCE_HIL = ''enforce_hil''"
| "autonomy_value AUT_SHADOW_ONLY = ''shadow_only''"

datatype execution_path = PR_NATIVE | DIRECT_API | PR_MANUAL | TOOL_CALL

datatype env_scope = ENV_PROD | ENV_NON_PROD | ENV_ANY

datatype ceiling_role = READER | CONTRIBUTOR | APPROVER | OWNER

fun ceiling_role_value :: "ceiling_role \<Rightarrow> string" where
  "ceiling_role_value READER = ''reader''"
| "ceiling_role_value CONTRIBUTOR = ''contributor''"
| "ceiling_role_value APPROVER = ''approver''"
| "ceiling_role_value OWNER = ''owner''"

section \<open>ActionType\<close>

record promotion_gate =
  min_shadow_days :: int
  min_samples :: int
  min_accuracy :: rat
  max_policy_escapes :: int

record action_precondition =
  pre_kind :: precondition_kind
  pre_value :: json
  pre_property :: "string option"
  pre_tag :: "string option"

record action_blast_radius =
  computation :: blast_computation
  static_bucket :: "blast_scope option"
  max_affected_resources :: "int option"

record tier_ceiling =
  max_autonomy :: autonomy
  min_role :: ceiling_role

record ceiling_by_tier =
  ceil_t0 :: "tier_ceiling option"
  ceil_t1 :: "tier_ceiling option"
  ceil_t2 :: "tier_ceiling option"

record prod_downgrade =
  pd_mode :: autonomy
  detection_ref :: string

text \<open>The validator of \<open>ProdDowngrade.mode\<close>.\<close>

definition prod_downgrade_valid :: "prod_downgrade \<Rightarrow> bool" where
  "prod_downgrade_valid pd = (pd_mode pd \<noteq> AUT_ENFORCE_AUTO)"

record action_type =
  at_name :: string
  at_version :: string
  at_operation :: operation
  interfaces :: "action_interface list"
  rollback_contract :: rollback_kind
  irreversible :: bool
  promotion_gate_of :: promotion_gate
  preconditions :: "action_precondition list"
  at_blast_radius :: "action_blast_radius option"
  exec_path :: "execution_path option"
  ceilings :: "ceiling_by_tier option"
  env_scope_of :: env_scope
  prod_downgrade_of :: "prod_downgrade option"
  live_probe_ref :: "string option"

section \<open>Action\<close>

record blast_radius =
  br_scope :: blast_scope
  br_count :: "int option"
  br_rate_per_minute :: "int option"

text \<open>
  \<open>action_id\<close> is the text \<open>str(action_id)\<close>, the only form the gate stores.
\<close>

record action =
  action_id :: string
  idempotency_key :: string
  act_type :: string
  target_resource_ref :: string
  stop_condition :: string
  act_blast_radius :: blast_radius
  citing_rules :: "string list"

end
