(* ===== verification/Resilience.thy ===== *)
theory Resilience
  imports Contracts StepSystem
begin

text \<open>
  \<open>shared/resilience\<close>: the circuit breaker, the degradation controller that aggregates
  breakers, and the global kill switch.

  The breaker reads its clock several times inside one method. The model passes the clock
  as \<open>clk :: nat \<Rightarrow> rat\<close>, the value of each reading, and the field \<open>cb_reads\<close> counts the
  readings done so far, so that two readings of one method may differ.
\<close>

section \<open>Circuit breaker\<close>

datatype circuit_state = CB_CLOSED | CB_OPEN | CB_HALF_OPEN

record breaker_config =
  failure_threshold :: int
  reset_timeout_s :: rat
  half_open_max_calls :: int

definition breaker_config_init :: "int \<Rightarrow> rat \<Rightarrow> int \<Rightarrow> breaker_config res" where
  "breaker_config_init ft rt hm =
     (if ft < 1 then Inl (ValueError ''failure_threshold MUST be >= 1'')
      else if rt \<le> 0 then Inl (ValueError ''reset_timeout_s MUST be > 0'')
      else if hm < 1 then Inl (ValueError ''half_open_max_calls MUST be >= 1'')
      else Inr \<lparr>failure_threshold = ft, reset_timeout_s = rt, half_open_max_calls = hm\<rparr>)"

record breaker =
  cb_state :: circuit_state
  consecutive_failures :: int
  opened_at :: rat
  half_open_calls :: int
  half_open_since :: rat
  cb_reads :: nat

type_synonym cb_clock = "nat \<Rightarrow> rat"

definition breaker_init :: breaker where
  "breaker_init = \<lparr>cb_state = CB_CLOSED, consecutive_failures = 0, opened_at = 0,
     half_open_calls = 0, half_open_since = 0, cb_reads = 0\<rparr>"

text \<open>One reading of the clock.\<close>

definition cb_now :: "cb_clock \<Rightarrow> breaker \<Rightarrow> rat \<times> breaker" where
  "cb_now clk b = (clk (cb_reads b), b\<lparr>cb_reads := Suc (cb_reads b)\<rparr>)"

definition cb_trip :: "cb_clock \<Rightarrow> breaker \<Rightarrow> breaker" where
  "cb_trip clk b = (let (now, b) = cb_now clk (b\<lparr>cb_state := CB_OPEN\<rparr>)
     in b\<lparr>opened_at := now, half_open_calls := 0\<rparr>)"

definition cb_maybe_half_open :: "breaker_config \<Rightarrow> cb_clock \<Rightarrow> breaker \<Rightarrow> breaker" where
  "cb_maybe_half_open cfg clk b =
     (if cb_state b = CB_OPEN then
        (let (now, b) = cb_now clk b in
         if now - opened_at b \<ge> reset_timeout_s cfg then
           (let (since, b) = cb_now clk (b\<lparr>cb_state := CB_HALF_OPEN, half_open_calls := 0\<rparr>)
            in b\<lparr>half_open_since := since\<rparr>)
         else b)
      else b)"

definition cb_maybe_reopen_stuck_probe :: "breaker_config \<Rightarrow> cb_clock \<Rightarrow> breaker \<Rightarrow> breaker" where
  "cb_maybe_reopen_stuck_probe cfg clk b =
     (if cb_state b = CB_HALF_OPEN \<and> half_open_calls b > 0 then
        (let (now, b) = cb_now clk b in
         if now - half_open_since b \<ge> reset_timeout_s cfg then cb_trip clk b else b)
      else b)"

text \<open>The refresh that the \<open>state\<close> property and \<open>allow\<close> both start with.\<close>

definition cb_refresh :: "breaker_config \<Rightarrow> cb_clock \<Rightarrow> breaker \<Rightarrow> breaker" where
  "cb_refresh cfg clk b = cb_maybe_reopen_stuck_probe cfg clk (cb_maybe_half_open cfg clk b)"

definition cb_read_state :: "breaker_config \<Rightarrow> cb_clock \<Rightarrow> breaker \<Rightarrow> circuit_state \<times> breaker" where
  "cb_read_state cfg clk b = (let b = cb_refresh cfg clk b in (cb_state b, b))"

definition cb_allow :: "breaker_config \<Rightarrow> cb_clock \<Rightarrow> breaker \<Rightarrow> bool \<times> breaker" where
  "cb_allow cfg clk b =
     (let b = cb_refresh cfg clk b in
      case cb_state b of
        CB_OPEN \<Rightarrow> (False, b)
      | CB_HALF_OPEN \<Rightarrow>
          (if half_open_calls b \<ge> half_open_max_calls cfg then (False, b)
           else
             (let b = (if half_open_calls b = 0
                       then (let (now, b) = cb_now clk b in b\<lparr>half_open_since := now\<rparr>)
                       else b)
              in (True, b\<lparr>half_open_calls := half_open_calls b + 1\<rparr>)))
      | CB_CLOSED \<Rightarrow> (True, b))"

definition cb_release_probe :: "breaker \<Rightarrow> breaker" where
  "cb_release_probe b =
     (if cb_state b = CB_HALF_OPEN \<and> half_open_calls b > 0
      then b\<lparr>half_open_calls := half_open_calls b - 1\<rparr> else b)"

definition cb_on_success :: "breaker \<Rightarrow> breaker" where
  "cb_on_success b =
     (let b = b\<lparr>consecutive_failures := 0\<rparr>
      in if cb_state b = CB_HALF_OPEN then b\<lparr>cb_state := CB_CLOSED\<rparr> else b)"

definition cb_on_failure :: "breaker_config \<Rightarrow> cb_clock \<Rightarrow> breaker \<Rightarrow> breaker" where
  "cb_on_failure cfg clk b =
     (let b = b\<lparr>consecutive_failures := consecutive_failures b + 1\<rparr> in
      if cb_state b = CB_HALF_OPEN then cb_trip clk b
      else if consecutive_failures b \<ge> failure_threshold cfg then cb_trip clk b
      else b)"

text \<open>
  \<open>call\<close> suspends while the guarded coroutine runs, so other calls may run between its
  first part (the admission) and its second part (the verdict on the outcome).
\<close>

datatype call_outcome = Returned | Cancelled | Failed

definition cb_call_begin :: "breaker_config \<Rightarrow> cb_clock \<Rightarrow> breaker \<Rightarrow> unit res \<times> breaker" where
  "cb_call_begin cfg clk b =
     (let (ok, b) = cb_allow cfg clk b
      in if ok then (Inr (), b) else (Inl CircuitOpenError, b))"

definition cb_call_end :: "breaker_config \<Rightarrow> cb_clock \<Rightarrow> call_outcome \<Rightarrow> breaker \<Rightarrow> breaker" where
  "cb_call_end cfg clk out b = (case out of
     Cancelled \<Rightarrow> cb_release_probe b
   | Failed \<Rightarrow> cb_on_failure cfg clk b
   | Returned \<Rightarrow> cb_on_success b)"

section \<open>Degradation controller\<close>

datatype system_mode = NORMAL | DEGRADED

text \<open>A registered breaker with its own configuration and clock.\<close>

record guarded =
  g_config :: breaker_config
  g_clock :: cb_clock
  g_breaker :: breaker

type_synonym breakers = "(string, guarded) dict"

text \<open>
  Reading \<open>breaker.state\<close> may move the breaker, so the scan returns the breakers too.
\<close>

fun open_circuits :: "breakers \<Rightarrow> string list \<times> breakers" where
  "open_circuits [] = ([], [])"
| "open_circuits ((name, g) # gs) =
     (let (st, b) = cb_read_state (g_config g) (g_clock g) (g_breaker g);
          (names, gs') = open_circuits gs
      in (if st \<noteq> CB_CLOSED then name # names else names,
          (name, g\<lparr>g_breaker := b\<rparr>) # gs'))"

definition degradation_mode :: "int \<Rightarrow> breakers \<Rightarrow> system_mode \<times> breakers" where
  "degradation_mode open_threshold gs =
     (let (names, gs) = open_circuits gs
      in (if int (length names) \<ge> open_threshold then DEGRADED else NORMAL, gs))"

definition autonomy_permitted :: "int \<Rightarrow> breakers \<Rightarrow> bool \<times> breakers" where
  "autonomy_permitted open_threshold gs =
     (let (m, gs) = degradation_mode open_threshold gs in (m = NORMAL, gs))"

section \<open>Kill switch\<close>

text \<open>
  \<open>StateStoreKillSwitch\<close>: the cached flag; \<open>ks_refresh\<close> takes the state that the store
  returned for the key \<open>system:kill-switch\<close>.
\<close>

record kill_switch =
  engaged :: bool

definition kill_switch_init :: kill_switch where
  "kill_switch_init = \<lparr>engaged = True\<rparr>"

definition is_engaged :: "kill_switch \<Rightarrow> bool" where
  "is_engaged k = engaged k"

text \<open>\<open>InMemoryKillSwitch\<close>: the process-local switch, off unless told otherwise.\<close>

definition memory_kill_switch_init :: "bool \<Rightarrow> kill_switch" where
  "memory_kill_switch_init e = \<lparr>engaged = e\<rparr>"

definition ks_engage :: "kill_switch \<Rightarrow> kill_switch" where
  "ks_engage k = k\<lparr>engaged := True\<rparr>"

definition ks_disengage :: "kill_switch \<Rightarrow> kill_switch" where
  "ks_disengage k = k\<lparr>engaged := False\<rparr>"

definition ks_refresh :: "(string, json) dict option \<Rightarrow> kill_switch \<Rightarrow> unit res \<times> kill_switch" where
  "ks_refresh stored k = (case stored of
     None \<Rightarrow> (Inr (), k\<lparr>engaged := False\<rparr>)
   | Some state \<Rightarrow>
       (case dict_get state ''engaged'' of
          Some (JBool b) \<Rightarrow> (Inr (), k\<lparr>engaged := b\<rparr>)
        | _ \<Rightarrow> (Inl (ValueError ''kill-switch state engaged MUST be a boolean''), k)))"

section \<open>Circuit breaker: facts of the operations\<close>

lemmas cb_unf [unf] = cb_now_def cb_trip_def cb_maybe_half_open_def
  cb_maybe_reopen_stuck_probe_def cb_refresh_def cb_read_state_def cb_allow_def
  cb_release_probe_def cb_on_success_def cb_on_failure_def Let_def

text \<open>The well-formedness of a configuration that the constructor accepted.\<close>

definition cfg_ok :: "breaker_config \<Rightarrow> bool" where
  "cfg_ok cfg = (1 \<le> failure_threshold cfg \<and> 0 < reset_timeout_s cfg \<and> 1 \<le> half_open_max_calls cfg)"

lemma breaker_config_init_ok: "breaker_config_init ft rt hm = Inr cfg \<Longrightarrow> cfg_ok cfg"
  by (auto simp: breaker_config_init_def cfg_ok_def split: if_splits)

definition cb_inv :: "breaker_config \<Rightarrow> breaker \<Rightarrow> bool" where
  "cb_inv cfg b =
     (0 \<le> half_open_calls b \<and> 0 \<le> consecutive_failures b \<and>
      (cb_state b = CB_CLOSED \<longrightarrow> consecutive_failures b < failure_threshold cfg) \<and>
      (cb_state b = CB_OPEN \<longrightarrow> half_open_calls b = 0) \<and>
      (cb_state b = CB_HALF_OPEN \<longrightarrow> half_open_calls b \<le> half_open_max_calls cfg))"

lemma cb_inv_init: "cfg_ok cfg \<Longrightarrow> cb_inv cfg breaker_init"
  by (simp add: cb_inv_def breaker_init_def cfg_ok_def)

lemma cb_inv_refresh [inv_pres]: "cfg_ok cfg \<Longrightarrow> cb_inv cfg b \<Longrightarrow> cb_inv cfg (cb_refresh cfg clk b)"
  by (auto simp: cb_inv_def cfg_ok_def unf)

lemma cb_inv_allow [inv_pres]: "cfg_ok cfg \<Longrightarrow> cb_inv cfg b \<Longrightarrow> cb_inv cfg (snd (cb_allow cfg clk b))"
  by (drule (1) cb_inv_refresh [where clk = clk])
    (auto simp: cb_allow_def Let_def cb_now_def cb_inv_def split: circuit_state.splits)

lemma cb_inv_release [inv_pres]: "cb_inv cfg b \<Longrightarrow> cb_inv cfg (cb_release_probe b)"
  by (auto simp: cb_inv_def cb_release_probe_def)

lemma cb_inv_success [inv_pres]: "cfg_ok cfg \<Longrightarrow> cb_inv cfg b \<Longrightarrow> cb_inv cfg (cb_on_success b)"
  by (auto simp: cb_inv_def cb_on_success_def cfg_ok_def Let_def)

lemma cb_inv_failure [inv_pres]: "cb_inv cfg b \<Longrightarrow> cb_inv cfg (cb_on_failure cfg clk b)"
  by (auto simp: cb_inv_def unf)

text \<open>The breaker as a transition system: every public method, in any order.\<close>

inductive cb_step :: "breaker_config \<Rightarrow> cb_clock \<Rightarrow> breaker \<Rightarrow> breaker \<Rightarrow> bool"
  for cfg clk where
  step_state: "cb_step cfg clk b (snd (cb_read_state cfg clk b))"
| step_allow: "cb_step cfg clk b (snd (cb_allow cfg clk b))"
| step_begin: "cb_step cfg clk b (snd (cb_call_begin cfg clk b))"
| step_end: "cb_step cfg clk b (cb_call_end cfg clk out b)"

inductive_cases cb_stepE: "cb_step cfg clk b c"

lemma cb_step_inv: "cfg_ok cfg \<Longrightarrow> cb_inv cfg b \<Longrightarrow> cb_step cfg clk b c \<Longrightarrow> cb_inv cfg c"
  by (erule cb_stepE)
    (auto simp: cb_read_state_def cb_call_begin_def cb_call_end_def Let_def case_prod_beta
       split: call_outcome.splits intro: inv_pres)

definition cb_start :: "breaker_config \<Rightarrow> breaker \<Rightarrow> bool" where
  "cb_start cfg b = (cfg_ok cfg \<and> b = breaker_init)"

lemma cb_reachable_ok: "reachable (cb_start cfg) (cb_step cfg clk) b \<Longrightarrow> cfg_ok cfg"
  by (induction rule: reachable.induct) (auto simp: cb_start_def)

interpretation cb: safe_system "cb_start cfg" "cb_step cfg clk" "\<lambda>b. cfg_ok cfg \<and> cb_inv cfg b"
  for cfg clk
  by unfold_locales (auto simp: cb_start_def cb_inv_init intro: cb_step_inv)

section \<open>Circuit breaker: properties\<close>

text \<open>
  In every state the breaker reaches by its public methods, called in any order and against
  any clock, the reserved probes stay within \<open>half_open_max_calls\<close>, an open
  breaker holds no reservation, and a closed breaker has fewer consecutive failures than the
  threshold.
\<close>

theorem cb_reachable_inv:
  "reachable (cb_start cfg) (cb_step cfg clk) b \<Longrightarrow> cb_inv cfg b"
  using cb.reachable_inv by blast

theorem cb_reachable_inv_witness:
  "cb_inv \<lparr>failure_threshold = 1, reset_timeout_s = 10, half_open_max_calls = 1\<rparr>
     (cb_call_end \<lparr>failure_threshold = 1, reset_timeout_s = 10, half_open_max_calls = 1\<rparr>
        (\<lambda>_. 5) Failed breaker_init)"
  by (rule cb_reachable_inv [where clk = "\<lambda>_. 5"], rule reachable_step, rule reachable_start, rule_tac [2] step_end)
    (simp add: cb_start_def cfg_ok_def)

text \<open>
  Fail fast: while the cooldown of an open breaker runs, \<open>allow\<close> refuses the
  call and changes nothing but the number of clock readings.
\<close>

theorem cb_open_fails_fast:
  assumes "cb_state b = CB_OPEN"
    and "clk (cb_reads b) - opened_at b < reset_timeout_s cfg"
  shows "cb_allow cfg clk b = (False, b\<lparr>cb_reads := Suc (cb_reads b)\<rparr>)"
  using assms by (simp add: unf)

theorem cb_open_fails_fast_witness:
  "cb_allow \<lparr>failure_threshold = 1, reset_timeout_s = 10, half_open_max_calls = 1\<rparr> (\<lambda>_. 5)
     (breaker_init\<lparr>cb_state := CB_OPEN\<rparr>)
   = (False, breaker_init\<lparr>cb_state := CB_OPEN, cb_reads := 1\<rparr>)"
  using cb_open_fails_fast [of "breaker_init\<lparr>cb_state := CB_OPEN\<rparr>" "\<lambda>_. 5"
      "\<lparr>failure_threshold = 1, reset_timeout_s = 10, half_open_max_calls = 1\<rparr>"]
  by (simp add: breaker_init_def)

lemma cb_failures_count:
  "cfg_ok cfg \<Longrightarrow>
     consecutive_failures ((cb_on_failure cfg clk ^^ n) breaker_init) = int n \<and>
     cb_state ((cb_on_failure cfg clk ^^ n) breaker_init) =
       (if int n < failure_threshold cfg then CB_CLOSED else CB_OPEN)"
  by (induction n) (auto simp: unf breaker_init_def cfg_ok_def)

text \<open>
  A fresh breaker trips on exactly the \<open>failure_threshold\<close>-th consecutive
  failure.
\<close>

theorem cb_trips_at_threshold:
  assumes "cfg_ok cfg"
  shows "cb_state ((cb_on_failure cfg clk ^^ n) breaker_init) = CB_OPEN \<longleftrightarrow>
    failure_threshold cfg \<le> int n"
  using cb_failures_count [OF assms, where clk = clk and n = n] by auto

theorem cb_trips_at_threshold_witness:
  "cb_state ((cb_on_failure \<lparr>failure_threshold = 3, reset_timeout_s = 10, half_open_max_calls = 1\<rparr>
      (\<lambda>_. 0) ^^ 3) breaker_init) = CB_OPEN"
  using cb_trips_at_threshold [where clk = "\<lambda>_. 0" and n = 3 and
      cfg = "\<lparr>failure_threshold = 3, reset_timeout_s = 10, half_open_max_calls = 1\<rparr>"]
  by (simp add: cfg_ok_def)

text \<open>
  C39: The breaker never wedges: from any state that satisfies the invariant, a call is
  admitted once the cooldown has elapsed, or, when a reserved probe was lost, at the next
  attempt a further cooldown later.
\<close>

theorem cb_never_wedges:
  assumes "cfg_ok cfg" and "cb_inv cfg b"
    and first: "\<And>i. opened_at b + reset_timeout_s cfg \<le> clk1 i"
      "\<And>i. half_open_since b + reset_timeout_s cfg \<le> clk1 i"
    and second: "\<And>i j. clk1 i + reset_timeout_s cfg \<le> clk2 j"
  shows "fst (cb_allow cfg clk1 b) \<or> fst (cb_allow cfg clk2 (snd (cb_allow cfg clk1 b)))"
proof -
  have o: "\<And>i. reset_timeout_s cfg \<le> clk1 i - opened_at b"
    and h: "\<And>i. reset_timeout_s cfg \<le> clk1 i - half_open_since b"
    and s: "\<And>i j. reset_timeout_s cfg \<le> clk2 j - clk1 i"
    using first second by (auto simp: le_diff_eq algebra_simps)
  show ?thesis
  proof (cases "cb_state b")
    case CB_CLOSED
    then show ?thesis by (simp add: unf)
  next
    case CB_OPEN
    with o assms(1) show ?thesis by (auto simp: unf cfg_ok_def)
  next
    case CB_HALF_OPEN
    show ?thesis
    proof (cases "half_open_calls b = 0")
      case True
      with CB_HALF_OPEN assms(1) show ?thesis by (auto simp: unf cfg_ok_def)
    next
      case False
      with assms(2) CB_HALF_OPEN have "0 < half_open_calls b" by (auto simp: cb_inv_def)
      with CB_HALF_OPEN h s assms(1) show ?thesis by (auto simp: unf cfg_ok_def)
    qed
  qed
qed

theorem cb_never_wedges_witness:
  "fst (cb_allow \<lparr>failure_threshold = 1, reset_timeout_s = 10, half_open_max_calls = 1\<rparr> (\<lambda>_. 20)
      (breaker_init\<lparr>cb_state := CB_HALF_OPEN, half_open_calls := 1\<rparr>)) \<or>
   fst (cb_allow \<lparr>failure_threshold = 1, reset_timeout_s = 10, half_open_max_calls = 1\<rparr> (\<lambda>_. 40)
      (snd (cb_allow \<lparr>failure_threshold = 1, reset_timeout_s = 10, half_open_max_calls = 1\<rparr> (\<lambda>_. 20)
        (breaker_init\<lparr>cb_state := CB_HALF_OPEN, half_open_calls := 1\<rparr>))))"
  by (rule cb_never_wedges) (simp_all add: cfg_ok_def cb_inv_def breaker_init_def)

text \<open>
  A cancelled call gives a probe reservation back whether or not it held one. Here a call
  admitted while the breaker was closed is cancelled while another call's probe is
  outstanding: a second probe is then admitted although \<open>half_open_max_calls\<close> is 1 and the
  first probe has not resolved.
\<close>

theorem cb_stale_cancellation_frees_probe:
  "let cfg = \<lparr>failure_threshold = 1, reset_timeout_s = 10, half_open_max_calls = 1\<rparr>;
       clk = (\<lambda>i. if i = 0 then 0 else 10);
       (early_admitted, b) = cb_allow cfg clk breaker_init;
       b = cb_call_end cfg clk Failed (snd (cb_allow cfg clk b));
       (probe1_admitted, b) = cb_allow cfg clk b;
       (extra_before, _) = cb_allow cfg clk b;
       (probe2_admitted, b) = cb_allow cfg clk (cb_call_end cfg clk Cancelled b)
   in early_admitted \<and> probe1_admitted \<and> \<not> extra_before \<and> probe2_admitted \<and>
      cb_state b = CB_HALF_OPEN"
  by (simp add: unf breaker_init_def cb_call_end_def)

section \<open>Degradation and kill switch: properties\<close>

lemma cb_refresh_closed [simp]:
  "cb_state (cb_refresh cfg clk b) = CB_CLOSED \<longleftrightarrow> cb_state b = CB_CLOSED"
  by (auto simp: unf)

lemma open_circuits_names:
  "fst (open_circuits gs) =
     map fst (filter (\<lambda>(_, g). cb_state (g_breaker g) \<noteq> CB_CLOSED) gs)"
  by (induction gs rule: open_circuits.induct)
    (auto simp: cb_read_state_def Let_def split: prod.splits)

lemma open_circuits_raw:
  "map (\<lambda>(n, g). (n, cb_state (g_breaker g) = CB_CLOSED)) (snd (open_circuits gs)) =
     map (\<lambda>(n, g). (n, cb_state (g_breaker g) = CB_CLOSED)) gs"
  by (induction gs rule: open_circuits.induct)
    (auto simp: cb_read_state_def Let_def split: prod.splits)

lemma open_circuits_again:
  "length (fst (open_circuits (snd (open_circuits gs)))) = length (fst (open_circuits gs))"
proof -
  have "length (fst (open_circuits gs)) =
      length (filter (\<lambda>p. \<not> snd p) (map (\<lambda>(n, g). (n, cb_state (g_breaker g) = CB_CLOSED)) gs))"
    for gs
    by (simp add: open_circuits_names) (induction gs, auto)
  then show ?thesis by (metis open_circuits_raw)
qed

text \<open>
  Fail toward safety: autonomy is permitted exactly when fewer than
  \<open>open_threshold\<close> registered breakers are tripped or still probing. The clock
  moves (an open breaker may become half-open under the scan) never change that verdict, nor
  the next one.
\<close>

theorem autonomy_permitted_iff:
  "(fst (autonomy_permitted th gs) \<longleftrightarrow>
     int (length (filter (\<lambda>(_, g). cb_state (g_breaker g) \<noteq> CB_CLOSED) gs)) < th) \<and>
   fst (autonomy_permitted th (snd (autonomy_permitted th gs))) = fst (autonomy_permitted th gs)"
  by (auto simp: autonomy_permitted_def degradation_mode_def Let_def case_prod_beta
      open_circuits_again) (auto simp: open_circuits_names case_prod_beta)

text \<open>A sequence of refreshes, each with what the store returned.\<close>

definition ks_run :: "(string, json) dict option list \<Rightarrow> kill_switch \<Rightarrow> kill_switch" where
  "ks_run reads k = fold (\<lambda>st k. snd (ks_refresh st k)) reads k"

definition ks_well_formed :: "(string, json) dict option \<Rightarrow> bool" where
  "ks_well_formed st = (case st of None \<Rightarrow> True
     | Some state \<Rightarrow> (\<exists>b. dict_get state ''engaged'' = Some (JBool b)))"

lemma ks_refresh_malformed:
  "\<not> ks_well_formed st \<Longrightarrow>
     ks_refresh st k = (Inl (ValueError ''kill-switch state engaged MUST be a boolean''), k)"
  by (auto simp: ks_refresh_def ks_well_formed_def split: option.splits json.splits)

lemma ks_run_malformed: "list_all (\<lambda>st. \<not> ks_well_formed st) reads \<Longrightarrow> ks_run reads k = k"
  by (induction reads) (simp_all add: ks_run_def ks_refresh_malformed)

text \<open>
  The kill switch fails closed: it starts engaged, a malformed record is an error that
  leaves the cached flag alone, and it is disengaged only when the last well-formed read
  said so.
\<close>

theorem kill_switch_fails_closed:
  assumes "\<not> is_engaged (ks_run reads kill_switch_init)"
  shows "\<exists>before st after. reads = before @ st # after \<and>
    (st = None \<or> (\<exists>state. st = Some state \<and> dict_get state ''engaged'' = Some (JBool False))) \<and>
    list_all (\<lambda>st. \<not> ks_well_formed st) after"
proof -
  obtain after' st' where sp: "after' = takeWhile (\<lambda>st. \<not> ks_well_formed st) (rev reads)"
    "st' = dropWhile (\<lambda>st. \<not> ks_well_formed st) (rev reads)" by simp
  have after: "list_all (\<lambda>st. \<not> ks_well_formed st) (rev after')"
    by (auto simp: sp list_all_iff dest: set_takeWhileD)
  have reads: "reads = rev st' @ rev after'"
    by (metis sp rev_append rev_rev_ident takeWhile_dropWhile_id)
  have run: "ks_run reads kill_switch_init = ks_run (rev st') kill_switch_init"
    using ks_run_malformed [OF after] by (simp add: reads ks_run_def)
  show ?thesis
  proof (cases st')
    case Nil
    with run assms show ?thesis by (simp add: ks_run_def is_engaged_def kill_switch_init_def)
  next
    case (Cons st rest)
    then have wf: "ks_well_formed st" using sp(2) by (metis dropWhile_eq_Cons_conv)
    have "\<not> engaged (snd (ks_refresh st (ks_run (rev rest) kill_switch_init)))"
      using assms run Cons by (simp add: ks_run_def is_engaged_def)
    with wf have "st = None \<or> (\<exists>state. st = Some state \<and> dict_get state ''engaged'' = Some (JBool False))"
      by (auto simp: ks_refresh_def ks_well_formed_def split: option.splits)
    with reads Cons after show ?thesis by (auto intro!: exI [of _ "rev rest"])
  qed
qed

theorem kill_switch_fails_closed_witness:
  "\<exists>before st after.
    [Some [(''engaged'', JBool True)], None, Some [(''engaged'', JInt 1)]] = before @ st # after \<and>
    (st = None \<or> (\<exists>state. st = Some state \<and> dict_get state ''engaged'' = Some (JBool False))) \<and>
    list_all (\<lambda>st. \<not> ks_well_formed st) after"
  by (rule kill_switch_fails_closed) (simp add: ks_run_def is_engaged_def ks_refresh_def)

end
