(* ===== verification/Backpressure.thy ===== *)
theory Backpressure
  imports StepSystem
begin

text \<open>
  \<open>shared/resilience/backpressure.py\<close>: the bounded-concurrency gate. \<open>slot()\<close> is an
  asynchronous context manager, so its run is cut into the pieces between suspension
  points: the arrival up to the semaphore, the resumption of a waiter that the semaphore
  woke, the time-out of a waiter, and the exit of the body.

  \<open>asyncio.Semaphore\<close> is described by three counters: the free permits, the waiters that
  are parked, and the waiters that \<open>release\<close> has handed a permit and that the event loop has
  not resumed yet (CPython's FIFO hand-over, \<open>_wake_up_next\<close>). A semaphore is \<open>locked\<close> when
  no permit is free or any waiter is still registered.
\<close>

record bp_config =
  max_concurrency :: int
  max_queued :: int
  acquire_timeout_s :: "rat option"

definition bp_config_init :: "int \<Rightarrow> int \<Rightarrow> rat option \<Rightarrow> bp_config res" where
  "bp_config_init mc mq tmo =
     (if mc < 1 then Inl (ValueError ''max_concurrency MUST be >= 1'')
      else if mq < 0 then Inl (ValueError ''max_queued MUST be >= 0'')
      else if (case tmo of None \<Rightarrow> False | Some t \<Rightarrow> t \<le> 0) then
        Inl (ValueError ''acquire_timeout_s MUST be > 0 when set'')
      else Inr \<lparr>max_concurrency = mc, max_queued = mq, acquire_timeout_s = tmo\<rparr>)"

record bp =
  sem_value :: int
  sem_parked :: int
  sem_woken :: int
  in_flight :: int
  waiting :: int
  shed_count :: int

definition bp_init :: "bp_config \<Rightarrow> bp" where
  "bp_init cfg = \<lparr>sem_value = max_concurrency cfg, sem_parked = 0, sem_woken = 0,
     in_flight = 0, waiting = 0, shed_count = 0\<rparr>"

section \<open>The semaphore\<close>

definition sem_locked :: "bp \<Rightarrow> bool" where
  "sem_locked s = (sem_value s = 0 \<or> sem_parked s + sem_woken s > 0)"

definition sem_wake_next :: "bp \<Rightarrow> bp" where
  "sem_wake_next s = (if sem_parked s > 0
     then s\<lparr>sem_value := sem_value s - 1, sem_parked := sem_parked s - 1,
            sem_woken := sem_woken s + 1\<rparr>
     else s)"

text \<open>
  A waiter that leaves the queue wakes as many others as there are free permits (they may
  have queued behind it in spite of a free permit).
\<close>

definition sem_wake_all :: "bp \<Rightarrow> bp" where
  "sem_wake_all s = (let k = min (sem_value s) (sem_parked s)
     in s\<lparr>sem_value := sem_value s - k, sem_parked := sem_parked s - k,
          sem_woken := sem_woken s + k\<rparr>)"

definition sem_release :: "bp \<Rightarrow> bp" where
  "sem_release s = sem_wake_next (s\<lparr>sem_value := sem_value s + 1\<rparr>)"

section \<open>The pieces of slot()\<close>

definition bp_saturated :: "bp_config \<Rightarrow> bp \<Rightarrow> bool" where
  "bp_saturated cfg s = (in_flight s \<ge> max_concurrency cfg \<and> waiting s \<ge> max_queued cfg)"

text \<open>
  Arrival: shed, or join the queue and, when the semaphore is not locked, take a permit
  without suspending and enter the body. The flag says whether the caller is in the body.
\<close>

definition slot_arrive :: "bp_config \<Rightarrow> bp \<Rightarrow> bool res \<times> bp" where
  "slot_arrive cfg s =
     (if bp_saturated cfg s then (Inl LoadShedError, s\<lparr>shed_count := shed_count s + 1\<rparr>)
      else
        (let s = s\<lparr>waiting := waiting s + 1\<rparr> in
         if sem_locked s then (Inr False, s\<lparr>sem_parked := sem_parked s + 1\<rparr>)
         else (Inr True, s\<lparr>sem_value := sem_value s - 1, waiting := waiting s - 1,
                           in_flight := in_flight s + 1\<rparr>)))"

text \<open>A woken waiter runs again: it leaves the queue and enters the body.\<close>

definition slot_resume :: "bp \<Rightarrow> bp" where
  "slot_resume s =
     (let s = sem_wake_all (s\<lparr>sem_woken := sem_woken s - 1\<rparr>)
      in s\<lparr>waiting := waiting s - 1, in_flight := in_flight s + 1\<rparr>)"

text \<open>
  A waiter times out, still parked or already woken; in the second case the permit goes
  back to the semaphore.
\<close>

definition slot_timeout_parked :: "bp \<Rightarrow> bp" where
  "slot_timeout_parked s = (sem_wake_all (s\<lparr>sem_parked := sem_parked s - 1\<rparr>))
     \<lparr>shed_count := shed_count s + 1, waiting := waiting s - 1\<rparr>"

definition slot_timeout_woken :: "bp \<Rightarrow> bp" where
  "slot_timeout_woken s =
     (sem_wake_all (s\<lparr>sem_woken := sem_woken s - 1, sem_value := sem_value s + 1\<rparr>))
     \<lparr>shed_count := shed_count s + 1, waiting := waiting s - 1\<rparr>"

text \<open>The body ends, normally or not: the \<open>finally\<close> clause.\<close>

definition slot_exit :: "bp \<Rightarrow> bp" where
  "slot_exit s = sem_release (s\<lparr>in_flight := in_flight s - 1\<rparr>)"

text \<open>
  The steps, each enabled when some task is at that point. \<open>calm\<close> restricts the arrivals
  to moments at which no woken waiter is yet to resume.
\<close>

inductive bp_step :: "bp_config \<Rightarrow> bool \<Rightarrow> bp \<Rightarrow> bp \<Rightarrow> bool" for cfg calm where
  bp_arrive: "calm \<longrightarrow> sem_woken s = 0 \<Longrightarrow> bp_step cfg calm s (snd (slot_arrive cfg s))"
| bp_resume: "sem_woken s > 0 \<Longrightarrow> bp_step cfg calm s (slot_resume s)"
| bp_timeout_parked: "acquire_timeout_s cfg \<noteq> None \<Longrightarrow> sem_parked s > 0 \<Longrightarrow>
    bp_step cfg calm s (slot_timeout_parked s)"
| bp_timeout_woken: "acquire_timeout_s cfg \<noteq> None \<Longrightarrow> sem_woken s > 0 \<Longrightarrow>
    bp_step cfg calm s (slot_timeout_woken s)"
| bp_exit: "in_flight s > 0 \<Longrightarrow> bp_step cfg calm s (slot_exit s)"

inductive_cases bp_stepE: "bp_step cfg calm s t"

definition bp_cfg_ok :: "bp_config \<Rightarrow> bool" where
  "bp_cfg_ok cfg = (1 \<le> max_concurrency cfg \<and> 0 \<le> max_queued cfg)"

lemma bp_config_init_ok: "bp_config_init mc mq t = Inr cfg \<Longrightarrow> bp_cfg_ok cfg"
  by (auto simp: bp_config_init_def bp_cfg_ok_def split: if_splits)

definition bp_start :: "bp_config \<Rightarrow> bp \<Rightarrow> bool" where
  "bp_start cfg s = (bp_cfg_ok cfg \<and> s = bp_init cfg)"

section \<open>Invariant: permits are conserved\<close>

definition bp_inv :: "bp_config \<Rightarrow> bp \<Rightarrow> bool" where
  "bp_inv cfg s =
     (0 \<le> sem_value s \<and> 0 \<le> sem_parked s \<and> 0 \<le> sem_woken s \<and> 0 \<le> in_flight s \<and>
      sem_value s + sem_woken s + in_flight s = max_concurrency cfg \<and>
      waiting s = sem_parked s + sem_woken s \<and>
      (sem_parked s > 0 \<longrightarrow> sem_value s = 0 \<or> sem_woken s > 0))"

lemmas bp_unf = bp_inv_def slot_arrive_def slot_resume_def slot_timeout_parked_def
  slot_timeout_woken_def slot_exit_def sem_release_def sem_wake_next_def sem_wake_all_def sem_locked_def
  bp_saturated_def Let_def

lemma bp_inv_init: "bp_start cfg s \<Longrightarrow> bp_inv cfg s"
  by (simp add: bp_start_def bp_init_def bp_inv_def bp_cfg_ok_def)

lemma bp_inv_step: "bp_inv cfg s \<Longrightarrow> bp_step cfg calm s t \<Longrightarrow> bp_inv cfg t"
  by (erule bp_stepE) (auto simp: bp_unf split: if_splits)

interpretation bp: safe_system "bp_start cfg" "bp_step cfg calm" "bp_inv cfg" for cfg calm
  by unfold_locales (auto intro: bp_inv_init bp_inv_step)



text \<open>
  Queue bound: as long as every woken waiter resumes before the next arrival, the wait
  queue never grows past \<open>max_queued\<close>, so at most \<open>max_concurrency + max_queued\<close> coroutines
  are inside \<open>slot()\<close>.
\<close>

lemma bp_calm_queue_step:
  assumes "bp_inv cfg s" and "waiting s \<le> max_queued cfg" and "bp_cfg_ok cfg"
    and "bp_step cfg True s t"
  shows "waiting t \<le> max_queued cfg"
  using assms(4,1-3) by (auto elim!: bp_stepE simp: bp_unf bp_cfg_ok_def split: if_splits)

interpretation bp_calm: safe_system "bp_start cfg" "bp_step cfg True"
  "\<lambda>s. bp_cfg_ok cfg \<and> bp_inv cfg s \<and> waiting s \<le> max_queued cfg" for cfg
proof unfold_locales
  show "bp_cfg_ok cfg \<and> bp_inv cfg s \<and> waiting s \<le> max_queued cfg" if "bp_start cfg s" for s
    using that bp_inv_init [OF that] by (auto simp: bp_start_def bp_init_def bp_cfg_ok_def)
  show "bp_cfg_ok cfg \<and> bp_inv cfg t \<and> waiting t \<le> max_queued cfg"
    if "bp_cfg_ok cfg \<and> bp_inv cfg s \<and> waiting s \<le> max_queued cfg" and "bp_step cfg True s t" for s t
    using that bp_inv_step bp_calm_queue_step by blast
qed

theorem bp_calm_queue_bound:
  assumes "reachable (bp_start cfg) (bp_step cfg True) s"
  shows "waiting s \<le> max_queued cfg \<and> in_flight s + waiting s \<le> max_concurrency cfg + max_queued cfg"
  using bp_calm.reachable_inv [OF assms] by (auto simp: bp_inv_def)

theorem bp_calm_queue_bound_witness:
  "waiting (snd (slot_arrive \<lparr>max_concurrency = 1, max_queued = 1, acquire_timeout_s = None\<rparr>
      (bp_init \<lparr>max_concurrency = 1, max_queued = 1, acquire_timeout_s = None\<rparr>))) \<le> 1"
proof -
  let ?cfg = "\<lparr>max_concurrency = 1, max_queued = 1, acquire_timeout_s = None\<rparr>"
  have "reachable (bp_start ?cfg) (bp_step ?cfg True) (snd (slot_arrive ?cfg (bp_init ?cfg)))"
    by (rule reachable_step, rule reachable_start, rule_tac [2] bp_arrive)
      (simp_all add: bp_start_def bp_cfg_ok_def bp_init_def)
  from bp_calm_queue_bound [OF this] show ?thesis by simp
qed

section \<open>The hand-over window\<close>

text \<open>
  Without that proviso the bound fails. \<open>slot_exit\<close> lowers \<open>in_flight\<close> at once, while the
  woken waiter raises it only when the loop resumes it; arrivals in between see a free slot
  and are queued whatever the length of the queue. So for every \<open>n\<close> a state with \<open>n\<close>
  waiters is reachable, although \<open>slot\<close> documents that the parked coroutines can never
  exceed \<open>max_concurrency + max_queued\<close>.
\<close>

definition bp_window :: "bp_config \<Rightarrow> nat \<Rightarrow> bp" where
  "bp_window cfg n = \<lparr>sem_value = 0, sem_parked = int n, sem_woken = 1,
     in_flight = max_concurrency cfg - 1, waiting = int n + 1, shed_count = 0\<rparr>"

lemma bp_window_reachable:
  assumes "max_concurrency cfg = 1" and "max_queued cfg = 1"
  shows "reachable (bp_start cfg) (bp_step cfg False) (bp_window cfg n)"
proof (induction n)
  case 0
  have 1: "reachable (bp_start cfg) (bp_step cfg False) (bp_init cfg)"
    using assms by (intro reachable_start) (simp add: bp_start_def bp_cfg_ok_def)
  have 2: "reachable (bp_start cfg) (bp_step cfg False) (snd (slot_arrive cfg (bp_init cfg)))"
    by (rule reachable_step [OF 1 bp_arrive]) simp
  have 3: "reachable (bp_start cfg) (bp_step cfg False)
      (snd (slot_arrive cfg (snd (slot_arrive cfg (bp_init cfg)))))"
    by (rule reachable_step [OF 2 bp_arrive]) simp
  have "reachable (bp_start cfg) (bp_step cfg False)
      (slot_exit (snd (slot_arrive cfg (snd (slot_arrive cfg (bp_init cfg))))))"
    by (rule reachable_step [OF 3 bp_exit]) (simp add: assms bp_init_def bp_unf)
  then show ?case by (simp add: assms bp_init_def bp_unf bp_window_def)
next
  case (Suc n)
  have "bp_step cfg False (bp_window cfg n) (snd (slot_arrive cfg (bp_window cfg n)))"
    by (rule bp_arrive) simp
  moreover have "snd (slot_arrive cfg (bp_window cfg n)) = bp_window cfg (Suc n)"
    by (simp add: assms bp_window_def bp_unf)
  ultimately show ?case using Suc by (metis reachable_step)
qed

text \<open>The documented bound fails: the queue has no bound at all.\<close>

theorem bp_queue_unbounded:
  "\<exists>s. reachable (bp_start \<lparr>max_concurrency = 1, max_queued = 1, acquire_timeout_s = None\<rparr>)
         (bp_step \<lparr>max_concurrency = 1, max_queued = 1, acquire_timeout_s = None\<rparr> False) s \<and>
       waiting s = int n + 1 \<and> shed_count s = 0"
  by (rule exI, rule conjI, rule bp_window_reachable [of _ n]) (simp_all add: bp_window_def)

end
