(* ===== verification/Promotion.thy ===== *)
theory Promotion
  imports Contracts StepSystem
begin

text \<open>
  \<open>ActionPromotionRegistry\<close> of \<open>core/risk_gate/gate.py\<close> (with the helpers of
  \<open>development_profile.py\<close> that it delegates to): the shadow or enforce mode of every
  ActionType and the promotion gate in front of it.

  Times are microseconds (aware UTC); each method takes the reading of its clock. The digest
  of an ActionType (\<open>action_type_digest\<close>, a SHA-256 of its canonical JSON) and the receipt
  verifier are functions given to the model. \<open>consider_development_promotion\<close>, whose checks
  are digests over the development-authority contracts, is not modelled.
\<close>

section \<open>Records\<close>

record promotion_metrics =
  pm_action_type :: string
  shadow_days :: int
  samples :: int
  accuracy :: rat
  policy_escapes :: int

definition promotion_metrics_init :: "string \<Rightarrow> int \<Rightarrow> int \<Rightarrow> rat \<Rightarrow> int \<Rightarrow> promotion_metrics res" where
  "promotion_metrics_init name days n acc esc =
     (if name = [] then Inl (ValueError ''action_type MUST NOT be empty'')
      else if days < 0 then Inl (ValueError ''shadow_days MUST be >= 0'')
      else if n < 0 then Inl (ValueError ''samples MUST be >= 0'')
      else if \<not> (0 \<le> acc \<and> acc \<le> 1) then Inl (ValueError ''accuracy MUST be finite and in [0.0, 1.0]'')
      else if esc < 0 then Inl (ValueError ''policy_escapes MUST be >= 0'')
      else Inr \<lparr>pm_action_type = name, shadow_days = days, samples = n, accuracy = acc,
                policy_escapes = esc\<rparr>)"

text \<open>The fields of the promotion receipt that the registry reads.\<close>

record receipt =
  rcp_ready :: bool
  rcp_decision_evidence_digest :: "string option"
  rcp_verification_bundle_digest :: "string option"
  rcp_action_type_name :: string
  rcp_action_type_version :: string
  rcp_action_type_digest :: string
  rcp_live_observation_days :: int
  rcp_sample_count :: int
  rcp_accuracy :: rat
  rcp_policy_escapes :: int
  rcp_evidence_digest :: string
  rcp_policy_digest :: "string option"
  rcp_fdai_revision :: string
  rcp_scenario_set_version :: string

record action_mode_record =
  amr_action_type :: string
  amr_mode :: mode
  promoted_at :: "int option"
  demoted_at :: "int option"
  amr_metrics :: "promotion_metrics option"
  promotion_evidence_digest :: "string option"
  promotion_policy_digest :: "string option"
  fdai_revision :: "string option"
  scenario_set_version :: "string option"
  action_type_version :: "string option"
  action_type_digest :: "string option"
  development_profile_digest :: "string option"
  development_only :: bool
  production_ready :: bool
  development_valid_until :: "int option"
  original_quorum :: "int option"
  effective_quorum :: "int option"

text \<open>The dataclass defaults.\<close>

definition mode_record :: "string \<Rightarrow> mode \<Rightarrow> action_mode_record" where
  "mode_record name m = \<lparr>amr_action_type = name, amr_mode = m, promoted_at = None,
     demoted_at = None, amr_metrics = None, promotion_evidence_digest = None,
     promotion_policy_digest = None, fdai_revision = None, scenario_set_version = None,
     action_type_version = None, action_type_digest = None, development_profile_digest = None,
     development_only = False, production_ready = False, development_valid_until = None,
     original_quorum = None, effective_quorum = None\<rparr>"

text \<open>
  The registry: its two dictionaries and its construction parameters. The verifier is the
  function \<open>verify\<close> of the wired \<open>receipt_verifier\<close>, if any.
\<close>

record registry =
  records :: "string \<Rightarrow> action_mode_record option"
  development_records :: "string \<times> string \<Rightarrow> action_mode_record option"
  receipt_verifier :: "(action_type \<Rightarrow> receipt \<Rightarrow> bool) option"
  allow_legacy_metrics :: bool
  enforcement_enabled :: bool

definition registry_init ::
  "(action_type \<Rightarrow> receipt \<Rightarrow> bool) option \<Rightarrow> bool \<Rightarrow> bool \<Rightarrow> registry" where
  "registry_init ver legacy enf = \<lparr>records = Map.empty, development_records = Map.empty,
     receipt_verifier = ver, allow_legacy_metrics = legacy, enforcement_enabled = enf\<rparr>"

section \<open>Reads\<close>

definition mode_of :: "registry \<Rightarrow> string \<Rightarrow> mode" where
  "mode_of g name =
     (if \<not> enforcement_enabled g then SHADOW
      else (case records g name of Some r \<Rightarrow> amr_mode r | None \<Rightarrow> SHADOW))"

definition development_mode_of :: "registry \<Rightarrow> int \<Rightarrow> string \<Rightarrow> string \<Rightarrow> mode" where
  "development_mode_of g now profile_digest name =
     (if \<not> enforcement_enabled g then SHADOW
      else (case development_records g (profile_digest, name) of
          None \<Rightarrow> SHADOW
        | Some r \<Rightarrow> (case development_valid_until r of
            Some until \<Rightarrow> if now \<ge> until then SHADOW else amr_mode r
          | None \<Rightarrow> amr_mode r)))"

section \<open>Writes\<close>

definition restore :: "registry \<Rightarrow> string \<Rightarrow> action_mode_record option \<Rightarrow> registry" where
  "restore g name r = g\<lparr>records := (records g)(name := r)\<rparr>"

definition metric_passes :: "promotion_gate \<Rightarrow> promotion_metrics \<Rightarrow> bool" where
  "metric_passes gate m =
     (shadow_days m \<ge> min_shadow_days gate \<and> samples m \<ge> min_samples gate \<and>
      accuracy m \<ge> min_accuracy gate \<and> policy_escapes m \<le> max_policy_escapes gate)"

definition receipt_passes ::
  "(action_type \<Rightarrow> string) \<Rightarrow> registry \<Rightarrow> action_type \<Rightarrow> promotion_metrics \<Rightarrow> receipt option \<Rightarrow> bool" where
  "receipt_passes digest g aty m rcp = (case (rcp, receipt_verifier g) of
     (Some r, Some verify) \<Rightarrow>
       rcp_ready r \<and> rcp_decision_evidence_digest r \<noteq> None \<and>
       rcp_verification_bundle_digest r \<noteq> None \<and>
       rcp_action_type_name r = at_name aty \<and> rcp_action_type_version r = at_version aty \<and>
       rcp_action_type_digest r = digest aty \<and>
       rcp_live_observation_days r = shadow_days m \<and> rcp_sample_count r = samples m \<and>
       rcp_accuracy r = accuracy m \<and> rcp_policy_escapes r = policy_escapes m \<and> verify aty r
   | _ \<Rightarrow> False)"

text \<open>The provenance fields that both outcomes copy from the receipt.\<close>

definition with_receipt :: "receipt option \<Rightarrow> action_mode_record \<Rightarrow> action_mode_record" where
  "with_receipt rcp r = r\<lparr>promotion_evidence_digest := map_option rcp_evidence_digest rcp,
     promotion_policy_digest := Option.bind rcp rcp_policy_digest,
     fdai_revision := map_option rcp_fdai_revision rcp,
     scenario_set_version := map_option rcp_scenario_set_version rcp,
     action_type_version := map_option rcp_action_type_version rcp,
     action_type_digest := map_option rcp_action_type_digest rcp\<rparr>"

definition same_authority :: "action_mode_record option \<Rightarrow> receipt option \<Rightarrow> bool" where
  "same_authority prior rcp = (case prior of None \<Rightarrow> False
     | Some p \<Rightarrow> amr_mode p = ENFORCE \<and>
         promotion_evidence_digest p = map_option rcp_evidence_digest rcp \<and>
         promotion_policy_digest p = Option.bind rcp rcp_policy_digest)"

definition promotion_passes ::
  "(action_type \<Rightarrow> string) \<Rightarrow> registry \<Rightarrow> action_type \<Rightarrow> promotion_metrics \<Rightarrow> receipt option \<Rightarrow> bool" where
  "promotion_passes digest g aty m rcp =
     (metric_passes (promotion_gate_of aty) m \<and>
      (receipt_passes digest g aty m rcp \<or> (rcp = None \<and> allow_legacy_metrics g)))"

definition consider_promotion ::
  "(action_type \<Rightarrow> string) \<Rightarrow> int \<Rightarrow> registry \<Rightarrow> action_type \<Rightarrow> promotion_metrics \<Rightarrow> receipt option \<Rightarrow>
     (action_mode_record \<times> registry) res" where
  "consider_promotion digest now g aty m rcp =
     (if pm_action_type m \<noteq> at_name aty
      then Inl (ValueError ''metrics.action_type != action_type.name'')
      else
        (let prior = records g (at_name aty);
             r = (if \<not> enforcement_enabled g then
                    (mode_record (at_name aty) SHADOW)\<lparr>amr_metrics := Some m,
                       action_type_version := Some (at_version aty),
                       action_type_digest := Some (digest aty)\<rparr>
                  else if promotion_passes digest g aty m rcp then
                    with_receipt rcp (mode_record (at_name aty) ENFORCE)
                      \<lparr>promoted_at := (if same_authority prior rcp
                          then Option.bind prior promoted_at else Some now),
                       amr_metrics := Some m, production_ready := True\<rparr>
                  else
                    with_receipt rcp (mode_record (at_name aty) SHADOW)
                      \<lparr>promoted_at := Option.bind prior promoted_at,
                       demoted_at := (case prior of
                           Some p \<Rightarrow> if amr_mode p = ENFORCE then Some now else None
                         | None \<Rightarrow> None),
                       amr_metrics := Some m\<rparr>)
         in Inr (r, g\<lparr>records := (records g)(at_name aty \<mapsto> r)\<rparr>)))"

definition demote ::
  "int \<Rightarrow> registry \<Rightarrow> string \<Rightarrow> promotion_metrics option \<Rightarrow> (action_mode_record \<times> registry) res" where
  "demote now g name m =
     (if name = [] then Inl (ValueError ''action_type_name MUST NOT be empty'')
      else
        (let prior = records g name;
             dem = (case prior of None \<Rightarrow> None
               | Some p \<Rightarrow> if amr_mode p = ENFORCE then Some now else demoted_at p);
             prior_metrics = Option.bind prior amr_metrics;
             r = (mode_record name SHADOW)
               \<lparr>promoted_at := Option.bind prior promoted_at, demoted_at := dem,
                amr_metrics := (if m \<noteq> None then m else prior_metrics)\<rparr>
         in Inr (r, g\<lparr>records := (records g)(name \<mapsto> r)\<rparr>)))"

definition demote_development ::
  "int \<Rightarrow> registry \<Rightarrow> string \<Rightarrow> string \<Rightarrow> (action_mode_record \<times> registry) res" where
  "demote_development now g profile_digest name =
     (if profile_digest = [] \<or> name = []
      then Inl (ValueError ''development demotion identity MUST be complete'')
      else
        (let prior = development_records g (profile_digest, name);
             r = (mode_record name SHADOW)
               \<lparr>promoted_at := Option.bind prior promoted_at,
                demoted_at := (case prior of
                    Some p \<Rightarrow> if amr_mode p = ENFORCE then Some now else None
                  | None \<Rightarrow> None),
                amr_metrics := Option.bind prior amr_metrics,
                development_profile_digest := Some profile_digest,
                development_only := True,
                development_valid_until := Option.bind prior development_valid_until,
                original_quorum := Option.bind prior original_quorum,
                effective_quorum := Option.bind prior effective_quorum\<rparr>
         in Inr (r, g\<lparr>development_records := (development_records g)((profile_digest, name) \<mapsto> r)\<rparr>)))"

section \<open>Enforcement needs a passed gate\<close>

text \<open>
  What an enforce record must carry: it was written for an ActionType of that name whose
  promotion gate its recorded metrics clear, it is marked production ready, and it has a
  promotion time.
\<close>

definition earned :: "string \<Rightarrow> action_mode_record \<Rightarrow> bool" where
  "earned name r = (amr_mode r = ENFORCE \<longrightarrow>
     production_ready r \<and> promoted_at r \<noteq> None \<and>
     (\<exists>(aty::action_type) m. at_name aty = name \<and> amr_metrics r = Some m \<and> pm_action_type m = name \<and>
        metric_passes (promotion_gate_of aty) m))"

definition registry_inv :: "registry \<Rightarrow> bool" where
  "registry_inv g = (\<forall>name r. records g name = Some r \<longrightarrow> earned name r)"

text \<open>
  The production steps. \<open>restore\<close> is used to put back a record that the registry held
  before, so it is modelled with a record that is earned.
\<close>

inductive registry_step :: "(action_type \<Rightarrow> string) \<Rightarrow> registry \<Rightarrow> registry \<Rightarrow> bool" for digest where
  step_consider: "consider_promotion digest now g aty m rcp = Inr (r, g') \<Longrightarrow> registry_step digest g g'"
| step_demote: "demote now g name m = Inr (r, g') \<Longrightarrow> registry_step digest g g'"
| step_demote_dev: "demote_development now g p name = Inr (r, g') \<Longrightarrow> registry_step digest g g'"
| step_restore: "case_option True (earned name) r \<Longrightarrow> registry_step digest g (restore g name r)"

inductive_cases registry_stepE: "registry_step digest g g'"

lemma with_receipt_sel [simp]:
  "amr_mode (with_receipt rcp r) = amr_mode r"
  "amr_metrics (with_receipt rcp r) = amr_metrics r"
  "promoted_at (with_receipt rcp r) = promoted_at r"
  "demoted_at (with_receipt rcp r) = demoted_at r"
  "production_ready (with_receipt rcp r) = production_ready r"
  by (simp_all add: with_receipt_def)

lemma mode_record_sel [simp]:
  "amr_mode (mode_record name m) = m" "promoted_at (mode_record name m) = None"
  "demoted_at (mode_record name m) = None" "amr_metrics (mode_record name m) = None"
  by (simp_all add: mode_record_def)

lemma consider_earned:
  assumes "registry_inv g" and "consider_promotion digest now g aty m rcp = Inr (r, g')"
  shows "earned (at_name aty) r"
proof -
  have prior: "promoted_at p \<noteq> None" if "records g (at_name aty) = Some p" "amr_mode p = ENFORCE" for p
    using assms(1) that by (auto simp: registry_inv_def earned_def)
  show ?thesis
    using assms(2) prior
    by (auto simp: consider_promotion_def earned_def Let_def promotion_passes_def
        same_authority_def split: if_splits option.splits)
qed

lemma shadow_earned: "amr_mode r = SHADOW \<Longrightarrow> earned name r"
  by (simp add: earned_def)

lemma registry_inv_step: "registry_inv g \<Longrightarrow> registry_step digest g g' \<Longrightarrow> registry_inv g'"
proof (erule registry_stepE)
  fix now aty m rcp r
  assume inv: "registry_inv g" and c: "consider_promotion digest now g aty m rcp = Inr (r, g')"
  have "g' = g\<lparr>records := (records g)(at_name aty \<mapsto> r)\<rparr>"
    using c by (auto simp: consider_promotion_def Let_def split: if_splits)
  with inv consider_earned [OF inv c] show "registry_inv g'" by (auto simp: registry_inv_def)
next
  fix now name m r
  assume inv: "registry_inv g" and d: "demote now g name m = Inr (r, g')"
  then have "g' = g\<lparr>records := (records g)(name \<mapsto> r)\<rparr>" and "amr_mode r = SHADOW"
    by (auto simp: demote_def Let_def split: if_splits)
  with inv show "registry_inv g'" by (auto simp: registry_inv_def intro: shadow_earned)
next
  fix now p name r
  assume "registry_inv g" and "demote_development now g p name = Inr (r, g')"
  then show "registry_inv g'"
    by (auto simp: registry_inv_def demote_development_def Let_def split: if_splits)
next
  fix name r
  assume "registry_inv g" and "g' = restore g name r" and "case_option True (earned name) r"
  then show "registry_inv g'" by (auto simp: registry_inv_def restore_def split: option.splits)
qed

definition registry_start :: "registry \<Rightarrow> bool" where
  "registry_start g = (\<exists>ver legacy enf. g = registry_init ver legacy enf)"

interpretation promotion: safe_system registry_start "registry_step digest" registry_inv for digest
proof unfold_locales
  show "registry_inv g" if "registry_start g" for g
    using that by (auto simp: registry_start_def registry_init_def registry_inv_def)
qed (rule registry_inv_step)

lemma enforced_earned:
  assumes "reachable registry_start (registry_step digest) g" and "mode_of g name = ENFORCE"
  shows "enforcement_enabled g \<and>
    (\<exists>r (aty::action_type) m. records g name = Some r \<and> production_ready r \<and> promoted_at r \<noteq> None \<and>
       at_name aty = name \<and> amr_metrics r = Some m \<and> metric_passes (promotion_gate_of aty) m)"
proof -
  have "registry_inv g" by (rule promotion.reachable_inv [OF assms(1)])
  with assms(2) show ?thesis
    by (auto simp: mode_of_def registry_inv_def earned_def split: if_splits option.splits) blast
qed


text \<open>A sample ActionType, metrics and a promotion.\<close>

definition sample_at :: action_type where
  "sample_at = \<lparr>at_name = ''ops.tag'', at_version = ''1.0.0'', at_operation = OpTAG,
     interfaces = [], rollback_contract = PR_REVERT, irreversible = False,
     promotion_gate_of = \<lparr>min_shadow_days = 7, min_samples = 20, min_accuracy = 9 / 10,
       max_policy_escapes = 0\<rparr>,
     preconditions = [],
     at_blast_radius = Some \<lparr>computation = STATIC_ENUM, static_bucket = Some RESOURCE,
       max_affected_resources = None\<rparr>,
     exec_path = Some PR_NATIVE, ceilings = None, env_scope_of = ENV_ANY,
     prod_downgrade_of = None, live_probe_ref = None\<rparr>"

definition sample_metrics :: promotion_metrics where
  "sample_metrics = \<lparr>pm_action_type = ''ops.tag'', shadow_days = 14, samples = 50,
     accuracy = 95 / 100, policy_escapes = 0\<rparr>"

definition promoted_registry :: registry where
  "promoted_registry =
     snd (projr (consider_promotion (\<lambda>_. ''d'') 100 (registry_init None True True)
       sample_at sample_metrics None))"

lemma promoted_registry_step:
  "\<exists>r. consider_promotion (\<lambda>_. ''d'') 100 (registry_init None True True) sample_at sample_metrics None
     = Inr (r, promoted_registry)"
  by (simp add: promoted_registry_def consider_promotion_def sample_at_def sample_metrics_def Let_def)

lemma promoted_registry_reachable:
  "reachable registry_start (registry_step (\<lambda>_. ''d'')) promoted_registry"
proof -
  have "reachable registry_start (registry_step (\<lambda>_. ''d'')) (registry_init None True True)"
    by (rule reachable_start) (auto simp: registry_start_def)
  then show ?thesis using promoted_registry_step by (blast intro: reachable_step step_consider)
qed

lemma promoted_registry_enforces: "mode_of promoted_registry ''ops.tag'' = ENFORCE"
  by (simp add: promoted_registry_def consider_promotion_def sample_at_def sample_metrics_def
      Let_def promotion_passes_def metric_passes_def registry_init_def mode_of_def)


section \<open>Demotion\<close>

text \<open>
  Demotion always lands in shadow, touches no other ActionType, and is idempotent: a second
  demotion, whenever it happens, leaves the first one's timestamp.
\<close>

theorem demote_idempotent:
  assumes "demote t1 g name m = Inr (r1, g1)" and "demote t2 g1 name None = Inr (r2, g2)"
  shows "mode_of g1 name = SHADOW \<and> r2 = r1 \<and> records g2 = records g1 \<and>
    (\<forall>other. other \<noteq> name \<longrightarrow> records g1 other = records g other) \<and>
    development_records g1 = development_records g"
  using assms
  by (auto simp: demote_def Let_def mode_of_def fun_eq_iff mode_record_def split: if_splits option.splits)

theorem demote_idempotent_witness:
  "\<exists>r g1 g2. demote 200 promoted_registry ''ops.tag'' None = Inr (r, g1) \<and>
     demote 300 g1 ''ops.tag'' None = Inr (r, g2) \<and> mode_of g1 ''ops.tag'' = SHADOW"
proof -
  obtain r1 g1 where 1: "demote 200 promoted_registry ''ops.tag'' None = Inr (r1, g1)"
    by (simp add: demote_def Let_def)
  obtain r2 g2 where 2: "demote 300 g1 ''ops.tag'' None = Inr (r2, g2)"
    by (simp add: demote_def Let_def)
  from demote_idempotent [OF 1 2] 1 2 show ?thesis by blast
qed

text \<open>
  A failed re-evaluation is not as careful as \<open>demote\<close>: on an ActionType that is already
  back in shadow it writes a new record without the \<open>demoted_at\<close> of the demotion.
\<close>

theorem failed_promotion_erases_demotion:
  assumes "enforcement_enabled g" and "records g (at_name aty) = Some p"
    and "amr_mode p = SHADOW" and "pm_action_type m = at_name aty"
    and "\<not> metric_passes (promotion_gate_of aty) m"
  shows "\<exists>r g'. consider_promotion digest now g aty m rcp = Inr (r, g') \<and>
    records g' (at_name aty) = Some r \<and> amr_mode r = SHADOW \<and> demoted_at r = None"
  using assms by (simp add: consider_promotion_def promotion_passes_def Let_def)

end
