(* ===== verification/Exemption.thy ===== *)
theory Exemption
  imports Prelude
begin

text \<open>
  \<open>shared/providers/exemption.py\<close>: the human-override registry that the risk gate consults,
  its contract as a locale, and the in-memory and the empty implementation. Times are
  microseconds since the epoch (the code's datetimes are aware UTC here).
\<close>

record exemption_match =
  exemption_id :: string
  em_rule_id :: string
  em_reason :: string
  scope_summary :: string

record exemption_record =
  xr_id :: string
  xr_rule_id :: string
  xr_resource_group :: "string option"
  xr_resource_ref :: "string option"
  expires_at :: int
  revoked_at :: "int option"
  justification :: string

text \<open>The index by rule id, each list in the order of construction.\<close>

definition exemption_index :: "exemption_record list \<Rightarrow> string \<Rightarrow> exemption_record list" where
  "exemption_index records rid = filter (\<lambda>r. xr_rule_id r = rid) records"

definition exemption_active :: "exemption_record \<Rightarrow> int \<Rightarrow> bool" where
  "exemption_active r moment =
     (\<not> (case revoked_at r of None \<Rightarrow> False | Some t \<Rightarrow> t \<le> moment) \<and> \<not> expires_at r \<le> moment)"

definition scope_of :: "exemption_record \<Rightarrow> string \<Rightarrow> string option \<Rightarrow> string option" where
  "scope_of r resource_ref resource_group = (case xr_resource_ref r of
     Some ref \<Rightarrow> if ref \<noteq> resource_ref then None else Some (''resource='' @ ref)
   | None \<Rightarrow> (case xr_resource_group r of
       Some rg \<Rightarrow> if resource_group = None \<or> resource_group \<noteq> Some rg then None
                  else Some (''rg='' @ rg)
     | None \<Rightarrow> None))"

fun first_exemption ::
  "exemption_record list \<Rightarrow> string \<Rightarrow> string \<Rightarrow> string option \<Rightarrow> int \<Rightarrow> exemption_match option" where
  "first_exemption [] rid ref rg moment = None"
| "first_exemption (r # rs) rid ref rg moment =
     (if \<not> exemption_active r moment then first_exemption rs rid ref rg moment
      else (case scope_of r ref rg of
        None \<Rightarrow> first_exemption rs rid ref rg moment
      | Some scope \<Rightarrow> Some \<lparr>exemption_id = xr_id r, em_rule_id = rid,
          em_reason = (if justification r = [] then ''exemption_active'' else justification r),
          scope_summary = scope\<rparr>))"

definition find_match ::
  "exemption_record list \<Rightarrow> string \<Rightarrow> string \<Rightarrow> string option \<Rightarrow> int \<Rightarrow> exemption_match option" where
  "find_match records rid ref rg moment =
     first_exemption (exemption_index records rid) rid ref rg moment"

definition no_match ::
  "unit \<Rightarrow> string \<Rightarrow> string \<Rightarrow> string option \<Rightarrow> int \<Rightarrow> exemption_match option" where
  "no_match u rid ref rg moment = None"

section \<open>The contract\<close>

text \<open>
  What the gate relies on: a match exists exactly when some live override covers the target,
  and it names the rule it was asked about.
\<close>

locale exemption_registry =
  fixes lookup :: "'reg \<Rightarrow> string \<Rightarrow> string \<Rightarrow> string option \<Rightarrow> int \<Rightarrow> exemption_match option"
    and covers :: "'reg \<Rightarrow> string \<Rightarrow> string \<Rightarrow> string option \<Rightarrow> int \<Rightarrow> bool"
  assumes lookup_None: "lookup reg rid ref rg t = None \<longleftrightarrow> \<not> covers reg rid ref rg t"
    and lookup_rule: "lookup reg rid ref rg t = Some m \<Longrightarrow> em_rule_id m = rid"
begin

text \<open>The gate asks for each cited rule in turn and takes the first answer.\<close>

lemma any_lookup:
  "(\<forall>rid\<in>set rids. lookup reg rid ref rg t = None) \<longleftrightarrow> \<not> (\<exists>rid\<in>set rids. covers reg rid ref rg t)"
  by (auto simp: lookup_None)

lemma first_lookup_covers:
  "List.map_filter (\<lambda>rid. lookup reg rid ref rg t) rids = m # ms \<Longrightarrow>
     em_rule_id m \<in> set rids \<and> covers reg (em_rule_id m) ref rg t"
proof (induction rids)
  case (Cons rid rids)
  show ?case
  proof (cases "lookup reg rid ref rg t")
    case None
    with Cons show ?thesis by simp
  next
    case (Some m')
    with Cons.prems have "m' = m" by simp
    moreover have "covers reg rid ref rg t" using Some lookup_None [of reg rid ref rg t] by simp
    ultimately show ?thesis using Some lookup_rule by auto
  qed
qed simp

end

definition record_covers ::
  "exemption_record list \<Rightarrow> string \<Rightarrow> string \<Rightarrow> string option \<Rightarrow> int \<Rightarrow> bool" where
  "record_covers records rid ref rg t =
     list_ex (\<lambda>r. xr_rule_id r = rid \<and> exemption_active r t \<and> scope_of r ref rg \<noteq> None) records"

lemma first_exemption_None:
  "first_exemption rs rid ref rg t = None \<longleftrightarrow>
     \<not> (\<exists>r\<in>set rs. exemption_active r t \<and> scope_of r ref rg \<noteq> None)"
  by (induction rs) (auto split: option.splits)

lemma first_exemption_rule: "first_exemption rs rid ref rg t = Some m \<Longrightarrow> em_rule_id m = rid"
  by (induction rs) (auto split: option.splits if_splits)

interpretation memory: exemption_registry find_match record_covers
  by unfold_locales
    (auto simp: find_match_def record_covers_def exemption_index_def list_ex_iff
      first_exemption_None dest: first_exemption_rule)

interpretation empty_registry: exemption_registry no_match "\<lambda>_ _ _ _ _. False"
  by unfold_locales (simp_all add: no_match_def)

text \<open>
  An override matches only while it is live (not expired, not revoked) and only inside its
  own scope: a resource-scoped override never reaches another resource, a group-scoped one
  never leaves its group, and one without a scope never matches at all.
\<close>

theorem exemption_match_is_live_and_scoped:
  "find_match records rid ref rg t \<noteq> None \<longleftrightarrow>
     (\<exists>r\<in>set records. xr_rule_id r = rid \<and> t < expires_at r \<and>
        (case revoked_at r of None \<Rightarrow> True | Some u \<Rightarrow> t < u) \<and>
        (xr_resource_ref r = Some ref \<or>
         (xr_resource_ref r = None \<and> rg \<noteq> None \<and> xr_resource_group r = rg)))"
proof -
  have "find_match records rid ref rg t \<noteq> None \<longleftrightarrow> record_covers records rid ref rg t"
    by (simp add: memory.lookup_None)
  also have "\<dots> \<longleftrightarrow> (\<exists>r\<in>set records. xr_rule_id r = rid \<and> t < expires_at r \<and>
        (case revoked_at r of None \<Rightarrow> True | Some u \<Rightarrow> t < u) \<and>
        (xr_resource_ref r = Some ref \<or>
         (xr_resource_ref r = None \<and> rg \<noteq> None \<and> xr_resource_group r = rg)))"
    unfolding record_covers_def list_ex_iff
    by (rule bex_cong [OF refl])
      (auto simp: exemption_active_def scope_of_def not_le split: option.splits if_splits)
  finally show ?thesis .
qed

end
