(* ===== verification/RiskTable.thy ===== *)
theory RiskTable
  imports Contracts
begin

text \<open>
  \<open>core/risk_gate/risk_table.py\<close> and \<open>feature.py\<close>: the first-match risk-classification
  table, its loader with the validation of a parsed document, and the extraction of the
  feature vector it is evaluated on.

  Validation issues are modelled by the fixed part of their text; \<open>float\<close> parsing is exact.
\<close>

section \<open>Feature vector\<close>

datatype risk_level = RL_AUTO | RL_HIL | RL_DENY

fun risk_level_value :: "risk_level \<Rightarrow> string" where
  "risk_level_value RL_AUTO = ''auto''"
| "risk_level_value RL_HIL = ''hil''"
| "risk_level_value RL_DENY = ''deny''"

text \<open>Strictness: higher is more permissive.\<close>

fun level_strictness :: "risk_level \<Rightarrow> int" where
  "level_strictness RL_DENY = 0"
| "level_strictness RL_HIL = 1"
| "level_strictness RL_AUTO = 2"

record feature_vector =
  fv_policy_violation :: "bool option"
  fv_destructive :: "bool option"
  fv_irreversible :: "bool option"
  fv_reversible :: "bool option"
  fv_blast_radius :: "string option"
  fv_rollback_path :: "string option"
  fv_environment :: "string option"
  fv_data_plane_touched :: "bool option"
  fv_graph_stale :: "bool option"
  fv_cross_resource_impact :: "int option"
  fv_cost_impact_monthly :: "rat option"
  fv_verifier_confidence :: "rat option"
  fv_allowlist_prod_auto :: "bool option"

definition opt_json :: "('a \<Rightarrow> json) \<Rightarrow> 'a option \<Rightarrow> json" where
  "opt_json f o' = (case o' of None \<Rightarrow> JNull | Some x \<Rightarrow> f x)"

definition as_lookup :: "feature_vector \<Rightarrow> (string, json) dict" where
  "as_lookup v =
    [(''policy_violation'', opt_json JBool (fv_policy_violation v)),
     (''destructive'', opt_json JBool (fv_destructive v)),
     (''irreversible'', opt_json JBool (fv_irreversible v)),
     (''reversible'', opt_json JBool (fv_reversible v)),
     (''blast_radius'', opt_json JStr (fv_blast_radius v)),
     (''rollback_path'', opt_json JStr (fv_rollback_path v)),
     (''environment'', opt_json JStr (fv_environment v)),
     (''data_plane_touched'', opt_json JBool (fv_data_plane_touched v)),
     (''graph_stale'', opt_json JBool (fv_graph_stale v)),
     (''cross_resource_impact'', opt_json JInt (fv_cross_resource_impact v)),
     (''cost_impact_monthly'', opt_json JFloat (fv_cost_impact_monthly v)),
     (''verifier_confidence'', opt_json JFloat (fv_verifier_confidence v)),
     (''allowlist_prod_auto'', opt_json JBool (fv_allowlist_prod_auto v))]"

text \<open>\<open>feature.py\<close>: the producer of the vector.\<close>

fun destructive_op :: "operation \<Rightarrow> bool" where
  "destructive_op OpDELETE = True"
| "destructive_op OpDROP = True"
| "destructive_op OpPURGE = True"
| "destructive_op OpDETACH = True"
| "destructive_op _ = False"

record feature_context =
  fc_environment :: string
  fc_policy_violation :: bool
  fc_verifier_confidence :: "rat option"
  fc_cost_impact_monthly :: "rat option"
  fc_graph_stale :: "bool option"
  fc_cross_resource_impact :: "int option"
  fc_allowlist_prod_auto :: bool

definition feature_vector_from :: "action_type \<Rightarrow> feature_context \<Rightarrow> feature_vector" where
  "feature_vector_from aty c =
     \<lparr>fv_policy_violation = Some (fc_policy_violation c),
      fv_destructive = Some (destructive_op (at_operation aty)),
      fv_irreversible = Some (irreversible aty),
      fv_reversible = Some (\<not> irreversible aty),
      fv_blast_radius = (case at_blast_radius aty of None \<Rightarrow> None
        | Some br \<Rightarrow> map_option blast_scope_value (static_bucket br)),
      fv_rollback_path = Some (rollback_kind_value (rollback_contract aty)),
      fv_environment = Some (fc_environment c),
      fv_data_plane_touched = Some (DATA_PLANE_MUTATING \<in> set (interfaces aty)),
      fv_graph_stale = fc_graph_stale c,
      fv_cross_resource_impact = fc_cross_resource_impact c,
      fv_cost_impact_monthly = fc_cost_impact_monthly c,
      fv_verifier_confidence = fc_verifier_confidence c,
      fv_allowlist_prod_auto = Some (fc_allowlist_prod_auto c)\<rparr>"

section \<open>Rules and evaluation\<close>

datatype condition =
    Equality (cond_key: string) json
  | NumericCompare (cond_key: string) string rat

definition compare_num :: "string \<Rightarrow> rat \<Rightarrow> rat \<Rightarrow> bool" where
  "compare_num op actual threshold =
     (if op = ''>='' then actual \<ge> threshold
      else if op = ''<='' then actual \<le> threshold
      else if op = ''>'' then actual > threshold
      else if op = ''<'' then actual < threshold
      else actual = threshold)"

fun cond_matches :: "condition \<Rightarrow> (string, json) dict \<Rightarrow> bool" where
  "cond_matches (Equality key expected) lookup =
     (case dict_get lookup key of
        None \<Rightarrow> False
      | Some actual \<Rightarrow> actual \<noteq> JNull \<and> py_eq actual expected)"
| "cond_matches (NumericCompare key op threshold) lookup =
     (case dict_get lookup key of
        Some (JInt i) \<Rightarrow> compare_num op (of_int i) threshold
      | Some (JFloat r) \<Rightarrow> compare_num op r threshold
      | _ \<Rightarrow> False)"

record risk_rule =
  rule_id :: string
  decision :: risk_level
  rr_reason :: string
  quorum :: int
  is_default :: bool
  conditions :: "condition list"

definition rule_matches :: "risk_rule \<Rightarrow> (string, json) dict \<Rightarrow> bool" where
  "rule_matches r lookup = (is_default r \<or> list_all (\<lambda>c. cond_matches c lookup) (conditions r))"

definition rule_dimensions :: "risk_rule \<Rightarrow> string list" where
  "rule_dimensions r = remdups (map cond_key (conditions r))"

record risk_verdict =
  rv_decision :: risk_level
  rv_rule_id :: string
  rv_quorum :: int
  rv_reason :: string

record risk_table =
  rt_version :: string
  rt_owner_group :: string
  rt_rules :: "risk_rule list"

definition rule_verdict :: "risk_rule \<Rightarrow> risk_verdict" where
  "rule_verdict r = \<lparr>rv_decision = decision r, rv_rule_id = rule_id r,
     rv_quorum = quorum r, rv_reason = rr_reason r\<rparr>"

definition implicit_default :: risk_verdict where
  "implicit_default = \<lparr>rv_decision = RL_HIL, rv_rule_id = ''implicit-default'',
     rv_quorum = 1, rv_reason = ''no rule matched''\<rparr>"

fun evaluate_rules :: "risk_rule list \<Rightarrow> (string, json) dict \<Rightarrow> risk_verdict" where
  "evaluate_rules [] lookup = implicit_default"
| "evaluate_rules (r # rs) lookup =
     (if rule_matches r lookup then rule_verdict r else evaluate_rules rs lookup)"

definition table_evaluate :: "risk_table \<Rightarrow> feature_vector \<Rightarrow> risk_verdict" where
  "table_evaluate t v = evaluate_rules (rt_rules t) (as_lookup v)"

section \<open>The loader\<close>

definition known_dimensions :: "string list" where
  "known_dimensions =
    [''policy_violation'', ''destructive'', ''irreversible'', ''reversible'', ''blast_radius'',
     ''rollback_path'', ''environment'', ''data_plane_touched'', ''graph_stale'',
     ''cross_resource_impact'', ''cost_impact_monthly'', ''verifier_confidence'',
     ''allowlist_prod_auto'']"

text \<open>
  The condition pattern (an operator, white space, an optional minus, digits, and an
  optional fraction), matched by hand.
\<close>

definition is_digit :: "char \<Rightarrow> bool" where
  "is_digit c = (48 \<le> code_point c \<and> code_point c \<le> 57)"

definition digits_value :: "string \<Rightarrow> nat" where
  "digits_value ds = foldl (\<lambda>n c. 10 * n + (code_point c - 48)) 0 ds"

definition parse_unsigned :: "string \<Rightarrow> rat option" where
  "parse_unsigned s =
     (let whole = takeWhile is_digit s; rest = dropWhile is_digit s in
      if whole = [] then None
      else case rest of
        [] \<Rightarrow> Some (of_nat (digits_value whole))
      | c # fraction \<Rightarrow>
          if c = CHR ''.'' \<and> fraction \<noteq> [] \<and> list_all is_digit fraction
          then Some (of_nat (digits_value whole) + of_nat (digits_value fraction) / 10 ^ length fraction)
          else None)"

definition parse_number :: "string \<Rightarrow> rat option" where
  "parse_number s = (case s of
     c # cs \<Rightarrow> if c = CHR ''-'' then map_option uminus (parse_unsigned cs) else parse_unsigned s
   | [] \<Rightarrow> None)"

definition parse_operand :: "string \<Rightarrow> string \<Rightarrow> (string \<times> rat) option" where
  "parse_operand op s = (if starts_with op s
     then map_option (\<lambda>x. (op, x)) (parse_number (dropWhile py_space (drop (length op) s)))
     else None)"

fun parse_compare_ops :: "string list \<Rightarrow> string \<Rightarrow> (string \<times> rat) option" where
  "parse_compare_ops [] s = None"
| "parse_compare_ops (op # ops) s = (case parse_operand op s of
     Some r \<Rightarrow> Some r | None \<Rightarrow> parse_compare_ops ops s)"

definition parse_compare :: "string \<Rightarrow> (string \<times> rat) option" where
  "parse_compare s = parse_compare_ops [''>='', ''<='', ''>'', ''<'', ''==''] s"

text \<open>
  The loader threads the list of issues: each function takes the issues so far and returns
  them extended.
\<close>

definition make_condition :: "string \<Rightarrow> json \<Rightarrow> string list \<Rightarrow> condition option \<times> string list" where
  "make_condition key value issues =
     (if key \<notin> set known_dimensions then (None, issues @ [''unknown dimension''])
      else (case value of
        JStr s \<Rightarrow>
          (case parse_compare (py_strip s) of
             Some (op, x) \<Rightarrow> (Some (NumericCompare key op x), issues)
           | None \<Rightarrow> (Some (Equality key value), issues))
      | _ \<Rightarrow> (Some (Equality key value), issues)))"

fun all_pairs :: "json list \<Rightarrow> string list \<Rightarrow> (string \<times> json) list \<times> string list" where
  "all_pairs [] issues = ([], issues)"
| "all_pairs (item # items) issues = (case item of
     JObj kvs \<Rightarrow> (let (pairs, issues) = all_pairs items issues in (kvs @ pairs, issues))
   | _ \<Rightarrow> all_pairs items (issues @ [''each `if.all` item MUST be a mapping'']))"

fun make_conditions :: "(string \<times> json) list \<Rightarrow> string list \<Rightarrow> condition list \<times> string list" where
  "make_conditions [] issues = ([], issues)"
| "make_conditions ((key, value) # pairs) issues =
     (let (cond, issues) = make_condition key value issues;
          (conds, issues) = make_conditions pairs issues
      in (case cond of None \<Rightarrow> conds | Some c \<Rightarrow> c # conds, issues))"

definition parse_conditions :: "json option \<Rightarrow> string list \<Rightarrow> condition list \<times> string list" where
  "parse_conditions if_block issues = (case if_block of
     Some (JObj kvs) \<Rightarrow>
       (case dict_get kvs ''all'' of
          Some (JList items) \<Rightarrow>
            (let (pairs, issues) = all_pairs items issues in make_conditions pairs issues)
        | Some _ \<Rightarrow> ([], issues @ [''`if.all` MUST be a list''])
        | None \<Rightarrow> make_conditions kvs issues)
   | _ \<Rightarrow> ([], issues @ [''`if` MUST be a mapping'']))"

definition coerce_level :: "json option \<Rightarrow> string list \<Rightarrow> risk_level \<times> string list" where
  "coerce_level value issues =
     (if value = Some (JStr ''auto'') then (RL_AUTO, issues)
      else if value = Some (JStr ''hil'') then (RL_HIL, issues)
      else if value = Some (JStr ''deny'') then (RL_DENY, issues)
      else (RL_HIL, issues @ [''decision is not one of auto/hil/deny'']))"

definition load_quorum :: "json option \<Rightarrow> string list \<Rightarrow> int \<times> string list" where
  "load_quorum value issues = (case value of
     None \<Rightarrow> (1, issues)
   | Some (JInt n) \<Rightarrow>
       (if n < 1 then (1, issues @ [''quorum MUST be an integer >= 1'']) else (n, issues))
   | Some _ \<Rightarrow> (1, issues @ [''quorum MUST be an integer >= 1'']))"

text \<open>
  One entry of \<open>rules\<close>: the rule it gives and the issues. \<open>str_of\<close> is Python's \<open>str()\<close> on a
  document value.
\<close>

definition load_rule ::
  "(json \<Rightarrow> string) \<Rightarrow> nat \<Rightarrow> json \<Rightarrow> string list \<Rightarrow> risk_rule option \<times> string list" where
  "load_rule str_of index raw issues = (case raw of
     JObj kvs \<Rightarrow>
       (let rid = (case dict_get kvs ''id'' of None \<Rightarrow> ''rule-'' @ str_nat index | Some j \<Rightarrow> str_of j);
            reason = (case dict_get kvs ''reason'' of None \<Rightarrow> [] | Some j \<Rightarrow> str_of j)
        in case dict_get kvs ''default'' of
             Some d \<Rightarrow>
               (let (level, issues) = coerce_level (Some d) issues
                in (Some \<lparr>rule_id = rid, decision = level, rr_reason = reason, quorum = 1,
                          is_default = True, conditions = []\<rparr>, issues))
           | None \<Rightarrow>
               (let (level, issues) = coerce_level (dict_get kvs ''decision'') issues;
                    (q, issues) = load_quorum (dict_get kvs ''quorum'') issues;
                    (conds, issues) = parse_conditions (dict_get kvs ''if'') issues
                in (Some \<lparr>rule_id = rid, decision = level, rr_reason = reason, quorum = q,
                          is_default = False, conditions = conds\<rparr>, issues)))
   | _ \<Rightarrow> (None, issues @ [''rule MUST be a mapping'']))"

fun load_rules ::
  "(json \<Rightarrow> string) \<Rightarrow> nat \<Rightarrow> json list \<Rightarrow> string list \<Rightarrow> risk_rule list \<times> string list" where
  "load_rules str_of index [] issues = ([], issues)"
| "load_rules str_of index (raw # raws) issues =
     (let (r, issues) = load_rule str_of index raw issues;
          (rs, issues) = load_rules str_of (Suc index) raws issues
      in (case r of None \<Rightarrow> rs | Some r \<Rightarrow> r # rs, issues))"

fun validate_ordering :: "risk_rule list \<Rightarrow> int \<Rightarrow> string list \<Rightarrow> string list" where
  "validate_ordering [] seen issues = issues"
| "validate_ordering (r # rs) seen issues =
     (if is_default r then validate_ordering rs seen issues
      else
        (let strict = level_strictness (decision r);
             issues = (if strict < seen
                then issues @ [''rule is out of order: deny rules MUST precede hil, hil MUST precede auto'']
                else issues)
         in validate_ordering rs (max seen strict) issues))"

definition validate_defaults :: "risk_rule list \<Rightarrow> string list \<Rightarrow> string list" where
  "validate_defaults rules issues =
     (let default_rules = filter is_default rules;
          issues = (if length default_rules \<noteq> 1
            then issues @ [''exactly one `default` rule required''] else issues)
      in case default_rules of
           r # _ \<Rightarrow> if decision r = RL_AUTO
             then issues @ [''the `default` (fail-close) rule MUST NOT be `auto`''] else issues
         | [] \<Rightarrow> issues)"

fun is_JStr :: "json option \<Rightarrow> bool" where
  "is_JStr (Some (JStr _)) = True"
| "is_JStr _ = False"

definition json_text :: "(json \<Rightarrow> string) \<Rightarrow> json option \<Rightarrow> string" where
  "json_text str_of v = (case v of Some j \<Rightarrow> str_of j | None \<Rightarrow> str_of JNull)"

definition load_risk_table :: "(json \<Rightarrow> string) \<Rightarrow> json \<Rightarrow> risk_table res" where
  "load_risk_table str_of raw = (case raw of
     JObj kvs \<Rightarrow>
       (let version = dict_get kvs ''version'';
            owner_group = dict_get kvs ''owner_group'';
            issues = (if is_JStr version then [] else [''`version` MUST be a string'']) @
                     (if is_JStr owner_group then [] else [''`owner_group` MUST be a string''])
        in case dict_get kvs ''rules'' of
             Some (JList (r # rs)) \<Rightarrow>
               (let (rules, issues) = load_rules str_of 0 (r # rs) issues;
                    issues = validate_ordering rules (-1) issues;
                    issues = validate_defaults rules issues
                in if issues \<noteq> [] then Inl (RiskTableError issues)
                   else Inr \<lparr>rt_version = json_text str_of version,
                             rt_owner_group = json_text str_of owner_group, rt_rules = rules\<rparr>)
           | _ \<Rightarrow> Inl (RiskTableError (issues @ [''`rules` MUST be a non-empty list''])))
   | _ \<Rightarrow> Inl (RiskTableError [''top-level document MUST be a mapping'']))"

section \<open>First match\<close>

text \<open>The rules in the order deny, hil, auto, the default aside.\<close>

definition ordered_rules :: "risk_rule list \<Rightarrow> bool" where
  "ordered_rules rs = sorted (map (\<lambda>r. level_strictness (decision r)) (filter (\<lambda>r. \<not> is_default r) rs))"

lemma validate_ordering_mono: "issues \<noteq> [] \<Longrightarrow> validate_ordering rs seen issues \<noteq> []"
  by (induction rs seen issues rule: validate_ordering.induct) (auto simp: Let_def)

lemma validate_ordering_ok:
  "validate_ordering rs seen issues = [] \<Longrightarrow>
     issues = [] \<and> ordered_rules rs \<and>
     (\<forall>r\<in>set rs. \<not> is_default r \<longrightarrow> seen \<le> level_strictness (decision r))"
proof (induction rs seen issues rule: validate_ordering.induct)
  case (1 seen issues)
  then show ?case by (simp add: ordered_rules_def)
next
  case (2 r rs seen issues)
  show ?case
  proof (cases "is_default r")
    case True
    with 2 show ?thesis by (auto simp: ordered_rules_def)
  next
    case False
    define strict where "strict = level_strictness (decision r)"
    have ok: "seen \<le> strict"
      using "2.prems" False validate_ordering_mono
      by (cases "strict < seen") (auto simp: Let_def strict_def)
    have "validate_ordering rs (max seen strict) issues = []"
      using "2.prems" False ok by (auto simp: Let_def strict_def split: if_splits)
    with 2(2) [OF False refl] ok have
      "issues = [] \<and> ordered_rules rs \<and>
       (\<forall>r\<in>set rs. \<not> is_default r \<longrightarrow> max seen strict \<le> level_strictness (decision r))"
      by (auto simp: strict_def Let_def)
    with False ok show ?thesis
      by (auto simp: ordered_rules_def strict_def)
  qed
qed

lemma validate_defaults_ok:
  "validate_defaults rs issues = [] \<Longrightarrow>
     issues = [] \<and> (\<exists>r. filter is_default rs = [r] \<and> decision r \<noteq> RL_AUTO)"
  by (auto simp: validate_defaults_def Let_def length_Suc_conv
      split: list.splits if_splits)

text \<open>What the loader guarantees of a table it accepts.\<close>

definition table_ok :: "risk_table \<Rightarrow> bool" where
  "table_ok t = (ordered_rules (rt_rules t) \<and>
     (\<exists>r. filter is_default (rt_rules t) = [r] \<and> decision r \<noteq> RL_AUTO))"

lemma load_risk_table_ok: "load_risk_table str_of raw = Inr t \<Longrightarrow> table_ok t"
  by (auto simp: load_risk_table_def table_ok_def Let_def
      dest!: validate_defaults_ok validate_ordering_ok
      split: json.splits option.splits list.splits prod.splits if_splits)

lemma evaluate_rules_find:
  "evaluate_rules rs lookup = (case find (\<lambda>r. rule_matches r lookup) rs of
     None \<Rightarrow> implicit_default | Some r \<Rightarrow> rule_verdict r)"
  by (induction rs) auto

lemma default_matches [simp]: "is_default r \<Longrightarrow> rule_matches r lookup"
  by (simp add: rule_matches_def)

lemma ordered_first_match:
  assumes "ordered_rules rs" and "find (\<lambda>r. rule_matches r lookup) rs = Some r"
    and "\<not> is_default r" and "r' \<in> set rs" and "\<not> is_default r'" and "rule_matches r' lookup"
  shows "level_strictness (decision r) \<le> level_strictness (decision r')"
  using assms by (induction rs) (auto simp: ordered_rules_def split: if_splits)

text \<open>
  C22: On a table the loader accepts, a verdict that comes from an explicit rule is the
  strictest among all explicit rules that match, so the order of the rules in the document
  cannot let a looser rule win over a matching stricter one.
\<close>

theorem loaded_verdict_strictest:
  assumes "load_risk_table str_of raw = Inr t"
    and "find (\<lambda>r. rule_matches r (as_lookup v)) (rt_rules t) = Some r" and "\<not> is_default r"
  shows "table_evaluate t v = rule_verdict r \<and>
    (\<forall>r'\<in>set (rt_rules t). \<not> is_default r' \<and> rule_matches r' (as_lookup v) \<longrightarrow>
       level_strictness (decision r) \<le> level_strictness (decision r'))"
  using load_risk_table_ok [OF assms(1)] assms(2,3) ordered_first_match
  by (auto simp: table_evaluate_def evaluate_rules_find table_ok_def)

lemma loaded_auto:
  assumes "load_risk_table str_of raw = Inr t" and "rv_decision (table_evaluate t v) = RL_AUTO"
  shows "(\<exists>r\<in>set (rt_rules t). \<not> is_default r \<and> decision r = RL_AUTO \<and>
        list_all (\<lambda>c. cond_matches c (as_lookup v)) (conditions r)) \<and>
    (\<forall>r\<in>set (rt_rules t). \<not> is_default r \<and> rule_matches r (as_lookup v) \<longrightarrow> decision r = RL_AUTO)"
proof -
  have ok: "table_ok t" by (rule load_risk_table_ok [OF assms(1)])
  obtain r where r: "find (\<lambda>r. rule_matches r (as_lookup v)) (rt_rules t) = Some r"
    "decision r = RL_AUTO"
    using assms(2) by (auto simp: table_evaluate_def evaluate_rules_find implicit_default_def
        rule_verdict_def split: option.splits)
  have mem: "r \<in> set (rt_rules t)" and m: "rule_matches r (as_lookup v)"
    using r(1) by (auto simp: find_Some_iff)
  have nd: "\<not> is_default r"
  proof
    assume "is_default r"
    with mem have "r \<in> set (filter is_default (rt_rules t))" by simp
    with ok r(2) show False by (metis empty_iff insert_iff list.set table_ok_def)
  qed
  have "decision r' = RL_AUTO"
    if "r' \<in> set (rt_rules t)" "\<not> is_default r'" "rule_matches r' (as_lookup v)" for r'
    using ordered_first_match [OF _ r(1) nd that] ok r(2)
    by (cases "decision r'") (auto simp: table_ok_def)
  with mem m nd r(2) show ?thesis by (auto simp: rule_matches_def)
qed

text \<open>
  An \<open>auto\<close> verdict of a loaded table is always the work of an explicit
  \<open>auto\<close> rule whose conditions hold, and no \<open>deny\<close> or
  \<open>hil\<close> rule of the table matches the same vector.
\<close>

theorem loaded_auto_unopposed:
  assumes "load_risk_table str_of raw = Inr t" and "rv_decision (table_evaluate t v) = RL_AUTO"
  shows "(\<exists>r\<in>set (rt_rules t). \<not> is_default r \<and> decision r = RL_AUTO \<and>
        list_all (\<lambda>c. cond_matches c (as_lookup v)) (conditions r)) \<and>
    (\<forall>r\<in>set (rt_rules t). \<not> is_default r \<and> rule_matches r (as_lookup v) \<longrightarrow> decision r = RL_AUTO)"
  by (rule loaded_auto [OF assms])

text \<open>A table: deny a policy violation, automate outside production, otherwise ask.\<close>

definition sample_table_doc :: json where
  "sample_table_doc = JObj
    [(''version'', JStr ''1''), (''owner_group'', JStr ''ops''),
     (''rules'', JList
       [JObj [(''id'', JStr ''d''), (''decision'', JStr ''deny''),
              (''if'', JObj [(''policy_violation'', JBool True)])],
        JObj [(''id'', JStr ''a''), (''decision'', JStr ''auto''),
              (''if'', JObj [(''environment'', JStr ''non-prod'')])],
        JObj [(''id'', JStr ''z''), (''default'', JStr ''hil'')]])]"

definition sample_str :: "json \<Rightarrow> string" where
  "sample_str j = (case j of JStr s \<Rightarrow> s | _ \<Rightarrow> [])"

definition sample_table :: risk_table where
  "sample_table = \<lparr>rt_version = ''1'', rt_owner_group = ''ops'', rt_rules =
     [\<lparr>rule_id = ''d'', decision = RL_DENY, rr_reason = [], quorum = 1, is_default = False,
       conditions = [Equality ''policy_violation'' (JBool True)]\<rparr>,
      \<lparr>rule_id = ''a'', decision = RL_AUTO, rr_reason = [], quorum = 1, is_default = False,
       conditions = [Equality ''environment'' (JStr ''non-prod'')]\<rparr>,
      \<lparr>rule_id = ''z'', decision = RL_HIL, rr_reason = [], quorum = 1, is_default = True,
       conditions = []\<rparr>]\<rparr>"

lemma sample_table_loads: "load_risk_table sample_str sample_table_doc = Inr sample_table"
  by code_simp

definition sample_vector :: feature_vector where
  "sample_vector = \<lparr>fv_policy_violation = Some False, fv_destructive = Some False,
     fv_irreversible = Some False, fv_reversible = Some True, fv_blast_radius = Some ''resource'',
     fv_rollback_path = Some ''pr_revert'', fv_environment = Some ''non-prod'',
     fv_data_plane_touched = Some False, fv_graph_stale = None, fv_cross_resource_impact = None,
     fv_cost_impact_monthly = None, fv_verifier_confidence = None,
     fv_allowlist_prod_auto = Some False\<rparr>"

theorem loaded_auto_unopposed_witness:
  "rv_decision (table_evaluate sample_table sample_vector) = RL_AUTO \<and>
   filter (\<lambda>r. \<not> is_default r \<and> rule_matches r (as_lookup sample_vector) \<and>
      decision r \<noteq> RL_AUTO) (rt_rules sample_table) = []"
proof -
  have h: "rv_decision (table_evaluate sample_table sample_vector) = RL_AUTO" by code_simp
  show ?thesis using h loaded_auto_unopposed [OF sample_table_loads h]
    unfolding filter_empty_conv by blast
qed

theorem loaded_verdict_strictest_witness:
  "table_evaluate sample_table sample_vector = rule_verdict (rt_rules sample_table ! 1)"
proof -
  have "find (\<lambda>r. rule_matches r (as_lookup sample_vector)) (rt_rules sample_table) =
      Some (rt_rules sample_table ! 1)" by code_simp
  moreover have "\<not> is_default (rt_rules sample_table ! 1)" by code_simp
  ultimately show ?thesis
    using loaded_verdict_strictest [OF sample_table_loads] by blast
qed

section \<open>Unset signals\<close>

lemma unset_signal_never_matches:
  "dict_get lookup (cond_key c) \<in> {None, Some JNull} \<Longrightarrow> \<not> cond_matches c lookup"
  by (cases c) auto

text \<open>
  A vector without any signal satisfies no condition. The table then falls through every
  explicit rule that has a condition, and the loaded default, never \<open>auto\<close>, decides.
\<close>

definition no_signal :: feature_vector where
  "no_signal = \<lparr>fv_policy_violation = None, fv_destructive = None, fv_irreversible = None,
     fv_reversible = None, fv_blast_radius = None, fv_rollback_path = None,
     fv_environment = None, fv_data_plane_touched = None, fv_graph_stale = None,
     fv_cross_resource_impact = None, fv_cost_impact_monthly = None,
     fv_verifier_confidence = None, fv_allowlist_prod_auto = None\<rparr>"

lemma no_signal_lookup: "dict_get (as_lookup no_signal) k \<in> {None, Some JNull}"
  by (simp add: as_lookup_def no_signal_def opt_json_def)

theorem no_signal_never_auto:
  assumes "load_risk_table str_of raw = Inr t"
    and "\<forall>r\<in>set (rt_rules t). is_default r \<or> conditions r \<noteq> []"
  shows "rv_decision (table_evaluate t no_signal) \<noteq> RL_AUTO"
proof
  assume "rv_decision (table_evaluate t no_signal) = RL_AUTO"
  with loaded_auto [OF assms(1)] obtain r where
    r: "r \<in> set (rt_rules t)" "\<not> is_default r"
      "list_all (\<lambda>c. cond_matches c (as_lookup no_signal)) (conditions r)" by blast
  with assms(2) have "conditions r \<noteq> []" by blast
  with r(3) obtain c where "cond_matches c (as_lookup no_signal)" by (cases "conditions r") auto
  with unset_signal_never_matches [OF no_signal_lookup] show False by blast
qed

section \<open>Two documents the loader should not accept\<close>

text \<open>
  An explicit rule with an empty \<open>if\<close> has no condition and matches everything. The loader
  rejects an \<open>auto\<close> default because an unmatched event must fail toward safety, yet accepts
  this \<open>auto\<close> catch-all, so every vector is automated.
\<close>

definition empty_if_doc :: json where
  "empty_if_doc = JObj
    [(''version'', JStr ''1''), (''owner_group'', JStr ''ops''),
     (''rules'', JList
       [JObj [(''id'', JStr ''a''), (''decision'', JStr ''auto''), (''if'', JObj [])],
        JObj [(''id'', JStr ''z''), (''default'', JStr ''hil'')]])]"

theorem empty_if_is_auto_default:
  "\<exists>t. load_risk_table sample_str empty_if_doc = Inr t \<and>
       (\<forall>v. rv_decision (table_evaluate t v) = RL_AUTO)"
proof -
  have "load_risk_table sample_str empty_if_doc = Inr \<lparr>rt_version = ''1'', rt_owner_group = ''ops'',
      rt_rules = [\<lparr>rule_id = ''a'', decision = RL_AUTO, rr_reason = [], quorum = 1,
          is_default = False, conditions = []\<rparr>,
        \<lparr>rule_id = ''z'', decision = RL_HIL, rr_reason = [], quorum = 1, is_default = True,
          conditions = []\<rparr>]\<rparr>"
    by code_simp
  then show ?thesis
    by (auto simp: table_evaluate_def rule_matches_def rule_verdict_def)
qed

text \<open>
  \<open>validate_ordering\<close> skips the default rule instead of requiring it last, so a default
  in front shadows a deny rule.
\<close>

definition default_first_doc :: json where
  "default_first_doc = JObj
    [(''version'', JStr ''1''), (''owner_group'', JStr ''ops''),
     (''rules'', JList
       [JObj [(''id'', JStr ''z''), (''default'', JStr ''hil'')],
        JObj [(''id'', JStr ''d''), (''decision'', JStr ''deny''),
              (''if'', JObj [(''destructive'', JBool True)])]])]"

theorem default_first_shadows_deny:
  "\<exists>t r. load_risk_table sample_str default_first_doc = Inr t \<and> r \<in> set (rt_rules t) \<and>
      decision r = RL_DENY \<and>
      rule_matches r (as_lookup (sample_vector\<lparr>fv_destructive := Some True\<rparr>)) \<and>
      (\<forall>v. rv_decision (table_evaluate t v) = RL_HIL)"
proof -
  let ?d = "\<lparr>rule_id = ''d'', decision = RL_DENY, rr_reason = [], quorum = 1,
          is_default = False, conditions = [Equality ''destructive'' (JBool True)]\<rparr>"
  let ?t = "\<lparr>rt_version = ''1'', rt_owner_group = ''ops'',
      rt_rules = [\<lparr>rule_id = ''z'', decision = RL_HIL, rr_reason = [], quorum = 1,
          is_default = True, conditions = []\<rparr>, ?d]\<rparr>"
  have "load_risk_table sample_str default_first_doc = Inr ?t" by code_simp
  moreover have "rule_matches ?d (as_lookup (sample_vector\<lparr>fv_destructive := Some True\<rparr>))"
    by code_simp
  ultimately show ?thesis
    by (intro exI [of _ ?t] exI [of _ ?d])
      (simp add: table_evaluate_def rule_verdict_def)
qed

theorem no_signal_never_auto_witness:
  "rv_decision (table_evaluate sample_table no_signal) \<noteq> RL_AUTO"
proof -
  have "\<forall>r\<in>set (rt_rules sample_table). is_default r \<or> conditions r \<noteq> []"
    by (simp add: sample_table_def)
  from no_signal_never_auto [OF sample_table_loads this] show ?thesis .
qed

end
