(* ===== verification/Ceiling.thy ===== *)
theory Ceiling
  imports RiskTable
begin

text \<open>
  \<open>core/risk_gate/ceiling.py\<close> and \<open>live_probe.py\<close>: the six-axis execution-authority
  ceiling, its two fail-safe axes, and the resolution of a recorded live-probe reading into
  the input of axis E.
\<close>

section \<open>Autonomy levels\<close>

text \<open>\<open>AxisLevel\<close> is an \<open>IntEnum\<close>: the levels are ordered by their value.\<close>

datatype axis_level = AX_DENY | AX_SHADOW_ONLY | AX_ENFORCE_HIL | AX_ENFORCE_AUTO

fun axis_value :: "axis_level \<Rightarrow> nat" where
  "axis_value AX_DENY = 0"
| "axis_value AX_SHADOW_ONLY = 1"
| "axis_value AX_ENFORCE_HIL = 2"
| "axis_value AX_ENFORCE_AUTO = 3"

lemma axis_value_inject [simp]: "axis_value a = axis_value b \<longleftrightarrow> a = b"
  by (cases a; cases b) auto

instantiation axis_level :: linorder
begin

definition less_eq_axis_level :: "axis_level \<Rightarrow> axis_level \<Rightarrow> bool" where
  "a \<le> b \<longleftrightarrow> axis_value a \<le> axis_value b"

definition less_axis_level :: "axis_level \<Rightarrow> axis_level \<Rightarrow> bool" where
  "a < b \<longleftrightarrow> axis_value a < axis_value b"

instance
  by standard (auto simp: less_eq_axis_level_def less_axis_level_def)

end

lemmas axis_order = less_eq_axis_level_def less_axis_level_def

lemma axis_le_auto [simp]: "a \<le> AX_ENFORCE_AUTO"
  by (cases a) (simp_all add: axis_order)

lemma axis_deny_le [simp]: "AX_DENY \<le> a"
  by (cases a) (simp_all add: axis_order)

lemma axis_auto_le [simp]: "AX_ENFORCE_AUTO \<le> a \<longleftrightarrow> a = AX_ENFORCE_AUTO"
  by (cases a) (simp_all add: axis_order)

fun axis_name_lower :: "axis_level \<Rightarrow> string" where
  "axis_name_lower AX_DENY = ''deny''"
| "axis_name_lower AX_SHADOW_ONLY = ''shadow_only''"
| "axis_name_lower AX_ENFORCE_HIL = ''enforce_hil''"
| "axis_name_lower AX_ENFORCE_AUTO = ''enforce_auto''"

datatype probe_result = PROBE_QUIET | PROBE_ACTIVE | PROBE_OVERLOADED

datatype principal_role = NoPrincipal | Role ceiling_role | Breakglass

datatype env = PRODUCTION | NON_PRODUCTION

fun autonomy_to_axis :: "autonomy \<Rightarrow> axis_level" where
  "autonomy_to_axis AUT_SHADOW_ONLY = AX_SHADOW_ONLY"
| "autonomy_to_axis AUT_ENFORCE_HIL = AX_ENFORCE_HIL"
| "autonomy_to_axis AUT_ENFORCE_AUTO = AX_ENFORCE_AUTO"

fun table_to_axis :: "risk_level \<Rightarrow> axis_level" where
  "table_to_axis RL_AUTO = AX_ENFORCE_AUTO"
| "table_to_axis RL_HIL = AX_ENFORCE_HIL"
| "table_to_axis RL_DENY = AX_DENY"

fun role_rank :: "ceiling_role \<Rightarrow> int" where
  "role_rank READER = 0"
| "role_rank CONTRIBUTOR = 1"
| "role_rank APPROVER = 2"
| "role_rank OWNER = 3"

fun tier_default_ceiling :: "tier \<Rightarrow> axis_level" where
  "tier_default_ceiling T0 = AX_ENFORCE_AUTO"
| "tier_default_ceiling T1 = AX_ENFORCE_HIL"
| "tier_default_ceiling T2 = AX_SHADOW_ONLY"

fun tier_hard_cap :: "tier \<Rightarrow> axis_level" where
  "tier_hard_cap T0 = AX_ENFORCE_AUTO"
| "tier_hard_cap T1 = AX_ENFORCE_AUTO"
| "tier_hard_cap T2 = AX_SHADOW_ONLY"

section \<open>The axes\<close>

record axis_contribution =
  ax_name :: string
  ax_level :: axis_level
  ax_reason :: string

record resolved_ceiling =
  rc_tier :: tier
  rc_action_type_name :: string
  rc_axes :: "axis_contribution list"
  winning_axis :: string
  final_level :: axis_level
  final_quorum :: int
  final_path :: "execution_path option"

definition axis :: "string \<Rightarrow> axis_level \<Rightarrow> string \<Rightarrow> axis_contribution" where
  "axis n l r = \<lparr>ax_name = n, ax_level = l, ax_reason = r\<rparr>"

lemma axis_sel [simp]:
  "ax_name (axis n l r) = n" "ax_level (axis n l r) = l" "ax_reason (axis n l r) = r"
  by (simp_all add: axis_def)

fun tier_entry :: "tier \<Rightarrow> ceiling_by_tier \<Rightarrow> tier_ceiling option" where
  "tier_entry T0 c = ceil_t0 c"
| "tier_entry T1 c = ceil_t1 c"
| "tier_entry T2 c = ceil_t2 c"

definition tier_ceiling_autonomy :: "tier \<Rightarrow> action_type \<Rightarrow> autonomy option" where
  "tier_ceiling_autonomy tier aty = (case ceilings aty of None \<Rightarrow> None
     | Some c \<Rightarrow> map_option max_autonomy (tier_entry tier c))"

definition tier_min_role :: "tier \<Rightarrow> action_type \<Rightarrow> ceiling_role option" where
  "tier_min_role tier aty = (case ceilings aty of None \<Rightarrow> None
     | Some c \<Rightarrow> map_option min_role (tier_entry tier c))"

definition axis_a_table :: "risk_verdict \<Rightarrow> axis_contribution" where
  "axis_a_table v = axis ''risk_table'' (table_to_axis (rv_decision v))
     (''risk-classification matched_rule='' @ rv_rule_id v)"

definition axis_b_tier :: "tier \<Rightarrow> axis_contribution" where
  "axis_b_tier tier = axis ''tier'' (tier_hard_cap tier) (''tier='' @ tier_value tier)"

definition axis_c_ceiling :: "tier \<Rightarrow> action_type \<Rightarrow> axis_contribution" where
  "axis_c_ceiling tier aty = (case tier_ceiling_autonomy tier aty of
     Some declared \<Rightarrow> axis ''ceiling'' (autonomy_to_axis declared)
       (''ceiling_by_tier.'' @ tier_value tier @ ''.max_autonomy'')
   | None \<Rightarrow> axis ''ceiling'' (tier_default_ceiling tier)
       (''tier default ('' @ tier_value tier @ '')''))"

definition axis_d_static_blast :: "action_type \<Rightarrow> int option \<Rightarrow> axis_contribution" where
  "axis_d_static_blast aty graph_affected = (case at_blast_radius aty of
     None \<Rightarrow> axis ''static_blast'' AX_ENFORCE_HIL
       ''no blast_radius declared (unknown impact -> HIL)''
   | Some br \<Rightarrow>
       (if computation br = GRAPH_DERIVED then
          (case (graph_affected, max_affected_resources br) of
             (Some affected, Some cap) \<Rightarrow>
               (if affected > cap then
                  axis ''static_blast'' AX_ENFORCE_HIL
                    (''graph_derived affected='' @ str_int affected @ ''>max='' @ str_int cap)
                else axis ''static_blast'' AX_ENFORCE_AUTO ''graph_derived within cap'')
           | _ \<Rightarrow> axis ''static_blast'' AX_ENFORCE_HIL
                    ''graph_derived unknown affected-count or cap -> HIL'')
        else (case static_bucket br of
             Some SUBSCRIPTION \<Rightarrow> axis ''static_blast'' AX_DENY ''static_bucket=subscription''
           | Some RESOURCE_GROUP \<Rightarrow>
               axis ''static_blast'' AX_ENFORCE_HIL ''static_bucket=resource_group''
           | _ \<Rightarrow> axis ''static_blast'' AX_ENFORCE_AUTO ''static_bucket=resource'')))"

fun probe_value :: "probe_result \<Rightarrow> string" where
  "probe_value PROBE_QUIET = ''quiet''"
| "probe_value PROBE_ACTIVE = ''active''"
| "probe_value PROBE_OVERLOADED = ''overloaded''"

fun probe_to_axis :: "probe_result \<Rightarrow> axis_level" where
  "probe_to_axis PROBE_QUIET = AX_ENFORCE_AUTO"
| "probe_to_axis PROBE_ACTIVE = AX_ENFORCE_HIL"
| "probe_to_axis PROBE_OVERLOADED = AX_SHADOW_ONLY"

text \<open>\<open>reason or default\<close>: an absent or empty reason gives the default.\<close>

definition or_default :: "string option \<Rightarrow> string \<Rightarrow> string" where
  "or_default r d = (case r of None \<Rightarrow> d | Some s \<Rightarrow> if s = [] then d else s)"

definition axis_e_live_blast :: "probe_result option \<Rightarrow> string option \<Rightarrow> axis_contribution" where
  "axis_e_live_blast probe reason = (case probe of
     None \<Rightarrow> axis ''live_blast'' AX_ENFORCE_AUTO (or_default reason ''no live probe (no opinion)'')
   | Some p \<Rightarrow> axis ''live_blast'' (probe_to_axis p) (or_default reason (''probe='' @ probe_value p)))"

definition axis_f_role :: "tier \<Rightarrow> action_type \<Rightarrow> principal_role \<Rightarrow> axis_contribution" where
  "axis_f_role tier aty prin =
     (if prin = Breakglass
      then axis ''role'' AX_ENFORCE_HIL ''breakglass eligible (never auto)''
      else (case tier_min_role tier aty of
        None \<Rightarrow> axis ''role'' AX_ENFORCE_AUTO ''no min_role (unrestricted)''
      | Some mr \<Rightarrow> (case prin of
          Role p \<Rightarrow>
            (if role_rank p \<ge> role_rank mr then axis ''role'' AX_ENFORCE_AUTO
               (''principal='' @ ceiling_role_value p @ ''>=min_role='' @ ceiling_role_value mr)
             else axis ''role'' AX_DENY
               (''principal='' @ ceiling_role_value p @ ''<min_role='' @ ceiling_role_value mr))
        | _ \<Rightarrow> axis ''role'' AX_DENY (''no principal < min_role='' @ ceiling_role_value mr))))"

definition axis_g_env :: "action_type \<Rightarrow> env \<Rightarrow> axis_contribution" where
  "axis_g_env aty e =
     (if e \<noteq> PRODUCTION then axis ''env'' AX_ENFORCE_AUTO ''not-prod''
      else (case prod_downgrade_of aty of
        Some pd \<Rightarrow> axis ''env'' (autonomy_to_axis (pd_mode pd))
          (''prod_downgrade.mode='' @ autonomy_value (pd_mode pd))
      | None \<Rightarrow>
          (if env_scope_of aty = ENV_NON_PROD
           then axis ''env'' AX_ENFORCE_AUTO
             ''env_scope=non_prod (dev-only; prod handled by risk_table)''
           else axis ''env'' AX_ENFORCE_AUTO
             ''prod without prod_downgrade (deferred to risk_table env)'')))"

definition axis_h_system_health :: axis_contribution where
  "axis_h_system_health = axis ''system_health'' AX_SHADOW_ONLY
     ''degraded: critical dependency circuit open (autonomy capped to shadow)''"

definition axis_kill_switch :: axis_contribution where
  "axis_kill_switch = axis ''kill_switch'' AX_SHADOW_ONLY
     ''kill_switch engaged: all auto-execution halted (operator emergency stop)''"

text \<open>The inputs of \<open>resolve_ceiling\<close>.\<close>

record ceiling_query =
  q_tier :: tier
  q_action_type :: action_type
  q_verdict :: risk_verdict
  q_principal :: principal_role
  q_env :: env
  q_graph_affected :: "int option"
  q_live_probe :: "probe_result option"
  q_live_probe_reason :: "string option"
  q_degraded :: bool
  q_kill_switch :: bool

definition ceiling_axes :: "ceiling_query \<Rightarrow> axis_contribution list" where
  "ceiling_axes q =
     [axis_a_table (q_verdict q),
      axis_b_tier (q_tier q),
      axis_c_ceiling (q_tier q) (q_action_type q),
      axis_d_static_blast (q_action_type q) (q_graph_affected q),
      axis_e_live_blast (q_live_probe q) (q_live_probe_reason q),
      axis_f_role (q_tier q) (q_action_type q) (q_principal q),
      axis_g_env (q_action_type q) (q_env q)]
     @ (if q_degraded q then [axis_h_system_health] else [])
     @ (if q_kill_switch q then [axis_kill_switch] else [])"

definition resolve_ceiling :: "ceiling_query \<Rightarrow> resolved_ceiling" where
  "resolve_ceiling q =
     (let axes = ceiling_axes q;
          winning = min_by ax_level (hd axes) (tl axes)
      in \<lparr>rc_tier = q_tier q,
          rc_action_type_name = at_name (q_action_type q),
          rc_axes = axes,
          winning_axis = ax_name winning,
          final_level = ax_level winning,
          final_quorum = rv_quorum (q_verdict q),
          final_path = exec_path (q_action_type q)\<rparr>)"

section \<open>Live probe\<close>

datatype probe_verdict = PV_QUIET | PV_ACTIVE | PV_OVERLOADED | PV_NO_OPINION

record live_probe_observation =
  probe_id :: string
  verdict :: probe_verdict
  degraded :: bool
  age_seconds :: "rat option"
  max_age_seconds :: "rat option"

definition probe_observation_valid :: "live_probe_observation \<Rightarrow> bool" where
  "probe_observation_valid ob = (py_strip (probe_id ob) \<noteq> [])"

definition is_fresh :: "live_probe_observation \<Rightarrow> bool" where
  "is_fresh ob = (case (age_seconds ob, max_age_seconds ob) of
     (Some age, Some mx) \<Rightarrow> \<not> (age < 0 \<or> mx \<le> 0) \<and> age \<le> mx
   | _ \<Rightarrow> False)"

record live_probe_axis =
  lp_result :: "probe_result option"
  lp_reason :: string

fun probe_axis_rank :: "probe_result \<Rightarrow> int" where
  "probe_axis_rank PROBE_QUIET = 2"
| "probe_axis_rank PROBE_ACTIVE = 1"
| "probe_axis_rank PROBE_OVERLOADED = 0"

definition floor_at_active :: "probe_result \<Rightarrow> probe_result" where
  "floor_at_active c =
     (if probe_axis_rank c \<le> probe_axis_rank PROBE_ACTIVE then c else PROBE_ACTIVE)"

fun verdict_to_probe :: "probe_verdict \<Rightarrow> probe_result option" where
  "verdict_to_probe PV_QUIET = Some PROBE_QUIET"
| "verdict_to_probe PV_ACTIVE = Some PROBE_ACTIVE"
| "verdict_to_probe PV_OVERLOADED = Some PROBE_OVERLOADED"
| "verdict_to_probe PV_NO_OPINION = None"

definition failure_escalation_threshold :: int where
  "failure_escalation_threshold = 3"

definition lp_axis :: "probe_result option \<Rightarrow> string \<Rightarrow> live_probe_axis" where
  "lp_axis r why = \<lparr>lp_result = r, lp_reason = why\<rparr>"

definition resolve_live_probe_axis ::
  "action_type \<Rightarrow> live_probe_observation option \<Rightarrow> int \<Rightarrow> live_probe_axis" where
  "resolve_live_probe_axis aty observation failure_streak = (case live_probe_ref aty of
     None \<Rightarrow> (case observation of
         None \<Rightarrow> lp_axis None ''no live_probe_ref (no opinion)''
       | Some ob \<Rightarrow> lp_axis (Some PROBE_ACTIVE)
           (''unsolicited probe reading '' @ py_repr (probe_id ob) @ '' (no live_probe_ref)''))
   | Some ref \<Rightarrow>
       (if failure_streak \<ge> failure_escalation_threshold then
          lp_axis (Some PROBE_OVERLOADED)
            (''probe '' @ py_repr ref @ '' blind for '' @ str_int failure_streak @ '' consecutive attempts'')
        else (case observation of
          None \<Rightarrow> lp_axis (Some PROBE_ACTIVE) (''probe '' @ py_repr ref @ '' unavailable'')
        | Some ob \<Rightarrow>
            (if probe_id ob \<noteq> ref then
               lp_axis (Some PROBE_ACTIVE)
                 (''probe reading '' @ py_repr (probe_id ob) @ '' does not match ref '' @ py_repr ref)
             else (case verdict_to_probe (verdict ob) of
               None \<Rightarrow> lp_axis (Some PROBE_ACTIVE) (''probe '' @ py_repr ref @ '' returned no opinion'')
             | Some c \<Rightarrow>
                 (if degraded ob then
                    lp_axis (Some (floor_at_active c))
                      (''probe '' @ py_repr ref @ '' degraded ('' @ probe_value c @ '')'')
                  else if \<not> is_fresh ob then
                    lp_axis (Some (floor_at_active c))
                      (''probe '' @ py_repr ref @ '' stale ('' @ probe_value c @ '')'')
                  else lp_axis (Some c) (''probe '' @ py_repr ref @ ''='' @ probe_value c)))))))"

section \<open>The ceiling is a minimum\<close>

lemma ceiling_axes_hd_tl: "set (ceiling_axes q) = insert (hd (ceiling_axes q)) (set (tl (ceiling_axes q)))"
proof -
  have "ceiling_axes q \<noteq> []" by (simp add: ceiling_axes_def)
  then show ?thesis by (cases "ceiling_axes q") simp_all
qed

lemma final_level_Min: "final_level (resolve_ceiling q) = Min (ax_level ` set (ceiling_axes q))"
  by (simp add: resolve_ceiling_def Let_def min_by_Min ceiling_axes_hd_tl [of q] del: Min_insert)

lemma final_level_le: "a \<in> set (ceiling_axes q) \<Longrightarrow> final_level (resolve_ceiling q) \<le> ax_level a"
  by (simp add: final_level_Min)

text \<open>
  No axis raises: the final level is below every contribution, and it is the contribution
  of the axis the audit entry names as winning.
\<close>

theorem ceiling_is_least_autonomous:
  "(\<forall>a\<in>set (rc_axes (resolve_ceiling q)). final_level (resolve_ceiling q) \<le> ax_level a) \<and>
   (\<exists>a\<in>set (rc_axes (resolve_ceiling q)).
      ax_name a = winning_axis (resolve_ceiling q) \<and> ax_level a = final_level (resolve_ceiling q))"
proof
  show "\<forall>a\<in>set (rc_axes (resolve_ceiling q)). final_level (resolve_ceiling q) \<le> ax_level a"
    using final_level_le [of _ q] by (auto simp: resolve_ceiling_def Let_def)
  let ?w = "min_by ax_level (hd (ceiling_axes q)) (tl (ceiling_axes q))"
  have "?w \<in> set (ceiling_axes q)"
    using min_by_in [of ax_level "hd (ceiling_axes q)" "tl (ceiling_axes q)"]
    unfolding ceiling_axes_hd_tl [symmetric] .
  then show "\<exists>a\<in>set (rc_axes (resolve_ceiling q)).
      ax_name a = winning_axis (resolve_ceiling q) \<and> ax_level a = final_level (resolve_ceiling q)"
    by (auto simp: resolve_ceiling_def Let_def)
qed

lemma final_level_auto_iff:
  "final_level (resolve_ceiling q) = AX_ENFORCE_AUTO \<longleftrightarrow>
     (\<forall>a\<in>set (ceiling_axes q). ax_level a = AX_ENFORCE_AUTO)"
proof
  assume "final_level (resolve_ceiling q) = AX_ENFORCE_AUTO"
  then show "\<forall>a\<in>set (ceiling_axes q). ax_level a = AX_ENFORCE_AUTO"
    using final_level_le [of _ q] by force
next
  assume all: "\<forall>a\<in>set (ceiling_axes q). ax_level a = AX_ENFORCE_AUTO"
  have "ceiling_axes q \<noteq> []" by (simp add: ceiling_axes_def)
  then have "ax_level ` set (ceiling_axes q) = {AX_ENFORCE_AUTO}" using all by (cases "ceiling_axes q") auto
  then show "final_level (resolve_ceiling q) = AX_ENFORCE_AUTO" by (simp add: final_level_Min)
qed

text \<open>The blast radius a decision may be automated on.\<close>

definition blast_within :: "action_type \<Rightarrow> int option \<Rightarrow> bool" where
  "blast_within aty affected = (case at_blast_radius aty of
     None \<Rightarrow> False
   | Some br \<Rightarrow> (if computation br = GRAPH_DERIVED
       then (\<exists>n cap. affected = Some n \<and> max_affected_resources br = Some cap \<and> n \<le> cap)
       else static_bucket br \<notin> {Some SUBSCRIPTION, Some RESOURCE_GROUP}))"

lemma axis_d_auto_iff: "ax_level (axis_d_static_blast aty g) = AX_ENFORCE_AUTO \<longleftrightarrow> blast_within aty g"
  by (auto simp: axis_d_static_blast_def blast_within_def split: option.splits blast_scope.splits)

lemma axis_f_auto_iff:
  "ax_level (axis_f_role tier aty p) = AX_ENFORCE_AUTO \<longleftrightarrow>
     p \<noteq> Breakglass \<and>
     (\<forall>mr. tier_min_role tier aty = Some mr \<longrightarrow> (\<exists>r. p = Role r \<and> role_rank mr \<le> role_rank r))"
  by (auto simp: axis_f_role_def split: option.splits principal_role.splits)

lemma ceiling_auto:
  "final_level (resolve_ceiling q) = AX_ENFORCE_AUTO \<longleftrightarrow>
     rv_decision (q_verdict q) = RL_AUTO \<and> q_tier q \<noteq> T2 \<and>
     (case tier_ceiling_autonomy (q_tier q) (q_action_type q) of
        Some a \<Rightarrow> a = AUT_ENFORCE_AUTO | None \<Rightarrow> q_tier q = T0) \<and>
     blast_within (q_action_type q) (q_graph_affected q) \<and>
     q_live_probe q \<in> {None, Some PROBE_QUIET} \<and>
     q_principal q \<noteq> Breakglass \<and>
     (\<forall>mr. tier_min_role (q_tier q) (q_action_type q) = Some mr \<longrightarrow>
        (\<exists>r. q_principal q = Role r \<and> role_rank mr \<le> role_rank r)) \<and>
     (q_env q = PRODUCTION \<longrightarrow> (\<forall>pd. prod_downgrade_of (q_action_type q) = Some pd \<longrightarrow>
        pd_mode pd = AUT_ENFORCE_AUTO)) \<and>
     \<not> q_degraded q \<and> \<not> q_kill_switch q"
proof -
  have a: "ax_level (axis_a_table v) = AX_ENFORCE_AUTO \<longleftrightarrow> rv_decision v = RL_AUTO" for v
    by (cases "rv_decision v") (simp_all add: axis_a_table_def)
  have b: "ax_level (axis_b_tier t) = AX_ENFORCE_AUTO \<longleftrightarrow> t \<noteq> T2" for t
    by (cases t) (simp_all add: axis_b_tier_def)
  have c: "ax_level (axis_c_ceiling t aty) = AX_ENFORCE_AUTO \<longleftrightarrow>
     (case tier_ceiling_autonomy t aty of Some a \<Rightarrow> a = AUT_ENFORCE_AUTO | None \<Rightarrow> t = T0)" for t aty
    by (cases t) (auto simp: axis_c_ceiling_def split: option.splits intro: autonomy_to_axis.elims)
  have e: "ax_level (axis_e_live_blast p r) = AX_ENFORCE_AUTO \<longleftrightarrow> p \<in> {None, Some PROBE_QUIET}" for p r
    by (auto simp: axis_e_live_blast_def split: option.splits elim: probe_to_axis.elims)
  have g: "ax_level (axis_g_env aty e) = AX_ENFORCE_AUTO \<longleftrightarrow>
     (e = PRODUCTION \<longrightarrow> (\<forall>pd. prod_downgrade_of aty = Some pd \<longrightarrow> pd_mode pd = AUT_ENFORCE_AUTO))" for aty e
    by (auto simp: axis_g_env_def split: option.splits elim: autonomy_to_axis.elims)
  have hk: "ax_level axis_h_system_health \<noteq> AX_ENFORCE_AUTO" "ax_level axis_kill_switch \<noteq> AX_ENFORCE_AUTO"
    by (simp_all add: axis_h_system_health_def axis_kill_switch_def)
  show ?thesis
    unfolding final_level_auto_iff ceiling_axes_def
    by (simp add: ball_Un a b c e g axis_d_auto_iff axis_f_auto_iff hk)
qed

text \<open>
  When the ceiling lets an action run without a human: exactly when the table says
  \<open>auto\<close>, the tier is not T2, the declared (or, for T0, default) tier ceiling
  is automatic, the blast radius is known and inside its cap, the probe is silent or quiet,
  the principal is not break-glass and holds the required role, production does not
  downgrade, and neither fail-safe is active.
\<close>

theorem ceiling_auto_iff:
  "final_level (resolve_ceiling q) = AX_ENFORCE_AUTO \<longleftrightarrow>
     rv_decision (q_verdict q) = RL_AUTO \<and> q_tier q \<noteq> T2 \<and>
     (case tier_ceiling_autonomy (q_tier q) (q_action_type q) of
        Some a \<Rightarrow> a = AUT_ENFORCE_AUTO | None \<Rightarrow> q_tier q = T0) \<and>
     blast_within (q_action_type q) (q_graph_affected q) \<and>
     q_live_probe q \<in> {None, Some PROBE_QUIET} \<and>
     q_principal q \<noteq> Breakglass \<and>
     (\<forall>mr. tier_min_role (q_tier q) (q_action_type q) = Some mr \<longrightarrow>
        (\<exists>r. q_principal q = Role r \<and> role_rank mr \<le> role_rank r)) \<and>
     (q_env q = PRODUCTION \<longrightarrow> (\<forall>pd. prod_downgrade_of (q_action_type q) = Some pd \<longrightarrow>
        pd_mode pd = AUT_ENFORCE_AUTO)) \<and>
     \<not> q_degraded q \<and> \<not> q_kill_switch q"
  by (rule ceiling_auto)

lemma fail_safe_caps:
  assumes "q_kill_switch q \<or> q_degraded q \<or> q_tier q = T2"
  shows "final_level (resolve_ceiling q) \<le> AX_SHADOW_ONLY"
proof -
  have k: "final_level (resolve_ceiling q) \<le> AX_SHADOW_ONLY" if "q_kill_switch q"
    using final_level_le [of axis_kill_switch q] that
    by (simp add: ceiling_axes_def) (simp add: axis_kill_switch_def)
  have d: "final_level (resolve_ceiling q) \<le> AX_SHADOW_ONLY" if "q_degraded q"
    using final_level_le [of axis_h_system_health q] that
    by (simp add: ceiling_axes_def) (simp add: axis_h_system_health_def)
  have t: "final_level (resolve_ceiling q) \<le> AX_SHADOW_ONLY" if "q_tier q = T2"
    using final_level_le [of "axis_b_tier T2" q] that
    by (simp add: ceiling_axes_def) (simp add: axis_b_tier_def)
  show ?thesis using k d t assms by blast
qed

text \<open>
  The fail-safe caps: an engaged kill switch, a degraded control plane or tier T2 leaves at
  most shadow, whatever the other axes say; and the two fail-safe inputs only ever lower the
  level of the same query without them.
\<close>

theorem ceiling_fail_safe:
  "(q_kill_switch q \<or> q_degraded q \<or> q_tier q = T2 \<longrightarrow>
      final_level (resolve_ceiling q) \<le> AX_SHADOW_ONLY) \<and>
   final_level (resolve_ceiling q) \<le>
      final_level (resolve_ceiling (q\<lparr>q_degraded := False, q_kill_switch := False\<rparr>))"
proof
  show "q_kill_switch q \<or> q_degraded q \<or> q_tier q = T2 \<longrightarrow>
      final_level (resolve_ceiling q) \<le> AX_SHADOW_ONLY"
    using fail_safe_caps by blast
  have "set (ceiling_axes (q\<lparr>q_degraded := False, q_kill_switch := False\<rparr>)) \<subseteq> set (ceiling_axes q)"
    by (auto simp: ceiling_axes_def)
  then show "final_level (resolve_ceiling q) \<le>
      final_level (resolve_ceiling (q\<lparr>q_degraded := False, q_kill_switch := False\<rparr>))"
    unfolding final_level_Min by (intro Min_antimono image_mono) (auto simp: ceiling_axes_def)
qed

section \<open>The probe never raises\<close>

text \<open>
  The probe axis speaks for autonomy in one case only: the ActionType names the probe, the
  reading is its own, quiet, undegraded and provably fresh, and the failure streak is short.
  Without a declared probe a reading can only lower the axis.
\<close>

theorem live_probe_quiet_iff:
  "ax_level (axis_e_live_blast (lp_result (resolve_live_probe_axis aty observation streak)) why)
     = AX_ENFORCE_AUTO \<longleftrightarrow>
   (case live_probe_ref aty of
      None \<Rightarrow> observation = None
    | Some ref \<Rightarrow> streak < 3 \<and> (\<exists>ob. observation = Some ob \<and> probe_id ob = ref \<and>
        verdict ob = PV_QUIET \<and> \<not> degraded ob \<and>
        (\<exists>age mx. age_seconds ob = Some age \<and> max_age_seconds ob = Some mx \<and>
           0 \<le> age \<and> 0 < mx \<and> age \<le> mx)))"
proof (cases "live_probe_ref aty")
  case None
  then show ?thesis
    by (auto simp: resolve_live_probe_axis_def axis_e_live_blast_def lp_axis_def split: option.splits)
next
  case (Some ref)
  show ?thesis
  proof (cases observation)
    case None
    with Some show ?thesis
      by (auto simp: resolve_live_probe_axis_def axis_e_live_blast_def lp_axis_def)
  next
    case (Some ob)
    with \<open>live_probe_ref aty = Some ref\<close> show ?thesis
      by (cases "verdict ob"; cases "age_seconds ob"; cases "max_age_seconds ob")
        (auto simp: resolve_live_probe_axis_def axis_e_live_blast_def lp_axis_def is_fresh_def
          floor_at_active_def failure_escalation_threshold_def)
  qed
qed

end
