(* ===== verification/Approval.thy ===== *)
theory Approval
  imports Ceiling
begin

text \<open>
  Approval profiles (\<open>fdai_service_contracts/approval_profile.py\<close>) and the operator policy
  that may only lower autonomy (\<open>core/risk_gate/approval_profile.py\<close> and
  \<open>operator_policy.py\<close>).

  A time is an aware datetime in microseconds; \<open>isofmt\<close> and \<open>from_iso\<close> stand for
  \<open>datetime.isoformat\<close> and \<open>datetime.fromisoformat\<close> (\<open>None\<close> for a \<open>ValueError\<close>,
  \<open>Some None\<close> for a naive datetime), \<open>sha\<close> for the digest of the canonical JSON.
\<close>

section \<open>Profiles\<close>

datatype approval_profile_kind = MULTI_OPERATOR | SINGLE_OPERATOR_PRODUCTION

fun profile_kind_value :: "approval_profile_kind \<Rightarrow> string" where
  "profile_kind_value MULTI_OPERATOR = ''multi-operator''"
| "profile_kind_value SINGLE_OPERATOR_PRODUCTION = ''single-operator-production''"

datatype approval_refusal =
  BLANK_APPROVER | UNKNOWN_REQUESTER | SELF_APPROVAL | UNNAMED_PRINCIPAL | APPROVER_IS_EXECUTOR

definition normalized :: "string \<Rightarrow> string" where
  "normalized value = py_casefold (py_strip value)"

definition is_hex :: "char \<Rightarrow> bool" where
  "is_hex c = (let n = code_point c in (48 \<le> n \<and> n \<le> 57) \<or> (97 \<le> n \<and> n \<le> 102))"

definition require_digest :: "string \<Rightarrow> bool" where
  "require_digest value =
     (let lowered = py_lower value in
      \<not> (length value \<noteq> 71 \<or> \<not> starts_with ''sha256:'' lowered \<or>
         list_ex (\<lambda>ch. \<not> is_hex ch) (drop 7 lowered) \<or> value \<noteq> lowered))"

record approval_profile =
  revision_id :: string
  profile_kind :: approval_profile_kind
  executor_principal :: string
  policy_digest :: string
  effective_from :: int
  operator_principal :: "string option"

text \<open>\<open>__post_init__\<close>\<close>

definition profile_init :: "approval_profile \<Rightarrow> approval_profile res" where
  "profile_init p =
     (if py_strip (revision_id p) = [] then Inl (ValueError ''revision_id MUST be non-empty'')
      else if py_strip (executor_principal p) = [] then Inl (ValueError ''executor_principal MUST be non-empty'')
      else if \<not> require_digest (policy_digest p)
      then Inl (ValueError ''policy_digest MUST be a lowercase sha256 digest'')
      else
        (let operator = py_strip (case operator_principal p of None \<Rightarrow> [] | Some s \<Rightarrow> s) in
         if profile_kind p = SINGLE_OPERATOR_PRODUCTION then
           (if operator = []
            then Inl (ValueError ''single-operator-production MUST name one operator principal'')
            else if normalized operator = normalized (executor_principal p)
            then Inl (ValueError ''the named operator MUST NOT be the executor principal'')
            else Inr p)
         else if operator_principal p \<noteq> None
         then Inl (ValueError ''multi-operator profile MUST NOT name an operator principal'')
         else Inr p))"

definition is_single_operator :: "approval_profile \<Rightarrow> bool" where
  "is_single_operator p = (profile_kind p = SINGLE_OPERATOR_PRODUCTION)"

definition names :: "approval_profile \<Rightarrow> string \<Rightarrow> bool" where
  "names p who = (is_single_operator p \<and>
     (case operator_principal p of None \<Rightarrow> False
      | Some operator \<Rightarrow> py_strip who \<noteq> [] \<and> normalized who = normalized operator))"

section \<open>Approvals\<close>

record approval_decision =
  allowed :: bool
  ad_profile :: approval_profile_kind
  original_quorum_of :: int
  effective_quorum_of :: int
  refusal :: "approval_refusal option"
  ad_operator :: "string option"
  self_review :: bool

definition effective_quorum_for :: "approval_profile option \<Rightarrow> int \<Rightarrow> int res" where
  "effective_quorum_for profile original_quorum =
     (if original_quorum < 1 then Inl (ValueError ''original quorum MUST be an integer >= 1'')
      else (case profile of
          Some p \<Rightarrow> if is_single_operator p then Inr 1 else Inr original_quorum
        | None \<Rightarrow> Inr original_quorum))"

definition executors :: "approval_profile option \<Rightarrow> string option \<Rightarrow> string list" where
  "executors profile executor =
     map normalized (filter (\<lambda>v. py_strip v \<noteq> [])
       (List.map_filter id [map_option executor_principal profile, executor]))"

definition evaluate_profile_approval ::
  "approval_profile option \<Rightarrow> string \<Rightarrow> string \<Rightarrow> int \<Rightarrow> string option \<Rightarrow> approval_decision res" where
  "evaluate_profile_approval profile approver requester original_quorum executor =
     bind_res (effective_quorum_for profile original_quorum) (\<lambda>effective_quorum.
       let kind = (case profile of None \<Rightarrow> MULTI_OPERATOR | Some p \<Rightarrow> profile_kind p);
           operator = Option.bind profile operator_principal;
           refuse = (\<lambda>reason. \<lparr>allowed = False, ad_profile = kind, original_quorum_of = original_quorum,
             effective_quorum_of = effective_quorum, refusal = Some reason, ad_operator = operator,
             self_review = False\<rparr>)
       in if py_strip approver = [] then Inr (refuse BLANK_APPROVER)
          else if py_strip requester = [] then Inr (refuse UNKNOWN_REQUESTER)
          else if normalized approver \<in> set (executors profile executor)
          then Inr (refuse APPROVER_IS_EXECUTOR)
          else
            (let self_approval = (normalized approver = normalized requester);
                 multi = Inr \<lparr>allowed = True, ad_profile = kind, original_quorum_of = original_quorum,
                    effective_quorum_of = effective_quorum, refusal = None, ad_operator = None,
                    self_review = False\<rparr>
             in case profile of
                  None \<Rightarrow> if self_approval then Inr (refuse SELF_APPROVAL) else multi
                | Some p \<Rightarrow>
                    if \<not> is_single_operator p then
                      (if self_approval then Inr (refuse SELF_APPROVAL) else multi)
                    else if \<not> names p approver then Inr (refuse UNNAMED_PRINCIPAL)
                    else Inr \<lparr>allowed = True, ad_profile = kind, original_quorum_of = original_quorum,
                      effective_quorum_of = effective_quorum, refusal = None, ad_operator = operator,
                      self_review = self_approval\<rparr>))"

definition profile_transition_quorum ::
  "approval_profile option \<Rightarrow> approval_profile \<Rightarrow> int \<Rightarrow> int res" where
  "profile_transition_quorum active proposed governance_quorum =
     (if governance_quorum < 2
      then Inl (ValueError ''multi-operator governance quorum MUST be an integer >= 2'')
      else (case active of
          Some a \<Rightarrow> if is_single_operator a then Inr 1 else Inr governance_quorum
        | None \<Rightarrow> Inr governance_quorum))"

section \<open>Audit projection\<close>

definition profile_as_audit_dict :: "(int \<Rightarrow> string) \<Rightarrow> approval_profile \<Rightarrow> (string, json) dict" where
  "profile_as_audit_dict isofmt p =
     [(''revision_id'', JStr (revision_id p)),
      (''approval_profile'', JStr (profile_kind_value (profile_kind p))),
      (''operator_principal'', (case operator_principal p of None \<Rightarrow> JNull | Some s \<Rightarrow> JStr s)),
      (''executor_principal'', JStr (executor_principal p)),
      (''policy_digest'', JStr (policy_digest p)),
      (''effective_from'', JStr (isofmt (effective_from p)))]"

definition revision_digest_fields :: "string list" where
  "revision_digest_fields = [''revision_id'', ''approval_profile'', ''executor_principal'',
     ''effective_from'', ''operator_principal'']"

definition dict_get_null :: "(string, json) dict \<Rightarrow> string \<Rightarrow> json" where
  "dict_get_null d k = (case dict_get d k of None \<Rightarrow> JNull | Some v \<Rightarrow> v)"

text \<open>\<open>sha\<close> digests the mapping of the fields to their values.\<close>

definition approval_profile_policy_digest ::
  "((string \<times> json) list \<Rightarrow> string) \<Rightarrow> (string, json) dict \<Rightarrow> string" where
  "approval_profile_policy_digest sha revision =
     ''sha256:'' @ sha (map (\<lambda>field. (field, dict_get_null revision field)) revision_digest_fields)"

definition approval_profile_effective_from ::
  "(int \<Rightarrow> string) \<Rightarrow> (string \<Rightarrow> int option option) \<Rightarrow> json \<Rightarrow> int res" where
  "approval_profile_effective_from isofmt from_iso value = (case value of
     JStr s \<Rightarrow> (case from_iso s of
         None \<Rightarrow> Inl (ValueError ''effective_from MUST be valid ISO 8601'')
       | Some None \<Rightarrow> Inl (ValueError ''effective_from MUST be timezone-aware'')
       | Some (Some t) \<Rightarrow> if s \<noteq> isofmt t then Inl (ValueError ''effective_from MUST be canonical'') else Inr t)
   | _ \<Rightarrow> Inl (ValueError ''effective_from MUST be a string''))"

fun parse_profile_kind :: "string \<Rightarrow> approval_profile_kind option" where
  "parse_profile_kind s =
     (if s = ''multi-operator'' then Some MULTI_OPERATOR
      else if s = ''single-operator-production'' then Some SINGLE_OPERATOR_PRODUCTION else None)"

definition audit_required_fields :: "string list" where
  "audit_required_fields = [''revision_id'', ''approval_profile'', ''executor_principal'',
     ''policy_digest'', ''effective_from'']"

text \<open>\<open>str_of\<close> is Python's \<open>str()\<close> on a value; on a string it is the identity.\<close>

definition approval_profile_from_audit_dict ::
  "((string \<times> json) list \<Rightarrow> string) \<Rightarrow> (int \<Rightarrow> string) \<Rightarrow> (string \<Rightarrow> int option option) \<Rightarrow>
     (json \<Rightarrow> string) \<Rightarrow> (string, json) dict option \<Rightarrow> approval_profile option res" where
  "approval_profile_from_audit_dict sha isofmt from_iso str_of raw = (case raw of
     None \<Rightarrow> Inr None
   | Some d \<Rightarrow>
       (if list_ex (\<lambda>field. dict_get d field = None) audit_required_fields
        then Inl (ValueError ''approval profile payload is malformed'')
        else if dict_get d ''policy_digest'' \<noteq> Some (JStr (approval_profile_policy_digest sha d))
        then Inl (ValueError ''approval profile payload digest is mismatched'')
        else bind_res (approval_profile_effective_from isofmt from_iso (dict_get_null d ''effective_from''))
          (\<lambda>t. case parse_profile_kind (str_of (dict_get_null d ''approval_profile'')) of
               None \<Rightarrow> Inl (ValueError ''approval profile payload is malformed'')
             | Some kind \<Rightarrow>
                 (case profile_init \<lparr>revision_id = str_of (dict_get_null d ''revision_id''),
                      profile_kind = kind,
                      executor_principal = str_of (dict_get_null d ''executor_principal''),
                      policy_digest = str_of (dict_get_null d ''policy_digest''),
                      effective_from = t,
                      operator_principal = (case dict_get d ''operator_principal'' of
                          None \<Rightarrow> None | Some JNull \<Rightarrow> None | Some j \<Rightarrow> Some (str_of j))\<rparr> of
                    Inl e \<Rightarrow> Inl (ValueError ''approval profile payload is malformed'')
                  | Inr p \<Rightarrow> Inr (Some p)))))"

section \<open>Operator policy\<close>

datatype operator_outcome = OP_ALLOW | OP_REQUIRE_APPROVAL | OP_DENY

fun operator_outcome_level :: "operator_outcome \<Rightarrow> axis_level" where
  "operator_outcome_level OP_ALLOW = AX_ENFORCE_AUTO"
| "operator_outcome_level OP_REQUIRE_APPROVAL = AX_ENFORCE_HIL"
| "operator_outcome_level OP_DENY = AX_DENY"

record operator_policy =
  op_revision_id :: string
  op_policy_digest :: string
  op_outcome :: operator_outcome

definition operator_policy_init :: "string \<Rightarrow> string \<Rightarrow> operator_outcome \<Rightarrow> operator_policy res" where
  "operator_policy_init rid digest out =
     (if py_strip rid = [] then Inl (ValueError ''operator policy revision_id MUST be non-empty'')
      else if \<not> require_digest digest
      then Inl (ValueError ''operator policy policy_digest MUST be a lowercase sha256 digest'')
      else Inr \<lparr>op_revision_id = rid, op_policy_digest = digest, op_outcome = out\<rparr>)"

definition apply_operator_policy :: "axis_level \<Rightarrow> operator_policy option \<Rightarrow> axis_level" where
  "apply_operator_policy level policy = (case policy of
     None \<Rightarrow> level | Some p \<Rightarrow> min level (operator_outcome_level (op_outcome p)))"

text \<open>
  \<open>OperatorPolicyDecisionBinder.bind\<close>. Each awaited call (with its time-out) gives an
  exception or a value; the stored revision is seen through its id, its digest and whether
  its content is an admission policy.
\<close>

record policy_revision =
  pr_revision_id :: string
  pr_content_digest :: string
  pr_is_admission :: bool

definition zero_digest :: string where
  "zero_digest = ''sha256:'' @ replicate 64 (CHR ''0'')"

definition bind_policy_try ::
  "string option res \<Rightarrow> (string \<Rightarrow> policy_revision option res) \<Rightarrow>
     (policy_revision \<Rightarrow> operator_outcome res) \<Rightarrow> operator_policy option res" where
  "bind_policy_try active revision evaluate = bind_res active (\<lambda>rid. case rid of
     None \<Rightarrow> Inr None
   | Some rid \<Rightarrow> bind_res (revision rid) (\<lambda>rev. case rev of
         None \<Rightarrow> map_sum id Some (operator_policy_init rid zero_digest OP_REQUIRE_APPROVAL)
       | Some r \<Rightarrow>
           (if \<not> pr_is_admission r
            then map_sum id Some (operator_policy_init rid zero_digest OP_REQUIRE_APPROVAL)
            else bind_res (evaluate r) (\<lambda>out.
              map_sum id Some (operator_policy_init (pr_revision_id r) (pr_content_digest r) out)))))"

definition bind_policy ::
  "string option res \<Rightarrow> (string \<Rightarrow> policy_revision option res) \<Rightarrow>
     (policy_revision \<Rightarrow> operator_outcome res) \<Rightarrow> operator_policy option" where
  "bind_policy active revision evaluate = (case bind_policy_try active revision evaluate of
     Inr p \<Rightarrow> p
   | Inl _ \<Rightarrow> Some \<lparr>op_revision_id = ''evaluation-error'', op_policy_digest = zero_digest,
       op_outcome = OP_REQUIRE_APPROVAL\<rparr>)"

section \<open>Lowering stages\<close>

text \<open>
  A stage of the pipeline that takes a level and may only lower it. What survives such a
  stage as automatic was automatic before, and a denial stays a denial.
\<close>

locale lowering =
  fixes stage :: "axis_level \<Rightarrow> axis_level"
  assumes never_raises: "stage l \<le> l"
begin

lemma auto_before: "stage l = AX_ENFORCE_AUTO \<Longrightarrow> l = AX_ENFORCE_AUTO"
  using never_raises [of l] by simp

lemma deny_stays: "stage AX_DENY = AX_DENY"
  using never_raises [of AX_DENY] by (simp add: eq_iff)

lemma bound_kept: "l \<le> b \<Longrightarrow> stage l \<le> b"
  using never_raises [of l] by (rule order_trans)

end

interpretation operator_stage: lowering "\<lambda>l. apply_operator_policy l policy" for policy
  by unfold_locales (simp add: apply_operator_policy_def split: option.splits)

section \<open>Properties\<close>

definition single_profile :: "approval_profile option \<Rightarrow> bool" where
  "single_profile profile = (case profile of None \<Rightarrow> False | Some p \<Rightarrow> is_single_operator p)"

lemma effective_quorum_cases:
  "effective_quorum_for profile q = (if q < 1 then Inl (ValueError ''original quorum MUST be an integer >= 1'')
     else Inr (if single_profile profile then 1 else q))"
  by (auto simp: effective_quorum_for_def single_profile_def split: option.splits)

text \<open>
  Who may approve: a named, known human that is not the executor; under the single-operator
  profile only the named operator, otherwise anyone but the requester. The quorum falls to
  one only under the single-operator profile, and only that profile lets a requester review
  their own change.
\<close>

theorem profile_approval_allowed_iff:
  "(\<exists>d. evaluate_profile_approval profile approver requester q executor = Inr d \<and> allowed d \<and>
      effective_quorum_of d = (if single_profile profile then 1 else q) \<and>
      self_review d = (single_profile profile \<and> normalized approver = normalized requester))
   \<longleftrightarrow> 1 \<le> q \<and> py_strip approver \<noteq> [] \<and> py_strip requester \<noteq> [] \<and>
      normalized approver \<notin> set (executors profile executor) \<and>
      (if single_profile profile then \<exists>p. profile = Some p \<and> names p approver
       else normalized approver \<noteq> normalized requester)"
  by (cases profile)
    (auto simp: evaluate_profile_approval_def effective_quorum_cases Let_def names_def single_profile_def)

text \<open>
  The audit projection of a profile whose digest is its own reads back as the same profile.
\<close>

theorem profile_audit_round_trip:
  assumes "profile_init p = Inr p"
    and "policy_digest p = approval_profile_policy_digest sha (profile_as_audit_dict isofmt p)"
    and "from_iso (isofmt (effective_from p)) = Some (Some (effective_from p))"
    and "\<And>s. str_of (JStr s) = s"
  shows "approval_profile_from_audit_dict sha isofmt from_iso str_of (Some (profile_as_audit_dict isofmt p))
    = Inr (Some p)"
proof -
  have k: "parse_profile_kind (profile_kind_value (profile_kind p)) = Some (profile_kind p)"
    by (cases "profile_kind p") auto
  have get: "dict_get (profile_as_audit_dict isofmt p) ''revision_id'' = Some (JStr (revision_id p))"
    "dict_get (profile_as_audit_dict isofmt p) ''approval_profile'' = Some (JStr (profile_kind_value (profile_kind p)))"
    "dict_get (profile_as_audit_dict isofmt p) ''operator_principal'' =
       Some (case operator_principal p of None \<Rightarrow> JNull | Some s \<Rightarrow> JStr s)"
    "dict_get (profile_as_audit_dict isofmt p) ''executor_principal'' = Some (JStr (executor_principal p))"
    "dict_get (profile_as_audit_dict isofmt p) ''policy_digest'' = Some (JStr (policy_digest p))"
    "dict_get (profile_as_audit_dict isofmt p) ''effective_from'' = Some (JStr (isofmt (effective_from p)))"
    by (simp_all add: profile_as_audit_dict_def)
  have same: "\<lparr>revision_id = revision_id p, profile_kind = profile_kind p,
      executor_principal = executor_principal p, policy_digest = policy_digest p,
      effective_from = effective_from p, operator_principal = x\<rparr> = p" if "operator_principal p = x" for x
    using that by auto
  show ?thesis
    using assms(1) assms(3,4)
    by (cases "operator_principal p")
      (simp_all add: approval_profile_from_audit_dict_def audit_required_fields_def get
        dict_get_null_def assms(2) [symmetric] approval_profile_effective_from_def k same
        del: parse_profile_kind.simps)
qed

text \<open>A single-operator profile with its own digest.\<close>

definition sample_profile :: approval_profile where
  "sample_profile = \<lparr>revision_id = ''r1'', profile_kind = SINGLE_OPERATOR_PRODUCTION,
     executor_principal = ''Thor'', policy_digest = zero_digest, effective_from = 5,
     operator_principal = Some ''ada@x''\<rparr>"

theorem profile_audit_round_trip_witness:
  "approval_profile_from_audit_dict (\<lambda>_. replicate 64 (CHR ''0'')) (\<lambda>t. ''T'' @ str_int t)
     (\<lambda>s. if s = ''T5'' then Some (Some 5) else None) sample_str
     (Some (profile_as_audit_dict (\<lambda>t. ''T'' @ str_int t) sample_profile)) = Inr (Some sample_profile)"
proof (rule profile_audit_round_trip)
  show "profile_init sample_profile = Inr sample_profile" by code_simp
  show "policy_digest sample_profile = approval_profile_policy_digest (\<lambda>_. replicate 64 (CHR ''0''))
      (profile_as_audit_dict (\<lambda>t. ''T'' @ str_int t) sample_profile)"
    by (simp add: approval_profile_policy_digest_def sample_profile_def zero_digest_def)
  have t: "''T'' @ str_int 5 = ''T5''" by code_simp
  show "(if ''T'' @ str_int (effective_from sample_profile) = ''T5'' then Some (Some 5) else None) =
      Some (Some (effective_from sample_profile))"
    unfolding sample_profile_def approval_profile.simps t by simp
qed (simp add: sample_str_def)

lemma map_sum_Some: "map_sum id Some r = Inr x \<longleftrightarrow> (\<exists>p. r = Inr p \<and> x = Some p)"
  by (cases r) auto

lemma operator_policy_init_Inr:
  "operator_policy_init r d out = Inr p \<Longrightarrow> op_outcome p = out \<and> op_policy_digest p = d"
  by (auto simp: operator_policy_init_def split: if_splits)

lemma bind_policy_try_Inr:
  assumes "bind_policy_try active revision evaluate = Inr x"
  shows "active = Inr None \<and> x = None \<or>
    (\<exists>p rid. x = Some p \<and> active = Inr (Some rid) \<and> (op_outcome p = OP_REQUIRE_APPROVAL \<or>
      (\<exists>rev. revision rid = Inr (Some rev) \<and> pr_is_admission rev \<and>
         evaluate rev = Inr (op_outcome p) \<and> op_policy_digest p = pr_content_digest rev)))"
proof -
  obtain y where act: "active = Inr y" using assms by (auto simp: bind_policy_try_def bind_res_Inr)
  show ?thesis
  proof (cases y)
    case None
    with act assms show ?thesis by (simp add: bind_policy_try_def)
  next
    case (Some rid)
    with act assms obtain rv where rv: "revision rid = Inr rv"
      by (auto simp: bind_policy_try_def bind_res_Inr)
    show ?thesis
    proof (cases rv)
      case None
      with act Some rv assms show ?thesis
        by (auto simp: bind_policy_try_def map_sum_Some dest: operator_policy_init_Inr)
    next
      case (Some v)
      show ?thesis
      proof (cases "pr_is_admission v")
        case True
        with act \<open>y = Some rid\<close> rv Some assms show ?thesis
          by (auto simp: bind_policy_try_def bind_res_Inr map_sum_Some dest!: operator_policy_init_Inr)
      next
        case False
        with act \<open>y = Some rid\<close> rv Some assms show ?thesis
          by (auto simp: bind_policy_try_def map_sum_Some dest: operator_policy_init_Inr)
      qed
    qed
  qed
qed

text \<open>
  The admission policy fails closed: no policy is bound only when the reader said that none
  is active, and an outcome other than a human approval is the evaluator's own answer on the
  active, signed admission revision. Every exception on the way ends in human approval.
\<close>

theorem bind_policy_fails_closed:
  "(bind_policy active revision evaluate = None \<longleftrightarrow> active = Inr None) \<and>
   (\<forall>p. bind_policy active revision evaluate = Some p \<and> op_outcome p \<noteq> OP_REQUIRE_APPROVAL \<longrightarrow>
      (\<exists>rid rev. active = Inr (Some rid) \<and> revision rid = Inr (Some rev) \<and> pr_is_admission rev \<and>
         evaluate rev = Inr (op_outcome p) \<and> op_policy_digest p = pr_content_digest rev))"
proof (cases "bind_policy_try active revision evaluate")
  case (Inl e)
  then have "active \<noteq> Inr None" by (auto simp: bind_policy_try_def)
  with Inl show ?thesis by (auto simp: bind_policy_def)
next
  case (Inr x)
  then show ?thesis using bind_policy_try_Inr [OF Inr] by (auto simp: bind_policy_def)
qed

theorem bind_policy_fails_closed_witness:
  "\<exists>rid rev. Inr (Some ''r'') = (Inr (Some rid) :: string option res) \<and>
     (Inr (Some \<lparr>pr_revision_id = ''r'', pr_content_digest = zero_digest, pr_is_admission = True\<rparr>)
        :: policy_revision option res) = Inr (Some rev) \<and> pr_is_admission rev"
proof -
  let ?rev = "\<lparr>pr_revision_id = ''r'', pr_content_digest = zero_digest, pr_is_admission = True\<rparr>"
  have "bind_policy (Inr (Some ''r'')) (\<lambda>_. Inr (Some ?rev)) (\<lambda>_. Inr OP_DENY) =
      Some \<lparr>op_revision_id = ''r'', op_policy_digest = zero_digest, op_outcome = OP_DENY\<rparr>"
    by code_simp
  from conjunct2 [OF bind_policy_fails_closed, rule_format, OF conjI [OF this]]
  show ?thesis by auto
qed

end
