(* ===== verification/Preconditions.thy ===== *)
theory Preconditions
  imports Contracts
begin

text \<open>
  \<open>core/risk_gate/preconditions.py\<close>: deterministic evidence for the preconditions of an
  ActionType, from the event's resource snapshot and from the optional open-action and
  change-window providers, which are functions here (their answers for this target).
\<close>

record precondition_evaluation =
  condition_index :: int
  pe_kind :: precondition_kind
  satisfied :: bool

definition precondition_evaluation_init ::
  "int \<Rightarrow> precondition_kind \<Rightarrow> bool \<Rightarrow> precondition_evaluation res" where
  "precondition_evaluation_init i k s =
     (if i < 0 then Inl (ValueError ''condition_index MUST be >= 0'')
      else Inr \<lparr>condition_index = i, pe_kind = k, satisfied = s\<rparr>)"

text \<open>The tags: those of the resource, otherwise those of its properties.\<close>

definition snapshot_tags :: "(string, json) dict \<Rightarrow> (string, json) dict \<Rightarrow> (string, json) dict option" where
  "snapshot_tags resource props = (case as_mapping (dict_get resource ''tags'') of
     Some m \<Rightarrow> Some m | None \<Rightarrow> as_mapping (dict_get props ''tags''))"

text \<open>
  One precondition against the snapshot; \<open>None\<close> is \<open>continue\<close>. Both values having the same
  type and being equal is equality of the modelled values.
\<close>

definition evaluate_event_precondition ::
  "(string, json) dict \<Rightarrow> (string, json) dict \<Rightarrow> nat \<Rightarrow> action_precondition \<Rightarrow>
     precondition_evaluation option" where
  "evaluate_event_precondition resource props index p =
     (if pre_kind p = RESOURCE_PROPERTY_EQUALS then
        (case pre_property p of
           None \<Rightarrow> None
         | Some property_name \<Rightarrow> Some \<lparr>condition_index = int index, pe_kind = pre_kind p,
             satisfied = (dict_get props property_name = Some (pre_value p))\<rparr>)
      else if pre_kind p = RESOURCE_TAG_PRESENT then
        (case (pre_tag p, snapshot_tags resource props) of
           (Some tag_name, Some m) \<Rightarrow> Some \<lparr>condition_index = int index, pe_kind = pre_kind p,
             satisfied = (dict_get m tag_name \<noteq> None)\<rparr>
         | _ \<Rightarrow> None)
      else None)"

fun evaluate_event_from ::
  "(string, json) dict \<Rightarrow> (string, json) dict \<Rightarrow> nat \<Rightarrow> action_precondition list \<Rightarrow>
     precondition_evaluation list" where
  "evaluate_event_from resource props index [] = []"
| "evaluate_event_from resource props index (p # ps) =
     (case evaluate_event_precondition resource props index p of
        None \<Rightarrow> evaluate_event_from resource props (Suc index) ps
      | Some e \<Rightarrow> e # evaluate_event_from resource props (Suc index) ps)"

definition event_evaluate ::
  "(string, json) dict \<Rightarrow> action_type \<Rightarrow> precondition_evaluation list" where
  "event_evaluate payload aty = (case as_mapping (dict_get payload ''resource'') of
     None \<Rightarrow> []
   | Some resource \<Rightarrow> (case as_mapping (dict_get resource ''props'') of
       None \<Rightarrow> []
     | Some props \<Rightarrow> evaluate_event_from resource props 0 (preconditions aty)))"

text \<open>The governed evaluator: the two providers, when wired, overwrite the entry by index.\<close>

definition governed_precondition ::
  "bool option \<Rightarrow> bool option \<Rightarrow> nat \<Rightarrow> action_precondition \<Rightarrow>
     (int, precondition_evaluation) dict \<Rightarrow> (int, precondition_evaluation) dict" where
  "governed_precondition conflict window index p d =
     (case (pre_kind p, conflict, window) of
        (NO_CONFLICTING_OPEN_ACTION_ON_RESOURCE, Some c, _) \<Rightarrow>
          dict_set d (int index)
            \<lparr>condition_index = int index, pe_kind = pre_kind p, satisfied = (\<not> c)\<rparr>
      | (MAINTENANCE_WINDOW_ACTIVE, _, Some w) \<Rightarrow>
          dict_set d (int index)
            \<lparr>condition_index = int index, pe_kind = pre_kind p, satisfied = w\<rparr>
      | _ \<Rightarrow> d)"

fun governed_from ::
  "bool option \<Rightarrow> bool option \<Rightarrow> nat \<Rightarrow> action_precondition list \<Rightarrow>
     (int, precondition_evaluation) dict \<Rightarrow> (int, precondition_evaluation) dict" where
  "governed_from conflict window index [] d = d"
| "governed_from conflict window index (p # ps) d =
     governed_from conflict window (Suc index) ps (governed_precondition conflict window index p d)"

definition governed_evaluate ::
  "bool option \<Rightarrow> bool option \<Rightarrow> (string, json) dict \<Rightarrow> action_type \<Rightarrow> precondition_evaluation list" where
  "governed_evaluate conflict window payload aty =
     (let d = fold (\<lambda>e d. dict_set d (condition_index e) e) (event_evaluate payload aty) [];
          d = governed_from conflict window 0 (preconditions aty) d
      in map (\<lambda>i. the (dict_get d i)) (sort (dict_keys d)))"

section \<open>Evidence is honest\<close>

definition evidence_for :: "action_type \<Rightarrow> precondition_evaluation \<Rightarrow> bool" where
  "evidence_for aty e = (0 \<le> condition_index e \<and>
     nat (condition_index e) < length (preconditions aty) \<and>
     pe_kind e = pre_kind (preconditions aty ! nat (condition_index e)))"

text \<open>
  What each kind of precondition means on the event's resource snapshot and on the answers of
  the two providers. No evaluator produces evidence for the two link kinds, so they are
  never established.
\<close>

definition snapshot :: "(string, json) dict \<Rightarrow> ((string, json) dict \<times> (string, json) dict) option" where
  "snapshot payload = (case as_mapping (dict_get payload ''resource'') of None \<Rightarrow> None
     | Some resource \<Rightarrow> map_option (Pair resource) (as_mapping (dict_get resource ''props'')))"

fun precondition_true ::
  "bool option \<Rightarrow> bool option \<Rightarrow> (string, json) dict \<Rightarrow> action_precondition \<Rightarrow> precondition_kind \<Rightarrow> bool" where
  "precondition_true conflict window payload p RESOURCE_PROPERTY_EQUALS =
     (\<exists>resource props name. snapshot payload = Some (resource, props) \<and> pre_property p = Some name \<and>
        dict_get props name = Some (pre_value p))"
| "precondition_true conflict window payload p RESOURCE_TAG_PRESENT =
     (\<exists>resource props name tags. snapshot payload = Some (resource, props) \<and> pre_tag p = Some name \<and>
        snapshot_tags resource props = Some tags \<and> dict_get tags name \<noteq> None)"
| "precondition_true conflict window payload p NO_CONFLICTING_OPEN_ACTION_ON_RESOURCE =
     (conflict = Some False)"
| "precondition_true conflict window payload p MAINTENANCE_WINDOW_ACTIVE = (window = Some True)"
| "precondition_true conflict window payload p _ = False"

definition honest ::
  "bool option \<Rightarrow> bool option \<Rightarrow> (string, json) dict \<Rightarrow> action_type \<Rightarrow> precondition_evaluation \<Rightarrow> bool" where
  "honest conflict window payload aty e = (evidence_for aty e \<and>
     (satisfied e \<longrightarrow> precondition_true conflict window payload
        (preconditions aty ! nat (condition_index e)) (pe_kind e)))"

lemma event_from_honest:
  assumes "snapshot payload = Some (r, pr)"
  shows "preconditions aty = before @ ps \<Longrightarrow> e \<in> set (evaluate_event_from r pr (length before) ps) \<Longrightarrow>
     honest c w payload aty e"
proof (induction ps arbitrary: before)
  case (Cons p ps)
  have tl: "honest c w payload aty e" if "e \<in> set (evaluate_event_from r pr (Suc (length before)) ps)"
    using Cons.IH [of "before @ [p]"] Cons.prems(1) that by simp
  show ?case
  proof (cases "evaluate_event_precondition r pr (length before) p")
    case None
    with Cons.prems tl show ?thesis by simp
  next
    case (Some e')
    have p: "preconditions aty ! length before = p" using Cons.prems(1) by simp
    have "honest c w payload aty e'"
      using Some Cons.prems(1) assms
      by (auto simp: evaluate_event_precondition_def evidence_for_def honest_def Let_def
          split: option.splits if_splits)
    with Some Cons.prems tl show ?thesis by auto
  qed
qed simp

lemma event_honest:
  assumes "e \<in> set (event_evaluate payload aty)"
  shows "honest c w payload aty e"
proof -
  obtain r pr where "snapshot payload = Some (r, pr)" "e \<in> set (evaluate_event_from r pr 0 (preconditions aty))"
    using assms
    by (cases "as_mapping (dict_get payload ''resource'')";
        cases "as_mapping (dict_get (the (as_mapping (dict_get payload ''resource''))) ''props'')")
      (auto simp: event_evaluate_def snapshot_def)
  then show ?thesis using event_from_honest [of payload r pr aty "[]"] by simp
qed

definition evidence_dict ::
  "bool option \<Rightarrow> bool option \<Rightarrow> (string, json) dict \<Rightarrow> action_type \<Rightarrow>
     (int, precondition_evaluation) dict \<Rightarrow> bool" where
  "evidence_dict c w payload aty d = (distinct (dict_keys d) \<and>
     (\<forall>i e. dict_get d i = Some e \<longrightarrow> condition_index e = i \<and> honest c w payload aty e))"

lemma evidence_dict_set:
  "evidence_dict c w payload aty d \<Longrightarrow> honest c w payload aty e \<Longrightarrow>
     evidence_dict c w payload aty (dict_set d (condition_index e) e)"
  by (auto simp: evidence_dict_def)

lemma evidence_dict_fold:
  "(\<And>e. e \<in> set es \<Longrightarrow> honest c w payload aty e) \<Longrightarrow> evidence_dict c w payload aty d \<Longrightarrow>
     evidence_dict c w payload aty (fold (\<lambda>e d. dict_set d (condition_index e) e) es d)"
  by (induction es arbitrary: d) (auto intro: evidence_dict_set)

lemma governed_precondition_evidence:
  assumes "preconditions aty = before @ p # ps" and "evidence_dict c w payload aty d"
  shows "evidence_dict c w payload aty (governed_precondition c w (length before) p d)"
proof -
  have "honest c w payload aty \<lparr>condition_index = int (length before), pe_kind = pre_kind p, satisfied = s\<rparr>"
    if "s \<longrightarrow> precondition_true c w payload p (pre_kind p)" for s
    using assms(1) that by (simp add: evidence_for_def honest_def)
  from evidence_dict_set [OF assms(2) this] assms(2) show ?thesis
    by (auto simp: governed_precondition_def split: precondition_kind.splits option.splits)
qed

lemma governed_from_evidence:
  "preconditions aty = before @ ps \<Longrightarrow> evidence_dict c w payload aty d \<Longrightarrow>
     evidence_dict c w payload aty (governed_from c w (length before) ps d)"
proof (induction ps arbitrary: before d)
  case (Cons p ps)
  from governed_precondition_evidence [OF Cons.prems] Cons.IH [of "before @ [p]"] Cons.prems(1)
  show ?case by simp
qed simp

text \<open>
  The governed evaluator reports every precondition at most once, in ascending order; each
  result carries the index and the kind of the precondition it is about, and a result that
  says \<open>satisfied\<close> is backed by the snapshot or by the provider of its kind.
\<close>

lemma governed_honest:
  "distinct (map condition_index (governed_evaluate conflict window payload aty)) \<and>
   sorted (map condition_index (governed_evaluate conflict window payload aty)) \<and>
   (\<forall>e\<in>set (governed_evaluate conflict window payload aty). honest conflict window payload aty e)"
proof -
  define d where "d = governed_from conflict window 0 (preconditions aty)
      (fold (\<lambda>e d. dict_set d (condition_index e) e) (event_evaluate payload aty) [])"
  have "evidence_dict conflict window payload aty d"
    unfolding d_def
  proof (rule governed_from_evidence [of aty "[]", unfolded list.size])
    show "evidence_dict conflict window payload aty
        (fold (\<lambda>e d. dict_set d (condition_index e) e) (event_evaluate payload aty) [])"
      by (rule evidence_dict_fold) (simp_all add: event_honest evidence_dict_def)
  qed simp
  then have dist: "distinct (dict_keys d)"
    and ev: "\<And>i e. dict_get d i = Some e \<Longrightarrow> condition_index e = i \<and> honest conflict window payload aty e"
    unfolding evidence_dict_def by blast+
  have entry: "condition_index (the (dict_get d i)) = i \<and> honest conflict window payload aty (the (dict_get d i))"
    if i: "i \<in> set (dict_keys d)" for i
  proof -
    obtain e where "dict_get d i = Some e"
      using i by (metis map_of_eq_None_iff not_None_eq set_map)
    with ev show ?thesis by simp
  qed
  have out: "governed_evaluate conflict window payload aty =
      map (\<lambda>i. the (dict_get d i)) (sort (dict_keys d))"
    by (simp add: governed_evaluate_def Let_def d_def)
  have idx: "map condition_index (governed_evaluate conflict window payload aty) = sort (dict_keys d)"
    unfolding out map_map by (rule map_idI) (use entry in simp)
  have "honest conflict window payload aty e" if "e \<in> set (governed_evaluate conflict window payload aty)" for e
    using that entry unfolding out by auto
  moreover have "distinct (sort (dict_keys d))" using dist by simp
  ultimately show ?thesis unfolding idx by (simp del: set_map)
qed

theorem governed_evidence_well_formed:
  "distinct (map condition_index (governed_evaluate conflict window payload aty)) \<and>
   sorted (map condition_index (governed_evaluate conflict window payload aty)) \<and>
   (\<forall>e\<in>set (governed_evaluate conflict window payload aty). honest conflict window payload aty e)"
  by (rule governed_honest)

end
