(* ===== verification/Gate.thy ===== *)
theory Gate
  imports Promotion Exemption Preconditions
begin

text \<open>
  \<open>RiskGate.evaluate\<close> of \<open>core/risk_gate/gate.py\<close>: the final check of an action, which
  composes the human override, the safety-invariant caps, the evidence for the
  preconditions and the promotion mode.

  The gate reads the promotion registry (theory \<open>Promotion\<close>) and the exemption registry
  (theory \<open>Exemption\<close>) at one moment \<open>now\<close>. A development-authority envelope enters as the
  result of \<open>current_profile_digest\<close>: \<open>None\<close> when no envelope was given, \<open>Some None\<close> when
  its revalidation failed, \<open>Some (Some d)\<close> when it named the profile \<open>d\<close>.
\<close>

section \<open>Configuration\<close>

datatype gate_outcome = AUTO | HIL | DENY | ABSTAIN

record gate_config =
  cfg_max_affected :: int
  cfg_max_rate :: int
  cfg_max_age :: int
  hil_authority_action_types :: "string list"

definition default_gate_config :: gate_config where
  "default_gate_config = \<lparr>cfg_max_affected = 10, cfg_max_rate = 30, cfg_max_age = 900,
     hil_authority_action_types = [''governance.promote-action-type'']\<rparr>"

record risk_gate =
  rg_registry :: registry
  rg_config :: gate_config
  rg_exemptions :: "exemption_record list option"

definition risk_gate_init ::
  "registry \<Rightarrow> gate_config option \<Rightarrow> exemption_record list option \<Rightarrow> risk_gate res" where
  "risk_gate_init g config ex =
     (let cfg = (case config of None \<Rightarrow> default_gate_config | Some c \<Rightarrow> c) in
      if cfg_max_affected cfg < 1 then Inl (ValueError ''max_affected_resources MUST be >= 1'')
      else if cfg_max_rate cfg < 1 then Inl (ValueError ''max_rate_per_minute MUST be >= 1'')
      else if cfg_max_age cfg < 0 then Inl (ValueError ''max_precondition_age_seconds MUST be >= 0'')
      else if list_ex (\<lambda>item. item = [] \<or> item \<noteq> py_strip item) (hil_authority_action_types cfg)
      then Inl (ValueError ''hil_authority_action_types MUST contain canonical ids'')
      else Inr \<lparr>rg_registry = g, rg_config = cfg, rg_exemptions = ex\<rparr>)"

definition gate_lookup ::
  "risk_gate \<Rightarrow> string \<Rightarrow> string \<Rightarrow> string option \<Rightarrow> int \<Rightarrow> exemption_match option" where
  "gate_lookup g rid ref rg moment = (case rg_exemptions g of
     Some recs \<Rightarrow> find_match recs rid ref rg moment
   | None \<Rightarrow> no_match () rid ref rg moment)"

record risk_decision =
  outcome :: gate_outcome
  rd_action_id :: string
  effective_mode :: mode
  reasons :: "string list"

datatype upstream = UpDeny | UpAbstain

text \<open>The keyword arguments of \<open>evaluate\<close>.\<close>

record gate_query =
  gq_action :: action
  gq_action_type :: action_type
  inventory_age :: "int option"
  evaluations :: "precondition_evaluation list"
  hold_engaged :: bool
  hold_recovery :: bool
  upstream_signal :: "upstream option"
  development :: "string option option"

section \<open>Helpers\<close>

text \<open>\<open>_extract_resource_group\<close>\<close>

definition rg_marker :: string where
  "rg_marker = ''/resourcegroups/''"

definition extract_resource_group :: "string \<Rightarrow> string option" where
  "extract_resource_group resource_ref =
     (case find_sub rg_marker (py_lower resource_ref) of
        None \<Rightarrow> None
      | Some idx \<Rightarrow>
          (let tail = drop (idx + length rg_marker) resource_ref;
               candidate = (case find_sub ''/'' tail of None \<Rightarrow> tail | Some slash \<Rightarrow> take slash tail)
           in if candidate = [] then None else Some candidate))"

text \<open>\<open>int(x)\<close> of a float truncates toward zero.\<close>

definition py_int :: "rat \<Rightarrow> int" where
  "py_int r = (if 0 \<le> r then \<lfloor>r\<rfloor> else \<lceil>r\<rceil>)"

fun fresh_value :: "json \<Rightarrow> int option" where
  "fresh_value (JInt i) = Some i"
| "fresh_value (JFloat r) = Some (py_int r)"
| "fresh_value _ = None"

definition declared_fresh_values :: "action_type \<Rightarrow> int list" where
  "declared_fresh_values aty = List.map_filter
     (\<lambda>p. if pre_kind p \<noteq> GRAPH_FRESH_WITHIN_SECONDS then None else fresh_value (pre_value p))
     (preconditions aty)"

definition declared_graph_fresh_seconds :: "action_type \<Rightarrow> int res" where
  "declared_graph_fresh_seconds aty = (case declared_fresh_values aty of
     [] \<Rightarrow> Inl (ValueError ''no numeric value was found'')
   | v # vs \<Rightarrow> Inr (fold min vs v))"

section \<open>The checks, each giving the reasons it adds\<close>

definition requires_fresh :: "action_type \<Rightarrow> bool" where
  "requires_fresh aty = list_ex (\<lambda>p. pre_kind p = GRAPH_FRESH_WITHIN_SECONDS) (preconditions aty)"

definition blast_reasons :: "gate_config \<Rightarrow> action \<Rightarrow> string list" where
  "blast_reasons cfg a =
     (case br_count (act_blast_radius a) of
        None \<Rightarrow> (if br_scope (act_blast_radius a) \<noteq> RESOURCE
          then [''blast_radius_count_unknown_for_scope='' @ blast_scope_value (br_scope (act_blast_radius a))]
          else [])
      | Some count \<Rightarrow> (if count > cfg_max_affected cfg
          then [''blast_radius_count='' @ str_int count @ ''>max='' @ str_int (cfg_max_affected cfg)]
          else []))
     @ (case br_rate_per_minute (act_blast_radius a) of
        None \<Rightarrow> []
      | Some rpm \<Rightarrow> (if rpm > cfg_max_rate cfg
          then [''blast_radius_rate='' @ str_int rpm @ ''>max='' @ str_int (cfg_max_rate cfg)]
          else []))"

definition freshness_reasons :: "gate_config \<Rightarrow> action_type \<Rightarrow> int option \<Rightarrow> string list res" where
  "freshness_reasons cfg aty age =
     (if requires_fresh aty then
        (case age of
           None \<Rightarrow> Inr [''graph_fresh_precondition_unknown_age'']
         | Some age \<Rightarrow> bind_res (declared_graph_fresh_seconds aty) (\<lambda>declared.
             let floor = min declared (cfg_max_age cfg) in
             Inr (if age > floor
                  then [''graph_fresh_precondition_stale:age='' @ str_int age @ ''>max='' @ str_int floor]
                  else [])))
      else Inr [])"

fun index_evaluations ::
  "precondition_evaluation list \<Rightarrow> (int, precondition_evaluation) dict \<Rightarrow>
     (int, precondition_evaluation) dict \<times> string list" where
  "index_evaluations [] d = (d, [])"
| "index_evaluations (e # es) d =
     (if dict_get d (condition_index e) \<noteq> None then
        (let (d', rs) = index_evaluations es d
         in (d', (''precondition_evaluation_duplicate:index='' @ str_int (condition_index e)) # rs))
      else index_evaluations es (dict_set d (condition_index e) e))"

definition precondition_reason ::
  "(int, precondition_evaluation) dict \<Rightarrow> nat \<Rightarrow> action_precondition \<Rightarrow> string list" where
  "precondition_reason d index p =
     (if pre_kind p = GRAPH_FRESH_WITHIN_SECONDS then []
      else (case dict_get d (int index) of
          None \<Rightarrow> [''precondition_unresolved:index='' @ str_nat index @ '':kind='' @
                    precondition_kind_value (pre_kind p)]
        | Some e \<Rightarrow>
            (if pe_kind e \<noteq> pre_kind p then
               [''precondition_evaluation_mismatch:index='' @ str_nat index @ '':expected='' @
                precondition_kind_value (pre_kind p) @ '':actual='' @ precondition_kind_value (pe_kind e)]
             else if \<not> satisfied e then
               [''precondition_failed:index='' @ str_nat index @ '':kind='' @
                precondition_kind_value (pre_kind p)]
             else [])))"

fun precondition_reasons_from ::
  "(int, precondition_evaluation) dict \<Rightarrow> nat \<Rightarrow> action_precondition list \<Rightarrow> string list" where
  "precondition_reasons_from d index [] = []"
| "precondition_reasons_from d index (p # ps) =
     precondition_reason d index p @ precondition_reasons_from d (Suc index) ps"

definition precondition_reasons ::
  "precondition_evaluation list \<Rightarrow> action_type \<Rightarrow> string list" where
  "precondition_reasons es aty =
     (let (d, dups) = index_evaluations es []
      in dups @ precondition_reasons_from d 0 (preconditions aty))"

definition field_reasons :: "action \<Rightarrow> string list" where
  "field_reasons a =
     (if py_strip (stop_condition a) = [] then [''missing_stop_condition''] else []) @
     (if citing_rules a = [] then [''missing_citing_rules''] else [])"

definition authority_mutation :: "risk_gate \<Rightarrow> action_type \<Rightarrow> bool" where
  "authority_mutation g aty = (at_name aty \<in> set (hil_authority_action_types (rg_config g)))"

definition gate_mode :: "risk_gate \<Rightarrow> int \<Rightarrow> action_type \<Rightarrow> string option option \<Rightarrow> mode" where
  "gate_mode g now aty dev = (case dev of
     Some (Some profile_digest) \<Rightarrow>
       development_mode_of (rg_registry g) now profile_digest (at_name aty)
   | Some None \<Rightarrow> SHADOW
   | None \<Rightarrow> (if authority_mutation g aty then ENFORCE else mode_of (rg_registry g) (at_name aty)))"

definition mode_reasons :: "risk_gate \<Rightarrow> int \<Rightarrow> action_type \<Rightarrow> string option option \<Rightarrow> string list" where
  "mode_reasons g now aty dev =
     (if dev = Some None then [''development_authority_unverified''] else []) @
     (if authority_mutation g aty \<and> dev = None then [''authority_mutation_requires_hil'']
      else if gate_mode g now aty dev \<noteq> ENFORCE then [''action_type_in_shadow_mode'']
      else [])"

text \<open>The loop over \<open>citing_rules\<close>: the first match wins.\<close>

definition first_override :: "risk_gate \<Rightarrow> int \<Rightarrow> action \<Rightarrow> exemption_match option" where
  "first_override g now a = (case List.map_filter
       (\<lambda>cited. gate_lookup g cited (target_resource_ref a)
          (extract_resource_group (target_resource_ref a)) now)
       (citing_rules a) of
     [] \<Rightarrow> None | m # _ \<Rightarrow> Some m)"

section \<open>evaluate\<close>

definition decide :: "gate_query \<Rightarrow> gate_outcome \<Rightarrow> mode \<Rightarrow> string list \<Rightarrow> risk_decision" where
  "decide q out m rs = \<lparr>outcome = out, rd_action_id = action_id (gq_action q),
     effective_mode = m, reasons = rs\<rparr>"

definition gate_evaluate :: "risk_gate \<Rightarrow> int \<Rightarrow> gate_query \<Rightarrow> risk_decision res" where
  "gate_evaluate g now q =
     (let a = gq_action q; aty = gq_action_type q; cfg = rg_config g;
          recovery_path = (hold_engaged q \<and> hold_recovery q);
          registry_mode = mode_of (rg_registry g) (at_name aty)
      in if hold_engaged q \<and> \<not> recovery_path
         then Inr (decide q DENY registry_mode [''target_automation_hold_active''])
         else if upstream_signal q = Some UpDeny
         then Inr (decide q DENY registry_mode [''upstream_verifier_deny''])
         else (case first_override g now a of
           Some m \<Rightarrow> Inr (decide q ABSTAIN registry_mode
             [''human_override:exemption='' @ exemption_id m @ '':scope='' @ scope_summary m])
         | None \<Rightarrow> bind_res (freshness_reasons cfg aty (inventory_age q)) (\<lambda>fresh.
             let rs =
                   (if recovery_path then [''target_automation_hold_recovery_requires_hil''] else []) @
                   (if irreversible aty then [''action_type_irreversible_requires_hil''] else []) @
                   blast_reasons cfg a @ fresh @ precondition_reasons (evaluations q) aty @
                   field_reasons a @ mode_reasons g now aty (development q);
                 m = gate_mode g now aty (development q)
             in if upstream_signal q = Some UpAbstain \<and> rs = []
                then Inr (decide q ABSTAIN m [''upstream_verifier_abstain''])
                else Inr (decide q (if rs \<noteq> [] then HIL else AUTO) m rs))))"

section \<open>Precondition evidence\<close>

lemma index_evaluations_dups:
  "snd (index_evaluations es d) = [] \<longleftrightarrow>
     distinct (map condition_index es) \<and> (\<forall>e\<in>set es. dict_get d (condition_index e) = None)"
proof (induction es d rule: index_evaluations.induct)
  case (2 e es d)
  show ?case
  proof (cases "dict_get d (condition_index e) = None")
    case True
    have "(\<forall>x\<in>set es. dict_get (dict_set d (condition_index e) e) (condition_index x) = None) \<longleftrightarrow>
        condition_index e \<notin> condition_index ` set es \<and> (\<forall>x\<in>set es. dict_get d (condition_index x) = None)"
      by (auto simp del: not_None_eq) (metis image_eqI)+
    with True 2(2) show ?thesis by (simp add: conj_ac)
  next
    case False
    then show ?thesis by (auto split: prod.splits)
  qed
qed simp

lemma index_evaluations_get:
  "snd (index_evaluations es d) = [] \<Longrightarrow>
     dict_get (fst (index_evaluations es d)) i = Some e \<longleftrightarrow>
       dict_get d i = Some e \<or> (e \<in> set es \<and> condition_index e = i)"
proof (induction es d rule: index_evaluations.induct)
  case (2 x es d)
  then have new: "dict_get d (condition_index x) = None"
    by (auto split: prod.splits if_splits)
  from 2(3) new have "snd (index_evaluations es (dict_set d (condition_index x) x)) = []" by simp
  moreover from this have "\<forall>e\<in>set es. condition_index e \<noteq> condition_index x"
    unfolding index_evaluations_dups by fastforce
  ultimately show ?case using 2(2) new by auto
qed simp

lemma precondition_reasons_from_Nil:
  "precondition_reasons_from d index ps = [] \<longleftrightarrow>
     (\<forall>i<length ps. precondition_reason d (index + i) (ps ! i) = [])"
  by (induction ps arbitrary: index) (auto simp: less_Suc_eq_0_disj)

text \<open>What the evidence must show for every precondition other than graph freshness.\<close>

definition evidenced :: "precondition_evaluation list \<Rightarrow> action_type \<Rightarrow> bool" where
  "evidenced es aty = (distinct (map condition_index es) \<and>
     (\<forall>i<length (preconditions aty). pre_kind (preconditions aty ! i) \<noteq> GRAPH_FRESH_WITHIN_SECONDS \<longrightarrow>
        (\<exists>e\<in>set es. condition_index e = int i \<and> pe_kind e = pre_kind (preconditions aty ! i) \<and>
           satisfied e)))"

lemma precondition_reason_Nil:
  "precondition_reason d i p = [] \<longleftrightarrow> pre_kind p = GRAPH_FRESH_WITHIN_SECONDS \<or>
     (\<exists>e. dict_get d (int i) = Some e \<and> pe_kind e = pre_kind p \<and> satisfied e)"
  by (auto simp: precondition_reason_def split: option.splits)

lemma precondition_reasons_Nil: "precondition_reasons es aty = [] \<longleftrightarrow> evidenced es aty"
proof (cases "snd (index_evaluations es []) = []")
  case True
  then have dist: "distinct (map condition_index es)" using index_evaluations_dups [of es "[]"] by simp
  have get: "dict_get (fst (index_evaluations es [])) i = Some e \<longleftrightarrow> e \<in> set es \<and> condition_index e = i" for i e
    using index_evaluations_get [OF True, of i e] by simp
  have "precondition_reasons es aty = precondition_reasons_from (fst (index_evaluations es [])) 0 (preconditions aty)"
    using True by (simp add: precondition_reasons_def Let_def case_prod_beta)
  then show ?thesis
    by (simp only: evidenced_def precondition_reasons_from_Nil precondition_reason_Nil add_0 dist get
        simp_thms) blast
next
  case False
  then show ?thesis
    using index_evaluations_dups [of es "[]"]
    by (auto simp: precondition_reasons_def evidenced_def split: prod.splits)
qed

section \<open>The other checks\<close>

definition within_caps :: "gate_config \<Rightarrow> action \<Rightarrow> bool" where
  "within_caps cfg a =
     ((case br_count (act_blast_radius a) of
         None \<Rightarrow> br_scope (act_blast_radius a) = RESOURCE | Some n \<Rightarrow> n \<le> cfg_max_affected cfg) \<and>
      (\<forall>rpm. br_rate_per_minute (act_blast_radius a) = Some rpm \<longrightarrow> rpm \<le> cfg_max_rate cfg))"

lemma blast_reasons_Nil: "blast_reasons cfg a = [] \<longleftrightarrow> within_caps cfg a"
  by (auto simp: blast_reasons_def within_caps_def split: option.splits if_splits)

lemma fold_min_le:
  fixes n :: int
  shows "n \<le> fold min vs v \<longleftrightarrow> n \<le> v \<and> (\<forall>x\<in>set vs. n \<le> x)"
  by (induction vs arbitrary: v) auto

text \<open>The inventory is as fresh as every declared bound and as the gate's own cap demand.\<close>

definition fresh_enough :: "gate_config \<Rightarrow> action_type \<Rightarrow> int option \<Rightarrow> bool" where
  "fresh_enough cfg aty age = (requires_fresh aty \<longrightarrow>
     (\<exists>n. age = Some n \<and> n \<le> cfg_max_age cfg \<and> declared_fresh_values aty \<noteq> [] \<and>
        (\<forall>v\<in>set (declared_fresh_values aty). n \<le> v)))"

lemma freshness_reasons_Nil: "freshness_reasons cfg aty age = Inr [] \<longleftrightarrow> fresh_enough cfg aty age"
proof -
  have "min (fold min vs v) c < n \<longleftrightarrow> \<not> (n \<le> c \<and> n \<le> v \<and> (\<forall>x\<in>set vs. n \<le> x))" for c n v :: int and vs
    using fold_min_le [of n vs v] by auto
  then show ?thesis
    by (cases age; cases "declared_fresh_values aty")
      (simp_all add: freshness_reasons_def fresh_enough_def declared_graph_fresh_seconds_def Let_def)
qed

lemma freshness_reasons_error:
  "freshness_reasons cfg aty age = Inl e \<longleftrightarrow>
     requires_fresh aty \<and> age \<noteq> None \<and> declared_fresh_values aty = [] \<and>
     e = ValueError ''no numeric value was found''"
  by (cases age; cases "declared_fresh_values aty")
    (auto simp: freshness_reasons_def declared_graph_fresh_seconds_def Let_def)

text \<open>Who may let the action run: the promotion registry, or a verified development profile.\<close>

definition authorised :: "risk_gate \<Rightarrow> int \<Rightarrow> action_type \<Rightarrow> string option option \<Rightarrow> bool" where
  "authorised g now aty dev = (case dev of
     None \<Rightarrow> \<not> authority_mutation g aty \<and> mode_of (rg_registry g) (at_name aty) = ENFORCE
   | Some None \<Rightarrow> False
   | Some (Some d) \<Rightarrow> development_mode_of (rg_registry g) now d (at_name aty) = ENFORCE)"

lemma mode_reasons_Nil: "mode_reasons g now aty dev = [] \<longleftrightarrow> authorised g now aty dev"
  by (auto simp: mode_reasons_def gate_mode_def authorised_def split: option.splits)

definition gate_covers ::
  "risk_gate \<Rightarrow> string \<Rightarrow> string \<Rightarrow> string option \<Rightarrow> int \<Rightarrow> bool" where
  "gate_covers g rid ref rg t = (case rg_exemptions g of
     None \<Rightarrow> False | Some rs \<Rightarrow> record_covers rs rid ref rg t)"

interpretation wired: exemption_registry gate_lookup gate_covers
proof unfold_locales
  show "gate_lookup g rid ref rg t = None \<longleftrightarrow> \<not> gate_covers g rid ref rg t" for g rid ref rg t
    by (simp add: gate_lookup_def gate_covers_def memory.lookup_None empty_registry.lookup_None
        split: option.splits)
  show "em_rule_id m = rid" if "gate_lookup g rid ref rg t = Some m" for g rid ref rg t m
    using that by (auto simp: gate_lookup_def split: option.splits
        dest: memory.lookup_rule empty_registry.lookup_rule)
qed

definition overridden :: "risk_gate \<Rightarrow> int \<Rightarrow> action \<Rightarrow> bool" where
  "overridden g now a = (\<exists>rid\<in>set (citing_rules a). gate_covers g rid (target_resource_ref a)
     (extract_resource_group (target_resource_ref a)) now)"

lemma first_of_None:
  "(case List.map_filter f xs of [] \<Rightarrow> None | m # _ \<Rightarrow> Some m) = None \<longleftrightarrow> (\<forall>x\<in>set xs. f x = None)"
  by (induction xs) (auto split: option.splits)

lemma first_override_None: "first_override g now a = None \<longleftrightarrow> \<not> overridden g now a"
  unfolding first_override_def first_of_None overridden_def wired.any_lookup ..

lemma first_override_covers:
  "first_override g now a = Some m \<Longrightarrow> em_rule_id m \<in> set (citing_rules a) \<and>
     gate_covers g (em_rule_id m) (target_resource_ref a)
       (extract_resource_group (target_resource_ref a)) now"
  unfolding first_override_def
  by (auto split: list.splits dest: wired.first_lookup_covers)

section \<open>The decision\<close>

text \<open>Everything that has to hold for an action to run without a human.\<close>

definition clean :: "risk_gate \<Rightarrow> int \<Rightarrow> gate_query \<Rightarrow> bool" where
  "clean g now q = (\<not> hold_engaged q \<and> \<not> irreversible (gq_action_type q) \<and>
     within_caps (rg_config g) (gq_action q) \<and>
     fresh_enough (rg_config g) (gq_action_type q) (inventory_age q) \<and>
     evidenced (evaluations q) (gq_action_type q) \<and>
     py_strip (stop_condition (gq_action q)) \<noteq> [] \<and> citing_rules (gq_action q) \<noteq> [] \<and>
     authorised g now (gq_action_type q) (development q))"

definition stopped :: "gate_query \<Rightarrow> bool" where
  "stopped q = ((hold_engaged q \<and> \<not> hold_recovery q) \<or> upstream_signal q = Some UpDeny)"

text \<open>The reason list past the short circuits, and what \<open>evaluate\<close> makes of it.\<close>

definition gate_reasons :: "risk_gate \<Rightarrow> int \<Rightarrow> gate_query \<Rightarrow> string list \<Rightarrow> string list" where
  "gate_reasons g now q fresh =
     (if hold_engaged q \<and> hold_recovery q then [''target_automation_hold_recovery_requires_hil''] else []) @
     (if irreversible (gq_action_type q) then [''action_type_irreversible_requires_hil''] else []) @
     blast_reasons (rg_config g) (gq_action q) @ fresh @
     precondition_reasons (evaluations q) (gq_action_type q) @
     field_reasons (gq_action q) @ mode_reasons g now (gq_action_type q) (development q)"

lemma gate_reasons_Nil:
  assumes "\<not> stopped q" and "freshness_reasons (rg_config g) (gq_action_type q) (inventory_age q) = Inr fresh"
  shows "gate_reasons g now q fresh = [] \<longleftrightarrow> clean g now q"
proof -
  have "fresh = [] \<longleftrightarrow> fresh_enough (rg_config g) (gq_action_type q) (inventory_age q)"
    using assms(2) freshness_reasons_Nil [of "rg_config g" "gq_action_type q" "inventory_age q"] by auto
  then show ?thesis
    using assms(1)
    by (auto simp: gate_reasons_def clean_def stopped_def blast_reasons_Nil precondition_reasons_Nil
        field_reasons_def mode_reasons_Nil)
qed

lemma gate_evaluate_stopped:
  "stopped q \<Longrightarrow> \<exists>d. gate_evaluate g now q = Inr d \<and> outcome d = DENY"
  by (auto simp: gate_evaluate_def Let_def stopped_def decide_def)

lemma gate_evaluate_overridden:
  "\<not> stopped q \<Longrightarrow> overridden g now (gq_action q) \<Longrightarrow>
     \<exists>d. gate_evaluate g now q = Inr d \<and> outcome d = ABSTAIN"
  using first_override_None [of g now "gq_action q"]
  by (cases "first_override g now (gq_action q)")
    (auto simp: gate_evaluate_def Let_def stopped_def decide_def)

lemma gate_evaluate_rest:
  assumes "\<not> stopped q" and "\<not> overridden g now (gq_action q)"
  shows "gate_evaluate g now q =
    bind_res (freshness_reasons (rg_config g) (gq_action_type q) (inventory_age q)) (\<lambda>fresh.
      let rs = gate_reasons g now q fresh; m = gate_mode g now (gq_action_type q) (development q) in
      if upstream_signal q = Some UpAbstain \<and> rs = []
      then Inr (decide q ABSTAIN m [''upstream_verifier_abstain''])
      else Inr (decide q (if rs \<noteq> [] then HIL else AUTO) m rs))"
proof -
  have "first_override g now (gq_action q) = None" using assms(2) first_override_None by blast
  moreover have "(hold_engaged q \<and> \<not> (hold_engaged q \<and> hold_recovery q)) = False"
    "(upstream_signal q = Some UpDeny) = False"
    using assms(1) by (auto simp: stopped_def)
  ultimately show ?thesis
    unfolding gate_evaluate_def Let_def gate_reasons_def by (simp only: if_False option.case)
qed

text \<open>The outcomes as conditions on the query; \<open>None\<close> is the error.\<close>

definition gate_spec :: "risk_gate \<Rightarrow> int \<Rightarrow> gate_query \<Rightarrow> gate_outcome option" where
  "gate_spec g now q =
     (if stopped q then Some DENY
      else if overridden g now (gq_action q) then Some ABSTAIN
      else if requires_fresh (gq_action_type q) \<and> inventory_age q \<noteq> None \<and>
              declared_fresh_values (gq_action_type q) = [] then None
      else if clean g now q
        then Some (if upstream_signal q = Some UpAbstain then ABSTAIN else AUTO)
      else Some HIL)"

lemma gate_outcome_helper:
  "(case gate_evaluate g now q of Inl e \<Rightarrow> None | Inr d \<Rightarrow> Some (outcome d)) = gate_spec g now q"
proof -
  consider "stopped q" | "\<not> stopped q" "overridden g now (gq_action q)"
    | "\<not> stopped q" "\<not> overridden g now (gq_action q)" by blast
  then show ?thesis
  proof cases
    case 1
    then show ?thesis using gate_evaluate_stopped [OF 1, of g now] by (auto simp: gate_spec_def)
  next
    case 2
    then show ?thesis using gate_evaluate_overridden [OF 2] by (auto simp: gate_spec_def)
  next
    case 3
    let ?f = "freshness_reasons (rg_config g) (gq_action_type q) (inventory_age q)"
    show ?thesis
    proof (cases ?f)
      case (Inl e)
      moreover from Inl have "requires_fresh (gq_action_type q) \<and> inventory_age q \<noteq> None \<and>
          declared_fresh_values (gq_action_type q) = []"
        unfolding freshness_reasons_error by blast
      ultimately show ?thesis
        using 3 gate_evaluate_rest [OF 3] by (simp add: gate_spec_def del: not_None_eq)
    next
      case (Inr fresh)
      then have "\<not> (requires_fresh (gq_action_type q) \<and> inventory_age q \<noteq> None \<and>
          declared_fresh_values (gq_action_type q) = [])"
        using freshness_reasons_error [of "rg_config g" "gq_action_type q" "inventory_age q"
            "ValueError ''no numeric value was found''"] by auto
      with 3 Inr show ?thesis
        using gate_evaluate_rest [OF 3] gate_reasons_Nil [OF 3(1) Inr, of now]
        by (simp add: gate_spec_def Let_def decide_def del: not_None_eq)
    qed
  qed
qed

text \<open>
  C11: The four outcomes of \<open>evaluate\<close>, and its one error, as conditions on the
  query: a hold or an upstream deny denies, a covering human override abstains, an action
  that is clean runs (or abstains, when the verifier did), and everything else goes to a
  human. The error is an ActionType that declares a freshness bound without a number.
\<close>

theorem gate_outcome_spec:
  "(case gate_evaluate g now q of Inl e \<Rightarrow> None | Inr d \<Rightarrow> Some (outcome d)) = gate_spec g now q"
  by (rule gate_outcome_helper)

text \<open>
  The reasons tell the outcome: an automatic decision is exactly the one without reasons,
  and it is only ever taken in enforce mode.
\<close>

lemma gate_evaluate_clean:
  assumes "gate_evaluate g now q = Inr d" and "outcome d = AUTO"
  shows "\<not> stopped q \<and> \<not> overridden g now (gq_action q) \<and> clean g now q \<and> upstream_signal q \<noteq> Some UpAbstain"
  using gate_outcome_helper [of g now q] assms by (auto simp: gate_spec_def split: if_splits)

lemma authorised_enforce:
  "authorised g now aty dev \<Longrightarrow> gate_mode g now aty dev = ENFORCE"
  by (auto simp: authorised_def gate_mode_def split: option.splits)

theorem gate_auto_iff_no_reasons:
  assumes "gate_evaluate g now q = Inr d"
  shows "(outcome d = AUTO \<longleftrightarrow> reasons d = []) \<and> (outcome d = AUTO \<longrightarrow> effective_mode d = ENFORCE) \<and>
    rd_action_id d = action_id (gq_action q)"
proof -
  consider "stopped q" | "\<not> stopped q" "overridden g now (gq_action q)"
    | "\<not> stopped q" "\<not> overridden g now (gq_action q)" by blast
  then show ?thesis
  proof cases
    case 1
    with assms show ?thesis
      by (auto simp: gate_evaluate_def Let_def stopped_def decide_def split: if_splits)
  next
    case 2
    then obtain m where "first_override g now (gq_action q) = Some m"
      using first_override_None [of g now "gq_action q"] by auto
    with 2(1) assms show ?thesis
      by (auto simp: gate_evaluate_def Let_def stopped_def decide_def split: if_splits)
  next
    case 3
    obtain fresh where f: "freshness_reasons (rg_config g) (gq_action_type q) (inventory_age q) = Inr fresh"
      using assms gate_evaluate_rest [OF 3] by (auto simp: bind_res_Inr)
    have "gate_reasons g now q fresh = [] \<Longrightarrow> gate_mode g now (gq_action_type q) (development q) = ENFORCE"
      using gate_reasons_Nil [OF 3(1) f] by (simp add: clean_def authorised_enforce)
    with assms f show ?thesis
      unfolding gate_evaluate_rest [OF 3] by (auto simp: Let_def decide_def split: if_splits)
  qed
qed

lemma auto_evidence:
  assumes "gate_evaluate g now q = Inr d" and "outcome d = AUTO"
    and "evaluations q = governed_evaluate conflict window payload (gq_action_type q)"
    and "p \<in> set (preconditions (gq_action_type q))"
  shows "if pre_kind p = GRAPH_FRESH_WITHIN_SECONDS
    then \<exists>n. inventory_age q = Some n \<and> n \<le> cfg_max_age (rg_config g) \<and>
           (\<forall>v. fresh_value (pre_value p) = Some v \<longrightarrow> n \<le> v)
    else precondition_true conflict window payload p (pre_kind p)"
proof -
  have c: "clean g now q" using gate_evaluate_clean [OF assms(1,2)] by blast
  show ?thesis
  proof (cases "pre_kind p = GRAPH_FRESH_WITHIN_SECONDS")
    case True
    have "requires_fresh (gq_action_type q)"
      using True assms(4) by (auto simp: requires_fresh_def list_ex_iff)
    then obtain n where n: "inventory_age q = Some n" "n \<le> cfg_max_age (rg_config g)"
      "\<forall>v\<in>set (declared_fresh_values (gq_action_type q)). n \<le> v"
      using c by (auto simp: clean_def fresh_enough_def)
    have "v \<in> set (declared_fresh_values (gq_action_type q))" if "fresh_value (pre_value p) = Some v" for v
      using that True assms(4) by (force simp: declared_fresh_values_def List.map_filter_def)
    with n True show ?thesis by simp
  next
    case False
    obtain i where i: "i < length (preconditions (gq_action_type q))" "preconditions (gq_action_type q) ! i = p"
      using assms(4) by (auto simp: in_set_conv_nth)
    with c False obtain e where e: "e \<in> set (evaluations q)" "condition_index e = int i"
      "pe_kind e = pre_kind p" "satisfied e"
      by (auto simp: clean_def evidenced_def)
    then have "honest conflict window payload (gq_action_type q) e"
      using governed_honest [of conflict window payload "gq_action_type q"] assms(3) by simp
    with e i False show ?thesis by (simp add: honest_def)
  qed
qed

text \<open>
  End to end: an automatic decision on the evidence of the governed evaluator means that
  every precondition of the ActionType really held: each property had the demanded value and
  each tag was present in the event's resource snapshot, the open-action provider was wired
  and reported no conflict, the change-window provider was wired and reported a window, no
  precondition was of a link kind, and the inventory was as fresh as demanded.
\<close>

theorem auto_preconditions_hold:
  assumes "gate_evaluate g now q = Inr d" and "outcome d = AUTO"
    and "evaluations q = governed_evaluate conflict window payload (gq_action_type q)"
    and "p \<in> set (preconditions (gq_action_type q))"
  shows "if pre_kind p = GRAPH_FRESH_WITHIN_SECONDS
    then \<exists>n. inventory_age q = Some n \<and> n \<le> cfg_max_age (rg_config g) \<and>
           (\<forall>v. fresh_value (pre_value p) = Some v \<longrightarrow> n \<le> v)
    else precondition_true conflict window payload p (pre_kind p)"
  using assms by (rule auto_evidence)

section \<open>A concrete automatic decision\<close>

definition guarded_at :: action_type where
  "guarded_at = sample_at\<lparr>preconditions :=
     [\<lparr>pre_kind = RESOURCE_PROPERTY_EQUALS, pre_value = JStr ''off'', pre_property = Some ''tls'',
       pre_tag = None\<rparr>,
      \<lparr>pre_kind = GRAPH_FRESH_WITHIN_SECONDS, pre_value = JInt 60, pre_property = None,
       pre_tag = None\<rparr>]\<rparr>"

definition sample_action :: action where
  "sample_action = \<lparr>action_id = ''a1'', idempotency_key = ''k1'', act_type = ''ops.tag'',
     target_resource_ref = ''/subscriptions/s/resourceGroups/rg1/vm'',
     stop_condition = ''error rate above 1%'',
     act_blast_radius = \<lparr>br_scope = RESOURCE, br_count = Some 1, br_rate_per_minute = Some 5\<rparr>,
     citing_rules = [''rule.tls'']\<rparr>"

definition sample_payload :: "(string, json) dict" where
  "sample_payload = [(''resource'', JObj [(''props'', JObj [(''tls'', JStr ''off'')])])]"

definition sample_query :: gate_query where
  "sample_query = \<lparr>gq_action = sample_action, gq_action_type = guarded_at,
     inventory_age = Some 30, evaluations = governed_evaluate None None sample_payload guarded_at,
     hold_engaged = False, hold_recovery = False, upstream_signal = None, development = None\<rparr>"

definition sample_gate :: risk_gate where
  "sample_gate = \<lparr>rg_registry = promoted_registry, rg_config = default_gate_config,
     rg_exemptions = Some [\<lparr>xr_id = ''x1'', xr_rule_id = ''rule.tls'', xr_resource_group = Some ''rg2'',
       xr_resource_ref = None, expires_at = 1000, revoked_at = None, justification = []\<rparr>]\<rparr>"

lemma sample_decision:
  "gate_evaluate sample_gate 500 sample_query =
     Inr \<lparr>outcome = AUTO, rd_action_id = ''a1'', effective_mode = ENFORCE, reasons = []\<rparr>"
proof -
  have m: "mode_of promoted_registry ''ops.tag'' = ENFORCE" by (rule promoted_registry_enforces)
  have o: "first_override sample_gate 500 sample_action = None"
    by code_simp
  have f: "freshness_reasons default_gate_config guarded_at (Some 30) = Inr []" by code_simp
  have p: "precondition_reasons (governed_evaluate None None sample_payload guarded_at) guarded_at = []"
    by code_simp
  have b: "blast_reasons default_gate_config sample_action = []" by code_simp
  have s: "field_reasons sample_action = []" by code_simp
  have n: "at_name guarded_at = ''ops.tag''" "irreversible guarded_at = False"
    "action_id sample_action = ''a1''" by code_simp+
  show ?thesis
    using m o f p b s n
    by (simp add: gate_evaluate_def sample_gate_def sample_query_def Let_def decide_def
        mode_reasons_def gate_mode_def authority_mutation_def default_gate_config_def)
qed

theorem gate_auto_iff_no_reasons_witness:
  "outcome (projr (gate_evaluate sample_gate 500 sample_query)) = AUTO \<and>
   effective_mode (projr (gate_evaluate sample_gate 500 sample_query)) = ENFORCE"
  using gate_auto_iff_no_reasons [OF sample_decision] by (simp add: sample_decision)

theorem auto_preconditions_hold_witness:
  "precondition_true None None sample_payload (preconditions guarded_at ! 0) RESOURCE_PROPERTY_EQUALS"
proof -
  have mem: "preconditions guarded_at ! 0 \<in> set (preconditions (gq_action_type sample_query))"
    by (simp add: sample_query_def guarded_at_def)
  have ev: "evaluations sample_query =
      governed_evaluate None None sample_payload (gq_action_type sample_query)"
    by (simp add: sample_query_def)
  from auto_preconditions_hold [OF sample_decision _ ev mem] show ?thesis
    by (simp add: guarded_at_def)
qed

end
