(* ===== verification/Authority.thy ===== *)
theory Authority
  imports Approval Gate
begin

text \<open>
  The execution-authority pipeline (\<open>core/risk_gate/authority.py\<close>), the category-only
  denials that the development profile may park (\<open>category_denial.py\<close>) and the combination
  with the gate (\<open>evaluator.py\<close>).

  The development branch of the pipeline resolves a binding and revalidates digests
  (\<open>shared/contracts/development_authority.py\<close>); here it is the function \<open>dev\<close> from the
  original quorum to the decision it ends in.
\<close>

section \<open>Category-only denials\<close>

definition category_dimensions :: "string list" where
  "category_dimensions = [''blast_radius'', ''data_plane_touched'', ''destructive'',
     ''irreversible'', ''reversible'', ''rollback_path'']"

definition category_axes :: "string list" where
  "category_axes = [''risk_table'', ''static_blast'']"

record category_denial =
  cd_rule_ids :: "string list"
  cd_axes :: "string list"
  residual_rule_id :: string
  residual_decision :: risk_level
  residual_quorum :: int

definition category_rule :: "feature_vector \<Rightarrow> risk_rule \<Rightarrow> bool" where
  "category_rule v r = (decision r = RL_DENY \<and> conditions r \<noteq> [] \<and>
     list_all (\<lambda>d. d \<in> set category_dimensions) (rule_dimensions r) \<and> rule_matches r (as_lookup v))"

definition category_only_denial ::
  "risk_table \<Rightarrow> feature_vector \<Rightarrow> resolved_ceiling \<Rightarrow> category_denial option" where
  "category_only_denial table feature ceil =
     (let category_rules = filter (category_rule feature) (rt_rules table);
          residual = table_evaluate \<lparr>rt_version = rt_version table, rt_owner_group = rt_owner_group table,
            rt_rules = filter (\<lambda>r. r \<notin> set category_rules) (rt_rules table)\<rparr> feature
      in if rv_decision residual = RL_DENY then None
         else
           (let denying = map ax_name (filter (\<lambda>a. ax_level a = AX_DENY) (rc_axes ceil))
            in if denying = [] \<or>
                  list_ex (\<lambda>a. ax_name a \<notin> set category_axes \<and> ax_level a < AX_ENFORCE_HIL)
                    (rc_axes ceil)
               then None
               else Some \<lparr>cd_rule_ids = map rule_id category_rules, cd_axes = denying,
                 residual_rule_id = rv_rule_id residual, residual_decision = rv_decision residual,
                 residual_quorum = rv_quorum residual\<rparr>))"

definition live_probe_evidence_stale ::
  "action_type \<Rightarrow> live_probe_observation option \<Rightarrow> int \<Rightarrow> bool" where
  "live_probe_evidence_stale aty observation failure_streak = (case live_probe_ref aty of
     None \<Rightarrow> False
   | Some ref \<Rightarrow> failure_streak > 0 \<or> (case observation of
         None \<Rightarrow> True
       | Some ob \<Rightarrow> probe_id ob \<noteq> ref \<or> degraded ob \<or> \<not> is_fresh ob))"

definition graph_evidence_missing :: "action_type \<Rightarrow> bool option \<Rightarrow> int option \<Rightarrow> bool" where
  "graph_evidence_missing aty graph_stale graph_affected =
     (let requires = REQUIRES_INVENTORY_FRESH \<in> set (interfaces aty);
          derived = (case at_blast_radius aty of None \<Rightarrow> False
            | Some br \<Rightarrow> computation br = GRAPH_DERIVED)
      in (requires \<and> graph_stale \<noteq> Some False) \<or> (derived \<and> graph_affected = None))"

definition development_evidence_unsafe ::
  "action_type \<Rightarrow> bool \<Rightarrow> bool option \<Rightarrow> int option \<Rightarrow> bool \<Rightarrow> bool \<Rightarrow>
     live_probe_observation option \<Rightarrow> int \<Rightarrow> bool" where
  "development_evidence_unsafe aty policy_violation graph_stale graph_affected system_degraded
      kill_switch_engaged observation streak =
     (policy_violation \<or> graph_evidence_missing aty graph_stale graph_affected \<or>
      system_degraded \<or> kill_switch_engaged \<or> live_probe_evidence_stale aty observation streak)"

section \<open>The authority pipeline\<close>

record ceiling_inputs =
  ci_principal_role :: principal_role
  ci_graph_affected :: "int option"
  ci_live_probe :: "live_probe_observation option"
  ci_failure_streak :: int
  ci_degraded :: bool
  ci_kill_switch :: bool

record development_decision =
  eligible :: bool
  dev_reason_code :: string

record authority_decision =
  ea_final_level :: axis_level
  ea_quorum :: int
  ea_original_level :: axis_level
  ea_original_quorum :: int
  ea_ceiling :: resolved_ceiling
  ea_verdict :: risk_verdict
  ea_feature :: feature_vector
  ea_catalog_version :: string
  ea_inputs :: ceiling_inputs
  ea_development :: "development_decision option"
  ea_approval_profile :: "approval_profile option"
  ea_operator_policy :: "operator_policy option"

text \<open>The keyword arguments of \<open>evaluate_execution_authority\<close>.\<close>

record authority_query =
  aq_tier :: tier
  aq_action_type :: action_type
  aq_table :: risk_table
  aq_inputs :: ceiling_inputs
  aq_context :: feature_context
  aq_development :: "(int \<Rightarrow> development_decision) option"
  aq_approval_profile :: "approval_profile option"
  aq_operator_policy :: "operator_policy option"

definition ceiling_env :: "string \<Rightarrow> env" where
  "ceiling_env environment = (if environment = ''prod'' then PRODUCTION else NON_PRODUCTION)"

definition authority_feature :: "authority_query \<Rightarrow> feature_vector" where
  "authority_feature q = feature_vector_from (aq_action_type q) (aq_context q)"

definition authority_verdict :: "authority_query \<Rightarrow> risk_verdict" where
  "authority_verdict q = table_evaluate (aq_table q) (authority_feature q)"

definition authority_ceiling_query :: "authority_query \<Rightarrow> ceiling_query" where
  "authority_ceiling_query q =
     (let probe = resolve_live_probe_axis (aq_action_type q) (ci_live_probe (aq_inputs q))
            (ci_failure_streak (aq_inputs q))
      in \<lparr>q_tier = aq_tier q, q_action_type = aq_action_type q, q_verdict = authority_verdict q,
          q_principal = ci_principal_role (aq_inputs q),
          q_env = ceiling_env (fc_environment (aq_context q)),
          q_graph_affected = ci_graph_affected (aq_inputs q),
          q_live_probe = lp_result probe, q_live_probe_reason = Some (lp_reason probe),
          q_degraded = ci_degraded (aq_inputs q), q_kill_switch = ci_kill_switch (aq_inputs q)\<rparr>)"

definition authority_unsafe :: "authority_query \<Rightarrow> bool" where
  "authority_unsafe q = development_evidence_unsafe (aq_action_type q)
     (fc_policy_violation (aq_context q)) (fc_graph_stale (aq_context q))
     (ci_graph_affected (aq_inputs q)) (ci_degraded (aq_inputs q)) (ci_kill_switch (aq_inputs q))
     (ci_live_probe (aq_inputs q)) (ci_failure_streak (aq_inputs q))"

text \<open>The development branch: the level, the quorum and the decision after it.\<close>

definition development_stage ::
  "authority_query \<Rightarrow> resolved_ceiling \<Rightarrow> axis_level \<times> int \<times> development_decision option" where
  "development_stage q ceil = (case aq_development q of
     None \<Rightarrow> (final_level ceil, final_quorum ceil, None)
   | Some dev \<Rightarrow>
       (let d = dev (final_quorum ceil); unsafe = authority_unsafe q in
        if \<not> eligible d \<or> unsafe then
          (AX_DENY, final_quorum ceil,
           Some (if unsafe
                 then \<lparr>eligible = False, dev_reason_code = ''safety_or_evidence_prerequisite_failed''\<rparr>
                 else d))
        else if final_level ceil \<in> {AX_ENFORCE_AUTO, AX_ENFORCE_HIL} \<or>
                category_only_denial (aq_table q) (authority_feature q) ceil \<noteq> None
        then (AX_ENFORCE_HIL, 1, Some d)
        else (final_level ceil, final_quorum ceil, Some d)))"

definition evaluate_execution_authority :: "authority_query \<Rightarrow> authority_decision res" where
  "evaluate_execution_authority q =
     (if aq_approval_profile q \<noteq> None \<and> aq_development q \<noteq> None
      then Inl (ValueError ''approval_profile and development_profile MUST NOT both be supplied'')
      else
        (let ceil = resolve_ceiling (authority_ceiling_query q);
             (level, quorum, development) = development_stage q ceil;
             level = apply_operator_policy level (aq_operator_policy q)
         in bind_res
              (if aq_approval_profile q \<noteq> None \<and> level = AX_ENFORCE_HIL
               then effective_quorum_for (aq_approval_profile q) quorum else Inr quorum)
              (\<lambda>quorum. Inr \<lparr>ea_final_level = level, ea_quorum = quorum,
                 ea_original_level = final_level ceil, ea_original_quorum = final_quorum ceil,
                 ea_ceiling = ceil, ea_verdict = authority_verdict q,
                 ea_feature = authority_feature q, ea_catalog_version = rt_version (aq_table q),
                 ea_inputs = aq_inputs q, ea_development = development,
                 ea_approval_profile = aq_approval_profile q,
                 ea_operator_policy = aq_operator_policy q\<rparr>)))"

section \<open>The unified decision\<close>

definition gate_level :: "risk_decision \<Rightarrow> axis_level" where
  "gate_level d = (case outcome d of
     DENY \<Rightarrow> AX_DENY
   | HIL \<Rightarrow> AX_ENFORCE_HIL
   | ABSTAIN \<Rightarrow> AX_ENFORCE_HIL
   | AUTO \<Rightarrow> if effective_mode d = ENFORCE then AX_ENFORCE_AUTO else AX_SHADOW_ONLY)"

record unified_decision =
  ud_level :: axis_level
  ud_quorum :: int
  winning_side :: string
  ud_gate :: risk_decision
  ud_authority :: "authority_decision option"
  evidence_conflict_clear :: bool

definition combine :: "risk_decision \<Rightarrow> authority_decision option \<Rightarrow> unified_decision" where
  "combine gate authority = (case authority of
     None \<Rightarrow> \<lparr>ud_level = gate_level gate, ud_quorum = 1, winning_side = ''gate'', ud_gate = gate,
       ud_authority = None, evidence_conflict_clear = True\<rparr>
   | Some a \<Rightarrow>
       (let (level, side) =
          (if ea_final_level a < gate_level gate then (ea_final_level a, ''authority'')
           else if gate_level gate < ea_final_level a then (gate_level gate, ''gate'')
           else (gate_level gate, ''gate+authority''))
        in \<lparr>ud_level = level, ud_quorum = ea_quorum a, winning_side = side, ud_gate = gate,
            ud_authority = Some a, evidence_conflict_clear = True\<rparr>))"

definition development_category_denial ::
  "unified_decision \<Rightarrow> risk_table \<Rightarrow> action_type \<Rightarrow> category_denial option" where
  "development_category_denial u table aty = (case ud_authority u of
     None \<Rightarrow> None
   | Some a \<Rightarrow>
       (if ud_level u \<noteq> AX_DENY \<or> ea_development a \<noteq> None \<or>
           ea_catalog_version a \<noteq> rt_version table \<or> outcome (ud_gate u) = DENY \<or>
           (outcome (ud_gate u) = AUTO \<and> effective_mode (ud_gate u) \<noteq> ENFORCE) \<or>
           list_ex (starts_with ''graph_fresh_precondition'') (reasons (ud_gate u)) \<or>
           \<not> evidence_conflict_clear u
        then None
        else if development_evidence_unsafe aty (fv_policy_violation (ea_feature a) = Some True)
                  (fv_graph_stale (ea_feature a)) (ci_graph_affected (ea_inputs a))
                  (ci_degraded (ea_inputs a)) (ci_kill_switch (ea_inputs a))
                  (ci_live_probe (ea_inputs a)) (ci_failure_streak (ea_inputs a))
        then None
        else category_only_denial table (ea_feature a) (ea_ceiling a)))"

section \<open>Category denials are only about the category\<close>

lemma category_denial_deny:
  "category_only_denial table v (resolve_ceiling q) = Some cd \<Longrightarrow>
     final_level (resolve_ceiling q) = AX_DENY \<and>
     (\<forall>a\<in>set (ceiling_axes q). ax_name a \<notin> set category_axes \<longrightarrow> AX_ENFORCE_HIL \<le> ax_level a)"
proof -
  assume cd: "category_only_denial table v (resolve_ceiling q) = Some cd"
  have axes: "rc_axes (resolve_ceiling q) = ceiling_axes q" by (simp add: resolve_ceiling_def Let_def)
  from cd have den: "map ax_name (filter (\<lambda>a. ax_level a = AX_DENY) (ceiling_axes q)) \<noteq> []"
    and others: "\<not> list_ex (\<lambda>a. ax_name a \<notin> set category_axes \<and> ax_level a < AX_ENFORCE_HIL) (ceiling_axes q)"
    unfolding category_only_denial_def Let_def axes by (auto split: if_splits)
  from den obtain a where "a \<in> set (ceiling_axes q)" "ax_level a = AX_DENY"
    by (auto simp: filter_empty_conv)
  with final_level_le [of a q] have "final_level (resolve_ceiling q) \<le> AX_DENY" by simp
  moreover have "AX_DENY \<le> final_level (resolve_ceiling q)" by simp
  ultimately have "final_level (resolve_ceiling q) = AX_DENY" by (rule order_antisym)
  with others show ?thesis by (auto simp: list_ex_iff not_less)
qed

lemma find_append_left:
  "x \<in> set xs \<Longrightarrow> P x \<Longrightarrow> \<exists>y. find P (xs @ ys) = Some y \<and> y \<in> set xs"
  by (induction xs) auto

lemma ordered_rules_filter:
  "ordered_rules rs \<Longrightarrow> ordered_rules (filter P rs)"
proof (induction rs)
  case (Cons r rs)
  then show ?case by (cases "is_default r"; cases "P r") (auto simp: ordered_rules_def)
qed (simp add: ordered_rules_def)

text \<open>
  The category waiver cannot hide a second denial: for a loaded table with its default in
  last place, every explicit deny rule that matches conditions category dimensions alone,
  and the waiver names it.
\<close>

theorem category_denial_complete:
  assumes "load_risk_table str_of raw = Inr table" and "is_default (last (rt_rules table))"
    and "category_only_denial table v c = Some cd"
    and "r \<in> set (rt_rules table)" and "\<not> is_default r" and "decision r = RL_DENY"
    and "rule_matches r (as_lookup v)"
  shows "set (rule_dimensions r) \<subseteq> set category_dimensions \<and> rule_id r \<in> set (cd_rule_ids cd)"
proof -
  let ?rest = "filter (\<lambda>r. \<not> category_rule v r) (rt_rules table)"
  have rest: "filter (\<lambda>r. r \<notin> set (filter (category_rule v) (rt_rules table))) (rt_rules table) = ?rest"
    by (rule filter_cong) auto
  from assms(3) have ids: "cd_rule_ids cd = map rule_id (filter (category_rule v) (rt_rules table))"
    and nd: "rv_decision (evaluate_rules ?rest (as_lookup v)) \<noteq> RL_DENY"
    unfolding category_only_denial_def Let_def table_evaluate_def risk_table.simps rest
    by (auto split: if_splits)
  have ok: "table_ok table" by (rule load_risk_table_ok [OF assms(1)])
  then obtain dflt where dflt: "filter is_default (rt_rules table) = [dflt]" by (auto simp: table_ok_def)
  have "rt_rules table \<noteq> []" using assms(4) by auto
  then obtain pre where pre: "rt_rules table = pre @ [last (rt_rules table)]"
    by (metis append_butlast_last_id)
  have "filter is_default pre @ [last (rt_rules table)] = [dflt]"
    using dflt assms(2) pre by (metis (full_types) filter.simps filter_append)
  then have none: "\<not> is_default x" if "x \<in> set pre" for x
    using that by (auto simp: filter_empty_conv)
  have "category_rule v r"
  proof (rule ccontr)
    assume n: "\<not> category_rule v r"
    let ?pre = "filter (\<lambda>r. \<not> category_rule v r) pre"
    have "r \<in> set pre" using assms(2,4,5) pre by (metis Un_iff set_ConsD set_append empty_iff empty_set)
    with n have "r \<in> set ?pre" by simp
    moreover have "?rest = ?pre @ filter (\<lambda>r. \<not> category_rule v r) [last (rt_rules table)]"
      by (metis filter_append pre)
    ultimately obtain f where f: "find (\<lambda>r. rule_matches r (as_lookup v)) ?rest = Some f" "f \<in> set ?pre"
      using find_append_left [of r ?pre "\<lambda>r. rule_matches r (as_lookup v)"] assms(7) by metis
    have fd: "decision f \<noteq> RL_DENY" using nd f(1) by (simp add: evaluate_rules_find rule_verdict_def)
    have "ordered_rules ?rest" using ok by (auto simp: table_ok_def intro: ordered_rules_filter)
    from ordered_first_match [OF this f(1)] f(2) none n assms(4,5,7)
    have "level_strictness (decision f) \<le> level_strictness (decision r)" by auto
    with assms(6) fd show False by (cases "decision f") auto
  qed
  then show ?thesis
    using assms(4) ids by (auto simp: category_rule_def list_all_iff)
qed

section \<open>The pipeline only lowers\<close>

lemma authority_Inr:
  assumes "evaluate_execution_authority q = Inr d"
  defines "rc \<equiv> resolve_ceiling (authority_ceiling_query q)"
  shows "ea_final_level d = apply_operator_policy (fst (development_stage q rc)) (aq_operator_policy q) \<and>
    ea_original_level d = final_level rc \<and> ea_original_quorum d = final_quorum rc \<and> ea_ceiling d = rc \<and>
    ea_verdict d = authority_verdict q \<and> ea_feature d = authority_feature q \<and>
    ea_quorum d = (if ea_final_level d = AX_ENFORCE_HIL \<and> single_profile (aq_approval_profile q) then 1
      else fst (snd (development_stage q rc))) \<and>
    \<not> (aq_approval_profile q \<noteq> None \<and> aq_development q \<noteq> None)"
  using assms(1) unfolding rc_def
  by (auto simp: evaluate_execution_authority_def Let_def effective_quorum_cases single_profile_def
      split: if_splits prod.splits option.splits)

lemma development_stage_level:
  "fst (development_stage q rc) \<le> final_level rc \<or>
   (\<exists>dev cd. aq_development q = Some dev \<and> eligible (dev (final_quorum rc)) \<and> \<not> authority_unsafe q \<and>
      category_only_denial (aq_table q) (authority_feature q) rc = Some cd \<and>
      fst (development_stage q rc) = AX_ENFORCE_HIL)"
  by (auto simp: development_stage_def Let_def axis_order split: option.splits)

text \<open>
  C12: The level after the pipeline is below the ceiling, with one exception: a current
  development authority, with every safety and evidence prerequisite met, lifts a denial
  that is only about the category to a human approval, never to automatic.
\<close>

theorem authority_never_raises:
  assumes "evaluate_execution_authority q = Inr d"
  shows "ea_final_level d \<le> ea_original_level d \<or>
    (ea_original_level d = AX_DENY \<and> ea_final_level d \<le> AX_ENFORCE_HIL \<and>
     (\<exists>dev cd. aq_development q = Some dev \<and> eligible (dev (ea_original_quorum d)) \<and> \<not> authority_unsafe q \<and>
        category_only_denial (aq_table q) (ea_feature d) (ea_ceiling d) = Some cd))"
proof -
  note r = authority_Inr [OF assms]
  let ?rc = "resolve_ceiling (authority_ceiling_query q)"
  have le: "ea_final_level d \<le> fst (development_stage q ?rc)"
    using r operator_stage.never_raises by simp
  from development_stage_level [of q ?rc] show ?thesis
  proof
    assume "fst (development_stage q ?rc) \<le> final_level ?rc"
    with le r show ?thesis by auto
  next
    assume "\<exists>dev cd. aq_development q = Some dev \<and> eligible (dev (final_quorum ?rc)) \<and> \<not> authority_unsafe q \<and>
      category_only_denial (aq_table q) (authority_feature q) ?rc = Some cd \<and>
      fst (development_stage q ?rc) = AX_ENFORCE_HIL"
    then obtain dev cd where x: "aq_development q = Some dev" "eligible (dev (final_quorum ?rc))"
      "\<not> authority_unsafe q" "category_only_denial (aq_table q) (authority_feature q) ?rc = Some cd"
      "fst (development_stage q ?rc) = AX_ENFORCE_HIL" by blast
    with category_denial_deny [OF x(4)] le r show ?thesis by auto
  qed
qed

text \<open>
  The fail-safes hold against the development path as well: with the kill switch engaged, a
  degraded control plane or tier T2 the result is at most shadow.
\<close>

lemma category_denial_not_t2:
  assumes "q_tier q = T2"
  shows "category_only_denial table v (resolve_ceiling q) = None"
proof (rule ccontr)
  assume "category_only_denial table v (resolve_ceiling q) \<noteq> None"
  then obtain cd where "category_only_denial table v (resolve_ceiling q) = Some cd" by auto
  from category_denial_deny [OF this] have
    "\<forall>a\<in>set (ceiling_axes q). ax_name a \<notin> set category_axes \<longrightarrow> AX_ENFORCE_HIL \<le> ax_level a" by blast
  moreover have "axis_b_tier T2 \<in> set (ceiling_axes q)" using assms by (simp add: ceiling_axes_def)
  ultimately show False by (auto simp: axis_b_tier_def category_axes_def axis_order)
qed

text \<open>
  With the kill switch engaged, a degraded control plane or tier T2, the authority pipeline
  ends at most in shadow, also with a development authority.
\<close>

theorem authority_fail_safe:
  assumes "evaluate_execution_authority q = Inr d"
    and "ci_kill_switch (aq_inputs q) \<or> ci_degraded (aq_inputs q) \<or> aq_tier q = T2"
  shows "ea_final_level d \<le> AX_SHADOW_ONLY"
proof -
  let ?cq = "authority_ceiling_query q"
  have "final_level (resolve_ceiling ?cq) \<le> AX_SHADOW_ONLY"
    using assms(2) fail_safe_caps [of ?cq] by (auto simp: authority_ceiling_query_def Let_def)
  moreover have "\<not> (\<not> authority_unsafe q \<and>
      category_only_denial (aq_table q) (authority_feature q) (resolve_ceiling ?cq) = Some cd)" for cd
  proof (cases "aq_tier q = T2")
    case True
    then have "q_tier ?cq = T2" by (simp add: authority_ceiling_query_def Let_def)
    from category_denial_not_t2 [OF this] show ?thesis by simp
  next
    case False
    with assms(2) have "authority_unsafe q"
      by (auto simp: authority_unsafe_def development_evidence_unsafe_def)
    then show ?thesis by simp
  qed
  ultimately have "fst (development_stage q (resolve_ceiling ?cq)) \<le> AX_SHADOW_ONLY"
    using development_stage_level [of q "resolve_ceiling ?cq"] by (auto intro: order_trans)
  then show ?thesis
    using authority_Inr [OF assms(1)] operator_stage.bound_kept by simp
qed

text \<open>
  Quorum: the number of approvals is the table's, except that it becomes one when a human has
  to approve under the single-operator profile or the development profile.
\<close>

theorem authority_quorum:
  assumes "evaluate_execution_authority q = Inr d" and "ea_quorum d \<noteq> ea_original_quorum d"
  shows "ea_quorum d = 1 \<and>
    ((ea_final_level d = AX_ENFORCE_HIL \<and> single_profile (aq_approval_profile q)) \<or>
     (\<exists>dev. aq_development q = Some dev \<and> eligible (dev (ea_original_quorum d)) \<and>
        ea_final_level d \<le> AX_ENFORCE_HIL))"
proof -
  note r = authority_Inr [OF assms(1)]
  let ?rc = "resolve_ceiling (authority_ceiling_query q)"
  show ?thesis
  proof (cases "ea_final_level d = AX_ENFORCE_HIL \<and> single_profile (aq_approval_profile q)")
    case True
    with r show ?thesis by simp
  next
    case False
    with r assms(2) have "fst (snd (development_stage q ?rc)) \<noteq> final_quorum ?rc" by auto
    then obtain dev where x: "aq_development q = Some dev" "eligible (dev (final_quorum ?rc))"
      "fst (development_stage q ?rc) = AX_ENFORCE_HIL" "fst (snd (development_stage q ?rc)) = 1"
      by (auto simp: development_stage_def Let_def split: option.splits if_splits)
    moreover have "ea_final_level d \<le> AX_ENFORCE_HIL"
      using r x(3) operator_stage.never_raises [of AX_ENFORCE_HIL] by simp
    ultimately show ?thesis using r False by auto
  qed
qed

section \<open>Combination with the gate\<close>

lemma combine_level: "ud_level (combine g (Some a)) = min (gate_level g) (ea_final_level a)"
  by (auto simp: combine_def Let_def)

interpretation gate_stage: lowering "\<lambda>l. ud_level (combine g (Some (a\<lparr>ea_final_level := l\<rparr>)))" for g a
  by unfold_locales (simp add: combine_level)

lemma gate_level_auto: "gate_level d = AX_ENFORCE_AUTO \<longleftrightarrow> outcome d = AUTO \<and> effective_mode d = ENFORCE"
  by (auto simp: gate_level_def split: gate_outcome.splits)

lemma unified_auto:
  "ud_level (combine g (Some a)) = AX_ENFORCE_AUTO \<Longrightarrow>
     ea_final_level a = AX_ENFORCE_AUTO \<and> outcome g = AUTO \<and> effective_mode g = ENFORCE"
  using gate_stage.auto_before [of g "ea_final_level a" a]
  by (auto simp: combine_level gate_level_auto min_def split: if_splits)

lemma authority_auto:
  assumes "evaluate_execution_authority q = Inr d" and "ea_final_level d = AX_ENFORCE_AUTO"
  shows "aq_development q = None \<and> final_level (resolve_ceiling (authority_ceiling_query q)) = AX_ENFORCE_AUTO \<and>
    (\<forall>p. aq_operator_policy q = Some p \<longrightarrow> op_outcome p = OP_ALLOW)"
proof -
  let ?rc = "resolve_ceiling (authority_ceiling_query q)"
  have s: "apply_operator_policy (fst (development_stage q ?rc)) (aq_operator_policy q) = AX_ENFORCE_AUTO"
    using authority_Inr [OF assms(1)] assms(2) by simp
  from operator_stage.auto_before [OF s] have dv: "fst (development_stage q ?rc) = AX_ENFORCE_AUTO" .
  have "op_outcome p = OP_ALLOW" if "aq_operator_policy q = Some p" for p
    using s dv that by (cases "op_outcome p") (auto simp: apply_operator_policy_def axis_order min_def)
  with dv show ?thesis
    by (auto simp: development_stage_def Let_def split: option.splits if_splits)
qed

text \<open>
  Two evaluators have to agree before anything runs without a human: the unified level is
  automatic exactly when the gate decided \<open>AUTO\<close> in enforce mode and the
  authority pipeline ended automatic; the level is never above either of them.
\<close>

theorem unified_auto_iff:
  "(ud_level (combine g (Some a)) = AX_ENFORCE_AUTO \<longleftrightarrow>
      outcome g = AUTO \<and> effective_mode g = ENFORCE \<and> ea_final_level a = AX_ENFORCE_AUTO) \<and>
   ud_level (combine g (Some a)) \<le> gate_level g \<and> ud_level (combine g (Some a)) \<le> ea_final_level a \<and>
   ud_quorum (combine g (Some a)) = ea_quorum a"
proof -
  have "gate_level g = AX_ENFORCE_AUTO \<Longrightarrow> ea_final_level a = AX_ENFORCE_AUTO \<Longrightarrow>
      ud_level (combine g (Some a)) = AX_ENFORCE_AUTO"
    by (simp add: combine_level)
  moreover have "ud_quorum (combine g (Some a)) = ea_quorum a"
    by (simp add: combine_def case_prod_beta)
  ultimately show ?thesis
    using unified_auto [of g a] gate_level_auto [of g] combine_level [of g a] min.cobounded1 min.cobounded2
    by metis
qed

lemma guarded_Some: "(if c then None else x) = Some y \<longleftrightarrow> \<not> c \<and> x = Some y"
  by simp

text \<open>
  A denial may be parked for the development owner only if the gate itself would admit a
  human approval and no fail-safe or policy violation is recorded.
\<close>

theorem parked_denial_is_safe:
  assumes "development_category_denial u table aty = Some cd"
  shows "\<exists>a. ud_authority u = Some a \<and> ud_level u = AX_DENY \<and> AX_ENFORCE_HIL \<le> gate_level (ud_gate u) \<and>
    \<not> ci_kill_switch (ea_inputs a) \<and> \<not> ci_degraded (ea_inputs a) \<and>
    fv_policy_violation (ea_feature a) \<noteq> Some True \<and> evidence_conflict_clear u \<and>
    category_only_denial table (ea_feature a) (ea_ceiling a) = Some cd"
proof -
  obtain a where a: "ud_authority u = Some a"
    using assms by (cases "ud_authority u") (simp_all add: development_category_denial_def)
  from assms [unfolded development_category_denial_def a option.case guarded_Some]
  have open_gate: "outcome (ud_gate u) \<noteq> DENY"
      "outcome (ud_gate u) = AUTO \<Longrightarrow> effective_mode (ud_gate u) = ENFORCE"
    and rest: "ud_level u = AX_DENY" "evidence_conflict_clear u"
      "category_only_denial table (ea_feature a) (ea_ceiling a) = Some cd"
      "\<not> development_evidence_unsafe aty (fv_policy_violation (ea_feature a) = Some True)
                  (fv_graph_stale (ea_feature a)) (ci_graph_affected (ea_inputs a))
                  (ci_degraded (ea_inputs a)) (ci_kill_switch (ea_inputs a))
                  (ci_live_probe (ea_inputs a)) (ci_failure_streak (ea_inputs a))"
    by blast+
  have "AX_ENFORCE_HIL \<le> gate_level (ud_gate u)"
    using open_gate by (cases "outcome (ud_gate u)") (simp_all add: gate_level_def)
  with a rest show ?thesis by (simp add: development_evidence_unsafe_def)
qed

section \<open>Concrete pipelines\<close>

definition sample_inputs :: ceiling_inputs where
  "sample_inputs = \<lparr>ci_principal_role = Role OWNER, ci_graph_affected = None, ci_live_probe = None,
     ci_failure_streak = 0, ci_degraded = False, ci_kill_switch = False\<rparr>"

definition sample_context :: feature_context where
  "sample_context = \<lparr>fc_environment = ''non-prod'', fc_policy_violation = False,
     fc_verifier_confidence = None, fc_cost_impact_monthly = None, fc_graph_stale = None,
     fc_cross_resource_impact = None, fc_allowlist_prod_auto = False\<rparr>"

definition sample_authority :: authority_query where
  "sample_authority = \<lparr>aq_tier = T0, aq_action_type = sample_at, aq_table = sample_table,
     aq_inputs = sample_inputs, aq_context = sample_context, aq_development = None,
     aq_approval_profile = None, aq_operator_policy = None\<rparr>"

lemma sample_authority_auto:
  "\<exists>d. evaluate_execution_authority sample_authority = Inr d \<and> ea_final_level d = AX_ENFORCE_AUTO"
proof -
  have "(case evaluate_execution_authority sample_authority of Inl _ \<Rightarrow> None
      | Inr d \<Rightarrow> Some (ea_final_level d)) = Some AX_ENFORCE_AUTO" by code_simp
  then show ?thesis by (auto split: sum.splits)
qed

theorem authority_never_raises_witness:
  "\<exists>d. evaluate_execution_authority sample_authority = Inr d \<and> ea_final_level d \<le> ea_original_level d"
proof -
  obtain d where d: "evaluate_execution_authority sample_authority = Inr d"
    using sample_authority_auto by blast
  have "aq_development sample_authority = None" by (simp add: sample_authority_def)
  with d authority_never_raises [OF d] show ?thesis by auto
qed

theorem authority_fail_safe_witness:
  "\<exists>d. evaluate_execution_authority
      (sample_authority\<lparr>aq_inputs := sample_inputs\<lparr>ci_kill_switch := True\<rparr>\<rparr>) = Inr d \<and>
    ea_final_level d \<le> AX_SHADOW_ONLY"
proof -
  let ?q = "sample_authority\<lparr>aq_inputs := sample_inputs\<lparr>ci_kill_switch := True\<rparr>\<rparr>"
  obtain d where d: "evaluate_execution_authority ?q = Inr d"
    by (auto simp: evaluate_execution_authority_def sample_authority_def Let_def case_prod_beta)
  have "ci_kill_switch (aq_inputs ?q)" by simp
  with authority_fail_safe [OF d] d show ?thesis by blast
qed

definition profile_authority :: authority_query where
  "profile_authority = sample_authority\<lparr>aq_tier := T1, aq_approval_profile := Some sample_profile,
     aq_table := sample_table\<lparr>rt_rules := map (\<lambda>r. r\<lparr>quorum := 2\<rparr>) (rt_rules sample_table)\<rparr>\<rparr>"

theorem authority_quorum_witness:
  "\<exists>d. evaluate_execution_authority profile_authority = Inr d \<and> ea_original_quorum d = 2 \<and> ea_quorum d = 1"
proof -
  have "(case evaluate_execution_authority profile_authority of Inl _ \<Rightarrow> None
      | Inr d \<Rightarrow> Some (ea_quorum d, ea_original_quorum d)) = Some (1, 2)" by code_simp
  then obtain d where d: "evaluate_execution_authority profile_authority = Inr d"
    "ea_quorum d = 1" "ea_original_quorum d = 2" by (auto split: sum.splits)
  with authority_quorum [OF d(1)] show ?thesis by auto
qed

text \<open>A table that denies destructive operations, and a query on a destructive ActionType.\<close>

definition category_doc :: json where
  "category_doc = JObj
    [(''version'', JStr ''1''), (''owner_group'', JStr ''ops''),
     (''rules'', JList
       [JObj [(''id'', JStr ''d''), (''decision'', JStr ''deny''),
              (''if'', JObj [(''destructive'', JBool True)])],
        JObj [(''id'', JStr ''z''), (''default'', JStr ''hil'')]])]"

definition category_table :: risk_table where
  "category_table = \<lparr>rt_version = ''1'', rt_owner_group = ''ops'', rt_rules =
     [\<lparr>rule_id = ''d'', decision = RL_DENY, rr_reason = [], quorum = 1, is_default = False,
       conditions = [Equality ''destructive'' (JBool True)]\<rparr>,
      \<lparr>rule_id = ''z'', decision = RL_HIL, rr_reason = [], quorum = 1, is_default = True,
       conditions = []\<rparr>]\<rparr>"

lemma category_table_loads: "load_risk_table sample_str category_doc = Inr category_table"
  by code_simp

definition category_query :: authority_query where
  "category_query = sample_authority\<lparr>aq_table := category_table,
     aq_action_type := sample_at\<lparr>at_operation := OpDELETE\<rparr>\<rparr>"

definition category_ceiling :: resolved_ceiling where
  "category_ceiling = resolve_ceiling (authority_ceiling_query category_query)"

definition expected_denial :: category_denial where
  "expected_denial = \<lparr>cd_rule_ids = [''d''], cd_axes = [''risk_table''], residual_rule_id = ''z'',
     residual_decision = RL_HIL, residual_quorum = 1\<rparr>"

lemma category_query_denial:
  "category_only_denial category_table (authority_feature category_query) category_ceiling =
     Some expected_denial"
  unfolding category_ceiling_def expected_denial_def by code_simp

theorem category_denial_complete_witness:
  "rule_id (hd (rt_rules category_table)) \<in> set (cd_rule_ids expected_denial)"
proof -
  have l: "is_default (last (rt_rules category_table))" by code_simp
  have m: "hd (rt_rules category_table) \<in> set (rt_rules category_table)"
    by (simp add: category_table_def)
  have d: "\<not> is_default (hd (rt_rules category_table))" "decision (hd (rt_rules category_table)) = RL_DENY"
    "rule_matches (hd (rt_rules category_table)) (as_lookup (authority_feature category_query))"
    by code_simp+
  from category_denial_complete [OF category_table_loads l category_query_denial m d] show ?thesis ..
qed

theorem parked_denial_is_safe_witness:
  "\<exists>u. development_category_denial u category_table sample_at = Some expected_denial \<and>
     AX_ENFORCE_HIL \<le> gate_level (ud_gate u)"
proof -
  let ?g = "\<lparr>outcome = HIL, rd_action_id = ''a1'', effective_mode = SHADOW,
      reasons = [''action_type_in_shadow_mode'']\<rparr>"
  let ?r = "evaluate_execution_authority category_query"
  have "(case ?r of Inl _ \<Rightarrow> None
      | Inr a \<Rightarrow> development_category_denial (combine ?g (Some a)) category_table sample_at) =
      Some expected_denial" unfolding expected_denial_def by code_simp
  then obtain a where
    "development_category_denial (combine ?g (Some a)) category_table sample_at = Some expected_denial"
    by (auto split: sum.splits)
  with parked_denial_is_safe [OF this] show ?thesis by blast
qed

section \<open>The ceiling at concrete queries\<close>

theorem ceiling_auto_iff_witness:
  "final_level (resolve_ceiling (authority_ceiling_query sample_authority)) = AX_ENFORCE_AUTO \<and>
   \<not> q_kill_switch (authority_ceiling_query sample_authority)"
proof -
  have "final_level (resolve_ceiling (authority_ceiling_query sample_authority)) = AX_ENFORCE_AUTO"
    by code_simp
  with ceiling_auto_iff [of "authority_ceiling_query sample_authority"] show ?thesis by blast
qed

theorem ceiling_is_least_autonomous_witness:
  "final_level (resolve_ceiling (authority_ceiling_query category_query)) \<le> AX_DENY"
proof -
  let ?q = "authority_ceiling_query category_query"
  have "\<exists>a\<in>set (rc_axes (resolve_ceiling ?q)). ax_level a \<le> AX_DENY" by code_simp
  with ceiling_is_least_autonomous [of ?q] show ?thesis by (auto intro: order_trans)
qed

theorem ceiling_fail_safe_witness:
  "final_level (resolve_ceiling
     ((authority_ceiling_query sample_authority)\<lparr>q_kill_switch := True\<rparr>)) \<le> AX_SHADOW_ONLY"
  using ceiling_fail_safe [of "(authority_ceiling_query sample_authority)\<lparr>q_kill_switch := True\<rparr>"]
  by simp

end
