(* ===== verification/BlastRadius.thy ===== *)
theory BlastRadius
  imports Contracts "HOL-Library.Multiset"
begin

text \<open>
  The blast-radius simulator (\<open>core/risk_gate/blast_radius_simulator.py\<close>), a bounded
  breadth-first search over the injected ontology graph, and the executor's blast-radius
  ceiling (\<open>core/executor/blast_radius.py\<close>).

  The graph is a pair of functions. The \<open>while\<close> loop over the queue is a recursive function
  that terminates for every graph, finite or not, because the depth is bounded.
\<close>

section \<open>Data\<close>

definition max_traversal_depth :: int where
  "max_traversal_depth = 5"

record graph =
  neighbors :: "string \<Rightarrow> string \<Rightarrow> string list"
  has_link_type :: "string \<Rightarrow> bool"

record reached_node =
  resource_id :: string
  depth :: nat
  via_link_type :: "string option"

record traversed_edge =
  te_source :: string
  te_target :: string
  te_link_type :: string
  te_depth :: nat

record blast_report =
  br_target :: string
  br_depth :: int
  br_links :: "string list"
  reached_nodes :: "reached_node list"
  br_edges :: "traversed_edge list"
  truncated_at_depth :: bool

definition affected_count :: "blast_report \<Rightarrow> nat" where
  "affected_count r = length (filter (\<lambda>n. resource_id n \<noteq> br_target r) (reached_nodes r))"

record blast_request =
  bq_target :: string
  bq_depth :: int
  bq_links :: "string list"

text \<open>\<open>InMemoryOntologyGraph\<close>\<close>

definition memory_graph :: "(string \<times> string, string list) dict \<Rightarrow> string list \<Rightarrow> graph" where
  "memory_graph edges link_types = \<lparr>
     neighbors = (\<lambda>source link. case dict_get edges (source, link) of None \<Rightarrow> [] | Some ts \<Rightarrow> ts),
     has_link_type = (\<lambda>link. link \<in> set link_types)\<rparr>"

section \<open>The search\<close>

record bfs =
  seen :: "(string, reached_node) dict"
  edges :: "traversed_edge list"
  truncated :: bool
  queue :: "(string \<times> nat) list"

definition check_truncation :: "graph \<Rightarrow> string \<Rightarrow> string list \<Rightarrow> (string, reached_node) dict \<Rightarrow> bool" where
  "check_truncation g node links sn =
     list_ex (\<lambda>link. list_ex (\<lambda>n. dict_get sn n = None) (neighbors g node link)) links"

text \<open>The body of the innermost loop: one neighbour.\<close>

definition visit ::
  "graph \<Rightarrow> nat \<Rightarrow> string list \<Rightarrow> string \<Rightarrow> nat \<Rightarrow> string \<Rightarrow> string \<Rightarrow> bfs \<Rightarrow> bfs" where
  "visit g limit links current d link n st =
     (let st = st\<lparr>edges := edges st @ [\<lparr>te_source = current, te_target = n, te_link_type = link,
                                       te_depth = d + 1\<rparr>]\<rparr>
      in if dict_get (seen st) n = None then
           (let st = st\<lparr>seen := dict_set (seen st) n
                  \<lparr>resource_id = n, depth = d + 1, via_link_type = Some link\<rparr>\<rparr>
            in if d + 1 < limit then st\<lparr>queue := queue st @ [(n, d + 1)]\<rparr>
               else st\<lparr>truncated := (check_truncation g n links (seen st) \<or> truncated st)\<rparr>)
         else st)"

definition expand :: "graph \<Rightarrow> nat \<Rightarrow> string list \<Rightarrow> string \<Rightarrow> nat \<Rightarrow> bfs \<Rightarrow> bfs" where
  "expand g limit links current d st =
     fold (\<lambda>link st. fold (visit g limit links current d link) (neighbors g current link) st) links st"

text \<open>The two loops as one loop over the outgoing hops of a node.\<close>

definition hops :: "graph \<Rightarrow> string list \<Rightarrow> string \<Rightarrow> (string \<times> string) list" where
  "hops g links u = concat (map (\<lambda>link. map (Pair link) (neighbors g u link)) links)"

lemma expand_hops:
  "expand g limit links current d st =
     fold (\<lambda>(link, n). visit g limit links current d link n) (hops g links current) st"
proof -
  have inner: "fold (visit g limit links current d link) ns st =
      fold (\<lambda>(link, n). visit g limit links current d link n) (map (Pair link) ns) st" for link ns st
    by (induction ns arbitrary: st) auto
  have "fold (\<lambda>link st. fold (visit g limit links current d link) (neighbors g current link) st) ls st =
      fold (\<lambda>(link, n). visit g limit links current d link n)
        (concat (map (\<lambda>link. map (Pair link) (neighbors g current link)) ls)) st" for ls
    by (induction ls arbitrary: st) (auto simp: inner)
  then show ?thesis by (simp add: expand_def hops_def)
qed

lemma visit_queue:
  "\<exists>new. queue (visit g limit links current d link n st) = queue st @ new \<and> (\<forall>(m, e)\<in>set new. e = d + 1)"
  by (auto simp: visit_def Let_def)

lemma expand_queue:
  "\<exists>new. queue (expand g limit links current d st) = queue st @ new \<and> (\<forall>(m, e)\<in>set new. e = d + 1)"
proof -
  have "\<exists>new. queue (fold (\<lambda>(link, n). visit g limit links current d link n) hs st) = queue st @ new \<and>
      (\<forall>(m, e)\<in>set new. e = d + 1)" for hs
  proof (induction hs arbitrary: st)
    case (Cons h hs)
    obtain a where a: "queue (visit g limit links current d (fst h) (snd h) st) = queue st @ a"
      "\<forall>(m, e)\<in>set a. e = d + 1" using visit_queue by blast
    let ?rest = "\<lambda>st. fold (\<lambda>(link, n). visit g limit links current d link n) hs st"
    let ?st = "visit g limit links current d (fst h) (snd h) st"
    obtain b where "queue (?rest ?st) = queue ?st @ b" "\<forall>(m, e)\<in>set b. e = d + 1"
      using Cons.IH by blast
    with a have "queue (?rest ?st) = queue st @ (a @ b) \<and> (\<forall>(m, e)\<in>set (a @ b). e = d + 1)" by auto
    moreover have "fold (\<lambda>(link, n). visit g limit links current d link n) (h # hs) st = ?rest ?st"
      by (cases h) simp
    ultimately show ?case by (auto intro: exI [where x = "a @ b"])
  qed simp
  then show ?thesis by (simp add: expand_hops)
qed

text \<open>The loop over the queue.\<close>

function search :: "graph \<Rightarrow> nat \<Rightarrow> string list \<Rightarrow> bfs \<Rightarrow> bfs" where
  "search g limit links st = (case queue st of
     [] \<Rightarrow> st
   | (current, d) # rest \<Rightarrow>
       (let st = st\<lparr>queue := rest\<rparr> in
        if d \<ge> limit then search g limit links st
        else search g limit links (expand g limit links current d st)))"
  by pat_completeness auto

text \<open>The remaining depths of the queue decrease in the multiset order.\<close>

definition remaining :: "nat \<Rightarrow> bfs \<Rightarrow> nat multiset" where
  "remaining limit st = mset (map (\<lambda>(m, e). limit - e) (queue st))"

lemma remaining_pop:
  assumes "queue st = (current, d) # rest" and "queue st' = rest @ new"
    and "\<forall>(m, e)\<in>set new. limit - e < limit - d"
  shows "(remaining limit st', remaining limit st) \<in> mult less_than"
proof -
  have "(mset (map (\<lambda>(m, e). limit - e) rest) + mset (map (\<lambda>(m, e). limit - e) new),
      mset (map (\<lambda>(m, e). limit - e) rest) + {#limit - d#}) \<in> mult less_than"
    using assms(3) by (intro one_step_implies_mult) auto
  then show ?thesis using assms(1,2) by (simp add: remaining_def)
qed

termination search
proof (relation "inv_image (mult less_than) (\<lambda>(g, limit, links, st). remaining limit st)")
  show "wf (inv_image (mult less_than) (\<lambda>(g :: graph, limit, links :: string list, st). remaining limit st))"
    by (rule wf_inv_image) (simp add: wf_mult)
next
  fix g :: graph and limit d :: nat and links :: "string list" and st st' :: bfs and a rest current
  assume q: "queue st = a # rest" "(current, d) = a" and st: "st' = st\<lparr>queue := rest\<rparr>"
  show "((g, limit, links, st'), g, limit, links, st) \<in>
      inv_image (mult less_than) (\<lambda>(g, limit, links, st). remaining limit st)"
    using remaining_pop [of st current d rest st' "[]" limit] q st by simp
next
  fix g :: graph and limit d :: nat and links :: "string list" and st st' :: bfs and a rest current
  assume q: "queue st = a # rest" "(current, d) = a" and st: "st' = st\<lparr>queue := rest\<rparr>" and lt: "\<not> limit \<le> d"
  obtain new where "queue (expand g limit links current d st') = rest @ new" "\<forall>(m, e)\<in>set new. e = d + 1"
    using expand_queue [of g limit links current d st'] st by auto
  then show "((g, limit, links, expand g limit links current d st'), g, limit, links, st) \<in>
      inv_image (mult less_than) (\<lambda>(g, limit, links, st). remaining limit st)"
    using remaining_pop [of st current d rest "expand g limit links current d st'" new limit] q lt by fastforce
qed

declare search.simps [simp del]

definition node_less_key :: "reached_node \<Rightarrow> nat \<times> string" where
  "node_less_key n = (depth n, resource_id n)"

definition simulate_blast_radius :: "graph \<Rightarrow> blast_request \<Rightarrow> blast_report res" where
  "simulate_blast_radius g r =
     (if bq_depth r < 1 then Inl (ValueError ''traversal_depth MUST be at least 1'')
      else if bq_depth r > max_traversal_depth then Inl TraversalDepthExceededError
      else if bq_links r = [] then Inl (ValueError ''traversal_links MUST NOT be empty'')
      else if list_ex (\<lambda>link. \<not> has_link_type g link) (bq_links r) then Inl UnknownLinkTypeError
      else
        (let st = search g (nat (bq_depth r)) (bq_links r)
               \<lparr>seen = [(bq_target r, \<lparr>resource_id = bq_target r, depth = 0, via_link_type = None\<rparr>)],
                edges = [], truncated = False, queue = [(bq_target r, 0)]\<rparr>
         in Inr \<lparr>br_target = bq_target r, br_depth = bq_depth r, br_links = bq_links r,
                 reached_nodes = sort_key node_less_key (dict_values (seen st)),
                 br_edges = edges st, truncated_at_depth = truncated st\<rparr>))"

section \<open>The executor's ceiling\<close>

record blast_ceiling =
  bc_max_affected :: int
  bc_max_rate :: int

definition blast_radius_refusal :: "action \<Rightarrow> blast_ceiling \<Rightarrow> string option" where
  "blast_radius_refusal a c = (case br_count (act_blast_radius a) of
     None \<Rightarrow> Some (''blast-radius count is undeclared, so the affected-resource ceiling ('' @
       str_int (bc_max_affected c) @ '') cannot be applied'')
   | Some n \<Rightarrow>
       (if n > bc_max_affected c
        then Some (''blast-radius count '' @ str_int n @ '' exceeds executor cap '' @ str_int (bc_max_affected c))
        else (case br_rate_per_minute (act_blast_radius a) of
            Some rate \<Rightarrow> (if rate > bc_max_rate c
              then Some (''blast-radius rate '' @ str_int rate @ ''/min exceeds executor cap '' @
                str_int (bc_max_rate c) @ ''/min'') else None)
          | None \<Rightarrow> None)))"

section \<open>Reachability\<close>

text \<open>One hop over a named link, and what lies a given number of hops away.\<close>

definition hop :: "graph \<Rightarrow> string list \<Rightarrow> string \<Rightarrow> string \<Rightarrow> bool" where
  "hop g links u v = (v \<in> snd ` set (hops g links u))"

definition within_hops :: "graph \<Rightarrow> string list \<Rightarrow> string \<Rightarrow> nat \<Rightarrow> string \<Rightarrow> bool" where
  "within_hops g links t k v = (\<exists>j\<le>k. (hop g links ^^ j) t v)"

definition seen_at :: "bfs \<Rightarrow> string \<Rightarrow> nat \<Rightarrow> bool" where
  "seen_at st v d = (\<exists>n. dict_get (seen st) v = Some n \<and> depth n = d \<and> resource_id n = v)"

lemma seen_at_unique: "seen_at st v d \<Longrightarrow> seen_at st v e \<Longrightarrow> d = e"
  by (auto simp: seen_at_def)

text \<open>
  The invariant of the search. \<open>bfs_core\<close> is kept by every visit while a node of depth \<open>h\<close> is
  expanded: recorded depths are lengths of real paths, queued nodes are recorded, the queue is
  ordered and holds depths \<open>h\<close> and \<open>h + 1\<close> only, no recorded depth passes \<open>h + 1\<close>, and a
  node on the last level with an unrecorded neighbour has raised the flag.
\<close>

definition bfs_core :: "graph \<Rightarrow> nat \<Rightarrow> string list \<Rightarrow> string \<Rightarrow> nat \<Rightarrow> bfs \<Rightarrow> bool" where
  "bfs_core g limit links t h st =
     (seen_at st t 0 \<and>
      (\<forall>v n. dict_get (seen st) v = Some n \<longrightarrow> resource_id n = v \<and> depth n \<le> limit \<and>
         (hop g links ^^ depth n) t v \<and> depth n \<le> h + 1) \<and>
      (\<forall>(v, d)\<in>set (queue st). seen_at st v d \<and> d < limit \<and> h \<le> d \<and> d \<le> h + 1) \<and>
      sorted (map snd (queue st)) \<and>
      (\<forall>v w. seen_at st v limit \<longrightarrow> hop g links v w \<longrightarrow> dict_get (seen st) w = None \<longrightarrow> truncated st))"

definition expanded :: "graph \<Rightarrow> string list \<Rightarrow> bfs \<Rightarrow> string \<Rightarrow> nat \<Rightarrow> bool" where
  "expanded g links st u d = (\<forall>v. hop g links u v \<longrightarrow> (\<exists>e. seen_at st v e \<and> e \<le> d + 1))"

definition bfs_done :: "graph \<Rightarrow> nat \<Rightarrow> string list \<Rightarrow> bfs \<Rightarrow> (string \<times> nat) set \<Rightarrow> bool" where
  "bfs_done g limit links st pending =
     (\<forall>u d. seen_at st u d \<longrightarrow> d < limit \<longrightarrow> (u, d) \<in> pending \<or> expanded g links st u d)"

definition grows :: "bfs \<Rightarrow> bfs \<Rightarrow> bool" where
  "grows st st' = (\<forall>v n. dict_get (seen st) v = Some n \<longrightarrow> dict_get (seen st') v = Some n)"

lemma grows_seen_at: "grows st st' \<Longrightarrow> seen_at st v d \<Longrightarrow> seen_at st' v d"
  by (auto simp: grows_def seen_at_def)

lemma grows_expanded: "grows st st' \<Longrightarrow> expanded g links st u d \<Longrightarrow> expanded g links st' u d"
  unfolding expanded_def by (blast intro: grows_seen_at)

lemma grows_refl [simp]: "grows st st"
  by (simp add: grows_def)

lemma grows_trans: "grows a b \<Longrightarrow> grows b c \<Longrightarrow> grows a c"
  by (simp add: grows_def)

lemma visit_grows: "grows st (visit g limit links u d link n st)"
  by (auto simp: grows_def visit_def Let_def)

lemma visit_seen_at:
  "seen_at (visit g limit links u d link n st) v e \<longleftrightarrow>
     seen_at st v e \<or> (v = n \<and> e = d + 1 \<and> dict_get (seen st) n = None)"
  by (auto simp: seen_at_def visit_def Let_def)

lemma check_truncation_iff:
  "check_truncation g v links sn \<longleftrightarrow> (\<exists>w. hop g links v w \<and> dict_get sn w = None)"
  by (force simp: check_truncation_def list_ex_iff hop_def hops_def)

lemma bfs_core_edges: "bfs_core g limit links t h (st\<lparr>edges := es\<rparr>) = bfs_core g limit links t h st"
  by (cases st) (simp only: bfs_core_def seen_at_def bfs.simps)

lemma visit_core:
  assumes core: "bfs_core g limit links t h st" and u: "seen_at st u h" and lt: "h < limit"
    and e: "hop g links u n"
  shows "bfs_core g limit links t h (visit g limit links u h link n st)"
proof (cases "dict_get (seen st) n")
  case (Some x)
  then have "visit g limit links u h link n st = st\<lparr>edges := edges st @
      [\<lparr>te_source = u, te_target = n, te_link_type = link, te_depth = h + 1\<rparr>]\<rparr>"
    by (simp add: visit_def Let_def)
  with core show ?thesis by (simp only: bfs_core_edges)
next
  case None
  let ?st = "visit g limit links u h link n st"
  have path: "(hop g links ^^ Suc h) t n"
    using core u e by (auto simp: bfs_core_def seen_at_def)
  have get: "dict_get (seen ?st) v = (if v = n then
      Some \<lparr>resource_id = n, depth = h + 1, via_link_type = Some link\<rparr> else dict_get (seen st) v)" for v
    using None by (simp add: visit_def Let_def)
  have q: "queue ?st = queue st @ (if h + 1 < limit then [(n, h + 1)] else [])"
    using None by (simp add: visit_def Let_def)
  have tr: "truncated ?st = (if h + 1 < limit then truncated st
      else check_truncation g n links (seen ?st) \<or> truncated st)"
    using None by (simp add: visit_def Let_def)
  have old: "dict_get (seen st) v = Some x \<Longrightarrow> resource_id x = v \<and> depth x \<le> limit \<and>
      (hop g links ^^ depth x) t v \<and> depth x \<le> h + 1" for v x
    using core by (simp add: bfs_core_def)
  have 1: "\<forall>v x. dict_get (seen ?st) v = Some x \<longrightarrow> resource_id x = v \<and> depth x \<le> limit \<and>
      (hop g links ^^ depth x) t v \<and> depth x \<le> h + 1"
    using old path lt by (auto simp: get simp del: relpowp.simps)
  have 2: "\<forall>(v, d)\<in>set (queue ?st). seen_at ?st v d \<and> d < limit \<and> h \<le> d \<and> d \<le> h + 1"
    using core None by (auto simp: q bfs_core_def visit_seen_at)
  have 3: "sorted (map snd (queue ?st))"
    using core by (fastforce simp: q bfs_core_def sorted_append)
  have 4: "\<forall>v w. seen_at ?st v limit \<longrightarrow> hop g links v w \<longrightarrow> dict_get (seen ?st) w = None \<longrightarrow> truncated ?st"
  proof (intro allI impI)
    fix v w
    assume v: "seen_at ?st v limit" and w: "hop g links v w" "dict_get (seen ?st) w = None"
    from w(2) have "dict_get (seen st) w = None" by (simp add: get split: if_splits)
    with core w(1) have "seen_at st v limit \<Longrightarrow> truncated st" unfolding bfs_core_def by blast
    moreover have "truncated ?st" if "v = n" "limit = h + 1"
    proof -
      have "check_truncation g n links (seen ?st)" using w that by (auto simp: check_truncation_iff)
      with tr that(2) show ?thesis by simp
    qed
    moreover have "truncated st \<Longrightarrow> truncated ?st" using tr by simp
    ultimately show "truncated ?st" using v by (auto simp: visit_seen_at)
  qed
  have "seen_at ?st t 0" using core by (simp add: bfs_core_def visit_seen_at)
  with 1 2 3 4 show ?thesis unfolding bfs_core_def by blast
qed

lemma expand_core:
  assumes "bfs_core g limit links t h st" and "seen_at st u h" and "h < limit"
  shows "bfs_core g limit links t h (expand g limit links u h st) \<and> grows st (expand g limit links u h st) \<and>
    expanded g links (expand g limit links u h st) u h \<and>
    (\<forall>v d. seen_at (expand g limit links u h st) v d \<longrightarrow> seen_at st v d \<or>
       (d = h + 1 \<and> (h + 1 < limit \<longrightarrow> (v, d) \<in> set (queue (expand g limit links u h st)))))"
proof -
  have "set hs \<subseteq> set (hops g links u) \<Longrightarrow> bfs_core g limit links t h st \<Longrightarrow> seen_at st u h \<Longrightarrow>
      (let st' = fold (\<lambda>(link, n). visit g limit links u h link n) hs st in
       bfs_core g limit links t h st' \<and> grows st st' \<and> set (queue st) \<subseteq> set (queue st') \<and>
       (\<forall>(link, n)\<in>set hs. \<exists>e. seen_at st' n e) \<and>
       (\<forall>v d. seen_at st' v d \<longrightarrow> seen_at st v d \<or>
          (d = h + 1 \<and> (h + 1 < limit \<longrightarrow> (v, d) \<in> set (queue st')))))" for hs
  proof (induction hs arbitrary: st)
    case Nil
    then show ?case by simp
  next
    case (Cons x hs)
    obtain link n where x: "x = (link, n)" by (cases x)
    let ?st1 = "visit g limit links u h link n st"
    let ?st2 = "fold (\<lambda>(link, n). visit g limit links u h link n) hs ?st1"
    have e: "hop g links u n" using Cons.prems(1) x by (force simp: hop_def)
    have c1: "bfs_core g limit links t h ?st1"
      by (rule visit_core [OF Cons.prems(2,3) assms(3) e])
    have s1: "seen_at ?st1 u h" by (rule grows_seen_at [OF visit_grows Cons.prems(3)])
    have q1: "set (queue st) \<subseteq> set (queue ?st1)" by (auto simp: visit_def Let_def)
    have n1: "\<exists>e. seen_at ?st1 n e"
    proof (cases "dict_get (seen st) n")
      case None
      then show ?thesis by (simp only: visit_seen_at) blast
    next
      case (Some y)
      with Cons.prems(2) have "resource_id y = n" unfolding bfs_core_def by blast
      with Some have "seen_at st n (depth y)" by (simp add: seen_at_def)
      then show ?thesis by (simp only: visit_seen_at) blast
    qed
    have f1: "seen_at ?st1 v d \<Longrightarrow> seen_at st v d \<or>
        (d = h + 1 \<and> (h + 1 < limit \<longrightarrow> (v, d) \<in> set (queue ?st1)))" for v d
      by (auto simp: visit_seen_at) (simp add: visit_def Let_def)
    from Cons.IH [OF _ c1 s1] Cons.prems(1) have IH:
      "bfs_core g limit links t h ?st2" "grows ?st1 ?st2" "set (queue ?st1) \<subseteq> set (queue ?st2)"
      "\<forall>(link, n)\<in>set hs. \<exists>e. seen_at ?st2 n e"
      "\<And>v d. seen_at ?st2 v d \<Longrightarrow> seen_at ?st1 v d \<or>
          (d = h + 1 \<and> (h + 1 < limit \<longrightarrow> (v, d) \<in> set (queue ?st2)))"
      by (auto simp: Let_def)
    have g: "grows st ?st2" using visit_grows IH(2) by (rule grows_trans)
    have n2: "\<exists>e. seen_at ?st2 n e" using n1 IH(2) by (blast intro: grows_seen_at)
    have f: "seen_at ?st2 v d \<Longrightarrow> seen_at st v d \<or>
        (d = h + 1 \<and> (h + 1 < limit \<longrightarrow> (v, d) \<in> set (queue ?st2)))" for v d
      using IH(3,5) f1 by blast
    have fd: "fold (\<lambda>(link, n). visit g limit links u h link n) (x # hs) st = ?st2" by (simp add: x)
    have all: "\<forall>(link, n)\<in>set (x # hs). \<exists>e. seen_at ?st2 n e" using n2 IH(4) by (simp add: x)
    show ?case unfolding fd Let_def using IH(1,3) g q1 all f by blast
  qed
  from this [of "hops g links u", OF subset_refl assms(1,2)]
  have *: "bfs_core g limit links t h (expand g limit links u h st)" "grows st (expand g limit links u h st)"
    "\<forall>(link, n)\<in>set (hops g links u). \<exists>e. seen_at (expand g limit links u h st) n e"
    "\<forall>v d. seen_at (expand g limit links u h st) v d \<longrightarrow> seen_at st v d \<or>
       (d = h + 1 \<and> (h + 1 < limit \<longrightarrow> (v, d) \<in> set (queue (expand g limit links u h st))))"
    unfolding expand_hops Let_def by blast+
  have "expanded g links (expand g limit links u h st) u h"
    unfolding expanded_def
  proof (intro allI impI)
    fix v
    assume "hop g links u v"
    then obtain e where e: "seen_at (expand g limit links u h st) v e"
      using *(3) by (force simp: hop_def)
    with *(1) have "e \<le> h + 1" by (auto simp: bfs_core_def seen_at_def)
    with e show "\<exists>e. seen_at (expand g limit links u h st) v e \<and> e \<le> h + 1" by blast
  qed
  with * show ?thesis by blast
qed

lemma core_pop:
  assumes "bfs_core g limit links t h st" and "queue st = (u, d) # rest"
  shows "bfs_core g limit links t d (st\<lparr>queue := rest\<rparr>) \<and> seen_at st u d \<and> d < limit"
proof -
  have head: "seen_at st u d" "d < limit" "h \<le> d" "d \<le> h + 1"
    using assms by (auto simp: bfs_core_def)
  have rest: "seen_at st v e \<and> e < limit \<and> d \<le> e \<and> e \<le> d + 1" if "(v, e) \<in> set rest" for v e
    using assms that head(3) by (fastforce simp: bfs_core_def)
  have eq: "seen (st\<lparr>queue := rest\<rparr>) = seen st" "truncated (st\<lparr>queue := rest\<rparr>) = truncated st"
    "queue (st\<lparr>queue := rest\<rparr>) = rest" "\<And>v e. seen_at (st\<lparr>queue := rest\<rparr>) v e = seen_at st v e"
    by (simp_all add: seen_at_def)
  have "resource_id n = v \<and> depth n \<le> limit \<and> (hop g links ^^ depth n) t v \<and> depth n \<le> d + 1"
    if "dict_get (seen st) v = Some n" for v n
  proof -
    have "resource_id n = v \<and> depth n \<le> limit \<and> (hop g links ^^ depth n) t v \<and> depth n \<le> h + 1"
      using assms(1) that unfolding bfs_core_def by blast
    with head(3) show ?thesis by linarith
  qed
  moreover have "seen_at st t 0" "sorted (map snd rest)"
    "\<forall>v w. seen_at st v limit \<longrightarrow> hop g links v w \<longrightarrow> dict_get (seen st) w = None \<longrightarrow> truncated st"
    using assms unfolding bfs_core_def by simp_all
  ultimately show ?thesis
    using rest head unfolding bfs_core_def eq by blast
qed

definition bfs_inv :: "graph \<Rightarrow> nat \<Rightarrow> string list \<Rightarrow> string \<Rightarrow> bfs \<Rightarrow> bool" where
  "bfs_inv g limit links t st =
     ((\<exists>h. bfs_core g limit links t h st) \<and> bfs_done g limit links st (set (queue st)))"

lemma bfs_inv_step:
  assumes "bfs_inv g limit links t st" and "queue st = (u, d) # rest"
  shows "d < limit \<and> bfs_inv g limit links t (expand g limit links u d (st\<lparr>queue := rest\<rparr>))"
proof -
  let ?st0 = "st\<lparr>queue := rest\<rparr>"
  let ?st1 = "expand g limit links u d ?st0"
  obtain h where h: "bfs_core g limit links t h st" using assms(1) by (auto simp: bfs_inv_def)
  note pop = core_pop [OF h assms(2)]
  have u: "seen_at ?st0 u d" using pop by (simp add: seen_at_def)
  have core: "bfs_core g limit links t d ?st1" and gr: "grows ?st0 ?st1"
    and ex: "expanded g links ?st1 u d"
    and new: "\<And>v e. seen_at ?st1 v e \<Longrightarrow> seen_at ?st0 v e \<or>
       (e = d + 1 \<and> (d + 1 < limit \<longrightarrow> (v, e) \<in> set (queue ?st1)))"
    using expand_core [of g limit links t d ?st0 u] pop u by blast+
  have grow: "grows st ?st1" using gr by (simp add: grows_def)
  have sub: "set rest \<subseteq> set (queue ?st1)"
    using expand_queue [of g limit links u d ?st0] by auto
  have "(v, e) \<in> set (queue ?st1) \<or> expanded g links ?st1 v e" if "seen_at ?st1 v e" "e < limit" for v e
    using new [OF that(1)]
  proof
    assume "seen_at ?st0 v e"
    then have "seen_at st v e" by (simp add: seen_at_def)
    with assms that(2) have "(v, e) = (u, d) \<or> (v, e) \<in> set rest \<or> expanded g links st v e"
      by (auto simp: bfs_inv_def bfs_done_def)
    with ex sub grow show ?thesis by (auto intro: grows_expanded)
  qed (use that(2) in blast)
  with core pop show ?thesis by (auto simp: bfs_inv_def bfs_done_def)
qed

lemma search_inv:
  "bfs_inv g limit links t st \<Longrightarrow>
     bfs_inv g limit links t (search g limit links st) \<and> queue (search g limit links st) = []"
proof (induction g limit links st rule: search.induct)
  case (1 g limit links st)
  show ?case
  proof (cases "queue st")
    case Nil
    then have "search g limit links st = st" by (subst search.simps) simp
    with Nil "1.prems" show ?thesis by simp
  next
    case (Cons x rest)
    obtain u d where x: "x = (u, d)" by (cases x)
    note q = Cons [unfolded x]
    from bfs_inv_step [OF "1.prems" q] have lt: "\<not> limit \<le> d"
      and inv: "bfs_inv g limit links t (expand g limit links u d (st\<lparr>queue := rest\<rparr>))" by simp_all
    have "search g limit links st = search g limit links (expand g limit links u d (st\<lparr>queue := rest\<rparr>))"
      using lt by (subst search.simps) (simp add: q)
    with "1.IH"(2) [OF q refl refl lt inv] show ?thesis by simp
  qed
qed

lemma visit_keys: "distinct (dict_keys (seen st)) \<Longrightarrow> distinct (dict_keys (seen (visit g limit links u d link n st)))"
  by (simp add: visit_def Let_def distinct_update)

lemma expand_keys: "distinct (dict_keys (seen st)) \<Longrightarrow> distinct (dict_keys (seen (expand g limit links u d st)))"
proof -
  have "distinct (dict_keys (seen st)) \<Longrightarrow>
      distinct (dict_keys (seen (fold (\<lambda>(link, n). visit g limit links u d link n) hs st)))" for hs st
    by (induction hs arbitrary: st) (auto intro: visit_keys)
  then show "distinct (dict_keys (seen st)) \<Longrightarrow> ?thesis" by (simp add: expand_hops)
qed

lemma search_keys: "distinct (dict_keys (seen st)) \<Longrightarrow> distinct (dict_keys (seen (search g limit links st)))"
proof (induction g limit links st rule: search.induct)
  case (1 g limit links st)
  show ?case
  proof (cases "queue st")
    case Nil
    then show ?thesis using "1.prems" by (subst search.simps) simp
  next
    case (Cons x rest)
    obtain u d where x: "x = (u, d)" by (cases x)
    note q = Cons [unfolded x]
    show ?thesis
    proof (cases "limit \<le> d")
      case True
      with "1.IH"(1) [OF q refl refl True] "1.prems" show ?thesis
        by (subst search.simps) (simp add: q)
    next
      case False
      with "1.IH"(2) [OF q refl refl False] "1.prems" expand_keys [of "st\<lparr>queue := rest\<rparr>"] show ?thesis
        by (subst search.simps) (simp add: q)
    qed
  qed
qed

definition bfs_start :: "string \<Rightarrow> bfs" where
  "bfs_start t = \<lparr>seen = [(t, \<lparr>resource_id = t, depth = 0, via_link_type = None\<rparr>)],
     edges = [], truncated = False, queue = [(t, 0)]\<rparr>"

lemma bfs_start_inv:
  assumes "0 < limit"
  shows "bfs_inv g limit links t (bfs_start t)"
proof -
  have s: "seen_at (bfs_start t) v d \<longleftrightarrow> v = t \<and> d = 0" for v d
    by (auto simp: seen_at_def bfs_start_def)
  have "bfs_core g limit links t 0 (bfs_start t)"
    unfolding bfs_core_def s using assms by (auto simp: bfs_start_def)
  moreover have "bfs_done g limit links (bfs_start t) (set (queue (bfs_start t)))"
    unfolding bfs_done_def s by (auto simp: bfs_start_def)
  ultimately show ?thesis by (auto simp: bfs_inv_def)
qed

text \<open>The depth that the search records is the distance.\<close>

lemma search_distance:
  fixes g :: graph and links :: "string list" and t :: string
  assumes "0 < limit"
  defines "fin \<equiv> search g limit links (bfs_start t)"
  shows "seen_at fin v d \<longleftrightarrow> d \<le> limit \<and> (hop g links ^^ d) t v \<and> (\<forall>j<d. \<not> (hop g links ^^ j) t v)"
proof -
  have inv: "bfs_inv g limit links t fin" "queue fin = []"
    using search_inv [OF bfs_start_inv [OF assms(1)]] unfolding fin_def by blast+
  then obtain h where core: "bfs_core g limit links t h fin" by (auto simp: bfs_inv_def)
  have sound: "seen_at fin w e \<Longrightarrow> e \<le> limit \<and> (hop g links ^^ e) t w" for w e
    using core unfolding bfs_core_def seen_at_def by blast
  have finished: "e < limit \<Longrightarrow> seen_at fin w e \<Longrightarrow> expanded g links fin w e" for w e
    using inv by (auto simp: bfs_inv_def bfs_done_def)
  have complete: "k \<le> limit \<Longrightarrow> (hop g links ^^ k) t w \<Longrightarrow> \<exists>e\<le>k. seen_at fin w e" for k w
  proof (induction k arbitrary: w)
    case 0
    with core show ?case by (auto simp: bfs_core_def)
  next
    case (Suc k)
    then obtain x where x: "(hop g links ^^ k) t x" "hop g links x w" by auto
    with Suc obtain e where e: "e \<le> k" "seen_at fin x e" by fastforce
    with Suc.prems(1) have "expanded g links fin x e" by (intro finished) auto
    with x(2) obtain e' where "seen_at fin w e'" "e' \<le> e + 1" by (auto simp: expanded_def)
    with e(1) show ?case by (intro exI [of _ e']) auto
  qed
  show ?thesis
  proof
    assume s: "seen_at fin v d"
    have "\<not> (hop g links ^^ j) t v" if "j < d" for j
    proof
      assume "(hop g links ^^ j) t v"
      with complete [of j v] that sound [OF s] obtain e where "e \<le> j" "seen_at fin v e" by auto
      with seen_at_unique [OF s] that show False by auto
    qed
    with sound [OF s] show "d \<le> limit \<and> (hop g links ^^ d) t v \<and> (\<forall>j<d. \<not> (hop g links ^^ j) t v)" by blast
  next
    assume d: "d \<le> limit \<and> (hop g links ^^ d) t v \<and> (\<forall>j<d. \<not> (hop g links ^^ j) t v)"
    with complete [of d v] obtain e where e: "e \<le> d" "seen_at fin v e" by blast
    with sound have "(hop g links ^^ e) t v" by blast
    with d e have "e = d" by (metis le_neq_implies_less)
    with e show "seen_at fin v d" by simp
  qed
qed

section \<open>What a report says\<close>

definition valid_request :: "graph \<Rightarrow> blast_request \<Rightarrow> bool" where
  "valid_request g r = (1 \<le> bq_depth r \<and> bq_depth r \<le> 5 \<and> bq_links r \<noteq> [] \<and>
     list_all (has_link_type g) (bq_links r))"

lemma simulate_Inr:
  "simulate_blast_radius g r = Inr rep \<longleftrightarrow> valid_request g r \<and>
     (let st = search g (nat (bq_depth r)) (bq_links r) (bfs_start (bq_target r)) in
      rep = \<lparr>br_target = bq_target r, br_depth = bq_depth r, br_links = bq_links r,
        reached_nodes = sort_key node_less_key (dict_values (seen st)), br_edges = edges st,
        truncated_at_depth = truncated st\<rparr>)"
proof -
  have "list_ex (\<lambda>link. \<not> has_link_type g link) ls \<longleftrightarrow> \<not> list_all (has_link_type g) ls" for ls
    by (auto simp: list_ex_iff list_all_iff)
  then show ?thesis
    by (auto simp: simulate_blast_radius_def valid_request_def max_traversal_depth_def Let_def bfs_start_def)
qed

lemma dict_values_get:
  "distinct (dict_keys d) \<Longrightarrow> n \<in> set (dict_values d) \<longleftrightarrow> (\<exists>v. dict_get d v = Some n)"
  by force

lemma search_core:
  "0 < limit \<Longrightarrow> \<exists>h. bfs_core g limit links t h (search g limit links (bfs_start t))"
  using search_inv [OF bfs_start_inv] unfolding bfs_inv_def by blast

lemma search_values:
  assumes "0 < limit"
  shows "(\<exists>n\<in>set (dict_values (seen (search g limit links (bfs_start t)))). resource_id n = v \<and> depth n = d)
    \<longleftrightarrow> seen_at (search g limit links (bfs_start t)) v d"
proof -
  let ?fin = "search g limit links (bfs_start t)"
  have dist: "distinct (dict_keys (seen ?fin))" by (rule search_keys) (simp add: bfs_start_def)
  obtain h where "bfs_core g limit links t h ?fin"
    using search_core [OF assms] by blast
  then have id: "resource_id n = v" if "dict_get (seen ?fin) v = Some n" for v n
    using that unfolding bfs_core_def by blast
  show ?thesis unfolding seen_at_def using dict_values_get [OF dist] id by (metis (no_types, lifting))
qed

lemma within_least: "within_hops g links t k v \<longleftrightarrow>
    (\<exists>d\<le>k. (hop g links ^^ d) t v \<and> (\<forall>j<d. \<not> (hop g links ^^ j) t v))"
proof
  assume "within_hops g links t k v"
  then obtain j where j: "j \<le> k" "(hop g links ^^ j) t v" by (auto simp: within_hops_def)
  let ?d = "LEAST j. (hop g links ^^ j) t v"
  have "(hop g links ^^ ?d) t v" using j(2) by (rule LeastI)
  moreover have "?d \<le> j" using j(2) by (rule Least_le)
  moreover have "\<forall>j<?d. \<not> (hop g links ^^ j) t v" using not_less_Least by blast
  ultimately show "\<exists>d\<le>k. (hop g links ^^ d) t v \<and> (\<forall>j<d. \<not> (hop g links ^^ j) t v)"
    using j(1) by (intro exI [of _ ?d]) simp
qed (auto simp: within_hops_def)

lemma simulate_reach:
  assumes "simulate_blast_radius g r = Inr rep"
  shows "(\<exists>n\<in>set (reached_nodes rep). resource_id n = v \<and> depth n = d) \<longleftrightarrow>
      d \<le> nat (bq_depth r) \<and> (hop g (bq_links r) ^^ d) (bq_target r) v \<and>
      (\<forall>j<d. \<not> (hop g (bq_links r) ^^ j) (bq_target r) v)"
proof -
  have rep: "reached_nodes rep = sort_key node_less_key
      (dict_values (seen (search g (nat (bq_depth r)) (bq_links r) (bfs_start (bq_target r)))))"
    and pos: "0 < nat (bq_depth r)"
    using assms by (auto simp: simulate_Inr Let_def valid_request_def)
  show ?thesis unfolding rep set_sort search_values [OF pos] search_distance [OF pos] ..
qed

text \<open>
  C37: A report lists exactly the resources within the requested number of hops, each once
  with its distance, ordered by distance and name; the affected count is the number of
  resources other than the target.
\<close>

theorem simulate_reaches:
  assumes "simulate_blast_radius g r = Inr rep"
  shows "((\<exists>n\<in>set (reached_nodes rep). resource_id n = v \<and> depth n = d) \<longleftrightarrow>
      d \<le> nat (bq_depth r) \<and> (hop g (bq_links r) ^^ d) (bq_target r) v \<and>
      (\<forall>j<d. \<not> (hop g (bq_links r) ^^ j) (bq_target r) v)) \<and>
    distinct (map resource_id (reached_nodes rep)) \<and>
    sorted (map node_less_key (reached_nodes rep)) \<and>
    affected_count rep =
      card {v. v \<noteq> bq_target r \<and> within_hops g (bq_links r) (bq_target r) (nat (bq_depth r)) v}"
proof -
  let ?fin = "search g (nat (bq_depth r)) (bq_links r) (bfs_start (bq_target r))"
  have rep: "reached_nodes rep = sort_key node_less_key (dict_values (seen ?fin))"
    "br_target rep = bq_target r"
    and pos: "0 < nat (bq_depth r)"
    using assms by (auto simp: simulate_Inr Let_def valid_request_def)
  note reach = simulate_reach [OF assms]
  have dist: "distinct (dict_keys (seen ?fin))" by (rule search_keys) (simp add: bfs_start_def)
  obtain h where "bfs_core g (nat (bq_depth r)) (bq_links r) (bq_target r) h ?fin"
    using search_core [OF pos] by blast
  then have id: "resource_id n = v" if "dict_get (seen ?fin) v = Some n" for v n
    using that unfolding bfs_core_def by blast
  have ids: "map resource_id (dict_values (seen ?fin)) = dict_keys (seen ?fin)"
    using id dist by auto
  have "mset (map resource_id (reached_nodes rep)) = mset (dict_keys (seen ?fin))"
    unfolding rep ids [symmetric] by (simp add: multiset.map_comp)
  then have dids: "distinct (map resource_id (reached_nodes rep))"
    using dist by (metis mset_eq_imp_distinct_iff)
  have "affected_count rep = length (filter (\<lambda>v. v \<noteq> bq_target r) (map resource_id (reached_nodes rep)))"
    by (simp add: affected_count_def rep(2) filter_map comp_def)
  also have "\<dots> = card (set (filter (\<lambda>v. v \<noteq> bq_target r) (map resource_id (reached_nodes rep))))"
    using dids by (simp only: distinct_card [OF distinct_filter])
  also have "set (filter (\<lambda>v. v \<noteq> bq_target r) (map resource_id (reached_nodes rep))) =
      {v. v \<noteq> bq_target r \<and> within_hops g (bq_links r) (bq_target r) (nat (bq_depth r)) v}"
  proof -
    have "v \<in> resource_id ` set (reached_nodes rep) \<longleftrightarrow>
        within_hops g (bq_links r) (bq_target r) (nat (bq_depth r)) v" for v
    proof -
      have "v \<in> resource_id ` set (reached_nodes rep) \<longleftrightarrow>
          (\<exists>d. \<exists>n\<in>set (reached_nodes rep). resource_id n = v \<and> depth n = d)" by blast
      then show ?thesis unfolding within_least reach .
    qed
    then show ?thesis by auto
  qed
  finally show ?thesis using reach dids by (simp add: rep)
qed


text \<open>
  No frontier is hidden: if some resource on the last level has a neighbour that lies beyond
  the requested depth, the report is flagged as truncated.
\<close>

theorem simulate_truncation_complete:
  assumes "simulate_blast_radius g r = Inr rep"
    and "n \<in> set (reached_nodes rep)" and "depth n = nat (bq_depth r)"
    and "hop g (bq_links r) (resource_id n) w"
    and "\<not> within_hops g (bq_links r) (bq_target r) (nat (bq_depth r)) w"
  shows "truncated_at_depth rep"
proof -
  let ?fin = "search g (nat (bq_depth r)) (bq_links r) (bfs_start (bq_target r))"
  have rep: "reached_nodes rep = sort_key node_less_key (dict_values (seen ?fin))"
    "truncated_at_depth rep = truncated ?fin"
    and pos: "0 < nat (bq_depth r)"
    using assms(1) by (auto simp: simulate_Inr Let_def valid_request_def)
  obtain h where core: "bfs_core g (nat (bq_depth r)) (bq_links r) (bq_target r) h ?fin"
    using search_core [OF pos] by blast
  have s: "seen_at ?fin (resource_id n) (nat (bq_depth r))"
    using assms(2,3) search_values [OF pos, of g "bq_links r" "bq_target r"] by (auto simp: rep)
  have "dict_get (seen ?fin) w = None"
  proof (rule ccontr)
    assume "dict_get (seen ?fin) w \<noteq> None"
    then obtain x where "dict_get (seen ?fin) w = Some x" by auto
    with core have "depth x \<le> nat (bq_depth r)" "(hop g (bq_links r) ^^ depth x) (bq_target r) w"
      unfolding bfs_core_def by blast+
    with assms(5) show False by (auto simp: within_hops_def)
  qed
  with core s assms(4) show ?thesis unfolding rep(2) bfs_core_def by blast
qed

section \<open>A concrete graph\<close>

definition diamond :: graph where
  "diamond = memory_graph [((''T'', ''dep''), [''A'', ''B'']), ((''A'', ''dep''), [''B''])] [''dep'']"

definition diamond_request :: blast_request where
  "diamond_request = \<lparr>bq_target = ''T'', bq_depth = 1, bq_links = [''dep'']\<rparr>"

definition diamond_report :: blast_report where
  "diamond_report = \<lparr>br_target = ''T'', br_depth = 1, br_links = [''dep''],
     reached_nodes = [\<lparr>resource_id = ''T'', depth = 0, via_link_type = None\<rparr>,
       \<lparr>resource_id = ''A'', depth = 1, via_link_type = Some ''dep''\<rparr>,
       \<lparr>resource_id = ''B'', depth = 1, via_link_type = Some ''dep''\<rparr>],
     br_edges = [\<lparr>te_source = ''T'', te_target = ''A'', te_link_type = ''dep'', te_depth = 1\<rparr>,
       \<lparr>te_source = ''T'', te_target = ''B'', te_link_type = ''dep'', te_depth = 1\<rparr>],
     truncated_at_depth = True\<rparr>"

lemma diamond_simulates: "simulate_blast_radius diamond diamond_request = Inr diamond_report"
  by code_simp

theorem simulate_reaches_witness:
  "sorted (map node_less_key (reached_nodes diamond_report)) \<and>
   affected_count diamond_report =
     card {v. v \<noteq> ''T'' \<and> within_hops diamond [''dep''] ''T'' 1 v}"
  using simulate_reaches [OF diamond_simulates] by (simp add: diamond_request_def)

text \<open>A chain: the far end is beyond the requested depth.\<close>

definition chain :: graph where
  "chain = memory_graph [((''T'', ''dep''), [''A'']), ((''A'', ''dep''), [''B''])] [''dep'']"

theorem simulate_truncation_complete_witness:
  "\<exists>rep. simulate_blast_radius chain diamond_request = Inr rep \<and> truncated_at_depth rep"
proof -
  have v: "valid_request chain diamond_request" by code_simp
  obtain rep where rep: "simulate_blast_radius chain diamond_request = Inr rep"
    using v by (auto simp: simulate_Inr Let_def)
  have hops: "hop chain [''dep''] u w \<longleftrightarrow> (u = ''T'' \<and> w = ''A'') \<or> (u = ''A'' \<and> w = ''B'')" for u w
    by (auto simp: hop_def hops_def chain_def memory_graph_def)
  have one: "(hop chain [''dep''] ^^ 1) ''T'' ''A''" "\<forall>j<(1::nat). \<not> (hop chain [''dep''] ^^ j) ''T'' ''A''"
    by (auto simp: hops OO_def)
  have "\<exists>n\<in>set (reached_nodes rep). resource_id n = ''A'' \<and> depth n = 1"
    using simulate_reach [OF rep, of "''A''" 1] one by (simp add: diamond_request_def)
  then obtain n where n: "n \<in> set (reached_nodes rep)" "resource_id n = ''A''" "depth n = 1" by blast
  have "\<not> within_hops chain [''dep''] ''T'' 1 ''B''"
  proof -
    have "\<not> (hop chain [''dep''] ^^ j) ''T'' ''B''" if "j \<le> 1" for j
      using that by (cases j) (auto simp: hops OO_def)
    then show ?thesis by (auto simp: within_hops_def)
  qed
  then show ?thesis
    using simulate_truncation_complete [OF rep n(1), of "''B''"] n rep
    by (auto simp: diamond_request_def hops)
qed

text \<open>
  The flag also raises false alarms: here no reached resource has a neighbour outside the
  report, and yet the report is flagged, because the check runs while the level is only partly
  recorded.
\<close>

theorem truncation_false_alarm:
  "\<exists>rep. simulate_blast_radius diamond diamond_request = Inr rep \<and> truncated_at_depth rep \<and>
     (\<forall>n\<in>set (reached_nodes rep). \<forall>w. hop diamond [''dep''] (resource_id n) w \<longrightarrow>
        w \<in> resource_id ` set (reached_nodes rep))"
  by (rule exI [of _ diamond_report], rule conjI [OF diamond_simulates])
    (auto simp: diamond_report_def hop_def hops_def diamond_def memory_graph_def)

theorem truncation_false_alarm_witness:
  "\<not> (\<exists>n\<in>set (reached_nodes diamond_report). \<exists>w. hop diamond [''dep''] (resource_id n) w \<and>
        w \<notin> resource_id ` set (reached_nodes diamond_report))"
  using truncation_false_alarm diamond_simulates by auto

section \<open>The executor's ceiling refuses what it cannot measure\<close>

lemma refusal_None:
  "blast_radius_refusal a c = None \<longleftrightarrow>
     (\<exists>n. br_count (act_blast_radius a) = Some n \<and> n \<le> bc_max_affected c) \<and>
     (\<forall>rate. br_rate_per_minute (act_blast_radius a) = Some rate \<longrightarrow> rate \<le> bc_max_rate c)"
  by (auto simp: blast_radius_refusal_def split: option.splits)

end
