(* ===== verification/Precedence.thy ===== *)
theory Precedence
  imports Prelude "HOL-Library.Multiset"
begin

text \<open>
  \<open>core/risk_gate/precedence.py\<close>: the resolver that picks one winner among the actions that
  target the same resource.
\<close>

datatype vertical = RESILIENCE_SAFETY_HOLD | RESILIENCE | CHANGE_SAFETY | COST

fun vertical_value :: "vertical \<Rightarrow> string" where
  "vertical_value RESILIENCE_SAFETY_HOLD = ''resilience_safety_hold''"
| "vertical_value RESILIENCE = ''resilience''"
| "vertical_value CHANGE_SAFETY = ''change_safety''"
| "vertical_value COST = ''cost''"

datatype precedence_outcome = WIN | DEFER | ESCALATE_HIL

record candidate =
  cand_action_id :: string
  cand_resource :: string
  cand_vertical :: vertical
  deferrable :: bool

record precedence_decision =
  pd_action_id :: string
  pd_vertical :: vertical
  pd_outcome :: precedence_outcome
  pd_reasons :: "string list"

fun precedence_rank :: "vertical \<Rightarrow> int" where
  "precedence_rank COST = 0"
| "precedence_rank CHANGE_SAFETY = 1"
| "precedence_rank RESILIENCE = 2"
| "precedence_rank RESILIENCE_SAFETY_HOLD = 3"

text \<open>\<open>by_resource.setdefault(cand.resource_id, []).append(cand)\<close>\<close>

definition add_candidate ::
  "candidate \<Rightarrow> (string, candidate list) dict \<Rightarrow> (string, candidate list) dict" where
  "add_candidate c d = dict_set d (cand_resource c)
     ((case dict_get d (cand_resource c) of None \<Rightarrow> [] | Some g \<Rightarrow> g) @ [c])"

definition by_resource :: "candidate list \<Rightarrow> (string, candidate list) dict" where
  "by_resource cs = fold add_candidate cs []"

definition precedence_key :: "candidate \<Rightarrow> int \<times> string" where
  "precedence_key c = (- precedence_rank (cand_vertical c), cand_action_id c)"

definition win :: "candidate \<Rightarrow> precedence_decision" where
  "win c = \<lparr>pd_action_id = cand_action_id c, pd_vertical = cand_vertical c, pd_outcome = WIN,
     pd_reasons = []\<rparr>"

definition lose :: "string \<Rightarrow> candidate \<Rightarrow> candidate \<Rightarrow> precedence_decision" where
  "lose resource winner c =
     (let reason = ''lost_to:'' @ vertical_value (cand_vertical winner) @ '':resource='' @ resource @
            '':winner_action_id='' @ cand_action_id winner
      in if deferrable c
         then \<lparr>pd_action_id = cand_action_id c, pd_vertical = cand_vertical c, pd_outcome = DEFER,
                pd_reasons = [reason]\<rparr>
         else \<lparr>pd_action_id = cand_action_id c, pd_vertical = cand_vertical c,
                pd_outcome = ESCALATE_HIL, pd_reasons = [reason, ''not_safely_deferrable'']\<rparr>)"

definition resolve_group :: "string \<Rightarrow> candidate list \<Rightarrow> precedence_decision list" where
  "resolve_group resource members = (case members of
     [sole] \<Rightarrow> [win sole]
   | _ \<Rightarrow> (case sort_key precedence_key members of
       [] \<Rightarrow> []
     | winner # losers \<Rightarrow> win winner # map (lose resource winner) losers))"

definition resolve :: "candidate list \<Rightarrow> precedence_decision list" where
  "resolve cs = concat (map (\<lambda>(r, g). resolve_group r g) (by_resource cs))"

section \<open>Groups\<close>

definition group_of :: "candidate list \<Rightarrow> string \<Rightarrow> candidate list" where
  "group_of cs r = filter (\<lambda>c. cand_resource c = r) cs"

lemma by_resource_inv:
  "distinct (dict_keys (by_resource cs)) \<and> set (dict_keys (by_resource cs)) = cand_resource ` set cs \<and>
   (\<forall>r g. dict_get (by_resource cs) r = Some g \<longrightarrow> g = group_of cs r)"
proof (induction cs rule: rev_induct)
  case Nil
  then show ?case by (simp add: by_resource_def)
next
  case (snoc c cs)
  let ?d = "by_resource cs"
  have d: "by_resource (cs @ [c]) = add_candidate c ?d" by (simp add: by_resource_def)
  have old: "(case dict_get ?d (cand_resource c) of None \<Rightarrow> [] | Some g \<Rightarrow> g) = group_of cs (cand_resource c)"
  proof (cases "dict_get ?d (cand_resource c)")
    case None
    then have "cand_resource c \<notin> cand_resource ` set cs" using snoc by (metis map_of_eq_None_iff set_map)
    then have "group_of cs (cand_resource c) = []" by (simp add: group_of_def filter_empty_conv) (metis imageI)
    with None show ?thesis by simp
  next
    case (Some g)
    with snoc show ?thesis by simp
  qed
  have get: "dict_get (by_resource (cs @ [c])) r = Some g \<Longrightarrow> g = group_of (cs @ [c]) r" for r g
    unfolding d add_candidate_def old using snoc by (auto simp: group_of_def split: if_splits)
  show ?case
    using snoc get by (auto simp: d add_candidate_def dom_update distinct_update simp del: map_of_eq_Some_iff)
qed

lemma resolve_sum:
  "mset (resolve cs) = (\<Sum>r\<in>cand_resource ` set cs. mset (resolve_group r (group_of cs r)))"
proof -
  let ?d = "by_resource cs"
  note inv = by_resource_inv [of cs]
  have "map (\<lambda>(r, g). resolve_group r g) ?d = map (\<lambda>r. resolve_group r (group_of cs r)) (dict_keys ?d)"
  proof -
    have "g = group_of cs r" if "(r, g) \<in> set ?d" for r g
      using inv that by (metis map_of_is_SomeI)
    then show ?thesis by (auto simp: comp_def)
  qed
  then have "mset (resolve cs) = sum_list (map (\<lambda>r. mset (resolve_group r (group_of cs r))) (dict_keys ?d))"
    unfolding resolve_def mset_concat by (simp only: map_map comp_def)
  also have "\<dots> = (\<Sum>r\<in>set (dict_keys ?d). mset (resolve_group r (group_of cs r)))"
    using inv by (intro sum_list_distinct_conv_sum_set) blast
  finally show ?thesis using inv by simp
qed

lemma group_ne: "r \<in> cand_resource ` set cs \<Longrightarrow> group_of cs r \<noteq> []"
  by (auto simp: group_of_def filter_empty_conv)

text \<open>The special case for a single candidate is the general case.\<close>

lemma resolve_group_sorted:
  "resolve_group r g = (case sort_key precedence_key g of [] \<Rightarrow> []
     | winner # losers \<Rightarrow> win winner # map (lose r winner) losers)"
  by (auto simp: resolve_group_def split: list.splits)

lemma resolve_group_first:
  assumes "g \<noteq> []"
  obtains w ls where "sort_key precedence_key g = w # ls" "w \<in> set g"
    "resolve_group r g = win w # map (lose r w) ls" "mset g = add_mset w (mset ls)"
    "\<forall>c\<in>set g. precedence_key w \<le> precedence_key c"
proof -
  obtain w ls where s: "sort_key precedence_key g = w # ls"
    using assms by (metis length_0_conv length_sort list.exhaust)
  have m: "mset g = add_mset w (mset ls)" by (metis mset.simps(2) mset_sort s)
  have "\<forall>c\<in>set g. precedence_key w \<le> precedence_key c"
    using sort_key_hd_le [OF assms, where f = precedence_key] s by auto
  moreover have "w \<in> set g" using m by (metis set_mset_mset union_single_eq_member)
  ultimately show ?thesis using that s m by (simp add: resolve_group_sorted)
qed

section \<open>Properties\<close>

lemma lose_id [simp]: "pd_action_id (lose r w c) = cand_action_id c" "pd_outcome (lose r w c) \<noteq> WIN"
  by (simp_all add: lose_def Let_def)

lemma win_id [simp]: "pd_action_id (win c) = cand_action_id c" "pd_outcome (win c) = WIN"
  by (simp_all add: win_def)

lemma groups_partition:
  "finite A \<Longrightarrow> cand_resource ` set cs \<subseteq> A \<Longrightarrow> (\<Sum>r\<in>A. mset (group_of cs r)) = mset cs"
proof (induction cs)
  case (Cons c cs)
  have "(\<Sum>r\<in>A. mset (group_of (c # cs) r)) =
      (\<Sum>r\<in>A. (if r = cand_resource c then {#c#} else {#}) + mset (group_of cs r))"
    by (intro sum.cong) (auto simp: group_of_def)
  also have "\<dots> = {#c#} + (\<Sum>r\<in>A. mset (group_of cs r))"
    using Cons.prems by (simp add: sum.distrib)
  finally show ?case using Cons by simp
qed (simp add: group_of_def)

lemma resolve_group_ids:
  assumes "g \<noteq> []"
  shows "image_mset pd_action_id (mset (resolve_group r g)) = image_mset cand_action_id (mset g) \<and>
    size (filter_mset (\<lambda>d. pd_outcome d = WIN) (mset (resolve_group r g))) = 1"
proof -
  obtain w ls where w: "resolve_group r g = win w # map (lose r w) ls" "mset g = add_mset w (mset ls)"
    using resolve_group_first [OF assms] by metis
  have "filter (\<lambda>d. pd_outcome d = WIN) (map (lose r w) ls) = []" by (simp add: filter_empty_conv)
  then have "filter_mset (\<lambda>d. pd_outcome d = WIN) (mset (map (lose r w) ls)) = {#}"
    by (metis mset.simps(1) mset_filter)
  then show ?thesis using w by (simp add: multiset.map_comp comp_def)
qed

text \<open>
  Every candidate gets exactly one decision, and every contested resource exactly one winner.
\<close>

theorem resolve_one_winner_each:
  "image_mset pd_action_id (mset (resolve cs)) = image_mset cand_action_id (mset cs) \<and>
   length (filter (\<lambda>d. pd_outcome d = WIN) (resolve cs)) = card (cand_resource ` set cs)"
proof
  let ?R = "cand_resource ` set cs"
  have "image_mset pd_action_id (mset (resolve cs)) =
      (\<Sum>r\<in>?R. image_mset pd_action_id (mset (resolve_group r (group_of cs r))))"
    unfolding resolve_sum by (subst sum_comp_morphism [symmetric]) (simp_all add: comp_def)
  also have "\<dots> = (\<Sum>r\<in>?R. image_mset cand_action_id (mset (group_of cs r)))"
    by (intro sum.cong refl) (simp add: resolve_group_ids group_ne)
  also have "\<dots> = image_mset cand_action_id (\<Sum>r\<in>?R. mset (group_of cs r))"
    by (subst sum_comp_morphism [symmetric]) (simp_all add: comp_def)
  finally show "image_mset pd_action_id (mset (resolve cs)) = image_mset cand_action_id (mset cs)"
    by (simp add: groups_partition)
  let ?win = "filter_mset (\<lambda>d. pd_outcome d = WIN)"
  have "length (filter (\<lambda>d. pd_outcome d = WIN) (resolve cs)) = size (?win (mset (resolve cs)))"
    by (metis mset_filter size_mset)
  also have "\<dots> = (\<Sum>r\<in>?R. size (?win (mset (resolve_group r (group_of cs r)))))"
    unfolding resolve_sum
    by (subst sum_comp_morphism [where h = "\<lambda>M. size (?win M)", symmetric]) (simp_all add: comp_def)
  also have "\<dots> = (\<Sum>r\<in>?R. 1)"
    by (intro sum.cong refl) (simp add: resolve_group_ids group_ne)
  finally show "length (filter (\<lambda>d. pd_outcome d = WIN) (resolve cs)) = card ?R" by simp
qed

lemma resolve_mem:
  "d \<in> set (resolve cs) \<longleftrightarrow> (\<exists>r\<in>cand_resource ` set cs. d \<in> set (resolve_group r (group_of cs r)))"
proof -
  have "d \<in># (\<Sum>r\<in>A. mset (f r)) \<longleftrightarrow> (\<exists>r\<in>A. d \<in> set (f r))" if "finite A"
    for A :: "string set" and f :: "string \<Rightarrow> precedence_decision list"
    using that by (induction A rule: finite_induct) auto
  then have "d \<in># mset (resolve cs) \<longleftrightarrow> (\<exists>r\<in>cand_resource ` set cs. d \<in> set (resolve_group r (group_of cs r)))"
    unfolding resolve_sum by simp
  then show ?thesis by (simp only: set_mset_mset)
qed

text \<open>
  Fixed precedence: among the candidates of a resource the winner is one of the highest
  rank, with the smallest action id within that rank; every other candidate of the resource
  is deferred when it may be, and otherwise escalated to a human.
\<close>

theorem resolve_precedence:
  assumes "c \<in> set cs"
  shows "\<exists>w\<in>set cs. cand_resource w = cand_resource c \<and> win w \<in> set (resolve cs) \<and>
    (\<forall>x\<in>set cs. cand_resource x = cand_resource c \<longrightarrow>
       precedence_rank (cand_vertical x) \<le> precedence_rank (cand_vertical w) \<and>
       (precedence_rank (cand_vertical x) = precedence_rank (cand_vertical w) \<longrightarrow>
          cand_action_id w \<le> cand_action_id x)) \<and>
    (c = w \<or> lose (cand_resource c) w c \<in> set (resolve cs))"
proof -
  let ?r = "cand_resource c" and ?g = "group_of cs (cand_resource c)"
  have cg: "c \<in> set ?g" using assms by (simp add: group_of_def)
  then have ne: "?g \<noteq> []" by auto
  obtain w ls where w: "w \<in> set ?g" "resolve_group ?r ?g = win w # map (lose ?r w) ls"
    "mset ?g = add_mset w (mset ls)" "\<forall>x\<in>set ?g. precedence_key w \<le> precedence_key x"
    using resolve_group_first [OF ne] by metis
  have in_res: "d \<in> set (resolve_group ?r ?g) \<Longrightarrow> d \<in> set (resolve cs)" for d
    using assms by (auto simp: resolve_mem)
  have "precedence_rank (cand_vertical x) \<le> precedence_rank (cand_vertical w) \<and>
       (precedence_rank (cand_vertical x) = precedence_rank (cand_vertical w) \<longrightarrow>
          cand_action_id w \<le> cand_action_id x)" if "x \<in> set cs" "cand_resource x = ?r" for x
  proof -
    have "x \<in> set ?g" using that by (simp add: group_of_def)
    with w(4) have "precedence_key w \<le> precedence_key x" by blast
    then show ?thesis by (auto simp: precedence_key_def less_eq_prod_def)
  qed
  moreover have "c = w \<or> lose ?r w c \<in> set (resolve cs)"
  proof (cases "c = w")
    case False
    with cg w(3) have "c \<in> set ls" by (metis insert_iff set_mset_add_mset_insert set_mset_mset)
    then show ?thesis using in_res w(2) by auto
  qed simp
  moreover have "w \<in> set cs" "cand_resource w = ?r" using w(1) by (simp_all add: group_of_def)
  moreover have "win w \<in> set (resolve cs)" using in_res w(2) by simp
  ultimately show ?thesis by blast
qed

text \<open>
  Conflicts do not resolve by racing: the order in which the candidates arrive does not
  change the decisions.
\<close>

theorem resolve_order_independent:
  assumes "mset cs = mset cs'" and "distinct (map cand_action_id cs)"
  shows "mset (resolve cs) = mset (resolve cs')"
proof -
  have set_eq: "set cs = set cs'" using assms(1) by (rule mset_eq_setD)
  have "resolve_group r (group_of cs r) = resolve_group r (group_of cs' r)" for r
  proof -
    have "mset (group_of cs r) = mset (group_of cs' r)"
      using assms(1) by (simp add: group_of_def mset_filter)
    moreover have "inj_on precedence_key (set (group_of cs r))"
    proof (rule inj_onI)
      fix x y assume "x \<in> set (group_of cs r)" "y \<in> set (group_of cs r)" "precedence_key x = precedence_key y"
      then show "x = y" using assms(2) by (auto simp: group_of_def precedence_key_def distinct_map dest: inj_onD)
    qed
    ultimately have "sort_key precedence_key (group_of cs r) = sort_key precedence_key (group_of cs' r)"
      by (intro sort_key_inj_key_eq) (simp_all add: sort_key_simps)
    then show ?thesis by (simp add: resolve_group_sorted)
  qed
  then show ?thesis by (simp add: resolve_sum set_eq)
qed

text \<open>An active safety hold against a cost action and a change on the same resource.\<close>

definition sample_candidates :: "candidate list" where
  "sample_candidates =
     [\<lparr>cand_action_id = ''a'', cand_resource = ''vm'', cand_vertical = COST, deferrable = True\<rparr>,
      \<lparr>cand_action_id = ''b'', cand_resource = ''vm'', cand_vertical = RESILIENCE_SAFETY_HOLD, deferrable = False\<rparr>,
      \<lparr>cand_action_id = ''c'', cand_resource = ''vm'', cand_vertical = CHANGE_SAFETY, deferrable = False\<rparr>]"

theorem resolve_precedence_witness:
  "\<exists>w\<in>set sample_candidates. win w \<in> set (resolve sample_candidates)"
  using resolve_precedence [of "hd sample_candidates" sample_candidates]
  by (auto simp: sample_candidates_def)

theorem resolve_order_independent_witness:
  "mset (resolve sample_candidates) = mset (resolve (rev sample_candidates))"
  by (rule resolve_order_independent) (simp_all add: sample_candidates_def)

end
