(* ===== verification/OverrideWriter.thy ===== *)
theory OverrideWriter
  imports Prelude
begin

text \<open>
  \<open>core/risk_gate/override_writer.py\<close>: the renderer of a time-boxed Rego fragment that
  narrows the ceiling. \<open>iso_ok\<close> says which texts \<open>datetime.fromisoformat\<close> accepts.
\<close>

section \<open>The request\<close>

datatype override_axis = OV_CEILING | OV_ROLE | OV_ENV | OV_STATIC_BLAST | OV_LIVE_BLAST

fun override_axis_value :: "override_axis \<Rightarrow> string" where
  "override_axis_value OV_CEILING = ''ceiling''"
| "override_axis_value OV_ROLE = ''role''"
| "override_axis_value OV_ENV = ''env''"
| "override_axis_value OV_STATIC_BLAST = ''static_blast''"
| "override_axis_value OV_LIVE_BLAST = ''live_blast''"

datatype target_level = TL_ENFORCE_HIL | TL_SHADOW_ONLY

fun target_level_value :: "target_level \<Rightarrow> string" where
  "target_level_value TL_ENFORCE_HIL = ''enforce_hil''"
| "target_level_value TL_SHADOW_ONLY = ''shadow_only''"

datatype override_scope = OS_RESOURCE | OS_RESOURCE_GROUP

fun override_scope_value :: "override_scope \<Rightarrow> string" where
  "override_scope_value OS_RESOURCE = ''resource''"
| "override_scope_value OS_RESOURCE_GROUP = ''resource-group''"

record override_request =
  override_id :: string
  action_type_id :: string
  ov_axis :: override_axis
  ov_target_level :: target_level
  ov_scope :: override_scope
  scope_ref :: string
  ov_expires_at :: string
  ov_justification :: string
  requester_id :: string
  approver_id :: string

record rego_overlay =
  overlay_path :: string
  overlay_content :: string

section \<open>Validation\<close>

definition lower_or_digit :: "char \<Rightarrow> bool" where
  "lower_or_digit c = (let n = code_point c in (97 \<le> n \<and> n \<le> 122) \<or> (48 \<le> n \<and> n \<le> 57))"

definition lower_letter :: "char \<Rightarrow> bool" where
  "lower_letter c = (let n = code_point c in 97 \<le> n \<and> n \<le> 122)"

text \<open>The characters dot, underscore and hyphen.\<close>

definition id_punct :: "char \<Rightarrow> bool" where
  "id_punct c = (c = CHR ''.'' \<or> c = CHR ''_'' \<or> c = CHR ''-'')"

definition override_id_pattern :: "string \<Rightarrow> bool" where
  "override_id_pattern s = (case s of [] \<Rightarrow> False
     | c # cs \<Rightarrow> lower_or_digit c \<and> length cs \<le> 127 \<and> list_all (\<lambda>c. lower_or_digit c \<or> id_punct c) cs)"

definition is_ontology_id :: "string \<Rightarrow> bool" where
  "is_ontology_id s = (case s of [] \<Rightarrow> False
     | c # cs \<Rightarrow> lower_letter c \<and> list_all (\<lambda>c. lower_or_digit c \<or> id_punct c) cs)"

definition newline :: char where
  "newline = char_of (10::nat)"

definition carriage_return :: char where
  "carriage_return = char_of (13::nat)"

definition dquote :: char where
  "dquote = char_of (34::nat)"

definition backslash :: char where
  "backslash = char_of (92::nat)"

text \<open>\<open>value[:-1] + "+00:00" if value.endswith("Z") else value\<close>\<close>

definition normalize_z :: "string \<Rightarrow> string" where
  "normalize_z s = (if s \<noteq> [] \<and> last s = CHR ''Z'' then butlast s @ ''+00:00'' else s)"

definition principal_error :: "string \<Rightarrow> string \<Rightarrow> string option" where
  "principal_error label p =
     (if length p > 256 then Some (label @ '' MUST be at most 256 chars'')
      else if list_ex (\<lambda>c. c = newline \<or> c = carriage_return) p
      then Some (label @ '' MUST NOT contain a line break'')
      else None)"

text \<open>The first violated invariant, if any, in the order of \<open>_validate\<close>.\<close>

definition override_error :: "(string \<Rightarrow> bool) \<Rightarrow> override_request \<Rightarrow> string option" where
  "override_error iso_ok r =
     (if override_id r = [] then Some ''override_id MUST be non-empty''
      else if \<not> override_id_pattern (override_id r) then Some ''override_id MUST match''
      else if action_type_id r = [] then Some ''action_type_id MUST be non-empty''
      else if length (action_type_id r) > 80 then Some ''action_type_id MUST be at most 80 chars''
      else if \<not> is_ontology_id (action_type_id r) then Some ''action_type_id MUST match''
      else if py_strip (scope_ref r) = [] then Some ''scope_ref MUST be non-empty''
      else if ov_expires_at r = [] then Some ''expires_at MUST be non-empty''
      else if \<not> iso_ok (normalize_z (ov_expires_at r)) then Some ''expires_at MUST be ISO-8601''
      else if length (ov_justification r) < 20 then Some ''justification MUST be at least 20 chars''
      else if length (ov_justification r) > 500 then Some ''justification MUST be at most 500 chars''
      else if requester_id r = [] then Some ''requester_id MUST be non-empty''
      else if approver_id r = [] then Some ''approver_id MUST be non-empty''
      else (case principal_error ''requester_id'' (requester_id r) of
          Some e \<Rightarrow> Some e
        | None \<Rightarrow> (case principal_error ''approver_id'' (approver_id r) of
            Some e \<Rightarrow> Some e
          | None \<Rightarrow>
              (if py_casefold (py_strip (requester_id r)) = py_casefold (py_strip (approver_id r))
               then Some ''no self-approval'' else None))))"

section \<open>Rendering\<close>

text \<open>\<open>str.isalnum\<close> on the code points below 256.\<close>

definition py_isalnum :: "char \<Rightarrow> bool" where
  "py_isalnum c = (let n = code_point c in
     (48 \<le> n \<and> n \<le> 57) \<or> (65 \<le> n \<and> n \<le> 90) \<or> (97 \<le> n \<and> n \<le> 122) \<or>
     n \<in> {170, 178, 179, 181, 185, 186, 188, 189, 190} \<or> (192 \<le> n \<and> n \<noteq> 215 \<and> n \<noteq> 247))"

definition package_slug :: "string \<Rightarrow> string" where
  "package_slug s = map (\<lambda>c. if py_isalnum c then c else CHR ''_'') s"

definition slugify :: "string \<Rightarrow> string" where
  "slugify s = map (\<lambda>c. if py_isalnum c \<or> id_punct c then c else CHR ''_'') s"

definition package_name :: "override_request \<Rightarrow> string" where
  "package_name r = ''fdai.action_types.'' @ package_slug (action_type_id r) @ ''.'' @
     package_slug (override_id r)"

definition escape_comment :: "string \<Rightarrow> string" where
  "escape_comment s =
     (let cleaned = py_strip (map (\<lambda>c. if c = newline \<or> c = carriage_return then CHR '' '' else c) s)
      in if length cleaned > 200 then take 197 cleaned @ ''...'' else cleaned)"

text \<open>
  The four \<open>replace\<close> calls. The backslash goes first, so the later ones, which replace other
  characters, act on each character of the original text alone.
\<close>

definition rego_char :: "char \<Rightarrow> string" where
  "rego_char c =
     (if c = backslash then [backslash, backslash]
      else if c = dquote then [backslash, dquote]
      else if c = newline then [backslash, CHR ''n'']
      else if c = carriage_return then [backslash, CHR ''r'']
      else [c])"

definition rego_string :: "string \<Rightarrow> string" where
  "rego_string s = concat (map rego_char s)"

definition quoted :: "string \<Rightarrow> string" where
  "quoted s = [dquote] @ s @ [dquote]"

definition render_lines :: "override_request \<Rightarrow> string list" where
  "render_lines r =
    [''# METADATA'',
     ''# title: Ceiling override overlay'',
     ''# description: |'',
     ''#   Time-boxed override for '' @ py_repr (action_type_id r) @ ''.'',
     ''#   Narrows the '' @ override_axis_value (ov_axis r) @ '' axis to '' @
       target_level_value (ov_target_level r),
     ''#   on scope kind='' @ override_scope_value (ov_scope r) @ '', ref='' @
       escape_comment (scope_ref r) @ ''.'',
     ''#   Expires: '' @ ov_expires_at r @ ''.'',
     ''#   Justification: '' @ escape_comment (ov_justification r),
     ''# custom:'',
     ''#   override_id: '' @ escape_comment (override_id r),
     ''#   action_type_id: '' @ escape_comment (action_type_id r),
     ''#   axis: '' @ override_axis_value (ov_axis r),
     ''#   target_level: '' @ target_level_value (ov_target_level r),
     ''#   scope: '' @ override_scope_value (ov_scope r),
     ''#   scope_ref: '' @ escape_comment (scope_ref r),
     ''#   expires_at: '' @ escape_comment (ov_expires_at r),
     ''#   requester_id: '' @ escape_comment (requester_id r),
     ''#   approver_id: '' @ escape_comment (approver_id r),
     ''package '' @ package_name r,
     [],
     ''import rego.v1'',
     [],
     ''# Applicability guard - the RiskGate MUST evaluate `applies` before'',
     ''# consuming `verdict`. When `applies` is false the overlay does'',
     ''# not contribute; the pre-override ceiling stands.'',
     ''default applies := false'',
     [],
     ''applies if {'',
     ''  input.action_type == '' @ quoted (rego_string (action_type_id r)),
     ''  input.scope.kind == '' @ quoted (override_scope_value (ov_scope r)),
     ''  input.scope.ref == '' @ quoted (rego_string (scope_ref r)),
     ''  input.now <= '' @ quoted (rego_string (ov_expires_at r)),
     ''}'',
     [],
     ''verdict := {'',
     ''  '' @ quoted ''axis'' @ '': '' @ quoted (override_axis_value (ov_axis r)) @ '','',
     ''  '' @ quoted ''level'' @ '': '' @ quoted (target_level_value (ov_target_level r)) @ '','',
     ''  '' @ quoted ''override_id'' @ '': '' @ quoted (rego_string (override_id r)) @ '','',
     ''  '' @ quoted ''expires_at'' @ '': '' @ quoted (rego_string (ov_expires_at r)) @ '','',
     ''} if applies'',
     []]"

fun join_lines :: "string list \<Rightarrow> string" where
  "join_lines [] = []"
| "join_lines [l] = l"
| "join_lines (l # ls) = l @ [newline] @ join_lines ls"

definition render_override_rego :: "(string \<Rightarrow> bool) \<Rightarrow> override_request \<Rightarrow> rego_overlay res" where
  "render_override_rego iso_ok r = (case override_error iso_ok r of
     Some e \<Rightarrow> Inl (OverrideWriterError e)
   | None \<Rightarrow> Inr \<lparr>overlay_path = ''policies/action_types/'' @ slugify (action_type_id r) @ ''/'' @
         slugify (override_id r) @ ''.rego'',
       overlay_content = join_lines (render_lines r)\<rparr>)"

section \<open>Reading a rendered document back\<close>

text \<open>
  A reader of Rego text, written from the grammar and not from the renderer: the lines of a
  document, and the value of a double-quoted literal whose opening quote has been consumed,
  with the text behind its closing quote.
\<close>

definition line_break :: "char \<Rightarrow> bool" where
  "line_break c = (c = newline \<or> c = carriage_return)"

definition one_line :: "string \<Rightarrow> bool" where
  "one_line s = (\<not> list_ex line_break s)"

fun split_lines :: "string \<Rightarrow> string list" where
  "split_lines [] = [[]]"
| "split_lines (c # cs) =
     (if line_break c then [] # split_lines cs
      else (case split_lines cs of [] \<Rightarrow> [[c]] | l # ls \<Rightarrow> (c # l) # ls))"

definition unescape :: "char \<Rightarrow> char option" where
  "unescape c =
     (if c = backslash then Some backslash else if c = dquote then Some dquote
      else if c = CHR ''n'' then Some newline else if c = CHR ''r'' then Some carriage_return
      else None)"

fun read_literal :: "string \<Rightarrow> (string \<times> string) option" where
  "read_literal [] = None"
| "read_literal (c # cs) =
     (if c = dquote then Some ([], cs)
      else if line_break c then None
      else if c = backslash then
        (case cs of [] \<Rightarrow> None
         | d # ds \<Rightarrow> (case (unescape d, read_literal ds) of
             (Some e, Some (v, rest)) \<Rightarrow> Some (e # v, rest)
           | _ \<Rightarrow> None))
      else (case read_literal cs of Some (v, rest) \<Rightarrow> Some (c # v, rest) | None \<Rightarrow> None))"

text \<open>The lines of a document that are policy: neither empty nor a comment.\<close>

definition policy_lines :: "string \<Rightarrow> string list" where
  "policy_lines s = filter (\<lambda>l. l \<noteq> [] \<and> hd l \<noteq> CHR ''#'') (split_lines s)"

lemmas special_chars = newline_def carriage_return_def dquote_def backslash_def

lemma special_distinct [simp]:
  "newline \<noteq> carriage_return" "newline \<noteq> dquote" "newline \<noteq> backslash"
  "carriage_return \<noteq> newline" "carriage_return \<noteq> dquote" "carriage_return \<noteq> backslash"
  "dquote \<noteq> newline" "dquote \<noteq> carriage_return" "dquote \<noteq> backslash"
  "backslash \<noteq> newline" "backslash \<noteq> carriage_return" "backslash \<noteq> dquote"
  "CHR ''n'' \<noteq> newline" "CHR ''n'' \<noteq> carriage_return"
  "CHR ''r'' \<noteq> newline" "CHR ''r'' \<noteq> carriage_return"
  "CHR ''n'' \<noteq> dquote" "CHR ''n'' \<noteq> backslash" "CHR ''r'' \<noteq> dquote" "CHR ''r'' \<noteq> backslash"
  by (simp_all add: special_chars char_of_def bit_0)

lemma read_literal_rego_char:
  "read_literal (rego_char c @ t) =
     (case read_literal t of Some (v, rest) \<Rightarrow> Some (c # v, rest) | None \<Rightarrow> None)"
  by (auto simp: rego_char_def unescape_def line_break_def split: option.splits)

lemma read_literal_rego_string: "read_literal (rego_string s @ dquote # rest) = Some (s, rest)"
  by (induction s) (simp_all add: rego_string_def read_literal_rego_char)

lemma one_line_simps [simp]:
  "one_line []" "one_line (c # s) \<longleftrightarrow> \<not> line_break c \<and> one_line s"
  "one_line (s @ t) \<longleftrightarrow> one_line s \<and> one_line t"
  by (auto simp: one_line_def)

lemma split_one_line: "one_line l \<Longrightarrow> split_lines l = [l]"
  by (induction l) auto

lemma split_lines_break: "one_line l \<Longrightarrow> split_lines (l @ newline # rest) = l # split_lines rest"
  by (induction l) (auto simp: line_break_def)

lemma split_join_lines:
  "ls \<noteq> [] \<Longrightarrow> list_all one_line ls \<Longrightarrow> split_lines (join_lines ls) = ls"
  by (induction ls rule: join_lines.induct) (simp_all add: split_one_line split_lines_break)

lemma line_break_code: "line_break c \<longleftrightarrow> code_point c = 10 \<or> code_point c = 13"
proof -
  have "c = char_of n \<longleftrightarrow> code_point c = n" if "n < 256" for n :: nat
    using that by (auto simp: code_point_def)
  then show ?thesis by (simp add: line_break_def special_chars)
qed

section \<open>The rendered lines\<close>

lemma one_line_list: "one_line s \<longleftrightarrow> (\<forall>c\<in>set s. \<not> line_break c)"
  by (auto simp: one_line_def list_ex_iff)

lemma dropWhile_sub: "c \<in> set (dropWhile P s) \<Longrightarrow> c \<in> set s"
  by (meson set_dropWhileD)

lemma py_strip_sub: "c \<in> set (py_strip s) \<Longrightarrow> c \<in> set s"
  by (auto simp: py_strip_def dest!: dropWhile_sub)

lemma one_line_py_strip: "one_line s \<Longrightarrow> one_line (py_strip s)"
  by (auto simp: one_line_list dest: py_strip_sub)

lemma one_line_spaces:
  "one_line (map (\<lambda>c. if c = newline \<or> c = carriage_return then CHR '' '' else c) s)"
  by (induction s) (auto simp: line_break_def special_chars char_of_def bit_0)

lemma one_line_take: "one_line s \<Longrightarrow> one_line (take n s)"
  by (auto simp: one_line_list dest: in_set_takeD)

lemma one_line_escape [simp]: "one_line (escape_comment s)"
  unfolding escape_comment_def Let_def
  using one_line_py_strip [OF one_line_spaces, of s]
  by (auto simp: one_line_take line_break_code code_point_def)

lemma one_line_rego_string [simp]: "one_line (rego_string s)"
proof -
  have "one_line (rego_char c)" for c
    by (cases "line_break c") (auto simp: rego_char_def line_break_def)
  then show ?thesis by (induction s) (simp_all add: rego_string_def)
qed

lemma one_line_repr_char: "one_line [q] \<Longrightarrow> one_line (repr_char q c)"
  by (auto simp: repr_char_def Let_def line_break_code code_point_def hex_char_def)

lemma one_line_py_repr [simp]: "one_line (py_repr s)"
proof -
  have "one_line (concat (map (repr_char q) s))" if "one_line [q]" for q
    by (induction s) (auto simp: one_line_repr_char [OF that])
  then show ?thesis
    by (simp add: py_repr_def Let_def line_break_code code_point_def)
qed

lemma one_line_package [simp]: "one_line (package_slug s)"
  by (induction s)
    (auto simp: package_slug_def py_isalnum_def Let_def line_break_code code_point_def)

lemma one_line_quoted [simp]: "one_line (quoted s) \<longleftrightarrow> one_line s"
  by (simp add: quoted_def line_break_def)

lemma one_line_axis [simp]: "one_line (override_axis_value a)"
  by (cases a) (simp_all add: line_break_code code_point_def)

lemma one_line_level [simp]: "one_line (target_level_value l)"
  by (cases l) (simp_all add: line_break_code code_point_def)

lemma one_line_scope [simp]: "one_line (override_scope_value k)"
  by (cases k) (simp_all add: line_break_code code_point_def)

lemma render_lines_one_line:
  "one_line (ov_expires_at r) \<Longrightarrow> list_all one_line (render_lines r)"
  unfolding render_lines_def package_name_def
  by (simp add: line_break_code code_point_def)

text \<open>The policy a request stands for.\<close>

definition request_policy :: "override_request \<Rightarrow> string list" where
  "request_policy r =
    [''package '' @ package_name r,
     ''import rego.v1'',
     ''default applies := false'',
     ''applies if {'',
     ''  input.action_type == '' @ quoted (rego_string (action_type_id r)),
     ''  input.scope.kind == '' @ quoted (override_scope_value (ov_scope r)),
     ''  input.scope.ref == '' @ quoted (rego_string (scope_ref r)),
     ''  input.now <= '' @ quoted (rego_string (ov_expires_at r)),
     ''}'',
     ''verdict := {'',
     ''  '' @ quoted ''axis'' @ '': '' @ quoted (override_axis_value (ov_axis r)) @ '','',
     ''  '' @ quoted ''level'' @ '': '' @ quoted (target_level_value (ov_target_level r)) @ '','',
     ''  '' @ quoted ''override_id'' @ '': '' @ quoted (rego_string (override_id r)) @ '','',
     ''  '' @ quoted ''expires_at'' @ '': '' @ quoted (rego_string (ov_expires_at r)) @ '','',
     ''} if applies'']"


definition sample_override :: "string \<Rightarrow> override_request" where
  "sample_override expires = \<lparr>override_id = ''ov-1'', action_type_id = ''vm.restart'',
     ov_axis = OV_ENV, ov_target_level = TL_SHADOW_ONLY, ov_scope = OS_RESOURCE,
     scope_ref = ''vm'' @ [dquote, newline] @ ''x'', ov_expires_at = expires,
     ov_justification = ''freeze during the audit window'',
     requester_id = ''alice'', approver_id = ''bob''\<rparr>"

definition sample_expiry :: string where
  "sample_expiry = ''2026-01-01T00:00:00Z''"

definition broken_expiry :: string where
  "broken_expiry = ''2026-01-01'' @ newline # ''00:00:00''"

lemma sample_override_accepted:
  "override_error (\<lambda>s. True) (sample_override sample_expiry) = None"
  by code_simp

lemma broken_override_accepted:
  "override_error (\<lambda>s. True) (sample_override broken_expiry) = None"
  by code_simp

lemma render_accepted:
  "override_error iso_ok r = None \<Longrightarrow> \<exists>ov. render_override_rego iso_ok r = Inr ov"
  by (simp add: render_override_rego_def)


text \<open>
  Every string survives rendering as a Rego literal and reading it back, and the literal
  never spans two lines.
\<close>

theorem rego_literal_round_trip:
  "read_literal (rego_string s @ dquote # rest) = Some (s, rest) \<and> one_line (rego_string s)"
  by (simp add: read_literal_rego_string)

lemma id_char_slug: "lower_or_digit c \<Longrightarrow> py_isalnum c"
  by (auto simp: lower_or_digit_def py_isalnum_def Let_def)

lemma slugify_id: "list_all (\<lambda>c. lower_or_digit c \<or> id_punct c) s \<Longrightarrow> slugify s = s"
  by (induction s) (auto simp: slugify_def dest: id_char_slug)

lemma slash_not_id: "\<not> (lower_or_digit (CHR ''/'') \<or> id_punct (CHR ''/''))"
  by code_simp

lemma override_id_chars:
  "override_id_pattern s \<Longrightarrow> list_all (\<lambda>c. lower_or_digit c \<or> id_punct c) s"
  by (auto simp: override_id_pattern_def split: list.splits)

lemma ontology_id_chars:
  "is_ontology_id s \<Longrightarrow> list_all (\<lambda>c. lower_or_digit c \<or> id_punct c) s"
  by (auto simp: is_ontology_id_def lower_letter_def lower_or_digit_def Let_def split: list.splits)

lemma no_slash: "list_all (\<lambda>c. lower_or_digit c \<or> id_punct c) s \<Longrightarrow> CHR ''/'' \<notin> set s"
  using slash_not_id by (auto simp: list_all_iff)

lemma accepted_fields:
  assumes "render_override_rego iso_ok r = Inr ov"
  shows "override_error iso_ok r = None"
    "overlay_path ov = ''policies/action_types/'' @ slugify (action_type_id r) @ ''/'' @
       slugify (override_id r) @ ''.rego''"
    "overlay_content ov = join_lines (render_lines r)"
  using assms by (auto simp: render_override_rego_def split: option.splits)

text \<open>
  An accepted override has a requester and an approver that differ up to case and blanks, a
  parseable expiry, a justification of 20 to 500 characters, and a file path that cannot
  leave its ActionType's directory.
\<close>

theorem override_accepted_is_four_eyed:
  assumes "render_override_rego iso_ok r = Inr ov"
  shows "py_casefold (py_strip (requester_id r)) \<noteq> py_casefold (py_strip (approver_id r)) \<and>
    iso_ok (normalize_z (ov_expires_at r)) \<and>
    20 \<le> length (ov_justification r) \<and> length (ov_justification r) \<le> 500 \<and>
    overlay_path ov = ''policies/action_types/'' @ action_type_id r @ ''/'' @
      override_id r @ ''.rego'' \<and>
    CHR ''/'' \<notin> set (action_type_id r) \<union> set (override_id r)"
proof -
  note e = accepted_fields(1) [OF assms, unfolded override_error_def]
  have ids: "override_id_pattern (override_id r)" "is_ontology_id (action_type_id r)"
    using e by (simp_all split: if_splits)
  note chars = override_id_chars [OF ids(1)] ontology_id_chars [OF ids(2)]
  have "py_casefold (py_strip (requester_id r)) \<noteq> py_casefold (py_strip (approver_id r))"
    "iso_ok (normalize_z (ov_expires_at r))"
    "20 \<le> length (ov_justification r)" "length (ov_justification r) \<le> 500"
    using e by (simp_all split: if_splits option.splits)
  with accepted_fields(2) [OF assms] show ?thesis
    using chars by (simp add: slugify_id no_slash)
qed

theorem override_accepted_is_four_eyed_witness:
  "py_casefold (py_strip (requester_id (sample_override sample_expiry))) \<noteq>
   py_casefold (py_strip (approver_id (sample_override sample_expiry)))"
proof -
  obtain ov where "render_override_rego (\<lambda>s. True) (sample_override sample_expiry) = Inr ov"
    using render_accepted [OF sample_override_accepted] by blast
  from override_accepted_is_four_eyed [OF this] show ?thesis by blast
qed

text \<open>A line break inside a line makes two lines of it.\<close>

lemma join_lines_Cons: "ls \<noteq> [] \<Longrightarrow> join_lines (l # ls) = l @ [newline] @ join_lines ls"
  by (cases ls) simp_all

lemma join_lines_break:
  "join_lines (ls @ (a @ newline # b) # ms) = join_lines (ls @ a # b # ms)"
proof (induction ls)
  case Nil
  show ?case by (cases ms) simp_all
next
  case (Cons l ls)
  then show ?case by (simp add: join_lines_Cons)
qed

theorem override_expiry_breaks_comment:
  assumes "render_override_rego iso_ok r = Inr ov"
    and "ov_expires_at r = d @ newline # t" and "one_line d" and "one_line t"
    and "t \<noteq> []" and "hd t \<noteq> CHR ''#''"
  shows "(t @ ''.'') \<in> set (policy_lines (overlay_content ov))"
proof -
  define ls where "ls = take 6 (render_lines r)"
  define ms where "ms = drop 7 (render_lines r)"
  let ?new = "ls @ (''#   Expires: '' @ d) # (t @ ''.'') # ms"
  have lines: "render_lines r = ls @ ((''#   Expires: '' @ d) @ newline # (t @ ''.'')) # ms"
    by (simp add: ls_def ms_def render_lines_def assms(2))
  have "list_all one_line ls" "list_all one_line ms"
    unfolding ls_def ms_def render_lines_def package_name_def
    by (simp_all add: line_break_code code_point_def)
  then have "list_all one_line ?new"
    using assms(3,4) by (simp add: line_break_code code_point_def)
  then have "split_lines (overlay_content ov) = ?new"
    using accepted_fields(3) [OF assms(1)] lines
    by (simp only: join_lines_break) (simp add: split_join_lines)
  then show ?thesis using assms(5,6) by (simp add: policy_lines_def)
qed

theorem override_expiry_breaks_comment_witness:
  "\<exists>ov. render_override_rego (\<lambda>s. True) (sample_override broken_expiry) = Inr ov \<and>
     ''00:00:00.'' \<in> set (policy_lines (overlay_content ov)) \<and>
     ''00:00:00.'' \<notin> set (request_policy (sample_override broken_expiry))"
proof -
  obtain ov where ov: "render_override_rego (\<lambda>s. True) (sample_override broken_expiry) = Inr ov"
    using render_accepted [OF broken_override_accepted] by blast
  have "(''00:00:00'' @ ''.'') \<in> set (policy_lines (overlay_content ov))"
    by (rule override_expiry_breaks_comment [OF ov, of "''2026-01-01''"])
      (simp_all add: sample_override_def broken_expiry_def line_break_code code_point_def)
  moreover have "''00:00:00.'' \<notin> set (request_policy (sample_override broken_expiry))"
    by (simp add: request_policy_def)
  ultimately show ?thesis using ov by auto
qed

end
