(* ===== verification/OntologyEvidence.thy ===== *)
theory OntologyEvidence
  imports Preconditions
begin

text \<open>
  The two stateful evidence providers of \<open>core/risk_gate/ontology_preconditions.py\<close> and the
  admission that fences the change windows
  (\<open>core/operational_context/operating_intent_admission.py\<close>).

  A time is an aware datetime in microseconds. \<open>from_iso\<close> stands for
  \<open>datetime.fromisoformat\<close> (\<open>None\<close> for a \<open>ValueError\<close>, \<open>Some None\<close> for a naive datetime) and
  \<open>str_of\<close> for \<open>str\<close> on values that are not strings. The ontology store is the function
  \<open>query\<close> from an object type, a property and its value to a snapshot.
\<close>

section \<open>Records of the ontology store\<close>

datatype prop_value = PJson json | PDatetime "int option"

record ontology_object =
  ob_id :: string
  ob_properties :: "(string, prop_value) dict"

record graph_snapshot =
  gs_objects :: "ontology_object list"
  gs_truncated :: bool

text \<open>\<open>str(properties.get(key) or "").strip().casefold()\<close>\<close>

definition folded_text ::
  "(prop_value \<Rightarrow> string) \<Rightarrow> (string, prop_value) dict \<Rightarrow> string \<Rightarrow> string" where
  "folded_text str_of props k = py_casefold (py_strip (case dict_get props k of
     None \<Rightarrow> []
   | Some (PJson v) \<Rightarrow> (if json_truthy v then (case v of JStr s \<Rightarrow> s | _ \<Rightarrow> str_of (PJson v)) else [])
   | Some (PDatetime d) \<Rightarrow> str_of (PDatetime d)))"

section \<open>Conflicting open actions\<close>

definition terminal_action_statuses :: "string list" where
  "terminal_action_statuses =
     [''deny_dropped'', ''rejected'', ''rollback_failed'', ''rolled_back'', ''succeeded'']"

fun conflict_in ::
  "(prop_value \<Rightarrow> string) \<Rightarrow> string \<Rightarrow> ontology_object list \<Rightarrow> bool" where
  "conflict_in str_of key [] = False"
| "conflict_in str_of key (ob # obs) =
     (if dict_get (ob_properties ob) ''idempotency_key'' = Some (PJson (JStr key))
      then conflict_in str_of key obs
      else if folded_text str_of (ob_properties ob) ''status'' \<notin> set terminal_action_statuses
      then True
      else conflict_in str_of key obs)"

type_synonym query = "string \<Rightarrow> string \<Rightarrow> string \<Rightarrow> int \<Rightarrow> graph_snapshot"

definition has_conflict ::
  "(prop_value \<Rightarrow> string) \<Rightarrow> query \<Rightarrow> int \<Rightarrow> string \<Rightarrow> string \<Rightarrow> bool" where
  "has_conflict str_of query limit target key =
     (let snap = query ''ActionRun'' ''target_ref'' target limit
      in gs_truncated snap \<or> conflict_in str_of key (gs_objects snap))"

section \<open>Admission of the operating-intent source\<close>

datatype admission_status =
  UNBOUND | ADMITTED | EXPIRED | QUARANTINED | UNAVAILABLE | MALFORMED | BINDING_MISMATCH

record admission_expectation =
  expected_revision :: string
  expected_sha256 :: string
  expected_generation :: int

record admission =
  adm_status :: admission_status
  grants_intent_authority :: bool
  owned_object_ids :: "string set option"

definition admission_expectation_init :: "string \<Rightarrow> string \<Rightarrow> int \<Rightarrow> admission_expectation res" where
  "admission_expectation_init revision digest gen =
     (if py_strip revision = [] then Inl (ValueError ''expected_revision MUST be non-empty'')
      else if \<not> sha256_ref digest then Inl (ValueError ''expected_sha256 MUST be SHA-256'')
      else if gen < 1 then Inl (ValueError ''generation MUST be >= 1'')
      else Inr \<lparr>expected_revision = revision, expected_sha256 = digest, expected_generation = gen\<rparr>)"

definition denying :: "admission_status \<Rightarrow> admission" where
  "denying s = \<lparr>adm_status = s, grants_intent_authority = False, owned_object_ids = None\<rparr>"

definition malformed :: admission where
  "malformed = denying MALFORMED"

definition binding_mismatch :: admission where
  "binding_mismatch = denying BINDING_MISMATCH"

definition max_admission_age :: int where
  "max_admission_age = 86400"

definition max_admitted_ids :: nat where
  "max_admitted_ids = 4096"

fun json_str :: "json \<Rightarrow> string option" where
  "json_str (JStr s) = Some s"
| "json_str _ = None"

definition owned_ids :: "json option \<Rightarrow> string set option" where
  "owned_ids v = (case v of
     Some (JList items) \<Rightarrow>
       (if length items > max_admitted_ids then None
        else if list_ex (\<lambda>i. case i of JStr s \<Rightarrow> py_strip s = [] | _ \<Rightarrow> True) items then None
        else Some (set (List.map_filter json_str items)))
   | _ \<Rightarrow> None)"

definition optional_timestamp :: "(string \<Rightarrow> int option option) \<Rightarrow> json option \<Rightarrow> int option" where
  "optional_timestamp from_iso v = (case v of
     Some (JStr s) \<Rightarrow> (case from_iso s of Some (Some t) \<Rightarrow> Some t | _ \<Rightarrow> None)
   | _ \<Rightarrow> None)"

definition usable_age :: "json option \<Rightarrow> int option" where
  "usable_age v = (case v of
     Some (JInt n) \<Rightarrow> (if n < 1 \<or> n > max_admission_age then None else Some n) | _ \<Rightarrow> None)"

text \<open>The checks of a record whose status is \<open>admitted\<close>, from the revision on.\<close>

definition evaluate_admitted ::
  "(string \<Rightarrow> int option option) \<Rightarrow> (string, json) dict \<Rightarrow> int \<Rightarrow> admission_expectation \<Rightarrow> admission" where
  "evaluate_admitted from_iso raw now e =
     (case (dict_get raw ''source_revision'', dict_get raw ''snapshot_digest'',
        dict_get raw ''binding_generation'') of
       (Some (JStr revision), Some (JStr digest), Some (JInt gen)) \<Rightarrow>
         (if py_strip revision = [] \<or> \<not> sha256_ref digest \<or> gen < 1 then malformed
          else if revision \<noteq> expected_revision e \<or> digest \<noteq> expected_sha256 e \<or>
            gen \<noteq> expected_generation e then binding_mismatch
          else (case (owned_ids (dict_get raw ''owned_object_ids''),
              optional_timestamp from_iso (dict_get raw ''validated_at''),
              usable_age (dict_get raw ''max_age_seconds'')) of
              (Some owned, Some validated_at, Some max_age) \<Rightarrow>
                (let age = now - validated_at in
                 if age < 0 then malformed
                 else if age > max_age * 1000000 then denying EXPIRED
                 else \<lparr>adm_status = ADMITTED, grants_intent_authority = True,
                   owned_object_ids = Some owned\<rparr>)
            | _ \<Rightarrow> malformed))
     | _ \<Rightarrow> malformed)"

text \<open>
  \<open>evaluate_operating_intent_admission\<close>; \<open>now\<close> is \<open>None\<close> when naive. A status that is a list or
  an object is not hashable, so the membership test raises \<open>TypeError\<close>.
\<close>

definition evaluate_operating_intent_admission ::
  "(string \<Rightarrow> int option option) \<Rightarrow> (string, json) dict option \<Rightarrow> int option \<Rightarrow>
     admission_expectation option \<Rightarrow> admission res" where
  "evaluate_operating_intent_admission from_iso raw now expectation = (case now of
     None \<Rightarrow> Inl (ValueError ''now MUST be timezone-aware'')
   | Some now \<Rightarrow> (case expectation of
       None \<Rightarrow> Inr \<lparr>adm_status = UNBOUND, grants_intent_authority = True, owned_object_ids = None\<rparr>
     | Some e \<Rightarrow> (case raw of
         None \<Rightarrow> Inr (denying UNAVAILABLE)
       | Some raw \<Rightarrow> (case dict_get raw ''status'' of
           Some (JStr s) \<Rightarrow>
             (if s = ''unconfigured'' then Inr binding_mismatch
              else if s = ''quarantined'' then Inr (denying QUARANTINED)
              else if s = ''unavailable'' then Inr (denying UNAVAILABLE)
              else if s \<noteq> ''admitted'' then Inr malformed
              else Inr (evaluate_admitted from_iso raw now e))
         | Some (JList _) \<Rightarrow> Inl (TypeError ''unhashable type: list'')
         | Some (JObj _) \<Rightarrow> Inl (TypeError ''unhashable type: dict'')
         | _ \<Rightarrow> Inr malformed))))"

text \<open>
  \<open>StateStoreOperatingIntentAdmissionReader.resolve\<close>; \<open>read_state\<close> is what the state store
  returns, or raises, for the admission key.
\<close>

definition reader_resolve ::
  "(string \<Rightarrow> int option option) \<Rightarrow> (string, json) dict option res \<Rightarrow> admission_expectation option \<Rightarrow>
     int option \<Rightarrow> admission res" where
  "reader_resolve from_iso read_state expectation now = (case expectation of
     None \<Rightarrow> evaluate_operating_intent_admission from_iso None now None
   | Some e \<Rightarrow> bind_res read_state (\<lambda>raw.
       evaluate_operating_intent_admission from_iso raw now (Some e)))"

text \<open>The two providers refuse a query limit below one.\<close>

definition provider_init :: "int \<Rightarrow> int res" where
  "provider_init limit =
     (if limit < 1 then Inl (ValueError ''query_limit MUST be positive'') else Inr limit)"

section \<open>Change windows\<close>

definition effective_window_statuses :: "string list" where
  "effective_window_statuses = [''active'', ''reviewed'']"

definition allowing_window_kinds :: "string list" where
  "allowing_window_kinds = [''allow'', ''emergency'', ''maintenance'']"

definition blocking_window_kinds :: "string list" where
  "blocking_window_kinds = [''freeze'', ''quiet'']"

text \<open>\<open>value.replace("Z", "+00:00")\<close>: every Z, not the last one only.\<close>

definition replace_z :: "string \<Rightarrow> string" where
  "replace_z s = concat (map (\<lambda>c. if c = CHR ''Z'' then ''+00:00'' else [c]) s)"

definition parse_timestamp ::
  "(string \<Rightarrow> int option option) \<Rightarrow> prop_value option \<Rightarrow> int option" where
  "parse_timestamp from_iso v = (case v of
     Some (PDatetime d) \<Rightarrow> d
   | Some (PJson (JStr s)) \<Rightarrow> (case from_iso (replace_z s) of Some t \<Rightarrow> t | None \<Rightarrow> None)
   | _ \<Rightarrow> None)"

text \<open>
  The loop over the windows: \<open>owned\<close> is the ownership fence, \<open>allowing\<close> the flag. A blocking
  window returns at once.
\<close>

fun window_scan ::
  "(prop_value \<Rightarrow> string) \<Rightarrow> (string \<Rightarrow> int option option) \<Rightarrow> int \<Rightarrow> string set option \<Rightarrow>
     ontology_object list \<Rightarrow> bool \<Rightarrow> bool" where
  "window_scan str_of from_iso now owned [] allowing = allowing"
| "window_scan str_of from_iso now owned (w # ws) allowing =
     (let props = ob_properties w;
          kind = folded_text str_of props ''window_kind''
      in if folded_text str_of props ''status'' \<notin> set effective_window_statuses
         then window_scan str_of from_iso now owned ws allowing
         else (case (parse_timestamp from_iso (dict_get props ''effective_from''),
                     parse_timestamp from_iso (dict_get props ''effective_to'')) of
            (Some a, Some b) \<Rightarrow>
              (if a > b
               then (if kind \<in> set blocking_window_kinds then False
                     else window_scan str_of from_iso now owned ws allowing)
               else if \<not> (a \<le> now \<and> now \<le> b)
               then window_scan str_of from_iso now owned ws allowing
               else if kind \<in> set blocking_window_kinds then False
               else if kind \<in> set allowing_window_kinds
               then (case owned of
                   None \<Rightarrow> window_scan str_of from_iso now owned ws True
                 | Some ids \<Rightarrow> window_scan str_of from_iso now owned ws
                     (if ob_id w \<in> ids then True else allowing))
               else window_scan str_of from_iso now owned ws allowing)
          | _ \<Rightarrow>
              (if kind \<in> set blocking_window_kinds then False
               else window_scan str_of from_iso now owned ws allowing)))"

text \<open>
  \<open>is_active\<close>; \<open>admission\<close> is the reader, \<open>None\<close> when none is bound, and otherwise what its
  \<open>resolve\<close> returns at an instant.
\<close>

definition is_active ::
  "(prop_value \<Rightarrow> string) \<Rightarrow> (string \<Rightarrow> int option option) \<Rightarrow> query \<Rightarrow> int \<Rightarrow>
     (int option \<Rightarrow> admission res) option \<Rightarrow> string \<Rightarrow> int option \<Rightarrow> bool res" where
  "is_active str_of from_iso query limit reader target now = (case now of
     None \<Rightarrow> Inl (ValueError ''at MUST be timezone-aware'')
   | Some t \<Rightarrow>
      (let scan = (\<lambda>owned.
             let snap = query ''ChangeWindow'' ''scope_ref'' target limit
             in if gs_truncated snap then Inr False
                else Inr (window_scan str_of from_iso t owned (gs_objects snap) False))
       in (case reader of
            None \<Rightarrow> scan None
          | Some resolve \<Rightarrow> bind_res (resolve (Some t)) (\<lambda>adm.
              if \<not> grants_intent_authority adm then Inr False else scan (owned_object_ids adm)))))"

section \<open>What the providers promise\<close>

definition open_action :: "(prop_value \<Rightarrow> string) \<Rightarrow> string \<Rightarrow> ontology_object \<Rightarrow> bool" where
  "open_action str_of key ob =
     (dict_get (ob_properties ob) ''idempotency_key'' \<noteq> Some (PJson (JStr key)) \<and>
      folded_text str_of (ob_properties ob) ''status'' \<notin> set terminal_action_statuses)"

lemma conflict_in_iff: "conflict_in str_of key obs \<longleftrightarrow> (\<exists>ob\<in>set obs. open_action str_of key ob)"
  by (induction obs) (auto simp: open_action_def)

theorem has_conflict_iff:
  "has_conflict str_of query limit target key \<longleftrightarrow>
     gs_truncated (query ''ActionRun'' ''target_ref'' target limit) \<or>
     (\<exists>ob\<in>set (gs_objects (query ''ActionRun'' ''target_ref'' target limit)).
        open_action str_of key ob)"
  by (simp add: has_conflict_def Let_def conflict_in_iff)

text \<open>The bounds of a window, \<open>None\<close> when they do not make an interval.\<close>

definition window_bounds ::
  "(string \<Rightarrow> int option option) \<Rightarrow> ontology_object \<Rightarrow> (int \<times> int) option" where
  "window_bounds from_iso w =
     (case (parse_timestamp from_iso (dict_get (ob_properties w) ''effective_from''),
            parse_timestamp from_iso (dict_get (ob_properties w) ''effective_to'')) of
        (Some a, Some b) \<Rightarrow> (if a > b then None else Some (a, b)) | _ \<Rightarrow> None)"

definition effective_kind ::
  "(prop_value \<Rightarrow> string) \<Rightarrow> ontology_object \<Rightarrow> string list \<Rightarrow> bool" where
  "effective_kind str_of w kinds =
     (folded_text str_of (ob_properties w) ''status'' \<in> set effective_window_statuses \<and>
      folded_text str_of (ob_properties w) ''window_kind'' \<in> set kinds)"

definition blocks ::
  "(prop_value \<Rightarrow> string) \<Rightarrow> (string \<Rightarrow> int option option) \<Rightarrow> int \<Rightarrow> ontology_object \<Rightarrow> bool" where
  "blocks str_of from_iso now w = (effective_kind str_of w blocking_window_kinds \<and>
     (case window_bounds from_iso w of None \<Rightarrow> True | Some (a, b) \<Rightarrow> a \<le> now \<and> now \<le> b))"

definition allows ::
  "(prop_value \<Rightarrow> string) \<Rightarrow> (string \<Rightarrow> int option option) \<Rightarrow> int \<Rightarrow> string set option \<Rightarrow>
     ontology_object \<Rightarrow> bool" where
  "allows str_of from_iso now owned w = (effective_kind str_of w allowing_window_kinds \<and>
     (case window_bounds from_iso w of None \<Rightarrow> False | Some (a, b) \<Rightarrow> a \<le> now \<and> now \<le> b) \<and>
     (case owned of None \<Rightarrow> True | Some ids \<Rightarrow> ob_id w \<in> ids))"

lemma kinds_disjoint: "k \<in> set allowing_window_kinds \<Longrightarrow> k \<notin> set blocking_window_kinds"
  by (auto simp: allowing_window_kinds_def blocking_window_kinds_def)

lemma window_scan_step:
  "window_scan str_of from_iso now owned (w # ws) allowing =
     (if blocks str_of from_iso now w then False
      else window_scan str_of from_iso now owned ws (allowing \<or> allows str_of from_iso now owned w))"
  using kinds_disjoint [of "folded_text str_of (ob_properties w) ''window_kind''"]
  by (cases "allows str_of from_iso now owned w")
    (auto simp: blocks_def allows_def effective_kind_def window_bounds_def Let_def
      split: option.splits if_splits)

lemma window_scan_iff:
  "window_scan str_of from_iso now owned ws allowing \<longleftrightarrow>
     (\<forall>w\<in>set ws. \<not> blocks str_of from_iso now w) \<and>
     (allowing \<or> (\<exists>w\<in>set ws. allows str_of from_iso now owned w))"
proof (induction ws arbitrary: allowing)
  case (Cons w ws)
  show ?case unfolding window_scan_step by (auto simp: Cons.IH)
qed simp

definition window_open ::
  "(prop_value \<Rightarrow> string) \<Rightarrow> (string \<Rightarrow> int option option) \<Rightarrow> int \<Rightarrow> string set option \<Rightarrow>
     graph_snapshot \<Rightarrow> bool" where
  "window_open str_of from_iso now owned snap = (\<not> gs_truncated snap \<and>
     (\<forall>w\<in>set (gs_objects snap). \<not> blocks str_of from_iso now w) \<and>
     (\<exists>w\<in>set (gs_objects snap). allows str_of from_iso now owned w))"

lemma is_active_iff:
  "is_active str_of from_iso query limit reader target (Some t) = Inr True \<longleftrightarrow>
     (case reader of
        None \<Rightarrow> window_open str_of from_iso t None (query ''ChangeWindow'' ''scope_ref'' target limit)
      | Some resolve \<Rightarrow> (\<exists>adm. resolve (Some t) = Inr adm \<and> grants_intent_authority adm \<and>
          window_open str_of from_iso t (owned_object_ids adm)
            (query ''ChangeWindow'' ''scope_ref'' target limit)))"
  by (auto simp: is_active_def window_open_def window_scan_iff bind_res_Inr Let_def
      split: option.splits)

theorem change_window_open_iff:
  "is_active str_of from_iso query limit (Some resolve) target (Some t) = Inr True \<longleftrightarrow>
     (\<exists>adm. resolve (Some t) = Inr adm \<and> grants_intent_authority adm \<and>
        window_open str_of from_iso t (owned_object_ids adm)
          (query ''ChangeWindow'' ''scope_ref'' target limit))"
  by (simp add: is_active_iff)

text \<open>What an admission that grants authority to a configured reader has proved.\<close>

definition current_admission ::
  "(string \<Rightarrow> int option option) \<Rightarrow> (string, json) dict \<Rightarrow> int \<Rightarrow> admission_expectation \<Rightarrow>
     string set \<Rightarrow> bool" where
  "current_admission from_iso raw t e owned =
     (dict_get raw ''status'' = Some (JStr ''admitted'') \<and>
      dict_get raw ''source_revision'' = Some (JStr (expected_revision e)) \<and>
      dict_get raw ''snapshot_digest'' = Some (JStr (expected_sha256 e)) \<and>
      dict_get raw ''binding_generation'' = Some (JInt (expected_generation e)) \<and>
      owned_ids (dict_get raw ''owned_object_ids'') = Some owned \<and>
      (\<exists>v n. optional_timestamp from_iso (dict_get raw ''validated_at'') = Some v \<and>
         dict_get raw ''max_age_seconds'' = Some (JInt n) \<and>
         1 \<le> n \<and> n \<le> 86400 \<and> v \<le> t \<and> t \<le> v + n * 1000000))"

lemma usable_age_Some: "usable_age v = Some n \<Longrightarrow> v = Some (JInt n) \<and> 1 \<le> n \<and> n \<le> 86400"
  by (auto simp: usable_age_def max_admission_age_def split: option.splits json.splits if_splits)

lemma denying_simps [simp]:
  "grants_intent_authority (denying s) = False" "grants_intent_authority malformed = False"
  "grants_intent_authority binding_mismatch = False"
  by (simp_all add: denying_def malformed_def binding_mismatch_def)

lemma evaluate_admitted_grants:
  assumes "grants_intent_authority (evaluate_admitted from_iso raw t e)"
    and "dict_get raw ''status'' = Some (JStr ''admitted'')"
  shows "\<exists>owned. owned_object_ids (evaluate_admitted from_iso raw t e) = Some owned \<and>
    current_admission from_iso raw t e owned"
  using assms
  by (auto simp: evaluate_admitted_def current_admission_def Let_def dest!: usable_age_Some
      split: option.splits json.splits if_splits)

lemma admission_grants:
  assumes "evaluate_operating_intent_admission from_iso raw (Some t) (Some e) = Inr adm"
    and "grants_intent_authority adm"
  shows "\<exists>r owned. raw = Some r \<and> owned_object_ids adm = Some owned \<and>
    current_admission from_iso r t e owned"
proof -
  obtain r where r: "raw = Some r" "dict_get r ''status'' = Some (JStr ''admitted'')"
    "adm = evaluate_admitted from_iso r t e"
    using assms
    by (auto simp: evaluate_operating_intent_admission_def split: option.splits json.splits if_splits)
  with evaluate_admitted_grants assms(2) show ?thesis by blast
qed

lemma admitted_window:
  assumes "is_active str_of from_iso query limit
      (Some (reader_resolve from_iso raw (Some e))) target (Some t) = Inr True"
  shows "\<exists>r owned w. raw = Inr (Some r) \<and> current_admission from_iso r t e owned \<and>
    w \<in> set (gs_objects (query ''ChangeWindow'' ''scope_ref'' target limit)) \<and>
    ob_id w \<in> owned \<and> allows str_of from_iso t None w"
proof -
  obtain raw' adm where raw: "raw = Inr raw'"
    and adm: "evaluate_operating_intent_admission from_iso raw' (Some t) (Some e) = Inr adm"
      "grants_intent_authority adm"
    and w: "window_open str_of from_iso t (owned_object_ids adm)
      (query ''ChangeWindow'' ''scope_ref'' target limit)"
    using assms by (auto simp: is_active_iff reader_resolve_def bind_res_Inr)
  from admission_grants [OF adm] w raw show ?thesis
    by (fastforce simp: window_open_def allows_def)
qed

theorem change_window_needs_current_admission:
  assumes "is_active str_of from_iso query limit
      (Some (reader_resolve from_iso raw (Some e))) target (Some t) = Inr True"
  shows "\<exists>r owned w. raw = Inr (Some r) \<and> current_admission from_iso r t e owned \<and>
    w \<in> set (gs_objects (query ''ChangeWindow'' ''scope_ref'' target limit)) \<and>
    ob_id w \<in> owned \<and> allows str_of from_iso t None w"
  using assms by (rule admitted_window)

section \<open>An admitted window\<close>

definition sample_iso :: "string \<Rightarrow> int option option" where
  "sample_iso s = (if s = ''T0'' then Some (Some 0) else if s = ''T9'' then Some (Some 9000000) else None)"

definition sample_window :: ontology_object where
  "sample_window = \<lparr>ob_id = ''window-1'', ob_properties =
     [(''status'', PJson (JStr ''Active'')), (''window_kind'', PJson (JStr ''maintenance'')),
      (''effective_from'', PJson (JStr ''T0'')), (''effective_to'', PDatetime (Some 9000000))]\<rparr>"

definition sample_window_query :: query where
  "sample_window_query object_type prop v limit =
     \<lparr>gs_objects = (if object_type = ''ChangeWindow'' \<and> v = ''vm-1'' then [sample_window] else []),
      gs_truncated = False\<rparr>"

definition sample_digest :: string where
  "sample_digest = ''sha256:'' @ replicate 64 (CHR ''a'')"

definition sample_expectation :: admission_expectation where
  "sample_expectation =
     \<lparr>expected_revision = ''r1'', expected_sha256 = sample_digest, expected_generation = 2\<rparr>"

definition sample_admission :: "(string, json) dict" where
  "sample_admission =
     [(''status'', JStr ''admitted''), (''source_revision'', JStr ''r1''),
      (''snapshot_digest'', JStr sample_digest), (''binding_generation'', JInt 2),
      (''owned_object_ids'', JList [JStr ''window-1'']), (''validated_at'', JStr ''T0''),
      (''max_age_seconds'', JInt 60)]"

lemma sample_window_active:
  "is_active (\<lambda>_. []) sample_iso sample_window_query 500
     (Some (reader_resolve sample_iso (Inr (Some sample_admission)) (Some sample_expectation))) ''vm-1'' (Some 1000000) = Inr True"
  by code_simp

theorem change_window_needs_current_admission_witness:
  "\<exists>owned. current_admission sample_iso sample_admission 1000000 sample_expectation owned \<and>
     ''window-1'' \<in> owned"
proof -
  from change_window_needs_current_admission [OF sample_window_active]
  obtain r owned w where "Inr (Some sample_admission) = (Inr (Some r) :: (string, json) dict option res)"
    "current_admission sample_iso r 1000000 sample_expectation owned"
    "w \<in> set (gs_objects (sample_window_query ''ChangeWindow'' ''scope_ref'' ''vm-1'' 500))"
    "ob_id w \<in> owned"
    by blast
  then show ?thesis by (auto simp: sample_window_query_def sample_window_def)
qed

end
