(* ===== verification/IncidentModel.thy ===== *)
theory IncidentModel
  imports Prelude
begin

text \<open>
  The data of the incident lifecycle: the state machine (\<open>core/incident/state_machine.py\<close>),
  the record (\<open>shared/contracts/models/incident.py\<close>), the correlation keys
  (\<open>workflow_support.py\<close>) and the audit rows with their builders (\<open>audit_entries.py\<close>).

  A UUID is its canonical text, so \<open>str\<close> and \<open>UUID\<close> are the identity; a time is an aware
  datetime in microseconds, and the guards against naive ones are left out. A row is a
  typed value instead of a JSON object: the reads of a field that the builders always write
  with the right type are left out. \<open>uuid5\<close>, \<open>isoformat\<close> and \<open>sha256\<close> are the fields of an
  environment.
\<close>

record incident_env =
  env_uuid5 :: "string \<Rightarrow> string"
  env_isofmt :: "int \<Rightarrow> string"
  env_sha256 :: "string \<Rightarrow> string"

section \<open>States\<close>

datatype incident_state = OPEN | TRIAGING | MITIGATED | RESOLVED | CLOSED

fun incident_state_value :: "incident_state \<Rightarrow> string" where
  "incident_state_value OPEN = ''open''"
| "incident_state_value TRIAGING = ''triaging''"
| "incident_state_value MITIGATED = ''mitigated''"
| "incident_state_value RESOLVED = ''resolved''"
| "incident_state_value CLOSED = ''closed''"

datatype incident_severity = SEV1 | SEV2 | SEV3 | SEV4 | SEV5

fun severity_value :: "incident_severity \<Rightarrow> string" where
  "severity_value SEV1 = ''sev1''"
| "severity_value SEV2 = ''sev2''"
| "severity_value SEV3 = ''sev3''"
| "severity_value SEV4 = ''sev4''"
| "severity_value SEV5 = ''sev5''"

fun severity_rank :: "incident_severity \<Rightarrow> nat" where
  "severity_rank SEV1 = 1"
| "severity_rank SEV2 = 2"
| "severity_rank SEV3 = 3"
| "severity_rank SEV4 = 4"
| "severity_rank SEV5 = 5"

fun legal_transitions :: "incident_state \<Rightarrow> incident_state set" where
  "legal_transitions OPEN = {TRIAGING, MITIGATED}"
| "legal_transitions TRIAGING = {MITIGATED, RESOLVED}"
| "legal_transitions MITIGATED = {RESOLVED}"
| "legal_transitions RESOLVED = {CLOSED, TRIAGING}"
| "legal_transitions CLOSED = {}"

definition validate_edge :: "incident_state \<Rightarrow> incident_state \<Rightarrow> unit res" where
  "validate_edge current target =
     (if target \<notin> legal_transitions current then Inl IncidentTransitionError else Inr ())"

record incident_transition =
  tr_id :: string
  tr_from :: incident_state
  tr_to :: incident_state
  tr_actor :: string
  tr_at :: int
  tr_reason :: "string option"

definition incident_transition_init ::
  "string \<Rightarrow> incident_state \<Rightarrow> incident_state \<Rightarrow> string \<Rightarrow> int \<Rightarrow> string option \<Rightarrow>
     incident_transition res" where
  "incident_transition_init i f t actor moment reason =
     (if py_strip actor = [] then Inl (ValueError ''IncidentTransition requires non-empty actor_oid'')
      else Inr \<lparr>tr_id = i, tr_from = f, tr_to = t, tr_actor = actor, tr_at = moment,
        tr_reason = reason\<rparr>)"

definition transition_key :: "incident_env \<Rightarrow> incident_transition \<Rightarrow> string" where
  "transition_key E t = tr_id t @ ''::'' @ incident_state_value (tr_from t) @ ''->'' @
     incident_state_value (tr_to t) @ ''::'' @ tr_actor t @ ''::'' @ env_isofmt E (tr_at t)"

section \<open>The record\<close>

record incident =
  inc_id :: string
  inc_number :: "string option"
  inc_state :: incident_state
  inc_severity :: incident_severity
  inc_opened_at :: int
  inc_mitigated_at :: "int option"
  inc_resolved_at :: "int option"
  inc_closed_at :: "int option"
  inc_keys :: "string list"
  inc_members :: "string list"
  inc_assignee :: "string option"
  inc_mitigation_summary :: "string option"

definition ascii_digit :: "char \<Rightarrow> bool" where
  "ascii_digit c = (let n = code_point c in 48 \<le> n \<and> n \<le> 57)"

text \<open>The pattern of an incident number, \<open>INC-\d{6}-\d{4}\<close>.\<close>

definition number_pattern :: "string \<Rightarrow> bool" where
  "number_pattern s = (length s = 15 \<and> take 4 s = ''INC-'' \<and> list_all ascii_digit (take 6 (drop 4 s)) \<and>
     s ! 10 = CHR ''-'' \<and> list_all ascii_digit (drop 11 s))"

text \<open>Construction of a record as the two builders do it, with the pydantic checks.\<close>

definition incident_init ::
  "string \<Rightarrow> string option \<Rightarrow> incident_state \<Rightarrow> incident_severity \<Rightarrow> int \<Rightarrow> string list \<Rightarrow> string list \<Rightarrow>
     string option \<Rightarrow> incident res" where
  "incident_init i number st sev opened keys members assignee =
     (if (case number of None \<Rightarrow> False | Some n \<Rightarrow> \<not> number_pattern n)
      then Inl (ValueError ''incident_number'')
      else if keys = [] then Inl (ValueError ''correlation_keys'')
      else if members = [] then Inl (ValueError ''member_event_ids'')
      else Inr \<lparr>inc_id = i, inc_number = number, inc_state = st, inc_severity = sev,
        inc_opened_at = opened, inc_mitigated_at = None, inc_resolved_at = None,
        inc_closed_at = None, inc_keys = keys, inc_members = members, inc_assignee = assignee,
        inc_mitigation_summary = None\<rparr>)"

text \<open>\<open>apply_incident_transition\<close> of \<open>replay.py\<close>.\<close>

definition apply_incident_transition ::
  "incident \<Rightarrow> incident_transition \<Rightarrow> incident_severity option \<Rightarrow> incident" where
  "apply_incident_transition inc t severity =
     (let inc = inc\<lparr>inc_state := tr_to t,
            inc_severity := (case severity of None \<Rightarrow> inc_severity inc | Some s \<Rightarrow> s)\<rparr>;
          inc = (case tr_to t of
              MITIGATED \<Rightarrow> inc\<lparr>inc_mitigated_at := Some (tr_at t)\<rparr>
            | RESOLVED \<Rightarrow> inc\<lparr>inc_resolved_at := Some (tr_at t)\<rparr>
            | CLOSED \<Rightarrow> inc\<lparr>inc_closed_at := Some (tr_at t)\<rparr>
            | _ \<Rightarrow> inc)
      in (case tr_reason t of
            None \<Rightarrow> inc
          | Some r \<Rightarrow> (if r \<noteq> [] \<and> tr_to t = MITIGATED then inc\<lparr>inc_mitigation_summary := Some r\<rparr> else inc)))"

section \<open>Correlation keys\<close>

definition bar :: char where
  "bar = CHR ''|''"

definition nul :: char where
  "nul = char_of (0::nat)"

definition canonical_incident_correlation_keys :: "string list \<Rightarrow> string list res" where
  "canonical_incident_correlation_keys keys =
     (let canonical = sort (remdups (filter (\<lambda>k. k \<noteq> []) (map py_strip keys)))
      in if length canonical > 32 \<or> list_ex (\<lambda>k. length k > 1024) canonical
         then Inl (ValueError ''incident correlation keys MUST be bounded'')
         else if list_ex (\<lambda>k. bar \<in> set k \<or> nul \<in> set k) canonical
         then Inl (ValueError ''incident correlation key contains a reserved delimiter'')
         else Inr canonical)"

text \<open>\<open>"|".join(keys)\<close>\<close>

fun join_bar :: "string list \<Rightarrow> string" where
  "join_bar [] = []"
| "join_bar [k] = k"
| "join_bar (k # ks) = k @ [bar] @ join_bar ks"

definition incident_id_for :: "incident_env \<Rightarrow> string list \<Rightarrow> string res" where
  "incident_id_for E keys = bind_res (canonical_incident_correlation_keys keys) (\<lambda>canonical.
     if canonical = [] then Inl (ValueError ''incident_id_for requires at least one correlation key'')
     else Inr (env_uuid5 E (''fdai.incident://'' @ join_bar canonical)))"

section \<open>Audit rows\<close>

datatype incident_row =
    OpenRow (row_key: string) (row_id: string) (row_number: "string option")
      (row_severity: incident_severity) (row_state: incident_state) (row_actor: string)
      (row_opened_at: int) (row_assignee: "string option") (row_keys: "string list")
      (row_members: "string list")
  | MembersRow (row_key: string) (row_id: string) (row_severity: incident_severity)
      (row_state: incident_state) (row_actor: string) (row_at: int) (row_members: "string list")
  | SeverityRow (row_key: string) (row_id: string) (row_state: incident_state)
      (row_from_severity: incident_severity) (row_severity: incident_severity)
      (row_actor: string) (row_at: int)
  | AssignedRow (row_key: string) (row_id: string) (row_severity: incident_severity)
      (row_state: incident_state) (row_from_assignee: "string option")
      (row_assignee: "string option") (row_actor: string) (row_at: int)
  | TicketRow (row_key: string) (row_id: string) (row_provider: string) (row_ticket: string)
      (row_url: "string option") (row_actor: string) (row_at: int)
  | TransitionRow (row_key: string) (row_id: string) (row_from_state: incident_state)
      (row_to_state: incident_state) (row_from_severity: incident_severity)
      (row_severity: incident_severity) (row_actor: string) (row_at: int)
      (row_reason: "string option")

definition require_actor :: "string \<Rightarrow> string res" where
  "require_actor actor = (let a = py_strip actor in
     if a = [] then Inl (ValueError ''incident audit actor_oid MUST be non-empty'') else Inr a)"

definition open_audit_entry :: "incident \<Rightarrow> string \<Rightarrow> incident_row res" where
  "open_audit_entry inc actor_oid = bind_res (require_actor actor_oid) (\<lambda>actor.
     Inr (OpenRow (inc_id inc @ ''::open'') (inc_id inc) None (inc_severity inc) OPEN actor
       (inc_opened_at inc) (inc_assignee inc) (inc_keys inc) (inc_members inc)))"

definition transition_audit_entry ::
  "incident_env \<Rightarrow> incident_transition \<Rightarrow> incident \<Rightarrow> incident_severity \<Rightarrow> incident_row" where
  "transition_audit_entry E t inc target =
     TransitionRow (transition_key E t) (tr_id t) (tr_from t) (tr_to t) (inc_severity inc) target
       (tr_actor t) (tr_at t) (tr_reason t)"

definition members_audit_entry ::
  "incident_env \<Rightarrow> incident \<Rightarrow> string list \<Rightarrow> string \<Rightarrow> int \<Rightarrow> incident_row res" where
  "members_audit_entry E inc added actor_oid moment = bind_res (require_actor actor_oid) (\<lambda>actor.
     Inr (MembersRow (inc_id inc @ ''::members::'' @ env_sha256 E (join_bar (sort added)))
       (inc_id inc) (inc_severity inc) (inc_state inc) actor moment added))"

definition severity_audit_entry ::
  "incident \<Rightarrow> incident_severity \<Rightarrow> string \<Rightarrow> int \<Rightarrow> incident_row res" where
  "severity_audit_entry inc target actor_oid moment = bind_res (require_actor actor_oid) (\<lambda>actor.
     Inr (SeverityRow (inc_id inc @ ''::severity::'' @ severity_value target) (inc_id inc)
       (inc_state inc) (inc_severity inc) target actor moment))"

definition assignment_audit_entry ::
  "incident_env \<Rightarrow> incident \<Rightarrow> string option \<Rightarrow> string \<Rightarrow> int \<Rightarrow> incident_row res" where
  "assignment_audit_entry E inc assignee actor_oid moment = bind_res (require_actor actor_oid) (\<lambda>actor.
     let target = (case assignee of None \<Rightarrow> ''unassigned'' | Some a \<Rightarrow>
           (if a = [] then ''unassigned'' else a)) in
     Inr (AssignedRow (inc_id inc @ ''::assigned::'' @ target @ ''::'' @ env_isofmt E moment)
       (inc_id inc) (inc_severity inc) (inc_state inc) (inc_assignee inc) assignee actor moment))"

record ticket_link =
  tl_incident :: string
  tl_provider :: string
  tl_ticket :: string
  tl_url :: "string option"
  tl_linked_at :: int
  tl_linked_by :: string

definition ticket_link_init ::
  "string \<Rightarrow> string \<Rightarrow> string \<Rightarrow> string option \<Rightarrow> int \<Rightarrow> string \<Rightarrow> ticket_link res" where
  "ticket_link_init i provider ticket url moment actor =
     (if py_strip provider = [] \<or> py_strip ticket = [] \<or> py_strip actor = []
      then Inl (ValueError ''incident ticket link requires non-empty fields'')
      else Inr \<lparr>tl_incident = i, tl_provider = provider, tl_ticket = ticket, tl_url = url,
        tl_linked_at = moment, tl_linked_by = actor\<rparr>)"

definition ticket_audit_entry :: "incident_env \<Rightarrow> ticket_link \<Rightarrow> incident_row" where
  "ticket_audit_entry E l =
     TicketRow (tl_incident l @ ''::ticket::'' @ env_sha256 E (tl_provider l @ [nul] @ tl_ticket l))
       (tl_incident l) (tl_provider l) (tl_ticket l) (tl_url l) (tl_linked_by l) (tl_linked_at l)"

end
