(* ===== verification/IncidentStore.thy ===== *)
theory IncidentStore
  imports IncidentModel
begin

text \<open>
  The lifecycle log: \<open>classify_incident_append\<close>, which both store adapters use, from
  \<open>shared/providers/state_store.py\<close>, and the append and read operations of the in-memory
  store (\<open>shared/providers/testing/state_store.py\<close>). The dictionary of rows is keyed by the
  idempotency key and only ever grows, so it is the list of its rows in insertion order. The
  hash-chained audit copy of a row is not modelled.
\<close>

section \<open>Classification of an append\<close>

datatype append_status = APPLIED | DUPLICATE

fun is_open_row :: "incident_row \<Rightarrow> bool" where
  "is_open_row (OpenRow _ _ _ _ _ _ _ _ _ _) = True"
| "is_open_row _ = False"

text \<open>\<open>row.get(field)\<close> for the fields that rows of several kinds have.\<close>

fun row_get_members :: "incident_row \<Rightarrow> string list option" where
  "row_get_members (OpenRow _ _ _ _ _ _ _ _ _ m) = Some m"
| "row_get_members (MembersRow _ _ _ _ _ _ m) = Some m"
| "row_get_members _ = None"

fun row_get_at :: "incident_row \<Rightarrow> int option" where
  "row_get_at (OpenRow _ _ _ _ _ _ _ _ _ _) = None"
| "row_get_at r = Some (row_at r)"

fun row_get_assignee :: "incident_row \<Rightarrow> string option" where
  "row_get_assignee (OpenRow _ _ _ _ _ _ _ a _ _) = a"
| "row_get_assignee (AssignedRow _ _ _ _ _ a _ _) = a"
| "row_get_assignee _ = None"

fun row_get_from_assignee :: "incident_row \<Rightarrow> string option" where
  "row_get_from_assignee (AssignedRow _ _ _ _ f _ _ _) = f"
| "row_get_from_assignee _ = None"

text \<open>
  \<open>_same_incident_intent existing incoming\<close>, by the kind of the incoming row. A row of another
  kind than the incoming one lacks a field that the incoming row always has, except for
  members and assignments, where the fields are compared one by one.
\<close>

fun same_incident_intent :: "incident_row \<Rightarrow> incident_row \<Rightarrow> bool" where
  "same_incident_intent old (MembersRow k i sev st a t m) =
     (row_id old = i \<and> (case row_get_members old of None \<Rightarrow> False | Some m' \<Rightarrow> sort m' = sort m))"
| "same_incident_intent old (AssignedRow k i sev st f asg a t) =
     (row_id old = i \<and> row_get_from_assignee old = f \<and> row_get_assignee old = asg \<and>
      row_actor old = a \<and> row_get_at old = Some t)"
| "same_incident_intent (OpenRow k i n sev st a t asg ks m) (OpenRow k' i' n' sev' st' a' t' asg' ks' m') =
     (i = i' \<and> st = st' \<and> sev = sev' \<and> asg = asg' \<and> ks = ks')"
| "same_incident_intent (TransitionRow k i f t fs s a mo r) (TransitionRow k' i' f' t' fs' s' a' mo' r') =
     (i = i' \<and> f = f' \<and> t = t' \<and> fs = fs' \<and> s = s' \<and> a = a' \<and> mo = mo' \<and> r = r')"
| "same_incident_intent (SeverityRow k i st fs s a mo) (SeverityRow k' i' st' fs' s' a' mo') =
     (i = i' \<and> st = st' \<and> fs = fs' \<and> s = s' \<and> a = a' \<and> mo = mo')"
| "same_incident_intent (TicketRow k i p t u a mo) (TicketRow k' i' p' t' u' a' mo') =
     (i = i' \<and> p = p' \<and> t = t' \<and> u = u')"
| "same_incident_intent _ _ = False"

text \<open>The current state, assignee and severity that the loops read off an incident's rows.\<close>

fun state_after :: "incident_state \<Rightarrow> incident_row \<Rightarrow> incident_state" where
  "state_after s (TransitionRow _ _ _ t _ _ _ _ _) = t"
| "state_after s _ = s"

fun assignee_after :: "string option \<Rightarrow> incident_row \<Rightarrow> string option" where
  "assignee_after s (AssignedRow _ _ _ _ _ a _ _) = a"
| "assignee_after s _ = s"

fun severity_after :: "incident_severity \<Rightarrow> incident_row \<Rightarrow> incident_severity" where
  "severity_after s (SeverityRow _ _ _ _ v _ _) = v"
| "severity_after s (TransitionRow _ _ _ _ _ v _ _ _) = v"
| "severity_after s _ = s"

definition conflict :: "string \<Rightarrow> append_status res" where
  "conflict m = Inl (IncidentWriteConflictError m)"

definition classify_incident_append :: "incident_row list \<Rightarrow> incident_row \<Rightarrow> append_status res" where
  "classify_incident_append history entry =
     (case find (\<lambda>r. row_key r = row_key entry) history of
        Some duplicate \<Rightarrow>
          (if \<not> same_incident_intent duplicate entry
           then conflict ''idempotency key payload conflict'' else Inr DUPLICATE)
      | None \<Rightarrow>
         (let incident_history = filter (\<lambda>r. row_id r = row_id entry) history in
          case (find is_open_row incident_history, is_open_row entry) of
            (None, True) \<Rightarrow> Inr APPLIED
          | (Some opened, True) \<Rightarrow>
              (if \<not> same_incident_intent opened entry
               then conflict ''conflicting incident.open'' else Inr DUPLICATE)
          | (None, False) \<Rightarrow> conflict ''precedes incident.open''
          | (Some opened, False) \<Rightarrow>
             (case entry of
                TransitionRow _ _ expected target _ _ _ _ _ \<Rightarrow>
                  (let current = fold (\<lambda>r s. state_after s r) incident_history (row_state opened)
                   in if current = target then Inr DUPLICATE
                      else if current \<noteq> expected then conflict ''incident state conflict''
                      else Inr APPLIED)
              | AssignedRow _ _ _ _ from_assignee target _ _ \<Rightarrow>
                  (let current = fold (\<lambda>r s. assignee_after s r) incident_history (row_assignee opened)
                   in if current = target then Inr DUPLICATE
                      else if current \<noteq> from_assignee then conflict ''incident assignee conflict''
                      else Inr APPLIED)
              | SeverityRow _ _ _ from_severity target _ _ \<Rightarrow>
                  (let current = fold (\<lambda>r s. severity_after s r) incident_history (row_severity opened)
                   in if current = target then Inr DUPLICATE
                      else if current \<noteq> from_severity then conflict ''incident severity conflict''
                      else if severity_rank target \<ge> severity_rank current
                      then conflict ''incident severity escalation MUST become more severe''
                      else Inr APPLIED)
              | _ \<Rightarrow> Inr APPLIED)))"

section \<open>The store\<close>

definition pad4 :: "nat \<Rightarrow> string" where
  "pad4 n = [digit_char (n div 1000 mod 10), digit_char (n div 100 mod 10),
     digit_char (n div 10 mod 10), digit_char (n mod 10)]"

definition digit_val :: "char \<Rightarrow> int" where
  "digit_val c = int (code_point c) - 48"

definition incident_number_for :: "string \<Rightarrow> int \<Rightarrow> string res" where
  "incident_number_for prefix sequence =
     (if \<not> (length prefix = 10 \<and> take 4 prefix = ''INC-'' \<and> list_all ascii_digit (drop 4 prefix))
      then Inl (ValueError ''incident number prefix MUST match INC-YYYYMM'')
      else let year = 1000 * digit_val (prefix ! 4) + 100 * digit_val (prefix ! 5) +
                 10 * digit_val (prefix ! 6) + digit_val (prefix ! 7);
               month = 10 * digit_val (prefix ! 8) + digit_val (prefix ! 9)
           in if year < 1 \<or> month < 1 \<or> month > 12
              then Inl (ValueError ''incident number prefix MUST contain a valid UTC year and month'')
              else if sequence < 0 \<or> sequence > 9999
              then Inl (ValueError ''incident number sequence MUST be between 0 and 9999'')
              else Inr (prefix @ ''-'' @ pad4 (nat sequence)))"

record incident_store =
  st_rows :: "incident_row list"
  st_sequences :: "string \<Rightarrow> nat"

definition empty_store :: incident_store where
  "empty_store = \<lparr>st_rows = [], st_sequences = (\<lambda>_. 0)\<rparr>"

definition append_incident_transition ::
  "incident_row \<Rightarrow> incident_store \<Rightarrow> append_status res \<times> incident_store" where
  "append_incident_transition entry st =
     (if is_open_row entry then (Inl (ValueError ''incident.open MUST use append_incident_open''), st)
      else (case classify_incident_append (st_rows st) entry of
          Inl e \<Rightarrow> (Inl e, st)
        | Inr DUPLICATE \<Rightarrow> (Inr DUPLICATE, st)
        | Inr APPLIED \<Rightarrow> (Inr APPLIED, st\<lparr>st_rows := st_rows st @ [entry]\<rparr>)))"

text \<open>The row with the allocated number: \<open>{**entry, "incident_number": ...}\<close>.\<close>

fun with_number :: "incident_row \<Rightarrow> string \<Rightarrow> incident_row" where
  "with_number (OpenRow k i n sev st a t asg ks m) number = OpenRow k i (Some number) sev st a t asg ks m"
| "with_number r number = r"

fun row_number_opt :: "incident_row \<Rightarrow> string option" where
  "row_number_opt (OpenRow _ _ n _ _ _ _ _ _ _) = n"
| "row_number_opt _ = None"

definition append_incident_open ::
  "incident_row \<Rightarrow> string \<Rightarrow> incident_store \<Rightarrow> (append_status \<times> string option) res \<times> incident_store" where
  "append_incident_open entry prefix st =
     (if \<not> is_open_row entry
      then (Inl (ValueError ''append_incident_open requires kind=incident.open''), st)
      else (case classify_incident_append (st_rows st) entry of
          Inl e \<Rightarrow> (Inl e, st)
        | Inr DUPLICATE \<Rightarrow>
            (Inr (DUPLICATE, case find (\<lambda>r. row_id r = row_id entry \<and> is_open_row r) (st_rows st) of
               None \<Rightarrow> None | Some r \<Rightarrow> row_number_opt r), st)
        | Inr APPLIED \<Rightarrow>
            (let sequence = st_sequences st prefix in
             case incident_number_for prefix (int sequence) of
               Inl e \<Rightarrow> (Inl e, st)
             | Inr number \<Rightarrow>
                 (Inr (APPLIED, Some number),
                  st\<lparr>st_rows := st_rows st @ [with_number entry number],
                     st_sequences := (st_sequences st)(prefix := sequence + 1)\<rparr>))))"

definition read_incident_transitions :: "incident_store \<Rightarrow> incident_row list" where
  "read_incident_transitions st = st_rows st"

end
