(* ===== verification/IncidentReplay.thy ===== *)
theory IncidentReplay
  imports IncidentStore
begin

text \<open>
  \<open>core/incident/replay.py\<close>: rebuilding the incident index from the ordered lifecycle rows,
  failing closed on the first row that does not fit. \<open>Optional\<close> texts that are empty read
  back as \<open>None\<close>, required texts must not be empty.
\<close>

type_synonym index = "(string, incident) dict"

definition some_text :: "string option \<Rightarrow> string option" where
  "some_text v = (case v of None \<Rightarrow> None | Some s \<Rightarrow> (if s = [] then None else Some s))"

definition required_text :: "string \<Rightarrow> string res" where
  "required_text s = (if s = [] then Inl (ValueError ''MUST be a non-empty string'') else Inr s)"

definition required_texts :: "string list \<Rightarrow> string list res" where
  "required_texts xs =
     (if xs = [] \<or> list_ex (\<lambda>s. s = []) xs then Inl (ValueError ''MUST be a non-empty string list'')
      else Inr xs)"

definition merge_replayed_open :: "incident \<Rightarrow> incident \<Rightarrow> incident res" where
  "merge_replayed_open old new =
     (if inc_keys old \<noteq> inc_keys new \<or> inc_number old \<noteq> inc_number new \<or>
         inc_severity old \<noteq> inc_severity new \<or> inc_state old \<noteq> OPEN \<or> inc_state new \<noteq> OPEN
      then Inl (ValueError ''conflicting duplicate incident.open'')
      else Inr (old\<lparr>inc_opened_at := min (inc_opened_at old) (inc_opened_at new),
        inc_members := fromkeys (inc_members old @ inc_members new),
        inc_assignee := (case some_text (inc_assignee old) of
            Some a \<Rightarrow> Some a | None \<Rightarrow> inc_assignee new)\<rparr>))"

definition lookup :: "index \<Rightarrow> string \<Rightarrow> incident res" where
  "lookup d i = (case dict_get d i of
     None \<Rightarrow> Inl (ValueError ''precedes incident.open'') | Some inc \<Rightarrow> Inr inc)"

definition incident_from_open_row :: "incident_env \<Rightarrow> incident_row \<Rightarrow> incident res" where
  "incident_from_open_row E r = (case r of
     OpenRow k i n sev st a t asg ks ms \<Rightarrow>
       bind_res (required_texts ks) (\<lambda>ks.
       bind_res (incident_id_for E ks) (\<lambda>expected.
         if i \<noteq> expected then Inl (ValueError ''incident_id does not match correlation keys'')
         else bind_res (required_texts ms) (\<lambda>ms.
           incident_init i (some_text n) st sev t ks ms (some_text asg))))
   | _ \<Rightarrow> Inl (ValueError ''unsupported lifecycle kind''))"

text \<open>One iteration of the loop, by the kind of the row.\<close>

definition replay_row :: "incident_env \<Rightarrow> index \<Rightarrow> incident_row \<Rightarrow> index res" where
  "replay_row E d r = (case r of
     OpenRow _ _ _ _ _ _ _ _ _ _ \<Rightarrow>
       bind_res (incident_from_open_row E r) (\<lambda>opened.
         case dict_get d (inc_id opened) of
           None \<Rightarrow> Inr (dict_set d (inc_id opened) opened)
         | Some existing \<Rightarrow> bind_res (merge_replayed_open existing opened) (\<lambda>merged.
             Inr (dict_set d (inc_id opened) merged)))
   | MembersRow _ i _ _ _ _ ms \<Rightarrow>
       bind_res (lookup d i) (\<lambda>current.
       bind_res (required_texts ms) (\<lambda>added.
         Inr (dict_set d i (current\<lparr>inc_members := fromkeys (inc_members current @ added)\<rparr>))))
   | SeverityRow _ i _ from_severity target _ _ \<Rightarrow>
       bind_res (lookup d i) (\<lambda>current.
         if inc_severity current \<noteq> from_severity
         then Inl (ValueError ''severity from_severity mismatch'')
         else if severity_rank target \<ge> severity_rank (inc_severity current)
         then Inl (ValueError ''incident severity escalation MUST become more severe'')
         else Inr (dict_set d i (current\<lparr>inc_severity := target\<rparr>)))
   | AssignedRow _ i _ _ from_assignee target _ _ \<Rightarrow>
       bind_res (lookup d i) (\<lambda>current.
         if inc_assignee current = some_text target then Inr d
         else if inc_assignee current \<noteq> some_text from_assignee
         then Inl (ValueError ''assignment from_assignee mismatch'')
         else Inr (dict_set d i (current\<lparr>inc_assignee := some_text target\<rparr>)))
   | TicketRow _ i _ _ _ _ _ \<Rightarrow> bind_res (lookup d i) (\<lambda>_. Inr d)
   | TransitionRow _ i f t from_severity severity actor moment reason \<Rightarrow>
       bind_res (lookup d i) (\<lambda>current.
         if inc_state current \<noteq> f then Inl (ValueError ''transition from_state mismatch'')
         else bind_res (required_text actor) (\<lambda>actor.
           bind_res (incident_transition_init i f t actor moment (some_text reason)) (\<lambda>transition.
           bind_res (validate_edge (inc_state current) t) (\<lambda>_.
             if inc_severity current \<noteq> from_severity
             then Inl (ValueError ''transition from_severity mismatch'')
             else if severity \<noteq> inc_severity current \<and> \<not> (inc_state current = RESOLVED \<and> t = TRIAGING)
             then Inl (ValueError ''severity changed outside resolved -> triaging reopen'')
             else Inr (dict_set d i (apply_incident_transition current transition (Some severity))))))))"

fun replay_rows :: "incident_env \<Rightarrow> index \<Rightarrow> incident_row list \<Rightarrow> index res" where
  "replay_rows E d [] = Inr d"
| "replay_rows E d (r # rs) = bind_res (replay_row E d r) (\<lambda>d. replay_rows E d rs)"

text \<open>
  \<open>rehydrate_incidents\<close> with the fixed schema version. \<open>IncidentTransitionError\<close> is a
  \<open>ValueError\<close> too, so every failure of a row is wrapped.
\<close>

definition rehydrate_incidents :: "incident_env \<Rightarrow> incident_row list \<Rightarrow> index res" where
  "rehydrate_incidents E rows = (case replay_rows E [] rows of
     Inl e \<Rightarrow> Inl (IncidentReplayError e) | Inr d \<Rightarrow> Inr d)"

lemma replay_rows_append:
  "replay_rows E d (xs @ ys) = bind_res (replay_rows E d xs) (\<lambda>d. replay_rows E d ys)"
  by (induction xs arbitrary: d) (auto simp: bind_res_def split: sum.splits)

lemma rehydrate_Inr: "rehydrate_incidents E rows = Inr d \<longleftrightarrow> replay_rows E [] rows = Inr d"
  by (auto simp: rehydrate_incidents_def split: sum.splits)

lemma rehydrate_snoc:
  "rehydrate_incidents E rows = Inr d \<Longrightarrow> replay_row E d r = Inr d' \<Longrightarrow>
     rehydrate_incidents E (rows @ [r]) = Inr d'"
  by (simp add: rehydrate_Inr replay_rows_append)

end
