(* ===== verification/IncidentRegistry.thy ===== *)
theory IncidentRegistry
  imports IncidentReplay StepSystem
begin

text \<open>
  \<open>core/incident/registry.py\<close>: the only writer of incidents. A call is an action on the
  registry's index and the shared store, with its exception or result; each method runs under
  the write lock, so it is one step. The clock readings that stand in for a missing time are
  the argument \<open>now\<close> (the n-th reading). The projection sink is not modelled.
\<close>

section \<open>Actions\<close>

type_synonym registry_world = "index \<times> incident_store"

type_synonym 'a act = "registry_world \<Rightarrow> 'a res \<times> registry_world"

definition act_return :: "'a \<Rightarrow> 'a act" where
  "act_return x w = (Inr x, w)"

definition act_raise :: "exc \<Rightarrow> 'a act" where
  "act_raise e w = (Inl e, w)"

definition act_bind :: "'a act \<Rightarrow> ('a \<Rightarrow> 'b act) \<Rightarrow> 'b act" where
  "act_bind m f w = (case m w of (Inl e, w') \<Rightarrow> (Inl e, w') | (Inr x, w') \<Rightarrow> f x w')"

definition act_lift :: "'a res \<Rightarrow> 'a act" where
  "act_lift r w = (r, w)"

definition put_incident :: "string \<Rightarrow> incident \<Rightarrow> unit act" where
  "put_incident i inc w = (Inr (), (dict_set (fst w) i inc, snd w))"

text \<open>
  \<open>_reload_canonical\<close>. Keeping the live object where it equals the restored one keeps the
  value, so the index becomes the restored one.
\<close>

definition reload_canonical :: "incident_env \<Rightarrow> string \<Rightarrow> incident act" where
  "reload_canonical E i w = (case rehydrate_incidents E (read_incident_transitions (snd w)) of
     Inl e \<Rightarrow> (Inl e, w)
   | Inr restored \<Rightarrow> (case dict_get restored i of
       None \<Rightarrow> (Inl (IncidentWriteConflictError ''canonical incident missing after duplicate''),
         (restored, snd w))
     | Some inc \<Rightarrow> (Inr inc, (restored, snd w))))"

text \<open>\<open>except IncidentWriteConflictError: await self._reload_canonical(...); raise\<close>\<close>

definition reload_on_conflict :: "incident_env \<Rightarrow> string \<Rightarrow> 'a act \<Rightarrow> 'a act" where
  "reload_on_conflict E i m w = (case m w of
     (Inl (IncidentWriteConflictError e), w') \<Rightarrow>
       act_bind (reload_canonical E i) (\<lambda>_. act_raise (IncidentWriteConflictError e)) w'
   | r \<Rightarrow> r)"

definition persist :: "incident_env \<Rightarrow> incident_row \<Rightarrow> string \<Rightarrow> append_status act" where
  "persist E entry i = reload_on_conflict E i (\<lambda>w.
     case append_incident_transition entry (snd w) of (r, st) \<Rightarrow> (r, (fst w, st)))"

definition persist_open ::
  "incident_env \<Rightarrow> incident_row \<Rightarrow> string \<Rightarrow> string \<Rightarrow> (append_status \<times> string option) act" where
  "persist_open E entry i prefix = reload_on_conflict E i (\<lambda>w.
     case append_incident_open entry prefix (snd w) of (r, st) \<Rightarrow> (r, (fst w, st)))"

section \<open>Severity escalation\<close>

text \<open>The loop \<open>for _attempt in range(2)\<close>, with the number of attempts left.\<close>

fun escalate_attempts ::
  "incident_env \<Rightarrow> nat \<Rightarrow> incident \<Rightarrow> incident_severity \<Rightarrow> string \<Rightarrow> int \<Rightarrow>
     (incident \<times> bool \<times> incident_severity option) act" where
  "escalate_attempts E 0 canonical target actor moment =
     act_raise (IncidentWriteConflictError ''incident severity escalation did not converge'')"
| "escalate_attempts E (Suc n) canonical target actor moment =
     (if severity_rank target \<ge> severity_rank (inc_severity canonical)
      then act_return (canonical, False, None)
      else act_bind (act_lift (severity_audit_entry canonical target actor moment)) (\<lambda>entry w.
        case persist E entry (inc_id canonical) w of
          (Inl (IncidentWriteConflictError _), w') \<Rightarrow>
            act_bind (reload_canonical E (inc_id canonical)) (\<lambda>canonical.
              escalate_attempts E n canonical target actor moment) w'
        | (Inl e, w') \<Rightarrow> (Inl e, w')
        | (Inr DUPLICATE, w') \<Rightarrow>
            act_bind (reload_canonical E (inc_id canonical)) (\<lambda>canonical.
              act_return (canonical, False, None)) w'
        | (Inr APPLIED, w') \<Rightarrow>
            act_bind (put_incident (inc_id canonical) (canonical\<lparr>inc_severity := target\<rparr>)) (\<lambda>_.
              act_return (canonical\<lparr>inc_severity := target\<rparr>, True,
                Some (inc_severity canonical))) w'))"

definition escalate_severity_if_needed ::
  "incident_env \<Rightarrow> incident \<Rightarrow> incident_severity \<Rightarrow> string \<Rightarrow> int \<Rightarrow>
     (incident \<times> bool \<times> incident_severity option) act" where
  "escalate_severity_if_needed E inc target actor moment =
     escalate_attempts E 2 inc target actor moment"

section \<open>Opening\<close>

definition episode_key :: "string \<Rightarrow> bool" where
  "episode_key k = starts_with ''episode:'' k"

definition base_keys :: "string list \<Rightarrow> string set" where
  "base_keys ks = set (filter (\<lambda>k. \<not> episode_key k) ks)"

definition active_incident_for_episode :: "index \<Rightarrow> string list \<Rightarrow> incident option res" where
  "active_incident_for_episode d keys =
     (if \<not> list_ex episode_key keys then Inr None
      else (case filter (\<lambda>inc. inc_state inc \<noteq> RESOLVED \<and> inc_state inc \<noteq> CLOSED \<and>
                base_keys (inc_keys inc) = base_keys keys) (dict_values d) of
          [] \<Rightarrow> Inr None
        | [inc] \<Rightarrow> Inr (Some inc)
        | _ \<Rightarrow> Inl (IncidentWriteConflictError
            ''multiple active incidents match one detector correlation family'')))"

record open_result =
  or_incident :: incident
  or_created :: bool
  or_severity_changed :: bool
  or_previous_severity :: "incident_severity option"

text \<open>The branch of \<open>open_with_status\<close> for a known incident, and the one for a new id.\<close>

definition merge_into_existing ::
  "incident_env \<Rightarrow> incident \<Rightarrow> incident_severity \<Rightarrow> string list \<Rightarrow> string \<Rightarrow> int option \<Rightarrow>
     (nat \<Rightarrow> int) \<Rightarrow> open_result act" where
  "merge_into_existing E inc severity members actor opened_at now =
     act_bind (escalate_severity_if_needed E inc severity actor
         (case opened_at of Some t \<Rightarrow> t | None \<Rightarrow> now 0)) (\<lambda>(existing, changed, previous).
       let added = filter (\<lambda>m. m \<notin> set (inc_members existing)) members;
           merged = inc_members existing @ added;
           finish = (\<lambda>i. act_return \<lparr>or_incident = i, or_created = False,
              or_severity_changed = changed, or_previous_severity = previous\<rparr>)
       in if merged = inc_members existing then finish existing
          else let updated = existing\<lparr>inc_members := merged\<rparr> in
            act_bind (act_lift (members_audit_entry E updated added actor
                (case opened_at of Some t \<Rightarrow> t | None \<Rightarrow> now 1))) (\<lambda>entry.
            act_bind (persist E entry (inc_id inc)) (\<lambda>status.
              if status = DUPLICATE
              then act_bind (reload_canonical E (inc_id inc)) finish
              else act_bind (put_incident (inc_id inc) updated) (\<lambda>_. finish updated))))"

definition create_incident ::
  "incident_env \<Rightarrow> string \<Rightarrow> string list \<Rightarrow> incident_severity \<Rightarrow> string list \<Rightarrow> string \<Rightarrow>
     int option \<Rightarrow> string option \<Rightarrow> string \<Rightarrow> (nat \<Rightarrow> int) \<Rightarrow> open_result act" where
  "create_incident E i keys severity members actor opened_at assignee prefix now =
     (let opened = (case opened_at of Some t \<Rightarrow> t | None \<Rightarrow> now 0) in
      act_bind (act_lift (incident_init i None OPEN severity opened (sort (remdups keys))
          (fromkeys members) assignee)) (\<lambda>inc.
      act_bind (act_lift (open_audit_entry inc actor)) (\<lambda>entry.
      act_bind (persist_open E entry i prefix) (\<lambda>(status, number).
        if status = DUPLICATE then
          act_bind (reload_canonical E i) (\<lambda>canonical.
            let added = filter (\<lambda>m. m \<notin> set (inc_members canonical)) members;
                finish = (\<lambda>c. act_return \<lparr>or_incident = c, or_created = False,
                   or_severity_changed = False, or_previous_severity = None\<rparr>)
            in if added = [] then finish canonical
               else act_bind (act_lift (members_audit_entry E
                     (canonical\<lparr>inc_members := inc_members canonical @ added\<rparr>) added actor opened))
                   (\<lambda>entry.
                 act_bind (persist E entry i) (\<lambda>_.
                 act_bind (reload_canonical E i) finish)))
        else let inc = inc\<lparr>inc_number := number\<rparr> in
          act_bind (put_incident i inc) (\<lambda>_. act_return \<lparr>or_incident = inc, or_created = True,
            or_severity_changed = False, or_previous_severity = None\<rparr>)))))"

text \<open>\<open>prefix\<close> is the month prefix that the number clock gives (\<open>INC-YYYYMM\<close>).\<close>

definition open_with_status ::
  "incident_env \<Rightarrow> string list \<Rightarrow> incident_severity \<Rightarrow> string list \<Rightarrow> string \<Rightarrow> int option \<Rightarrow>
     string option \<Rightarrow> string \<Rightarrow> (nat \<Rightarrow> int) \<Rightarrow> open_result act" where
  "open_with_status E correlation_keys severity members actor opened_at assignee prefix now =
     (if py_strip actor = [] then act_raise (ValueError ''incident open actor_oid MUST be non-empty'')
      else act_bind (act_lift (canonical_incident_correlation_keys correlation_keys)) (\<lambda>keys.
        act_bind (act_lift (incident_id_for E keys)) (\<lambda>i w.
          (case (case dict_get (fst w) i of
               Some inc \<Rightarrow> Inr (Some inc) | None \<Rightarrow> active_incident_for_episode (fst w) keys) of
             Inl e \<Rightarrow> act_raise e
           | Inr (Some existing) \<Rightarrow>
               merge_into_existing E existing severity members actor opened_at now
           | Inr None \<Rightarrow>
               create_incident E i keys severity members actor opened_at assignee prefix now) w)))"

section \<open>Transitions, assignment and tickets\<close>

definition known :: "string \<Rightarrow> incident act" where
  "known i w = (case dict_get (fst w) i of
     None \<Rightarrow> (Inl (KeyError ''unknown incident_id''), w) | Some inc \<Rightarrow> (Inr inc, w))"

definition transition_with_status ::
  "incident_env \<Rightarrow> string \<Rightarrow> incident_state \<Rightarrow> string \<Rightarrow> string option \<Rightarrow> incident_severity option \<Rightarrow>
     int option \<Rightarrow> (nat \<Rightarrow> int) \<Rightarrow> (incident \<times> bool) act" where
  "transition_with_status E i to_state actor reason severity moment_opt now =
     act_bind (known i) (\<lambda>inc.
       if inc_state inc = to_state then
         (if severity \<noteq> None \<and> severity \<noteq> Some (inc_severity inc)
          then act_raise (ValueError ''severity cannot change on a same-state transition'')
          else act_bind (reload_canonical E i) (\<lambda>canonical.
            if inc_state canonical \<noteq> to_state
            then act_raise (IncidentWriteConflictError ''stale same-state transition'')
            else act_return (canonical, False)))
       else
         act_bind (act_lift (validate_edge (inc_state inc) to_state)) (\<lambda>_.
           let target = (case severity of Some s \<Rightarrow> s | None \<Rightarrow> inc_severity inc) in
           if target \<noteq> inc_severity inc \<and> \<not> (inc_state inc = RESOLVED \<and> to_state = TRIAGING)
           then act_raise (ValueError ''severity can change only on resolved -> triaging reopen'')
           else let moment = (case moment_opt of Some t \<Rightarrow> t | None \<Rightarrow> now 0) in
             act_bind (act_lift (incident_transition_init i (inc_state inc) to_state actor moment reason))
               (\<lambda>transition.
             act_bind (persist E (transition_audit_entry E transition inc target) i) (\<lambda>status.
               if status = DUPLICATE then
                 act_bind (reload_canonical E i) (\<lambda>canonical.
                   if inc_state canonical \<noteq> to_state \<or> inc_severity canonical \<noteq> target
                   then act_raise (IncidentWriteConflictError
                     ''canonical incident differs after duplicate transition'')
                   else act_return (canonical, False))
               else
                 (let updated = apply_incident_transition inc transition (Some target) in
                  act_bind (put_incident i updated) (\<lambda>_. act_return (updated, True)))))))"

definition assign_with_status ::
  "incident_env \<Rightarrow> string \<Rightarrow> string option \<Rightarrow> string \<Rightarrow> int option \<Rightarrow> (nat \<Rightarrow> int) \<Rightarrow>
     (incident \<times> bool) act" where
  "assign_with_status E i assignee actor moment_opt now =
     (let target = some_text (Some (py_strip (case assignee of None \<Rightarrow> [] | Some a \<Rightarrow> a))) in
      act_bind (known i) (\<lambda>inc.
        if inc_assignee inc = target then
          act_bind (reload_canonical E i) (\<lambda>canonical.
            if inc_assignee canonical \<noteq> target
            then act_raise (IncidentWriteConflictError ''stale same-assignee mutation'')
            else act_return (canonical, False))
        else
          act_bind (act_lift (assignment_audit_entry E inc target actor
              (case moment_opt of Some t \<Rightarrow> t | None \<Rightarrow> now 0))) (\<lambda>entry.
          act_bind (persist E entry i) (\<lambda>status.
            if status = DUPLICATE
            then act_bind (reload_canonical E i) (\<lambda>canonical. act_return (canonical, False))
            else act_bind (put_incident i (inc\<lparr>inc_assignee := target\<rparr>)) (\<lambda>_.
              act_return (inc\<lparr>inc_assignee := target\<rparr>, True))))))"

definition link_ticket ::
  "incident_env \<Rightarrow> string \<Rightarrow> string \<Rightarrow> string \<Rightarrow> string \<Rightarrow> string option \<Rightarrow> int option \<Rightarrow> (nat \<Rightarrow> int) \<Rightarrow>
     ticket_link act" where
  "link_ticket E i provider ticket actor url moment_opt now =
     (let provider = py_lower (py_strip provider); ticket = py_strip ticket;
          url = some_text (Some (py_strip (case url of None \<Rightarrow> [] | Some u \<Rightarrow> u)))
      in if provider = [] then act_raise (ValueError ''ticket provider MUST be non-empty'')
         else if ticket = [] then act_raise (ValueError ''ticket_id MUST be non-empty'')
         else if (case url of None \<Rightarrow> False | Some u \<Rightarrow> \<not> starts_with ''https://'' u)
         then act_raise (ValueError ''ticket_url MUST use https://'')
         else act_bind (known i) (\<lambda>_.
           act_bind (act_lift (ticket_link_init i provider ticket url
               (case moment_opt of Some t \<Rightarrow> t | None \<Rightarrow> now 0) actor)) (\<lambda>link.
           act_bind (persist E (ticket_audit_entry E link) i) (\<lambda>_. act_return link))))"

text \<open>\<open>rehydrate\<close> at startup: a malformed log leaves the index unchanged.\<close>

definition registry_rehydrate :: "incident_env \<Rightarrow> nat act" where
  "registry_rehydrate E w = (case rehydrate_incidents E (read_incident_transitions (snd w)) of
     Inl e \<Rightarrow> (Inl e, w)
   | Inr restored \<Rightarrow> (Inr (length restored), (restored, snd w)))"

end
