(* ===== verification/IncidentRefinement.thy ===== *)
theory IncidentRefinement
  imports IncidentRegistry
begin

text \<open>
  The live index of a registry that is the only writer of its log is, after every call,
  exactly what replaying the log gives. The invariant \<open>synced\<close> is kept by each operation;
  the step system of the calls is an instance of \<open>safe_system\<close>.
\<close>

section \<open>The invariant\<close>

definition tidy :: "index \<Rightarrow> bool" where
  "tidy d = (distinct (dict_keys d) \<and> (\<forall>i inc. dict_get d i = Some inc \<longrightarrow>
     inc_id inc = i \<and> distinct (inc_members inc) \<and> inc_assignee inc \<noteq> Some []))"

definition synced :: "incident_env \<Rightarrow> registry_world \<Rightarrow> bool" where
  "synced E w = (rehydrate_incidents E (st_rows (snd w)) = Inr (fst w) \<and> tidy (fst w))"

lemma tidyD:
  assumes "tidy d" and "dict_get d i = Some inc"
  shows "inc_id inc = i" "distinct (inc_members inc)" "inc_assignee inc \<noteq> Some []"
  using assms unfolding tidy_def by blast+

lemma tidy_set:
  "tidy d \<Longrightarrow> inc_id inc = i \<Longrightarrow> distinct (inc_members inc) \<Longrightarrow> inc_assignee inc \<noteq> Some [] \<Longrightarrow>
     tidy (dict_set d i inc)"
  unfolding tidy_def by (auto simp del: map_of_eq_Some_iff)

lemma synced_empty: "synced E ([], empty_store)"
  by (simp add: synced_def empty_store_def tidy_def rehydrate_incidents_def)

lemma reload_synced:
  "synced E w \<Longrightarrow> reload_canonical E i w = (case dict_get (fst w) i of
     None \<Rightarrow> (Inl (IncidentWriteConflictError ''canonical incident missing after duplicate''), w)
   | Some inc \<Rightarrow> (Inr inc, w))"
  by (cases w) (simp add: reload_canonical_def synced_def read_incident_transitions_def
      split: option.splits)

lemma reload_known: "synced E w \<Longrightarrow> dict_get (fst w) i = Some inc \<Longrightarrow> reload_canonical E i w = (Inr inc, w)"
  by (simp add: reload_synced)

definition with_row :: "registry_world \<Rightarrow> incident_row \<Rightarrow> registry_world" where
  "with_row w r = (fst w, (snd w)\<lparr>st_rows := st_rows (snd w) @ [r]\<rparr>)"

lemma append_transition_cases:
  assumes "append_incident_transition entry st = (r, st')"
  shows "(r = Inr APPLIED \<and> st' = st\<lparr>st_rows := st_rows st @ [entry]\<rparr>) \<or> (r \<noteq> Inr APPLIED \<and> st' = st)"
  using assms
  by (auto simp: append_incident_transition_def split: if_splits sum.splits append_status.splits)

lemma reload_on_conflict_synced:
  assumes "synced E w" and "m w = (r, w')" and "\<And>e. r = Inl e \<Longrightarrow> w' = w"
  shows "\<exists>r'. reload_on_conflict E i m w = (r', w') \<and> (r = Inr x \<longleftrightarrow> r' = Inr x)"
proof (cases "\<exists>e. r = Inl (IncidentWriteConflictError e)")
  case True
  then show ?thesis using assms
    by (auto simp: reload_on_conflict_def act_bind_def reload_synced act_raise_def
        split: option.splits)
next
  case False
  then show ?thesis using assms
    by (auto simp: reload_on_conflict_def split: sum.splits exc.splits)
qed

lemma persist_synced:
  assumes "synced E w" and "persist E entry i w = (r, w')"
  shows "(r = Inr APPLIED \<and> w' = with_row w entry) \<or> (r \<noteq> Inr APPLIED \<and> w' = w)"
proof -
  obtain r1 st1 where a: "append_incident_transition entry (snd w) = (r1, st1)"
    by (metis surj_pair)
  note c = append_transition_cases [OF a]
  have "r1 = Inl e \<Longrightarrow> (fst w, st1) = w" for e using c by auto
  from reload_on_conflict_synced [OF assms(1), of "\<lambda>w. case append_incident_transition entry (snd w)
      of (r, st) \<Rightarrow> (r, (fst w, st))" r1 "(fst w, st1)" i APPLIED, OF _ this] assms(2) c
  show ?thesis by (auto simp: persist_def a with_row_def)
qed

lemma synced_put:
  assumes "synced E w" and "replay_row E (fst w) entry = Inr d" and "tidy d"
  shows "synced E (d, snd (with_row w entry))"
  using assms rehydrate_snoc by (auto simp: synced_def with_row_def)

section \<open>Escalation\<close>

lemma severity_row_replays:
  assumes "severity_audit_entry inc target actor moment = Inr entry"
    and "dict_get d (inc_id inc) = Some inc"
    and "severity_rank target < severity_rank (inc_severity inc)"
  shows "replay_row E d entry = Inr (dict_set d (inc_id inc) (inc\<lparr>inc_severity := target\<rparr>))"
  using assms
  by (auto simp: severity_audit_entry_def bind_res_Inr replay_row_def lookup_def)

definition escalated :: "registry_world \<Rightarrow> string \<Rightarrow> (incident \<times> bool \<times> incident_severity option) res \<Rightarrow> bool" where
  "escalated w i r = (case r of Inl _ \<Rightarrow> True
     | Inr (inc, _) \<Rightarrow> dict_get (fst w) i = Some inc)"

lemma escalate_synced:
  "synced E w \<Longrightarrow> dict_get (fst w) i = Some inc \<Longrightarrow>
     escalate_attempts E n inc target actor moment w = (r, w') \<Longrightarrow> synced E w' \<and> escalated w' i r"
proof (induction n arbitrary: inc)
  case 0
  then show ?case by (auto simp: act_raise_def escalated_def)
next
  case (Suc n)
  note S = Suc.prems
  have i: "inc_id inc = i" and t: "tidy (fst w)"
    using S(1,2) tidyD(1) by (auto simp: synced_def)
  show ?case
  proof (cases "severity_rank target \<ge> severity_rank (inc_severity inc)")
    case True
    with S show ?thesis by (auto simp: act_return_def escalated_def)
  next
    case less: False
    show ?thesis
    proof (cases "severity_audit_entry inc target actor moment")
      case (Inl e)
      with S less show ?thesis by (auto simp: act_bind_def act_lift_def escalated_def)
    next
      case (Inr entry)
      obtain s w1 where p: "persist E entry i w = (s, w1)" by (metis surj_pair)
      consider "s = Inr APPLIED" "w1 = with_row w entry" | "s \<noteq> Inr APPLIED" "w1 = w"
        using persist_synced [OF S(1) p] by blast
      then show ?thesis
      proof cases
        case 1
        let ?d = "dict_set (fst w) i (inc\<lparr>inc_severity := target\<rparr>)"
        have "replay_row E (fst w) entry = Inr ?d"
          using severity_row_replays [OF Inr] S(2) i less by simp
        moreover have "tidy ?d"
          using tidyD [OF t S(2)] t by (simp add: tidy_set)
        ultimately have "synced E (?d, snd (with_row w entry))" using synced_put S(1) by blast
        with S(3) less Inr p 1 i show ?thesis
          by (auto simp: act_bind_def act_lift_def put_incident_def act_return_def escalated_def
              with_row_def)
      next
        case 2
        note rl = reload_known [OF S(1,2)]
        have retry: "escalate_attempts E n inc target actor moment w = (r, w') \<Longrightarrow> ?thesis"
          using Suc.IH [OF S(1,2)] by simp
        from S(3) less Inr p 2 i rl retry S(1,2) show ?thesis
          by (cases s rule: sum.exhaust;
              auto simp: act_bind_def act_lift_def act_return_def escalated_def
              split: exc.splits append_status.splits)
      qed
    qed
  qed
qed

section \<open>Joining an existing incident\<close>

lemma act_bind_eq:
  "act_bind m f w = (r, w') \<longleftrightarrow>
     (\<exists>e. m w = (Inl e, w') \<and> r = Inl e) \<or> (\<exists>x w1. m w = (Inr x, w1) \<and> f x w1 = (r, w'))"
  by (auto simp: act_bind_def split: prod.splits sum.splits)

lemma act_simps:
  "act_lift x w = (r, w') \<longleftrightarrow> r = x \<and> w' = w"
  "act_return y w = (q, w') \<longleftrightarrow> q = Inr y \<and> w' = w"
  "act_raise e w = (q, w') \<longleftrightarrow> q = Inl e \<and> w' = w"
  "put_incident i inc w = (u, w') \<longleftrightarrow> u = Inr () \<and> w' = (dict_set (fst w) i inc, snd w)"
  by (auto simp: act_lift_def act_return_def act_raise_def put_incident_def)

lemma lift_bind_eq:
  "act_bind (act_lift q) f w = (r, w') \<longleftrightarrow>
     (\<exists>e. q = Inl e \<and> r = Inl e \<and> w' = w) \<or> (\<exists>x. q = Inr x \<and> f x w = (r, w'))"
  by (cases q) (auto simp: act_bind_def act_lift_def)

lemmas act_eqs = act_bind_eq act_simps

lemma synced_tidy: "synced E w \<Longrightarrow> tidy (fst w)"
  by (simp add: synced_def)

lemma filter_fromkeys: "fromkeys (filter P xs) = filter P (fromkeys xs)"
proof (induction xs)
  case (Cons x xs)
  have "filter P (filter (\<lambda>y. y \<noteq> x) (fromkeys xs)) = filter (\<lambda>y. y \<noteq> x) (filter P (fromkeys xs))"
    by (simp add: conj_commute)
  moreover have "\<not> P x \<Longrightarrow> filter (\<lambda>y. y \<noteq> x) (filter P (fromkeys xs)) = filter P (fromkeys xs)"
    by (auto intro: filter_cong)
  ultimately show ?case using Cons by (simp del: filter_filter)
qed simp

lemma fromkeys_extend:
  assumes "distinct old" and "distinct added" and "set old \<inter> set added = {}"
  shows "fromkeys (old @ added) = old @ added"
  using assms by (intro fromkeys_id) simp

lemma members_row_replays:
  assumes "members_audit_entry E (inc\<lparr>inc_members := ms\<rparr>) added actor moment = Inr entry"
    and "dict_get d (inc_id inc) = Some inc" and "distinct (inc_members inc)"
    and "distinct added" and "set (inc_members inc) \<inter> set added = {}"
    and "added \<noteq> []" and "[] \<notin> set added"
  shows "replay_row E d entry =
    Inr (dict_set d (inc_id inc) (inc\<lparr>inc_members := inc_members inc @ added\<rparr>))"
  using assms fromkeys_extend [OF assms(3,4,5)]
  by (auto simp: members_audit_entry_def bind_res_Inr replay_row_def lookup_def required_texts_def
      list_ex_iff)

text \<open>A write of one row, then of the live record: the pattern of every mutation.\<close>

lemma persist_put_synced:
  assumes "synced E w" and "persist E entry i w = (Inr APPLIED, w1)"
    and "replay_row E (fst w) entry = Inr (dict_set (fst w) j inc)"
    and "inc_id inc = j" "distinct (inc_members inc)" "inc_assignee inc \<noteq> Some []"
  shows "synced E (dict_set (fst w1) j inc, snd w1)"
proof -
  have w1: "w1 = with_row w entry" using persist_synced [OF assms(1,2)] by simp
  have "tidy (dict_set (fst w) j inc)"
    using assms(4-6) synced_tidy [OF assms(1)] by (simp add: tidy_set)
  from synced_put [OF assms(1,3) this] show ?thesis by (simp add: w1 with_row_def)
qed

lemma persist_other_synced:
  "synced E w \<Longrightarrow> persist E entry i w = (r, w1) \<Longrightarrow> r \<noteq> Inr APPLIED \<Longrightarrow> w1 = w"
  using persist_synced by blast

lemma escalate_needed_synced:
  "synced E w \<Longrightarrow> dict_get (fst w) i = Some inc \<Longrightarrow>
     escalate_severity_if_needed E inc target actor moment w = (r, w') \<Longrightarrow>
     synced E w' \<and> escalated w' i r"
  unfolding escalate_severity_if_needed_def by (rule escalate_synced)

lemma reload_keeps: "synced E w \<Longrightarrow> reload_canonical E i w = (r, w') \<Longrightarrow> w' = w"
  by (auto simp: reload_synced split: option.splits)

definition steady :: "'a act \<Rightarrow> bool" where
  "steady m = (\<forall>w r w'. m w = (r, w') \<longrightarrow> w' = w)"

lemma steady_simps [simp]:
  "steady (act_return x)" "steady (act_raise e)" "steady (act_lift r)"
  "steady (if c then m else n) \<longleftrightarrow> (if c then steady m else steady n)"
  by (simp_all add: steady_def act_simps)

lemma steadyD: "steady m \<Longrightarrow> m w = (r, w') \<Longrightarrow> w' = w"
  unfolding steady_def by blast

lemma reload_then_keeps:
  assumes "synced E w" and f: "\<And>c. steady (f c)"
    and run: "act_bind (reload_canonical E i) f w = (r, w')"
  shows "w' = w"
proof -
  obtain q w1 where q: "reload_canonical E i w = (q, w1)" by (metis surj_pair)
  have "w1 = w" using reload_keeps [OF assms(1) q] .
  with q run show ?thesis by (cases q) (auto simp: act_bind_eq dest: steadyD [OF f])
qed

definition write_incident ::
  "incident_env \<Rightarrow> string \<Rightarrow> incident_row \<Rightarrow> (incident \<Rightarrow> 'a act) \<Rightarrow> string \<Rightarrow> incident \<Rightarrow> 'a \<Rightarrow> 'a act" where
  "write_incident E i entry f j inc y = act_bind (persist E entry i) (\<lambda>status.
     if status = DUPLICATE then act_bind (reload_canonical E i) f
     else act_bind (put_incident j inc) (\<lambda>_. act_return y))"

lemma write_synced:
  assumes w: "synced E w" and rep: "replay_row E (fst w) entry = Inr (dict_set (fst w) j inc)"
    and inc: "inc_id inc = j" "distinct (inc_members inc)" "inc_assignee inc \<noteq> Some []"
    and f: "\<And>c. steady (f c)"
    and run: "write_incident E i entry f j inc y w = (r, w')"
  shows "synced E w'"
proof -
  obtain s w1 where s: "persist E entry i w = (s, w1)" by (metis surj_pair)
  consider (app) "s = Inr APPLIED" | (dup) "s = Inr DUPLICATE" | (err) e where "s = Inl e"
    by (metis append_status.exhaust sum.exhaust)
  then show ?thesis
  proof cases
    case app
    with s persist_put_synced [OF w _ rep inc] run show ?thesis
      by (auto simp: write_incident_def act_eqs)
  next
    case dup
    then have "w1 = w" using persist_other_synced [OF w s] by simp
    with dup s run have "act_bind (reload_canonical E i) f w = (r, w')"
      by (simp add: write_incident_def act_bind_def)
    with w show ?thesis by (metis reload_then_keeps f)
  next
    case err
    then have "w1 = w" using persist_other_synced [OF w s] by simp
    with err s run w show ?thesis by (auto simp: write_incident_def act_eqs)
  qed
qed

lemma merge_synced:
  assumes w: "synced E w" and inc: "dict_get (fst w) (inc_id inc) = Some inc"
    and ms: "distinct members" "[] \<notin> set members"
    and run: "merge_into_existing E inc severity members actor opened now w = (r, w')"
  shows "synced E w'"
proof -
  let ?m = "case opened of Some t \<Rightarrow> t | None \<Rightarrow> now 0"
  obtain q w1 where esc: "escalate_severity_if_needed E inc severity actor ?m w = (q, w1)"
    by (metis surj_pair)
  have w1: "synced E w1" and q: "escalated w1 (inc_id inc) q"
    using escalate_needed_synced [OF w inc esc] by simp_all
  show ?thesis
  proof (cases q)
    case (Inl e)
    with run esc w1 show ?thesis by (auto simp: merge_into_existing_def act_eqs)
  next
    case (Inr p)
    obtain ex ch pr where p: "p = (ex, ch, pr)" by (cases p)
    let ?added = "filter (\<lambda>m. m \<notin> set (inc_members ex)) members"
    have ex: "dict_get (fst w1) (inc_id inc) = Some ex"
      using q Inr p by (simp add: escalated_def)
    note td = tidyD [OF synced_tidy [OF w1] ex]
    show ?thesis
    proof (cases "?added = []")
      case True
      with run esc Inr p w1 show ?thesis
        by (auto simp: merge_into_existing_def act_eqs Let_def)
    next
      case added: False
      let ?up = "ex\<lparr>inc_members := inc_members ex @ ?added\<rparr>"
      let ?e = "members_audit_entry E ?up ?added actor (case opened of Some t \<Rightarrow> t | None \<Rightarrow> now 1)"
      let ?fin = "\<lambda>i. act_return \<lparr>or_incident = i, or_created = False,
              or_severity_changed = ch, or_previous_severity = pr\<rparr>"
      from run esc Inr p added consider e where "?e = Inl e" "w' = w1"
        | entry where "?e = Inr entry"
          "write_incident E (inc_id inc) entry ?fin (inc_id inc) ?up
            \<lparr>or_incident = ?up, or_created = False, or_severity_changed = ch,
             or_previous_severity = pr\<rparr> w1 = (r, w')"
        by (cases ?e) (auto simp: merge_into_existing_def write_incident_def Let_def
            act_bind_eq [of "escalate_severity_if_needed E inc severity actor _"]
            lift_bind_eq act_simps)
      then show ?thesis
      proof cases
        case 2
        have "replay_row E (fst w1) entry = Inr (dict_set (fst w1) (inc_id inc) ?up)"
          using members_row_replays [OF 2(1)] ex td ms added by auto
        then show ?thesis by (rule write_synced [OF w1 _ _ _ _ _ 2(2)]) (use td ms in auto)
      qed (use w1 in simp)
    qed
  qed
qed

section \<open>Creation\<close>

lemma dropWhile_keep: "u = [] \<or> \<not> P (hd u) \<Longrightarrow> dropWhile P u = u"
  by (cases u) auto

lemma py_strip_idem: "py_strip (py_strip s) = py_strip s"
proof -
  define t where "t = dropWhile py_space s"
  have t: "t = py_strip s @ rev (takeWhile py_space (rev t))"
    by (metis py_strip_def rev_append rev_rev_ident t_def takeWhile_dropWhile_id)
  have "dropWhile py_space (py_strip s) = py_strip s"
  proof (rule dropWhile_keep)
    show "py_strip s = [] \<or> \<not> py_space (hd (py_strip s))"
    proof (cases "py_strip s = []")
      case False
      then have "hd t = hd (py_strip s)" "t \<noteq> []" using t by (metis hd_append2, auto)
      then show ?thesis using hd_dropWhile [of py_space s] t_def by simp
    qed simp
  qed
  then show ?thesis
    by (simp add: py_strip_def [of "py_strip s"]) (simp add: py_strip_def)
qed

lemma canonical_keys:
  assumes "canonical_incident_correlation_keys ks = Inr c"
  shows "canonical_incident_correlation_keys c = Inr c" "sort (remdups c) = c" "[] \<notin> set c"
proof -
  have c: "c = sort (remdups (filter (\<lambda>k. k \<noteq> []) (map py_strip ks)))"
    using assms by (simp add: canonical_incident_correlation_keys_def Let_def split: if_splits)
  have strip: "k \<in> set c \<Longrightarrow> k \<noteq> [] \<and> py_strip k = k" for k
    using c py_strip_idem by auto
  then have m: "filter (\<lambda>k. k \<noteq> []) (map py_strip c) = c"
    by (induction c) auto
  have "distinct c" "sorted c" using c by simp_all
  then show s: "sort (remdups c) = c" by (simp add: distinct_remdups_id sort_key_id_if_sorted)
  show "[] \<notin> set c" using strip by blast
  show "canonical_incident_correlation_keys c = Inr c"
    using assms unfolding canonical_incident_correlation_keys_def m s Let_def c [symmetric]
    by (simp split: if_splits)
qed

lemma ascii_digit_char: "n < 10 \<Longrightarrow> ascii_digit (digit_char n)"
  by (simp add: ascii_digit_def digit_char_def code_point_def)

lemma allocated_number:
  assumes "incident_number_for prefix n = Inr number"
  shows "number_pattern number" "some_text (Some number) = Some number"
proof -
  have n: "number = prefix @ ''-'' @ pad4 (nat n)" and p: "length prefix = 10"
    "take 4 prefix = ''INC-''" "list_all ascii_digit (drop 4 prefix)"
    using assms by (auto simp: incident_number_for_def Let_def split: if_splits)
  have d: "drop 11 number = pad4 (nat n)" "number ! 10 = CHR ''-''"
    using n p(1) by (simp_all add: nth_append)
  have t: "take 6 (drop 4 number) = drop 4 prefix" "take 4 number = ''INC-''"
    using n p(1,2) by simp_all
  show "number_pattern number"
    using d t p n by (simp add: number_pattern_def pad4_def ascii_digit_char)
  show "some_text (Some number) = Some number" using n by (simp add: some_text_def)
qed

lemma append_open_cases:
  assumes "append_incident_open entry prefix st = (r, st')"
  shows "(\<exists>number. r = Inr (APPLIED, Some number) \<and> is_open_row entry \<and>
      incident_number_for prefix (int (st_sequences st prefix)) = Inr number \<and>
      st_rows st' = st_rows st @ [with_number entry number]) \<or>
    ((\<forall>n. r \<noteq> Inr (APPLIED, n)) \<and> st' = st)"
  using assms
  by (auto simp: append_incident_open_def Let_def split: if_splits sum.splits append_status.splits)

lemma persist_open_synced:
  assumes "synced E w" and "persist_open E entry i prefix w = (r, w')"
  shows "(\<exists>number n. r = Inr (APPLIED, Some number) \<and> incident_number_for prefix n = Inr number \<and>
      fst w' = fst w \<and> st_rows (snd w') = st_rows (snd w) @ [with_number entry number]) \<or>
    ((\<forall>n. r \<noteq> Inr (APPLIED, n)) \<and> w' = w)"
proof -
  obtain r1 st1 where a: "append_incident_open entry prefix (snd w) = (r1, st1)"
    by (metis surj_pair)
  note c = append_open_cases [OF a]
  have k: "r1 = Inl e \<Longrightarrow> (fst w, st1) = w" for e using c by auto
  have p: "\<exists>r'. persist_open E entry i prefix w = (r', fst w, st1) \<and> (r1 = Inr x \<longleftrightarrow> r' = Inr x)" for x
    using reload_on_conflict_synced [OF assms(1), of "\<lambda>w. case append_incident_open entry prefix (snd w)
      of (r, st) \<Rightarrow> (r, (fst w, st))" r1 "(fst w, st1)" i x] k
    by (auto simp: persist_open_def a)
  then have "w' = (fst w, st1)" and "\<And>x. r1 = Inr x \<longleftrightarrow> r = Inr x" using assms(2) by auto
  with c show ?thesis by (cases w) auto
qed

lemma not_applied:
  "(\<forall>n. r \<noteq> Inr (APPLIED, n)) \<longleftrightarrow> (\<exists>e. r = Inl e) \<or> (\<exists>n. r = Inr (DUPLICATE, n))"
proof (cases r)
  case (Inr p)
  obtain s n where "p = (s, n)" by (cases p)
  with Inr show ?thesis by (cases s) auto
qed simp

lemma open_row_replays:
  assumes "incident_init i None OPEN severity moment c (fromkeys members) assignee = Inr inc"
    and "open_audit_entry inc actor = Inr entry" and "incident_number_for prefix n = Inr number"
    and "canonical_incident_correlation_keys ks = Inr c" and "incident_id_for E c = Inr i"
    and "[] \<notin> set members" and "assignee \<noteq> Some []" and "dict_get d i = None"
  shows "replay_row E d (with_number entry number) =
    Inr (dict_set d i (inc\<lparr>inc_number := Some number\<rparr>))"
proof -
  note keys = canonical_keys [OF assms(4)]
  have asg: "some_text assignee = assignee"
    using assms(7) by (simp add: some_text_def split: option.splits)
  have mem: "required_texts (fromkeys members) = Inr (fromkeys members)"
    using assms(1,6) by (auto simp: required_texts_def incident_init_def list_ex_iff split: if_splits)
  have ks: "required_texts c = Inr c"
    using assms(1) keys(3) by (auto simp: required_texts_def incident_init_def list_ex_iff split: if_splits)
  show ?thesis
    using assms(1,2,5,8) allocated_number [OF assms(3)] asg mem ks
    by (auto simp: replay_row_def incident_from_open_row_def open_audit_entry_def bind_res_Inr
        incident_init_def split: if_splits)
qed

lemma incident_init_fields:
  assumes "incident_init i n st sev t ks ms asg = Inr inc"
  shows "inc_id inc = i" "inc_members inc = ms" "inc_assignee inc = asg"
  using assms by (auto simp: incident_init_def split: if_splits)

lemma create_synced:
  assumes w: "synced E w" and new: "dict_get (fst w) i = None"
    and keys: "canonical_incident_correlation_keys ks = Inr c" "incident_id_for E c = Inr i"
    and args: "[] \<notin> set members" "assignee \<noteq> Some []"
    and run: "create_incident E i c severity members actor opened assignee prefix now w = (r, w')"
  shows "synced E w'"
proof -
  let ?t = "case opened of Some t \<Rightarrow> t | None \<Rightarrow> now 0"
  note c = canonical_keys [OF keys(1)]
  consider (bad) e where "incident_init i None OPEN severity ?t c (fromkeys members) assignee = Inl e"
    | (bad_row) inc e where "incident_init i None OPEN severity ?t c (fromkeys members) assignee = Inr inc"
      "open_audit_entry inc actor = Inl e"
    | (2) inc entry where "incident_init i None OPEN severity ?t c (fromkeys members) assignee = Inr inc"
      "open_audit_entry inc actor = Inr entry"
    by (metis sum.exhaust)
  then show ?thesis
  proof cases
    case 2
    obtain s w1 where s: "persist_open E entry i prefix w = (s, w1)" by (metis surj_pair)
    consider (app) number n where "s = Inr (APPLIED, Some number)" "incident_number_for prefix n = Inr number"
        "fst w1 = fst w" "st_rows (snd w1) = st_rows (snd w) @ [with_number entry number]"
      | (dup) n where "s = Inr (DUPLICATE, n)" "w1 = w" | (err) e where "s = Inl e" "w1 = w"
      using persist_open_synced [OF w s] unfolding not_applied by blast
    then show ?thesis
    proof cases
      case app
      let ?inc = "inc\<lparr>inc_number := Some number\<rparr>"
      have "replay_row E (fst w) (with_number entry number) = Inr (dict_set (fst w) i ?inc)"
        by (rule open_row_replays [OF 2 app(2) keys args new])
      then have "rehydrate_incidents E (st_rows (snd w1)) = Inr (dict_set (fst w) i ?inc)"
        using rehydrate_snoc w app(4) by (simp add: synced_def)
      moreover have "tidy (dict_set (fst w) i ?inc)"
        using incident_init_fields [OF 2(1)] args synced_tidy [OF w] by (simp add: tidy_set)
      ultimately show ?thesis
        using run 2 s app c(2)
        by (auto simp: create_incident_def Let_def act_eqs synced_def)
    next
      case dup
      have "reload_canonical E i w = (Inl (IncidentWriteConflictError ''canonical incident missing after duplicate''), w)"
        using reload_synced [OF w] new by simp
      then show ?thesis
        using run 2 s dup c(2) w by (auto simp: create_incident_def Let_def act_eqs)
    next
      case err
      then show ?thesis using run 2 s c(2) w by (auto simp: create_incident_def Let_def act_eqs)
    qed
  next
    case bad
    then have "w' = w" using run c(2) by (simp add: create_incident_def Let_def act_eqs)
    with w show ?thesis by simp
  next
    case bad_row
    then have "w' = w" using run c(2) by (simp add: create_incident_def Let_def act_eqs)
    with w show ?thesis by simp
  qed
qed

section \<open>The operations keep the invariant\<close>

lemma tidy_value: "tidy d \<Longrightarrow> inc \<in> set (dict_values d) \<Longrightarrow> dict_get d (inc_id inc) = Some inc"
  unfolding tidy_def by (metis (no_types, lifting) imageE map_of_is_SomeI prod.collapse set_map)

lemma active_incident_known:
  assumes "tidy d" and "active_incident_for_episode d keys = Inr (Some inc)"
  shows "dict_get d (inc_id inc) = Some inc"
proof (rule tidy_value [OF assms(1)])
  define xs where "xs = filter (\<lambda>inc. inc_state inc \<noteq> RESOLVED \<and> inc_state inc \<noteq> CLOSED \<and>
                base_keys (inc_keys inc) = base_keys keys) (dict_values d)"
  have "inc \<in> set xs"
    using assms(2) unfolding active_incident_for_episode_def xs_def [symmetric]
    by (auto split: if_splits list.splits)
  then show "inc \<in> set (dict_values d)" by (simp add: xs_def)
qed

lemma open_synced:
  assumes w: "synced E w" and args: "distinct members" "[] \<notin> set members" "assignee \<noteq> Some []"
    and run: "open_with_status E ks severity members actor opened assignee prefix now w = (r, w')"
  shows "synced E w'"
proof -
  from run consider "w' = w"
    | c i where "canonical_incident_correlation_keys ks = Inr c" "incident_id_for E c = Inr i"
      "(case (case dict_get (fst w) i of Some inc \<Rightarrow> Inr (Some inc)
             | None \<Rightarrow> active_incident_for_episode (fst w) c) of
         Inl e \<Rightarrow> act_raise e
       | Inr (Some existing) \<Rightarrow> merge_into_existing E existing severity members actor opened now
       | Inr None \<Rightarrow> create_incident E i c severity members actor opened assignee prefix now) w
       = (r, w')"
    by (auto simp: open_with_status_def act_simps lift_bind_eq split: if_splits)
  then show ?thesis
  proof cases
    case (2 c i)
    show ?thesis
    proof (cases "dict_get (fst w) i")
      case (Some inc)
      then have "inc_id inc = i" using tidyD(1) [OF synced_tidy [OF w]] by simp
      with merge_synced [OF w _ args(1,2), of inc severity actor opened now r w'] 2 Some
      show ?thesis by simp
    next
      case None
      show ?thesis
      proof (cases "active_incident_for_episode (fst w) c")
        case (Inr opt)
        show ?thesis
        proof (cases opt)
          case opt: None
          with 2 None Inr create_synced [OF w None 2(1,2) args(2,3)] show ?thesis by simp
        next
          case (Some inc)
          with Inr active_incident_known [OF synced_tidy [OF w]]
          have "dict_get (fst w) (inc_id inc) = Some inc" by simp
          with merge_synced [OF w _ args(1,2), of inc severity actor opened now r w'] 2 None Inr Some
          show ?thesis by simp
        qed
      qed (use 2 None w in \<open>auto simp: act_simps\<close>)
    qed
  qed (use w in simp)
qed

lemma apply_transition_fields [simp]:
  "inc_id (apply_incident_transition inc t s) = inc_id inc"
  "inc_members (apply_incident_transition inc t s) = inc_members inc"
  "inc_assignee (apply_incident_transition inc t s) = inc_assignee inc"
  by (auto simp: apply_incident_transition_def Let_def split: incident_state.splits option.splits)

lemma apply_transition_reason:
  "apply_incident_transition inc (t\<lparr>tr_reason := some_text (tr_reason t)\<rparr>) s =
     apply_incident_transition inc t s"
  by (auto simp: apply_incident_transition_def Let_def some_text_def
      split: incident_state.splits option.splits)

lemma transition_row_replays:
  assumes "incident_transition_init i (inc_state inc) target actor moment reason = Inr t"
    and "dict_get d i = Some inc" and "validate_edge (inc_state inc) target = Inr ()"
    and "severity \<noteq> inc_severity inc \<longrightarrow> inc_state inc = RESOLVED \<and> target = TRIAGING"
  shows "replay_row E d (transition_audit_entry E t inc severity) =
    Inr (dict_set d i (apply_incident_transition inc t (Some severity)))"
proof -
  have "actor \<noteq> []" using assms(1) by (auto simp: incident_transition_init_def py_strip_def split: if_splits)
  moreover have t: "t = \<lparr>tr_id = i, tr_from = inc_state inc, tr_to = target, tr_actor = actor,
      tr_at = moment, tr_reason = reason\<rparr>" "py_strip actor \<noteq> []"
    using assms(1) by (auto simp: incident_transition_init_def split: if_splits)
  ultimately show ?thesis
    using assms(2-4) apply_transition_reason [of inc t "Some severity"]
    by (auto simp: transition_audit_entry_def replay_row_def lookup_def required_text_def
        incident_transition_init_def)
qed

lemma known_eq:
  "known i w = (r, w') \<longleftrightarrow> w' = w \<and> r = (case dict_get (fst w) i of
     None \<Rightarrow> Inl (KeyError ''unknown incident_id'') | Some inc \<Rightarrow> Inr inc)"
  by (auto simp: known_def split: option.splits)

lemma transition_synced:
  assumes w: "synced E w"
    and run: "transition_with_status E i target actor reason severity moment now w = (r, w')"
  shows "synced E w'"
proof (cases "dict_get (fst w) i")
  case None
  with run w show ?thesis by (auto simp: transition_with_status_def act_bind_eq known_eq)
next
  case (Some inc)
  note td = tidyD [OF synced_tidy [OF w] Some]
  let ?sev = "case severity of Some s \<Rightarrow> s | None \<Rightarrow> inc_severity inc"
  let ?t = "case moment of Some t \<Rightarrow> t | None \<Rightarrow> now 0"
  show ?thesis
  proof (cases "inc_state inc = target")
    case True
    define stale where "stale = (\<lambda>canonical. if inc_state canonical \<noteq> target
      then act_raise (IncidentWriteConflictError ''stale same-state transition'')
      else act_return (canonical, False) :: (incident \<times> bool) act)"
    have "steady (stale c)" for c by (simp add: stale_def)
    moreover have "w' = w \<or> act_bind (reload_canonical E i) stale w = (r, w')"
      using run Some True
      by (auto simp: transition_with_status_def act_bind_eq [of "known i"] known_eq act_simps
          stale_def [symmetric] split: if_splits)
    ultimately have "w' = w" using reload_then_keeps [OF w] by blast
    with w show ?thesis by simp
  next
    case False
    define fin where "fin = (\<lambda>canonical. if inc_state canonical \<noteq> target \<or> inc_severity canonical \<noteq> ?sev
      then act_raise (IncidentWriteConflictError ''canonical incident differs after duplicate transition'')
      else act_return (canonical, False) :: (incident \<times> bool) act)"
    note unfold = transition_with_status_def act_bind_def known_def act_lift_def act_raise_def Let_def
    have unit: "validate_edge (inc_state inc) target = Inr u \<Longrightarrow>
        validate_edge (inc_state inc) target = Inr ()" for u by simp
    consider (edge) e where "validate_edge (inc_state inc) target = Inl e"
      | (sev) "validate_edge (inc_state inc) target = Inr ()" "?sev \<noteq> inc_severity inc"
        "\<not> (inc_state inc = RESOLVED \<and> target = TRIAGING)"
      | (init) e where "validate_edge (inc_state inc) target = Inr ()"
        "?sev \<noteq> inc_severity inc \<longrightarrow> inc_state inc = RESOLVED \<and> target = TRIAGING"
        "incident_transition_init i (inc_state inc) target actor ?t reason = Inl e"
      | (ok) t where "validate_edge (inc_state inc) target = Inr ()"
        "?sev \<noteq> inc_severity inc \<longrightarrow> inc_state inc = RESOLVED \<and> target = TRIAGING"
        "incident_transition_init i (inc_state inc) target actor ?t reason = Inr t"
      by (cases "validate_edge (inc_state inc) target"; cases "incident_transition_init i
          (inc_state inc) target actor ?t reason") (use unit in blast)+
    then show ?thesis
    proof cases
      case edge
      with run Some False w show ?thesis by (simp add: unfold)
    next
      case sev
      with run Some False have "w' = w" by (simp add: unfold)
      with w show ?thesis by simp
    next
      case init
      with run Some False have "w' = w"
        by (cases "?sev = inc_severity inc") (simp_all add: unfold)
      with w show ?thesis by simp
    next
      case (ok t)
      have "transition_with_status E i target actor reason severity moment now w =
          write_incident E i (transition_audit_entry E t inc ?sev) fin i
           (apply_incident_transition inc t (Some ?sev))
           (apply_incident_transition inc t (Some ?sev), True) w"
        using Some False ok
        by (cases "?sev = inc_severity inc")
          (simp_all add: transition_with_status_def write_incident_def fin_def Let_def act_bind_def
            known_def act_lift_def split: prod.split sum.split)
      from this [symmetric] run have wr: "write_incident E i (transition_audit_entry E t inc ?sev)
           fin i (apply_incident_transition inc t (Some ?sev))
           (apply_incident_transition inc t (Some ?sev), True) w = (r, w')"
        by (rule trans)
      have "steady (fin c)" for c by (simp add: fin_def)
      from write_synced [OF w transition_row_replays [OF ok(3) Some ok(1,2)] _ _ _ this wr] td
      show ?thesis by simp
    qed
  qed
qed

lemma assigned_row_replays:
  assumes "assignment_audit_entry E inc target actor moment = Inr entry"
    and "dict_get d (inc_id inc) = Some inc" and "inc_assignee inc \<noteq> target"
    and "target \<noteq> Some []" and "inc_assignee inc \<noteq> Some []"
  shows "replay_row E d entry = Inr (dict_set d (inc_id inc) (inc\<lparr>inc_assignee := target\<rparr>))"
proof -
  have "some_text target = target" "some_text (inc_assignee inc) = inc_assignee inc"
    using assms(4,5) by (auto simp: some_text_def split: option.splits)
  then show ?thesis using assms(1-3)
    by (auto simp: assignment_audit_entry_def bind_res_Inr replay_row_def lookup_def Let_def)
qed

lemma some_text_ne [simp]: "some_text v \<noteq> Some []"
  by (auto simp: some_text_def split: option.splits)

lemma assign_synced:
  assumes w: "synced E w" and run: "assign_with_status E i assignee actor moment now w = (r, w')"
  shows "synced E w'"
proof (cases "dict_get (fst w) i")
  case None
  with run w show ?thesis by (simp add: assign_with_status_def act_bind_eq known_eq Let_def)
next
  case (Some inc)
  note td = tidyD [OF synced_tidy [OF w] Some]
  define target where "target = some_text (Some (py_strip (case assignee of None \<Rightarrow> [] | Some a \<Rightarrow> a)))"
  let ?t = "case moment of Some t \<Rightarrow> t | None \<Rightarrow> now 0"
  note unfold = assign_with_status_def act_bind_def known_def target_def [symmetric] Let_def
  show ?thesis
  proof (cases "inc_assignee inc = target")
    case True
    define stale where "stale = (\<lambda>canonical. if inc_assignee canonical \<noteq> target
      then act_raise (IncidentWriteConflictError ''stale same-assignee mutation'')
      else act_return (canonical, False) :: (incident \<times> bool) act)"
    have "steady (stale c)" for c by (simp add: stale_def)
    moreover have "act_bind (reload_canonical E i) stale w = (r, w')"
      using run Some True by (simp add: unfold stale_def)
    ultimately have "w' = w" using reload_then_keeps [OF w] by blast
    with w show ?thesis by simp
  next
    case False
    define fin where "fin = (\<lambda>canonical. act_return (canonical, False) :: (incident \<times> bool) act)"
    show ?thesis
    proof (cases "assignment_audit_entry E inc target actor ?t")
      case (Inl e)
      with run Some False have "w' = w" by (simp add: unfold act_lift_def)
      with w show ?thesis by simp
    next
      case (Inr entry)
      with run Some False have wr: "write_incident E i entry fin i (inc\<lparr>inc_assignee := target\<rparr>)
          (inc\<lparr>inc_assignee := target\<rparr>, True) w = (r, w')"
        by (simp add: unfold act_lift_def write_incident_def fin_def)
      have tgt: "target \<noteq> Some []" by (simp add: target_def)
      have "replay_row E (fst w) entry = Inr (dict_set (fst w) i (inc\<lparr>inc_assignee := target\<rparr>))"
        using assigned_row_replays [OF Inr _ False tgt td(3)] Some td(1) by simp
      moreover have "steady (fin c)" for c by (simp add: fin_def)
      ultimately show ?thesis
        using td tgt by (intro write_synced [OF w _ _ _ _ _ wr]) simp_all
    qed
  qed
qed

lemma ticket_row_replays:
  "dict_get d (tl_incident l) = Some inc \<Longrightarrow> replay_row E d (ticket_audit_entry E l) = Inr d"
  by (simp add: ticket_audit_entry_def replay_row_def lookup_def)

lemma link_synced:
  assumes w: "synced E w" and run: "link_ticket E i provider ticket actor url moment now w = (r, w')"
  shows "synced E w'"
proof -
  let ?p = "py_lower (py_strip provider)" and ?k = "py_strip ticket"
  let ?u = "some_text (Some (py_strip (case url of None \<Rightarrow> [] | Some u \<Rightarrow> u)))"
  let ?t = "case moment of Some t \<Rightarrow> t | None \<Rightarrow> now 0"
  note unfold = link_ticket_def act_bind_def known_def act_lift_def act_raise_def Let_def
  consider (bad) "?p = [] \<or> ?k = [] \<or> (case ?u of None \<Rightarrow> False | Some u \<Rightarrow> \<not> starts_with ''https://'' u) \<or>
      dict_get (fst w) i = None \<or> (\<exists>e. ticket_link_init i ?p ?k ?u ?t actor = Inl e)"
    | (ok) inc l where "?p \<noteq> []" "?k \<noteq> []"
      "\<not> (case ?u of None \<Rightarrow> False | Some u \<Rightarrow> \<not> starts_with ''https://'' u)"
      "dict_get (fst w) i = Some inc" "ticket_link_init i ?p ?k ?u ?t actor = Inr l"
    by (cases "dict_get (fst w) i"; cases "ticket_link_init i ?p ?k ?u ?t actor"; blast)
  then show ?thesis
  proof cases
    case bad
    then have "w' = w" using run
      by (cases ?u; cases "dict_get (fst w) i"; cases "ticket_link_init i ?p ?k ?u ?t actor")
        (auto simp: unfold split: if_splits)
    with w show ?thesis by simp
  next
    case ok
    obtain s w1 where s: "persist E (ticket_audit_entry E l) i w = (s, w1)" by (metis surj_pair)
    have "w' = w1" using run ok s
      by (cases s) (auto simp: unfold act_return_def simp del: not_None_eq)
    moreover have "tl_incident l = i"
      using ok(5) by (auto simp: ticket_link_init_def split: if_splits)
    ultimately show ?thesis
      using persist_synced [OF w s] synced_put [OF w ticket_row_replays synced_tidy [OF w], of l inc] ok(4) w
      by (auto simp: with_row_def)
  qed
qed

lemma rehydrate_synced:
  "synced E w \<Longrightarrow> registry_rehydrate E w = (r, w') \<Longrightarrow> w' = w"
  by (cases w) (auto simp: registry_rehydrate_def synced_def read_incident_transitions_def)

section \<open>The system of the calls\<close>

text \<open>
  Any sequence of calls on one registry that starts with an empty log. The arguments a caller
  must respect are those of the event identifiers (distinct, not empty texts) and of the
  assignee of an opening (a text that is not empty, or none).
\<close>

inductive incident_step :: "incident_env \<Rightarrow> registry_world \<Rightarrow> registry_world \<Rightarrow> bool"
  for E :: incident_env where
  step_open: "distinct members \<Longrightarrow> [] \<notin> set members \<Longrightarrow> assignee \<noteq> Some [] \<Longrightarrow>
    open_with_status E ks severity members actor opened assignee prefix now w = (r, w') \<Longrightarrow>
    incident_step E w w'"
| step_transition: "transition_with_status E i target actor reason severity moment now w = (r', w') \<Longrightarrow>
    incident_step E w w'"
| step_assign: "assign_with_status E i assignee actor moment now w = (r', w') \<Longrightarrow> incident_step E w w'"
| step_ticket: "link_ticket E i provider ticket actor url moment now w = (r'', w') \<Longrightarrow>
    incident_step E w w'"
| step_rehydrate: "registry_rehydrate E w = (q, w') \<Longrightarrow> incident_step E w w'"

definition incident_start :: "registry_world \<Rightarrow> bool" where
  "incident_start w = (w = ([], empty_store))"

interpretation incidents: safe_system incident_start "incident_step E" "synced E" for E
proof
  show "incident_start w \<Longrightarrow> synced E w" for w
    by (simp add: incident_start_def synced_empty)
  show "synced E w \<Longrightarrow> incident_step E w w' \<Longrightarrow> synced E w'" for w w'
    by (erule incident_step.cases)
      (auto dest: open_synced transition_synced assign_synced link_synced rehydrate_synced)
qed


end
