(* ===== verification/IncidentHistory.thy ===== *)
theory IncidentHistory
  imports IncidentRefinement
begin

text \<open>
  What the log guarantees over time (an incident only moves along the edges of the state
  machine, redelivered calls change nothing) and where the guarantees end: two registries on
  one log, an escalation after a lowered reopening, and repeated members.
\<close>

section \<open>Histories follow the state machine\<close>

definition legal_edge :: "incident_state \<Rightarrow> incident_state \<Rightarrow> bool" where
  "legal_edge s t = (t \<in> legal_transitions s)"

lemma apply_transition_state [simp]:
  "inc_state (apply_incident_transition inc t s) = tr_to t"
  by (auto simp: apply_incident_transition_def Let_def split: incident_state.splits option.splits)

lemma legal_edge_path: "t \<in> legal_transitions s \<Longrightarrow> legal_edge\<^sup>*\<^sup>* s t"
  by (rule r_into_rtranclp) (simp add: legal_edge_def)

lemma merge_open_state: "merge_replayed_open old new = Inr m \<Longrightarrow> inc_state m = inc_state old"
  by (auto simp: merge_replayed_open_def split: if_splits)

lemma replay_row_edge:
  assumes "replay_row E d r = Inr d'" and "dict_get d i = Some inc"
  shows "\<exists>inc'. dict_get d' i = Some inc' \<and> legal_edge\<^sup>*\<^sup>* (inc_state inc) (inc_state inc')"
proof (cases r)
  case (TransitionRow k j f t fs s a m re)
  with assms show ?thesis
    by (auto simp: replay_row_def bind_res_Inr lookup_def validate_edge_def
        incident_transition_init_def split: option.splits if_splits) (rule legal_edge_path, simp)+
next
  case (OpenRow k j n sev st a t asg ks m)
  then obtain opened where o: "incident_from_open_row E r = Inr opened"
    and d': "(case dict_get d (inc_id opened) of
           None \<Rightarrow> Inr (dict_set d (inc_id opened) opened)
         | Some existing \<Rightarrow> bind_res (merge_replayed_open existing opened) (\<lambda>merged.
             Inr (dict_set d (inc_id opened) merged))) = Inr d'"
    using assms(1) by (auto simp: replay_row_def bind_res_Inr)
  show ?thesis
  proof (cases "dict_get d (inc_id opened)")
    case None
    with d' assms(2) show ?thesis by auto
  next
    case (Some old)
    with d' obtain m where "merge_replayed_open old opened = Inr m" "d' = dict_set d (inc_id opened) m"
      by (auto simp: bind_res_Inr)
    with Some assms(2) show ?thesis by (auto simp: merge_open_state)
  qed
qed (use assms in \<open>auto simp: replay_row_def bind_res_Inr lookup_def split: option.splits if_splits\<close>)

lemma replay_rows_path:
  "replay_rows E d rs = Inr d' \<Longrightarrow> dict_get d i = Some inc \<Longrightarrow>
     \<exists>inc'. dict_get d' i = Some inc' \<and> legal_edge\<^sup>*\<^sup>* (inc_state inc) (inc_state inc')"
proof (induction rs arbitrary: d inc)
  case (Cons r rs)
  from Cons.prems(1) obtain d1 where d1: "replay_row E d r = Inr d1" "replay_rows E d1 rs = Inr d'"
    by (auto simp: bind_res_Inr)
  from replay_row_edge [OF d1(1) Cons.prems(2)] obtain inc1 where
    "dict_get d1 i = Some inc1" "legal_edge\<^sup>*\<^sup>* (inc_state inc) (inc_state inc1)" by blast
  with Cons.IH [OF d1(2)] show ?case by (meson rtranclp_trans)
qed auto

text \<open>
  C33: However a replayable log grows, every incident only moves along the edges of the
  state machine and a closed incident stays closed.
\<close>

theorem incident_follows_state_machine:
  assumes "rehydrate_incidents E rows = Inr d" and "dict_get d i = Some inc"
    and "rehydrate_incidents E (rows @ later) = Inr d'"
  shows "\<exists>inc'. dict_get d' i = Some inc' \<and> legal_edge\<^sup>*\<^sup>* (inc_state inc) (inc_state inc') \<and>
    (inc_state inc = CLOSED \<longrightarrow> inc_state inc' = CLOSED)"
proof -
  have later: "replay_rows E d later = Inr d'"
    using assms(1,3) by (simp add: rehydrate_Inr replay_rows_append)
  have closed: "s = CLOSED" if "legal_edge\<^sup>*\<^sup>* CLOSED s" for s
    using that by (induction rule: rtranclp_induct) (auto simp: legal_edge_def)
  from replay_rows_path [OF later assms(2)] closed show ?thesis by metis
qed

section \<open>Redelivery\<close>

text \<open>
  A redelivered transition to the current state and a redelivered open of an existing
  incident, with known members and no higher severity, change neither the index nor the log.
\<close>

theorem redelivery_changes_nothing:
  assumes w: "synced E w" and inc: "dict_get (fst w) i = Some inc"
  shows "(severity = None \<or> severity = Some (inc_severity inc) \<longrightarrow>
      transition_with_status E i (inc_state inc) actor reason severity moment now w =
        (Inr (inc, False), w)) \<and>
    (py_strip actor \<noteq> [] \<and> incident_id_for E ks = Inr i \<and> set members \<subseteq> set (inc_members inc) \<and>
     severity_rank (inc_severity inc) \<le> severity_rank sev \<longrightarrow>
      open_with_status E ks sev members actor opened assignee prefix now w =
        (Inr \<lparr>or_incident = inc, or_created = False, or_severity_changed = False,
           or_previous_severity = None\<rparr>, w))"
proof (intro conjI impI; (elim conjE)?)
  assume "severity = None \<or> severity = Some (inc_severity inc)"
  then show "transition_with_status E i (inc_state inc) actor reason severity moment now w =
        (Inr (inc, False), w)"
    using inc reload_known [OF w inc]
    by (auto simp: transition_with_status_def act_bind_def known_def act_return_def)
next
  assume a: "py_strip actor \<noteq> []" and i: "incident_id_for E ks = Inr i"
    and m: "set members \<subseteq> set (inc_members inc)"
    and s: "severity_rank (inc_severity inc) \<le> severity_rank sev"
  obtain c where c: "canonical_incident_correlation_keys ks = Inr c"
    using i by (auto simp: incident_id_for_def bind_res_Inr)
  have ic: "incident_id_for E c = Inr i"
    using i c canonical_keys(1) [OF c] by (simp add: incident_id_for_def)
  have "filter (\<lambda>m. m \<notin> set (inc_members inc)) members = []"
    using m by (auto simp: filter_empty_conv)
  then have "merge_into_existing E inc sev members actor opened now w =
      (Inr \<lparr>or_incident = inc, or_created = False, or_severity_changed = False,
           or_previous_severity = None\<rparr>, w)"
    using s by (simp add: merge_into_existing_def escalate_severity_if_needed_def numeral_2_eq_2
        act_bind_def act_return_def Let_def)
  then show "open_with_status E ks sev members actor opened assignee prefix now w =
        (Inr \<lparr>or_incident = inc, or_created = False, or_severity_changed = False,
           or_previous_severity = None\<rparr>, w)"
    using a c ic inc by (simp add: open_with_status_def act_bind_def act_lift_def)
qed

section \<open>An escalation after a lowered reopening\<close>

lemma escalate_blocked:
  assumes w: "synced E w" and inc: "dict_get (fst w) (inc_id inc) = Some inc"
    and old: "find (\<lambda>r. row_key r = inc_id inc @ ''::severity::'' @ severity_value target)
        (st_rows (snd w)) = Some r"
    and diff: "row_get_at r \<noteq> Some moment"
    and less: "severity_rank target < severity_rank (inc_severity inc)" and actor: "py_strip actor \<noteq> []"
  shows "escalate_attempts E n inc target actor moment w =
    (Inl (IncidentWriteConflictError ''incident severity escalation did not converge''), w)"
proof (induction n)
  case 0
  show ?case by (simp add: act_raise_def)
next
  case (Suc n)
  define entry where "entry = SeverityRow (inc_id inc @ ''::severity::'' @ severity_value target)
      (inc_id inc) (inc_state inc) (inc_severity inc) target (py_strip actor) moment"
  have e: "severity_audit_entry inc target actor moment = Inr entry"
    using actor by (simp add: severity_audit_entry_def require_actor_def Let_def entry_def)
  have "\<not> same_incident_intent r entry"
    using diff by (cases r) (simp_all add: entry_def)
  then have "append_incident_transition entry (snd w) =
      (Inl (IncidentWriteConflictError ''idempotency key payload conflict''), snd w)"
    using old by (simp add: append_incident_transition_def classify_incident_append_def entry_def
        conflict_def)
  then have p: "persist E entry (inc_id inc) w =
      (Inl (IncidentWriteConflictError ''idempotency key payload conflict''), w)"
    using reload_known [OF w inc]
    by (simp add: persist_def reload_on_conflict_def act_bind_def act_raise_def)
  show ?case
    using e p less Suc.IH reload_known [OF w inc] by (simp add: act_bind_def act_lift_def)
qed

text \<open>
  C34: When a severity row for the same target exists with another timestamp, as after a
  reopening at lower severity, an open that asks for that severity again ends in
  IncidentWriteConflictError and changes nothing.
\<close>

theorem repeated_escalation_never_converges:
  assumes "synced E w" and "dict_get (fst w) i = Some inc"
    and "find (\<lambda>r. row_key r = i @ ''::severity::'' @ severity_value target) (st_rows (snd w)) = Some r"
    and "row_get_at r \<noteq> Some moment"
    and "severity_rank target < severity_rank (inc_severity inc)" and "py_strip actor \<noteq> []"
    and "incident_id_for E ks = Inr i"
  shows "open_with_status E ks target members actor (Some moment) assignee prefix now w =
    (Inl (IncidentWriteConflictError ''incident severity escalation did not converge''), w)"
proof -
  have id: "inc_id inc = i" using tidyD(1) [OF synced_tidy [OF assms(1)] assms(2)] .
  have "escalate_severity_if_needed E inc target actor moment w =
      (Inl (IncidentWriteConflictError ''incident severity escalation did not converge''), w)"
    unfolding escalate_severity_if_needed_def
    by (rule escalate_blocked [OF assms(1)]) (use assms id in simp_all)
  moreover obtain c where c: "canonical_incident_correlation_keys ks = Inr c"
    using assms(7) by (auto simp: incident_id_for_def bind_res_Inr)
  moreover have "incident_id_for E c = Inr i"
    using assms(7) c canonical_keys(1) [OF c] by (simp add: incident_id_for_def)
  ultimately show ?thesis
    using assms(2,6)
    by (simp add: open_with_status_def merge_into_existing_def act_bind_def act_lift_def)
qed

section \<open>Sample runs\<close>

definition incident_env0 :: incident_env where
  "incident_env0 = \<lparr>env_uuid5 = (\<lambda>s. s), env_isofmt = str_int, env_sha256 = (\<lambda>s. s)\<rparr>"

definition incident_keys0 :: "string list" where
  "incident_keys0 = [''resource:vm'']"

definition incident_id0 :: string where
  "incident_id0 = ''fdai.incident://resource:vm''"

definition sample_open :: "incident_severity \<Rightarrow> string list \<Rightarrow> int \<Rightarrow> open_result act" where
  "sample_open sev members t = open_with_status incident_env0 incident_keys0 sev members ''alice'' (Some t)
     None ''INC-202601'' (\<lambda>_. 0)"

definition sample_move ::
  "incident_state \<Rightarrow> incident_severity option \<Rightarrow> int \<Rightarrow> (incident \<times> bool) act" where
  "sample_move target sev t = transition_with_status incident_env0 incident_id0 target ''alice'' None sev
     (Some t) (\<lambda>_. 0)"

definition world_1 :: registry_world where
  "world_1 = snd (sample_open SEV3 [''e1''] 0 ([], empty_store))"

text \<open>Escalated, resolved, and reopened at a lower severity.\<close>

definition world_2 :: registry_world where
  "world_2 = snd (sample_move TRIAGING (Some SEV3) 4 (snd (sample_move RESOLVED None 3
     (snd (sample_move TRIAGING None 2 (snd (sample_open SEV1 [''e1''] 1 world_1)))))))"

lemma world_1_known: "dict_get (fst world_1) incident_id0 \<noteq> None"
  by code_simp

lemma world_2_facts:
  "map_option inc_severity (dict_get (fst world_2) incident_id0) = Some SEV3 \<and>
   map_option row_get_at (find (\<lambda>r. row_key r = incident_id0 @ ''::severity::'' @ severity_value SEV1)
      (st_rows (snd world_2))) = Some (Some 1)"
  by code_simp

lemma step_run: "reachable incident_start (incident_step E) w \<Longrightarrow> incident_step E w w' \<Longrightarrow>
    reachable incident_start (incident_step E) w'"
  by (rule reachable_step)

lemma reachable_sample_open:
  assumes "reachable incident_start (incident_step incident_env0) w"
  shows "reachable incident_start (incident_step incident_env0) (snd (sample_open sev [''e1''] t w))"
  by (rule step_run [OF assms], rule step_open [of "[''e1'']" None incident_env0 incident_keys0 sev "''alice''"
        "Some t" "''INC-202601''" "\<lambda>_. 0" w "fst (sample_open sev [''e1''] t w)"])
    (simp_all add: sample_open_def)

lemma reachable_sample_move:
  assumes "reachable incident_start (incident_step incident_env0) w"
  shows "reachable incident_start (incident_step incident_env0) (snd (sample_move target sev t w))"
  by (rule step_run [OF assms], rule step_transition [of incident_env0 incident_id0 target "''alice''" None sev
        "Some t" "\<lambda>_. 0" w "fst (sample_move target sev t w)"])
    (simp add: sample_move_def)

lemma world_1_reachable: "reachable incident_start (incident_step incident_env0) world_1"
  unfolding world_1_def
  by (intro reachable_sample_open reachable_start) (simp add: incident_start_def)

lemma world_2_reachable: "reachable incident_start (incident_step incident_env0) world_2"
  unfolding world_2_def by (intro reachable_sample_open reachable_sample_move world_1_reachable)

lemma sample_id_for: "incident_id_for incident_env0 incident_keys0 = Inr incident_id0"
  by code_simp

theorem incident_follows_state_machine_witness:
  "\<exists>d d'. rehydrate_incidents incident_env0 (st_rows (snd world_1)) = Inr d \<and>
     rehydrate_incidents incident_env0 (st_rows (snd world_1) @ drop 1 (st_rows (snd world_2))) = Inr d' \<and>
     (\<exists>inc inc'. dict_get d incident_id0 = Some inc \<and> dict_get d' incident_id0 = Some inc' \<and>
        legal_edge\<^sup>*\<^sup>* (inc_state inc) (inc_state inc') \<and>
        inc_state inc = OPEN \<and> inc_state inc' = TRIAGING)"
proof -
  let ?d = "fst world_1" and ?d' = "fst world_2"
  have d: "rehydrate_incidents incident_env0 (st_rows (snd world_1)) = Inr ?d"
    using incidents.reachable_inv [OF world_1_reachable] by (simp add: synced_def)
  have "st_rows (snd world_1) @ drop 1 (st_rows (snd world_2)) = st_rows (snd world_2)"
    by code_simp
  then have d': "rehydrate_incidents incident_env0
      (st_rows (snd world_1) @ drop 1 (st_rows (snd world_2))) = Inr ?d'"
    using incidents.reachable_inv [OF world_2_reachable] by (simp add: synced_def)
  have st: "map_option inc_state (dict_get ?d incident_id0) = Some OPEN"
    "map_option inc_state (dict_get ?d' incident_id0) = Some TRIAGING"
    by code_simp+
  then obtain inc where inc: "dict_get ?d incident_id0 = Some inc" "inc_state inc = OPEN" by auto
  from incident_follows_state_machine [OF d inc(1) d'] d d' inc st(2) show ?thesis by auto
qed

theorem redelivery_changes_nothing_witness:
  "\<exists>inc. sample_move OPEN None 9 world_1 = (Inr (inc, False), world_1) \<and>
     sample_open SEV4 [''e1''] 9 world_1 = (Inr \<lparr>or_incident = inc, or_created = False,
       or_severity_changed = False, or_previous_severity = None\<rparr>, world_1)"
proof -
  have w: "synced incident_env0 world_1" by (rule incidents.reachable_inv [OF world_1_reachable])
  have "map_option inc_state (dict_get (fst world_1) incident_id0) = Some OPEN"
    "map_option inc_severity (dict_get (fst world_1) incident_id0) = Some SEV3"
    "map_option inc_members (dict_get (fst world_1) incident_id0) = Some [''e1'']"
    by code_simp+
  then obtain inc where inc: "dict_get (fst world_1) incident_id0 = Some inc" "inc_state inc = OPEN"
    "inc_severity inc = SEV3" "inc_members inc = [''e1'']" by auto
  have a: "py_strip ''alice'' \<noteq> []" by code_simp
  show ?thesis
    using redelivery_changes_nothing [OF w inc(1), of None "''alice''" None "Some 9" "\<lambda>_. 0"
        incident_keys0 "[''e1'']" SEV4 "Some 9" None "''INC-202601''"] inc a sample_id_for
    by (auto simp: sample_move_def sample_open_def)
qed

theorem repeated_escalation_never_converges_witness:
  "sample_open SEV1 [''e2''] 5 world_2 =
     (Inl (IncidentWriteConflictError ''incident severity escalation did not converge''), world_2)"
proof -
  have w: "synced incident_env0 world_2" by (rule incidents.reachable_inv [OF world_2_reachable])
  obtain inc r where inc: "dict_get (fst world_2) incident_id0 = Some inc" "inc_severity inc = SEV3"
    and r: "find (\<lambda>r. row_key r = incident_id0 @ ''::severity::'' @ severity_value SEV1)
      (st_rows (snd world_2)) = Some r" "row_get_at r = Some 1"
    using world_2_facts by auto
  have "py_strip ''alice'' \<noteq> []" by code_simp
  with repeated_escalation_never_converges [OF w inc(1) r(1) _ _ _ sample_id_for, of 5 "''alice''"
      "[''e2'']" None "''INC-202601''" "\<lambda>_. 0"] inc(2) r(2)
  show ?thesis by (simp add: sample_open_def)
qed

section \<open>Two registries on one log\<close>

text \<open>
  Registry A has opened the incident; registry B, which has read the same log, escalates it.
  A, whose severity is stale now, moves the incident on: the store compares states only, so
  the row is accepted, and from then on no replay of the log succeeds, whatever follows.
\<close>

definition b_escalates :: "open_result res \<times> registry_world" where
  "b_escalates = sample_open SEV1 [''e1''] 1 world_1"

definition a_moves :: "(incident \<times> bool) res \<times> registry_world" where
  "a_moves = sample_move TRIAGING None 2 (fst world_1, snd (snd b_escalates))"

lemma a_moves_facts:
  "map_option (\<lambda>_. ()) (case fst a_moves of Inr (_, True) \<Rightarrow> Some () | _ \<Rightarrow> None) = Some () \<and>
   replay_rows incident_env0 [] (st_rows (snd (snd a_moves))) =
     Inl (ValueError ''transition from_severity mismatch'')"
  by code_simp

theorem stale_transition_poisons_log:
  "(\<exists>inc. fst a_moves = Inr (inc, True)) \<and>
   rehydrate_incidents incident_env0 (st_rows (snd (snd a_moves)) @ later) =
     Inl (IncidentReplayError (ValueError ''transition from_severity mismatch''))"
proof -
  have "\<exists>inc. fst a_moves = Inr (inc, True)"
    using a_moves_facts by (auto split: sum.splits bool.splits)
  then show ?thesis
    using a_moves_facts by (simp add: rehydrate_incidents_def replay_rows_append)
qed

text \<open>A repeated event identifier: the live index and the replay differ.\<close>

definition world_dup :: registry_world where
  "world_dup = snd (sample_open SEV3 [''e2'', ''e2''] 1 world_1)"

theorem repeated_members_diverge:
  "map_option inc_members (dict_get (fst world_dup) incident_id0) = Some [''e1'', ''e2'', ''e2''] \<and>
   (\<exists>d. rehydrate_incidents incident_env0 (st_rows (snd world_dup)) = Inr d \<and>
      map_option inc_members (dict_get d incident_id0) = Some [''e1'', ''e2''])"
proof -
  have "(case rehydrate_incidents incident_env0 (st_rows (snd world_dup)) of
      Inr d \<Rightarrow> map_option inc_members (dict_get d incident_id0) | Inl _ \<Rightarrow> None) = Some [''e1'', ''e2'']"
    by code_simp
  moreover have "map_option inc_members (dict_get (fst world_dup) incident_id0) =
      Some [''e1'', ''e2'', ''e2'']" by code_simp
  ultimately show ?thesis by (auto split: sum.splits)
qed


end
