(* ===== verification/IncidentSla.thy ===== *)
theory IncidentSla
  imports IncidentReplay
begin

text \<open>
  \<open>core/incident/sla.py\<close>: the acknowledgement and resolution deadlines of incidents, read off
  the lifecycle log. A policy is a total function of the severity, since its mappings must
  define all five. The monitor's timer and its notifier are not modelled.
\<close>

record sla_policy =
  acknowledge_seconds :: "incident_severity \<Rightarrow> int"
  resolve_seconds :: "incident_severity \<Rightarrow> int"

definition all_severities :: "incident_severity list" where
  "all_severities = [SEV1, SEV2, SEV3, SEV4, SEV5]"

definition sla_policy_init ::
  "(incident_severity \<Rightarrow> int) \<Rightarrow> (incident_severity \<Rightarrow> int) \<Rightarrow> sla_policy res" where
  "sla_policy_init ack resolve =
     (if list_ex (\<lambda>s. ack s < 1) all_severities
      then Inl (ValueError ''acknowledge_seconds values MUST be >= 1'')
      else if list_ex (\<lambda>s. resolve s < 1) all_severities
      then Inl (ValueError ''resolve_seconds values MUST be >= 1'')
      else Inr \<lparr>acknowledge_seconds = ack, resolve_seconds = resolve\<rparr>)"

definition json_seconds :: "(string, json) dict \<Rightarrow> incident_severity \<Rightarrow> int option" where
  "json_seconds kvs s = (case dict_get kvs (severity_value s) of Some (JInt n) \<Rightarrow> Some n | _ \<Rightarrow> None)"

definition severity_seconds :: "json option \<Rightarrow> (incident_severity \<Rightarrow> int) res" where
  "severity_seconds v = (case v of
     Some (JObj kvs) \<Rightarrow>
       (if list_ex (\<lambda>s. json_seconds kvs s = None) all_severities
        then Inl (ValueError ''MUST be an integer'')
        else if list_ex (\<lambda>k. k \<notin> set (map severity_value all_severities)) (dict_keys kvs)
        then Inl (ValueError ''MUST contain only sev1 through sev5'')
        else Inr (\<lambda>s. the (json_seconds kvs s)))
   | _ \<Rightarrow> Inl (ValueError ''MUST be a mapping''))"

definition sla_policy_from_mapping :: "(string, json) dict \<Rightarrow> sla_policy res" where
  "sla_policy_from_mapping value =
     bind_res (severity_seconds (dict_get value ''acknowledge_seconds'')) (\<lambda>ack.
     bind_res (severity_seconds (dict_get value ''resolve_seconds'')) (\<lambda>resolve.
       sla_policy_init ack resolve))"

definition deadline_seconds ::
  "sla_policy \<Rightarrow> incident_state \<Rightarrow> incident_severity \<Rightarrow> int option" where
  "deadline_seconds p st sev =
     (if st = OPEN then Some (acknowledge_seconds p sev)
      else if st = TRIAGING \<or> st = MITIGATED then Some (resolve_seconds p sev)
      else None)"

record sla_incident =
  sla_id :: string
  sla_state :: incident_state
  sla_severity :: incident_severity
  sla_entered_at :: int

type_synonym sla_index = "(string, sla_incident) dict"

text \<open>One row whose key was not seen before.\<close>

definition sla_row :: "sla_index \<Rightarrow> incident_row \<Rightarrow> sla_index res" where
  "sla_row current r = (case r of
     MembersRow _ _ _ _ _ _ _ \<Rightarrow> Inr current
   | AssignedRow _ _ _ _ _ _ _ _ \<Rightarrow> Inr current
   | TicketRow _ _ _ _ _ _ _ \<Rightarrow> Inr current
   | OpenRow _ i _ sev st _ opened _ _ _ \<Rightarrow>
       Inr (dict_set current i
         \<lparr>sla_id = i, sla_state = st, sla_severity = sev, sla_entered_at = opened\<rparr>)
   | SeverityRow _ i _ _ sev _ _ \<Rightarrow> (case dict_get current i of
       None \<Rightarrow> Inl (ValueError ''incident SLA severity precedes open'')
     | Some previous \<Rightarrow> Inr (dict_set current i (previous\<lparr>sla_severity := sev\<rparr>)))
   | TransitionRow _ i f t _ sev _ moment _ \<Rightarrow> (case dict_get current i of
       None \<Rightarrow> Inl (ValueError ''incident SLA transition precedes open'')
     | Some previous \<Rightarrow>
         (if sla_state previous \<noteq> f then Inl (ValueError ''incident SLA state mismatch'')
          else if moment < sla_entered_at previous
          then Inl (ValueError ''incident SLA transition timestamp regressed'')
          else Inr (dict_set current i
            \<lparr>sla_id = i, sla_state = t, sla_severity = sev, sla_entered_at = moment\<rparr>))))"

fun sla_scan :: "string list \<Rightarrow> sla_index \<Rightarrow> incident_row list \<Rightarrow> sla_index res" where
  "sla_scan seen current [] = Inr current"
| "sla_scan seen current (r # rs) =
     (if row_key r \<in> set seen then sla_scan seen current rs
      else bind_res (sla_row current r) (\<lambda>current. sla_scan (row_key r # seen) current rs))"

record sla_notice =
  nt_incident :: string
  nt_state :: incident_state
  nt_severity :: incident_severity
  nt_occurred_at :: int
  nt_reason :: string

definition sla_breach :: "sla_policy \<Rightarrow> int \<Rightarrow> sla_incident \<Rightarrow> sla_notice option" where
  "sla_breach p now inc = (case deadline_seconds p (sla_state inc) (sla_severity inc) of
     None \<Rightarrow> None
   | Some seconds \<Rightarrow>
      (let deadline = sla_entered_at inc + seconds * 1000000 in
       if now < deadline then None
       else Some \<lparr>nt_incident = sla_id inc, nt_state = sla_state inc, nt_severity = sla_severity inc,
         nt_occurred_at = deadline,
         nt_reason = (if sla_state inc = OPEN then ''acknowledgement_deadline_exceeded''
           else ''resolution_deadline_exceeded'')\<rparr>))"

definition evaluate_incident_sla ::
  "sla_policy \<Rightarrow> int \<Rightarrow> incident_row list \<Rightarrow> sla_notice list res" where
  "evaluate_incident_sla p now rows = bind_res (sla_scan [] [] rows) (\<lambda>current.
     Inr (List.map_filter (sla_breach p now) (sort_key sla_id (dict_values current))))"

section \<open>Agreement with the replay\<close>

definition sla_agrees :: "index \<Rightarrow> sla_index \<Rightarrow> bool" where
  "sla_agrees d current = (distinct (dict_keys current) \<and>
     (\<forall>i. map_option (\<lambda>x. (sla_state x, sla_severity x)) (dict_get current i) =
          map_option (\<lambda>x. (inc_state x, inc_severity x)) (dict_get d i)) \<and>
     (\<forall>i x. dict_get current i = Some x \<longrightarrow> sla_id x = i))"

lemma sla_agreesD:
  assumes "sla_agrees d current"
  shows "dict_get d i = Some inc \<Longrightarrow> \<exists>x. dict_get current i = Some x \<and> sla_id x = i \<and>
      sla_state x = inc_state inc \<and> sla_severity x = inc_severity inc"
    and "dict_get d i = None \<Longrightarrow> dict_get current i = None"
proof -
  have m: "map_option (\<lambda>x. (sla_state x, sla_severity x)) (dict_get current i) =
      map_option (\<lambda>x. (inc_state x, inc_severity x)) (dict_get d i)"
    and ids: "\<And>x. dict_get current i = Some x \<Longrightarrow> sla_id x = i"
    using assms unfolding sla_agrees_def by blast+
  show "dict_get d i = None \<Longrightarrow> dict_get current i = None" using m by simp
  show "\<exists>x. dict_get current i = Some x \<and> sla_id x = i \<and>
      sla_state x = inc_state inc \<and> sla_severity x = inc_severity inc" if "dict_get d i = Some inc"
  proof (cases "dict_get current i")
    case None
    with m that show ?thesis by simp
  next
    case (Some x)
    with m that ids show ?thesis by simp
  qed
qed

lemma sla_agrees_set:
  assumes "sla_agrees d current" and "inc_state inc = sla_state x" and "inc_severity inc = sla_severity x"
    and "sla_id x = i"
  shows "sla_agrees (dict_set d i inc) (dict_set current i x)"
  using assms unfolding sla_agrees_def by (auto simp del: map_of_eq_Some_iff)

lemma sla_agrees_same:
  assumes "sla_agrees d current" and "dict_get d i = Some old" and "inc_state inc = inc_state old"
    and "inc_severity inc = inc_severity old"
  shows "sla_agrees (dict_set d i inc) current"
  using assms unfolding sla_agrees_def by (auto simp del: map_of_eq_Some_iff)

lemma merge_open_fields:
  "merge_replayed_open old new = Inr m \<Longrightarrow> inc_state m = inc_state new \<and> inc_severity m = inc_severity new"
  by (auto simp: merge_replayed_open_def split: if_splits)

lemma opened_fields:
  "incident_from_open_row E (OpenRow k i n sev st a t asg ks ms) = Inr inc \<Longrightarrow>
     inc_id inc = i \<and> inc_state inc = st \<and> inc_severity inc = sev"
  by (auto simp: incident_from_open_row_def bind_res_Inr incident_init_def split: if_splits)

lemma sla_row_agrees:
  assumes "sla_agrees d current" and "replay_row E d r = Inr d'" and "sla_row current r = Inr current'"
  shows "sla_agrees d' current'"
proof (cases r)
  case (OpenRow k i n sev st a t asg ks ms)
  obtain opened where o: "incident_from_open_row E r = Inr opened"
    and d': "(case dict_get d (inc_id opened) of
           None \<Rightarrow> Inr (dict_set d (inc_id opened) opened)
         | Some existing \<Rightarrow> bind_res (merge_replayed_open existing opened) (\<lambda>merged.
             Inr (dict_set d (inc_id opened) merged))) = Inr d'"
    using assms(2) OpenRow by (auto simp: replay_row_def bind_res_Inr)
  note f = opened_fields [OF o [unfolded OpenRow]]
  obtain m where m: "d' = dict_set d i m" "inc_state m = st" "inc_severity m = sev"
  proof (cases "dict_get d i")
    case None
    with d' f that show ?thesis by auto
  next
    case (Some old)
    with d' f obtain m where "merge_replayed_open old opened = Inr m" "d' = dict_set d i m"
      by (auto simp: bind_res_Inr)
    with merge_open_fields f that show ?thesis by metis
  qed
  moreover have "current' = dict_set current i
      \<lparr>sla_id = i, sla_state = st, sla_severity = sev, sla_entered_at = t\<rparr>"
    using assms(3) OpenRow by (simp add: sla_row_def)
  ultimately show ?thesis using assms(1) by (auto intro: sla_agrees_set)
next
  case (TransitionRow k i f t fs s a mo re)
  from assms(2) TransitionRow obtain inc inc' where "dict_get d i = Some inc"
    "d' = dict_set d i inc'" "inc_state inc' = t" "inc_severity inc' = s"
    by (auto simp: replay_row_def bind_res_Inr lookup_def incident_transition_init_def
        apply_incident_transition_def Let_def split: option.splits if_splits incident_state.splits)
  with assms TransitionRow show ?thesis
    by (auto simp: sla_row_def intro: sla_agrees_set split: option.splits if_splits)
next
  case (SeverityRow k i st fs s a mo)
  from assms(2) SeverityRow obtain inc where inc: "dict_get d i = Some inc"
    "d' = dict_set d i (inc\<lparr>inc_severity := s\<rparr>)"
    by (auto simp: replay_row_def bind_res_Inr lookup_def split: option.splits if_splits)
  with sla_agreesD(1) [OF assms(1) inc(1)] assms SeverityRow show ?thesis
    by (auto simp: sla_row_def intro!: sla_agrees_set)
next
  case (MembersRow k i sev st a mo ms)
  with assms show ?thesis
    by (auto simp: sla_row_def replay_row_def bind_res_Inr lookup_def intro: sla_agrees_same
        split: option.splits)
next
  case (AssignedRow k i sev st f asg a mo)
  with assms show ?thesis
    by (auto simp: sla_row_def replay_row_def bind_res_Inr lookup_def intro: sla_agrees_same
        split: option.splits if_splits)
next
  case (TicketRow k i p t u a mo)
  with assms show ?thesis by (auto simp: sla_row_def replay_row_def bind_res_Inr)
qed

lemma sla_scan_agrees:
  "sla_agrees d current \<Longrightarrow> distinct (map row_key rows) \<Longrightarrow> set (map row_key rows) \<inter> set seen = {} \<Longrightarrow>
     replay_rows E d rows = Inr d' \<Longrightarrow> sla_scan seen current rows = Inr current' \<Longrightarrow>
     sla_agrees d' current'"
proof (induction rows arbitrary: d current seen)
  case (Cons r rows)
  from Cons.prems obtain d1 c1 where "replay_row E d r = Inr d1" "replay_rows E d1 rows = Inr d'"
    "sla_row current r = Inr c1" "sla_scan (row_key r # seen) c1 rows = Inr current'"
    by (auto simp: bind_res_Inr)
  moreover have "sla_agrees d1 c1" using sla_row_agrees Cons.prems(1) calculation(1,3) by blast
  ultimately show ?case
    using Cons.IH [of d1 c1 "row_key r # seen"] Cons.prems(2,3) by auto
qed simp

lemma sla_agrees_empty: "sla_agrees [] []"
  by (simp add: sla_agrees_def)

lemma set_map_filter: "set (List.map_filter f xs) = {y. \<exists>x\<in>set xs. f x = Some y}"
  by (induction xs) (auto simp: List.map_filter_simps split: option.splits)

lemma sla_value:
  assumes "sla_agrees d current"
  shows "x \<in> set (dict_values current) \<longleftrightarrow> dict_get current (sla_id x) = Some x"
proof -
  have dist: "distinct (dict_keys current)"
    and ids: "\<And>i x. dict_get current i = Some x \<Longrightarrow> sla_id x = i"
    using assms unfolding sla_agrees_def by blast+
  show ?thesis
  proof
    assume "x \<in> set (dict_values current)"
    then obtain i where "(i, x) \<in> set current" by auto
    then have "dict_get current i = Some x" using dist by (rule map_of_is_SomeI [rotated])
    with ids show "dict_get current (sla_id x) = Some x" by metis
  next
    assume "dict_get current (sla_id x) = Some x"
    then have "(sla_id x, x) \<in> set current" by (rule map_of_SomeD)
    then show "x \<in> set (dict_values current)" by force
  qed
qed

definition overdue :: "sla_policy \<Rightarrow> int \<Rightarrow> incident_state \<Rightarrow> incident_severity \<Rightarrow> int \<Rightarrow> bool" where
  "overdue p now st sev entered = (case deadline_seconds p st sev of
     None \<Rightarrow> False | Some seconds \<Rightarrow> entered + seconds * 1000000 \<le> now)"

lemma sla_breach_overdue:
  "(\<exists>n. sla_breach p now x = Some n) \<longleftrightarrow>
     overdue p now (sla_state x) (sla_severity x) (sla_entered_at x)"
  "sla_breach p now x = Some n \<Longrightarrow> nt_incident n = sla_id x"
  by (auto simp: sla_breach_def overdue_def Let_def split: option.splits if_splits)


definition sla_sample_env :: incident_env where
  "sla_sample_env = \<lparr>env_uuid5 = (\<lambda>s. s), env_isofmt = str_int, env_sha256 = (\<lambda>s. s)\<rparr>"

definition sla_sample_rows :: "incident_row list" where
  "sla_sample_rows =
    [OpenRow ''k1'' ''fdai.incident://vm'' None SEV3 OPEN ''alice'' 0 None [''vm''] [''e1''],
     SeverityRow ''k2'' ''fdai.incident://vm'' OPEN SEV3 SEV1 ''alice'' 5]"

definition sla_sample_policy :: sla_policy where
  "sla_sample_policy = \<lparr>acknowledge_seconds = (\<lambda>s. 60 * int (severity_rank s)),
     resolve_seconds = (\<lambda>s. 3600)\<rparr>"

lemma sla_sample_facts:
  "(case rehydrate_incidents sla_sample_env sla_sample_rows of Inr d \<Rightarrow> True | Inl _ \<Rightarrow> False) \<and>
   distinct (map row_key sla_sample_rows) \<and>
   (case evaluate_incident_sla sla_sample_policy 60000000 sla_sample_rows of
      Inr ns \<Rightarrow> map nt_incident ns = [''fdai.incident://vm''] | Inl _ \<Rightarrow> False)"
  by code_simp


end
