(* ===== verification/ResourceLock.thy ===== *)
theory ResourceLock
  imports StepSystem
begin

text \<open>
  The executor's per-resource lock manager (\<open>core/executor/lock.py\<close>): lock entries are objects
  with an identity (an address), \<open>_locks\<close> maps a resource id to the address of its entry, and
  an entry counts the callers that hold or await its lock.

  \<open>asyncio.Lock\<close> is modelled as in CPython 3.12: a flag and the deque of waiters, each with the state
  of its future. The registry lock is never contended on one event loop, since no body it
  guards suspends, so each of those bodies is one atomic operation. A call of \<open>acquire\<close> or
  \<open>acquire_evidenced\<close> is cut where it suspends: at the lock and at the body.
\<close>

section \<open>asyncio.Lock\<close>

text \<open>
  The state of a waiter's future: pending, woken by a release, cancelled while pending, or woken
  with a cancellation of the task requested afterwards.
\<close>

datatype waiter_state = W_PENDING | W_WOKEN | W_CANCELLED | W_WOKEN_CANCELLED

record lock_entry =
  le_locked :: bool
  le_waiters :: "(nat \<times> waiter_state) list"
  refcount :: int
  active_acquisition :: "string option"

definition lock_entry_init :: lock_entry where
  "lock_entry_init = \<lparr>le_locked = False, le_waiters = [], refcount = 0, active_acquisition = None\<rparr>"

text \<open>\<open>_wake_up_first\<close>: resolve the future of the first waiter unless it is done.\<close>

definition wake_up_first :: "lock_entry \<Rightarrow> lock_entry" where
  "wake_up_first e = (case le_waiters e of
     (t, W_PENDING) # ws \<Rightarrow> e\<lparr>le_waiters := (t, W_WOKEN) # ws\<rparr> | _ \<Rightarrow> e)"

text \<open>The fast path of \<open>acquire\<close>: unlocked, and every registered future is cancelled.\<close>

definition lock_available :: "lock_entry \<Rightarrow> bool" where
  "lock_available e = (\<not> le_locked e \<and> list_all (\<lambda>w. snd w = W_CANCELLED) (le_waiters e))"

definition lock_release :: "lock_entry \<Rightarrow> lock_entry res" where
  "lock_release e = (if le_locked e then Inr (wake_up_first (e\<lparr>le_locked := False\<rparr>))
     else Inl (RuntimeError ''Lock is not acquired.''))"

definition drop_waiter :: "nat \<Rightarrow> lock_entry \<Rightarrow> lock_entry" where
  "drop_waiter t e = e\<lparr>le_waiters := filter (\<lambda>w. fst w \<noteq> t) (le_waiters e)\<rparr>"

section \<open>The manager\<close>

text \<open>
  How a task came: \<open>Plain\<close> through \<open>acquire\<close>, \<open>Evidenced\<close> through \<open>acquire_evidenced\<close> with the
  text its identity factory returns and whether the clock and the receipt succeed on entry.
\<close>

datatype lock_call = Plain | Evidenced string bool

datatype lock_phase = WAITING | INSIDE "string option"

record lock_task =
  tk_resource :: string
  tk_entry :: nat
  tk_call :: lock_call
  tk_phase :: lock_phase

record lock_manager =
  locks :: "string \<Rightarrow> nat option"
  lm_heap :: "nat \<Rightarrow> lock_entry"
  next_address :: nat
  lm_sequence :: int
  lm_tasks :: "nat \<Rightarrow> lock_task option"

definition lock_manager_init :: lock_manager where
  "lock_manager_init = \<lparr>locks = (\<lambda>_. None), lm_heap = (\<lambda>_. lock_entry_init), next_address = 0,
     lm_sequence = 0, lm_tasks = (\<lambda>_. None)\<rparr>"

definition modify_entry :: "nat \<Rightarrow> (lock_entry \<Rightarrow> lock_entry) \<Rightarrow> lock_manager \<Rightarrow> lock_manager" where
  "modify_entry a f s = s\<lparr>lm_heap := (lm_heap s)(a := f (lm_heap s a))\<rparr>"

definition checkout :: "string \<Rightarrow> lock_manager \<Rightarrow> nat \<times> lock_manager" where
  "checkout rid s = (case locks s rid of
     Some a \<Rightarrow> (a, modify_entry a (\<lambda>e. e\<lparr>refcount := refcount e + 1\<rparr>) s)
   | None \<Rightarrow>
       (let a = next_address s;
            s = s\<lparr>next_address := Suc a, locks := (locks s)(rid \<mapsto> a),
              lm_heap := (lm_heap s)(a := lock_entry_init)\<rparr>
        in (a, modify_entry a (\<lambda>e. e\<lparr>refcount := refcount e + 1\<rparr>) s)))"

definition checkin :: "string \<Rightarrow> lock_manager \<Rightarrow> lock_manager" where
  "checkin rid s = (case locks s rid of
     None \<Rightarrow> s
   | Some a \<Rightarrow>
       (let s = modify_entry a (\<lambda>e. e\<lparr>refcount := refcount e - 1\<rparr>) s
        in if refcount (lm_heap s a) \<le> 0 then s\<lparr>locks := (locks s)(rid := None)\<rparr> else s))"

definition activate_acquisition :: "string \<Rightarrow> nat \<Rightarrow> string \<Rightarrow> lock_manager \<Rightarrow> lock_manager res" where
  "activate_acquisition rid a acq s =
     (if locks s rid \<noteq> Some a \<or> active_acquisition (lm_heap s a) \<noteq> None
      then Inl (RuntimeError ''local resource lock acquisition state is inconsistent'')
      else Inr (modify_entry a (\<lambda>e. e\<lparr>active_acquisition := Some acq\<rparr>) s))"

definition new_acquisition_id :: "string \<Rightarrow> lock_manager \<Rightarrow> (string \<times> lock_manager) res" where
  "new_acquisition_id raw s =
     (if py_strip raw = []
      then Inl (ValueError ''local resource lock acquisition identity MUST be non-empty'')
      else Inr (raw @ '':'' @ str_int (lm_sequence s + 1), s\<lparr>lm_sequence := lm_sequence s + 1\<rparr>))"

definition deactivate_acquisition :: "string \<Rightarrow> nat \<Rightarrow> string \<Rightarrow> lock_manager \<Rightarrow> lock_manager" where
  "deactivate_acquisition rid a acq s =
     (if locks s rid = Some a \<and> active_acquisition (lm_heap s a) = Some acq
      then modify_entry a (\<lambda>e. e\<lparr>active_acquisition := None\<rparr>) s else s)"

definition owns_acquisition :: "string \<Rightarrow> nat \<Rightarrow> string \<Rightarrow> lock_manager \<Rightarrow> bool" where
  "owns_acquisition rid a acq s =
     (locks s rid = Some a \<and> le_locked (lm_heap s a) \<and> active_acquisition (lm_heap s a) = Some acq)"

definition snapshot :: "lock_manager \<Rightarrow> string \<Rightarrow> bool option" where
  "snapshot s rid = map_option (\<lambda>a. le_locked (lm_heap s a)) (locks s rid)"

section \<open>The pieces of a call\<close>

definition put_task :: "nat \<Rightarrow> lock_task option \<Rightarrow> lock_manager \<Rightarrow> lock_manager" where
  "put_task t k s = s\<lparr>lm_tasks := (lm_tasks s)(t := k)\<rparr>"

text \<open>\<open>entry.lock.release()\<close> on leaving the \<open>async with\<close>; the lock is held there.\<close>

definition leave_lock :: "nat \<Rightarrow> lock_manager \<Rightarrow> lock_manager" where
  "leave_lock a s = (case lock_release (lm_heap s a) of
     Inl _ \<Rightarrow> s | Inr e \<Rightarrow> modify_entry a (\<lambda>_. e) s)"

text \<open>The task is gone: its lock is released and its reference is given back.\<close>

definition abandon :: "nat \<Rightarrow> lock_task \<Rightarrow> lock_manager \<Rightarrow> lock_manager" where
  "abandon t k s = put_task t None (checkin (tk_resource k) (leave_lock (tk_entry k) s))"

text \<open>
  From the acquired lock to the \<open>yield\<close>; a failure on the way leaves by the \<open>finally\<close> clauses.
\<close>

definition enter_body :: "nat \<Rightarrow> lock_task \<Rightarrow> lock_manager \<Rightarrow> lock_manager" where
  "enter_body t k s = (case tk_call k of
     Plain \<Rightarrow> put_task t (Some (k\<lparr>tk_phase := INSIDE None\<rparr>)) s
   | Evidenced raw evidence_ok \<Rightarrow> (case new_acquisition_id raw s of
       Inl _ \<Rightarrow> abandon t k s
     | Inr (acq, s1) \<Rightarrow> (case activate_acquisition (tk_resource k) (tk_entry k) acq s1 of
         Inl _ \<Rightarrow> abandon t k s1
       | Inr s2 \<Rightarrow>
           (if evidence_ok then put_task t (Some (k\<lparr>tk_phase := INSIDE (Some acq)\<rparr>)) s2
            else abandon t k (deactivate_acquisition (tk_resource k) (tk_entry k) acq s2)))))"

text \<open>A call up to its first suspension.\<close>

definition arrive :: "nat \<Rightarrow> string \<Rightarrow> lock_call \<Rightarrow> lock_manager \<Rightarrow> lock_manager" where
  "arrive t rid call s =
     (let (a, s) = checkout rid s;
          k = \<lparr>tk_resource = rid, tk_entry = a, tk_call = call, tk_phase = WAITING\<rparr>
      in if lock_available (lm_heap s a)
         then enter_body t k (modify_entry a (\<lambda>e. e\<lparr>le_locked := True\<rparr>) s)
         else put_task t (Some k)
           (modify_entry a (\<lambda>e. e\<lparr>le_waiters := le_waiters e @ [(t, W_PENDING)]\<rparr>) s))"

text \<open>A woken waiter runs: it takes the lock without looking at it again.\<close>

definition resume :: "nat \<Rightarrow> lock_task \<Rightarrow> lock_manager \<Rightarrow> lock_manager" where
  "resume t k s = enter_body t k
     (modify_entry (tk_entry k) (\<lambda>e. (drop_waiter t e)\<lparr>le_locked := True\<rparr>) s)"

text \<open>\<open>Task.cancel()\<close> on a waiter: cancels a pending future, or marks a woken task.\<close>

definition cancel_state :: "waiter_state \<Rightarrow> waiter_state" where
  "cancel_state w = (case w of W_PENDING \<Rightarrow> W_CANCELLED | W_WOKEN \<Rightarrow> W_WOKEN_CANCELLED | _ \<Rightarrow> w)"

definition request_cancel :: "nat \<Rightarrow> lock_task \<Rightarrow> lock_manager \<Rightarrow> lock_manager" where
  "request_cancel t k s = modify_entry (tk_entry k)
     (\<lambda>e. e\<lparr>le_waiters := map (\<lambda>(u, w). (u, if u = t then cancel_state w else w)) (le_waiters e)\<rparr>) s"

text \<open>A cancelled waiter runs: it wakes a successor when the lock is free, and checks in.\<close>

definition resume_cancelled :: "nat \<Rightarrow> lock_task \<Rightarrow> lock_manager \<Rightarrow> lock_manager" where
  "resume_cancelled t k s = put_task t None (checkin (tk_resource k)
     (modify_entry (tk_entry k)
        (\<lambda>e. let e = drop_waiter t e in if le_locked e then e else wake_up_first e) s))"

text \<open>
  The body ends, normally or not. On the evidenced path the release receipt is made before the
  reference is given back, so a clock that fails there skips \<open>_checkin\<close>.
\<close>

definition leave_body :: "nat \<Rightarrow> lock_task \<Rightarrow> bool \<Rightarrow> lock_manager \<Rightarrow> lock_manager" where
  "leave_body t k receipt_ok s = (case tk_phase k of
     INSIDE (Some acq) \<Rightarrow>
       (let s = leave_lock (tk_entry k) (deactivate_acquisition (tk_resource k) (tk_entry k) acq s)
        in put_task t None (if receipt_ok then checkin (tk_resource k) s else s))
   | _ \<Rightarrow> abandon t k s)"

definition waiter_of :: "nat \<Rightarrow> lock_task \<Rightarrow> lock_manager \<Rightarrow> waiter_state option" where
  "waiter_of t k s = map_of (le_waiters (lm_heap s (tk_entry k))) t"

text \<open>The steps of the event loop; \<open>utc\<close> says that the release receipt never fails.\<close>

inductive lock_step :: "bool \<Rightarrow> lock_manager \<Rightarrow> lock_manager \<Rightarrow> bool" for utc where
  ls_arrive: "lm_tasks s t = None \<Longrightarrow> lock_step utc s (arrive t rid call s)"
| ls_resume: "lm_tasks s t = Some k \<Longrightarrow> tk_phase k = WAITING \<Longrightarrow> waiter_of t k s = Some W_WOKEN \<Longrightarrow>
    lock_step utc s (resume t k s)"
| ls_cancel: "lm_tasks s t = Some k \<Longrightarrow> tk_phase k = WAITING \<Longrightarrow> lock_step utc s (request_cancel t k s)"
| ls_cancelled: "lm_tasks s t = Some k \<Longrightarrow> tk_phase k = WAITING \<Longrightarrow>
    waiter_of t k s \<in> {Some W_CANCELLED, Some W_WOKEN_CANCELLED} \<Longrightarrow>
    lock_step utc s (resume_cancelled t k s)"
| ls_leave: "lm_tasks s t = Some k \<Longrightarrow> tk_phase k = INSIDE acq \<Longrightarrow> utc \<longrightarrow> receipt_ok \<Longrightarrow>
    lock_step utc s (leave_body t k receipt_ok s)"

definition lock_start :: "lock_manager \<Rightarrow> bool" where
  "lock_start s = (s = lock_manager_init)"

section \<open>The invariant\<close>

text \<open>The phases of the tasks that hold or await the lock of one resource.\<close>

definition group_of :: "lock_manager \<Rightarrow> string \<Rightarrow> nat \<Rightarrow> lock_phase option" where
  "group_of s rid t = (case lm_tasks s t of
     Some k \<Rightarrow> if tk_resource k = rid then Some (tk_phase k) else None | None \<Rightarrow> None)"

definition calm :: "(nat \<times> waiter_state) list \<Rightarrow> bool" where
  "calm = list_all (\<lambda>w. snd w \<in> {W_PENDING, W_CANCELLED})"

definition nobody_inside :: "(nat \<Rightarrow> lock_phase option) \<Rightarrow> bool" where
  "nobody_inside M = (\<forall>t acq. M t \<noteq> Some (INSIDE acq))"

text \<open>
  The reference count covers the tasks of the group and \<open>n\<close> more; it is exact unless a release
  receipt failed. The waiters are the waiting tasks.
\<close>

definition counted :: "bool \<Rightarrow> nat \<Rightarrow> (nat \<Rightarrow> lock_phase option) \<Rightarrow> lock_entry \<Rightarrow> bool" where
  "counted utc n M e = (finite (dom M) \<and> int (card (dom M) + n) \<le> refcount e \<and> 0 < refcount e \<and>
     (utc \<longrightarrow> refcount e = int (card (dom M) + n)) \<and>
     distinct (map fst (le_waiters e)) \<and> fst ` set (le_waiters e) = {t. M t = Some WAITING})"

text \<open>
  A free lock has nobody inside, and if anyone waits, the first waiter is about to run. A held
  lock has exactly one task inside, and no waiter has been woken. A taken lock is one the
  running task has acquired on its way in or out.
\<close>

definition free_lock :: "(nat \<Rightarrow> lock_phase option) \<Rightarrow> lock_entry \<Rightarrow> bool" where
  "free_lock M e = (\<not> le_locked e \<and> nobody_inside M \<and> active_acquisition e = None \<and>
     (case le_waiters e of [] \<Rightarrow> True | w # ws \<Rightarrow> snd w \<noteq> W_PENDING \<and> calm ws))"

definition held_lock :: "(nat \<Rightarrow> lock_phase option) \<Rightarrow> lock_entry \<Rightarrow> bool" where
  "held_lock M e = (le_locked e \<and> calm (le_waiters e) \<and>
     (\<exists>h. M h = Some (INSIDE (active_acquisition e)) \<and> (\<forall>t acq. M t = Some (INSIDE acq) \<longrightarrow> t = h)))"

definition taken_lock :: "string option \<Rightarrow> (nat \<Rightarrow> lock_phase option) \<Rightarrow> lock_entry \<Rightarrow> bool" where
  "taken_lock acq M e = (le_locked e \<and> calm (le_waiters e) \<and> nobody_inside M \<and>
     active_acquisition e = acq)"

definition entry_ok :: "bool \<Rightarrow> (nat \<Rightarrow> lock_phase option) \<Rightarrow> lock_entry \<Rightarrow> bool" where
  "entry_ok utc M e = (counted utc 0 M e \<and> (free_lock M e \<or> held_lock M e))"

text \<open>The table: tasks outside \<open>X\<close> share the entry of their resource, and entries are not shared.\<close>

definition table_ok :: "nat set \<Rightarrow> lock_manager \<Rightarrow> bool" where
  "table_ok X s = ((\<forall>t k. t \<notin> X \<longrightarrow> lm_tasks s t = Some k \<longrightarrow> locks s (tk_resource k) = Some (tk_entry k)) \<and>
     (\<forall>r r' a. locks s r = Some a \<longrightarrow> locks s r' = Some a \<longrightarrow> r = r') \<and>
     (\<forall>r a. locks s r = Some a \<longrightarrow> a < next_address s))"

definition lock_inv :: "bool \<Rightarrow> lock_manager \<Rightarrow> bool" where
  "lock_inv utc s = (table_ok {} s \<and>
     (\<forall>r a. locks s r = Some a \<longrightarrow> entry_ok utc (group_of s r) (lm_heap s a)))"

text \<open>Task \<open>t\<close> is running on the entry of \<open>rid\<close> and is counted there once, outside its group.\<close>

definition others :: "nat \<Rightarrow> string \<Rightarrow> lock_manager \<Rightarrow> nat \<Rightarrow> lock_phase option" where
  "others t rid s = (group_of s rid)(t := None)"

definition running :: "bool \<Rightarrow> nat \<Rightarrow> string \<Rightarrow> nat \<Rightarrow> lock_manager \<Rightarrow> bool" where
  "running utc t rid a s = (table_ok {t} s \<and> locks s rid = Some a \<and>
     (\<forall>k. lm_tasks s t = Some k \<longrightarrow> tk_resource k = rid) \<and>
     (\<forall>r b. r \<noteq> rid \<longrightarrow> locks s r = Some b \<longrightarrow> entry_ok utc (group_of s r) (lm_heap s b)) \<and>
     counted utc 1 (others t rid s) (lm_heap s a))"

section \<open>Single entries\<close>

lemma calm_simps [simp]:
  "calm []" "calm (w # ws) \<longleftrightarrow> snd w \<in> {W_PENDING, W_CANCELLED} \<and> calm ws"
  "calm (xs @ ws) \<longleftrightarrow> calm xs \<and> calm ws" "calm ws \<Longrightarrow> calm (filter P ws)"
  by (auto simp: calm_def list_all_iff)

lemma calm_tl: "calm ws \<Longrightarrow> calm (tl ws)"
  by (cases ws) auto

lemma wake_up_first_sel [simp]:
  "le_locked (wake_up_first e) = le_locked e" "refcount (wake_up_first e) = refcount e"
  "active_acquisition (wake_up_first e) = active_acquisition e"
  "map fst (le_waiters (wake_up_first e)) = map fst (le_waiters e)"
  "fst ` set (le_waiters (wake_up_first e)) = fst ` set (le_waiters e)"
  by (auto simp: wake_up_first_def split: list.splits waiter_state.splits)

lemma countedD:
  assumes "counted utc n M e"
  shows "finite (dom M)" and "int (card (dom M) + n) \<le> refcount e" and "0 < refcount e"
    and "utc \<longrightarrow> refcount e = int (card (dom M) + n)" and "distinct (map fst (le_waiters e))"
    and "fst ` set (le_waiters e) = {t. M t = Some WAITING}"
proof -
  note c = assms [unfolded counted_def]
  show "finite (dom M)" by (rule c [THEN conjunct1])
  show "int (card (dom M) + n) \<le> refcount e" by (rule c [THEN conjunct2, THEN conjunct1])
  note c = c [THEN conjunct2, THEN conjunct2]
  show "0 < refcount e" by (rule c [THEN conjunct1])
  show "utc \<longrightarrow> refcount e = int (card (dom M) + n)" by (rule c [THEN conjunct2, THEN conjunct1])
  note c = c [THEN conjunct2, THEN conjunct2]
  show "distinct (map fst (le_waiters e))" by (rule c [THEN conjunct1])
  show "fst ` set (le_waiters e) = {t. M t = Some WAITING}" by (rule c [THEN conjunct2])
qed

lemma counted_wake [simp]: "counted utc n M (wake_up_first e) = counted utc n M e"
  by (simp add: counted_def)

lemma counted_fields:
  "refcount e' = refcount e \<Longrightarrow> le_waiters e' = le_waiters e \<Longrightarrow> counted utc n M e' = counted utc n M e"
  by (simp add: counted_def)

lemma wake_free:
  assumes "\<not> le_locked e" and "nobody_inside M" and "active_acquisition e = None"
    and "calm (tl (le_waiters e))"
  shows "free_lock M (wake_up_first e)"
  using assms
  by (auto simp: free_lock_def wake_up_first_def split: list.splits waiter_state.splits)

lemma taken_release:
  assumes "taken_lock None M e"
  shows "\<exists>e'. lock_release e = Inr e' \<and> free_lock M e' \<and>
    (\<forall>utc n. counted utc n M e' = counted utc n M e)"
proof (intro exI conjI allI)
  have c: "calm (le_waiters e)" using assms by (simp add: taken_lock_def)
  show "lock_release e = Inr (wake_up_first (e\<lparr>le_locked := False\<rparr>))"
    using assms by (simp add: lock_release_def taken_lock_def)
  show "free_lock M (wake_up_first (e\<lparr>le_locked := False\<rparr>))"
    using assms c by (intro wake_free) (auto simp: taken_lock_def intro: calm_tl)
  show "counted utc n M (wake_up_first (e\<lparr>le_locked := False\<rparr>)) = counted utc n M e" for utc n
    by (simp add: counted_def)
qed

section \<open>Reading and writing the manager\<close>

lemma modify_entry_sel [simp]:
  "locks (modify_entry a f s) = locks s" "lm_tasks (modify_entry a f s) = lm_tasks s"
  "next_address (modify_entry a f s) = next_address s"
  "lm_sequence (modify_entry a f s) = lm_sequence s"
  "lm_heap (modify_entry a f s) b = (if b = a then f (lm_heap s a) else lm_heap s b)"
  by (simp_all add: modify_entry_def)

lemma put_task_sel [simp]:
  "locks (put_task t k s) = locks s" "lm_heap (put_task t k s) = lm_heap s"
  "next_address (put_task t k s) = next_address s"
  "lm_tasks (put_task t k s) = (lm_tasks s)(t := k)"
  by (simp_all add: put_task_def)

lemma group_same [simp]:
  "group_of (modify_entry a f s) = group_of s" "group_of (s\<lparr>locks := l\<rparr>) = group_of s"
  "group_of (s\<lparr>next_address := n\<rparr>) = group_of s" "group_of (s\<lparr>lm_sequence := i\<rparr>) = group_of s"
  "group_of (s\<lparr>lm_heap := h\<rparr>) = group_of s"
  by (simp_all add: group_of_def fun_eq_iff)

lemma others_same [simp]:
  "others t rid (modify_entry a f s) = others t rid s" "others t rid (s\<lparr>lm_sequence := i\<rparr>) = others t rid s"
  by (simp_all add: others_def)

lemma group_put_None [simp]: "group_of (put_task t None s) rid = (group_of s rid)(t := None)"
  by (rule ext) (simp add: group_of_def)

lemma group_put_Some:
  "group_of (put_task t (Some k) s) rid =
     (group_of s rid)(t := if tk_resource k = rid then Some (tk_phase k) else None)"
  by (rule ext) (simp add: group_of_def)

lemma table_ok_cong:
  "locks s' = locks s \<Longrightarrow> lm_tasks s' = lm_tasks s \<Longrightarrow> next_address s' = next_address s \<Longrightarrow>
     table_ok X s' = table_ok X s"
  by (simp add: table_ok_def)

text \<open>A write to the entry of the running task leaves the other resources alone.\<close>

lemma running_modify:
  assumes "running utc t rid a s" and "counted utc 1 (others t rid s) (f (lm_heap s a))"
  shows "running utc t rid a (modify_entry a f s)"
proof -
  have tab: "table_ok {t} (modify_entry a f s) = table_ok {t} s"
    by (rule table_ok_cong) simp_all
  have "b \<noteq> a" if "r \<noteq> rid" "locks s r = Some b" for r b
    using assms(1) that by (auto simp: running_def table_ok_def)
  then show ?thesis
    using assms unfolding running_def tab by simp
qed

lemma table_evict:
  assumes "table_ok {t} s" and "\<And>u k. u \<noteq> t \<Longrightarrow> lm_tasks s u = Some k \<Longrightarrow> tk_resource k \<noteq> rid"
  shows "table_ok {} (put_task t None ((modify_entry a f s)\<lparr>locks := (locks s)(rid := None)\<rparr>))"
proof -
  have "locks s (tk_resource k) = Some (tk_entry k) \<and> tk_resource k \<noteq> rid"
    if "u \<noteq> t" "lm_tasks s u = Some k" for u k
    using assms that unfolding table_ok_def by blast
  moreover have "r = r'" if "locks s r = Some b" "locks s r' = Some b" for r r' b
    using assms(1) that unfolding table_ok_def by blast
  moreover have "b < next_address s" if "locks s r = Some b" for r b
    using assms(1) that unfolding table_ok_def by blast
  ultimately show ?thesis unfolding table_ok_def by simp
qed

text \<open>The running task gives its reference back and is gone.\<close>

lemma group_absent:
  assumes "running utc t rid a s" and "r \<noteq> rid"
  shows "(group_of s r)(t := None) = group_of s r"
  using assms by (auto simp: running_def group_of_def fun_eq_iff split: option.splits)

lemma checkin_inv:
  assumes run: "running utc t rid a s"
    and "free_lock (others t rid s) (lm_heap s a) \<or> held_lock (others t rid s) (lm_heap s a)"
  shows "lock_inv utc (put_task t None (checkin rid s))"
proof -
  let ?M = "others t rid s" and ?e = "(lm_heap s a)\<lparr>refcount := refcount (lm_heap s a) - 1\<rparr>"
  have lk: "locks s rid = Some a" and cnt: "counted utc 1 ?M (lm_heap s a)"
    and tab: "table_ok {t} s" using run by (simp_all add: running_def)
  have neq: "b \<noteq> a" if "r \<noteq> rid" "locks s r = Some b" for r b
    using tab lk that by (auto simp: table_ok_def)
  have rest: "entry_ok utc ((group_of s r)(t := None)) (lm_heap s b)"
    if "r \<noteq> rid" "locks s r = Some b" for r b
    using run that by (simp add: group_absent) (simp add: running_def)
  show ?thesis
  proof (cases "refcount ?e \<le> 0")
    case True
    let ?s = "put_task t None ((modify_entry a (\<lambda>e. e\<lparr>refcount := refcount e - 1\<rparr>) s)\<lparr>locks := (locks s)(rid := None)\<rparr>)"
    have s: "put_task t None (checkin rid s) = ?s" using lk True by (simp add: checkin_def Let_def)
    have fin: "finite (dom ?M)" and le: "int (card (dom ?M) + 1) \<le> refcount (lm_heap s a)"
      using cnt unfolding counted_def by blast+
    have "refcount (lm_heap s a) \<le> 1" using True by simp
    with le have "card (dom ?M) = 0" by linarith
    with fin have "dom ?M = {}" by (simp only: card_0_eq)
    then have none: "lm_tasks s u = Some k \<Longrightarrow> tk_resource k = rid \<Longrightarrow> u = t" for u k
      by (auto simp: others_def group_of_def dom_def split: if_splits option.splits)
    then have "table_ok {} ?s" by (intro table_evict [OF tab]) auto
    moreover have "entry_ok utc (group_of ?s r) (lm_heap ?s b)" if "locks ?s r = Some b" for r b
    proof -
      have r: "r \<noteq> rid" "locks s r = Some b" using that by (simp_all split: if_splits)
      from rest [OF r] neq [OF r] show ?thesis by simp
    qed
    ultimately show ?thesis unfolding s lock_inv_def by blast
  next
    case False
    let ?s = "put_task t None (modify_entry a (\<lambda>e. e\<lparr>refcount := refcount e - 1\<rparr>) s)"
    have s: "put_task t None (checkin rid s) = ?s" using lk False by (simp add: checkin_def Let_def)
    have "counted utc 0 ?M ?e" using cnt False by (auto simp: counted_def)
    then have "entry_ok utc ?M ?e" using assms(2) by (simp add: entry_ok_def free_lock_def held_lock_def)
    then have "entry_ok utc (group_of ?s r) (lm_heap ?s b)" if "locks ?s r = Some b" for r b
      using that lk neq [of r b] rest [of r b] by (cases "r = rid") (auto simp: others_def)
    moreover have "table_ok {} ?s" using tab by (auto simp: table_ok_def split: if_splits)
    ultimately show ?thesis unfolding s lock_inv_def by blast
  qed
qed

text \<open>The lock is released, then the reference is given back.\<close>

lemma leave_lock_running:
  assumes run: "running utc t rid a s" and "taken_lock None (others t rid s) (lm_heap s a)"
  shows "running utc t rid a (leave_lock a s) \<and>
    free_lock (others t rid (leave_lock a s)) (lm_heap (leave_lock a s) a)"
proof -
  obtain e where e: "lock_release (lm_heap s a) = Inr e" "free_lock (others t rid s) e"
    "\<forall>utc n. counted utc n (others t rid s) e = counted utc n (others t rid s) (lm_heap s a)"
    using taken_release [OF assms(2)] by blast
  have c: "counted utc 1 (others t rid s) (lm_heap s a)" using run by (simp only: running_def)
  have l: "leave_lock a s = modify_entry a (\<lambda>_. e) s" by (simp add: leave_lock_def e(1))
  have "running utc t rid a (modify_entry a (\<lambda>_. e) s)"
    using e(3) c by (intro running_modify [OF run]) blast
  then show ?thesis unfolding l using e(2) by simp
qed

lemma abandon_inv:
  assumes "running utc t rid a s" and "taken_lock None (others t rid s) (lm_heap s a)"
    and "tk_resource k = rid" "tk_entry k = a"
  shows "lock_inv utc (abandon t k s)"
  unfolding abandon_def assms(3,4)
  using leave_lock_running [OF assms(1,2)] by (intro checkin_inv [where a = a]) blast+

text \<open>The running task settles: it is inside now, or it waits.\<close>

lemma settle_modified:
  assumes run: "running utc t rid a s" and k: "tk_resource k = rid" "tk_entry k = a"
    and "entry_ok utc ((group_of s rid)(t \<mapsto> tk_phase k)) (f (lm_heap s a))"
  shows "lock_inv utc (put_task t (Some k) (modify_entry a f s))"
proof -
  let ?s = "put_task t (Some k) (modify_entry a f s)"
  have "entry_ok utc (group_of ?s r) (lm_heap ?s b)" if lk: "locks s r = Some b" for r b
  proof (cases "r = rid")
    case True
    with assms that show ?thesis by (simp add: group_put_Some running_def)
  next
    case False
    with run lk have "b \<noteq> a" by (auto simp: running_def table_ok_def)
    with False run lk show ?thesis using k by (simp add: group_put_Some group_absent) (simp add: running_def)
  qed
  moreover have "table_ok {} ?s" using run k by (auto simp: running_def table_ok_def)
  ultimately show ?thesis by (simp add: lock_inv_def)
qed

lemma modify_id: "modify_entry a (\<lambda>e. e) s = s"
  by (simp add: modify_entry_def)

lemmas settle_inv = settle_modified [where f = "\<lambda>e. e", unfolded modify_id]

lemma counted_in:
  assumes "counted utc 1 (M(t := None)) e" and "distinct (map fst ws)" "fst ` set ws = {u. (M(t \<mapsto> p)) u = Some WAITING}"
  shows "counted utc 0 (M(t \<mapsto> p)) (e\<lparr>le_waiters := ws\<rparr>)"
proof -
  have "dom (M(t \<mapsto> p)) = insert t (dom (M(t := None)))" by auto
  moreover have "t \<notin> dom (M(t := None))" by auto
  moreover have "finite (dom (M(t := None)))" using assms(1) by (simp only: counted_def)
  ultimately have "card (dom (M(t \<mapsto> p))) = card (dom (M(t := None))) + 1"
    by (simp add: card.insert_remove)
  then show ?thesis using assms by (auto simp: counted_def)
qed

lemma taken_inside:
  "taken_lock acq (M(t := None)) e \<Longrightarrow> held_lock (M(t \<mapsto> INSIDE acq)) e"
  by (auto simp: taken_lock_def held_lock_def nobody_inside_def split: if_splits)

lemma counted_inside:
  assumes "counted utc 1 (M(t := None)) e"
  shows "counted utc 0 (M(t \<mapsto> INSIDE acq)) e"
proof -
  have w: "fst ` set (le_waiters e) = {u. (M(t := None)) u = Some WAITING}"
    "distinct (map fst (le_waiters e))" using assms by (simp_all add: counted_def)
  then have "fst ` set (le_waiters e) = {u. (M(t \<mapsto> INSIDE acq)) u = Some WAITING}" by auto
  then show ?thesis using counted_in [OF assms, of "le_waiters e" "INSIDE acq"] w(2) by simp
qed

lemma settle_inside:
  assumes run: "running utc t rid a s" and k: "tk_resource k = rid" "tk_entry k = a"
    and "taken_lock acq (others t rid s) (lm_heap s a)"
  shows "lock_inv utc (put_task t (Some (k\<lparr>tk_phase := INSIDE acq\<rparr>)) s)"
proof (rule settle_inv [OF run])
  have "counted utc 1 (others t rid s) (lm_heap s a)" using run by (simp add: running_def)
  then show "entry_ok utc ((group_of s rid)(t \<mapsto> tk_phase (k\<lparr>tk_phase := INSIDE acq\<rparr>))) (lm_heap s a)"
    using assms(4) by (simp add: entry_ok_def others_def counted_inside taken_inside)
qed (simp_all add: k)

text \<open>
  Entering: the identity is fresh, the entry is the table's and not active, so activation never
  finds an inconsistent state.
\<close>

lemma running_sequence [simp]: "running utc t rid a (s\<lparr>lm_sequence := i\<rparr>) = running utc t rid a s"
  by (simp add: running_def table_ok_def)

lemma activate_taken:
  assumes run: "running utc t rid a s" and "taken_lock None (others t rid s) (lm_heap s a)"
  obtains s2 where "activate_acquisition rid a acq s = Inr s2" and "running utc t rid a s2"
    and "taken_lock (Some acq) (others t rid s2) (lm_heap s2 a)"
    and "deactivate_acquisition rid a acq s2 =
      modify_entry a (\<lambda>e. e\<lparr>active_acquisition := None\<rparr>) s2"
proof
  let ?s2 = "modify_entry a (\<lambda>e. e\<lparr>active_acquisition := Some acq\<rparr>) s"
  have lk: "locks s rid = Some a" using run by (simp add: running_def)
  show "activate_acquisition rid a acq s = Inr ?s2"
    using lk assms(2) by (simp add: activate_acquisition_def taken_lock_def)
  show "running utc t rid a ?s2"
    using run by (intro running_modify) (simp_all add: running_def counted_def)
  show "taken_lock (Some acq) (others t rid ?s2) (lm_heap ?s2 a)"
    using assms(2) by (simp add: taken_lock_def)
  show "deactivate_acquisition rid a acq ?s2 =
      modify_entry a (\<lambda>e. e\<lparr>active_acquisition := None\<rparr>) ?s2"
    using lk by (simp add: deactivate_acquisition_def)
qed

lemma deactivate_taken:
  assumes "running utc t rid a s" and "taken_lock (Some acq) (others t rid s) (lm_heap s a)"
  shows "running utc t rid a (modify_entry a (\<lambda>e. e\<lparr>active_acquisition := None\<rparr>) s) \<and>
    taken_lock None (others t rid s)
      (lm_heap (modify_entry a (\<lambda>e. e\<lparr>active_acquisition := None\<rparr>) s) a)"
proof
  show "running utc t rid a (modify_entry a (\<lambda>e. e\<lparr>active_acquisition := None\<rparr>) s)"
    using assms(1) by (intro running_modify) (simp_all add: running_def counted_def)
qed (use assms(2) in \<open>simp add: taken_lock_def\<close>)

lemma enter_inv:
  assumes run: "running utc t rid a s" and k: "tk_resource k = rid" "tk_entry k = a"
    and taken: "taken_lock None (others t rid s) (lm_heap s a)"
  shows "lock_inv utc (enter_body t k s)"
proof (cases "tk_call k")
  case Plain
  then show ?thesis using settle_inside [OF run k taken] by (simp add: enter_body_def)
next
  case (Evidenced raw ok)
  show ?thesis
  proof (cases "new_acquisition_id raw s")
    case (Inl x)
    with Evidenced show ?thesis using abandon_inv [OF run taken k] by (simp add: enter_body_def)
  next
    case (Inr z)
    obtain acq s1 where z: "z = (acq, s1)" by (cases z)
    have s1: "s1 = s\<lparr>lm_sequence := lm_sequence s + 1\<rparr>"
      using Inr z by (auto simp: new_acquisition_id_def split: if_splits)
    have "running utc t rid a s1" "taken_lock None (others t rid s1) (lm_heap s1 a)"
      using run taken s1 by simp_all
    from activate_taken [OF this, of acq] obtain s2 where
      s2: "activate_acquisition rid a acq s1 = Inr s2" "running utc t rid a s2"
        "taken_lock (Some acq) (others t rid s2) (lm_heap s2 a)"
        "deactivate_acquisition rid a acq s2 = modify_entry a (\<lambda>e. e\<lparr>active_acquisition := None\<rparr>) s2"
      by blast
    have "lock_inv utc (abandon t k (modify_entry a (\<lambda>e. e\<lparr>active_acquisition := None\<rparr>) s2))"
      using deactivate_taken [OF s2(2,3)] k by (intro abandon_inv) simp_all
    then show ?thesis
      using Evidenced Inr z k s2(1,4) settle_inside [OF s2(2) k s2(3)]
      by (simp add: enter_body_def)
  qed
qed

section \<open>Every step keeps the invariant\<close>

text \<open>Picking a task of the table makes it the running one.\<close>

lemma set_drop: "fst ` set (le_waiters (drop_waiter t e)) = fst ` set (le_waiters e) - {t}"
  by (auto simp: drop_waiter_def)

lemma pick_counted:
  assumes "counted utc 0 M e" and "M t \<noteq> None"
  shows "counted utc 1 (M(t := None)) (drop_waiter t e)"
proof -
  have t: "t \<in> dom M" using assms(2) by auto
  note c = countedD [OF assms(1)]
  note fin = c(1) and d = c(5) and w = c(6) and r = c(2,3,4) [unfolded add_0_right]
  have "card (dom (M(t := None))) + 1 = card (dom M)"
    using card_Suc_Diff1 [OF fin t] by simp
  moreover have "{u. M u = Some WAITING} - {t} = {u. (M(t := None)) u = Some WAITING}" by auto
  moreover have "distinct (map fst (le_waiters (drop_waiter t e)))"
    using d by (simp add: drop_waiter_def distinct_map_filter)
  moreover have "refcount (drop_waiter t e) = refcount e" by (simp add: drop_waiter_def)
  ultimately show ?thesis
    using fin r unfolding counted_def set_drop w by simp
qed

lemma pick_running:
  assumes inv: "lock_inv utc s" and t: "lm_tasks s t = Some k"
    and f: "\<And>M. counted utc 0 M (lm_heap s (tk_entry k)) \<Longrightarrow> M t \<noteq> None \<Longrightarrow>
      counted utc 1 (M(t := None)) (f (lm_heap s (tk_entry k)))"
  shows "running utc t (tk_resource k) (tk_entry k) (modify_entry (tk_entry k) f s)"
    and "entry_ok utc (group_of s (tk_resource k)) (lm_heap s (tk_entry k))"
    and "group_of s (tk_resource k) t = Some (tk_phase k)"
proof -
  let ?rid = "tk_resource k" and ?a = "tk_entry k" and ?s = "modify_entry (tk_entry k) f s"
  have tab: "table_ok {} s" using inv by (simp add: lock_inv_def)
  then have lk: "locks s ?rid = Some ?a" using t by (auto simp: table_ok_def)
  then show ok: "entry_ok utc (group_of s ?rid) (lm_heap s ?a)" using inv by (simp add: lock_inv_def)
  show g: "group_of s ?rid t = Some (tk_phase k)" using t by (simp add: group_of_def)
  have neq: "b \<noteq> ?a" if "r \<noteq> ?rid" "locks s r = Some b" for r b
    using tab lk that by (auto simp: table_ok_def)
  have "table_ok {t} ?s" using tab by (simp add: table_ok_def)
  moreover have "entry_ok utc (group_of ?s r) (lm_heap ?s b)" if "r \<noteq> ?rid" "locks ?s r = Some b" for r b
    using inv neq that by (simp add: lock_inv_def)
  moreover have "counted utc 1 (others t ?rid ?s) (lm_heap ?s ?a)"
    using f [of "group_of s ?rid"] ok g by (simp add: entry_ok_def others_def)
  ultimately show "running utc t ?rid ?a ?s" using lk t by (simp add: running_def)
qed

lemma free_or_held_drop:
  assumes "free_lock M e \<or> held_lock M e" and "M t = Some WAITING"
  shows "let e' = drop_waiter t e; e' = (if le_locked e' then e' else wake_up_first e')
    in free_lock (M(t := None)) e' \<or> held_lock (M(t := None)) e'"
proof (cases "le_locked e")
  case True
  then have h: "held_lock M e" using assms(1) by (simp add: free_lock_def)
  then obtain h where "M h = Some (INSIDE (active_acquisition e))" "\<forall>u acq. M u = Some (INSIDE acq) \<longrightarrow> u = h"
    by (auto simp: held_lock_def)
  then have "(M(t := None)) h = Some (INSIDE (active_acquisition (drop_waiter t e)))"
      "\<forall>u acq. (M(t := None)) u = Some (INSIDE acq) \<longrightarrow> u = h"
    using assms(2) by (auto simp: drop_waiter_def)
  moreover have "le_locked (drop_waiter t e)" "calm (le_waiters (drop_waiter t e))"
    using h by (simp_all add: held_lock_def drop_waiter_def)
  ultimately have "held_lock (M(t := None)) (drop_waiter t e)" unfolding held_lock_def by blast
  then show ?thesis using True by (simp add: drop_waiter_def)
next
  case False
  then have f: "free_lock M e" using assms(1) by (simp add: held_lock_def)
  have n: "nobody_inside (M(t := None))" using f by (auto simp: free_lock_def nobody_inside_def)
  have "free_lock (M(t := None)) (wake_up_first (drop_waiter t e))"
  proof (rule wake_free [OF _ n])
    show "\<not> le_locked (drop_waiter t e)" "active_acquisition (drop_waiter t e) = None"
      using f by (simp_all add: free_lock_def drop_waiter_def)
    have "calm (tl (le_waiters e))" using f by (cases "le_waiters e") (auto simp: free_lock_def)
    then show "calm (tl (le_waiters (drop_waiter t e)))"
      by (cases "le_waiters e") (auto simp: drop_waiter_def intro: calm_tl)
  qed
  then show ?thesis using False by (simp add: drop_waiter_def)
qed

lemma resume_inv:
  assumes inv: "lock_inv utc s" and t: "lm_tasks s t = Some k" and w: "tk_phase k = WAITING"
    "waiter_of t k s = Some W_WOKEN"
  shows "lock_inv utc (resume t k s)"
proof -
  let ?f = "\<lambda>e. (drop_waiter t e)\<lparr>le_locked := True\<rparr>" and ?e = "lm_heap s (tk_entry k)"
  let ?M = "group_of s (tk_resource k)"
  note pick = pick_running [OF inv t, of ?f]
  have c: "counted utc 1 (M(t := None)) (?f e)" if "counted utc 0 M e" "M t \<noteq> None" for M e
    using pick_counted [OF that] counted_fields [of "?f e" "drop_waiter t e"] by simp
  have run: "running utc t (tk_resource k) (tk_entry k) (modify_entry (tk_entry k) ?f s)"
    and ok: "entry_ok utc ?M ?e" "?M t = Some WAITING"
    using pick c w(1) by auto
  have mem: "(t, W_WOKEN) \<in> set (le_waiters ?e)" using w(2) by (auto simp: waiter_of_def dest: map_of_SomeD)
  have free: "free_lock ?M ?e"
  proof (rule ccontr)
    assume "\<not> free_lock ?M ?e"
    then have "calm (le_waiters ?e)" using ok(1) by (simp add: entry_ok_def held_lock_def)
    with mem show False by (auto simp: calm_def list_all_iff)
  qed
  then obtain x ws where ws: "le_waiters ?e = x # ws" "calm ws"
    using mem by (auto simp: free_lock_def split: list.splits)
  with mem have "x = (t, W_WOKEN)" by (auto simp: calm_def list_all_iff)
  then have "calm (le_waiters (drop_waiter t ?e))" using ws by (simp add: drop_waiter_def)
  then have "taken_lock None (others t (tk_resource k) s) (?f ?e)"
    using free by (auto simp: taken_lock_def free_lock_def nobody_inside_def others_def drop_waiter_def)
  then show ?thesis unfolding resume_def by (intro enter_inv [OF run]) simp_all
qed

lemma resume_cancelled_inv:
  assumes inv: "lock_inv utc s" and t: "lm_tasks s t = Some k" and w: "tk_phase k = WAITING"
  shows "lock_inv utc (resume_cancelled t k s)"
proof -
  let ?f = "\<lambda>e. let e = drop_waiter t e in if le_locked e then e else wake_up_first e"
  let ?M = "group_of s (tk_resource k)" and ?e = "lm_heap s (tk_entry k)"
  note pick = pick_running [OF inv t, of ?f]
  have c: "counted utc 1 (M(t := None)) (?f e)" if "counted utc 0 M e" "M t \<noteq> None" for M e
    using pick_counted [OF that] by (simp add: Let_def)
  have run: "running utc t (tk_resource k) (tk_entry k) (modify_entry (tk_entry k) ?f s)"
    and ok: "entry_ok utc ?M ?e" "?M t = Some WAITING"
    using pick c w by auto
  have "free_lock ?M ?e \<or> held_lock ?M ?e" using ok(1) by (simp add: entry_ok_def)
  from free_or_held_drop [OF this ok(2)] show ?thesis
    unfolding resume_cancelled_def
    by (intro checkin_inv [OF run]) (simp add: Let_def others_def)
qed

lemma cancel_state_simps [simp]:
  "cancel_state W_PENDING = W_CANCELLED" "cancel_state W_CANCELLED = W_CANCELLED"
  "cancel_state w \<noteq> W_PENDING"
  by (auto simp: cancel_state_def split: waiter_state.splits)

lemma cancel_calm: "calm ws \<Longrightarrow> calm (map (\<lambda>(u, w). (u, if u = t then cancel_state w else w)) ws)"
  by (induction ws) (auto split: if_splits)

lemma cancel_fst: "map fst (map (\<lambda>(u, w). (u, if u = t then cancel_state w else w)) ws) = map fst ws"
  by (induction ws) auto

lemma request_cancel_inv:
  assumes inv: "lock_inv utc s" and t: "lm_tasks s t = Some k"
  shows "lock_inv utc (request_cancel t k s)"
proof -
  let ?g = "\<lambda>ws. map (\<lambda>(u, w). (u, if u = t then cancel_state w else w)) ws"
  let ?e = "\<lambda>e. e\<lparr>le_waiters := ?g (le_waiters e)\<rparr>"
  have dict: "fst ` set (?g ws) = fst ` set ws" for ws
    using cancel_fst [of t ws] by (metis set_map)
  have "counted utc 0 M (?e e) = counted utc 0 M e" for M e
    by (simp add: counted_def dict cancel_fst del: map_map set_map)
  moreover have "held_lock M (?e e)" if "held_lock M e" for M e
    using that by (auto simp: held_lock_def cancel_calm)
  moreover have "free_lock M (?e e)" if "free_lock M e" for M e
    using that by (cases "le_waiters e") (auto simp: free_lock_def cancel_calm split: if_splits)
  ultimately have "entry_ok utc M (?e e)" if "entry_ok utc M e" for M e
    using that unfolding entry_ok_def by blast
  then show ?thesis using inv by (auto simp: request_cancel_def lock_inv_def table_ok_def)
qed

text \<open>Leaving the body.\<close>

lemma inside_taken:
  assumes "entry_ok utc M e" and "M t = Some (INSIDE acq)"
  shows "taken_lock acq (M(t := None)) e"
proof -
  have "held_lock M e" using assms by (auto simp: entry_ok_def free_lock_def nobody_inside_def)
  with assms(2) show ?thesis by (auto simp: held_lock_def taken_lock_def nobody_inside_def)
qed

lemma inside_counted:
  assumes "counted utc 0 M e" and "M t = Some (INSIDE acq)"
  shows "counted utc 1 (M(t := None)) e"
proof -
  have "t \<notin> fst ` set (le_waiters e)" using assms(2) unfolding countedD(6) [OF assms(1)] by simp
  then have "filter (\<lambda>w. fst w \<noteq> t) (le_waiters e) = le_waiters e" by (force intro: filter_True)
  then have "drop_waiter t e = e" by (simp add: drop_waiter_def)
  with pick_counted [OF assms(1), of t] assms(2) show ?thesis by simp
qed

lemma inside_running:
  assumes inv: "lock_inv utc s" and t: "lm_tasks s t = Some k" and p: "tk_phase k = INSIDE acq"
  shows "running utc t (tk_resource k) (tk_entry k) s"
    and "taken_lock acq (others t (tk_resource k) s) (lm_heap s (tk_entry k))"
proof -
  let ?rid = "tk_resource k" and ?a = "tk_entry k"
  have tab: "table_ok {} s" using inv by (simp add: lock_inv_def)
  then have lk: "locks s ?rid = Some ?a" using t by (auto simp: table_ok_def)
  then have ok: "entry_ok utc (group_of s ?rid) (lm_heap s ?a)" using inv by (simp add: lock_inv_def)
  have g: "group_of s ?rid t = Some (INSIDE acq)" using t p by (simp add: group_of_def)
  show "taken_lock acq (others t ?rid s) (lm_heap s ?a)"
    using inside_taken [OF ok g] by (simp add: others_def)
  have "counted utc 0 (group_of s ?rid) (lm_heap s ?a)" using ok by (simp add: entry_ok_def)
  from inside_counted [OF this g] have "counted utc 1 (others t ?rid s) (lm_heap s ?a)"
    by (simp add: others_def)
  moreover have "table_ok {t} s" using tab by (simp add: table_ok_def)
  ultimately show "running utc t ?rid ?a s"
    using inv t lk by (simp add: running_def lock_inv_def)
qed

text \<open>A skipped \<open>_checkin\<close> leaves a reference behind that no task holds.\<close>

lemma leak_inv:
  assumes run: "running False t rid a s" and "free_lock (others t rid s) (lm_heap s a)"
  shows "lock_inv False (put_task t None s)"
proof -
  have "counted False 0 (others t rid s) (lm_heap s a)"
    using run by (auto simp: running_def counted_def)
  then have "entry_ok False (group_of (put_task t None s) rid) (lm_heap s a)"
    using assms(2) by (simp add: entry_ok_def others_def)
  then have "entry_ok False (group_of (put_task t None s) r) (lm_heap s b)" if "locks s r = Some b" for r b
    using that run group_absent [OF run, of r] by (cases "r = rid") (auto simp: running_def)
  moreover have "table_ok {} (put_task t None s)"
    using run by (auto simp: running_def table_ok_def split: if_splits)
  ultimately show ?thesis by (simp add: lock_inv_def)
qed

lemma leave_inv:
  assumes inv: "lock_inv utc s" and t: "lm_tasks s t = Some k" and p: "tk_phase k = INSIDE acq"
    and "utc \<longrightarrow> receipt_ok"
  shows "lock_inv utc (leave_body t k receipt_ok s)"
proof (cases acq)
  case None
  have "lock_inv utc (abandon t k s)"
    using inside_running [OF inv t p] None by (intro abandon_inv) simp_all
  then show ?thesis using None p by (simp add: leave_body_def)
next
  case (Some x)
  let ?rid = "tk_resource k" and ?a = "tk_entry k"
  let ?s = "modify_entry ?a (\<lambda>e. e\<lparr>active_acquisition := None\<rparr>) s"
  note r = inside_running [OF inv t p, unfolded Some]
  have d: "deactivate_acquisition ?rid ?a x s = ?s"
    using r by (simp add: deactivate_acquisition_def running_def taken_lock_def)
  note r2 = deactivate_taken [OF r, THEN conjunct1]
  note k2 = deactivate_taken [OF r, THEN conjunct2]
  have left: "running utc t ?rid ?a (leave_lock ?a ?s)"
    "free_lock (others t ?rid (leave_lock ?a ?s)) (lm_heap (leave_lock ?a ?s) ?a)"
    using leave_lock_running [OF r2] k2 by simp_all
  show ?thesis
  proof (cases receipt_ok)
    case True
    then show ?thesis
      using checkin_inv [OF left(1)] left(2) by (simp add: leave_body_def p Some d)
  next
    case False
    with assms(4) have "utc = False" by simp
    with leak_inv [OF left(1) [unfolded this] left(2)] False show ?thesis
      by (simp add: leave_body_def p Some d)
  qed
qed

text \<open>Arriving: a known entry is shared, an unknown resource gets a fresh one.\<close>

lemma entry_absent:
  assumes inv: "lock_inv utc s" and "locks s rid = None"
  shows "group_of s rid = Map.empty"
  using assms by (auto simp: lock_inv_def table_ok_def group_of_def fun_eq_iff split: option.splits)

lemma checkout_running:
  assumes inv: "lock_inv utc s" and new: "lm_tasks s t = None" and out: "checkout rid s = (a, s')"
  shows "running utc t rid a s' \<and> lm_tasks s' = lm_tasks s \<and> others t rid s' = group_of s rid \<and>
    (free_lock (group_of s rid) (lm_heap s' a) \<or> held_lock (group_of s rid) (lm_heap s' a))"
proof -
  have tab: "table_ok {} s" using inv by (simp add: lock_inv_def)
  have abs: "(group_of s r)(t := None) = group_of s r" for r
    using new by (auto simp: group_of_def fun_eq_iff)
  have inc: "counted utc 1 M (e\<lparr>refcount := refcount e + 1\<rparr>)" if "counted utc 0 M e" for M e
    using that by (simp add: counted_def)
  show ?thesis
  proof (cases "locks s rid")
    case (Some b)
    have s': "a = b" "s' = modify_entry b (\<lambda>e. e\<lparr>refcount := refcount e + 1\<rparr>) s"
      using out Some by (auto simp: checkout_def)
    have ok: "entry_ok utc (group_of s rid) (lm_heap s b)" using inv Some by (simp add: lock_inv_def)
    have neq: "c \<noteq> b" if "r \<noteq> rid" "locks s r = Some c" for r c
      using tab Some that by (auto simp: table_ok_def)
    have cnt: "counted utc 1 (group_of s rid) ((lm_heap s b)\<lparr>refcount := refcount (lm_heap s b) + 1\<rparr>)"
      using ok by (intro inc) (simp add: entry_ok_def)
    have rest: "entry_ok utc (group_of s r) (lm_heap s c)" if "locks s r = Some c" for r c
      using inv that by (simp add: lock_inv_def)
    have "table_ok {t} s" using tab by (simp add: table_ok_def)
    then have "running utc t rid a s'"
      unfolding s' running_def using Some new neq cnt rest
      by (simp add: others_def abs table_ok_cong [of "modify_entry b f s" s for f])
    then show ?thesis using ok by (simp add: s' others_def abs entry_ok_def free_lock_def held_lock_def)
  next
    case None
    let ?a = "next_address s"
    have s': "a = ?a" "s' = modify_entry ?a (\<lambda>e. e\<lparr>refcount := refcount e + 1\<rparr>)
        (s\<lparr>next_address := Suc ?a, locks := (locks s)(rid \<mapsto> ?a),
           lm_heap := (lm_heap s)(?a := lock_entry_init)\<rparr>)"
      using out None by (auto simp: checkout_def Let_def)
    have e: "group_of s rid = Map.empty" by (rule entry_absent [OF inv None])
    have old: "c < ?a" if "locks s r = Some c" for r c
      using tab that by (auto simp: table_ok_def)
    have g: "group_of s' = group_of s" by (simp add: s' group_of_def fun_eq_iff)
    have f: "free_lock Map.empty (lm_heap s' a)"
      by (simp add: s' free_lock_def lock_entry_init_def nobody_inside_def)
    have "table_ok {t} s'"
      unfolding table_ok_def
    proof (intro conjI allI impI)
      fix u k assume "u \<notin> {t}" "lm_tasks s' u = Some k"
      then have "locks s (tk_resource k) = Some (tk_entry k)" using tab by (auto simp: s' table_ok_def)
      then show "locks s' (tk_resource k) = Some (tk_entry k)" using None by (auto simp: s')
    next
      fix r r' c assume "locks s' r = Some c" "locks s' r' = Some c"
      then show "r = r'" using old [of r c] old [of r' c] tab
        by (auto simp: s' table_ok_def split: if_splits)
    next
      fix r c assume "locks s' r = Some c"
      then show "c < next_address s'" using old [of r c] by (auto simp: s' split: if_splits)
    qed
    moreover have "entry_ok utc (group_of s r) (lm_heap s' c)" if "r \<noteq> rid" "locks s' r = Some c" for r c
      using that old [of r c] inv by (auto simp: s' lock_inv_def)
    moreover have "counted utc 1 Map.empty (lm_heap s' a)"
      by (simp add: s' counted_def lock_entry_init_def)
    ultimately have "running utc t rid a s'"
      unfolding running_def g others_def e using new by (simp add: s')
    then show ?thesis using f e by (simp add: g others_def) (simp add: s')
  qed
qed

lemma join_queue:
  assumes cnt: "counted utc 1 (M(t := None)) e" and wait: "\<not> lock_available e"
    and "free_lock (M(t := None)) e \<or> held_lock (M(t := None)) e"
  shows "entry_ok utc (M(t \<mapsto> WAITING)) (e\<lparr>le_waiters := le_waiters e @ [(t, W_PENDING)]\<rparr>)"
proof -
  let ?M = "M(t \<mapsto> WAITING)" and ?e = "e\<lparr>le_waiters := le_waiters e @ [(t, W_PENDING)]\<rparr>"
  note c = countedD [OF cnt]
  have t: "t \<notin> fst ` set (le_waiters e)" unfolding c(6) by simp
  have "counted utc 0 ?M ?e"
  proof (rule counted_in [OF cnt])
    show "distinct (map fst (le_waiters e @ [(t, W_PENDING)]))" using c(5) t by simp
    show "fst ` set (le_waiters e @ [(t, W_PENDING)]) = {u. ?M u = Some WAITING}"
      unfolding set_append image_Un c(6) by auto
  qed
  moreover have "free_lock ?M ?e" if f: "free_lock (M(t := None)) e"
  proof -
    obtain w ws where "le_waiters e = w # ws"
      using f wait by (cases "le_waiters e") (auto simp: free_lock_def lock_available_def)
    with f show ?thesis by (auto simp: free_lock_def nobody_inside_def split: if_splits)
  qed
  moreover have "held_lock ?M ?e" if h: "held_lock (M(t := None)) e"
  proof -
    obtain x where x: "(M(t := None)) x = Some (INSIDE (active_acquisition e))"
      "\<forall>u acq. (M(t := None)) u = Some (INSIDE acq) \<longrightarrow> u = x" using h by (auto simp: held_lock_def)
    have "x \<noteq> t" using x(1) by auto
    then have "?M x = Some (INSIDE (active_acquisition ?e))" using x(1) by simp
    moreover have "u = x" if "?M u = Some (INSIDE acq)" for u acq
    proof -
      have "u \<noteq> t" using that by auto
      then show ?thesis using that x(2) by simp
    qed
    moreover have "le_locked ?e" "calm (le_waiters ?e)" using h by (simp_all add: held_lock_def)
    ultimately show ?thesis unfolding held_lock_def by blast
  qed
  ultimately show ?thesis using assms(3) unfolding entry_ok_def by blast
qed

lemma arrive_inv:
  assumes inv: "lock_inv utc s" and new: "lm_tasks s t = None"
  shows "lock_inv utc (arrive t rid call s)"
proof -
  obtain a s' where out: "checkout rid s = (a, s')" by (cases "checkout rid s")
  note r = checkout_running [OF inv new out]
  let ?k = "\<lparr>tk_resource = rid, tk_entry = a, tk_call = call, tk_phase = WAITING\<rparr>"
  let ?e = "lm_heap s' a" and ?M = "group_of s' rid"
  have oth: "others t rid s' = ?M(t := None)" by (simp add: others_def)
  show ?thesis
  proof (cases "lock_available ?e")
    case True
    let ?f = "\<lambda>e. e\<lparr>le_locked := True\<rparr>"
    have "calm (le_waiters ?e)" using True by (auto simp: lock_available_def calm_def list_all_iff)
    moreover have "free_lock (others t rid s') ?e"
      using r True by (auto simp: lock_available_def held_lock_def)
    ultimately have "taken_lock None (others t rid s') (?f ?e)"
      by (simp add: taken_lock_def free_lock_def)
    moreover have "running utc t rid a (modify_entry a ?f s')"
    proof (rule running_modify)
      show run: "running utc t rid a s'" using r by blast
      show "counted utc 1 (others t rid s') (?f ?e)"
        using run counted_fields [of "?f ?e" ?e] by (simp add: running_def)
    qed
    ultimately have "lock_inv utc (enter_body t ?k (modify_entry a ?f s'))"
      by (intro enter_inv [where rid = rid and a = a]) simp_all
    then show ?thesis using True by (simp add: arrive_def out)
  next
    case False
    have "entry_ok utc (?M(t \<mapsto> tk_phase ?k)) (?e\<lparr>le_waiters := le_waiters ?e @ [(t, W_PENDING)]\<rparr>)"
    proof -
      have "counted utc 1 (?M(t := None)) ?e"
        using r [THEN conjunct1] unfolding running_def oth by blast
      from join_queue [OF this False] r show ?thesis by (simp add: oth)
    qed
    then have "lock_inv utc (put_task t (Some ?k)
        (modify_entry a (\<lambda>e. e\<lparr>le_waiters := le_waiters e @ [(t, W_PENDING)]\<rparr>) s'))"
      using r by (intro settle_modified [where rid = rid]) simp_all
    then show ?thesis using False by (simp add: arrive_def out)
  qed
qed

lemma lock_inv_step: "lock_inv utc s \<Longrightarrow> lock_step utc s s' \<Longrightarrow> lock_inv utc s'"
  by (erule lock_step.cases)
    (auto intro: arrive_inv resume_inv resume_cancelled_inv request_cancel_inv leave_inv)

interpretation resource_locks: safe_system lock_start "lock_step utc" "lock_inv utc" for utc
proof unfold_locales
  show "lock_inv utc s" if "lock_start s" for s
    using that by (simp add: lock_start_def lock_manager_init_def lock_inv_def table_ok_def)
qed (rule lock_inv_step)

section \<open>What the manager guarantees\<close>

lemma reachable_entry:
  assumes "reachable lock_start (lock_step utc) s" and "lm_tasks s t = Some k"
  shows "locks s (tk_resource k) = Some (tk_entry k) \<and>
    entry_ok utc (group_of s (tk_resource k)) (lm_heap s (tk_entry k)) \<and>
    group_of s (tk_resource k) t = Some (tk_phase k)"
proof -
  have "lock_inv utc s" by (rule resource_locks.reachable_inv [OF assms(1)])
  with assms(2) have "locks s (tk_resource k) = Some (tk_entry k)"
    by (auto simp: lock_inv_def table_ok_def)
  with \<open>lock_inv utc s\<close> assms(2) show ?thesis by (simp add: lock_inv_def group_of_def)
qed

text \<open>
  C31: In every interleaving of arrivals, wake-ups, cancellations and exits, at most one
  task is inside the body for a resource, the lock is then held, and the task owns its
  acquisition.
\<close>

theorem lock_mutual_exclusion:
  assumes "reachable lock_start (lock_step utc) s"
    and "lm_tasks s t = Some k" "tk_phase k = INSIDE acq"
    and "lm_tasks s u = Some k'" "tk_phase k' = INSIDE acq'" "tk_resource k = tk_resource k'"
  shows "t = u \<and> snapshot s (tk_resource k) = Some True \<and>
    (\<forall>a. acq = Some a \<longrightarrow> owns_acquisition (tk_resource k) (tk_entry k) a s)"
proof -
  note e = reachable_entry [OF assms(1,2)] and e' = reachable_entry [OF assms(1,4)]
  then have "held_lock (group_of s (tk_resource k)) (lm_heap s (tk_entry k))"
    using assms(3) by (auto simp: entry_ok_def free_lock_def nobody_inside_def)
  then obtain h where h: "group_of s (tk_resource k) h =
      Some (INSIDE (active_acquisition (lm_heap s (tk_entry k))))" "le_locked (lm_heap s (tk_entry k))"
    "\<forall>v acq. group_of s (tk_resource k) v = Some (INSIDE acq) \<longrightarrow> v = h"
    by (auto simp: held_lock_def)
  have "t = h" "u = h" using h(3) e e' assms(3,5,6) by auto
  then show ?thesis using e h(1,2) assms(3) by (auto simp: snapshot_def owns_acquisition_def)
qed

text \<open>
  With a clock that does not fail, a resource has an entry exactly while some task waits or
  runs on it, and the reference count is the number of these tasks.
\<close>

theorem lock_entries_are_counted:
  assumes "reachable lock_start (lock_step True) s"
  shows "(locks s rid \<noteq> None \<longleftrightarrow> (\<exists>t k. lm_tasks s t = Some k \<and> tk_resource k = rid)) \<and>
    (\<forall>a. locks s rid = Some a \<longrightarrow>
       refcount (lm_heap s a) = int (card {t. \<exists>k. lm_tasks s t = Some k \<and> tk_resource k = rid}))"
proof -
  have inv: "lock_inv True s" by (rule resource_locks.reachable_inv [OF assms])
  have d: "dom (group_of s rid) = {t. \<exists>k. lm_tasks s t = Some k \<and> tk_resource k = rid}"
    by (auto simp: group_of_def dom_def split: option.splits if_splits)
  have e: "refcount (lm_heap s a) = int (card (dom (group_of s rid))) \<and> 0 < refcount (lm_heap s a)"
    if "locks s rid = Some a" for a
    using inv that countedD(3,4) [of True 0 "group_of s rid" "lm_heap s a"]
    by (simp add: lock_inv_def entry_ok_def)
  have "locks s rid \<noteq> None" if "lm_tasks s t = Some k" "tk_resource k = rid" for t k
    using inv that by (auto simp: lock_inv_def table_ok_def)
  moreover have "dom (group_of s rid) \<noteq> {}" if "locks s rid = Some a" for a
    using e [OF that] by (metis card.empty less_irrefl of_nat_0)
  ultimately show ?thesis using e unfolding d by fastforce
qed

text \<open>
  C32: A task waits only while the lock is held or a task of the same resource has been
  woken or cancelled and will run next.
\<close>

theorem lock_never_stalls:
  assumes "reachable lock_start (lock_step utc) s"
    and "lm_tasks s t = Some k" "tk_phase k = WAITING"
  shows "snapshot s (tk_resource k) = Some True \<or>
    (\<exists>u k' w. lm_tasks s u = Some k' \<and> tk_resource k' = tk_resource k \<and> tk_phase k' = WAITING \<and>
       waiter_of u k' s = Some w \<and> w \<noteq> W_PENDING)"
proof (cases "le_locked (lm_heap s (tk_entry k))")
  case True
  then show ?thesis using reachable_entry [OF assms(1,2)] by (simp add: snapshot_def)
next
  case False
  note e = reachable_entry [OF assms(1,2)]
  let ?e = "lm_heap s (tk_entry k)"
  have f: "free_lock (group_of s (tk_resource k)) ?e" "counted utc 0 (group_of s (tk_resource k)) ?e"
    using e False by (auto simp: entry_ok_def held_lock_def)
  note w = countedD(6) [OF f(2)]
  have "t \<in> fst ` set (le_waiters ?e)" unfolding w using e assms(3) by simp
  then obtain u x ws where ws: "le_waiters ?e = (u, x) # ws" by (cases "le_waiters ?e") auto
  then have x: "x \<noteq> W_PENDING" using f(1) by (simp add: free_lock_def)
  have "u \<in> fst ` set (le_waiters ?e)" using ws by simp
  then have "group_of s (tk_resource k) u = Some WAITING" unfolding w by simp
  then obtain k' where k': "lm_tasks s u = Some k'" "tk_resource k' = tk_resource k" "tk_phase k' = WAITING"
    by (auto simp: group_of_def split: option.splits if_splits)
  then have "tk_entry k' = tk_entry k" using e reachable_entry [OF assms(1) k'(1)] by simp
  then have "waiter_of u k' s = Some x" by (simp add: waiter_of_def ws)
  with k' x show ?thesis by blast
qed

section \<open>A concrete run\<close>

text \<open>Task 1 enters with evidence, task 2 waits, task 1 leaves.\<close>

definition crowd :: lock_manager where
  "crowd = arrive 2 ''vm'' Plain (arrive 1 ''vm'' (Evidenced ''id'' True) lock_manager_init)"

definition holder :: lock_task where
  "holder = \<lparr>tk_resource = ''vm'', tk_entry = 0, tk_call = Evidenced ''id'' True,
     tk_phase = INSIDE (Some ''id:1'')\<rparr>"

definition waiter :: lock_task where
  "waiter = \<lparr>tk_resource = ''vm'', tk_entry = 0, tk_call = Plain, tk_phase = WAITING\<rparr>"

definition handover :: lock_manager where
  "handover = leave_body 1 holder True crowd"

lemma crowd_facts:
  "lm_tasks crowd 1 = Some holder" "lm_tasks crowd 2 = Some waiter"
  "lm_tasks handover 2 = Some waiter" "snapshot handover ''vm'' = Some False"
  "lm_tasks (arrive 1 ''vm'' (Evidenced ''id'' True) lock_manager_init) 2 = None"
  "locks crowd ''vm'' = Some 0"
  by code_simp+

lemma crowd_reachable: "reachable lock_start (lock_step utc) crowd"
  unfolding crowd_def
proof (rule reachable_step [OF reachable_step [OF reachable_start]])
  show "lock_start lock_manager_init" by (simp add: lock_start_def)
  show "lock_step utc lock_manager_init (arrive 1 ''vm'' (Evidenced ''id'' True) lock_manager_init)"
    by (rule ls_arrive) (simp add: lock_manager_init_def)
qed (rule ls_arrive, rule crowd_facts(5))

lemma handover_reachable: "reachable lock_start (lock_step utc) handover"
  unfolding handover_def
  by (rule reachable_step [OF crowd_reachable], rule ls_leave [OF crowd_facts(1)])
    (simp_all add: holder_def)

theorem lock_mutual_exclusion_witness:
  "snapshot crowd ''vm'' = Some True \<and> owns_acquisition ''vm'' 0 ''id:1'' crowd"
  using lock_mutual_exclusion [OF crowd_reachable crowd_facts(1) _ crowd_facts(1)]
  by (simp add: holder_def)

theorem lock_entries_are_counted_witness:
  "refcount (lm_heap crowd 0) =
     int (card {t. \<exists>k. lm_tasks crowd t = Some k \<and> tk_resource k = ''vm''})"
  using lock_entries_are_counted [OF crowd_reachable, of "''vm''"] crowd_facts(6) by simp

theorem lock_never_stalls_witness:
  "\<exists>u k w. lm_tasks handover u = Some k \<and> tk_resource k = ''vm'' \<and>
     waiter_of u k handover = Some w \<and> w \<noteq> W_PENDING"
  using lock_never_stalls [OF handover_reachable crowd_facts(3)] crowd_facts(4)
  by (auto simp: waiter_def)

text \<open>
  A clock that fails while the release receipt is made leaves the entry in the table for ever:
  no task is left, and the count stays above zero.
\<close>

lemma keep_tasks [simp]:
  "lm_tasks (checkin rid s) = lm_tasks s" "lm_tasks (leave_lock a s) = lm_tasks s"
  "lm_tasks (deactivate_acquisition rid a acq s) = lm_tasks s"
  by (auto simp: checkin_def leave_lock_def deactivate_acquisition_def Let_def
      split: option.splits sum.splits)

lemma leave_tasks: "lm_tasks (leave_body t k ok s) u = (if u = t then None else lm_tasks s u)"
  by (auto simp: leave_body_def abandon_def Let_def split: lock_phase.splits option.splits)

lemma enter_tasks: "u \<noteq> t \<Longrightarrow> lm_tasks (enter_body t k s) u = lm_tasks s u"
  by (auto simp: enter_body_def abandon_def new_acquisition_id_def activate_acquisition_def
      split: lock_call.splits sum.splits if_splits)

lemma arrive_tasks: "u \<noteq> t \<Longrightarrow> lm_tasks (arrive t rid c s) u = lm_tasks s u"
  by (auto simp: arrive_def checkout_def enter_tasks Let_def split: option.splits)

lemma lock_entry_leaks:
  "\<exists>s. reachable lock_start (lock_step False) s \<and> lm_tasks s = Map.empty \<and> locks s ''vm'' = Some 0"
proof (intro exI conjI)
  let ?in = "arrive 1 ''vm'' (Evidenced ''id'' True) lock_manager_init"
  let ?s = "leave_body 1 holder False ?in"
  have t: "lm_tasks ?in 1 = Some holder" by code_simp
  have "reachable lock_start (lock_step False) ?in"
  proof (rule reachable_step [OF reachable_start])
    show "lock_start lock_manager_init" by (simp add: lock_start_def)
  qed (rule ls_arrive, simp add: lock_manager_init_def)
  then show "reachable lock_start (lock_step False) ?s"
    by (rule reachable_step) (rule ls_leave [OF t], simp_all add: holder_def)
  show "locks ?s ''vm'' = Some 0" by code_simp
  have "lm_tasks ?s u = None" for u by (simp add: leave_tasks arrive_tasks lock_manager_init_def)
  then show "lm_tasks ?s = Map.empty" by (simp add: fun_eq_iff)
qed

end
