(* ===== verification/LockEvidence.thy ===== *)
theory LockEvidence
  imports Contracts
begin

text \<open>
  Evidence of resource locks (\<open>shared/providers/resource_lock.py\<close>): the acquisition request, the
  historical acquisition receipt, the live ownership assessment and the release receipt, with the
  checks their constructors run, and the activity of a held lock.

  A time is an aware datetime in microseconds; where the code takes one from outside, \<open>None\<close> is a
  naive one. Fields whose type admits one value only (schema versions, the absent authority) are left
  out. Content digests are parameters, each computed on the value without its own digest field.
\<close>

section \<open>Texts and times\<close>

definition bounded_text :: "string \<Rightarrow> bool" where
  "bounded_text s = (py_strip s \<noteq> [] \<and> length s \<le> 512)"

definition bounded_check :: "string \<Rightarrow> string \<Rightarrow> bool \<times> string" where
  "bounded_check name v = (\<not> bounded_text v, ''resource lock '' @ name @ '' MUST be bounded'')"

text \<open>\<open>commit:\<close> and 40 or 64 lowercase hexadecimal digits.\<close>

definition commit_ref :: "string \<Rightarrow> bool" where
  "commit_ref s = (starts_with ''commit:'' s \<and> length s \<in> {47, 71} \<and> list_all hex_lower (drop 7 s))"

definition lock_time :: "string \<Rightarrow> int option \<Rightarrow> int res" where
  "lock_time name v = (case v of
     None \<Rightarrow> Inl (ValueError (''resource lock '' @ name @ '' MUST include a timezone''))
   | Some t \<Rightarrow> Inr t)"

definition target_ref_check :: "string \<Rightarrow> bool \<times> string" where
  "target_ref_check ref =
     (py_strip ref = [] \<or> ref \<noteq> py_strip ref, ''resource lock target reference MUST be canonical'')"

definition lock_key_prefix :: string where
  "lock_key_prefix = ''fdai:resource:''"

definition lock_key_checks :: "string \<Rightarrow> (bool \<times> string) list" where
  "lock_key_checks key =
     [(key = [], ''resource lock lock key MUST be non-empty''),
      (key \<noteq> py_strip key \<or> \<not> starts_with lock_key_prefix key,
        ''resource lock lock key MUST be canonical''),
      target_ref_check (drop (length lock_key_prefix) key)]"

definition resource_lock_key :: "string \<Rightarrow> string res" where
  "resource_lock_key ref =
     bind_res (first_failure [target_ref_check ref]) (\<lambda>_. Inr (lock_key_prefix @ ref))"

definition resource_lock_target_digest :: "(string \<Rightarrow> string) \<Rightarrow> string \<Rightarrow> string res" where
  "resource_lock_target_digest tdg ref =
     bind_res (first_failure [target_ref_check ref]) (\<lambda>_. Inr (tdg ref))"

section \<open>Acquisition request\<close>

record acquisition_request =
  lq_target_ref :: string
  lq_lock_key :: string
  lq_target_digest :: string
  lq_action_digest :: string
  lq_attempt :: int
  lq_producer_id :: string
  lq_producer_version :: string
  lq_source_revision :: string
  lq_request_digest :: string

definition lock_request_init ::
  "(string \<Rightarrow> string) \<Rightarrow> (acquisition_request \<Rightarrow> string) \<Rightarrow> acquisition_request \<Rightarrow> acquisition_request res" where
  "lock_request_init tdg qdg q =
     bind_res (first_failure (target_ref_check (lq_target_ref q) # lock_key_checks (lq_lock_key q))) (\<lambda>_.
     bind_res (resource_lock_key (lq_target_ref q)) (\<lambda>key.
     bind_res (resource_lock_target_digest tdg (lq_target_ref q)) (\<lambda>target.
     bind_res (first_failure
       [(lq_lock_key q \<noteq> key \<or> lq_target_digest q \<noteq> target,
          ''resource lock request target identity mismatched''),
        bounded_check ''producer_id'' (lq_producer_id q),
        bounded_check ''producer_version'' (lq_producer_version q),
        (lq_attempt q < 1, ''resource lock request attempt MUST be a positive integer''),
        (\<not> list_all sha256_ref [lq_target_digest q, lq_action_digest q, lq_request_digest q],
          ''resource lock request digest fields MUST be SHA-256''),
        (\<not> commit_ref (lq_source_revision q),
          ''resource lock request source revision MUST be canonical''),
        (lq_request_digest q \<noteq> qdg (q\<lparr>lq_request_digest := []\<rparr>),
          ''resource lock request digest mismatched'')]) (\<lambda>_. Inr q))))"

definition lock_request_create ::
  "(string \<Rightarrow> string) \<Rightarrow> (acquisition_request \<Rightarrow> string) \<Rightarrow> string \<Rightarrow> string \<Rightarrow> int \<Rightarrow> string \<Rightarrow> string \<Rightarrow>
     string \<Rightarrow> acquisition_request res" where
  "lock_request_create tdg qdg ref action_dg attempt producer_id producer_version revision =
     bind_res (resource_lock_key ref) (\<lambda>key.
     bind_res (resource_lock_target_digest tdg ref) (\<lambda>target.
       let q = \<lparr>lq_target_ref = ref, lq_lock_key = key, lq_target_digest = target,
              lq_action_digest = action_dg, lq_attempt = attempt, lq_producer_id = producer_id,
              lq_producer_version = producer_version, lq_source_revision = revision,
              lq_request_digest = []\<rparr>
       in lock_request_init tdg qdg (q\<lparr>lq_request_digest := qdg q\<rparr>)))"

section \<open>Acquisition receipt\<close>

record acquisition_receipt =
  rc_lock_key :: string
  rc_target_digest :: string
  rc_action_digest :: string
  rc_attempt :: int
  rc_provider_id :: string
  rc_provider_version :: string
  rc_producer_id :: string
  rc_producer_version :: string
  rc_owner_digest :: string
  rc_fencing :: "int option"
  rc_session :: "string option"
  rc_attestation :: string
  rc_trust_anchor :: string
  rc_acquired_at :: int
  rc_valid_until :: "int option"
  rc_source_revision :: string
  rc_request_digest :: string
  rc_receipt_digest :: string

definition lock_receipt_checks ::
  "(acquisition_receipt \<Rightarrow> string) \<Rightarrow> acquisition_receipt \<Rightarrow> (bool \<times> string) list" where
  "lock_receipt_checks rdg r =
     [(rc_attempt r < 1, ''resource lock receipt attempt MUST be a positive integer''),
      (\<not> list_all bounded_text [rc_provider_id r, rc_provider_version r, rc_producer_id r,
           rc_producer_version r, rc_trust_anchor r],
        ''resource lock receipt identity fields MUST be bounded'')] @
     lock_key_checks (rc_lock_key r) @
     [(\<not> list_all sha256_ref [rc_target_digest r, rc_action_digest r, rc_owner_digest r,
           rc_attestation r, rc_request_digest r, rc_receipt_digest r],
        ''resource lock receipt digest fields MUST be SHA-256''),
      (\<not> commit_ref (rc_source_revision r),
        ''resource lock receipt source revision MUST be canonical''),
      ((rc_fencing r \<noteq> None) = (rc_session r \<noteq> None),
        ''resource lock receipt requires exactly one lifetime form''),
      ((case rc_fencing r of None \<Rightarrow> False
        | Some g \<Rightarrow> g < 1 \<or> (case rc_valid_until r of None \<Rightarrow> True | Some u \<Rightarrow> u \<le> rc_acquired_at r)),
        ''resource lock lease lifetime is invalid''),
      ((case rc_session r of None \<Rightarrow> False
        | Some s \<Rightarrow> \<not> canonical_text 512 s \<or> rc_valid_until r \<noteq> None),
        ''resource lock session lifetime is invalid''),
      (rc_receipt_digest r \<noteq> rdg (r\<lparr>rc_receipt_digest := []\<rparr>),
        ''resource lock receipt digest mismatched'')]"

definition lock_receipt_init ::
  "(acquisition_receipt \<Rightarrow> string) \<Rightarrow> acquisition_receipt \<Rightarrow> acquisition_receipt res" where
  "lock_receipt_init rdg r = bind_res (first_failure (lock_receipt_checks rdg r)) (\<lambda>_. Inr r)"

text \<open>
  The two times are given apart from the other fields: \<open>create\<close> normalizes them before it seals the
  receipt with its digest.
\<close>

definition lock_receipt_create ::
  "(acquisition_receipt \<Rightarrow> string) \<Rightarrow> acquisition_receipt \<Rightarrow> int option \<Rightarrow> int option option \<Rightarrow>
     acquisition_receipt res" where
  "lock_receipt_create rdg r acquired valid =
     bind_res (lock_time ''acquired_at'' acquired) (\<lambda>acquired.
     bind_res (case valid of None \<Rightarrow> Inr None
         | Some v \<Rightarrow> bind_res (lock_time ''valid_until'' v) (\<lambda>t. Inr (Some t))) (\<lambda>valid.
       let r = r\<lparr>rc_acquired_at := acquired, rc_valid_until := valid, rc_receipt_digest := []\<rparr>
       in lock_receipt_init rdg (r\<lparr>rc_receipt_digest := rdg r\<rparr>)))"

definition request_receipt_binding :: "acquisition_request \<Rightarrow> acquisition_receipt \<Rightarrow> unit res" where
  "request_receipt_binding q r = first_failure
     [(rc_request_digest r \<noteq> lq_request_digest q \<or> rc_lock_key r \<noteq> lq_lock_key q \<or>
       rc_target_digest r \<noteq> lq_target_digest q \<or> rc_action_digest r \<noteq> lq_action_digest q \<or>
       rc_attempt r \<noteq> lq_attempt q \<or> rc_producer_id r \<noteq> lq_producer_id q \<or>
       rc_producer_version r \<noteq> lq_producer_version q \<or> rc_source_revision r \<noteq> lq_source_revision q,
       ''resource lock receipt does not match its acquisition request'')]"

section \<open>Live ownership\<close>

datatype lock_rejection =
    ATTESTATION_INVALID | EXPIRED | FENCE_MISMATCH | LOCK_LOST | SESSION_MISMATCH
  | TRUST_ANCHOR_MISMATCH | VALIDITY_EXCEEDS_LOCK

fun lock_rejection_value :: "lock_rejection \<Rightarrow> string" where
  "lock_rejection_value ATTESTATION_INVALID = ''attestation_invalid''"
| "lock_rejection_value EXPIRED = ''expired''"
| "lock_rejection_value FENCE_MISMATCH = ''fence_mismatch''"
| "lock_rejection_value LOCK_LOST = ''lock_lost''"
| "lock_rejection_value SESSION_MISMATCH = ''session_mismatch''"
| "lock_rejection_value TRUST_ANCHOR_MISMATCH = ''trust_anchor_mismatch''"
| "lock_rejection_value VALIDITY_EXCEEDS_LOCK = ''validity_exceeds_lock''"

lemma lock_rejection_value_inj: "lock_rejection_value x = lock_rejection_value y \<Longrightarrow> x = y"
  by (cases x; cases y) simp_all

text \<open>Reasons are ordered by their value, as \<open>sorted(reasons, key=str)\<close> does.\<close>

instantiation lock_rejection :: linorder
begin

definition less_eq_lock_rejection :: "lock_rejection \<Rightarrow> lock_rejection \<Rightarrow> bool" where
  "less_eq_lock_rejection x y = (lock_rejection_value x \<le> lock_rejection_value y)"

definition less_lock_rejection :: "lock_rejection \<Rightarrow> lock_rejection \<Rightarrow> bool" where
  "less_lock_rejection x y = (lock_rejection_value x < lock_rejection_value y)"

instance
  by standard (auto simp: less_eq_lock_rejection_def less_lock_rejection_def
      intro: lock_rejection_value_inj)

end

record ownership_assessment =
  la_receipt :: acquisition_receipt
  la_fencing :: "int option"
  la_session :: "string option"
  la_verifier_id :: string
  la_verifier_version :: string
  la_trust_anchor :: string
  la_attestation :: string
  la_evaluated_at :: int
  la_valid_until :: int
  la_eligible :: bool
  la_reasons :: "lock_rejection list"
  la_digest :: string

definition independent_rejections :: "lock_rejection set" where
  "independent_rejections = {ATTESTATION_INVALID, LOCK_LOST}"

definition reason_if :: "bool \<Rightarrow> lock_rejection \<Rightarrow> lock_rejection list" where
  "reason_if b x = (if b then [x] else [])"

definition derive_rejections ::
  "acquisition_receipt \<Rightarrow> int option \<Rightarrow> string option \<Rightarrow> string \<Rightarrow> int \<Rightarrow> int \<Rightarrow> lock_rejection list \<Rightarrow>
     lock_rejection list" where
  "derive_rejections r fencing session anchor evaluated valid asserted =
     sort (remdups (
       filter (\<lambda>x. x \<in> independent_rejections) asserted @
       reason_if (rc_trust_anchor r \<noteq> anchor) TRUST_ANCHOR_MISMATCH @
       (if rc_fencing r \<noteq> None then
          reason_if (session \<noteq> None) SESSION_MISMATCH @
          reason_if (fencing \<noteq> rc_fencing r) FENCE_MISMATCH @
          (case rc_valid_until r of
             None \<Rightarrow> [EXPIRED]
           | Some u \<Rightarrow> (if evaluated \<ge> u then [EXPIRED] else reason_if (valid > u) VALIDITY_EXCEEDS_LOCK))
        else
          reason_if (fencing \<noteq> None) FENCE_MISMATCH @
          reason_if (session \<noteq> rc_session r) SESSION_MISMATCH)))"

definition max_assessment_ttl :: int where
  "max_assessment_ttl = 5000000"

definition assessment_checks ::
  "(ownership_assessment \<Rightarrow> string) \<Rightarrow> ownership_assessment \<Rightarrow> (bool \<times> string) list" where
  "assessment_checks adg a =
     (let expected = derive_rejections (la_receipt a) (la_fencing a) (la_session a)
            (la_trust_anchor a) (la_evaluated_at a) (la_valid_until a) (la_reasons a)
      in [bounded_check ''verifier_id'' (la_verifier_id a),
          bounded_check ''verifier_version'' (la_verifier_version a),
          bounded_check ''trust_anchor_id'' (la_trust_anchor a),
          ((case la_fencing a of None \<Rightarrow> False | Some g \<Rightarrow> g < 1),
            ''live lock assessment fencing generation MUST be a positive integer''),
          ((case la_session a of None \<Rightarrow> False | Some s \<Rightarrow> \<not> bounded_text s),
            ''resource lock current_session_identity MUST be bounded''),
          ((case la_session a of None \<Rightarrow> False | Some s \<Rightarrow> s \<noteq> py_strip s),
            ''live lock assessment session identity MUST be canonical''),
          (la_reasons a \<noteq> sort (remdups (la_reasons a)),
            ''live lock rejection reasons MUST be unique and ordered''),
          (la_evaluated_at a < rc_acquired_at (la_receipt a),
            ''live lock assessment cannot predate lock acquisition''),
          (la_valid_until a \<le> la_evaluated_at a,
            ''live lock assessment validity MUST follow evaluation''),
          (la_valid_until a - la_evaluated_at a > max_assessment_ttl,
            ''live lock assessment validity exceeds the maximum TTL''),
          (la_reasons a \<noteq> expected, ''live lock assessment rejection reasons mismatched state''),
          (la_eligible a \<noteq> (expected = []),
            ''live lock assessment eligibility mismatched reasons''),
          (\<not> sha256_ref (la_attestation a), ''live lock assessment digest fields MUST be SHA-256''),
          (\<not> sha256_ref (la_digest a), ''live lock assessment digest MUST be SHA-256''),
          (la_digest a \<noteq> adg (a\<lparr>la_digest := []\<rparr>), ''live lock assessment digest mismatched'')])"

definition assessment_init ::
  "(ownership_assessment \<Rightarrow> string) \<Rightarrow> ownership_assessment \<Rightarrow> ownership_assessment res" where
  "assessment_init adg a = bind_res (first_failure (assessment_checks adg a)) (\<lambda>_. Inr a)"

text \<open>The fields a verifier reports, in a record whose remaining fields \<open>create\<close> fills in.\<close>

definition assessment_create ::
  "(ownership_assessment \<Rightarrow> string) \<Rightarrow> ownership_assessment \<Rightarrow> int option \<Rightarrow> int option \<Rightarrow>
     lock_rejection list \<Rightarrow> ownership_assessment res" where
  "assessment_create adg a evaluated valid asserted =
     bind_res (first_failure
       [(\<not> set asserted \<subseteq> independent_rejections,
          ''live lock assessment caller may assert only provider-observed reasons'')]) (\<lambda>_.
     bind_res (lock_time ''evaluated_at'' evaluated) (\<lambda>evaluated.
     bind_res (lock_time ''valid_until'' valid) (\<lambda>valid.
       let reasons = derive_rejections (la_receipt a) (la_fencing a) (la_session a)
             (la_trust_anchor a) evaluated valid asserted;
           a = a\<lparr>la_evaluated_at := evaluated, la_valid_until := valid, la_eligible := (reasons = []),
             la_reasons := reasons, la_digest := []\<rparr>
       in assessment_init adg (a\<lparr>la_digest := adg a\<rparr>))))"

definition require_current_ownership ::
  "ownership_assessment \<Rightarrow> int option \<Rightarrow> ownership_assessment res" where
  "require_current_ownership a observed =
     bind_res (lock_time ''ownership observation time'' observed) (\<lambda>t.
     bind_res (first_failure
       [(t < la_evaluated_at a, ''live lock ownership assessment is not yet current''),
        (t \<ge> la_valid_until a, ''live lock ownership assessment is stale''),
        (\<not> la_eligible a, ''live lock ownership assessment is ineligible'')]) (\<lambda>_. Inr a))"

section \<open>Release\<close>

datatype lock_release_state = LR_RELEASED | LR_LOST | LR_UNKNOWN

record release_receipt =
  rl_receipt :: acquisition_receipt
  rl_state :: lock_release_state
  rl_attestation :: string
  rl_observed_at :: "int option"
  rl_recorded_at :: int
  rl_digest :: string

definition release_checks :: "(release_receipt \<Rightarrow> string) \<Rightarrow> release_receipt \<Rightarrow> (bool \<times> string) list" where
  "release_checks ldg r =
     [(\<not> sha256_ref (rl_attestation r), ''resource lock release attestation MUST be SHA-256''),
      (rl_state r \<in> {LR_RELEASED, LR_LOST} \<and> rl_observed_at r = None,
        ''known resource lock release state requires observation time''),
      ((case rl_observed_at r of None \<Rightarrow> False
        | Some t \<Rightarrow> t < rc_acquired_at (rl_receipt r) \<or> t > rl_recorded_at r),
        ''resource lock release chronology is invalid''),
      (rl_state r \<noteq> LR_UNKNOWN \<and> rl_recorded_at r < rc_acquired_at (rl_receipt r),
        ''resource lock release chronology is invalid''),
      (\<not> sha256_ref (rl_digest r), ''resource lock release receipt digest MUST be SHA-256''),
      (rl_digest r \<noteq> ldg (r\<lparr>rl_digest := []\<rparr>), ''resource lock release receipt digest mismatched'')]"

definition release_init :: "(release_receipt \<Rightarrow> string) \<Rightarrow> release_receipt \<Rightarrow> release_receipt res" where
  "release_init ldg r = bind_res (first_failure (release_checks ldg r)) (\<lambda>_. Inr r)"

definition release_create ::
  "(release_receipt \<Rightarrow> string) \<Rightarrow> acquisition_receipt \<Rightarrow> lock_release_state \<Rightarrow> string \<Rightarrow> int option option \<Rightarrow>
     int option \<Rightarrow> release_receipt res" where
  "release_create ldg receipt state attestation observed recorded =
     bind_res (case observed of None \<Rightarrow> Inr None
         | Some v \<Rightarrow> bind_res (lock_time ''observed_at'' v) (\<lambda>t. Inr (Some t))) (\<lambda>observed.
     bind_res (lock_time ''recorded_at'' recorded) (\<lambda>recorded.
       let r = \<lparr>rl_receipt = receipt, rl_state = state, rl_attestation = attestation,
              rl_observed_at = observed, rl_recorded_at = recorded, rl_digest = []\<rparr>
       in release_init ldg (r\<lparr>rl_digest := ldg r\<rparr>)))"

section \<open>A held lock\<close>

record held_lock_handle =
  hl_request :: acquisition_request
  hl_receipt :: acquisition_receipt
  hl_deactivated :: bool

definition held_init :: "acquisition_request \<Rightarrow> acquisition_receipt \<Rightarrow> held_lock_handle res" where
  "held_init q r = bind_res (request_receipt_binding q r) (\<lambda>_.
     Inr \<lparr>hl_request = q, hl_receipt = r, hl_deactivated = False\<rparr>)"

definition deactivate :: "held_lock_handle \<Rightarrow> held_lock_handle" where
  "deactivate h = h\<lparr>hl_deactivated := True\<rparr>"

definition require_active :: "held_lock_handle \<Rightarrow> unit res" where
  "require_active h =
     (if hl_deactivated h then Inl (RuntimeError ''held resource lock is no longer active'') else Inr ())"

section \<open>What accepted ownership means\<close>

lemma sort_remdups_Nil: "sort (remdups xs) = [] \<longleftrightarrow> xs = []"
  by (metis remdups_eq_nil_iff set_empty set_sort)

lemma sort_remdups_id: "xs = sort (remdups ys) \<Longrightarrow> set xs = set ys"
  by simp

lemma reason_if_Nil [simp]: "reason_if b x = [] \<longleftrightarrow> \<not> b"
  by (simp add: reason_if_def)

text \<open>A valid receipt has one of two forms: a lease with an end, or a session without one.\<close>

lemma receipt_forms:
  assumes "lock_receipt_init rdg r = Inr r"
  obtains (lease) g u where "rc_fencing r = Some g" "rc_session r = None" "rc_valid_until r = Some u"
      "1 \<le> g" "rc_acquired_at r < u"
    | (session) s where "rc_fencing r = None" "rc_session r = Some s" "rc_valid_until r = None"
proof -
  have "first_failure (lock_receipt_checks rdg r) = Inr ()"
    using assms by (simp add: lock_receipt_init_def bind_res_Inr)
  then have "(rc_fencing r \<noteq> None) \<noteq> (rc_session r \<noteq> None)"
    "\<not> (case rc_fencing r of None \<Rightarrow> False
        | Some g \<Rightarrow> g < 1 \<or> (case rc_valid_until r of None \<Rightarrow> True | Some u \<Rightarrow> u \<le> rc_acquired_at r))"
    "\<not> (case rc_session r of None \<Rightarrow> False
        | Some s \<Rightarrow> \<not> canonical_text 512 s \<or> rc_valid_until r \<noteq> None)"
    by (simp_all add: lock_receipt_checks_def)
  then show ?thesis
    by (cases "rc_fencing r"; cases "rc_session r"; cases "rc_valid_until r") (auto intro: lease session)
qed

lemma no_rejection_iff:
  assumes "lock_receipt_init rdg r = Inr r" and "evaluated < valid"
  shows "derive_rejections r fencing session anchor evaluated valid asserted = [] \<longleftrightarrow>
    set asserted \<inter> independent_rejections = {} \<and> anchor = rc_trust_anchor r \<and>
    fencing = rc_fencing r \<and> session = rc_session r \<and>
    (case rc_valid_until r of None \<Rightarrow> True | Some u \<Rightarrow> valid \<le> u)"
proof -
  have "filter (\<lambda>x. x \<in> independent_rejections) asserted = [] \<longleftrightarrow> set asserted \<inter> independent_rejections = {}"
    by (auto simp: filter_empty_conv)
  with assms(1) show ?thesis
    using assms(2) by (cases rule: receipt_forms) (auto simp: derive_rejections_def sort_remdups_Nil)
qed

text \<open>
  On a valid assessment of a valid receipt, ownership is accepted at a time exactly when the
  time lies in the validity window of the assessment, the verifier reported neither a loss
  nor a bad attestation, and it saw the trust anchor, the fencing generation and the session
  of the receipt within the lease; the window is at most five seconds and starts after the
  acquisition.
\<close>

theorem current_ownership_iff:
  assumes "assessment_init adg a = Inr a" and "lock_receipt_init rdg (la_receipt a) = Inr (la_receipt a)"
  shows "(require_current_ownership a (Some t) = Inr a \<longleftrightarrow>
      la_evaluated_at a \<le> t \<and> t < la_valid_until a \<and>
      LOCK_LOST \<notin> set (la_reasons a) \<and> ATTESTATION_INVALID \<notin> set (la_reasons a) \<and>
      la_trust_anchor a = rc_trust_anchor (la_receipt a) \<and>
      la_fencing a = rc_fencing (la_receipt a) \<and> la_session a = rc_session (la_receipt a) \<and>
      (case rc_valid_until (la_receipt a) of None \<Rightarrow> True | Some u \<Rightarrow> la_valid_until a \<le> u)) \<and>
    rc_acquired_at (la_receipt a) \<le> la_evaluated_at a \<and>
    la_valid_until a \<le> la_evaluated_at a + 5000000"
proof -
  have ok: "list_all (\<lambda>c. \<not> fst c) (assessment_checks adg a)"
    using assms(1) by (simp add: assessment_init_def bind_res_Inr first_failure_ok)
  then have w: "la_evaluated_at a < la_valid_until a" "rc_acquired_at (la_receipt a) \<le> la_evaluated_at a"
    "la_valid_until a \<le> la_evaluated_at a + 5000000"
    and e: "la_eligible a \<longleftrightarrow> derive_rejections (la_receipt a) (la_fencing a) (la_session a)
        (la_trust_anchor a) (la_evaluated_at a) (la_valid_until a) (la_reasons a) = []"
    by (simp_all add: assessment_checks_def Let_def max_assessment_ttl_def)
  have r: "require_current_ownership a (Some t) = Inr a \<longleftrightarrow>
      la_evaluated_at a \<le> t \<and> t < la_valid_until a \<and> la_eligible a"
    by (auto simp: require_current_ownership_def lock_time_def bind_res_Inr)
  show ?thesis
    unfolding r e no_rejection_iff [OF assms(2) w(1)] using w(2,3)
    by (auto simp: independent_rejections_def)
qed

section \<open>A concrete lease\<close>

definition filler_digest :: string where
  "filler_digest = ''sha256:'' @ replicate 64 (CHR ''a'')"

lemma filler_ok: "sha256_ref filler_digest"
  by code_simp

definition sample_revision :: string where
  "sample_revision = ''commit:'' @ replicate 40 (CHR ''b'')"

definition sample_receipt :: "int \<Rightarrow> int \<Rightarrow> acquisition_receipt" where
  "sample_receipt attempt acquired = \<lparr>rc_lock_key = ''fdai:resource:vm'',
     rc_target_digest = filler_digest, rc_action_digest = filler_digest, rc_attempt = attempt,
     rc_provider_id = ''pg'', rc_provider_version = ''1'', rc_producer_id = ''core'',
     rc_producer_version = ''1'', rc_owner_digest = filler_digest, rc_fencing = Some 7,
     rc_session = None, rc_attestation = filler_digest, rc_trust_anchor = ''anchor'',
     rc_acquired_at = acquired, rc_valid_until = Some (acquired + 60000000),
     rc_source_revision = sample_revision, rc_request_digest = filler_digest,
     rc_receipt_digest = filler_digest\<rparr>"

lemma sample_texts: "list_all bounded_text [''pg'', ''1'', ''core'', ''anchor'']"
  "list_all (\<lambda>c. \<not> fst c) (lock_key_checks ''fdai:resource:vm'')" "commit_ref sample_revision"
  by code_simp+

lemma sample_receipt_valid:
  "1 \<le> attempt \<Longrightarrow> lock_receipt_init (\<lambda>_. filler_digest) (sample_receipt attempt acquired) =
     Inr (sample_receipt attempt acquired)"
  using sample_texts
  by (simp add: lock_receipt_init_def lock_receipt_checks_def sample_receipt_def first_failure_ok filler_ok
      bind_res_Inr)

definition sample_assessment :: ownership_assessment where
  "sample_assessment = \<lparr>la_receipt = sample_receipt 1 0, la_fencing = Some 7, la_session = None,
     la_verifier_id = ''pg'', la_verifier_version = ''1'', la_trust_anchor = ''anchor'',
     la_attestation = filler_digest, la_evaluated_at = 100, la_valid_until = 1000,
     la_eligible = True, la_reasons = [], la_digest = filler_digest\<rparr>"

lemma sample_assessment_valid:
  "assessment_init (\<lambda>_. filler_digest) sample_assessment = Inr sample_assessment"
  using sample_texts
  by (simp add: assessment_init_def assessment_checks_def Let_def sample_assessment_def sample_receipt_def
      first_failure_ok filler_ok bounded_check_def derive_rejections_def reason_if_def
      max_assessment_ttl_def bind_res_Inr)

lemma sample_assessment_created:
  "assessment_create (\<lambda>_. filler_digest)
     (sample_assessment\<lparr>la_evaluated_at := 0, la_valid_until := 0, la_eligible := False, la_digest := []\<rparr>)
     (Some 100) (Some 1000) [] = Inr sample_assessment"
proof -
  have "derive_rejections (sample_receipt 1 0) (Some 7) None ''anchor'' 100 1000 [] = []"
    by (simp add: derive_rejections_def reason_if_def sample_receipt_def)
  then show ?thesis
    using sample_assessment_valid
    by (simp add: assessment_create_def Let_def lock_time_def first_failure.simps sample_assessment_def)
qed

theorem current_ownership_iff_witness:
  "require_current_ownership sample_assessment (Some 500) = Inr sample_assessment \<and>
   require_current_ownership sample_assessment (Some 1000) \<noteq> Inr sample_assessment"
proof -
  have v: "lock_receipt_init (\<lambda>_. filler_digest) (la_receipt sample_assessment) = Inr (la_receipt sample_assessment)"
    using sample_receipt_valid [of 1 0] by (simp add: sample_assessment_def)
  show ?thesis
    using current_ownership_iff [OF sample_assessment_valid v, of 500]
      current_ownership_iff [OF sample_assessment_valid v, of 1000]
    by (simp add: sample_assessment_def sample_receipt_def)
qed

end
