(* ===== verification/RecordHistory.thy ===== *)
theory RecordHistory
  imports StepSystem
begin

text \<open>
  Stores of versioned records: a store maps a key to its current record, a write replaces the
  record of one key at a time, and the history of a key is the list of the records it has held. The
  locale is the interface of such a store: which record may be the first of a key and which one may
  follow another.
\<close>

type_synonym ('k, 'r) history = "'k \<Rightarrow> 'r list"

definition record_changes ::
  "('k \<Rightarrow> 'r option) \<Rightarrow> ('k \<Rightarrow> 'r option) \<Rightarrow> ('k, 'r) history \<Rightarrow> ('k, 'r) history" where
  "record_changes st st' h = (\<lambda>k. h k @ (if st' k = st k then []
     else case st' k of None \<Rightarrow> [] | Some r \<Rightarrow> [r]))"

lemma record_changes_same [simp]: "record_changes st st h = h"
  by (simp add: record_changes_def)

lemma record_changes_put: "st k \<noteq> Some r \<Longrightarrow> record_changes st (st(k \<mapsto> r)) h = h(k := h k @ [r])"
  by (auto simp: record_changes_def)

inductive history_step ::
  "(('k \<Rightarrow> 'r option) \<Rightarrow> ('k \<Rightarrow> 'r option) \<Rightarrow> bool) \<Rightarrow>
     ('k \<Rightarrow> 'r option) \<times> ('k, 'r) history \<Rightarrow> ('k \<Rightarrow> 'r option) \<times> ('k, 'r) history \<Rightarrow> bool"
  for writes where
  hs_write: "writes st st' \<Longrightarrow> history_step writes (st, h) (st', record_changes st st' h)"

definition history_start :: "('k \<Rightarrow> 'r option) \<times> ('k, 'r) history \<Rightarrow> bool" where
  "history_start w = (w = (Map.empty, (\<lambda>_. [])))"

definition history_inv ::
  "('r \<Rightarrow> 'k) \<Rightarrow> ('r \<Rightarrow> bool) \<Rightarrow> ('r \<Rightarrow> bool) \<Rightarrow> ('r \<Rightarrow> 'r \<Rightarrow> bool) \<Rightarrow> ('k \<Rightarrow> 'r option) \<times> ('k, 'r) history \<Rightarrow> bool" where
  "history_inv key_of valid initial follows w = (\<forall>k.
     list_all (\<lambda>r. valid r \<and> key_of r = k) (snd w k) \<and> successively follows (snd w k) \<and>
     (snd w k \<noteq> [] \<longrightarrow> initial (hd (snd w k))) \<and>
     fst w k = (if snd w k = [] then None else Some (last (snd w k))))"

locale record_store =
  fixes key_of :: "'r \<Rightarrow> 'k"
    and valid :: "'r \<Rightarrow> bool"
    and initial :: "'r \<Rightarrow> bool"
    and follows :: "'r \<Rightarrow> 'r \<Rightarrow> bool"
    and writes :: "('k \<Rightarrow> 'r option) \<Rightarrow> ('k \<Rightarrow> 'r option) \<Rightarrow> bool"
  assumes write_cases: "writes st st' \<Longrightarrow> st' = st \<or>
      (\<exists>r. valid r \<and> st' = st(key_of r \<mapsto> r) \<and>
        (case st (key_of r) of None \<Rightarrow> initial r | Some p \<Rightarrow> follows p r))"
    and follows_irrefl: "\<not> follows r r"
begin

lemma history_inv_step:
  assumes "history_inv key_of valid initial follows w" and "history_step writes w w'"
  shows "history_inv key_of valid initial follows w'"
  using assms(2)
proof cases
  case (hs_write st st' h)
  from write_cases [OF hs_write(3)] show ?thesis
  proof
    assume "st' = st"
    then show ?thesis using assms(1) hs_write by simp
  next
    assume "\<exists>r. valid r \<and> st' = st(key_of r \<mapsto> r) \<and>
        (case st (key_of r) of None \<Rightarrow> initial r | Some p \<Rightarrow> follows p r)"
    then obtain r where r: "valid r" "st' = st(key_of r \<mapsto> r)"
      "case st (key_of r) of None \<Rightarrow> initial r | Some p \<Rightarrow> follows p r" by blast
    then have "st (key_of r) \<noteq> Some r" using follows_irrefl by (auto split: option.splits)
    then have "record_changes st st' h = h(key_of r := h (key_of r) @ [r])"
      unfolding r(2) by (rule record_changes_put)
    then show ?thesis using assms(1) hs_write r
      by (auto simp: history_inv_def successively_append_iff split: option.splits if_splits)
  qed
qed

sublocale safe_system history_start "history_step writes" "history_inv key_of valid initial follows"
proof unfold_locales
  show "history_inv key_of valid initial follows w" if "history_start w" for w
    using that by (simp add: history_start_def history_inv_def)
qed (rule history_inv_step)

lemma history_follows:
  "reachable history_start (history_step writes) (st, h) \<Longrightarrow> Suc i < length (h k) \<Longrightarrow>
     follows (h k ! i) (h k ! Suc i)"
  using reachable_inv [of "(st, h)"] by (auto simp: history_inv_def successively_conv_nth)

lemma history_initial:
  "reachable history_start (history_step writes) (st, h) \<Longrightarrow> h k \<noteq> [] \<Longrightarrow> initial (hd (h k))"
  using reachable_inv [of "(st, h)"] by (simp add: history_inv_def)

lemma history_valid:
  "reachable history_start (history_step writes) (st, h) \<Longrightarrow> r \<in> set (h k) \<Longrightarrow> valid r \<and> key_of r = k"
  using reachable_inv [of "(st, h)"] by (auto simp: history_inv_def list_all_iff)

lemma history_current:
  "reachable history_start (history_step writes) (st, h) \<Longrightarrow>
     st k = (if h k = [] then None else Some (last (h k)))"
  using reachable_inv [of "(st, h)"] by (simp add: history_inv_def)

lemma current_in_history:
  "reachable history_start (history_step writes) (st, h) \<Longrightarrow> st k = Some r \<Longrightarrow> r \<in> set (h k)"
  using history_current [of st h k] by (auto split: if_splits)

text \<open>A record that none may follow stays for ever.\<close>

lemma last_record_stays:
  assumes "(history_step writes)\<^sup>*\<^sup>* (st, h) (st', h')" and "st k = Some r" and "\<And>q. \<not> follows r q"
  shows "st' k = Some r"
proof -
  have "fst w k = Some r" if "(history_step writes)\<^sup>*\<^sup>* (st, h) w" for w
    using that
  proof (induction rule: rtranclp_induct)
    case (step y z)
    from step.hyps(2) show ?case
    proof cases
      case (hs_write s s' g)
      then show ?thesis
        using write_cases [OF hs_write(3)] step.IH assms(3) by (auto split: if_splits option.splits)
    qed
  qed (simp add: assms(2))
  with assms(1) show ?thesis by fastforce
qed

end

end
