(* ===== verification/Reservation.thy ===== *)
theory Reservation
  imports LockEvidence RecordHistory
begin

text \<open>
  Crash-safe idempotency reservations of the executor: the records and their checks
  (\<open>core/executor/idempotency_reservation.py\<close>, \<open>idempotency_reservation_identity.py\<close>,
  \<open>idempotency_reservation_validation.py\<close>), their lifecycle (\<open>idempotency_reservation_lifecycle.py\<close>) and
  the two stores (\<open>delivery/persistence/postgres_idempotency_reservation.py\<close> and the in-memory one
  of \<open>testing_safeguard_lifecycle.py\<close>).

  A time is an aware datetime in microseconds; where the code takes one from outside, \<open>None\<close> is a naive
  one. The content digests are the parameters \<open>dg\<close> (of a record) and \<open>xdg\<close> (of an
  expiry); each digest is computed on the value without its own digest field.
\<close>

section \<open>Records\<close>

datatype reservation_state = RESERVED | IN_FLIGHT | TERMINAL | ABANDONED | OUTCOME_UNKNOWN

datatype reservation_evidence =
    DISPATCH_NEVER_BEGAN | LEASE_EXPIRED | CONTINUITY_UNPROVEN | SINK_TERMINAL_OUTCOME
  | IRREVOCABLE_NON_ACCEPTANCE | INDEPENDENT_EFFECT_OUTCOME

datatype reservation_match = ACQUIRED | DUPLICATE_SAME | CONFLICT

record reservation_identity =
  ri_key :: string
  ri_action_digest :: string
  ri_path :: execution_path
  ri_fingerprint :: string
  ri_source_revision :: string
  ri_receipt :: acquisition_receipt
  identity_digest :: string

record reservation =
  rs_identity :: reservation_identity
  rs_state :: reservation_state
  rs_revision :: int
  owner_digest :: string
  reserved_at :: int
  lease_expires_at :: int
  state_changed_at :: int
  dispatch_started_at :: "int option"
  rs_evidence :: "reservation_evidence option"
  evidence_digest :: "string option"
  outcome_digest :: "string option"
  record_digest :: string

section \<open>Checks\<close>

definition digest_check :: "string \<Rightarrow> string \<Rightarrow> bool \<times> string" where
  "digest_check name v =
     (\<not> sha256_ref v, ''idempotency reservation '' @ name @ '' MUST be SHA-256'')"

definition optional_digest_check :: "string \<Rightarrow> string option \<Rightarrow> bool \<times> string" where
  "optional_digest_check name v = (case v of
     None \<Rightarrow> (False, []) | Some d \<Rightarrow> digest_check name d)"

definition identity_checks :: "(reservation_identity \<Rightarrow> string) \<Rightarrow> reservation_identity \<Rightarrow> (bool \<times> string) list" where
  "identity_checks idg i =
     [(\<not> canonical_text 512 (ri_key i),
        ''idempotency reservation idempotency_key MUST be canonical and bounded''),
      digest_check ''action_digest'' (ri_action_digest i),
      (\<not> (length (ri_fingerprint i) = 64 \<and> list_all hex_lower (ri_fingerprint i)),
        ''idempotency reservation fingerprint MUST be lowercase SHA-256''),
      (\<not> commit_ref (ri_source_revision i),
        ''idempotency reservation source revision MUST be canonical''),
      (rc_action_digest (ri_receipt i) \<noteq> ri_action_digest i \<or>
        rc_source_revision (ri_receipt i) \<noteq> ri_source_revision i,
        ''idempotency reservation acquisition context mismatched''),
      digest_check ''identity_digest'' (identity_digest i),
      (identity_digest i \<noteq> idg (i\<lparr>identity_digest := []\<rparr>),
        ''idempotency reservation identity digest mismatched'')]"

definition identity_init ::
  "(reservation_identity \<Rightarrow> string) \<Rightarrow> reservation_identity \<Rightarrow> reservation_identity res" where
  "identity_init idg i = bind_res (first_failure (identity_checks idg i)) (\<lambda>_. Inr i)"

definition identity_create ::
  "(reservation_identity \<Rightarrow> string) \<Rightarrow> string \<Rightarrow> string \<Rightarrow> execution_path \<Rightarrow> string \<Rightarrow> string \<Rightarrow>
     acquisition_receipt \<Rightarrow> reservation_identity res" where
  "identity_create idg key action_dg path fingerprint revision receipt =
     (let i = \<lparr>ri_key = key, ri_action_digest = action_dg, ri_path = path, ri_fingerprint = fingerprint,
            ri_source_revision = revision, ri_receipt = receipt, identity_digest = []\<rparr>
      in identity_init idg (i\<lparr>identity_digest := idg i\<rparr>))"

definition same_operation :: "reservation_identity \<Rightarrow> reservation_identity \<Rightarrow> bool" where
  "same_operation l r = (ri_key l = ri_key r \<and> ri_action_digest l = ri_action_digest r \<and>
     ri_path l = ri_path r \<and> ri_fingerprint l = ri_fingerprint r \<and>
     ri_source_revision l = ri_source_revision r \<and>
     rc_lock_key (ri_receipt l) = rc_lock_key (ri_receipt r) \<and>
     rc_target_digest (ri_receipt l) = rc_target_digest (ri_receipt r))"

fun minimum_revision :: "reservation_state \<Rightarrow> int" where
  "minimum_revision RESERVED = 1"
| "minimum_revision IN_FLIGHT = 2"
| "minimum_revision ABANDONED = 2"
| "minimum_revision OUTCOME_UNKNOWN = 3"
| "minimum_revision TERMINAL = 3"

definition shape_checks :: "reservation \<Rightarrow> (bool \<times> string) list" where
  "shape_checks r = (case rs_state r of
     RESERVED \<Rightarrow>
       [(state_changed_at r \<noteq> reserved_at r, ''reserved idempotency state change time is invalid''),
        (dispatch_started_at r \<noteq> None \<or> rs_evidence r \<noteq> None \<or> evidence_digest r \<noteq> None \<or>
           outcome_digest r \<noteq> None, ''reserved idempotency state contains later-phase evidence'')]
   | IN_FLIGHT \<Rightarrow>
       [((case dispatch_started_at r of
            None \<Rightarrow> True | Some d \<Rightarrow> state_changed_at r \<noteq> d \<or> d \<ge> lease_expires_at r) \<or>
           rs_evidence r \<noteq> None \<or> evidence_digest r \<noteq> None \<or> outcome_digest r \<noteq> None,
         ''in-flight idempotency state shape is invalid'')]
   | ABANDONED \<Rightarrow>
       [(dispatch_started_at r \<noteq> None \<or> rs_evidence r \<noteq> Some DISPATCH_NEVER_BEGAN \<or>
           evidence_digest r = None \<or> outcome_digest r \<noteq> None,
         ''abandoned idempotency state requires no-dispatch evidence'')]
   | OUTCOME_UNKNOWN \<Rightarrow>
       [(dispatch_started_at r = None \<or>
           rs_evidence r \<notin> {Some LEASE_EXPIRED, Some CONTINUITY_UNPROVEN} \<or>
           evidence_digest r = None \<or> outcome_digest r \<noteq> None,
         ''unknown idempotency state requires continuity evidence''),
        (rs_evidence r = Some LEASE_EXPIRED \<and> state_changed_at r < lease_expires_at r,
         ''lease-expired idempotency evidence predates expiry''),
        (rs_evidence r = Some CONTINUITY_UNPROVEN \<and>
           (case dispatch_started_at r of None \<Rightarrow> False | Some d \<Rightarrow> state_changed_at r < d),
         ''continuity evidence predates dispatch'')]
   | TERMINAL \<Rightarrow>
       [((case dispatch_started_at r of None \<Rightarrow> True | Some d \<Rightarrow> state_changed_at r < d) \<or>
           rs_evidence r \<notin> {Some SINK_TERMINAL_OUTCOME, Some IRREVOCABLE_NON_ACCEPTANCE,
             Some INDEPENDENT_EFFECT_OUTCOME} \<or>
           evidence_digest r = None \<or> outcome_digest r = None,
         ''terminal idempotency state requires authoritative sink evidence'')])"

definition record_checks :: "(reservation \<Rightarrow> string) \<Rightarrow> reservation \<Rightarrow> (bool \<times> string) list" where
  "record_checks dg r =
     [(rs_revision r < 1, ''idempotency reservation revision MUST be positive''),
      digest_check ''owner_reference_digest'' (owner_digest r),
      (owner_digest r \<noteq> rc_owner_digest (ri_receipt (rs_identity r)),
        ''idempotency reservation owner mismatched acquisition''),
      (lease_expires_at r \<le> reserved_at r, ''idempotency reservation lease MUST follow reservation''),
      (reserved_at r < rc_acquired_at (ri_receipt (rs_identity r)),
        ''idempotency reservation predates its lock acquisition''),
      (state_changed_at r < reserved_at r,
        ''idempotency reservation state change predates reservation''),
      ((case dispatch_started_at r of None \<Rightarrow> False | Some d \<Rightarrow> d < reserved_at r),
        ''idempotency dispatch cannot predate reservation''),
      optional_digest_check ''evidence_digest'' (evidence_digest r),
      optional_digest_check ''terminal_outcome_digest'' (outcome_digest r)]
     @ shape_checks r @
     [(rs_revision r < minimum_revision (rs_state r),
        ''idempotency reservation state revision is impossible''),
      digest_check ''record_digest'' (record_digest r),
      (record_digest r \<noteq> dg (r\<lparr>record_digest := []\<rparr>),
        ''idempotency reservation record digest mismatched'')]"

definition record_init :: "(reservation \<Rightarrow> string) \<Rightarrow> reservation \<Rightarrow> reservation res" where
  "record_init dg r = bind_res (first_failure (record_checks dg r)) (\<lambda>_. Inr r)"

definition build_record :: "(reservation \<Rightarrow> string) \<Rightarrow> reservation \<Rightarrow> reservation res" where
  "build_record dg r =
     (let r = r\<lparr>owner_digest := rc_owner_digest (ri_receipt (rs_identity r)), record_digest := []\<rparr>
      in record_init dg (r\<lparr>record_digest := dg r\<rparr>))"

definition utc_time :: "string \<Rightarrow> int option \<Rightarrow> int res" where
  "utc_time name v = (case v of
     None \<Rightarrow> Inl (ValueError (''idempotency reservation '' @ name @ '' MUST include a timezone''))
   | Some t \<Rightarrow> Inr t)"

text \<open>A record as \<open>_build_record\<close> starts it, with the optional arguments at their defaults.\<close>

definition blank_record ::
  "reservation_identity \<Rightarrow> reservation_state \<Rightarrow> int \<Rightarrow> int \<Rightarrow> int \<Rightarrow> int \<Rightarrow> reservation" where
  "blank_record identity state revision reserved lease changed =
     \<lparr>rs_identity = identity, rs_state = state, rs_revision = revision, owner_digest = [],
      reserved_at = reserved, lease_expires_at = lease, state_changed_at = changed,
      dispatch_started_at = None, rs_evidence = None, evidence_digest = None, outcome_digest = None,
      record_digest = []\<rparr>"

definition create_reserved ::
  "(reservation \<Rightarrow> string) \<Rightarrow> reservation_identity \<Rightarrow> int option \<Rightarrow> int option \<Rightarrow> reservation res" where
  "create_reserved dg identity reserved lease =
     bind_res (utc_time ''reserved_at'' reserved) (\<lambda>reserved.
     bind_res (utc_time ''lease_expires_at'' lease) (\<lambda>lease.
       build_record dg (blank_record identity RESERVED 1 reserved lease reserved)))"

section \<open>Lifecycle\<close>

definition dispatch_permitted :: "reservation \<Rightarrow> int option \<Rightarrow> bool res" where
  "dispatch_permitted r at_time = bind_res (utc_time ''dispatch_at'' at_time) (\<lambda>t.
     Inr (rs_state r = RESERVED \<and> reserved_at r \<le> t \<and> t < lease_expires_at r))"

text \<open>The next record of the same attempt: identity, reservation time and lease stay.\<close>

definition successor :: "reservation \<Rightarrow> reservation_state \<Rightarrow> int \<Rightarrow> reservation" where
  "successor r state changed =
     blank_record (rs_identity r) state (rs_revision r + 1) (reserved_at r) (lease_expires_at r) changed"

definition begin_dispatch :: "(reservation \<Rightarrow> string) \<Rightarrow> reservation \<Rightarrow> int option \<Rightarrow> reservation res" where
  "begin_dispatch dg r at_time =
     bind_res (utc_time ''dispatch_started_at'' at_time) (\<lambda>t.
     bind_res (dispatch_permitted r (Some t)) (\<lambda>ok.
       if \<not> ok then Inl (ValueError ''idempotency reservation is not eligible to dispatch'')
       else build_record dg ((successor r IN_FLIGHT t)\<lparr>dispatch_started_at := Some t\<rparr>)))"

definition expire_reservation ::
  "(reservation \<Rightarrow> string) \<Rightarrow> (string \<Rightarrow> int \<Rightarrow> string) \<Rightarrow> reservation \<Rightarrow> int option \<Rightarrow> string option \<Rightarrow>
     reservation res" where
  "expire_reservation dg xdg r at_time never_began =
     bind_res (utc_time ''expired_at'' at_time) (\<lambda>t.
       if t < lease_expires_at r
       then Inl (ValueError ''idempotency reservation lease has not expired'')
       else (case rs_state r of
          RESERVED \<Rightarrow> (case never_began of
              None \<Rightarrow> Inl (ValueError ''abandonment requires proof that dispatch never began'')
            | Some d \<Rightarrow> bind_res (first_failure [digest_check ''dispatch_never_began_digest'' d]) (\<lambda>_.
                build_record dg ((successor r ABANDONED t)
                  \<lparr>rs_evidence := Some DISPATCH_NEVER_BEGAN, evidence_digest := Some d\<rparr>)))
        | IN_FLIGHT \<Rightarrow>
            build_record dg ((successor r OUTCOME_UNKNOWN t)
              \<lparr>dispatch_started_at := dispatch_started_at r, rs_evidence := Some LEASE_EXPIRED,
               evidence_digest := Some (xdg (record_digest r) t)\<rparr>)
        | _ \<Rightarrow> Inl (ValueError ''idempotency reservation state cannot be expired'')))"

definition abandon_before_dispatch ::
  "(reservation \<Rightarrow> string) \<Rightarrow> reservation \<Rightarrow> int option \<Rightarrow> string \<Rightarrow> reservation res" where
  "abandon_before_dispatch dg r at_time d =
     bind_res (utc_time ''abandoned_at'' at_time) (\<lambda>t.
     bind_res (first_failure
       [(rs_state r \<noteq> RESERVED,
          ''only a reserved idempotency state can be abandoned before dispatch''),
        (t < state_changed_at r, ''idempotency abandonment predates reservation''),
        digest_check ''dispatch_never_began_digest'' d]) (\<lambda>_.
       build_record dg ((successor r ABANDONED t)
         \<lparr>rs_evidence := Some DISPATCH_NEVER_BEGAN, evidence_digest := Some d\<rparr>)))"

text \<open>The checks and the record both completions share.\<close>

definition awaiting_outcome :: "reservation \<Rightarrow> int \<Rightarrow> (bool \<times> string) list" where
  "awaiting_outcome r t =
     [(rs_state r \<notin> {IN_FLIGHT, OUTCOME_UNKNOWN},
        ''idempotency reservation is not awaiting a terminal outcome''),
      ((case dispatch_started_at r of None \<Rightarrow> True | Some d \<Rightarrow> t < d) \<or> t < state_changed_at r,
        ''idempotency terminal outcome predates current state'')]"

definition terminal_record ::
  "reservation \<Rightarrow> int \<Rightarrow> reservation_evidence \<Rightarrow> string \<Rightarrow> string \<Rightarrow> reservation" where
  "terminal_record r t kind evidence outcome =
     (successor r TERMINAL t)
       \<lparr>dispatch_started_at := dispatch_started_at r, rs_evidence := Some kind,
        evidence_digest := Some evidence, outcome_digest := Some outcome\<rparr>"

definition complete_reservation ::
  "(reservation \<Rightarrow> string) \<Rightarrow> reservation \<Rightarrow> int option \<Rightarrow> string \<Rightarrow> string \<Rightarrow> bool \<Rightarrow> reservation res" where
  "complete_reservation dg r at_time outcome status non_acceptance =
     bind_res (utc_time ''completed_at'' at_time) (\<lambda>t.
     bind_res (first_failure (awaiting_outcome r t @
       [digest_check ''terminal_outcome_digest'' outcome,
        digest_check ''authoritative_status_digest'' status])) (\<lambda>_.
       build_record dg (terminal_record r t
         (if non_acceptance then IRREVOCABLE_NON_ACCEPTANCE else SINK_TERMINAL_OUTCOME)
         status outcome)))"

definition complete_from_verifier ::
  "(reservation \<Rightarrow> string) \<Rightarrow> reservation \<Rightarrow> int option \<Rightarrow> string \<Rightarrow> string \<Rightarrow> reservation res" where
  "complete_from_verifier dg r at_time outcome effect =
     bind_res (utc_time ''completed_at'' at_time) (\<lambda>t.
     bind_res (first_failure (awaiting_outcome r t @
       [digest_check ''terminal_outcome_digest'' outcome,
        digest_check ''independent_effect_receipt_digest'' effect])) (\<lambda>_.
       build_record dg (terminal_record r t INDEPENDENT_EFFECT_OUTCOME effect outcome)))"

definition quarantine_reservation ::
  "(reservation \<Rightarrow> string) \<Rightarrow> reservation \<Rightarrow> int option \<Rightarrow> string \<Rightarrow> reservation res" where
  "quarantine_reservation dg r at_time d =
     bind_res (utc_time ''quarantined_at'' at_time) (\<lambda>t.
     bind_res (first_failure
       [(rs_state r \<noteq> IN_FLIGHT,
          ''only an in-flight reservation can enter continuity quarantine''),
        ((case dispatch_started_at r of None \<Rightarrow> True | Some s \<Rightarrow> t < s),
          ''idempotency quarantine predates dispatch''),
        digest_check ''continuity_evidence_digest'' d]) (\<lambda>_.
       build_record dg ((successor r OUTCOME_UNKNOWN t)
         \<lparr>dispatch_started_at := dispatch_started_at r, rs_evidence := Some CONTINUITY_UNPROVEN,
          evidence_digest := Some d\<rparr>)))"

definition recoverable :: "reservation \<Rightarrow> bool" where
  "recoverable r = (rs_state r = ABANDONED \<or>
     (rs_state r = TERMINAL \<and> rs_evidence r = Some IRREVOCABLE_NON_ACCEPTANCE))"

definition reopen_reservation ::
  "(reservation \<Rightarrow> string) \<Rightarrow> reservation \<Rightarrow> reservation_identity \<Rightarrow> int option \<Rightarrow> int option \<Rightarrow>
     reservation res" where
  "reopen_reservation dg r candidate reserved lease =
     bind_res (first_failure
       [(\<not> recoverable r, ''idempotency reservation has no safe recovery evidence''),
        (\<not> same_operation (rs_identity r) candidate,
          ''idempotency reservation recovery changes the stable operation''),
        (rc_attempt (ri_receipt candidate) \<le> rc_attempt (ri_receipt (rs_identity r)),
          ''idempotency reservation recovery attempt MUST increase'')]) (\<lambda>_.
     bind_res (utc_time ''reserved_at'' reserved) (\<lambda>t.
     bind_res (first_failure
       [(t < state_changed_at r, ''idempotency reservation recovery predates its predecessor''),
        (rc_acquired_at (ri_receipt candidate) < state_changed_at r \<or>
           rc_acquired_at (ri_receipt candidate) > t,
          ''idempotency reservation recovery acquisition time is invalid'')]) (\<lambda>_.
     bind_res (utc_time ''lease_expires_at'' lease) (\<lambda>lease.
       build_record dg (blank_record candidate RESERVED (rs_revision r + 1) t lease t)))))"

section \<open>Transitions\<close>

fun legal_edges :: "reservation_state \<Rightarrow> reservation_state set" where
  "legal_edges RESERVED = {IN_FLIGHT, ABANDONED}"
| "legal_edges IN_FLIGHT = {TERMINAL, OUTCOME_UNKNOWN}"
| "legal_edges OUTCOME_UNKNOWN = {TERMINAL}"
| "legal_edges TERMINAL = {RESERVED}"
| "legal_edges ABANDONED = {RESERVED}"

definition transition_checks :: "reservation \<Rightarrow> reservation \<Rightarrow> (bool \<times> string) list" where
  "transition_checks prior current =
     [(rs_state current \<notin> legal_edges (rs_state prior),
        ''idempotency reservation transition edge is invalid''),
      (state_changed_at current < state_changed_at prior,
        ''idempotency reservation transition is backdated'')] @
     (if rs_state current = RESERVED then
       [(\<not> same_operation (rs_identity prior) (rs_identity current),
          ''idempotency reservation recovery changes the stable operation''),
        (rc_attempt (ri_receipt (rs_identity current)) \<le> rc_attempt (ri_receipt (rs_identity prior)),
          ''idempotency reservation recovery attempt MUST increase''),
        (\<not> (state_changed_at prior \<le> rc_acquired_at (ri_receipt (rs_identity current)) \<and>
            rc_acquired_at (ri_receipt (rs_identity current)) \<le> reserved_at current),
          ''idempotency reservation recovery acquisition time is invalid''),
        (\<not> recoverable prior, ''idempotency reservation recovery lacks non-dispatch evidence'')]
      else
       [(rs_identity prior \<noteq> rs_identity current,
          ''idempotency reservation transition identity changed''),
        (reserved_at prior \<noteq> reserved_at current \<or> lease_expires_at prior \<noteq> lease_expires_at current \<or>
           owner_digest prior \<noteq> owner_digest current,
          ''idempotency reservation transition rewrote its lease or owner''),
        (dispatch_started_at prior \<noteq> None \<and> dispatch_started_at current \<noteq> dispatch_started_at prior,
          ''idempotency reservation transition rewrote dispatch time'')])"

definition validate_transition :: "reservation \<Rightarrow> reservation \<Rightarrow> unit res" where
  "validate_transition prior current = first_failure (transition_checks prior current)"

text \<open>
  What a transition receipt demands of the records it names, besides its own digests; an error
  here is an error of \<open>IdempotencyReservationTransitionReceipt.create\<close>.
\<close>

definition predecessor_checks ::
  "reservation option \<Rightarrow> reservation \<Rightarrow> int \<Rightarrow> int \<Rightarrow> (bool \<times> string) list" where
  "predecessor_checks prior current expected recorded =
     [(expected < 0 \<or> rs_revision current \<noteq> expected + 1,
        ''idempotency transition receipt revision mismatched'')] @
     (if expected = 0 then
        [(prior \<noteq> None \<or> rs_state current \<noteq> RESERVED,
           ''initial idempotency reservation MUST NOT have a predecessor'')]
      else (case prior of
          None \<Rightarrow> [(True, ''idempotency transition receipt requires its predecessor'')]
        | Some p \<Rightarrow>
           [(rs_revision p \<noteq> expected, ''idempotency transition predecessor mismatched''),
            (recorded < state_changed_at p,
              ''idempotency transition receipt predates its predecessor'')]
           @ transition_checks p current))"

definition receipt_checks ::
  "reservation option \<Rightarrow> reservation \<Rightarrow> int \<Rightarrow> int \<Rightarrow> (bool \<times> string) list" where
  "receipt_checks prior current expected recorded =
     predecessor_checks prior current expected recorded @
     [(recorded < state_changed_at current, ''idempotency transition receipt predates state change'')]"

text \<open>The receipt itself, with its digests.\<close>

record reservation_receipt =
  rt_prior :: "reservation option"
  rt_record :: reservation
  rt_expected :: int
  rt_store_digest :: string
  rt_recorded_at :: int
  rt_digest :: string

definition reservation_receipt_init ::
  "(reservation_receipt \<Rightarrow> string) \<Rightarrow> reservation_receipt \<Rightarrow> reservation_receipt res" where
  "reservation_receipt_init tdg t =
     bind_res (first_failure
       (predecessor_checks (rt_prior t) (rt_record t) (rt_expected t) (rt_recorded_at t) @
        [digest_check ''store_receipt_digest'' (rt_store_digest t),
         (rt_recorded_at t < state_changed_at (rt_record t),
           ''idempotency transition receipt predates state change''),
         digest_check ''receipt_digest'' (rt_digest t),
         (rt_digest t \<noteq> tdg (t\<lparr>rt_digest := []\<rparr>),
           ''idempotency transition receipt digest mismatched'')])) (\<lambda>_. Inr t)"

definition reservation_receipt_create ::
  "(reservation_receipt \<Rightarrow> string) \<Rightarrow> reservation option \<Rightarrow> reservation \<Rightarrow> int \<Rightarrow> string \<Rightarrow> int option \<Rightarrow>
     reservation_receipt res" where
  "reservation_receipt_create tdg prior current expected store_dg recorded =
     bind_res (utc_time ''recorded_at'' recorded) (\<lambda>recorded.
       let t = \<lparr>rt_prior = prior, rt_record = current, rt_expected = expected,
              rt_store_digest = store_dg, rt_recorded_at = recorded, rt_digest = []\<rparr>
       in reservation_receipt_init tdg (t\<lparr>rt_digest := tdg t\<rparr>))"

section \<open>The stores\<close>

text \<open>A store maps the stable key to the current record.\<close>

type_synonym reservation_store = "string \<Rightarrow> reservation option"

definition classify_reservation ::
  "reservation option \<Rightarrow> reservation_identity \<Rightarrow> reservation_match" where
  "classify_reservation existing candidate = (case existing of
     None \<Rightarrow> ACQUIRED
   | Some r \<Rightarrow>
       (if ri_key (rs_identity r) \<noteq> ri_key candidate then ACQUIRED
        else if identity_digest (rs_identity r) = identity_digest candidate then DUPLICATE_SAME
        else CONFLICT))"

text \<open>
  \<open>reserve\<close>: the result is the match and the record observed; both stores insert and read back in one
  atomic step. \<open>recorded\<close> is the time the store writes down.
\<close>

definition reserve ::
  "int \<Rightarrow> reservation \<Rightarrow> reservation_store \<Rightarrow> (reservation_match \<times> reservation) res \<times> reservation_store" where
  "reserve recorded r st =
     (if rs_state r \<noteq> RESERVED \<or> rs_revision r \<noteq> 1
      then (Inl (ValueError ''reservation requires revision-one reserved state''), st)
      else (case st (ri_key (rs_identity r)) of
          Some existing \<Rightarrow> (Inr (classify_reservation (Some existing) (rs_identity r), existing), st)
        | None \<Rightarrow> (case first_failure (receipt_checks None r 0 recorded) of
              Inl e \<Rightarrow> (Inl e, st)
            | Inr _ \<Rightarrow> (Inr (ACQUIRED, r), st(ri_key (rs_identity r) \<mapsto> r)))))"

text \<open>
  \<open>compare_and_transition\<close>: a failed check rolls the PostgreSQL transaction back, while the in-memory
  store has already replaced the record when its receipt raises.
\<close>

definition cas_matches :: "string \<Rightarrow> int \<Rightarrow> reservation option \<Rightarrow> bool" where
  "cas_matches digest expected prior = (case prior of
     None \<Rightarrow> False | Some p \<Rightarrow> record_digest p = digest \<and> rs_revision p = expected)"

definition pg_transition ::
  "string \<Rightarrow> int \<Rightarrow> int \<Rightarrow> reservation \<Rightarrow> reservation_store \<Rightarrow> unit res \<times> reservation_store" where
  "pg_transition digest expected recorded r st =
     (let key = ri_key (rs_identity r) in
      if \<not> cas_matches digest expected (st key)
      then (Inl (RuntimeError ''PostgreSQL reservation predecessor changed''), st)
      else (case first_failure (receipt_checks (st key) r expected recorded) of
          Inl e \<Rightarrow> (Inl e, st) | Inr _ \<Rightarrow> (Inr (), st(key \<mapsto> r))))"

definition memory_transition ::
  "string \<Rightarrow> int \<Rightarrow> reservation \<Rightarrow> reservation_store \<Rightarrow> unit res \<times> reservation_store" where
  "memory_transition digest expected r st =
     (let key = ri_key (rs_identity r) in
      if \<not> cas_matches digest expected (st key)
      then (Inl (RuntimeError ''in-memory reservation predecessor changed''), st)
      else (first_failure (receipt_checks (st key) r expected (state_changed_at r)), st(key \<mapsto> r)))"

section \<open>Every lifecycle operation is a legal transition\<close>

definition valid_record :: "(reservation \<Rightarrow> string) \<Rightarrow> reservation \<Rightarrow> bool" where
  "valid_record dg r = (record_init dg r = Inr r)"

lemma valid_checks: "valid_record dg r \<longleftrightarrow> list_all (\<lambda>c. \<not> fst c) (record_checks dg r)"
proof -
  have "valid_record dg r \<longleftrightarrow> first_failure (record_checks dg r) = Inr ()"
    by (cases "first_failure (record_checks dg r)") (simp_all add: valid_record_def record_init_def)
  then show ?thesis by (simp add: first_failure_ok)
qed

lemma utc_time_Inr [simp]: "utc_time name v = Inr t \<longleftrightarrow> v = Some t" "utc_time name (Some t) = Inr t"
  by (auto simp: utc_time_def split: option.splits)

lemma build_record_Inr:
  "build_record dg r = Inr r' \<Longrightarrow> valid_record dg r' \<and>
     (\<exists>d. r' = r\<lparr>owner_digest := rc_owner_digest (ri_receipt (rs_identity r)), record_digest := d\<rparr>)"
  by (auto simp: build_record_def Let_def record_init_def bind_res_Inr valid_record_def)

lemma valid_owner: "valid_record dg r \<Longrightarrow> owner_digest r = rc_owner_digest (ri_receipt (rs_identity r))"
  by (simp add: valid_checks record_checks_def)

lemma valid_reserved:
  "valid_record dg r \<Longrightarrow> rs_state r = RESERVED \<Longrightarrow> state_changed_at r = reserved_at r \<and> dispatch_started_at r = None"
  by (simp add: valid_checks record_checks_def shape_checks_def)

lemma valid_in_flight:
  "valid_record dg r \<Longrightarrow> rs_state r = IN_FLIGHT \<Longrightarrow> dispatch_started_at r = Some (state_changed_at r) \<and>
     state_changed_at r < lease_expires_at r"
  by (auto simp: valid_checks record_checks_def shape_checks_def split: option.splits)

lemma valid_lease: "valid_record dg r \<Longrightarrow> reserved_at r < lease_expires_at r"
  by (simp add: valid_checks record_checks_def)

text \<open>One step of the lifecycle, by any of its operations.\<close>

inductive lifecycle_next ::
  "(reservation \<Rightarrow> string) \<Rightarrow> (string \<Rightarrow> int \<Rightarrow> string) \<Rightarrow> reservation \<Rightarrow> reservation \<Rightarrow> bool"
  for dg xdg r where
  ln_begin: "begin_dispatch dg r t = Inr r' \<Longrightarrow> lifecycle_next dg xdg r r'"
| ln_expire: "expire_reservation dg xdg r t d = Inr r' \<Longrightarrow> lifecycle_next dg xdg r r'"
| ln_abandon: "abandon_before_dispatch dg r t d = Inr r' \<Longrightarrow> lifecycle_next dg xdg r r'"
| ln_complete: "complete_reservation dg r t outcome status na = Inr r' \<Longrightarrow> lifecycle_next dg xdg r r'"
| ln_verify: "complete_from_verifier dg r t outcome effect = Inr r' \<Longrightarrow> lifecycle_next dg xdg r r'"
| ln_quarantine: "quarantine_reservation dg r t d = Inr r' \<Longrightarrow> lifecycle_next dg xdg r r'"
| ln_reopen: "reopen_reservation dg r i reserved lease = Inr r' \<Longrightarrow> lifecycle_next dg xdg r r'"

definition accepted :: "(reservation \<Rightarrow> string) \<Rightarrow> reservation \<Rightarrow> reservation \<Rightarrow> bool" where
  "accepted dg r r' = (validate_transition r r' = Inr () \<and> valid_record dg r' \<and>
     rs_revision r' = rs_revision r + 1 \<and> ri_key (rs_identity r') = ri_key (rs_identity r))"

text \<open>A successor of the same attempt is accepted when its edge, its time and its dispatch time are right.\<close>

lemma successor_accepted:
  assumes "valid_record dg r" and "build_record dg n = Inr r'"
    and "rs_identity n = rs_identity r" "rs_revision n = rs_revision r + 1"
      "reserved_at n = reserved_at r" "lease_expires_at n = lease_expires_at r"
    and "rs_state n \<in> legal_edges (rs_state r)" "rs_state n \<noteq> RESERVED"
      "state_changed_at r \<le> state_changed_at n"
      "dispatch_started_at r = None \<or> dispatch_started_at n = dispatch_started_at r"
  shows "accepted dg r r'"
  using build_record_Inr [OF assms(2)] assms valid_owner [OF assms(1)]
  by (auto simp: accepted_def validate_transition_def transition_checks_def)

lemmas successor_sel = successor_def blank_record_def

lemma begin_accepted:
  assumes "valid_record dg r" and "begin_dispatch dg r t = Inr r'"
  shows "accepted dg r r' \<and> rs_state r = RESERVED"
proof -
  obtain u where u: "t = Some u" "rs_state r = RESERVED" "reserved_at r \<le> u"
    "build_record dg ((successor r IN_FLIGHT u)\<lparr>dispatch_started_at := Some u\<rparr>) = Inr r'"
    using assms(2) by (auto simp: begin_dispatch_def dispatch_permitted_def bind_res_Inr split: if_splits)
  with valid_reserved [OF assms(1)] show ?thesis
    by (auto intro!: successor_accepted [OF assms(1) u(4)] simp: successor_sel)
qed

lemma expire_accepted:
  assumes "valid_record dg r" and "expire_reservation dg xdg r t d = Inr r'"
  shows "accepted dg r r'"
proof -
  obtain u where u: "t = Some u" "lease_expires_at r \<le> u"
    using assms(2) by (auto simp: expire_reservation_def bind_res_Inr split: if_splits)
  note v = valid_reserved [OF assms(1)] valid_in_flight [OF assms(1)] valid_lease [OF assms(1)]
  show ?thesis
  proof (cases "rs_state r")
    case RESERVED
    with assms(2) u obtain e where
      b: "build_record dg ((successor r ABANDONED u)
          \<lparr>rs_evidence := Some DISPATCH_NEVER_BEGAN, evidence_digest := Some e\<rparr>) = Inr r'"
      by (auto simp: expire_reservation_def bind_res_Inr split: option.splits)
    show ?thesis using RESERVED v u by (intro successor_accepted [OF assms(1) b]) (auto simp: successor_sel)
  next
    case IN_FLIGHT
    with assms(2) u obtain e where
      b: "build_record dg ((successor r OUTCOME_UNKNOWN u)
          \<lparr>dispatch_started_at := dispatch_started_at r, rs_evidence := Some LEASE_EXPIRED,
           evidence_digest := Some e\<rparr>) = Inr r'"
      by (auto simp: expire_reservation_def)
    show ?thesis using IN_FLIGHT v u by (intro successor_accepted [OF assms(1) b]) (auto simp: successor_sel)
  qed (use assms(2) u in \<open>auto simp: expire_reservation_def\<close>)
qed

lemma terminal_accepted:
  assumes "valid_record dg r" and "first_failure (awaiting_outcome r u @ digests) = Inr ()"
    and "build_record dg (terminal_record r u kind evidence outcome) = Inr r'"
  shows "accepted dg r r'"
  using assms(2)
  by (intro successor_accepted [OF assms(1,3)])
    (auto simp: terminal_record_def successor_sel awaiting_outcome_def)

lemma lifecycle_accepted:
  assumes "valid_record dg r" and "lifecycle_next dg xdg r r'"
  shows "accepted dg r r'"
  using assms(2)
proof cases
  case (ln_begin t)
  then show ?thesis using begin_accepted [OF assms(1)] by blast
next
  case (ln_expire t d)
  then show ?thesis using expire_accepted [OF assms(1)] by blast
next
  case (ln_abandon t d)
  then obtain u where u: "rs_state r = RESERVED" "state_changed_at r \<le> u"
    "build_record dg ((successor r ABANDONED u)
         \<lparr>rs_evidence := Some DISPATCH_NEVER_BEGAN, evidence_digest := Some d\<rparr>) = Inr r'"
    by (auto simp: abandon_before_dispatch_def bind_res_Inr not_less)
  show ?thesis
    using u valid_reserved [OF assms(1)]
    by (intro successor_accepted [OF assms(1) u(3)]) (auto simp: successor_sel)
next
  case (ln_complete t outcome status na)
  then show ?thesis
    by (auto simp: complete_reservation_def bind_res_Inr intro: terminal_accepted [OF assms(1)])
next
  case (ln_verify t outcome effect)
  then show ?thesis
    by (auto simp: complete_from_verifier_def bind_res_Inr intro: terminal_accepted [OF assms(1)])
next
  case (ln_quarantine t d)
  then obtain u where u: "rs_state r = IN_FLIGHT"
    "(case dispatch_started_at r of None \<Rightarrow> True | Some s \<Rightarrow> u < s) = False"
    "build_record dg ((successor r OUTCOME_UNKNOWN u)
         \<lparr>dispatch_started_at := dispatch_started_at r, rs_evidence := Some CONTINUITY_UNPROVEN,
          evidence_digest := Some d\<rparr>) = Inr r'"
    by (auto simp: quarantine_reservation_def bind_res_Inr)
  show ?thesis
    using u valid_in_flight [OF assms(1)]
    by (intro successor_accepted [OF assms(1) u(3)]) (auto simp: successor_sel)
next
  case (ln_reopen i reserved lease)
  then obtain t l where "recoverable r" "same_operation (rs_identity r) i"
    "rc_attempt (ri_receipt (rs_identity r)) < rc_attempt (ri_receipt i)"
    "state_changed_at r \<le> t" "state_changed_at r \<le> rc_acquired_at (ri_receipt i)"
    "rc_acquired_at (ri_receipt i) \<le> t"
    and b: "build_record dg (blank_record i RESERVED (rs_revision r + 1) t l t) = Inr r'"
    by (auto simp: reopen_reservation_def bind_res_Inr not_less not_le)
  moreover from \<open>recoverable r\<close> have "rs_state r \<in> {TERMINAL, ABANDONED}" by (auto simp: recoverable_def)
  ultimately show ?thesis
    using build_record_Inr [OF b]
    by (auto simp: accepted_def validate_transition_def transition_checks_def
        blank_record_def same_operation_def)
qed

text \<open>
  C30: Every record an operation of the lifecycle returns is valid, one revision later under
  the same key, and passes the transition validation of the stores.
\<close>

theorem lifecycle_step_is_legal:
  assumes "record_init dg r = Inr r" and "lifecycle_next dg xdg r r'"
  shows "validate_transition r r' = Inr () \<and> record_init dg r' = Inr r' \<and>
    rs_revision r' = rs_revision r + 1 \<and> ri_key (rs_identity r') = ri_key (rs_identity r)"
  using lifecycle_accepted [of dg r xdg r'] assms by (simp add: accepted_def valid_record_def)

section \<open>Histories of the durable store\<close>

text \<open>Callers hand over valid records, since no other can be constructed.\<close>

type_synonym reservation_history = "string \<Rightarrow> reservation list"

inductive store_write :: "(reservation \<Rightarrow> string) \<Rightarrow> reservation_store \<Rightarrow> reservation_store \<Rightarrow> bool" for dg where
  sw_reserve: "valid_record dg r \<Longrightarrow> reserve recorded r st = (result, st') \<Longrightarrow> store_write dg st st'"
| sw_transition: "valid_record dg r \<Longrightarrow> pg_transition digest expected recorded r st = (answer, st') \<Longrightarrow>
    store_write dg st st'"

abbreviation store_step where
  "store_step dg \<equiv> history_step (store_write dg)"

abbreviation store_start :: "reservation_store \<times> reservation_history \<Rightarrow> bool" where
  "store_start \<equiv> history_start"

definition reservation_follows :: "reservation \<Rightarrow> reservation \<Rightarrow> bool" where
  "reservation_follows p r = (validate_transition p r = Inr () \<and> rs_revision r = rs_revision p + 1)"

lemma reserve_cases:
  assumes "reserve recorded r st = (res, st')"
  shows "st' = st \<or> (st (ri_key (rs_identity r)) = None \<and> rs_state r = RESERVED \<and> rs_revision r = 1 \<and>
    st' = st(ri_key (rs_identity r) \<mapsto> r))"
  using assms by (auto simp: reserve_def split: if_splits option.splits sum.splits)

lemma transition_cases:
  assumes "pg_transition digest expected recorded r st = (res, st')"
  shows "(res \<noteq> Inr () \<and> st' = st) \<or>
    (res = Inr () \<and> st' = st(ri_key (rs_identity r) \<mapsto> r) \<and>
     (\<exists>p. st (ri_key (rs_identity r)) = Some p \<and> rs_revision p = expected \<and> record_digest p = digest \<and>
        first_failure (receipt_checks (Some p) r expected recorded) = Inr ()))"
  using assms
  by (auto simp: pg_transition_def Let_def cas_matches_def split: if_splits option.splits sum.splits)

lemma receipt_transition:
  "first_failure (receipt_checks (Some p) r expected recorded) = Inr () \<Longrightarrow>
     expected \<noteq> 0 \<and> rs_revision r = expected + 1 \<and> validate_transition p r = Inr ()"
  by (auto simp: receipt_checks_def predecessor_checks_def validate_transition_def split: if_splits)

interpretation reservations: record_store "\<lambda>r. ri_key (rs_identity r)" "valid_record dg"
  "\<lambda>r. rs_state r = RESERVED \<and> rs_revision r = 1" reservation_follows "store_write dg" for dg
proof unfold_locales
  fix st st' assume "store_write dg st st'"
  then show "st' = st \<or> (\<exists>r. valid_record dg r \<and> st' = st(ri_key (rs_identity r) \<mapsto> r) \<and>
      (case st (ri_key (rs_identity r)) of None \<Rightarrow> rs_state r = RESERVED \<and> rs_revision r = 1
       | Some p \<Rightarrow> reservation_follows p r))"
  proof cases
    case (sw_reserve r recorded result)
    with reserve_cases [OF sw_reserve(2)] show ?thesis by auto
  next
    case (sw_transition r digest expected recorded answer)
    with transition_cases [OF sw_transition(2)] receipt_transition show ?thesis
      by (fastforce simp: reservation_follows_def)
  qed
qed (simp add: reservation_follows_def)

section \<open>At most one effect\<close>

lemma transition_edge: "validate_transition p r = Inr () \<Longrightarrow> rs_state r \<in> legal_edges (rs_state p)"
  by (simp add: validate_transition_def transition_checks_def)

lemma transition_reopen:
  "validate_transition p r = Inr () \<Longrightarrow> rs_state r = RESERVED \<Longrightarrow> recoverable p"
  by (simp add: validate_transition_def transition_checks_def)

definition not_accepted :: "reservation \<Rightarrow> bool" where
  "not_accepted r = (rs_state r = TERMINAL \<and> rs_evidence r = Some IRREVOCABLE_NON_ACCEPTANCE)"

lemma dispatch_window:
  assumes "\<And>m. Suc m < length rs \<Longrightarrow> validate_transition (rs ! m) (rs ! Suc m) = Inr ()"
    and "rs_state (rs ! i) = IN_FLIGHT"
    and "\<And>k. i < k \<Longrightarrow> k < j \<Longrightarrow> \<not> not_accepted (rs ! k)"
  shows "i < m \<Longrightarrow> m < length rs \<Longrightarrow> m \<le> j \<Longrightarrow> rs_state (rs ! m) \<in> {TERMINAL, OUTCOME_UNKNOWN}"
proof (induction m)
  case (Suc m)
  have v: "validate_transition (rs ! m) (rs ! Suc m) = Inr ()"
    by (rule assms(1)) (rule Suc.prems(2))
  show ?case
  proof (cases "i = m")
    case True
    then show ?thesis using transition_edge [OF v] assms(2) by auto
  next
    case False
    then have m: "rs_state (rs ! m) \<in> {TERMINAL, OUTCOME_UNKNOWN}" "\<not> not_accepted (rs ! m)"
      using Suc assms(3) by auto
    then have "\<not> (rs_state (rs ! m) = TERMINAL \<and> rs_state (rs ! Suc m) = RESERVED)"
      using transition_reopen [OF v] by (auto simp: recoverable_def not_accepted_def)
    then show ?thesis using transition_edge [OF v] m(1) by auto
  qed
qed simp

text \<open>
  C27: In every history of the durable reservation store, two dispatches under one
  idempotency key are separated by authoritative evidence that the first was irrevocably not
  accepted.
\<close>

theorem dispatched_at_most_once:
  assumes "reachable store_start (store_step dg) (st, h)"
    and "i < j" and "j < length (h key)"
    and "rs_state (h key ! i) = IN_FLIGHT" and "rs_state (h key ! j) = IN_FLIGHT"
  shows "\<exists>k. i < k \<and> k < j \<and> rs_state (h key ! k) = TERMINAL \<and>
    rs_evidence (h key ! k) = Some IRREVOCABLE_NON_ACCEPTANCE"
proof (rule ccontr)
  assume none: "\<not> ?thesis"
  have legal: "validate_transition (h key ! m) (h key ! Suc m) = Inr ()" if "Suc m < length (h key)" for m
    using reservations.history_follows [OF assms(1) that] by (simp add: reservation_follows_def)
  have "rs_state (h key ! j) \<in> {TERMINAL, OUTCOME_UNKNOWN}"
    using none assms(2,3,4)
    by (intro dispatch_window [of "h key" i j, OF legal]) (auto simp: not_accepted_def)
  with assms(5) show False by simp
qed

text \<open>
  A reservation that reached a terminal outcome other than an irrevocable non-acceptance is
  never replaced by any sequence of reservations and transitions.
\<close>

theorem settled_outcome_is_final:
  assumes "st key = Some r"
    and "rs_state r = TERMINAL" and "rs_evidence r \<noteq> Some IRREVOCABLE_NON_ACCEPTANCE"
    and "(store_step dg)\<^sup>*\<^sup>* (st, h) (st', h')"
  shows "st' key = Some r"
proof (rule reservations.last_record_stays [OF assms(4,1)])
  show "\<not> reservation_follows r q" for q
    using transition_edge [of r q] transition_reopen [of r q] assms(2,3)
    by (auto simp: reservation_follows_def recoverable_def)
qed

text \<open>
  Of two writers that compare against the same predecessor of a key, the second is refused
  and changes nothing, whatever record it brings for the key.
\<close>

theorem compare_and_set_has_one_winner:
  assumes "pg_transition digest expected recorded r st = (Inr (), st')"
    and "ri_key (rs_identity q) = ri_key (rs_identity r)"
  shows "\<exists>e. pg_transition digest expected recorded' q st' = (Inl e, st')"
proof -
  have "st' (ri_key (rs_identity r)) = Some r" "rs_revision r = expected + 1"
    using transition_cases [OF assms(1)] receipt_transition by auto
  then show ?thesis using assms(2) by (simp add: pg_transition_def Let_def cas_matches_def)
qed

section \<open>A concrete history\<close>

definition const_dg :: "reservation \<Rightarrow> string" where
  "const_dg r = filler_digest"

definition sample_identity :: "int \<Rightarrow> int \<Rightarrow> reservation_identity" where
  "sample_identity attempt acquired = \<lparr>ri_key = ''k1'', ri_action_digest = filler_digest,
     ri_path = PR_NATIVE, ri_fingerprint = replicate 64 (CHR ''c''),
     ri_source_revision = sample_revision,
     ri_receipt = sample_receipt attempt acquired, identity_digest = filler_digest\<rparr>"

lemma sample_identity_created:
  "identity_create (\<lambda>_. filler_digest) ''k1'' filler_digest PR_NATIVE (replicate 64 (CHR ''c''))
     sample_revision (sample_receipt attempt acquired) =
   Inr (sample_identity attempt acquired)"
proof -
  have "canonical_text 512 ''k1''" "commit_ref sample_revision"
    "list_all hex_lower (replicate 64 (CHR ''c''))" by code_simp+
  then have "first_failure (identity_checks (\<lambda>_. filler_digest) (sample_identity attempt acquired)) = Inr ()"
    by (simp add: identity_checks_def sample_identity_def sample_receipt_def digest_check_def filler_ok)
  then show ?thesis
    by (simp add: identity_create_def Let_def identity_init_def) (simp add: sample_identity_def)
qed

text \<open>Reserve, dispatch, a provider that provably refused, a second attempt, a second dispatch.\<close>

definition sealed :: "reservation \<Rightarrow> reservation" where
  "sealed r = r\<lparr>owner_digest := filler_digest, record_digest := filler_digest\<rparr>"

definition run_1 :: reservation where
  "run_1 = sealed (blank_record (sample_identity 1 0) RESERVED 1 10 100 10)"

definition run_2 :: reservation where
  "run_2 = sealed ((successor run_1 IN_FLIGHT 20)\<lparr>dispatch_started_at := Some 20\<rparr>)"

definition run_3 :: "bool \<Rightarrow> reservation" where
  "run_3 na = sealed (terminal_record run_2 30
     (if na then IRREVOCABLE_NON_ACCEPTANCE else SINK_TERMINAL_OUTCOME) filler_digest filler_digest)"

definition run_4 :: reservation where
  "run_4 = sealed (blank_record (sample_identity 2 40) RESERVED 4 50 200 50)"

definition run_5 :: reservation where
  "run_5 = sealed ((successor run_4 IN_FLIGHT 60)\<lparr>dispatch_started_at := Some 60\<rparr>)"

lemmas run_defs = run_1_def run_2_def run_3_def run_4_def run_5_def sealed_def successor_def
  blank_record_def terminal_record_def sample_identity_def sample_receipt_def

lemma run_valid: "valid_record const_dg run_1" "valid_record const_dg run_2"
  "valid_record const_dg (run_3 na)" "valid_record const_dg run_4" "valid_record const_dg run_5"
  by (simp_all add: valid_checks record_checks_def shape_checks_def digest_check_def
      optional_digest_check_def filler_ok const_dg_def run_defs)

lemma run_sel:
  "rs_state run_1 = RESERVED" "reserved_at run_1 = 10" "lease_expires_at run_1 = 100"
  "rs_state run_2 = IN_FLIGHT" "dispatch_started_at run_2 = Some 20" "state_changed_at run_2 = 20"
  "rs_state (run_3 na) = TERMINAL" "state_changed_at (run_3 na) = 30" "rs_revision (run_3 na) = 3"
  "rs_evidence (run_3 na) = Some (if na then IRREVOCABLE_NON_ACCEPTANCE else SINK_TERMINAL_OUTCOME)"
  "rs_identity (run_3 na) = sample_identity 1 0"
  "rs_state run_4 = RESERVED" "reserved_at run_4 = 50" "lease_expires_at run_4 = 200"
  "rs_state run_5 = IN_FLIGHT"
  by (simp_all add: run_1_def run_2_def run_3_def run_4_def run_5_def sealed_def successor_def
      blank_record_def terminal_record_def)

lemma build_sealed:
  "valid_record const_dg (sealed r) \<Longrightarrow> rc_owner_digest (ri_receipt (rs_identity r)) = filler_digest \<Longrightarrow>
     build_record const_dg r = Inr (sealed r)"
  by (simp add: build_record_def Let_def valid_record_def sealed_def const_dg_def)

lemma run_built:
  "build_record const_dg (blank_record (sample_identity 1 0) RESERVED 1 10 100 10) = Inr run_1"
  "build_record const_dg ((successor run_1 IN_FLIGHT 20)\<lparr>dispatch_started_at := Some 20\<rparr>) = Inr run_2"
  "build_record const_dg (terminal_record run_2 30
     (if na then IRREVOCABLE_NON_ACCEPTANCE else SINK_TERMINAL_OUTCOME) filler_digest filler_digest) =
   Inr (run_3 na)"
  "build_record const_dg (blank_record (sample_identity 2 40) RESERVED 4 50 200 50) = Inr run_4"
  "build_record const_dg ((successor run_4 IN_FLIGHT 60)\<lparr>dispatch_started_at := Some 60\<rparr>) = Inr run_5"
proof -
  have o: "rc_owner_digest (ri_receipt (sample_identity a b)) = filler_digest" for a b
    by (simp add: sample_identity_def sample_receipt_def)
  have i: "rs_identity run_1 = sample_identity 1 0" "rs_identity run_2 = sample_identity 1 0"
    "rs_identity run_4 = sample_identity 2 40"
    by (simp_all add: run_1_def run_2_def run_4_def sealed_def successor_def blank_record_def)
  show "build_record const_dg (blank_record (sample_identity 1 0) RESERVED 1 10 100 10) = Inr run_1"
    using build_sealed run_valid(1) o unfolding run_1_def by (simp add: blank_record_def)
  show "build_record const_dg ((successor run_1 IN_FLIGHT 20)\<lparr>dispatch_started_at := Some 20\<rparr>) = Inr run_2"
    using build_sealed run_valid(2) o i(1) unfolding run_2_def by (simp add: successor_def blank_record_def)
  show "build_record const_dg (terminal_record run_2 30
     (if na then IRREVOCABLE_NON_ACCEPTANCE else SINK_TERMINAL_OUTCOME) filler_digest filler_digest) =
     Inr (run_3 na)"
    using build_sealed run_valid(3) [of na] o i(2) unfolding run_3_def
    by (simp add: terminal_record_def successor_def blank_record_def)
  show "build_record const_dg (blank_record (sample_identity 2 40) RESERVED 4 50 200 50) = Inr run_4"
    using build_sealed run_valid(4) o unfolding run_4_def by (simp add: blank_record_def)
  show "build_record const_dg ((successor run_4 IN_FLIGHT 60)\<lparr>dispatch_started_at := Some 60\<rparr>) = Inr run_5"
    using build_sealed run_valid(5) o i(3) unfolding run_5_def by (simp add: successor_def blank_record_def)
qed

lemma run_operations:
  "create_reserved const_dg (sample_identity 1 0) (Some 10) (Some 100) = Inr run_1"
  "begin_dispatch const_dg run_1 (Some 20) = Inr run_2"
  "complete_reservation const_dg run_2 (Some 30) filler_digest filler_digest na = Inr (run_3 na)"
  "reopen_reservation const_dg (run_3 True) (sample_identity 2 40) (Some 50) (Some 200) = Inr run_4"
  "begin_dispatch const_dg run_4 (Some 60) = Inr run_5"
proof -
  have f: "first_failure (awaiting_outcome run_2 30 @ [digest_check a filler_digest, digest_check b filler_digest])
      = Inr ()" for a b
    by (simp add: awaiting_outcome_def digest_check_def filler_ok run_sel)
  have g: "recoverable (run_3 True)" "same_operation (sample_identity 1 0) (sample_identity 2 40)"
    by (simp_all add: recoverable_def run_sel same_operation_def sample_identity_def sample_receipt_def)
  have h: "rc_attempt (ri_receipt (sample_identity a b)) = a" "rc_acquired_at (ri_receipt (sample_identity a b)) = b" for a b
    by (simp_all add: sample_identity_def sample_receipt_def)
  show "create_reserved const_dg (sample_identity 1 0) (Some 10) (Some 100) = Inr run_1"
    by (simp add: create_reserved_def run_built)
  show "begin_dispatch const_dg run_1 (Some 20) = Inr run_2" "begin_dispatch const_dg run_4 (Some 60) = Inr run_5"
    by (simp_all add: begin_dispatch_def dispatch_permitted_def run_sel run_built)
  show "complete_reservation const_dg run_2 (Some 30) filler_digest filler_digest na = Inr (run_3 na)"
    by (simp add: complete_reservation_def f run_built)
  have r: "first_failure
       [(\<not> recoverable (run_3 True), ''idempotency reservation has no safe recovery evidence''),
        (\<not> same_operation (rs_identity (run_3 True)) (sample_identity 2 40),
          ''idempotency reservation recovery changes the stable operation''),
        (rc_attempt (ri_receipt (sample_identity 2 40)) \<le> rc_attempt (ri_receipt (rs_identity (run_3 True))),
          ''idempotency reservation recovery attempt MUST increase'')] = Inr ()"
    "first_failure
       [(50 < state_changed_at (run_3 True), ''idempotency reservation recovery predates its predecessor''),
        (rc_acquired_at (ri_receipt (sample_identity 2 40)) < state_changed_at (run_3 True) \<or>
           rc_acquired_at (ri_receipt (sample_identity 2 40)) > 50,
          ''idempotency reservation recovery acquisition time is invalid'')] = Inr ()"
    by (simp_all add: g h run_sel)
  show "reopen_reservation const_dg (run_3 True) (sample_identity 2 40) (Some 50) (Some 200) = Inr run_4"
    unfolding reopen_reservation_def r(1) by (simp add: h run_sel run_built first_failure.simps)
qed

definition put_record :: "reservation \<Rightarrow> reservation_store \<times> reservation_history \<Rightarrow>
    reservation_store \<times> reservation_history" where
  "put_record r w = ((fst w)(''k1'' \<mapsto> r), (snd w)(''k1'' := snd w ''k1'' @ [r]))"

definition empty_world :: "reservation_store \<times> reservation_history" where
  "empty_world = (Map.empty, (\<lambda>_. []))"

lemma run_key: "ri_key (rs_identity run_1) = ''k1''" "ri_key (rs_identity run_2) = ''k1''"
  "ri_key (rs_identity (run_3 na)) = ''k1''" "ri_key (rs_identity run_4) = ''k1''"
  "ri_key (rs_identity run_5) = ''k1''"
  by (simp_all add: run_defs)

lemma put_first: "store_step const_dg empty_world (put_record run_1 empty_world)"
proof -
  have "first_failure (receipt_checks None run_1 0 10) = Inr ()"
    by (simp add: receipt_checks_def predecessor_checks_def run_defs)
  then have "reserve 10 run_1 Map.empty = (Inr (ACQUIRED, run_1), Map.empty(''k1'' \<mapsto> run_1))"
    by (simp add: reserve_def run_key run_sel) (simp add: run_defs)
  from hs_write [where writes = "store_write const_dg", OF sw_reserve [OF run_valid(1) this], of "\<lambda>_. []"] show ?thesis
    by (simp add: empty_world_def put_record_def record_changes_put)
qed

lemma put_next:
  assumes "valid_record const_dg r" and "ri_key (rs_identity r) = ''k1''" and "fst w ''k1'' = Some p"
    and "first_failure (receipt_checks (Some p) r (rs_revision p) now) = Inr ()"
  shows "store_step const_dg w (put_record r w)"
proof -
  obtain st h where w: "w = (st, h)" by (cases w)
  have "pg_transition (record_digest p) (rs_revision p) now r st = (Inr (), st(''k1'' \<mapsto> r))"
    using assms w by (simp add: pg_transition_def Let_def cas_matches_def)
  from hs_write [where writes = "store_write const_dg", OF sw_transition [OF assms(1) this], of h]
  have "store_step const_dg w (st(''k1'' \<mapsto> r), record_changes st (st(''k1'' \<mapsto> r)) h)"
    using w by simp
  moreover have "r \<noteq> p" using receipt_transition [OF assms(4)] by auto
  ultimately show ?thesis using assms(3) w by (simp add: put_record_def record_changes_put)
qed

definition one_try :: "bool \<Rightarrow> reservation_store \<times> reservation_history" where
  "one_try na = put_record (run_3 na) (put_record run_2 (put_record run_1 empty_world))"

definition two_tries :: "reservation_store \<times> reservation_history" where
  "two_tries = put_record run_5 (put_record run_4 (one_try True))"

lemma lifecycle_receipt:
  assumes "valid_record const_dg p" and "lifecycle_next const_dg (\<lambda>_ _. filler_digest) p r"
  shows "first_failure (receipt_checks (Some p) r (rs_revision p) (state_changed_at r)) = Inr ()"
proof -
  have a: "accepted const_dg p r" by (rule lifecycle_accepted [OF assms])
  then have "state_changed_at p \<le> state_changed_at r"
    by (simp add: accepted_def validate_transition_def transition_checks_def)
  moreover have "0 < rs_revision p" using assms(1) by (simp add: valid_checks record_checks_def)
  ultimately show ?thesis using a
    by (simp add: receipt_checks_def predecessor_checks_def accepted_def validate_transition_def)
qed

lemma put_sel [simp]:
  "fst (put_record r w) ''k1'' = Some r" "snd (put_record r w) ''k1'' = snd w ''k1'' @ [r]"
  by (simp_all add: put_record_def)

lemma one_try_reachable: "reachable store_start (store_step const_dg) (one_try na)"
proof -
  have n: "lifecycle_next const_dg (\<lambda>_ _. filler_digest) run_1 run_2"
    "lifecycle_next const_dg (\<lambda>_ _. filler_digest) run_2 (run_3 na)"
    by (rule ln_begin, rule run_operations(2)) (rule ln_complete, rule run_operations(3))
  have "reachable store_start (store_step const_dg) empty_world"
    by (rule reachable_start) (simp add: history_start_def empty_world_def)
  from reachable_step [OF this put_first]
  have "reachable store_start (store_step const_dg) (put_record run_1 empty_world)" .
  from reachable_step [OF this put_next [OF run_valid(2) run_key(2) _ lifecycle_receipt [OF run_valid(1) n(1)]]]
  have "reachable store_start (store_step const_dg) (put_record run_2 (put_record run_1 empty_world))" by simp
  from reachable_step [OF this put_next [OF run_valid(3) run_key(3) _ lifecycle_receipt [OF run_valid(2) n(2)]]]
  show ?thesis by (simp add: one_try_def)
qed

lemma two_tries_reachable: "reachable store_start (store_step const_dg) two_tries"
proof -
  have n: "lifecycle_next const_dg (\<lambda>_ _. filler_digest) (run_3 True) run_4"
    "lifecycle_next const_dg (\<lambda>_ _. filler_digest) run_4 run_5"
    by (rule ln_reopen, rule run_operations(4)) (rule ln_begin, rule run_operations(5))
  have "fst (one_try True) ''k1'' = Some (run_3 True)" by (simp add: one_try_def)
  from reachable_step [OF one_try_reachable
      put_next [OF run_valid(4) run_key(4) this lifecycle_receipt [OF run_valid(3) n(1)]]]
  have "reachable store_start (store_step const_dg) (put_record run_4 (one_try True))" .
  from reachable_step [OF this put_next [OF run_valid(5) run_key(5) _ lifecycle_receipt [OF run_valid(4) n(2)]]]
  show ?thesis by (simp add: two_tries_def)
qed

theorem dispatched_at_most_once_witness:
  "\<exists>k. 1 < k \<and> k < (4::nat) \<and> rs_evidence (snd two_tries ''k1'' ! k) = Some IRREVOCABLE_NON_ACCEPTANCE"
proof -
  have h: "snd two_tries ''k1'' = [run_1, run_2, run_3 True, run_4, run_5]"
    by (simp add: two_tries_def one_try_def empty_world_def)
  have "reachable store_start (store_step const_dg) (fst two_tries, snd two_tries)"
    using two_tries_reachable by simp
  from dispatched_at_most_once [OF this, of 1 4 "''k1''"] show ?thesis
    by (auto simp: h run_sel)
qed

theorem settled_outcome_is_final_witness:
  "fst (one_try False) ''k1'' = Some (run_3 False) \<and>
   (\<exists>st h. (store_step const_dg)\<^sup>*\<^sup>* (one_try False) (st, h) \<and> st ''k1'' = Some (run_3 False))"
proof -
  let ?st = "fst (one_try False)" and ?h = "snd (one_try False)"
  have k: "?st ''k1'' = Some (run_3 False)" by (simp add: one_try_def)
  obtain result where "reserve 10 run_1 ?st = (result, ?st)"
    using k by (simp add: reserve_def run_key run_sel) (simp add: run_defs)
  from hs_write [where writes = "store_write const_dg", OF sw_reserve [OF run_valid(1) this], of ?h]
  have s: "(store_step const_dg)\<^sup>*\<^sup>* (?st, ?h) (?st, ?h)"
    by (simp add: r_into_rtranclp)
  have e: "rs_state (run_3 False) = TERMINAL" "rs_evidence (run_3 False) \<noteq> Some IRREVOCABLE_NON_ACCEPTANCE"
    by (simp_all add: run_sel)
  have "?st ''k1'' = Some (run_3 False)" by (rule settled_outcome_is_final [OF k e s])
  moreover have "(store_step const_dg)\<^sup>*\<^sup>* (one_try False) (?st, ?h)" using s by simp
  ultimately show ?thesis by blast
qed

theorem lifecycle_step_is_legal_witness:
  "validate_transition run_1 run_2 = Inr () \<and> rs_revision run_2 = rs_revision run_1 + 1"
  using lifecycle_step_is_legal [OF run_valid(1) [unfolded valid_record_def]
      ln_begin [OF run_operations(2), where xdg = "\<lambda>_ _. []"]] by simp

theorem compare_and_set_has_one_winner_witness:
  "\<exists>st e. pg_transition filler_digest 1 21 run_2 st = (Inl e, st) \<and> st ''k1'' = Some run_2"
proof -
  let ?st = "Map.empty(''k1'' \<mapsto> run_1)"
  have "rs_revision run_1 = 1" "record_digest run_1 = filler_digest" by (simp_all add: run_defs)
  moreover have "first_failure (receipt_checks (Some run_1) run_2 1 20) = Inr ()"
    using lifecycle_receipt [OF run_valid(1) ln_begin [OF run_operations(2)]]
    by (simp add: calculation(1) run_sel)
  ultimately have "pg_transition filler_digest 1 20 run_2 ?st = (Inr (), ?st(''k1'' \<mapsto> run_2))"
    by (simp add: pg_transition_def cas_matches_def run_key)
  from compare_and_set_has_one_winner [OF this, of run_2 21] show ?thesis by auto
qed

text \<open>
  The in-memory store has no transaction: a record that its own receipt refuses is kept.
\<close>

lemma memory_store_keeps_refused_record:
  "memory_transition filler_digest 3 run_5 (Map.empty(''k1'' \<mapsto> run_3 False)) =
     (Inl (ValueError ''idempotency transition receipt revision mismatched''),
      Map.empty(''k1'' \<mapsto> run_5))"
  by (simp add: memory_transition_def Let_def cas_matches_def run_key run_sel receipt_checks_def predecessor_checks_def
      first_failure.simps) (simp add: run_defs)

end
