(* ===== verification/LockContinuity.thy ===== *)
theory LockContinuity
  imports LockEvidence
begin

text \<open>
  Ownership through commit (\<open>core/executor/lock_continuity.py\<close>): the reviewed policy of an effect sink
  and the terminal receipt of one dispatch, which decides whether its target must be quarantined.
\<close>

section \<open>Policy\<close>

datatype continuity_strategy = FENCED_IDEMPOTENT | LOCK_SESSION_ATOMIC | QUARANTINED_RECONCILIATION

datatype dispatch_state = DS_NOT_STARTED | DS_ATTEMPTED | DS_ACCEPTED | DS_NOT_ACCEPTED

datatype sink_commit_state = SC_NOT_STARTED | SC_COMMITTED | SC_NOT_COMMITTED | SC_UNKNOWN

datatype effect_state = EF_PENDING | EF_VERIFIED | EF_MISMATCH | EF_UNKNOWN

record continuity_policy =
  cp_sink_id :: string
  cp_sink_version :: string
  cp_strategy :: continuity_strategy
  cp_fencing :: bool
  cp_idempotency :: bool
  cp_operation_status :: bool
  cp_session_commit :: bool
  cp_session_terminalization :: bool
  cp_session_outbox :: bool
  cp_cancellation :: bool
  cp_quarantine :: bool
  cp_reconciliation :: bool
  cp_digest :: string

definition continuity_digest_check :: "string \<Rightarrow> string \<Rightarrow> bool \<times> string" where
  "continuity_digest_check name v =
     (\<not> sha256_ref v, ''ownership continuity '' @ name @ '' MUST be SHA-256'')"

definition policy_checks :: "(continuity_policy \<Rightarrow> string) \<Rightarrow> continuity_policy \<Rightarrow> (bool \<times> string) list" where
  "policy_checks pdg p =
     [(\<not> bounded_text (cp_sink_id p), ''ownership continuity sink_id MUST be bounded''),
      (\<not> bounded_text (cp_sink_version p), ''ownership continuity sink_version MUST be bounded''),
      (cp_strategy p = FENCED_IDEMPOTENT \<and>
         \<not> (cp_fencing p \<and> (cp_idempotency p \<or> cp_operation_status p)),
        ''fenced continuity requires fencing and sink reconciliation''),
      (cp_strategy p = LOCK_SESSION_ATOMIC \<and>
         \<not> (cp_session_commit p \<and> cp_session_terminalization p \<and> cp_session_outbox p),
        ''session-atomic continuity requires one complete atomic boundary''),
      (cp_strategy p = QUARANTINED_RECONCILIATION \<and>
         \<not> (cp_cancellation p \<and> cp_quarantine p \<and> cp_reconciliation p),
        ''quarantined continuity requires cancellation and reconciliation''),
      continuity_digest_check ''policy_digest'' (cp_digest p),
      (cp_digest p \<noteq> pdg (p\<lparr>cp_digest := []\<rparr>),
        ''effect sink continuity policy digest mismatched'')]"

definition policy_init :: "(continuity_policy \<Rightarrow> string) \<Rightarrow> continuity_policy \<Rightarrow> continuity_policy res" where
  "policy_init pdg p = bind_res (first_failure (policy_checks pdg p)) (\<lambda>_. Inr p)"

definition policy_create :: "(continuity_policy \<Rightarrow> string) \<Rightarrow> continuity_policy \<Rightarrow> continuity_policy res" where
  "policy_create pdg p =
     (let p = p\<lparr>cp_digest := []\<rparr> in policy_init pdg (p\<lparr>cp_digest := pdg p\<rparr>))"

section \<open>Terminal receipt\<close>

record continuity_receipt =
  cr_policy :: continuity_policy
  cr_receipt :: acquisition_receipt
  cr_assessment :: ownership_assessment
  cr_dispatch :: dispatch_state
  cr_commit :: sink_commit_state
  cr_effect :: effect_state
  cr_release :: lock_release_state
  cr_status_digest :: "string option"
  cr_effect_digest :: "string option"
  cr_observed_at :: int
  cr_recorded_at :: int
  cr_quarantine :: bool
  cr_digest :: string

definition requires_quarantine ::
  "dispatch_state \<Rightarrow> sink_commit_state \<Rightarrow> lock_release_state \<Rightarrow> bool" where
  "requires_quarantine dispatch commit release =
     (commit = SC_UNKNOWN \<or> release \<in> {LR_LOST, LR_UNKNOWN} \<or>
      (dispatch \<in> {DS_ATTEMPTED, DS_ACCEPTED} \<and> commit \<noteq> SC_COMMITTED))"

definition terminal_axes :: "continuity_receipt \<Rightarrow> (bool \<times> string) list" where
  "terminal_axes r =
     (if cr_dispatch r = DS_NOT_STARTED then
        [(cr_commit r \<noteq> SC_NOT_STARTED, ''undispatched continuity cannot claim sink commit knowledge'')]
      else if cr_dispatch r = DS_NOT_ACCEPTED then
        [(cr_commit r \<noteq> SC_NOT_COMMITTED, ''non-accepted dispatch requires authoritative non-commit''),
         (cr_status_digest r = None, ''non-accepted dispatch requires authoritative sink status'')]
      else [(cr_commit r = SC_NOT_STARTED, ''attempted dispatch cannot retain a not-started sink state'')]) @
     [(cr_commit r = SC_COMMITTED \<and> cr_dispatch r \<noteq> DS_ACCEPTED,
        ''sink commit requires accepted dispatch''),
      (cr_commit r = SC_NOT_COMMITTED \<and> cr_status_digest r = None,
        ''sink non-commit requires authoritative status''),
      (cr_effect r \<in> {EF_VERIFIED, EF_MISMATCH} \<and> cr_effect_digest r = None,
        ''independent effect decision requires its receipt''),
      (cr_effect r \<notin> {EF_VERIFIED, EF_MISMATCH} \<and> cr_effect_digest r \<noteq> None,
        ''pending or unknown effect state cannot carry a decision receipt'')]"

definition continuity_checks :: "(continuity_receipt \<Rightarrow> string) \<Rightarrow> continuity_receipt \<Rightarrow> unit res" where
  "continuity_checks cdg r =
     bind_res (first_failure
       [(la_receipt (cr_assessment r) \<noteq> cr_receipt r,
          ''ownership continuity assessment does not bind the acquisition''),
        (cp_strategy (cr_policy r) = FENCED_IDEMPOTENT \<and> rc_fencing (cr_receipt r) = None,
          ''fenced continuity requires a fenced lease acquisition''),
        (cp_strategy (cr_policy r) = LOCK_SESSION_ATOMIC \<and> rc_session (cr_receipt r) = None,
          ''session-atomic continuity requires a session acquisition''),
        (cr_observed_at r > cr_recorded_at r,
          ''ownership continuity observation cannot follow recording'')]) (\<lambda>_.
     bind_res (require_current_ownership (cr_assessment r) (Some (cr_observed_at r))) (\<lambda>_.
     first_failure
       ((case cr_status_digest r of None \<Rightarrow> []
         | Some d \<Rightarrow> [continuity_digest_check ''authoritative_status_digest'' d]) @
        (case cr_effect_digest r of None \<Rightarrow> []
         | Some d \<Rightarrow> [continuity_digest_check ''independent_effect_receipt_digest'' d]) @
        terminal_axes r @
        [(cr_quarantine r \<noteq> requires_quarantine (cr_dispatch r) (cr_commit r) (cr_release r),
           ''ownership continuity quarantine flag mismatched terminal state''),
         continuity_digest_check ''receipt_digest'' (cr_digest r),
         (cr_digest r \<noteq> cdg (r\<lparr>cr_digest := []\<rparr>),
           ''ownership continuity receipt digest mismatched'')])))"

definition continuity_init :: "(continuity_receipt \<Rightarrow> string) \<Rightarrow> continuity_receipt \<Rightarrow> continuity_receipt res" where
  "continuity_init cdg r = bind_res (continuity_checks cdg r) (\<lambda>_. Inr r)"

definition continuity_time :: "string \<Rightarrow> int option \<Rightarrow> int res" where
  "continuity_time name v = (case v of
     None \<Rightarrow> Inl (ValueError (''ownership continuity '' @ name @ '' MUST include a timezone''))
   | Some t \<Rightarrow> Inr t)"

definition continuity_create ::
  "(continuity_receipt \<Rightarrow> string) \<Rightarrow> continuity_receipt \<Rightarrow> int option \<Rightarrow> int option \<Rightarrow>
     continuity_receipt res" where
  "continuity_create cdg r observed recorded =
     bind_res (continuity_time ''ownership_observed_at'' observed) (\<lambda>observed.
     bind_res (continuity_time ''recorded_at'' recorded) (\<lambda>recorded.
       let r = r\<lparr>cr_observed_at := observed, cr_recorded_at := recorded,
             cr_quarantine := requires_quarantine (cr_dispatch r) (cr_commit r) (cr_release r),
             cr_digest := []\<rparr>
       in continuity_init cdg (r\<lparr>cr_digest := cdg r\<rparr>)))"

section \<open>Without quarantine the outcome is known\<close>

lemma continuity_axes:
  assumes "continuity_init cdg r = Inr r"
  shows "list_all (\<lambda>c. \<not> fst c) (terminal_axes r)"
    and "cr_quarantine r = requires_quarantine (cr_dispatch r) (cr_commit r) (cr_release r)"
    and "require_current_ownership (cr_assessment r) (Some (cr_observed_at r)) = Inr (cr_assessment r)"
    and "la_receipt (cr_assessment r) = cr_receipt r" and "cr_observed_at r \<le> cr_recorded_at r"
proof -
  have c: "continuity_checks cdg r = Inr ()"
    using assms by (simp add: continuity_init_def bind_res_Inr)
  then show "list_all (\<lambda>c. \<not> fst c) (terminal_axes r)"
    "cr_quarantine r = requires_quarantine (cr_dispatch r) (cr_commit r) (cr_release r)"
    "la_receipt (cr_assessment r) = cr_receipt r" "cr_observed_at r \<le> cr_recorded_at r"
    by (auto simp: continuity_checks_def bind_res_Inr first_failure_ok)
  from c obtain a where
    "require_current_ownership (cr_assessment r) (Some (cr_observed_at r)) = Inr a"
    by (auto simp: continuity_checks_def bind_res_Inr)
  then show "require_current_ownership (cr_assessment r) (Some (cr_observed_at r)) = Inr (cr_assessment r)"
    by (auto simp: require_current_ownership_def bind_res_Inr)
qed

text \<open>
  A continuity receipt is free of quarantine exactly when the lock was released and the
  outcome at the sink is known: nothing was dispatched, the dispatch was refused on
  authoritative status, or it was accepted and committed. Every receipt rests on ownership
  that was current when it was observed.
\<close>

theorem unquarantined_iff_known:
  assumes "continuity_init cdg r = Inr r"
  shows "(\<not> cr_quarantine r \<longleftrightarrow> cr_release r = LR_RELEASED \<and>
      ((cr_dispatch r = DS_NOT_STARTED \<and> cr_commit r = SC_NOT_STARTED) \<or>
       (cr_dispatch r = DS_NOT_ACCEPTED \<and> cr_commit r = SC_NOT_COMMITTED \<and> cr_status_digest r \<noteq> None) \<or>
       (cr_dispatch r = DS_ACCEPTED \<and> cr_commit r = SC_COMMITTED))) \<and>
    require_current_ownership (cr_assessment r) (Some (cr_observed_at r)) = Inr (cr_assessment r) \<and>
    la_receipt (cr_assessment r) = cr_receipt r"
proof -
  note a = continuity_axes [OF assms]
  have "cr_release r \<in> {LR_RELEASED, LR_LOST, LR_UNKNOWN}" by (cases "cr_release r") simp_all
  then show ?thesis
    using a unfolding a(2)
    by (cases "cr_dispatch r"; cases "cr_commit r")
      (auto simp: terminal_axes_def requires_quarantine_def)
qed

definition sink_policy :: continuity_policy where
  "sink_policy = \<lparr>cp_sink_id = ''arm'', cp_sink_version = ''1'',
     cp_strategy = QUARANTINED_RECONCILIATION, cp_fencing = False, cp_idempotency = False,
     cp_operation_status = False, cp_session_commit = False, cp_session_terminalization = False,
     cp_session_outbox = False, cp_cancellation = True, cp_quarantine = True, cp_reconciliation = True,
     cp_digest = filler_digest\<rparr>"

lemma sink_policy_valid: "policy_init (\<lambda>_. filler_digest) sink_policy = Inr sink_policy"
proof -
  have "bounded_text ''arm''" "bounded_text ''1''" by code_simp+
  then show ?thesis
    by (simp add: policy_init_def policy_checks_def sink_policy_def bind_res_Inr
        continuity_digest_check_def filler_ok)
qed

definition sample_continuity :: "sink_commit_state \<Rightarrow> continuity_receipt" where
  "sample_continuity commit = \<lparr>cr_policy = sink_policy, cr_receipt = sample_receipt 1 0,
     cr_assessment = sample_assessment, cr_dispatch = DS_ACCEPTED, cr_commit = commit,
     cr_effect = EF_PENDING, cr_release = LR_RELEASED, cr_status_digest = None, cr_effect_digest = None,
     cr_observed_at = 500, cr_recorded_at = 600, cr_quarantine = (commit \<noteq> SC_COMMITTED),
     cr_digest = filler_digest\<rparr>"

lemma sample_continuity_valid:
  "commit \<in> {SC_COMMITTED, SC_UNKNOWN} \<Longrightarrow>
     continuity_init (\<lambda>_. filler_digest) (sample_continuity commit) = Inr (sample_continuity commit)"
  by (auto simp: continuity_init_def continuity_checks_def sample_continuity_def sample_assessment_def
      sink_policy_def require_current_ownership_def lock_time_def terminal_axes_def
      requires_quarantine_def continuity_digest_check_def filler_ok bind_res_Inr)

theorem unquarantined_iff_known_witness:
  "\<not> cr_quarantine (sample_continuity SC_COMMITTED) \<and> cr_quarantine (sample_continuity SC_UNKNOWN)"
  using unquarantined_iff_known [OF sample_continuity_valid [of SC_COMMITTED]]
    unquarantined_iff_known [OF sample_continuity_valid [of SC_UNKNOWN]]
  by (simp add: sample_continuity_def)

end
