(* ===== verification/AuditIntent.thy ===== *)
theory AuditIntent
  imports Reservation
begin

text \<open>
  The audit intent written before an effect (\<open>core/executor/audit_intent.py\<close>) and its append-only
  stores (\<open>delivery/persistence/postgres_audit_intent.py\<close> and the in-memory one of
  \<open>testing_safeguard_lifecycle.py\<close>).

  The stored JSON object of an intent stands for the intent itself: the code writes every field of a
  normalized intent and compares the whole object.
\<close>

section \<open>Intent\<close>

record audit_intent =
  ai_reservation :: reservation_receipt
  ai_actor :: string
  ai_created_at :: int
  ai_digest :: string

definition intent_digest_check :: "string \<Rightarrow> string \<Rightarrow> bool \<times> string" where
  "intent_digest_check name v = (\<not> sha256_ref v, ''audit intent '' @ name @ '' MUST be SHA-256'')"

definition intent_time :: "string \<Rightarrow> int option \<Rightarrow> int res" where
  "intent_time name v = (case v of
     None \<Rightarrow> Inl (ValueError (''audit intent '' @ name @ '' MUST include a timezone''))
   | Some t \<Rightarrow> Inr t)"

definition intent_checks :: "(audit_intent \<Rightarrow> string) \<Rightarrow> audit_intent \<Rightarrow> (bool \<times> string) list" where
  "intent_checks adg i =
     [(rs_state (rt_record (ai_reservation i)) \<noteq> RESERVED,
        ''audit intent requires a current reserved idempotency state''),
      (\<not> canonical_text 512 (ai_actor i), ''audit intent actor MUST be canonical and bounded''),
      (\<not> (rt_recorded_at (ai_reservation i) \<le> ai_created_at i \<and>
          ai_created_at i < lease_expires_at (rt_record (ai_reservation i))),
        ''audit intent time is outside the reservation lease''),
      intent_digest_check ''intent_digest'' (ai_digest i),
      (ai_digest i \<noteq> adg (i\<lparr>ai_digest := []\<rparr>), ''pre-effect audit intent digest mismatched'')]"

definition intent_init :: "(audit_intent \<Rightarrow> string) \<Rightarrow> audit_intent \<Rightarrow> audit_intent res" where
  "intent_init adg i = bind_res (first_failure (intent_checks adg i)) (\<lambda>_. Inr i)"

definition intent_create ::
  "(audit_intent \<Rightarrow> string) \<Rightarrow> reservation_receipt \<Rightarrow> string \<Rightarrow> int option \<Rightarrow> audit_intent res" where
  "intent_create adg receipt actor created =
     bind_res (intent_time ''created_at'' created) (\<lambda>created.
       let i = \<lparr>ai_reservation = receipt, ai_actor = actor, ai_created_at = created, ai_digest = []\<rparr>
       in intent_init adg (i\<lparr>ai_digest := adg i\<rparr>))"

section \<open>Append receipt\<close>

record append_receipt =
  ap_intent :: audit_intent
  ap_persisted_digest :: string
  ap_store_digest :: string
  ap_persisted_at :: int
  ap_read_back_at :: int
  ap_digest :: string

definition append_checks :: "(append_receipt \<Rightarrow> string) \<Rightarrow> append_receipt \<Rightarrow> (bool \<times> string) list" where
  "append_checks pdg p =
     [intent_digest_check ''persisted_intent_digest'' (ap_persisted_digest p),
      (ap_persisted_digest p \<noteq> ai_digest (ap_intent p),
        ''audit intent authoritative readback mismatched candidate''),
      intent_digest_check ''store_receipt_digest'' (ap_store_digest p),
      (\<not> (ai_created_at (ap_intent p) \<le> ap_persisted_at p \<and> ap_persisted_at p \<le> ap_read_back_at p \<and>
          ap_read_back_at p < lease_expires_at (rt_record (ai_reservation (ap_intent p)))),
        ''audit intent persistence chronology is invalid''),
      intent_digest_check ''receipt_digest'' (ap_digest p),
      (ap_digest p \<noteq> pdg (p\<lparr>ap_digest := []\<rparr>), ''audit intent append receipt digest mismatched'')]"

definition append_init :: "(append_receipt \<Rightarrow> string) \<Rightarrow> append_receipt \<Rightarrow> append_receipt res" where
  "append_init pdg p = bind_res (first_failure (append_checks pdg p)) (\<lambda>_. Inr p)"

definition append_create ::
  "(append_receipt \<Rightarrow> string) \<Rightarrow> audit_intent \<Rightarrow> string \<Rightarrow> string \<Rightarrow> int option \<Rightarrow> int option \<Rightarrow>
     append_receipt res" where
  "append_create pdg i persisted_dg store_dg persisted read_back =
     bind_res (intent_time ''persisted_at'' persisted) (\<lambda>persisted.
     bind_res (intent_time ''read_back_at'' read_back) (\<lambda>read_back.
       let p = \<lparr>ap_intent = i, ap_persisted_digest = persisted_dg, ap_store_digest = store_dg,
              ap_persisted_at = persisted, ap_read_back_at = read_back, ap_digest = []\<rparr>
       in append_init pdg (p\<lparr>ap_digest := pdg p\<rparr>)))"

section \<open>Stores\<close>

datatype append_decision = AD_APPENDED | AD_DUPLICATE_SAME | AD_CONFLICT

record append_result =
  ar_candidate :: string
  ar_decision :: append_decision
  ar_observed :: string
  ar_receipt :: "append_receipt option"

definition result_checks :: "append_result \<Rightarrow> (bool \<times> string) list" where
  "result_checks r =
     [intent_digest_check ''candidate_intent_digest'' (ar_candidate r),
      intent_digest_check ''observed_intent_digest'' (ar_observed r),
      (ar_decision r \<noteq> AD_CONFLICT \<and> (case ar_receipt r of None \<Rightarrow> True
         | Some p \<Rightarrow> ar_candidate r \<noteq> ar_observed r \<or> ai_digest (ap_intent p) \<noteq> ar_candidate r),
        ''successful audit intent append result mismatched candidate''),
      (ar_decision r = AD_CONFLICT \<and> (ar_receipt r \<noteq> None \<or> ar_observed r = ar_candidate r),
        ''conflicting audit intent result MUST NOT contain success evidence'')]"

definition make_append_result ::
  "string \<Rightarrow> append_decision \<Rightarrow> string \<Rightarrow> append_receipt option \<Rightarrow> append_result res" where
  "make_append_result candidate d observed receipt =
     (let r = \<lparr>ar_candidate = candidate, ar_decision = d, ar_observed = observed, ar_receipt = receipt\<rparr>
      in bind_res (first_failure (result_checks r)) (\<lambda>_. Inr r))"

text \<open>
  \<open>key_of\<close> is the content digest of the idempotency key and the identity digest of the reservation,
  \<open>corrupt\<close> the digest of an unexpected row, \<open>sdg\<close> that of the store receipt.
\<close>

record audit_store =
  as_rows :: "string \<Rightarrow> (audit_intent \<times> int) option"

definition intent_key :: "(string \<Rightarrow> string \<Rightarrow> string) \<Rightarrow> audit_intent \<Rightarrow> string" where
  "intent_key key_of i = (let identity = rs_identity (rt_record (ai_reservation i))
     in key_of (ri_key identity) (identity_digest identity))"

definition observed_digest :: "(audit_intent \<Rightarrow> string) \<Rightarrow> audit_intent \<Rightarrow> string \<Rightarrow> string" where
  "observed_digest corrupt observed candidate =
     (if sha256_ref (ai_digest observed) \<and> ai_digest observed \<noteq> candidate
      then ai_digest observed else corrupt observed)"

text \<open>
  \<open>append_and_readback\<close> of the PostgreSQL store: the insert commits in its own transaction, so the
  row stays when the receipt is refused. \<open>now\<close> is the time of the insert, \<open>read\<close> that of the readback.
\<close>

definition pg_append ::
  "(string \<Rightarrow> string \<Rightarrow> string) \<Rightarrow> (audit_intent \<Rightarrow> string) \<Rightarrow> (append_receipt \<Rightarrow> string) \<Rightarrow>
     (audit_intent \<Rightarrow> int \<Rightarrow> int \<Rightarrow> string) \<Rightarrow> int \<Rightarrow> int \<Rightarrow> audit_intent \<Rightarrow> audit_store \<Rightarrow>
     append_result res \<times> audit_store" where
  "pg_append key_of corrupt pdg sdg now read i st =
     (let key = intent_key key_of i;
          inserted = (as_rows st key = None);
          st' = (if inserted then st\<lparr>as_rows := (as_rows st)(key \<mapsto> (i, now))\<rparr> else st)
      in (case as_rows st' key of
            None \<Rightarrow> Inl (ValueError ''PostgreSQL audit intent readback is unavailable'')
          | Some (observed, persisted) \<Rightarrow>
              (if observed \<noteq> i
               then make_append_result (ai_digest i) AD_CONFLICT
                      (observed_digest corrupt observed (ai_digest i)) None
               else bind_res (append_create pdg i (ai_digest observed) (sdg i persisted read)
                        (Some persisted) (Some read)) (\<lambda>p.
                      make_append_result (ai_digest i)
                        (if inserted then AD_APPENDED else AD_DUPLICATE_SAME)
                        (ai_digest observed) (Some p))), st'))"

text \<open>The in-memory store, keyed by the identity digest; a refused receipt stores nothing.\<close>

record memory_audit_store =
  ms_intents :: "string \<Rightarrow> audit_intent option"
  ms_receipts :: "string \<Rightarrow> append_receipt option"

definition memory_append ::
  "(append_receipt \<Rightarrow> string) \<Rightarrow> (string \<Rightarrow> string) \<Rightarrow> audit_intent \<Rightarrow> memory_audit_store \<Rightarrow>
     append_result res \<times> memory_audit_store" where
  "memory_append pdg mdg i st =
     (let key = identity_digest (rs_identity (rt_record (ai_reservation i))) in
      case ms_intents st key of
        Some existing \<Rightarrow>
          (if existing \<noteq> i then (make_append_result (ai_digest i) AD_CONFLICT (ai_digest existing) None, st)
           else (case ms_receipts st key of
               None \<Rightarrow> (Inl (KeyError key), st)
             | Some p \<Rightarrow> (make_append_result (ai_digest i) AD_DUPLICATE_SAME (ai_digest i) (Some p), st)))
      | None \<Rightarrow>
          (case append_create pdg i (ai_digest i) (mdg (ai_digest i))
                  (Some (ai_created_at i)) (Some (ai_created_at i)) of
             Inl e \<Rightarrow> (Inl e, st)
           | Inr p \<Rightarrow> (make_append_result (ai_digest i) AD_APPENDED (ai_digest i) (Some p),
               st\<lparr>ms_intents := (ms_intents st)(key \<mapsto> i), ms_receipts := (ms_receipts st)(key \<mapsto> p)\<rparr>)))"

section \<open>One audited intent per reservation\<close>

lemma append_create_Inr:
  "append_create pdg i persisted_dg store_dg persisted read_back = Inr p \<Longrightarrow>
     persisted = Some (ap_persisted_at p) \<and> read_back = Some (ap_read_back_at p) \<and>
     ap_intent p = i \<and> ai_created_at i \<le> ap_persisted_at p \<and> ap_persisted_at p \<le> ap_read_back_at p \<and>
     ap_read_back_at p < lease_expires_at (rt_record (ai_reservation i))"
  by (auto simp: append_create_def append_init_def Let_def bind_res_Inr intent_time_def append_checks_def
      split: option.splits)

lemma make_append_result_Inr:
  "make_append_result candidate d observed receipt = Inr r \<longleftrightarrow>
     first_failure (result_checks r) = Inr () \<and>
     r = \<lparr>ar_candidate = candidate, ar_decision = d, ar_observed = observed, ar_receipt = receipt\<rparr>"
  by (auto simp: make_append_result_def Let_def bind_res_Inr)

text \<open>A row, once written, is never changed, whatever the answer.\<close>

lemma pg_append_keeps:
  "pg_append key_of corrupt pdg sdg now read i st = (answer, st') \<Longrightarrow> as_rows st key = Some row \<Longrightarrow>
     as_rows st' key = Some row"
  by (auto simp: pg_append_def Let_def split: if_splits)

lemma pg_append_receipt:
  assumes "pg_append key_of corrupt pdg sdg now read i st = (Inr r, st')" and "ar_receipt r = Some p"
  shows "as_rows st' (intent_key key_of (ap_intent p)) = Some (ap_intent p, ap_persisted_at p)"
    and "ap_intent p = i" and "ap_read_back_at p = read"
    and "ai_created_at i \<le> ap_persisted_at p" and "ap_persisted_at p \<le> ap_read_back_at p"
    and "ap_read_back_at p < lease_expires_at (rt_record (ai_reservation i))"
proof -
  obtain observed persisted where row: "as_rows st' (intent_key key_of i) = Some (observed, persisted)"
    using assms(1) by (auto simp: pg_append_def Let_def split: if_splits)
  with assms have "observed = i \<and>
      append_create pdg i (ai_digest i) (sdg i persisted read) (Some persisted) (Some read) = Inr p"
    by (auto simp: pg_append_def Let_def make_append_result_Inr bind_res_Inr split: if_splits)
  with row append_create_Inr [of pdg i "ai_digest i" "sdg i persisted read" "Some persisted" "Some read" p]
  show "as_rows st' (intent_key key_of (ap_intent p)) = Some (ap_intent p, ap_persisted_at p)"
    "ap_intent p = i" "ap_read_back_at p = read" "ai_created_at i \<le> ap_persisted_at p"
    "ap_persisted_at p \<le> ap_read_back_at p"
    "ap_read_back_at p < lease_expires_at (rt_record (ai_reservation i))" by auto
qed

text \<open>The store together with the receipts it has issued; callers hand over valid intents.\<close>

inductive audit_step ::
  "(audit_intent \<Rightarrow> string) \<Rightarrow> (string \<Rightarrow> string \<Rightarrow> string) \<Rightarrow> (audit_intent \<Rightarrow> string) \<Rightarrow>
     (append_receipt \<Rightarrow> string) \<Rightarrow> (audit_intent \<Rightarrow> int \<Rightarrow> int \<Rightarrow> string) \<Rightarrow>
     audit_store \<times> append_receipt list \<Rightarrow> audit_store \<times> append_receipt list \<Rightarrow> bool"
  for adg key_of corrupt pdg sdg where
  au_refused: "intent_init adg i = Inr i \<Longrightarrow> pg_append key_of corrupt pdg sdg now read i st = (answer, st') \<Longrightarrow>
    audit_step adg key_of corrupt pdg sdg (st, ps) (st', ps)"
| au_receipt: "intent_init adg i = Inr i \<Longrightarrow> pg_append key_of corrupt pdg sdg now read i st = (Inr r, st') \<Longrightarrow>
    ar_receipt r = Some p \<Longrightarrow> audit_step adg key_of corrupt pdg sdg (st, ps) (st', ps @ [p])"

definition audit_start :: "audit_store \<times> append_receipt list \<Rightarrow> bool" where
  "audit_start w = (w = (\<lparr>as_rows = Map.empty\<rparr>, []))"

definition audit_inv ::
  "(audit_intent \<Rightarrow> string) \<Rightarrow> (string \<Rightarrow> string \<Rightarrow> string) \<Rightarrow> audit_store \<times> append_receipt list \<Rightarrow> bool" where
  "audit_inv adg key_of w = (\<forall>p \<in> set (snd w).
     as_rows (fst w) (intent_key key_of (ap_intent p)) = Some (ap_intent p, ap_persisted_at p) \<and>
     intent_init adg (ap_intent p) = Inr (ap_intent p) \<and>
     ai_created_at (ap_intent p) \<le> ap_persisted_at p \<and> ap_persisted_at p \<le> ap_read_back_at p \<and>
     ap_read_back_at p < lease_expires_at (rt_record (ai_reservation (ap_intent p))))"

lemma audit_inv_step:
  "audit_inv adg key_of w \<Longrightarrow> audit_step adg key_of corrupt pdg sdg w w' \<Longrightarrow> audit_inv adg key_of w'"
proof (elim audit_step.cases)
  fix i now read st answer st' ps
  assume "audit_inv adg key_of w" "w = (st, ps)" "w' = (st', ps)"
    "pg_append key_of corrupt pdg sdg now read i st = (answer, st')"
  then show "audit_inv adg key_of w'" by (auto simp: audit_inv_def pg_append_keeps)
next
  fix i now read st r st' p ps
  assume "audit_inv adg key_of w" "w = (st, ps)" "w' = (st', ps @ [p])" "intent_init adg i = Inr i"
    "pg_append key_of corrupt pdg sdg now read i st = (Inr r, st')" "ar_receipt r = Some p"
  then show "audit_inv adg key_of w'"
    using pg_append_receipt [of key_of corrupt pdg sdg now read i st r st' p]
    by (auto simp: audit_inv_def pg_append_keeps)
qed

interpretation audited: safe_system audit_start "audit_step adg key_of corrupt pdg sdg" "audit_inv adg key_of"
  for adg key_of corrupt pdg sdg
proof unfold_locales
  show "audit_inv adg key_of w" if "audit_start w" for w
    using that by (simp add: audit_start_def audit_inv_def)
qed (rule audit_inv_step)

text \<open>
  C28: However intents are appended and retried, all receipts issued for one reservation
  identity name the same intent and the same row, and each was read back after the
  reservation was recorded and before its lease ended.
\<close>

theorem one_intent_per_reservation:
  assumes "reachable audit_start (audit_step adg key_of corrupt pdg sdg) (st, ps)"
    and "p \<in> set ps" and "q \<in> set ps"
    and "intent_key key_of (ap_intent p) = intent_key key_of (ap_intent q)"
  shows "ap_intent p = ap_intent q \<and> ap_persisted_at p = ap_persisted_at q \<and>
    rs_state (rt_record (ai_reservation (ap_intent p))) = RESERVED \<and>
    rt_recorded_at (ai_reservation (ap_intent p)) \<le> ap_persisted_at p \<and>
    ap_persisted_at p \<le> ap_read_back_at p \<and>
    ap_read_back_at p < lease_expires_at (rt_record (ai_reservation (ap_intent p)))"
proof -
  have inv: "audit_inv adg key_of (st, ps)" by (rule audited.reachable_inv [OF assms(1)])
  have "intent_init adg (ap_intent p) = Inr (ap_intent p)" using inv assms(2) by (simp add: audit_inv_def)
  then have i: "rs_state (rt_record (ai_reservation (ap_intent p))) = RESERVED"
    "rt_recorded_at (ai_reservation (ap_intent p)) \<le> ai_created_at (ap_intent p)"
    by (simp_all add: intent_init_def bind_res_Inr intent_checks_def)
  have row: "as_rows st (intent_key key_of (ap_intent x)) = Some (ap_intent x, ap_persisted_at x)" if "x \<in> set ps" for x
    using inv that by (simp add: audit_inv_def)
  have "Some (ap_intent p, ap_persisted_at p) = Some (ap_intent q, ap_persisted_at q)"
    using row [OF assms(2)] row [OF assms(3)] unfolding assms(4) by (rule trans [OF sym])
  moreover have "ai_created_at (ap_intent p) \<le> ap_persisted_at p" "ap_persisted_at p \<le> ap_read_back_at p"
    "ap_read_back_at p < lease_expires_at (rt_record (ai_reservation (ap_intent p)))"
    using inv assms(2) by (simp_all add: audit_inv_def)
  ultimately show ?thesis using i by (auto intro: order_trans)
qed

section \<open>A retried append\<close>

definition run_receipt :: reservation_receipt where
  "run_receipt = \<lparr>rt_prior = None, rt_record = run_1, rt_expected = 0, rt_store_digest = filler_digest,
     rt_recorded_at = 11, rt_digest = filler_digest\<rparr>"

definition run_intent :: audit_intent where
  "run_intent = \<lparr>ai_reservation = run_receipt, ai_actor = ''core'', ai_created_at = 12, ai_digest = filler_digest\<rparr>"

definition run_append :: "int \<Rightarrow> append_receipt" where
  "run_append read = \<lparr>ap_intent = run_intent, ap_persisted_digest = filler_digest,
     ap_store_digest = filler_digest, ap_persisted_at = 13, ap_read_back_at = read, ap_digest = filler_digest\<rparr>"

lemma run_1_sel: "rs_revision run_1 = 1" "state_changed_at run_1 = 10" "rs_state run_1 = RESERVED"
  "lease_expires_at run_1 = 100" "identity_digest (rs_identity run_1) = filler_digest"
  by (simp_all add: run_defs)

lemma run_receipt_valid: "reservation_receipt_init (\<lambda>_. filler_digest) run_receipt = Inr run_receipt"
  by (simp add: reservation_receipt_init_def predecessor_checks_def run_receipt_def digest_check_def filler_ok
      bind_res_Inr run_1_sel)

lemma run_intent_valid: "intent_init (\<lambda>_. filler_digest) run_intent = Inr run_intent"
proof -
  have "canonical_text 512 ''core''" by code_simp
  then show ?thesis
    by (simp add: intent_init_def intent_checks_def run_intent_def run_receipt_def intent_digest_check_def
        filler_ok bind_res_Inr run_1_sel)
qed

lemma run_append_created:
  "13 \<le> read \<Longrightarrow> read < 100 \<Longrightarrow>
     append_create (\<lambda>_. filler_digest) run_intent filler_digest filler_digest (Some 13) (Some read) =
       Inr (run_append read)"
  by (simp add: append_create_def Let_def append_init_def append_checks_def run_append_def run_intent_def
      run_receipt_def intent_time_def intent_digest_check_def filler_ok bind_res_Inr run_1_sel)

definition run_store :: audit_store where
  "run_store = \<lparr>as_rows = Map.empty(''r1'' \<mapsto> (run_intent, 13))\<rparr>"

definition run_result :: "append_decision \<Rightarrow> int \<Rightarrow> append_result" where
  "run_result d read = \<lparr>ar_candidate = filler_digest, ar_decision = d, ar_observed = filler_digest,
     ar_receipt = Some (run_append read)\<rparr>"

lemma run_result_made:
  "d \<noteq> AD_CONFLICT \<Longrightarrow>
     make_append_result filler_digest d filler_digest (Some (run_append read)) = Inr (run_result d read)"
  by (simp add: make_append_result_Inr result_checks_def run_result_def intent_digest_check_def filler_ok
      run_append_def run_intent_def)

lemma run_appends:
  "pg_append (\<lambda>_ _. ''r1'') (\<lambda>_. filler_digest) (\<lambda>_. filler_digest) (\<lambda>_ _ _. filler_digest) 13 14 run_intent
     \<lparr>as_rows = Map.empty\<rparr> = (Inr (run_result AD_APPENDED 14), run_store)"
  "pg_append (\<lambda>_ _. ''r1'') (\<lambda>_. filler_digest) (\<lambda>_. filler_digest) (\<lambda>_ _ _. filler_digest) 20 21 run_intent
     run_store = (Inr (run_result AD_DUPLICATE_SAME 21), run_store)"
proof -
  have "ai_digest run_intent = filler_digest" by (simp add: run_intent_def)
  then show "pg_append (\<lambda>_ _. ''r1'') (\<lambda>_. filler_digest) (\<lambda>_. filler_digest) (\<lambda>_ _ _. filler_digest) 13 14
     run_intent \<lparr>as_rows = Map.empty\<rparr> = (Inr (run_result AD_APPENDED 14), run_store)"
    "pg_append (\<lambda>_ _. ''r1'') (\<lambda>_. filler_digest) (\<lambda>_. filler_digest) (\<lambda>_ _ _. filler_digest) 20 21
     run_intent run_store = (Inr (run_result AD_DUPLICATE_SAME 21), run_store)"
    by (simp_all add: pg_append_def Let_def intent_key_def run_append_created run_result_made run_store_def)
qed

theorem one_intent_per_reservation_witness:
  "run_append 14 \<noteq> run_append 21 \<and> ap_intent (run_append 14) = ap_intent (run_append 21) \<and>
   ap_read_back_at (run_append 14) < lease_expires_at (rt_record (ai_reservation (ap_intent (run_append 14))))"
proof -
  let ?step = "audit_step (\<lambda>_. filler_digest) (\<lambda>_ _. ''r1'') (\<lambda>_. filler_digest) (\<lambda>_. filler_digest) (\<lambda>_ _ _. filler_digest)"
  have r: "ar_receipt (run_result d t) = Some (run_append t)" for d t by (simp add: run_result_def)
  have "reachable audit_start ?step (\<lparr>as_rows = Map.empty\<rparr>, [])"
    by (rule reachable_start) (simp add: audit_start_def)
  moreover have "?step (\<lparr>as_rows = Map.empty\<rparr>, []) (run_store, [] @ [run_append 14])"
    by (rule au_receipt [OF run_intent_valid run_appends(1) r])
  moreover have "?step (run_store, [] @ [run_append 14]) (run_store, ([] @ [run_append 14]) @ [run_append 21])"
    by (rule au_receipt [OF run_intent_valid run_appends(2) r])
  ultimately have "reachable audit_start ?step (run_store, ([] @ [run_append 14]) @ [run_append 21])"
    by (blast intro: reachable_step)
  from one_intent_per_reservation [OF this, of "run_append 14" "run_append 21"] show ?thesis
    by (simp add: intent_key_def) (simp add: run_append_def)
qed

end
