(* ===== verification/TargetFence.thy ===== *)
theory TargetFence
  imports AuditIntent LockContinuity
begin

text \<open>
  The target-wide dispatch fence: the identity and record of one generation of a target, the steps
  of its lifecycle and the checks of a transition (\<open>core/executor/target_dispatch_fence.py\<close>), the
  classification of acquisitions (\<open>target_dispatch_fence_store.py\<close>) and the two stores
  (\<open>delivery/persistence/postgres_target_dispatch_fence.py\<close> and the in-memory one of
  \<open>testing_safeguard_lifecycle.py\<close>).
\<close>

section \<open>Identity\<close>

datatype fence_state =
  TF_PREPARING | TF_PREPARED | TF_IN_FLIGHT | TF_RELEASE_PENDING | TF_RESOLVED | TF_QUARANTINED

record fence_identity =
  tf_target :: string
  tf_reservation :: string
  tf_attempt :: int
  tf_acquisition :: string
  tf_acquired_at :: int
  tf_policy :: string
  tf_generation :: int
  tf_correlation_id :: string
  tf_sink_key :: string
  tf_identity_digest :: string

definition fence_digest_check :: "string \<Rightarrow> string \<Rightarrow> bool \<times> string" where
  "fence_digest_check name v =
     (\<not> sha256_ref v, ''target dispatch fence '' @ name @ '' MUST be SHA-256'')"

definition fence_text_check :: "string \<Rightarrow> string \<Rightarrow> bool \<times> string" where
  "fence_text_check name v =
     (\<not> canonical_text 512 v, ''target dispatch fence '' @ name @ '' MUST be canonical and bounded'')"

definition fence_time :: "string \<Rightarrow> int option \<Rightarrow> int res" where
  "fence_time name v = (case v of
     None \<Rightarrow> Inl (ValueError (''target dispatch fence '' @ name @ '' MUST include a timezone''))
   | Some t \<Rightarrow> Inr t)"

definition fence_identity_checks ::
  "(fence_identity \<Rightarrow> string) \<Rightarrow> fence_identity \<Rightarrow> (bool \<times> string) list" where
  "fence_identity_checks idg i =
     [fence_digest_check ''target_digest'' (tf_target i),
      fence_digest_check ''reservation_identity_digest'' (tf_reservation i),
      (tf_attempt i < 1, ''target dispatch fence reservation attempt MUST be positive''),
      fence_digest_check ''acquisition_receipt_digest'' (tf_acquisition i),
      fence_digest_check ''continuity_policy_digest'' (tf_policy i),
      (tf_generation i < 1, ''target dispatch fence generation MUST be positive''),
      fence_text_check ''client_correlation_id'' (tf_correlation_id i),
      fence_text_check ''sink_idempotency_key'' (tf_sink_key i),
      fence_digest_check ''identity_digest'' (tf_identity_digest i),
      (tf_identity_digest i \<noteq> idg (i\<lparr>tf_identity_digest := []\<rparr>),
        ''target dispatch fence identity digest mismatched'')]"

definition fence_identity_init :: "(fence_identity \<Rightarrow> string) \<Rightarrow> fence_identity \<Rightarrow> fence_identity res" where
  "fence_identity_init idg i = bind_res (first_failure (fence_identity_checks idg i)) (\<lambda>_. Inr i)"

definition fence_identity_create ::
  "(fence_identity \<Rightarrow> string) \<Rightarrow> string \<Rightarrow> reservation_identity \<Rightarrow> continuity_policy \<Rightarrow> int \<Rightarrow> string \<Rightarrow>
     string \<Rightarrow> fence_identity res" where
  "fence_identity_create idg target reservation policy generation correlation sink_key =
     (let acquisition = ri_receipt reservation in
      bind_res (first_failure
        [(rc_target_digest acquisition \<noteq> target, ''target dispatch fence target mismatched acquisition''),
         (cp_strategy policy \<noteq> QUARANTINED_RECONCILIATION,
           ''target dispatch fence supports quarantined reconciliation only'')]) (\<lambda>_.
        let i = \<lparr>tf_target = target, tf_reservation = identity_digest reservation,
               tf_attempt = rc_attempt acquisition, tf_acquisition = rc_receipt_digest acquisition,
               tf_acquired_at = rc_acquired_at acquisition, tf_policy = cp_digest policy,
               tf_generation = generation, tf_correlation_id = correlation, tf_sink_key = sink_key,
               tf_identity_digest = []\<rparr>
        in fence_identity_init idg (i\<lparr>tf_identity_digest := idg i\<rparr>)))"

section \<open>Record\<close>

record fence =
  tf_identity :: fence_identity
  tf_state :: fence_state
  tf_revision :: int
  tf_prior :: "string option"
  tf_audit :: "string option"
  tf_bundle :: "string option"
  tf_changed_at :: int
  tf_no_dispatch :: "string option"
  tf_resolution :: "string option"
  tf_digest :: string

definition fence_shape :: "fence \<Rightarrow> (bool \<times> string) list" where
  "fence_shape r =
     (let ready = (tf_audit r \<noteq> None \<and> tf_bundle r \<noteq> None) in
      [((tf_audit r = None) \<noteq> (tf_bundle r = None), ''target dispatch fence prerequisites are partial'')] @
      (case tf_state r of
         TF_PREPARING \<Rightarrow>
           [(ready \<or> tf_no_dispatch r \<noteq> None \<or> tf_resolution r \<noteq> None,
             ''preparing target dispatch fence shape is invalid'')]
       | TF_QUARANTINED \<Rightarrow>
           [(\<not> ready \<or> tf_resolution r = None,
             ''quarantined target dispatch fence requires terminal evidence'')]
       | TF_RESOLVED \<Rightarrow>
           (if tf_no_dispatch r = None then
              [(\<not> ready \<or> tf_resolution r = None,
                ''resolved target dispatch fence requires closure evidence'')]
            else [(ready, ''no-dispatch closure cannot retain prepared prerequisites'')])
       | _ \<Rightarrow>
           [(\<not> ready \<or> tf_no_dispatch r \<noteq> None \<or> tf_resolution r \<noteq> None,
             ''active target dispatch fence shape is invalid'')]))"

definition optional_fence_digest :: "string \<Rightarrow> string option \<Rightarrow> bool \<times> string" where
  "optional_fence_digest name v = (case v of
     None \<Rightarrow> (False, []) | Some d \<Rightarrow> fence_digest_check name d)"

definition fence_checks :: "(fence \<Rightarrow> string) \<Rightarrow> fence \<Rightarrow> (bool \<times> string) list" where
  "fence_checks fdg r =
     [(tf_revision r < 1, ''target dispatch fence revision MUST be positive'')] @
     (if tf_revision r = 1 then
        [(tf_prior r \<noteq> None, ''initial target dispatch fence MUST NOT have a predecessor'')]
      else
        [(tf_prior r = None, ''target dispatch fence transition requires predecessor digest''),
         optional_fence_digest ''prior_record_digest'' (tf_prior r)]) @
     [optional_fence_digest ''audit_append_receipt_digest'' (tf_audit r),
      optional_fence_digest ''safeguard_bundle_digest'' (tf_bundle r),
      optional_fence_digest ''no_dispatch_evidence_digest'' (tf_no_dispatch r),
      optional_fence_digest ''resolution_evidence_digest'' (tf_resolution r),
      (tf_changed_at r < tf_acquired_at (tf_identity r), ''target dispatch fence predates lock acquisition'')] @
     fence_shape r @
     [fence_digest_check ''record_digest'' (tf_digest r),
      (tf_digest r \<noteq> fdg (r\<lparr>tf_digest := []\<rparr>), ''target dispatch fence record digest mismatched'')]"

definition fence_init :: "(fence \<Rightarrow> string) \<Rightarrow> fence \<Rightarrow> fence res" where
  "fence_init fdg r = bind_res (first_failure (fence_checks fdg r)) (\<lambda>_. Inr r)"

definition build_fence :: "(fence \<Rightarrow> string) \<Rightarrow> fence \<Rightarrow> fence res" where
  "build_fence fdg r = (let r = r\<lparr>tf_digest := []\<rparr> in fence_init fdg (r\<lparr>tf_digest := fdg r\<rparr>))"

text \<open>A record as \<open>_build_record\<close> starts it, with the optional arguments at their defaults.\<close>

definition blank_fence :: "fence_identity \<Rightarrow> fence_state \<Rightarrow> int \<Rightarrow> string option \<Rightarrow> int \<Rightarrow> fence" where
  "blank_fence i state revision prior changed =
     \<lparr>tf_identity = i, tf_state = state, tf_revision = revision, tf_prior = prior, tf_audit = None,
      tf_bundle = None, tf_changed_at = changed, tf_no_dispatch = None, tf_resolution = None, tf_digest = []\<rparr>"

text \<open>The first generation of a target, or the next one after an exact resolved predecessor.\<close>

definition create_preparing ::
  "(fence \<Rightarrow> string) \<Rightarrow> fence_identity \<Rightarrow> int option \<Rightarrow> fence option \<Rightarrow> fence res" where
  "create_preparing fdg i changed prior =
     bind_res (first_failure (case prior of
         None \<Rightarrow> [(tf_generation i \<noteq> 1, ''initial target dispatch fence generation MUST be one'')]
       | Some p \<Rightarrow>
           [(tf_state p \<noteq> TF_RESOLVED, ''new target dispatch generation requires resolved predecessor''),
            (tf_target (tf_identity p) \<noteq> tf_target i, ''new target dispatch generation changes target''),
            (tf_generation i \<noteq> tf_generation (tf_identity p) + 1,
              ''target dispatch fence generation MUST increase by one''),
            (tf_acquired_at i \<le> tf_changed_at p \<or> tf_reservation i = tf_reservation (tf_identity p),
              ''new target dispatch requires a later acquisition'')])) (\<lambda>_.
     bind_res (fence_time ''changed_at'' changed) (\<lambda>t.
       build_fence fdg (case prior of
           None \<Rightarrow> blank_fence i TF_PREPARING 1 None t
         | Some p \<Rightarrow> blank_fence i TF_PREPARING (tf_revision p + 1) (Some (tf_digest p)) t)))"

section \<open>Lifecycle\<close>

definition next_fence ::
  "(fence \<Rightarrow> string) \<Rightarrow> fence \<Rightarrow> fence_state \<Rightarrow> int option \<Rightarrow> string option \<Rightarrow> string option \<Rightarrow>
     string option \<Rightarrow> string option \<Rightarrow> bool \<Rightarrow> fence res" where
  "next_fence fdg r state changed audit bundle no_dispatch resolution clear =
     bind_res (fence_time ''changed_at'' changed) (\<lambda>t.
       if t < tf_changed_at r
       then Inl (ValueError ''target dispatch fence transition is backdated'')
       else build_fence fdg
         ((blank_fence (tf_identity r) state (tf_revision r + 1) (Some (tf_digest r)) t)
           \<lparr>tf_audit := (if clear then None else if audit \<noteq> None then audit else tf_audit r),
            tf_bundle := (if clear then None else if bundle \<noteq> None then bundle else tf_bundle r),
            tf_no_dispatch := no_dispatch, tf_resolution := resolution\<rparr>))"

definition attach_prepared_evidence ::
  "(fence \<Rightarrow> string) \<Rightarrow> fence \<Rightarrow> append_receipt \<Rightarrow> string \<Rightarrow> int option \<Rightarrow> fence res" where
  "attach_prepared_evidence fdg r audit bundle changed =
     bind_res (first_failure
       [(tf_state r \<noteq> TF_PREPARING, ''target dispatch fence is not preparing''),
        (identity_digest (rs_identity (rt_record (ai_reservation (ap_intent audit)))) \<noteq>
           tf_reservation (tf_identity r), ''target dispatch fence audit evidence changed reservation'')]) (\<lambda>_.
     bind_res (fence_time ''changed_at'' changed) (\<lambda>t.
     bind_res (first_failure
       [(t < ap_read_back_at audit, ''target dispatch fence prepared before audit readback''),
        fence_digest_check ''safeguard_bundle_digest'' bundle]) (\<lambda>_.
       next_fence fdg r TF_PREPARED (Some t) (Some (ap_digest audit)) (Some bundle) None None False)))"

definition mark_in_flight :: "(fence \<Rightarrow> string) \<Rightarrow> fence \<Rightarrow> int option \<Rightarrow> fence res" where
  "mark_in_flight fdg r changed =
     bind_res (first_failure [(tf_state r \<noteq> TF_PREPARED, ''target dispatch fence is not prepared'')])
       (\<lambda>_. next_fence fdg r TF_IN_FLIGHT changed None None None None False)"

definition mark_release_pending :: "(fence \<Rightarrow> string) \<Rightarrow> fence \<Rightarrow> int option \<Rightarrow> fence res" where
  "mark_release_pending fdg r changed =
     bind_res (first_failure [(tf_state r \<noteq> TF_IN_FLIGHT, ''target dispatch fence is not in flight'')])
       (\<lambda>_. next_fence fdg r TF_RELEASE_PENDING changed None None None None False)"

definition resolve_without_dispatch ::
  "(fence \<Rightarrow> string) \<Rightarrow> fence \<Rightarrow> string \<Rightarrow> int option \<Rightarrow> fence res" where
  "resolve_without_dispatch fdg r evidence changed =
     bind_res (first_failure
       [(tf_state r \<notin> {TF_PREPARING, TF_PREPARED, TF_IN_FLIGHT},
          ''target dispatch fence cannot resolve as undispatched''),
        fence_digest_check ''no_dispatch_evidence_digest'' evidence]) (\<lambda>_.
       next_fence fdg r TF_RESOLVED changed None None (Some evidence) None True)"

definition close_after_release ::
  "(fence \<Rightarrow> string) \<Rightarrow> fence \<Rightarrow> bool \<Rightarrow> string \<Rightarrow> int option \<Rightarrow> fence res" where
  "close_after_release fdg r quarantined evidence changed =
     bind_res (first_failure
       [(tf_state r \<notin> {TF_RELEASE_PENDING, TF_QUARANTINED},
          ''target dispatch fence is not terminalizable''),
        (tf_state r = TF_QUARANTINED \<and> quarantined,
          ''quarantined target dispatch fence requires resolution''),
        fence_digest_check ''resolution_evidence_digest'' evidence,
        (tf_state r = TF_QUARANTINED \<and> tf_resolution r = Some evidence,
          ''quarantined target dispatch fence requires fresh reconciliation evidence'')]) (\<lambda>_.
       next_fence fdg r (if quarantined then TF_QUARANTINED else TF_RESOLVED) changed
         None None None (Some evidence) False)"

section \<open>Transitions\<close>

fun fence_edges :: "fence_state \<Rightarrow> fence_state set" where
  "fence_edges TF_PREPARING = {TF_PREPARED, TF_RESOLVED}"
| "fence_edges TF_PREPARED = {TF_IN_FLIGHT, TF_RESOLVED}"
| "fence_edges TF_IN_FLIGHT = {TF_RELEASE_PENDING, TF_RESOLVED}"
| "fence_edges TF_RELEASE_PENDING = {TF_RESOLVED, TF_QUARANTINED}"
| "fence_edges TF_QUARANTINED = {TF_RESOLVED}"
| "fence_edges TF_RESOLVED = {}"

definition transition_evidence :: "fence \<Rightarrow> fence \<Rightarrow> (bool \<times> string) list" where
  "transition_evidence p c =
     (if tf_state p \<in> {TF_PREPARING, TF_PREPARED, TF_IN_FLIGHT} \<and> tf_state c = TF_RESOLVED then
        [(tf_no_dispatch c = None \<or> tf_audit c \<noteq> None \<or> tf_bundle c \<noteq> None \<or> tf_resolution c \<noteq> None,
          ''target dispatch fence pre-dispatch closure evidence is invalid'')]
      else if tf_state c = TF_PREPARED then
        [(tf_audit p \<noteq> None \<or> tf_bundle p \<noteq> None \<or> tf_audit c = None \<or> tf_bundle c = None,
          ''target dispatch fence prepared evidence transition is invalid'')]
      else if tf_no_dispatch c \<noteq> None then
        [(tf_state c \<noteq> TF_RESOLVED \<or> tf_state p \<notin> {TF_PREPARING, TF_PREPARED} \<or>
            tf_audit c \<noteq> None \<or> tf_bundle c \<noteq> None \<or> tf_resolution c \<noteq> None,
          ''target dispatch fence no-dispatch evidence transition is invalid'')]
      else
        [(tf_state p \<in> {TF_PREPARED, TF_IN_FLIGHT, TF_RELEASE_PENDING, TF_QUARANTINED} \<and>
            (tf_audit c \<noteq> tf_audit p \<or> tf_bundle c \<noteq> tf_bundle p),
          ''target dispatch fence prepared evidence was rewritten''),
         (tf_state p = TF_QUARANTINED \<and> tf_state c = TF_RESOLVED \<and> tf_resolution c = tf_resolution p,
          ''target dispatch fence reconciliation evidence is not fresh''),
         (tf_state c \<in> {TF_IN_FLIGHT, TF_RELEASE_PENDING} \<and>
            (tf_no_dispatch c \<noteq> None \<or> tf_resolution c \<noteq> None),
          ''active target dispatch fence contains terminal evidence''),
         (tf_state c \<in> {TF_RESOLVED, TF_QUARANTINED} \<and> tf_resolution c = None,
          ''terminal target dispatch fence lacks resolution evidence'')])"

definition fence_transition_checks :: "fence \<Rightarrow> fence \<Rightarrow> (bool \<times> string) list" where
  "fence_transition_checks p c =
     (if tf_state p = TF_RESOLVED \<and> tf_state c = TF_PREPARING then
        [(tf_revision c \<noteq> tf_revision p + 1 \<or> tf_prior c \<noteq> Some (tf_digest p) \<or>
            tf_target (tf_identity c) \<noteq> tf_target (tf_identity p) \<or>
            tf_generation (tf_identity c) \<noteq> tf_generation (tf_identity p) + 1 \<or>
            tf_acquired_at (tf_identity c) \<le> tf_changed_at p \<or>
            tf_reservation (tf_identity c) = tf_reservation (tf_identity p) \<or>
            tf_changed_at c < tf_changed_at p,
          ''target dispatch fence generation advance is invalid'')]
      else
        [(tf_identity c \<noteq> tf_identity p \<or> tf_revision c \<noteq> tf_revision p + 1 \<or>
            tf_prior c \<noteq> Some (tf_digest p) \<or> tf_changed_at c < tf_changed_at p,
          ''target dispatch fence predecessor mismatched''),
         (tf_state c \<notin> fence_edges (tf_state p), ''target dispatch fence transition edge is invalid'')] @
        transition_evidence p c)"

definition validate_fence_transition :: "fence \<Rightarrow> fence \<Rightarrow> unit res" where
  "validate_fence_transition p c = first_failure (fence_transition_checks p c)"

text \<open>What a transition receipt demands of its records and its time, besides its own digests.\<close>

definition fence_receipt_checks :: "fence option \<Rightarrow> fence \<Rightarrow> int \<Rightarrow> (bool \<times> string) list" where
  "fence_receipt_checks prior r recorded =
     (case prior of
        None \<Rightarrow> [(tf_revision r \<noteq> 1 \<or> tf_prior r \<noteq> None \<or> tf_state r \<noteq> TF_PREPARING \<or>
            tf_generation (tf_identity r) \<noteq> 1, ''initial target dispatch fence transition is invalid'')]
      | Some p \<Rightarrow> fence_transition_checks p r) @
     [(recorded < tf_changed_at r \<or> (case prior of None \<Rightarrow> False | Some p \<Rightarrow> recorded < tf_changed_at p),
        ''target dispatch fence transition receipt is backdated'')]"

section \<open>Stores\<close>

type_synonym fence_store = "string \<Rightarrow> fence option"

datatype acquire_decision = FA_ACQUIRED | FA_DUPLICATE_SAME | FA_BLOCKED

definition classify_target_fence :: "fence \<Rightarrow> fence_identity \<Rightarrow> acquire_decision res" where
  "classify_target_fence existing candidate =
     (if tf_target (tf_identity existing) \<noteq> tf_target candidate
      then Inl (ValueError ''target dispatch fence classifier target mismatched'')
      else Inr (if tf_identity_digest (tf_identity existing) = tf_identity_digest candidate
                then FA_DUPLICATE_SAME else FA_BLOCKED))"

definition target_mutation_blocked :: "fence option \<Rightarrow> bool" where
  "target_mutation_blocked r = (case r of None \<Rightarrow> False | Some f \<Rightarrow> tf_state f \<noteq> TF_RESOLVED)"

text \<open>The checks of \<open>TargetDispatchFenceAcquireResult\<close> on a candidate, a decision and the observed record.\<close>

definition acquire_result ::
  "fence_identity \<Rightarrow> acquire_decision \<Rightarrow> fence \<Rightarrow> (acquire_decision \<times> fence) res" where
  "acquire_result candidate d observed =
     (if d = FA_ACQUIRED then
        (if tf_identity observed \<noteq> candidate \<or> tf_state observed \<noteq> TF_PREPARING
         then Inl (ValueError ''acquired target dispatch fence requires exact insert evidence'')
         else Inr (d, observed))
      else bind_res (classify_target_fence observed candidate) (\<lambda>expected.
        if d \<noteq> expected then Inl (ValueError ''target dispatch fence result mismatched candidate'')
        else Inr (d, observed)))"

definition generation_follows :: "fence \<Rightarrow> fence \<Rightarrow> bool" where
  "generation_follows existing r =
     (tf_state existing = TF_RESOLVED \<and> tf_prior r = Some (tf_digest existing) \<and>
      tf_revision r = tf_revision existing + 1 \<and>
      tf_generation (tf_identity r) = tf_generation (tf_identity existing) + 1)"

text \<open>
  \<open>acquire_generation\<close> of the PostgreSQL store: one transaction under a row lock, rolled back by any
  exception. \<open>recorded\<close> is the later of the write and the readback time; \<open>raced\<close> says that the row
  appeared between the first read and the insert, which then does nothing.
\<close>

definition pg_acquire ::
  "bool \<Rightarrow> int \<Rightarrow> fence \<Rightarrow> fence_store \<Rightarrow> (acquire_decision \<times> fence) res \<times> fence_store" where
  "pg_acquire raced recorded r st =
     (let key = tf_target (tf_identity r) in
      if tf_state r \<noteq> TF_PREPARING
      then (Inl (ValueError ''PostgreSQL target fence acquisition requires preparing state''), st)
      else (case st key of
          Some existing \<Rightarrow>
            (case classify_target_fence existing (tf_identity r) of
               Inl e \<Rightarrow> (Inl e, st)
             | Inr d \<Rightarrow>
                 (if raced \<or> d = FA_DUPLICATE_SAME then (acquire_result (tf_identity r) d existing, st)
                  else if \<not> generation_follows existing r
                  then (acquire_result (tf_identity r) FA_BLOCKED existing, st)
                  else (case bind_res (first_failure (fence_receipt_checks (Some existing) r recorded))
                            (\<lambda>_. acquire_result (tf_identity r) FA_ACQUIRED r) of
                      Inl e \<Rightarrow> (Inl e, st) | Inr a \<Rightarrow> (Inr a, st(key \<mapsto> r)))))
        | None \<Rightarrow>
            (case bind_res (first_failure (fence_receipt_checks None r recorded))
                (\<lambda>_. acquire_result (tf_identity r) FA_ACQUIRED r) of
               Inl e \<Rightarrow> (Inl e, st) | Inr a \<Rightarrow> (Inr a, st(key \<mapsto> r)))))"

definition fence_cas_matches :: "string \<Rightarrow> int \<Rightarrow> fence \<Rightarrow> bool" where
  "fence_cas_matches digest expected p = (tf_digest p = digest \<and> tf_revision p = expected)"

definition pg_fence_transition ::
  "string \<Rightarrow> int \<Rightarrow> int \<Rightarrow> fence \<Rightarrow> fence_store \<Rightarrow> unit res \<times> fence_store" where
  "pg_fence_transition digest expected recorded r st =
     (let key = tf_target (tf_identity r) in
      case st key of
        None \<Rightarrow> (Inl (RuntimeError ''PostgreSQL target fence is unavailable''), st)
      | Some p \<Rightarrow>
          (if \<not> fence_cas_matches digest expected p
           then (Inl (RuntimeError ''PostgreSQL target fence predecessor changed''), st)
           else (case first_failure (fence_receipt_checks (Some p) r recorded) of
               Inl e \<Rightarrow> (Inl e, st) | Inr _ \<Rightarrow> (Inr (), st(key \<mapsto> r)))))"

text \<open>The in-memory store writes before its receipt is checked, and has no state check on an acquisition.\<close>

definition memory_acquire :: "fence \<Rightarrow> fence_store \<Rightarrow> (acquire_decision \<times> fence) res \<times> fence_store" where
  "memory_acquire r st =
     (let key = tf_target (tf_identity r);
          insert_record = (\<lambda>prior.
            (bind_res (first_failure (fence_receipt_checks prior r (tf_changed_at r)))
               (\<lambda>_. acquire_result (tf_identity r) FA_ACQUIRED r), st(key \<mapsto> r)))
      in case st key of
           None \<Rightarrow> insert_record None
         | Some existing \<Rightarrow>
             (case classify_target_fence existing (tf_identity r) of
                Inl e \<Rightarrow> (Inl e, st)
              | Inr d \<Rightarrow>
                  (if d = FA_DUPLICATE_SAME then (acquire_result (tf_identity r) d existing, st)
                   else if generation_follows existing r then insert_record (Some existing)
                   else (acquire_result (tf_identity r) FA_BLOCKED existing, st))))"

definition memory_fence_transition ::
  "string \<Rightarrow> int \<Rightarrow> fence \<Rightarrow> fence_store \<Rightarrow> unit res \<times> fence_store" where
  "memory_fence_transition digest expected r st =
     (let key = tf_target (tf_identity r) in
      case st key of
        None \<Rightarrow> (Inl (RuntimeError ''in-memory target fence predecessor changed''), st)
      | Some p \<Rightarrow>
          (if \<not> fence_cas_matches digest expected p
           then (Inl (RuntimeError ''in-memory target fence predecessor changed''), st)
           else (first_failure (fence_receipt_checks (Some p) r (tf_changed_at r)), st(key \<mapsto> r))))"

section \<open>Every lifecycle operation is a legal transition\<close>

definition valid_fence :: "(fence \<Rightarrow> string) \<Rightarrow> fence \<Rightarrow> bool" where
  "valid_fence fdg r = (fence_init fdg r = Inr r)"

lemma valid_fence_checks: "valid_fence fdg r \<longleftrightarrow> list_all (\<lambda>c. \<not> fst c) (fence_checks fdg r)"
proof -
  have "valid_fence fdg r \<longleftrightarrow> first_failure (fence_checks fdg r) = Inr ()"
    by (cases "first_failure (fence_checks fdg r)") (simp_all add: valid_fence_def fence_init_def)
  then show ?thesis by (simp add: first_failure_ok)
qed

lemma valid_fence_shape:
  assumes "valid_fence fdg r"
  shows "(tf_audit r = None) = (tf_bundle r = None)"
    and "tf_state r = TF_PREPARING \<Longrightarrow> tf_audit r = None \<and> tf_no_dispatch r = None \<and> tf_resolution r = None"
    and "tf_state r \<in> {TF_PREPARED, TF_IN_FLIGHT, TF_RELEASE_PENDING} \<Longrightarrow>
      tf_audit r \<noteq> None \<and> tf_no_dispatch r = None \<and> tf_resolution r = None"
    and "tf_state r = TF_QUARANTINED \<Longrightarrow> tf_audit r \<noteq> None \<and> tf_resolution r \<noteq> None"
    and "tf_state r = TF_RESOLVED \<Longrightarrow> tf_no_dispatch r \<noteq> None \<or> tf_resolution r \<noteq> None"
proof -
  have "list_all (\<lambda>c. \<not> fst c) (fence_shape r)"
    using assms by (simp add: valid_fence_checks fence_checks_def)
  then show "(tf_audit r = None) = (tf_bundle r = None)"
    "tf_state r = TF_PREPARING \<Longrightarrow> tf_audit r = None \<and> tf_no_dispatch r = None \<and> tf_resolution r = None"
    "tf_state r \<in> {TF_PREPARED, TF_IN_FLIGHT, TF_RELEASE_PENDING} \<Longrightarrow>
      tf_audit r \<noteq> None \<and> tf_no_dispatch r = None \<and> tf_resolution r = None"
    "tf_state r = TF_QUARANTINED \<Longrightarrow> tf_audit r \<noteq> None \<and> tf_resolution r \<noteq> None"
    "tf_state r = TF_RESOLVED \<Longrightarrow> tf_no_dispatch r \<noteq> None \<or> tf_resolution r \<noteq> None"
    by (cases "tf_state r"; auto simp: fence_shape_def Let_def split: if_splits)+
qed

lemma fence_time_Inr [simp]: "fence_time name v = Inr t \<longleftrightarrow> v = Some t" "fence_time name (Some t) = Inr t"
  by (auto simp: fence_time_def split: option.splits)

lemma build_fence_Inr:
  "build_fence fdg r = Inr r' \<Longrightarrow> valid_fence fdg r' \<and> (\<exists>d. r' = r\<lparr>tf_digest := d\<rparr>)"
  by (auto simp: build_fence_def Let_def fence_init_def bind_res_Inr valid_fence_def)

lemma next_fence_Inr:
  assumes "next_fence fdg r state changed audit bundle no_dispatch resolution clear = Inr r'"
  obtains t where "changed = Some t" "tf_changed_at r \<le> t" "valid_fence fdg r'"
    "tf_identity r' = tf_identity r" "tf_state r' = state" "tf_revision r' = tf_revision r + 1"
    "tf_prior r' = Some (tf_digest r)" "tf_changed_at r' = t"
    "tf_audit r' = (if clear then None else if audit \<noteq> None then audit else tf_audit r)"
    "tf_bundle r' = (if clear then None else if bundle \<noteq> None then bundle else tf_bundle r)"
    "tf_no_dispatch r' = no_dispatch" "tf_resolution r' = resolution"
proof -
  obtain t where t: "changed = Some t" "tf_changed_at r \<le> t"
    and b: "build_fence fdg
         ((blank_fence (tf_identity r) state (tf_revision r + 1) (Some (tf_digest r)) t)
           \<lparr>tf_audit := (if clear then None else if audit \<noteq> None then audit else tf_audit r),
            tf_bundle := (if clear then None else if bundle \<noteq> None then bundle else tf_bundle r),
            tf_no_dispatch := no_dispatch, tf_resolution := resolution\<rparr>) = Inr r'"
    using assms by (auto simp: next_fence_def bind_res_Inr split: if_splits)
  obtain d where "r' = (blank_fence (tf_identity r) state (tf_revision r + 1) (Some (tf_digest r)) t)
           \<lparr>tf_audit := (if clear then None else if audit \<noteq> None then audit else tf_audit r),
            tf_bundle := (if clear then None else if bundle \<noteq> None then bundle else tf_bundle r),
            tf_no_dispatch := no_dispatch, tf_resolution := resolution, tf_digest := d\<rparr>"
    using build_fence_Inr [OF b] by auto
  then show ?thesis using that t build_fence_Inr [OF b] by (simp add: blank_fence_def)
qed

text \<open>One step of the lifecycle, by any of its operations.\<close>

inductive fence_next :: "(fence \<Rightarrow> string) \<Rightarrow> fence \<Rightarrow> fence \<Rightarrow> bool" for fdg r where
  fn_prepare: "create_preparing fdg i changed (Some r) = Inr r' \<Longrightarrow> fence_next fdg r r'"
| fn_attach: "attach_prepared_evidence fdg r audit bundle changed = Inr r' \<Longrightarrow> fence_next fdg r r'"
| fn_in_flight: "mark_in_flight fdg r changed = Inr r' \<Longrightarrow> fence_next fdg r r'"
| fn_release: "mark_release_pending fdg r changed = Inr r' \<Longrightarrow> fence_next fdg r r'"
| fn_undispatched: "resolve_without_dispatch fdg r evidence changed = Inr r' \<Longrightarrow> fence_next fdg r r'"
| fn_close: "close_after_release fdg r quarantined evidence changed = Inr r' \<Longrightarrow> fence_next fdg r r'"

lemma create_preparing_Inr:
  assumes "create_preparing fdg i changed (Some p) = Inr r"
  shows "valid_fence fdg r" and "tf_state p = TF_RESOLVED" and "tf_state r = TF_PREPARING"
    and "tf_identity r = i" and "tf_revision r = tf_revision p + 1" and "tf_prior r = Some (tf_digest p)"
    and "tf_target i = tf_target (tf_identity p)" and "tf_generation i = tf_generation (tf_identity p) + 1"
    and "tf_changed_at p < tf_acquired_at i" and "tf_reservation i \<noteq> tf_reservation (tf_identity p)"
    and "tf_acquired_at i \<le> tf_changed_at r"
proof -
  obtain t where b: "build_fence fdg (blank_fence i TF_PREPARING (tf_revision p + 1) (Some (tf_digest p)) t) = Inr r"
    using assms by (auto simp: create_preparing_def bind_res_Inr)
  from build_fence_Inr [OF this] obtain d where
    v: "valid_fence fdg r" and r: "r = (blank_fence i TF_PREPARING (tf_revision p + 1) (Some (tf_digest p)) t)\<lparr>tf_digest := d\<rparr>"
    by blast
  have "tf_acquired_at (tf_identity r) \<le> tf_changed_at r"
    using v by (simp add: valid_fence_checks fence_checks_def)
  moreover have "tf_identity r = i" using r by (simp add: blank_fence_def)
  ultimately show "tf_acquired_at i \<le> tf_changed_at r" "valid_fence fdg r" using v by simp_all
  show "tf_state p = TF_RESOLVED" "tf_state r = TF_PREPARING" "tf_identity r = i" "tf_revision r = tf_revision p + 1"
    "tf_prior r = Some (tf_digest p)" "tf_target i = tf_target (tf_identity p)"
    "tf_generation i = tf_generation (tf_identity p) + 1"
    "tf_changed_at p < tf_acquired_at i" "tf_reservation i \<noteq> tf_reservation (tf_identity p)"
    using assms r by (auto simp: create_preparing_def bind_res_Inr blank_fence_def)
qed

definition fence_follows :: "fence \<Rightarrow> fence \<Rightarrow> bool" where
  "fence_follows p r = (validate_fence_transition p r = Inr ())"

lemma fence_next_legal:
  assumes "valid_fence fdg r" and "fence_next fdg r r'"
  shows "fence_follows r r' \<and> valid_fence fdg r' \<and> tf_target (tf_identity r') = tf_target (tf_identity r)"
  using assms(2)
proof cases
  case (fn_prepare i changed)
  from create_preparing_Inr [OF this] show ?thesis
    by (simp add: fence_follows_def validate_fence_transition_def fence_transition_checks_def)
next
  case (fn_attach audit safeguards changed)
  then obtain t where "tf_state r = TF_PREPARING"
    "next_fence fdg r TF_PREPARED (Some t) (Some (ap_digest audit)) (Some safeguards) None None False = Inr r'"
    by (auto simp: attach_prepared_evidence_def bind_res_Inr)
  then show ?thesis
    using valid_fence_shape(1,2) [OF assms(1)]
    by (auto elim!: next_fence_Inr simp: fence_follows_def validate_fence_transition_def
        fence_transition_checks_def transition_evidence_def)
next
  case (fn_in_flight changed)
  then have "tf_state r = TF_PREPARED"
    "next_fence fdg r TF_IN_FLIGHT changed None None None None False = Inr r'"
    by (auto simp: mark_in_flight_def bind_res_Inr)
  then show ?thesis
    by (auto elim!: next_fence_Inr simp: fence_follows_def validate_fence_transition_def
        fence_transition_checks_def transition_evidence_def)
next
  case (fn_release changed)
  then have "tf_state r = TF_IN_FLIGHT"
    "next_fence fdg r TF_RELEASE_PENDING changed None None None None False = Inr r'"
    by (auto simp: mark_release_pending_def bind_res_Inr)
  then show ?thesis
    by (auto elim!: next_fence_Inr simp: fence_follows_def validate_fence_transition_def
        fence_transition_checks_def transition_evidence_def)
next
  case (fn_undispatched evidence changed)
  then have "tf_state r \<in> {TF_PREPARING, TF_PREPARED, TF_IN_FLIGHT}"
    "next_fence fdg r TF_RESOLVED changed None None (Some evidence) None True = Inr r'"
    by (auto simp: resolve_without_dispatch_def bind_res_Inr)
  then show ?thesis
    by (auto elim!: next_fence_Inr simp: fence_follows_def validate_fence_transition_def
        fence_transition_checks_def transition_evidence_def)
next
  case (fn_close quarantined evidence changed)
  then have "tf_state r \<in> {TF_RELEASE_PENDING, TF_QUARANTINED}" "tf_state r = TF_QUARANTINED \<Longrightarrow> \<not> quarantined"
    "tf_state r = TF_QUARANTINED \<Longrightarrow> tf_resolution r \<noteq> Some evidence"
    "next_fence fdg r (if quarantined then TF_QUARANTINED else TF_RESOLVED) changed
         None None None (Some evidence) False = Inr r'"
    by (auto simp: close_after_release_def bind_res_Inr)
  then show ?thesis
    by (cases quarantined) (auto elim!: next_fence_Inr simp: fence_follows_def validate_fence_transition_def
        fence_transition_checks_def transition_evidence_def)
qed

text \<open>
  Every record an operation of the fence lifecycle returns is valid, keeps the target, and
  is a transition that the stores accept: one revision later, chained to its predecessor by
  digest.
\<close>

theorem fence_step_is_legal:
  assumes "fence_init fdg r = Inr r" and "fence_next fdg r r'"
  shows "validate_fence_transition r r' = Inr () \<and> fence_init fdg r' = Inr r' \<and>
    tf_target (tf_identity r') = tf_target (tf_identity r) \<and>
    tf_revision r' = tf_revision r + 1 \<and> tf_prior r' = Some (tf_digest r)"
proof -
  have "fence_follows r r' \<and> valid_fence fdg r' \<and> tf_target (tf_identity r') = tf_target (tf_identity r)"
    using fence_next_legal [of fdg r r'] assms by (simp add: valid_fence_def)
  then show ?thesis
    by (auto simp: fence_follows_def valid_fence_def validate_fence_transition_def
        fence_transition_checks_def split: if_splits)
qed

section \<open>Histories of the durable store\<close>

text \<open>Callers hand over valid records, since no other can be constructed.\<close>

inductive fence_write :: "(fence \<Rightarrow> string) \<Rightarrow> fence_store \<Rightarrow> fence_store \<Rightarrow> bool" for fdg where
  fw_acquire: "valid_fence fdg r \<Longrightarrow> pg_acquire raced recorded r st = (answer, st') \<Longrightarrow> fence_write fdg st st'"
| fw_transition: "valid_fence fdg r \<Longrightarrow> pg_fence_transition digest expected recorded r st = (answer, st') \<Longrightarrow>
    fence_write fdg st st'"

abbreviation fence_start :: "fence_store \<times> (string, fence) history \<Rightarrow> bool" where
  "fence_start \<equiv> history_start"

abbreviation fence_step where
  "fence_step fdg \<equiv> history_step (fence_write fdg)"

definition fence_initial :: "fence \<Rightarrow> bool" where
  "fence_initial r = (tf_state r = TF_PREPARING \<and> tf_revision r = 1 \<and> tf_generation (tf_identity r) = 1)"

lemma fence_follows_cases:
  "fence_follows p r \<Longrightarrow> tf_revision r = tf_revision p + 1 \<and> tf_prior r = Some (tf_digest p) \<and>
     tf_changed_at p \<le> tf_changed_at r \<and> tf_target (tf_identity r) = tf_target (tf_identity p) \<and>
     (if tf_state p = TF_RESOLVED
      then tf_state r = TF_PREPARING \<and> tf_generation (tf_identity r) = tf_generation (tf_identity p) + 1 \<and>
        tf_changed_at p < tf_acquired_at (tf_identity r) \<and>
        tf_reservation (tf_identity r) \<noteq> tf_reservation (tf_identity p)
      else tf_identity r = tf_identity p \<and> tf_state r \<in> fence_edges (tf_state p))"
  by (auto simp: fence_follows_def validate_fence_transition_def fence_transition_checks_def split: if_splits)

lemma fence_receipt_Inr:
  "first_failure (fence_receipt_checks (Some p) r recorded) = Inr () \<longleftrightarrow>
     fence_follows p r \<and> tf_changed_at r \<le> recorded"
  "first_failure (fence_receipt_checks None r recorded) = Inr () \<longleftrightarrow>
     fence_initial r \<and> tf_prior r = None \<and> tf_changed_at r \<le> recorded"
  using fence_follows_cases [of p r]
  by (auto simp: fence_receipt_checks_def fence_follows_def validate_fence_transition_def fence_initial_def)

lemma pg_acquire_cases:
  assumes "pg_acquire raced recorded r st = (answer, st')"
  shows "st' = st \<or> (st' = st(tf_target (tf_identity r) \<mapsto> r) \<and>
    (case st (tf_target (tf_identity r)) of None \<Rightarrow> fence_initial r | Some p \<Rightarrow> fence_follows p r))"
  using assms
  by (auto simp: pg_acquire_def Let_def bind_res_Inr fence_receipt_Inr
      split: if_splits option.splits sum.splits)

lemma pg_fence_transition_cases:
  assumes "pg_fence_transition digest expected recorded r st = (answer, st')"
  shows "st' = st \<or> (st' = st(tf_target (tf_identity r) \<mapsto> r) \<and>
    (\<exists>p. st (tf_target (tf_identity r)) = Some p \<and> fence_follows p r))"
  using assms
  by (auto simp: pg_fence_transition_def Let_def fence_receipt_Inr split: if_splits option.splits sum.splits)

interpretation fences: record_store "\<lambda>r. tf_target (tf_identity r)" "valid_fence fdg"
  fence_initial fence_follows "fence_write fdg" for fdg
proof unfold_locales
  fix st st' assume "fence_write fdg st st'"
  then show "st' = st \<or> (\<exists>r. valid_fence fdg r \<and> st' = st(tf_target (tf_identity r) \<mapsto> r) \<and>
      (case st (tf_target (tf_identity r)) of None \<Rightarrow> fence_initial r | Some p \<Rightarrow> fence_follows p r))"
  proof cases
    case (fw_acquire r raced recorded answer)
    with pg_acquire_cases [OF fw_acquire(2)] show ?thesis by blast
  next
    case (fw_transition r digest expected recorded answer)
    with pg_fence_transition_cases [OF fw_transition(2)] show ?thesis by (auto split: option.splits)
  qed
next
  show "\<not> fence_follows r r" for r using fence_follows_cases [of r r] by auto
qed

section \<open>Mutations of one target never overlap\<close>

lemma fence_times_grow:
  assumes "\<And>m. Suc m < length rs \<Longrightarrow> fence_follows (rs ! m) (rs ! Suc m)" and "k \<le> m" and "m < length rs"
  shows "tf_changed_at (rs ! k) \<le> tf_changed_at (rs ! m)"
  using assms(2,3)
proof (induction m rule: dec_induct)
  case (step m)
  then show ?case using fence_follows_cases [OF assms(1) [of m]] by force
qed simp

text \<open>After a resolution every record belongs to a generation acquired later.\<close>

lemma after_resolution:
  assumes "\<And>m. Suc m < length rs \<Longrightarrow> fence_follows (rs ! m) (rs ! Suc m)"
    and "tf_state (rs ! k) = TF_RESOLVED" and "k < m" and "m < length rs"
  shows "tf_changed_at (rs ! k) < tf_acquired_at (tf_identity (rs ! m)) \<and>
    tf_generation (tf_identity (rs ! k)) < tf_generation (tf_identity (rs ! m))"
proof -
  have "Suc k \<le> m" using assms(3) by simp
  then show ?thesis using assms(4)
  proof (induction m rule: dec_induct)
    case base
    then show ?case using fence_follows_cases [OF assms(1) [of k]] assms(2) by simp
  next
    case (step m)
    have "tf_changed_at (rs ! k) \<le> tf_changed_at (rs ! m)"
      by (rule fence_times_grow [OF assms(1)]) (use step in auto)
    then show ?case using fence_follows_cases [OF assms(1) [of m]] step by (auto split: if_splits)
  qed
qed

lemma in_flight_window:
  assumes "\<And>m. Suc m < length rs \<Longrightarrow> fence_follows (rs ! m) (rs ! Suc m)"
    and "tf_state (rs ! i) = TF_IN_FLIGHT" and "i \<le> m" and "m < length rs"
    and "\<And>k. i < k \<Longrightarrow> k \<le> m \<Longrightarrow> tf_state (rs ! k) \<noteq> TF_RESOLVED"
  shows "tf_identity (rs ! m) = tf_identity (rs ! i) \<and>
    (m = i \<or> tf_state (rs ! m) \<in> {TF_RELEASE_PENDING, TF_QUARANTINED})"
  using assms(3-5)
proof (induction m rule: dec_induct)
  case (step m)
  then have ih: "tf_identity (rs ! m) = tf_identity (rs ! i) \<and>
    (m = i \<or> tf_state (rs ! m) \<in> {TF_RELEASE_PENDING, TF_QUARANTINED})" by simp
  moreover have "tf_state (rs ! Suc m) \<noteq> TF_RESOLVED" using step.prems(2) [of "Suc m"] step.hyps by simp
  ultimately show ?case
    using fence_follows_cases [OF assms(1) [OF step.prems(1)]] assms(2) by (auto split: if_splits)
qed simp

text \<open>
  C24: In every history of the durable store, two dispatches to one target belong to
  different generations, and between them the first generation was resolved, on evidence
  that it was not dispatched or on closure evidence, before the lock of the second was
  acquired.
\<close>

theorem target_mutations_never_overlap:
  assumes "reachable fence_start (fence_step fdg) (st, h)"
    and "i < j" and "j < length (h target)"
    and "tf_state (h target ! i) = TF_IN_FLIGHT" and "tf_state (h target ! j) = TF_IN_FLIGHT"
  shows "\<exists>k. i < k \<and> k < j \<and> tf_state (h target ! k) = TF_RESOLVED \<and>
    tf_identity (h target ! k) = tf_identity (h target ! i) \<and>
    (tf_no_dispatch (h target ! k) \<noteq> None \<or> tf_resolution (h target ! k) \<noteq> None) \<and>
    tf_changed_at (h target ! k) < tf_acquired_at (tf_identity (h target ! j)) \<and>
    tf_generation (tf_identity (h target ! k)) < tf_generation (tf_identity (h target ! j))"
proof -
  let ?rs = "h target"
  note f = fences.history_follows [OF assms(1), of _ target]
  define k where "k = (LEAST m. i < m \<and> tf_state (?rs ! m) = TF_RESOLVED)"
  have ex: "\<exists>m. i < m \<and> m \<le> j \<and> tf_state (?rs ! m) = TF_RESOLVED"
    using in_flight_window [of ?rs i j, OF f assms(4)] assms(2,3,5) by fastforce
  then have k: "i < k \<and> tf_state (?rs ! k) = TF_RESOLVED" "k \<le> j"
    unfolding k_def by (auto intro: LeastI2_ex Least_le order_trans)
  have none: "tf_state (?rs ! m) \<noteq> TF_RESOLVED" if "i < m" "m < k" for m
    using not_less_Least [of m "\<lambda>m. i < m \<and> tf_state (?rs ! m) = TF_RESOLVED"] that by (auto simp: k_def)
  have kj: "k < j" using k assms(5) by (cases "k = j") auto
  obtain m where m: "k = Suc m" "i \<le> m" using k(1) by (cases k) auto
  have "tf_identity (?rs ! m) = tf_identity (?rs ! i) \<and>
    (m = i \<or> tf_state (?rs ! m) \<in> {TF_RELEASE_PENDING, TF_QUARANTINED})"
    by (rule in_flight_window [of ?rs i m, OF f assms(4)]) (use m kj assms(3) none in auto)
  moreover have "Suc m < length ?rs" using m kj assms(3) by simp
  ultimately have "tf_identity (?rs ! k) = tf_identity (?rs ! i)"
    using fence_follows_cases [OF f [of m]] assms(4) m(1) by (auto split: if_splits)
  moreover have "valid_fence fdg (?rs ! k)"
    using fences.history_valid [OF assms(1), of "?rs ! k" target] kj assms(3) by simp
  ultimately show ?thesis
    using k kj valid_fence_shape(5) [of fdg "?rs ! k"] after_resolution [of ?rs k j, OF f] assms(3) by blast
qed

section \<open>Acquisition and closure\<close>

text \<open>
  On a reachable store, a new generation is acquired exactly by a preparing record that is
  not the current generation itself and is the first of a free target or a legal successor
  of a resolved one, written no earlier than its own time; then the record is stored, and
  otherwise the store stays as it is.
\<close>

theorem generation_acquired_iff:
  assumes "reachable fence_start (fence_step fdg) (st, h)"
  shows "(fst (pg_acquire raced recorded r st) = Inr (FA_ACQUIRED, r) \<longleftrightarrow>
      tf_state r = TF_PREPARING \<and> tf_changed_at r \<le> recorded \<and>
      (case st (tf_target (tf_identity r)) of
         None \<Rightarrow> tf_revision r = 1 \<and> tf_prior r = None \<and> tf_generation (tf_identity r) = 1
       | Some p \<Rightarrow> \<not> raced \<and> tf_state p = TF_RESOLVED \<and> validate_fence_transition p r = Inr () \<and>
           tf_identity_digest (tf_identity p) \<noteq> tf_identity_digest (tf_identity r))) \<and>
    snd (pg_acquire raced recorded r st) =
      (if fst (pg_acquire raced recorded r st) = Inr (FA_ACQUIRED, r)
       then st(tf_target (tf_identity r) \<mapsto> r) else st)"
proof (cases "st (tf_target (tf_identity r))")
  case None
  show ?thesis
  proof (cases "first_failure (fence_receipt_checks None r recorded)")
    case (Inl e)
    then have "\<not> (fence_initial r \<and> tf_prior r = None \<and> tf_changed_at r \<le> recorded)"
      by (simp flip: fence_receipt_Inr(2))
    with Inl None show ?thesis by (auto simp: pg_acquire_def Let_def fence_initial_def)
  next
    case (Inr u)
    then have "fence_initial r \<and> tf_prior r = None \<and> tf_changed_at r \<le> recorded"
      by (simp flip: fence_receipt_Inr(2))
    with Inr None show ?thesis by (auto simp: pg_acquire_def Let_def acquire_result_def fence_initial_def)
  qed
next
  case (Some p)
  have "tf_target (tf_identity p) = tf_target (tf_identity r)"
    using fences.history_valid [OF assms fences.current_in_history [OF assms Some]] by simp
  then have c: "classify_target_fence p (tf_identity r) =
      Inr (if tf_identity_digest (tf_identity p) = tf_identity_digest (tf_identity r) then FA_DUPLICATE_SAME else FA_BLOCKED)"
    by (simp add: classify_target_fence_def)
  have g: "fence_follows p r \<Longrightarrow> tf_state p = TF_RESOLVED \<Longrightarrow> generation_follows p r"
    using fence_follows_cases [of p r] by (simp add: generation_follows_def)
  have v: "fence_follows p r = (validate_fence_transition p r = Inr ())" by (simp add: fence_follows_def)
  show ?thesis
  proof (cases "first_failure (fence_receipt_checks (Some p) r recorded)")
    case (Inl e)
    then have "\<not> (fence_follows p r \<and> tf_changed_at r \<le> recorded)" by (simp flip: fence_receipt_Inr(1))
    with Inl Some c show ?thesis by (auto simp: pg_acquire_def Let_def acquire_result_def v)
  next
    case (Inr u)
    then have "fence_follows p r \<and> tf_changed_at r \<le> recorded" by (simp flip: fence_receipt_Inr(1))
    with Inr Some c g show ?thesis
      by (auto simp: pg_acquire_def Let_def acquire_result_def v generation_follows_def)
  qed
qed

text \<open>A lifecycle step without new prerequisites succeeds when its evidence is well-formed and fits.\<close>

lemma optional_fence_digest_simps [simp]:
  "\<not> fst (optional_fence_digest name None)"
  "\<not> fst (optional_fence_digest name (Some d)) \<longleftrightarrow> sha256_ref d"
  "\<not> fst (fence_digest_check name d) \<longleftrightarrow> sha256_ref d"
  by (simp_all add: optional_fence_digest_def fence_digest_check_def)

lemma optional_fence_digest_name:
  "\<not> fst (optional_fence_digest name v) \<longleftrightarrow> (case v of None \<Rightarrow> True | Some d \<Rightarrow> sha256_ref d)"
  by (cases v) simp_all

lemma next_fence_total:
  assumes "valid_fence fdg f" and "tf_changed_at f \<le> t" and "\<And>r. sha256_ref (fdg r)"
    and "\<And>d. no_dispatch = Some d \<Longrightarrow> sha256_ref d" and "\<And>d. resolution = Some d \<Longrightarrow> sha256_ref d"
    and "state = TF_RESOLVED"
    and "if clear then no_dispatch \<noteq> None else no_dispatch = None \<and> resolution \<noteq> None \<and> tf_audit f \<noteq> None"
  shows "\<exists>r. next_fence fdg f state (Some t) None None no_dispatch resolution clear = Inr r"
proof -
  let ?n = "(blank_fence (tf_identity f) state (tf_revision f + 1) (Some (tf_digest f)) t)
           \<lparr>tf_audit := (if clear then None else tf_audit f), tf_bundle := (if clear then None else tf_bundle f),
            tf_no_dispatch := no_dispatch, tf_resolution := resolution\<rparr>"
  let ?r = "?n\<lparr>tf_digest := fdg ?n\<rparr>"
  have f: "1 \<le> tf_revision f" "sha256_ref (tf_digest f)" "tf_acquired_at (tf_identity f) \<le> tf_changed_at f"
    "\<not> fst (optional_fence_digest x (tf_audit f))" "\<not> fst (optional_fence_digest x (tf_bundle f))" for x
    using assms(1) unfolding valid_fence_checks fence_checks_def
    by (auto simp: optional_fence_digest_name)
  have e: "\<not> fst (optional_fence_digest x no_dispatch)" "\<not> fst (optional_fence_digest x resolution)" for x
    using assms(4,5) by (auto simp: optional_fence_digest_name split: option.splits)
  have "list_all (\<lambda>c. \<not> fst c) (fence_checks fdg ?r)"
    using f e assms(2,3,6,7) valid_fence_shape(1) [OF assms(1)]
    by (auto simp: fence_checks_def fence_shape_def blank_fence_def Let_def)
  then have "build_fence fdg ?n = Inr ?r"
    by (simp add: build_fence_def fence_init_def Let_def blank_fence_def bind_res_Inr first_failure_ok)
  then show ?thesis using assms(2) by (auto simp: next_fence_def)
qed

text \<open>
  C25: No target is fenced for ever: from every reachable unresolved record, at any later
  time, one lifecycle operation on fresh evidence resolves the same generation, and the
  store accepts it.
\<close>

theorem unresolved_fence_can_be_closed:
  assumes "reachable fence_start (fence_step fdg) (st, h)" and "st target = Some f"
    and "tf_state f \<noteq> TF_RESOLVED" and "tf_changed_at f \<le> t"
    and "sha256_ref e" and "tf_resolution f \<noteq> Some e" and "\<And>r. sha256_ref (fdg r)"
  shows "\<exists>r. (resolve_without_dispatch fdg f e (Some t) = Inr r \<or>
      close_after_release fdg f False e (Some t) = Inr r) \<and>
    tf_state r = TF_RESOLVED \<and> tf_identity r = tf_identity f \<and>
    pg_fence_transition (tf_digest f) (tf_revision f) t r st = (Inr (), st(target \<mapsto> r))"
proof -
  have v: "valid_fence fdg f" and key: "tf_target (tf_identity f) = target"
    using fences.history_valid [OF assms(1) fences.current_in_history [OF assms(1,2)]] by simp_all
  have "\<exists>r. resolve_without_dispatch fdg f e (Some t) = Inr r \<or>
      close_after_release fdg f False e (Some t) = Inr r"
  proof (cases "tf_state f \<in> {TF_PREPARING, TF_PREPARED, TF_IN_FLIGHT}")
    case True
    then show ?thesis
      using next_fence_total [OF v assms(4,7), of "Some e" None TF_RESOLVED True] assms(5)
      by (auto simp: resolve_without_dispatch_def first_failure.simps fence_digest_check_def)
  next
    case False
    then have s: "tf_state f \<in> {TF_RELEASE_PENDING, TF_QUARANTINED}" using assms(3) by (cases "tf_state f") auto
    then have "tf_audit f \<noteq> None" using valid_fence_shape(3,4) [OF v] by auto
    then show ?thesis
      using next_fence_total [OF v assms(4,7), of None "Some e" TF_RESOLVED False] assms(5,6) s
      by (auto simp: close_after_release_def first_failure.simps fence_digest_check_def)
  qed
  then obtain r where r: "resolve_without_dispatch fdg f e (Some t) = Inr r \<or>
      close_after_release fdg f False e (Some t) = Inr r" by blast
  then have n: "tf_state r = TF_RESOLVED \<and> tf_identity r = tf_identity f \<and> tf_changed_at r = t"
    by (auto simp: resolve_without_dispatch_def close_after_release_def bind_res_Inr elim!: next_fence_Inr)
  have "fence_next fdg f r" using r fn_undispatched fn_close by blast
  then have "fence_follows f r" using fence_next_legal [OF v] by blast
  then have "first_failure (fence_receipt_checks (Some f) r t) = Inr ()"
    using n by (simp add: fence_receipt_Inr)
  then have "pg_fence_transition (tf_digest f) (tf_revision f) t r st = (Inr (), st(target \<mapsto> r))"
    using n key assms(2) by (simp add: pg_fence_transition_def Let_def fence_cas_matches_def)
  with r n show ?thesis by blast
qed

section \<open>A concrete history\<close>

lemma fence_list_reachable:
  assumes "list_all (\<lambda>r. valid_fence fdg r \<and> tf_target (tf_identity r) = key) rs" and "rs \<noteq> []"
    and "fence_initial (hd rs)" and "tf_prior (hd rs) = None" and "successively fence_follows rs"
  shows "reachable fence_start (fence_step fdg) (Map.empty(key \<mapsto> last rs), (\<lambda>_. [])(key := rs))"
  using assms
proof (induction rs rule: rev_induct)
  case (snoc r rs)
  show ?case
  proof (cases "rs = []")
    case True
    with snoc.prems have v: "valid_fence fdg r" "tf_target (tf_identity r) = key"
      and "fence_initial r" "tf_prior r = None" by simp_all
    then have "pg_acquire False (tf_changed_at r) r Map.empty = (Inr (FA_ACQUIRED, r), Map.empty(key \<mapsto> r))"
      using fence_receipt_Inr(2) [of r "tf_changed_at r"]
      by (simp add: pg_acquire_def Let_def acquire_result_def fence_initial_def)
    then have "fence_write fdg Map.empty (Map.empty(key \<mapsto> r))" by (rule fw_acquire [OF v(1)])
    from hs_write [where writes = "fence_write fdg", OF this, of "\<lambda>_. []"]
    have "fence_step fdg (Map.empty, (\<lambda>_. [])) (Map.empty(key \<mapsto> r), (\<lambda>_. [])(key := [r]))"
      by (simp add: record_changes_put)
    moreover have "reachable fence_start (fence_step fdg) (Map.empty, (\<lambda>_. []))"
      by (rule reachable_start) (simp add: history_start_def)
    ultimately have "reachable fence_start (fence_step fdg) (Map.empty(key \<mapsto> r), (\<lambda>_. [])(key := [r]))"
      by (rule reachable_step [rotated])
    then show ?thesis by (simp only: True append_Nil last_ConsL)
  next
    case False
    let ?st = "Map.empty(key \<mapsto> last rs)" and ?h = "(\<lambda>_. [])(key := rs)"
    have v: "valid_fence fdg r" "tf_target (tf_identity r) = key" "fence_follows (last rs) r"
      using snoc.prems False by (simp_all add: successively_append_iff)
    have ih: "reachable fence_start (fence_step fdg) (?st, ?h)"
      by (rule snoc.IH) (use snoc.prems False in \<open>simp_all add: successively_append_iff\<close>)
    have "pg_fence_transition (tf_digest (last rs)) (tf_revision (last rs)) (tf_changed_at r) r ?st =
        (Inr (), ?st(key \<mapsto> r))"
      using v(2) fence_receipt_Inr(1) [of "last rs" r "tf_changed_at r"] v(3)
      by (simp add: pg_fence_transition_def Let_def fence_cas_matches_def)
    then have "fence_write fdg ?st (?st(key \<mapsto> r))" by (rule fw_transition [OF v(1)])
    from hs_write [where writes = "fence_write fdg", OF this, of ?h]
    have "reachable fence_start (fence_step fdg) (?st(key \<mapsto> r), record_changes ?st (?st(key \<mapsto> r)) ?h)"
      by (rule reachable_step [OF ih])
    moreover have "record_changes ?st (?st(key \<mapsto> r)) ?h = ?h(key := ?h key @ [r])"
      using v(3) fences.follows_irrefl [of r] by (intro record_changes_put) auto
    ultimately show ?thesis by (simp only: fun_upd_same fun_upd_upd last_snoc)
  qed
qed simp

definition other_digest :: string where
  "other_digest = ''sha256:'' @ replicate 64 (CHR ''c'')"

lemma other_ok: "sha256_ref other_digest" "other_digest \<noteq> filler_digest" "filler_digest \<noteq> other_digest"
  by code_simp+

abbreviation fence_dg :: "fence \<Rightarrow> string" where
  "fence_dg \<equiv> \<lambda>_. filler_digest"

text \<open>The second generation belongs to another reservation, on a lock acquired at 40.\<close>

definition run_fence_identity :: "bool \<Rightarrow> fence_identity" where
  "run_fence_identity second = \<lparr>tf_target = filler_digest,
     tf_reservation = (if second then other_digest else filler_digest), tf_attempt = 1,
     tf_acquisition = filler_digest, tf_acquired_at = (if second then 40 else 0), tf_policy = filler_digest,
     tf_generation = (if second then 2 else 1), tf_correlation_id = ''c1'', tf_sink_key = ''k1'',
     tf_identity_digest = (if second then other_digest else filler_digest)\<rparr>"

definition run_fence :: "bool \<Rightarrow> fence_state \<Rightarrow> int \<Rightarrow> int \<Rightarrow> bool \<Rightarrow> bool \<Rightarrow> fence" where
  "run_fence second state revision t ready shut = \<lparr>tf_identity = run_fence_identity second,
     tf_state = state, tf_revision = revision, tf_prior = (if revision = 1 then None else Some filler_digest),
     tf_audit = (if ready then Some filler_digest else None),
     tf_bundle = (if ready then Some filler_digest else None), tf_changed_at = t, tf_no_dispatch = None,
     tf_resolution = (if shut then Some filler_digest else None), tf_digest = filler_digest\<rparr>"

definition fence_run :: "fence list" where
  "fence_run =
     [run_fence False TF_PREPARING 1 12 False False, run_fence False TF_PREPARED 2 15 True False,
      run_fence False TF_IN_FLIGHT 3 16 True False, run_fence False TF_RELEASE_PENDING 4 17 True False,
      run_fence False TF_RESOLVED 5 18 True True, run_fence True TF_PREPARING 6 45 False False,
      run_fence True TF_PREPARED 7 46 True False, run_fence True TF_IN_FLIGHT 8 47 True False]"

lemma run_fence_sel:
  "tf_identity (run_fence s x n t a c) = run_fence_identity s" "tf_state (run_fence s x n t a c) = x"
  "tf_revision (run_fence s x n t a c) = n" "tf_changed_at (run_fence s x n t a c) = t"
  "tf_prior (run_fence s x n t a c) = (if n = 1 then None else Some filler_digest)"
  "tf_audit (run_fence s x n t a c) = (if a then Some filler_digest else None)"
  "tf_bundle (run_fence s x n t a c) = (if a then Some filler_digest else None)"
  "tf_no_dispatch (run_fence s x n t a c) = None"
  "tf_resolution (run_fence s x n t a c) = (if c then Some filler_digest else None)"
  "tf_digest (run_fence s x n t a c) = filler_digest"
  "tf_target (run_fence_identity s) = filler_digest"
  "tf_acquired_at (run_fence_identity s) = (if s then 40 else 0)"
  "tf_generation (run_fence_identity s) = (if s then 2 else 1)"
  "tf_reservation (run_fence_identity s) = (if s then other_digest else filler_digest)"
  "tf_identity_digest (run_fence_identity s) = (if s then other_digest else filler_digest)"
  by (simp_all add: run_fence_def run_fence_identity_def)

lemma run_fence_valid:
  "1 \<le> n \<Longrightarrow> (if s then 40 else 0) \<le> t \<Longrightarrow> list_all (\<lambda>c. \<not> fst c) (fence_shape (run_fence s x n t a c)) \<Longrightarrow>
     valid_fence fence_dg (run_fence s x n t a c)"
  unfolding valid_fence_checks fence_checks_def by (auto simp: run_fence_sel filler_ok)

lemma fence_run_valid:
  "list_all (\<lambda>r. valid_fence fence_dg r \<and> tf_target (tf_identity r) = filler_digest) fence_run"
  by (simp add: fence_run_def run_fence_sel run_fence_valid fence_shape_def Let_def)

lemma fence_run_follows: "successively fence_follows fence_run"
  by (simp add: fence_run_def fence_follows_def validate_fence_transition_def fence_transition_checks_def
      transition_evidence_def run_fence_sel other_ok)

lemma fence_run_reachable:
  assumes "0 < n"
  shows "reachable fence_start (fence_step fence_dg)
    (Map.empty(filler_digest \<mapsto> last (take n fence_run)), (\<lambda>_. [])(filler_digest := take n fence_run))"
proof (rule fence_list_reachable)
  have "hd (take n fence_run) = run_fence False TF_PREPARING 1 12 False False"
    using assms by (cases n) (simp_all add: fence_run_def)
  then show "fence_initial (hd (take n fence_run))" "tf_prior (hd (take n fence_run)) = None"
    by (simp_all add: fence_initial_def run_fence_sel)
  show "list_all (\<lambda>r. valid_fence fence_dg r \<and> tf_target (tf_identity r) = filler_digest) (take n fence_run)"
    using fence_run_valid by (auto simp: list_all_iff dest: in_set_takeD)
  show "successively fence_follows (take n fence_run)"
    using fence_run_follows by (auto simp: successively_conv_nth)
  show "take n fence_run \<noteq> []" using assms by (simp add: fence_run_def)
qed

lemma run_attach:
  "attach_prepared_evidence fence_dg (run_fence False TF_PREPARING 1 12 False False) (run_append 14)
     filler_digest (Some 15) = Inr (run_fence False TF_PREPARED 2 15 True False)"
proof -
  let ?r = "run_fence False TF_PREPARED 2 15 True False"
  have "valid_fence fence_dg ?r" by (simp add: run_fence_valid fence_shape_def run_fence_sel)
  then have "build_fence fence_dg (?r\<lparr>tf_digest := x\<rparr>) = Inr ?r" for x
    by (simp add: build_fence_def valid_fence_def Let_def) (simp add: run_fence_def)
  from this [of "[]"] have "next_fence fence_dg (run_fence False TF_PREPARING 1 12 False False) TF_PREPARED (Some 15)
      (Some filler_digest) (Some filler_digest) None None False = Inr ?r"
    by (simp add: next_fence_def run_fence_def blank_fence_def)
  moreover have "identity_digest (rs_identity (rt_record (ai_reservation (ap_intent (run_append 14))))) = filler_digest"
    by (simp add: run_append_def run_intent_def run_receipt_def run_1_sel)
  moreover have "ap_digest (run_append 14) = filler_digest" "ap_read_back_at (run_append 14) = 14"
    by (simp_all add: run_append_def)
  ultimately show ?thesis
    by (simp add: attach_prepared_evidence_def run_fence_sel fence_digest_check_def filler_ok
        first_failure.simps)
qed

theorem fence_step_is_legal_witness:
  "validate_fence_transition (run_fence False TF_PREPARING 1 12 False False)
     (run_fence False TF_PREPARED 2 15 True False) = Inr ()"
  by (rule conjunct1 [OF fence_step_is_legal [OF _ fn_attach [OF run_attach]]])
    (simp add: run_fence_valid [unfolded valid_fence_def] fence_shape_def run_fence_sel)

theorem target_mutations_never_overlap_witness:
  "tf_state (fence_run ! 2) = TF_IN_FLIGHT \<and> tf_state (fence_run ! 7) = TF_IN_FLIGHT \<and>
   (\<exists>k. 2 < k \<and> k < (7::nat) \<and> tf_state (fence_run ! k) = TF_RESOLVED \<and>
     tf_changed_at (fence_run ! k) < tf_acquired_at (tf_identity (fence_run ! 7)))"
proof -
  have s: "tf_state (fence_run ! 2) = TF_IN_FLIGHT" "tf_state (fence_run ! 7) = TF_IN_FLIGHT" "length fence_run = 8"
    by (simp_all add: fence_run_def run_fence_sel)
  from target_mutations_never_overlap [OF fence_run_reachable [of 8], of 2 7 filler_digest] s
  show ?thesis by auto
qed

theorem generation_acquired_iff_witness:
  "fst (pg_acquire False 50 (fence_run ! 5) (Map.empty(filler_digest \<mapsto> fence_run ! 4))) =
     Inr (FA_ACQUIRED, fence_run ! 5) \<and>
   snd (pg_acquire False 50 (fence_run ! 5) (Map.empty(filler_digest \<mapsto> fence_run ! 2))) =
     Map.empty(filler_digest \<mapsto> fence_run ! 2)"
proof -
  have l: "last (take 5 fence_run) = fence_run ! 4" "last (take 3 fence_run) = fence_run ! 2"
    by (simp_all add: fence_run_def)
  have r: "fence_run ! 5 = run_fence True TF_PREPARING 6 45 False False"
    "fence_run ! 4 = run_fence False TF_RESOLVED 5 18 True True"
    "fence_run ! 2 = run_fence False TF_IN_FLIGHT 3 16 True False"
    by (simp_all add: fence_run_def)
  have "validate_fence_transition (fence_run ! 4) (fence_run ! 5) = Inr ()"
    by (simp add: r validate_fence_transition_def fence_transition_checks_def run_fence_sel other_ok)
  with generation_acquired_iff [OF fence_run_reachable [of 5], of False 50 "fence_run ! 5"]
    generation_acquired_iff [OF fence_run_reachable [of 3], of False 50 "fence_run ! 5"]
  show ?thesis unfolding l by (simp add: r run_fence_sel other_ok)
qed

theorem unresolved_fence_can_be_closed_witness:
  "\<exists>r. tf_state r = TF_RESOLVED \<and>
    pg_fence_transition filler_digest 3 99 r (Map.empty(filler_digest \<mapsto> fence_run ! 2)) =
      (Inr (), Map.empty(filler_digest \<mapsto> r))"
proof -
  have r: "fence_run ! 2 = run_fence False TF_IN_FLIGHT 3 16 True False" "last (take 3 fence_run) = fence_run ! 2"
    by (simp_all add: fence_run_def)
  from unresolved_fence_can_be_closed [OF fence_run_reachable [of 3, unfolded r(2)], of filler_digest
      "fence_run ! 2" 99 other_digest]
  show ?thesis by (auto simp: r(1) run_fence_sel filler_ok other_ok)
qed

text \<open>
  The in-memory store checks neither the state of an acquisition nor its receipt before it writes: a
  record that is not preparing is refused and kept.
\<close>

lemma memory_fence_keeps_refused_record:
  "memory_acquire (fence_run ! 2) Map.empty =
     (Inl (ValueError ''initial target dispatch fence transition is invalid''),
      Map.empty(filler_digest \<mapsto> fence_run ! 2))"
  by (simp add: memory_acquire_def Let_def fence_run_def run_fence_sel fence_receipt_checks_def first_failure.simps)

end
