(* ===== verification/FenceCodec.thy ===== *)
theory FenceCodec
  imports TargetFence
begin

text \<open>
  The JSON document of a dispatch fence record (\<open>core/executor/target_dispatch_fence_codec.py\<close>): the
  writer, and the reader with every check. \<open>isofmt\<close> and \<open>from_iso\<close> stand for
  \<open>datetime.isoformat\<close> and \<open>datetime.fromisoformat\<close>: \<open>None\<close> is its \<open>ValueError\<close>,
  \<open>Some None\<close> a naive time, \<open>Some (Some t)\<close> the instant of an aware one.
\<close>

section \<open>Writer\<close>

fun fence_state_value :: "fence_state \<Rightarrow> string" where
  "fence_state_value TF_PREPARING = ''preparing''"
| "fence_state_value TF_PREPARED = ''prepared''"
| "fence_state_value TF_IN_FLIGHT = ''in_flight''"
| "fence_state_value TF_RELEASE_PENDING = ''release_pending''"
| "fence_state_value TF_RESOLVED = ''resolved''"
| "fence_state_value TF_QUARANTINED = ''quarantined''"

definition optional_json :: "string option \<Rightarrow> json" where
  "optional_json v = (case v of None \<Rightarrow> JNull | Some s \<Rightarrow> JStr s)"

definition identity_to_mapping :: "(int \<Rightarrow> string) \<Rightarrow> fence_identity \<Rightarrow> (string, json) dict" where
  "identity_to_mapping isofmt i =
     [(''schema_version'', JStr ''1.0.0''),
      (''target_digest'', JStr (tf_target i)),
      (''reservation_identity_digest'', JStr (tf_reservation i)),
      (''reservation_attempt'', JInt (tf_attempt i)),
      (''acquisition_receipt_digest'', JStr (tf_acquisition i)),
      (''acquisition_acquired_at'', JStr (isofmt (tf_acquired_at i))),
      (''continuity_policy_digest'', JStr (tf_policy i)),
      (''continuity_strategy'', JStr ''quarantined_reconciliation''),
      (''generation'', JInt (tf_generation i)),
      (''client_correlation_id'', JStr (tf_correlation_id i)),
      (''sink_idempotency_key'', JStr (tf_sink_key i)),
      (''identity_digest'', JStr (tf_identity_digest i)),
      (''execution_authority'', JBool False),
      (''effect_verification_authority'', JBool False)]"

definition fence_to_mapping :: "(int \<Rightarrow> string) \<Rightarrow> fence \<Rightarrow> (string, json) dict" where
  "fence_to_mapping isofmt r =
     [(''schema_version'', JStr ''1.0.0''),
      (''identity'', JObj (identity_to_mapping isofmt (tf_identity r))),
      (''state'', JStr (fence_state_value (tf_state r))),
      (''revision'', JInt (tf_revision r)),
      (''prior_record_digest'', optional_json (tf_prior r)),
      (''audit_append_receipt_digest'', optional_json (tf_audit r)),
      (''safeguard_bundle_digest'', optional_json (tf_bundle r)),
      (''state_changed_at'', JStr (isofmt (tf_changed_at r))),
      (''no_dispatch_evidence_digest'', optional_json (tf_no_dispatch r)),
      (''resolution_evidence_digest'', optional_json (tf_resolution r)),
      (''record_digest'', JStr (tf_digest r)),
      (''execution_authority'', JBool False),
      (''effect_verified'', JBool False)]"

section \<open>Reader\<close>

definition codec_error :: "string \<Rightarrow> string \<Rightarrow> 'a res" where
  "codec_error name what = Inl (ValueError (''target dispatch fence '' @ name @ what))"

definition exact_mapping :: "json \<Rightarrow> string list \<Rightarrow> string \<Rightarrow> (string, json) dict res" where
  "exact_mapping j keys name = (case j of
     JObj d \<Rightarrow> (if set (dict_keys d) = set keys then Inr d else codec_error name '' fields are invalid'')
   | _ \<Rightarrow> codec_error name '' fields are invalid'')"

definition mapping_field :: "(string, json) dict \<Rightarrow> string \<Rightarrow> json res" where
  "mapping_field d name = (case dict_get d name of
     Some (JObj kvs) \<Rightarrow> Inr (JObj kvs) | _ \<Rightarrow> codec_error name '' MUST be an object'')"

definition text_field :: "(string, json) dict \<Rightarrow> string \<Rightarrow> string res" where
  "text_field d name = (case dict_get d name of
     Some (JStr s) \<Rightarrow> Inr s | _ \<Rightarrow> codec_error name '' MUST be a string'')"

definition optional_text_field :: "(string, json) dict \<Rightarrow> string \<Rightarrow> string option res" where
  "optional_text_field d name = (case dict_get d name of
     None \<Rightarrow> Inr None | Some JNull \<Rightarrow> Inr None | Some (JStr s) \<Rightarrow> Inr (Some s)
   | _ \<Rightarrow> codec_error name '' MUST be a string or null'')"

definition integer_field :: "(string, json) dict \<Rightarrow> string \<Rightarrow> int res" where
  "integer_field d name = (case dict_get d name of
     Some (JInt i) \<Rightarrow> Inr i | _ \<Rightarrow> codec_error name '' MUST be an integer'')"

definition datetime_field ::
  "(string \<Rightarrow> int option option) \<Rightarrow> (string, json) dict \<Rightarrow> string \<Rightarrow> int res" where
  "datetime_field from_iso d name = bind_res (text_field d name) (\<lambda>s.
     case from_iso s of
       None \<Rightarrow> codec_error name '' MUST be an ISO 8601 timestamp''
     | Some None \<Rightarrow> codec_error name '' MUST include a timezone''
     | Some (Some t) \<Rightarrow> Inr t)"

definition literal_field :: "(string, json) dict \<Rightarrow> string \<Rightarrow> string \<Rightarrow> string \<Rightarrow> unit res" where
  "literal_field d name expected what = bind_res (text_field d name) (\<lambda>s.
     if s \<noteq> expected then Inl (ValueError what) else Inr ())"

definition schema_field :: "(string, json) dict \<Rightarrow> unit res" where
  "schema_field d = literal_field d ''schema_version'' ''1.0.0''
     ''target dispatch fence schema version is unsupported''"

definition strategy_field :: "(string, json) dict \<Rightarrow> unit res" where
  "strategy_field d = literal_field d ''continuity_strategy'' ''quarantined_reconciliation''
     ''target dispatch fence continuity strategy is unsupported''"

definition state_field :: "(string, json) dict \<Rightarrow> fence_state res" where
  "state_field d = bind_res (text_field d ''state'') (\<lambda>s.
     case find (\<lambda>x. fence_state_value x = s)
       [TF_PREPARING, TF_PREPARED, TF_IN_FLIGHT, TF_RELEASE_PENDING, TF_RESOLVED, TF_QUARANTINED] of
       None \<Rightarrow> Inl (ValueError ''target dispatch fence state is invalid'') | Some x \<Rightarrow> Inr x)"

definition false_field :: "(string, json) dict \<Rightarrow> string \<Rightarrow> unit res" where
  "false_field d name =
     (if dict_get d name = Some (JBool False) then Inr () else codec_error name '' MUST be false'')"

definition identity_from_mapping ::
  "(fence_identity \<Rightarrow> string) \<Rightarrow> (string \<Rightarrow> int option option) \<Rightarrow> (string, json) dict \<Rightarrow> fence_identity res" where
  "identity_from_mapping idg from_iso d =
     bind_res (schema_field d) (\<lambda>_.
     bind_res (text_field d ''target_digest'') (\<lambda>target.
     bind_res (text_field d ''reservation_identity_digest'') (\<lambda>reservation.
     bind_res (integer_field d ''reservation_attempt'') (\<lambda>attempt.
     bind_res (text_field d ''acquisition_receipt_digest'') (\<lambda>acquisition.
     bind_res (datetime_field from_iso d ''acquisition_acquired_at'') (\<lambda>acquired.
     bind_res (text_field d ''continuity_policy_digest'') (\<lambda>policy.
     bind_res (strategy_field d) (\<lambda>_.
     bind_res (integer_field d ''generation'') (\<lambda>generation.
     bind_res (text_field d ''client_correlation_id'') (\<lambda>correlation.
     bind_res (text_field d ''sink_idempotency_key'') (\<lambda>sink_key.
     bind_res (text_field d ''identity_digest'') (\<lambda>digest.
     bind_res (false_field d ''execution_authority'') (\<lambda>_.
     bind_res (false_field d ''effect_verification_authority'') (\<lambda>_.
       fence_identity_init idg \<lparr>tf_target = target, tf_reservation = reservation, tf_attempt = attempt,
         tf_acquisition = acquisition, tf_acquired_at = acquired, tf_policy = policy,
         tf_generation = generation, tf_correlation_id = correlation, tf_sink_key = sink_key,
         tf_identity_digest = digest\<rparr>))))))))))))))"

definition fence_from_mapping ::
  "(fence_identity \<Rightarrow> string) \<Rightarrow> (fence \<Rightarrow> string) \<Rightarrow> (string \<Rightarrow> int option option) \<Rightarrow> json \<Rightarrow> fence res" where
  "fence_from_mapping idg fdg from_iso j =
     bind_res (exact_mapping j
       [''schema_version'', ''identity'', ''state'', ''revision'', ''prior_record_digest'',
        ''audit_append_receipt_digest'', ''safeguard_bundle_digest'', ''state_changed_at'',
        ''no_dispatch_evidence_digest'', ''resolution_evidence_digest'', ''record_digest'',
        ''execution_authority'', ''effect_verified''] ''record'') (\<lambda>d.
     bind_res (mapping_field d ''identity'') (\<lambda>raw.
     bind_res (exact_mapping raw
       [''schema_version'', ''target_digest'', ''reservation_identity_digest'', ''reservation_attempt'',
        ''acquisition_receipt_digest'', ''acquisition_acquired_at'', ''continuity_policy_digest'',
        ''continuity_strategy'', ''generation'', ''client_correlation_id'', ''sink_idempotency_key'',
        ''identity_digest'', ''execution_authority'', ''effect_verification_authority''] ''identity'') (\<lambda>di.
     bind_res (identity_from_mapping idg from_iso di) (\<lambda>identity.
     bind_res (schema_field d) (\<lambda>_.
     bind_res (state_field d) (\<lambda>state.
     bind_res (integer_field d ''revision'') (\<lambda>revision.
     bind_res (optional_text_field d ''prior_record_digest'') (\<lambda>prior.
     bind_res (optional_text_field d ''audit_append_receipt_digest'') (\<lambda>audit.
     bind_res (optional_text_field d ''safeguard_bundle_digest'') (\<lambda>safeguards.
     bind_res (datetime_field from_iso d ''state_changed_at'') (\<lambda>changed.
     bind_res (optional_text_field d ''no_dispatch_evidence_digest'') (\<lambda>no_dispatch.
     bind_res (optional_text_field d ''resolution_evidence_digest'') (\<lambda>resolution.
     bind_res (text_field d ''record_digest'') (\<lambda>digest.
     bind_res (false_field d ''execution_authority'') (\<lambda>_.
     bind_res (false_field d ''effect_verified'') (\<lambda>_.
       fence_init fdg \<lparr>tf_identity = identity, tf_state = state, tf_revision = revision,
         tf_prior = prior, tf_audit = audit, tf_bundle = safeguards, tf_changed_at = changed,
         tf_no_dispatch = no_dispatch, tf_resolution = resolution, tf_digest = digest\<rparr>))))))))))))))))"

section \<open>Round trip\<close>

lemma fence_state_value_inj: "fence_state_value x = fence_state_value y \<Longrightarrow> x = y"
  by (cases x; cases y) simp_all

lemma state_field_value:
  "dict_get d ''state'' = Some (JStr (fence_state_value x)) \<Longrightarrow> state_field d = Inr x"
  by (cases x) (simp_all add: state_field_def text_field_def)

lemma optional_field_json: "dict_get d name = Some (optional_json v) \<Longrightarrow> optional_text_field d name = Inr v"
  by (cases v) (simp_all add: optional_text_field_def optional_json_def)

lemma identity_keys: "dict_keys (identity_to_mapping isofmt i) =
  [''schema_version'', ''target_digest'', ''reservation_identity_digest'', ''reservation_attempt'',
   ''acquisition_receipt_digest'', ''acquisition_acquired_at'', ''continuity_policy_digest'',
   ''continuity_strategy'', ''generation'', ''client_correlation_id'', ''sink_idempotency_key'',
   ''identity_digest'', ''execution_authority'', ''effect_verification_authority'']"
  by (simp add: identity_to_mapping_def)

lemma fence_keys: "dict_keys (fence_to_mapping isofmt r) =
  [''schema_version'', ''identity'', ''state'', ''revision'', ''prior_record_digest'',
   ''audit_append_receipt_digest'', ''safeguard_bundle_digest'', ''state_changed_at'',
   ''no_dispatch_evidence_digest'', ''resolution_evidence_digest'', ''record_digest'',
   ''execution_authority'', ''effect_verified'']"
  by (simp add: fence_to_mapping_def)

lemmas field_readers = schema_field_def strategy_field_def literal_field_def text_field_def integer_field_def
  datetime_field_def false_field_def

lemma rebuilt_records:
  "\<lparr>tf_target = tf_target i, tf_reservation = tf_reservation i, tf_attempt = tf_attempt i,
    tf_acquisition = tf_acquisition i, tf_acquired_at = tf_acquired_at i, tf_policy = tf_policy i,
    tf_generation = tf_generation i, tf_correlation_id = tf_correlation_id i,
    tf_sink_key = tf_sink_key i, tf_identity_digest = tf_identity_digest i\<rparr> = i"
  "\<lparr>tf_identity = tf_identity r, tf_state = tf_state r, tf_revision = tf_revision r, tf_prior = tf_prior r,
    tf_audit = tf_audit r, tf_bundle = tf_bundle r, tf_changed_at = tf_changed_at r,
    tf_no_dispatch = tf_no_dispatch r, tf_resolution = tf_resolution r, tf_digest = tf_digest r\<rparr> = r"
  by (cases i, simp) (cases r, simp)

lemma identity_read_back:
  assumes "from_iso (isofmt (tf_acquired_at i)) = Some (Some (tf_acquired_at i))"
  shows "identity_from_mapping idg from_iso (identity_to_mapping isofmt i) = fence_identity_init idg i"
  unfolding identity_from_mapping_def field_readers identity_to_mapping_def
  by (simp add: assms rebuilt_records)

text \<open>
  C26: The document of a valid record of a valid identity reads back as the same record,
  when \<open>fromisoformat\<close> inverts \<open>isoformat\<close> on its two times.
\<close>

theorem fence_document_round_trip:
  assumes "fence_init fdg r = Inr r" and "fence_identity_init idg (tf_identity r) = Inr (tf_identity r)"
    and "from_iso (isofmt (tf_acquired_at (tf_identity r))) = Some (Some (tf_acquired_at (tf_identity r)))"
    and "from_iso (isofmt (tf_changed_at r)) = Some (Some (tf_changed_at r))"
  shows "fence_from_mapping idg fdg from_iso (JObj (fence_to_mapping isofmt r)) = Inr r"
proof -
  let ?d = "fence_to_mapping isofmt r"
  have f: "mapping_field ?d ''identity'' = Inr (JObj (identity_to_mapping isofmt (tf_identity r)))"
    "schema_field ?d = Inr ()" "state_field ?d = Inr (tf_state r)" "integer_field ?d ''revision'' = Inr (tf_revision r)"
    "datetime_field from_iso ?d ''state_changed_at'' = Inr (tf_changed_at r)"
    "text_field ?d ''record_digest'' = Inr (tf_digest r)"
    "false_field ?d ''execution_authority'' = Inr ()" "false_field ?d ''effect_verified'' = Inr ()"
    by (simp_all add: fence_to_mapping_def mapping_field_def field_readers state_field_value assms(4))
  have o: "optional_text_field ?d ''prior_record_digest'' = Inr (tf_prior r)"
    "optional_text_field ?d ''audit_append_receipt_digest'' = Inr (tf_audit r)"
    "optional_text_field ?d ''safeguard_bundle_digest'' = Inr (tf_bundle r)"
    "optional_text_field ?d ''no_dispatch_evidence_digest'' = Inr (tf_no_dispatch r)"
    "optional_text_field ?d ''resolution_evidence_digest'' = Inr (tf_resolution r)"
    by (rule optional_field_json, simp add: fence_to_mapping_def)+
  show ?thesis
    unfolding fence_from_mapping_def exact_mapping_def json.case fence_keys identity_keys
    by (simp only: f o bind_res_simps identity_keys json.case if_True simp_thms
        identity_read_back [of from_iso isofmt, OF assms(3)] assms(2))
      (simp add: rebuilt_records assms(1))
qed

theorem fence_document_round_trip_witness:
  "fence_from_mapping (\<lambda>_. filler_digest) fence_dg (\<lambda>s. Some (Some (if s = ''t12'' then 12 else 0)))
     (JObj (fence_to_mapping (\<lambda>t. if t = 12 then ''t12'' else ''t0'') (run_fence False TF_PREPARING 1 12 False False))) =
   Inr (run_fence False TF_PREPARING 1 12 False False)"
proof (rule fence_document_round_trip)
  have "canonical_text 512 ''c1''" "canonical_text 512 ''k1''" by code_simp+
  then show "fence_identity_init (\<lambda>_. filler_digest) (tf_identity (run_fence False TF_PREPARING 1 12 False False)) =
      Inr (tf_identity (run_fence False TF_PREPARING 1 12 False False))"
    by (simp add: fence_identity_init_def fence_identity_checks_def run_fence_sel bind_res_Inr)
      (simp add: run_fence_identity_def fence_digest_check_def fence_text_check_def filler_ok)
  show "fence_init fence_dg (run_fence False TF_PREPARING 1 12 False False) =
      Inr (run_fence False TF_PREPARING 1 12 False False)"
    by (rule run_fence_valid [unfolded valid_fence_def]) (simp_all add: fence_shape_def run_fence_sel)
qed (simp_all add: run_fence_sel)

text \<open>Whatever document is read, the record and its identity pass every check.\<close>

lemma read_fence_is_valid:
  "fence_from_mapping idg fdg from_iso j = Inr r \<Longrightarrow> valid_fence fdg r \<and>
     fence_identity_init idg (tf_identity r) = Inr (tf_identity r)"
  unfolding fence_from_mapping_def
  by (auto simp: bind_res_Inr fence_init_def valid_fence_def identity_from_mapping_def fence_identity_init_def)

end
