(* ===== verification/SafeguardBundle.thy ===== *)
theory SafeguardBundle
  imports Contracts "HOL-Library.Multiset"
begin

text \<open>
  The proof bundle of the seven execution safeguards, of
  \<open>packages/service-contracts/.../execution_safeguards.py\<close>: its proof kinds, the validation of a bundle
  and its construction from proofs in any order.

  The base model strips the blanks of strings by a library function, the parameter \<open>strip\<close>; a content
  digest is the parameter \<open>bdg\<close> of the bundle without its own digest. A failed library constraint on a
  field is a \<open>ValueError\<close> with the field's name.
\<close>

datatype proof_kind =
    PK_STOP_CONDITION | PK_ROLLBACK | PK_IMPACT_SCOPE | PK_DRY_RUN | PK_LOGICAL_TARGET_LOCK
  | PK_IDEMPOTENCY | PK_AUDIT_INTENT

record safeguard_proof =
  pk_kind :: proof_kind
  pk_digest :: string

record safeguard_bundle =
  sb_action_id :: string
  sb_path :: execution_path
  sb_fingerprint :: string
  sb_revision :: string
  sb_recorded_at :: int
  sb_proofs :: "safeguard_proof list"
  sb_digest :: string

definition required_kinds :: "proof_kind list" where
  "required_kinds =
     [PK_STOP_CONDITION, PK_ROLLBACK, PK_IMPACT_SCOPE, PK_DRY_RUN, PK_LOGICAL_TARGET_LOCK,
      PK_IDEMPOTENCY, PK_AUDIT_INTENT]"

fun proof_order :: "proof_kind \<Rightarrow> nat" where
  "proof_order PK_STOP_CONDITION = 0"
| "proof_order PK_ROLLBACK = 1"
| "proof_order PK_IMPACT_SCOPE = 2"
| "proof_order PK_DRY_RUN = 3"
| "proof_order PK_LOGICAL_TARGET_LOCK = 4"
| "proof_order PK_IDEMPOTENCY = 5"
| "proof_order PK_AUDIT_INTENT = 6"

text \<open>The constraints of the fields, then the validators of the model in their order.\<close>

definition bundle_body_checks :: "safeguard_bundle \<Rightarrow> (bool \<times> string) list" where
  "bundle_body_checks b =
     [(\<not> sha256_ref (sb_fingerprint b), ''execution_fingerprint''),
      (sb_revision b = [] \<or> length (sb_revision b) > 512, ''source_revision''),
      (\<not> list_all (\<lambda>p. sha256_ref (pk_digest p)) (sb_proofs b), ''proof_digest''),
      (length (sb_proofs b) \<noteq> 7, ''proofs''),
      (map pk_kind (sb_proofs b) \<noteq> required_kinds,
        ''safeguard proof bundle requires seven ordered proof classes''),
      (\<not> distinct (map pk_digest (sb_proofs b)),
        ''safeguard proof bundle proof digests MUST be unique'')]"

definition bundle_init ::
  "(safeguard_bundle \<Rightarrow> string) \<Rightarrow> safeguard_bundle \<Rightarrow> safeguard_bundle res" where
  "bundle_init bdg b =
     bind_res (first_failure (bundle_body_checks b @
       [(\<not> sha256_ref (sb_digest b), ''bundle_digest''),
        (sb_digest b \<noteq> bdg (b\<lparr>sb_digest := []\<rparr>), ''safeguard proof bundle digest mismatched'')]))
       (\<lambda>_. Inr b)"

definition strip_proof :: "(string \<Rightarrow> string) \<Rightarrow> safeguard_proof \<Rightarrow> safeguard_proof" where
  "strip_proof strip p = p\<lparr>pk_digest := strip (pk_digest p)\<rparr>"

definition bundle_create ::
  "(string \<Rightarrow> string) \<Rightarrow> (safeguard_bundle \<Rightarrow> string) \<Rightarrow> string \<Rightarrow> execution_path \<Rightarrow> string \<Rightarrow> string \<Rightarrow>
     int option \<Rightarrow> safeguard_proof list \<Rightarrow> safeguard_bundle res" where
  "bundle_create strip bdg aid path fingerprint revision recorded proofs =
     (let proofs = sort_key (\<lambda>p. proof_order (pk_kind p)) proofs in
      case recorded of
        None \<Rightarrow> Inl (ValueError ''safeguard proof bundle recorded_at MUST include a timezone'')
      | Some t \<Rightarrow>
          (let b = \<lparr>sb_action_id = aid, sb_path = path, sb_fingerprint = strip fingerprint,
                 sb_revision = strip revision, sb_recorded_at = t,
                 sb_proofs = map (strip_proof strip) proofs, sb_digest = []\<rparr>
           in bind_res (first_failure (bundle_body_checks b))
                (\<lambda>_. bundle_init bdg (b\<lparr>sb_digest := bdg b\<rparr>))))"

section \<open>Properties\<close>

lemma proof_order_inj: "proof_order x = proof_order y \<longleftrightarrow> x = y"
  by (cases x; cases y) simp_all

lemma distinct_required: "distinct required_kinds"
  by (simp add: required_kinds_def)

text \<open>Sorting is by kind alone, so two orders of the same proofs differ at most in repeated kinds.\<close>

lemma sorted_proofs_eq:
  assumes "mset ps = mset qs" and "distinct (map pk_kind ps)"
  shows "sort_key (\<lambda>p. proof_order (pk_kind p)) ps = sort_key (\<lambda>p. proof_order (pk_kind p)) qs"
proof (rule sort_key_inj_key_eq)
  show "mset ps = mset (sort_key (\<lambda>p. proof_order (pk_kind p)) qs)" using assms(1) by simp
  show "inj_on (\<lambda>p. proof_order (pk_kind p)) (set ps)"
    using assms(2) by (auto simp: inj_on_def proof_order_inj distinct_map)
  show "sorted (map (\<lambda>p. proof_order (pk_kind p)) (sort_key (\<lambda>p. proof_order (pk_kind p)) qs))"
    by (rule sorted_sort_key)
qed

lemma kinds_of_sorted:
  "map pk_kind (map (strip_proof strip) (sort_key (\<lambda>p. proof_order (pk_kind p)) ps)) = required_kinds \<Longrightarrow>
     distinct (map pk_kind ps)"
proof -
  have m: "mset (map pk_kind (map (strip_proof strip) (sort_key (\<lambda>p. proof_order (pk_kind p)) ps))) =
      mset (map pk_kind ps)"
    by (simp add: comp_def strip_proof_def image_mset.compositionality)
  assume "map pk_kind (map (strip_proof strip) (sort_key (\<lambda>p. proof_order (pk_kind p)) ps)) = required_kinds"
  with m distinct_required show ?thesis by (metis mset_eq_imp_distinct_iff)
qed

lemma bundle_create_kinds:
  assumes "bundle_create strip bdg aid path fingerprint revision recorded ps = Inr b"
  shows "map pk_kind (sb_proofs b) = required_kinds" and "distinct (map pk_digest (sb_proofs b))"
    and "sb_proofs b = map (strip_proof strip) (sort_key (\<lambda>p. proof_order (pk_kind p)) ps)"
  using assms
  by (auto simp: bundle_create_def bundle_init_def bundle_body_checks_def Let_def bind_res_Inr split: option.splits)

text \<open>
  A bundle does not depend on the order in which its proofs were gathered, and it holds
  exactly one proof of each of the seven safeguards, in the required order and with pairwise
  different digests.
\<close>

theorem bundle_is_canonical:
  assumes "mset ps = mset qs"
  shows "bundle_create strip bdg aid path fingerprint revision recorded ps =
      bundle_create strip bdg aid path fingerprint revision recorded qs \<and>
    (\<forall>b. bundle_create strip bdg aid path fingerprint revision recorded ps = Inr b \<longrightarrow>
      map pk_kind (sb_proofs b) = required_kinds \<and> distinct (map pk_digest (sb_proofs b)) \<and>
      mset (sb_proofs b) = mset (map (strip_proof strip) ps))"
proof
  let ?s = "\<lambda>ps. map (strip_proof strip) (sort_key (\<lambda>p. proof_order (pk_kind p)) ps)"
  show "bundle_create strip bdg aid path fingerprint revision recorded ps =
      bundle_create strip bdg aid path fingerprint revision recorded qs"
  proof (cases "distinct (map pk_kind ps)")
    case True
    from sorted_proofs_eq [OF assms True] show ?thesis unfolding bundle_create_def by (simp only:)
  next
    case False
    then have "\<not> distinct (map pk_kind qs)"
      using assms by (metis mset_eq_imp_distinct_iff mset_map)
    with False have "map pk_kind (?s ps) \<noteq> required_kinds" "map pk_kind (?s qs) \<noteq> required_kinds"
      using kinds_of_sorted by blast+
    moreover have "list_all (\<lambda>p. sha256_ref (pk_digest p)) (?s ps) = list_all (\<lambda>p. sha256_ref (pk_digest p)) (?s qs)"
      using mset_eq_setD [OF assms] by (simp add: list_all_iff)
    moreover have "length (?s ps) = length (?s qs)" using mset_eq_length [OF assms] by simp
    ultimately show ?thesis
      by (auto simp: bundle_create_def Let_def bundle_body_checks_def first_failure.simps bind_res_def
          simp del: length_map map_map split: option.splits)
  qed
  show "\<forall>b. bundle_create strip bdg aid path fingerprint revision recorded ps = Inr b \<longrightarrow>
      map pk_kind (sb_proofs b) = required_kinds \<and> distinct (map pk_digest (sb_proofs b)) \<and>
      mset (sb_proofs b) = mset (map (strip_proof strip) ps)"
    using bundle_create_kinds [of strip bdg aid path fingerprint revision recorded ps] by simp
qed

section \<open>A concrete bundle\<close>

definition kind_digest :: "proof_kind \<Rightarrow> string" where
  "kind_digest k = ''sha256:'' @ replicate 63 (CHR ''0'') @ [digit_char (proof_order k)]"

definition sample_proofs :: "proof_kind list \<Rightarrow> safeguard_proof list" where
  "sample_proofs ks = map (\<lambda>k. \<lparr>pk_kind = k, pk_digest = kind_digest k\<rparr>) ks"

definition sample_bundle :: safeguard_bundle where
  "sample_bundle = \<lparr>sb_action_id = ''a1'', sb_path = DIRECT_API, sb_fingerprint = kind_digest PK_ROLLBACK,
     sb_revision = ''r1'', sb_recorded_at = 14, sb_proofs = sample_proofs required_kinds,
     sb_digest = kind_digest PK_STOP_CONDITION\<rparr>"

lemma sample_bundle_created:
  "bundle_create (\<lambda>s. s) (\<lambda>_. kind_digest PK_STOP_CONDITION) ''a1'' DIRECT_API (kind_digest PK_ROLLBACK) ''r1''
     (Some 14) (sample_proofs required_kinds) = Inr sample_bundle"
  by code_simp

theorem bundle_is_canonical_witness:
  "bundle_create (\<lambda>s. s) (\<lambda>_. kind_digest PK_STOP_CONDITION) ''a1'' DIRECT_API (kind_digest PK_ROLLBACK) ''r1''
     (Some 14) (sample_proofs (rev required_kinds)) = Inr sample_bundle \<and>
   map pk_kind (sb_proofs sample_bundle) = required_kinds"
proof -
  have "mset (sample_proofs required_kinds) = mset (sample_proofs (rev required_kinds))"
    by (simp add: sample_proofs_def rev_map [symmetric])
  from bundle_is_canonical [OF this] sample_bundle_created show ?thesis by metis
qed

end
