(* ===== verification/DispatchEvidence.thy ===== *)
theory DispatchEvidence
  imports TargetFence SafeguardBundle
begin

text \<open>
  Durable evidence of one dispatch: the identity that binds fence, reservation, audit intent, lock and
  bundle (\<open>core/executor/safeguard_dispatch_identity.py\<close>), the start checkpoint
  (\<open>safeguard_dispatch_start.py\<close>) and its gate (\<open>safeguard_dispatch_gate.py\<close>), the observation, the
  pre-release checkpoint, the record and its steps (\<open>safeguard_dispatch_checkpoint.py\<close>,
  \<open>safeguard_dispatch_validation.py\<close>), the legal transitions (\<open>safeguard_dispatch_transition.py\<close>), receipts
  and results (\<open>safeguard_dispatch_store.py\<close>), and the PostgreSQL and the in-memory store.

  Times are as for reservations. Content digests are the fields of \<open>evidence_digests\<close>, each a function of
  the value without its own digest. The fields that are constant by their type
  (\<open>independent_effect_state\<close>, the no-authority flags) are not stored.
\<close>

section \<open>Identity\<close>

record evidence_identity =
  di_schema :: string
  di_action_id :: string
  di_target :: string
  di_fence_identity :: string
  di_fence_record :: string
  di_generation :: int
  di_fence_revision :: int
  di_reservation :: string
  di_attempt :: int
  di_acquisition :: string
  di_reservation_receipt :: string
  di_reservation_record :: string
  di_reservation_revision :: int
  di_lease_expires_at :: int
  di_audit :: string
  di_assessment :: string
  di_assessment_until :: int
  di_lock_proof :: string
  di_idempotency_proof :: string
  di_audit_proof :: string
  di_pre_bundle :: string
  di_verifier_id :: string
  di_verifier_version :: string
  di_trust_anchor :: string
  di_bundle :: string
  di_policy :: string
  di_path :: string
  di_fingerprint :: string
  di_source_revision :: string
  di_correlation_id :: string
  di_sink_key :: string
  di_digest :: string
  di_origin :: "string option"
  di_venue :: "string option"

definition evidence_digest_check :: "string \<Rightarrow> string \<Rightarrow> bool \<times> string" where
  "evidence_digest_check name v =
     (\<not> sha256_ref v, ''safeguard dispatch evidence '' @ name @ '' MUST be SHA-256'')"

definition evidence_text_check :: "string \<Rightarrow> string \<Rightarrow> bool \<times> string" where
  "evidence_text_check name v =
     (\<not> canonical_text 512 v, ''safeguard dispatch evidence '' @ name @ '' MUST be canonical'')"

definition evidence_time :: "string \<Rightarrow> int option \<Rightarrow> int res" where
  "evidence_time name v = (case v of
     None \<Rightarrow> Inl (ValueError (''safeguard dispatch evidence '' @ name @ '' MUST include a timezone''))
   | Some t \<Rightarrow> Inr t)"

definition optional_check :: "('a \<Rightarrow> bool \<times> string) \<Rightarrow> 'a option \<Rightarrow> bool \<times> string" where
  "optional_check c v = (case v of None \<Rightarrow> (False, []) | Some x \<Rightarrow> c x)"

definition provenance_checks :: "evidence_identity \<Rightarrow> (bool \<times> string) list" where
  "provenance_checks i =
     (if di_schema i = ''1.0.0'' then
        [(di_origin i \<noteq> None \<or> di_venue i \<noteq> None,
           ''safeguard dispatch evidence identity 1.0.0 predates execution provenance'')]
      else
        [(di_origin i = None \<or> di_venue i = None,
           ''safeguard dispatch evidence identity MUST bind execution origin and venue''),
         (di_origin i \<notin> {Some ''core'', Some ''workflow''} \<or> di_venue i \<notin> {Some ''core'', Some ''isolated_executor''},
           ''safeguard dispatch evidence identity execution provenance is invalid'')])"

text \<open>
  The payload that a schema revision hashes: revision 1.0.0 has no provenance keys at all, later ones
  always have them. The first component says whether the payload has the keys.
\<close>

definition binds_provenance_keys :: "evidence_identity \<Rightarrow> bool" where
  "binds_provenance_keys i = (di_schema i \<noteq> ''1.0.0'')"

definition identity_body :: "evidence_identity \<Rightarrow> bool \<times> evidence_identity" where
  "identity_body i = (binds_provenance_keys i, i\<lparr>di_digest := []\<rparr>)"

definition evidence_identity_checks ::
  "(bool \<times> evidence_identity \<Rightarrow> string) \<Rightarrow> evidence_identity \<Rightarrow> (bool \<times> string) list" where
  "evidence_identity_checks idg i =
     [(di_schema i \<notin> {''1.0.0'', ''1.1.0''}, ''unsupported safeguard dispatch evidence identity schema''),
      evidence_text_check ''action_id'' (di_action_id i),
      evidence_digest_check ''target_digest'' (di_target i),
      evidence_digest_check ''target_fence_identity_digest'' (di_fence_identity i),
      evidence_digest_check ''target_fence_record_digest'' (di_fence_record i),
      evidence_digest_check ''reservation_identity_digest'' (di_reservation i),
      evidence_digest_check ''acquisition_receipt_digest'' (di_acquisition i),
      evidence_digest_check ''reservation_receipt_digest'' (di_reservation_receipt i),
      evidence_digest_check ''reservation_record_digest'' (di_reservation_record i),
      evidence_digest_check ''audit_append_receipt_digest'' (di_audit i),
      evidence_digest_check ''lock_assessment_digest'' (di_assessment i),
      evidence_digest_check ''lock_proof_digest'' (di_lock_proof i),
      evidence_digest_check ''idempotency_proof_digest'' (di_idempotency_proof i),
      evidence_digest_check ''audit_intent_proof_digest'' (di_audit_proof i),
      evidence_digest_check ''pre_bundle_commitment_digest'' (di_pre_bundle i),
      evidence_digest_check ''safeguard_bundle_digest'' (di_bundle i),
      evidence_digest_check ''continuity_policy_digest'' (di_policy i),
      evidence_digest_check ''identity_digest'' (di_digest i),
      evidence_text_check ''lock_verifier_id'' (di_verifier_id i),
      evidence_text_check ''lock_verifier_version'' (di_verifier_version i),
      evidence_text_check ''lock_trust_anchor_id'' (di_trust_anchor i),
      evidence_text_check ''execution_path'' (di_path i),
      evidence_digest_check ''execution_fingerprint'' (di_fingerprint i),
      evidence_text_check ''source_revision'' (di_source_revision i),
      (di_generation i < 1, ''safeguard dispatch evidence target_fence_generation MUST be positive''),
      (di_fence_revision i < 1, ''safeguard dispatch evidence target_fence_revision MUST be positive''),
      (di_attempt i < 1, ''safeguard dispatch evidence reservation_attempt MUST be positive''),
      (di_reservation_revision i < 1, ''safeguard dispatch evidence reservation_revision MUST be positive''),
      evidence_text_check ''client_correlation_id'' (di_correlation_id i),
      evidence_text_check ''sink_idempotency_key'' (di_sink_key i)] @
     provenance_checks i @
     [(di_digest i \<noteq> idg (identity_body i), ''safeguard dispatch evidence identity digest mismatched'')]"

definition evidence_identity_init ::
  "(bool \<times> evidence_identity \<Rightarrow> string) \<Rightarrow> evidence_identity \<Rightarrow> evidence_identity res" where
  "evidence_identity_init idg i = bind_res (first_failure (evidence_identity_checks idg i)) (\<lambda>_. Inr i)"

section \<open>Start, observation and pre-release checkpoint\<close>

record start_checkpoint =
  dst_identity :: string
  dst_bundle_record :: string
  dst_bundle_revision :: int
  dst_bundle_receipt :: string
  dst_reservation :: reservation_receipt
  dst_prepared :: fence
  dst_in_flight :: fence
  dst_started_at :: int
  dst_digest :: string

datatype transport_state = TP_SENT | TP_ACKNOWLEDGED | TP_FAILED | TP_UNKNOWN

datatype sink_state =
  SK_UNOBSERVED | SK_ACCEPTED | SK_NOT_ACCEPTED | SK_COMMITTED | SK_NOT_COMMITTED | SK_UNKNOWN

record dispatch_observation =
  dob_identity :: string
  dob_bundle_record :: string
  dob_bundle_revision :: int
  dob_start_record :: string
  dob_start_revision :: int
  dob_reservation :: string
  dob_fence_record :: string
  dob_fence_revision :: int
  dob_transport :: transport_state
  dob_sink :: sink_state
  dob_operation :: "string option"
  dob_status :: "string option"
  dob_started_at :: int
  dob_observed_at :: int
  dob_digest :: string

datatype pre_release_continuity = PR_CURRENT | PR_UNPROVEN

datatype unproven_reason =
    UN_ASSESSMENT_FAILED | UN_CALLBACK_CANCELLED | UN_CALLBACK_FAILED | UN_INELIGIBLE | UN_MISSING | UN_STALE

record ownership_checkpoint =
  dpc_identity :: string
  dpc_continuity :: pre_release_continuity
  dpc_acquisition :: string
  dpc_assessment :: "string option"
  dpc_verifier_id :: "string option"
  dpc_verifier_version :: "string option"
  dpc_trust_anchor :: "string option"
  dpc_evaluated_at :: "int option"
  dpc_valid_until :: "int option"
  dpc_rejections :: "string list"
  dpc_unproven :: "unproven_reason option"
  dpc_observed_at :: int
  dpc_digest :: string

datatype evidence_state = DE_BUNDLE_PERSISTED | DE_DISPATCH_STARTED | DE_DISPATCH_OBSERVED | DE_PRE_RELEASE

record evidence =
  dev_identity :: evidence_identity
  dev_bundle :: safeguard_bundle
  dev_state :: evidence_state
  dev_revision :: int
  dev_prior :: "string option"
  dev_start :: "start_checkpoint option"
  dev_observation :: "dispatch_observation option"
  dev_checkpoint :: "ownership_checkpoint option"
  dev_changed_at :: int
  dev_digest :: string

text \<open>A receipt may carry the receipt of the bundle's persistence, so it is a datatype.\<close>

datatype evidence_receipt = EvidenceReceipt
  (dtr_prior: "evidence option")
  (dtr_record: evidence)
  (dtr_bundle_receipt: "evidence_receipt option")
  (dtr_assessment: "ownership_assessment option")
  (dtr_store_digest: string)
  (dtr_recorded_at: int)
  (dtr_digest: string)

record evidence_digests =
  h_start :: "start_checkpoint \<Rightarrow> string"
  h_observation :: "dispatch_observation \<Rightarrow> string"
  h_checkpoint :: "ownership_checkpoint \<Rightarrow> string"
  h_record :: "bool \<times> evidence \<Rightarrow> string"
  h_receipt :: "evidence_receipt \<Rightarrow> string"

section \<open>Observation\<close>

definition observation_checks ::
  "(dispatch_observation \<Rightarrow> string) \<Rightarrow> dispatch_observation \<Rightarrow> (bool \<times> string) list" where
  "observation_checks odg ob =
     [evidence_digest_check ''evidence_identity_digest'' (dob_identity ob),
      evidence_digest_check ''bundle_record_digest'' (dob_bundle_record ob),
      evidence_digest_check ''in_flight_reservation_receipt_digest'' (dob_reservation ob),
      (dob_bundle_revision ob < 1, ''safeguard dispatch bundle record revision MUST be positive''),
      evidence_digest_check ''dispatch_start_record_digest'' (dob_start_record ob),
      (dob_start_revision ob < 1, ''safeguard dispatch-start record revision MUST be positive''),
      evidence_digest_check ''target_fence_record_digest'' (dob_fence_record ob),
      (dob_fence_revision ob < 1, ''safeguard dispatch fence revision MUST be positive''),
      optional_check (evidence_digest_check ''sink_operation_reference_digest'') (dob_operation ob),
      optional_check (evidence_digest_check ''authoritative_status_digest'') (dob_status ob),
      (dob_sink ob \<in> {SK_ACCEPTED, SK_NOT_ACCEPTED, SK_COMMITTED, SK_NOT_COMMITTED} \<and> dob_status ob = None,
        ''authoritative sink state requires status evidence''),
      (dob_sink ob \<in> {SK_ACCEPTED, SK_COMMITTED} \<and> dob_operation ob = None,
        ''accepted sink state requires operation reference''),
      (dob_sink ob \<in> {SK_UNOBSERVED, SK_UNKNOWN} \<and> dob_status ob \<noteq> None,
        ''unknown sink state cannot carry authoritative status''),
      (dob_observed_at ob < dob_started_at ob, ''dispatch observation predates dispatch start''),
      evidence_digest_check ''observation_digest'' (dob_digest ob),
      (dob_digest ob \<noteq> odg (ob\<lparr>dob_digest := []\<rparr>), ''safeguard dispatch observation digest mismatched'')]"

definition observation_init ::
  "(dispatch_observation \<Rightarrow> string) \<Rightarrow> dispatch_observation \<Rightarrow> dispatch_observation res" where
  "observation_init odg ob = bind_res (first_failure (observation_checks odg ob)) (\<lambda>_. Inr ob)"

definition observation_create ::
  "(dispatch_observation \<Rightarrow> string) \<Rightarrow> evidence \<Rightarrow> transport_state \<Rightarrow> sink_state \<Rightarrow> string option \<Rightarrow>
     string option \<Rightarrow> int option \<Rightarrow> dispatch_observation res" where
  "observation_create odg r transport sink operation status observed =
     (case (dev_state r, dev_start r) of
        (DE_DISPATCH_STARTED, Some start) \<Rightarrow>
          bind_res (evidence_time ''observed_at'' observed) (\<lambda>t.
          if t < dst_started_at start
          then Inl (ValueError ''safeguard dispatch observation predates in-flight fence'')
          else
            let ob = \<lparr>dob_identity = di_digest (dev_identity r), dob_bundle_record = dst_bundle_record start,
                   dob_bundle_revision = dst_bundle_revision start, dob_start_record = dev_digest r,
                   dob_start_revision = dev_revision r, dob_reservation = rt_digest (dst_reservation start),
                   dob_fence_record = tf_digest (dst_in_flight start),
                   dob_fence_revision = tf_revision (dst_in_flight start), dob_transport = transport,
                   dob_sink = sink, dob_operation = operation, dob_status = status,
                   dob_started_at = dst_started_at start, dob_observed_at = t, dob_digest = []\<rparr>
            in observation_init odg (ob\<lparr>dob_digest := odg ob\<rparr>))
      | _ \<Rightarrow> Inl (ValueError ''safeguard dispatch observation requires durable dispatch start''))"

section \<open>Pre-release checkpoint\<close>

definition checkpoint_shape :: "ownership_checkpoint \<Rightarrow> (bool \<times> string) list" where
  "checkpoint_shape c =
     (if dpc_continuity c = PR_CURRENT then
        [(dpc_assessment c = None \<or> dpc_verifier_id c = None \<or> dpc_verifier_version c = None \<or>
            dpc_trust_anchor c = None \<or> dpc_rejections c \<noteq> [] \<or> dpc_unproven c \<noteq> None \<or>
            (case (dpc_evaluated_at c, dpc_valid_until c) of
               (Some e, Some u) \<Rightarrow> \<not> (e \<le> dpc_observed_at c \<and> dpc_observed_at c < u)
             | _ \<Rightarrow> True),
          ''current pre-release checkpoint shape is invalid'')]
      else [(dpc_unproven c = None, ''continuity-unproven checkpoint requires a reason'')])"

definition checkpoint_checks ::
  "(ownership_checkpoint \<Rightarrow> string) \<Rightarrow> ownership_checkpoint \<Rightarrow> (bool \<times> string) list" where
  "checkpoint_checks cdg c =
     [evidence_digest_check ''evidence_identity_digest'' (dpc_identity c),
      evidence_digest_check ''acquisition_receipt_digest'' (dpc_acquisition c),
      optional_check (evidence_digest_check ''assessment_digest'') (dpc_assessment c),
      optional_check (evidence_text_check ''verifier_id'') (dpc_verifier_id c),
      optional_check (evidence_text_check ''verifier_version'') (dpc_verifier_version c),
      optional_check (evidence_text_check ''trust_anchor_id'') (dpc_trust_anchor c),
      (\<not> list_all (\<lambda>r. r \<noteq> []) (dpc_rejections c) \<or> dpc_rejections c \<noteq> sort (remdups (dpc_rejections c)),
        ''pre-release rejection reasons MUST be canonical'')] @
     checkpoint_shape c @
     [evidence_digest_check ''checkpoint_digest'' (dpc_digest c),
      (dpc_digest c \<noteq> cdg (c\<lparr>dpc_digest := []\<rparr>), ''pre-release ownership checkpoint digest mismatched'')]"

definition checkpoint_init ::
  "(ownership_checkpoint \<Rightarrow> string) \<Rightarrow> ownership_checkpoint \<Rightarrow> ownership_checkpoint res" where
  "checkpoint_init cdg c = bind_res (first_failure (checkpoint_checks cdg c)) (\<lambda>_. Inr c)"

definition checkpoint_create ::
  "(ownership_checkpoint \<Rightarrow> string) \<Rightarrow> evidence_identity \<Rightarrow> ownership_assessment option \<Rightarrow> int \<Rightarrow>
     unproven_reason option \<Rightarrow> ownership_checkpoint res" where
  "checkpoint_create cdg i a observed reason =
     (let c = \<lparr>dpc_identity = di_digest i,
            dpc_continuity = (if reason = None then PR_CURRENT else PR_UNPROVEN),
            dpc_acquisition = di_acquisition i, dpc_assessment = map_option la_digest a,
            dpc_verifier_id = map_option la_verifier_id a,
            dpc_verifier_version = map_option la_verifier_version a,
            dpc_trust_anchor = map_option la_trust_anchor a, dpc_evaluated_at = map_option la_evaluated_at a,
            dpc_valid_until = map_option la_valid_until a,
            dpc_rejections = (case a of None \<Rightarrow> [] | Some x \<Rightarrow> map lock_rejection_value (la_reasons x)),
            dpc_unproven = reason, dpc_observed_at = observed, dpc_digest = []\<rparr>
      in checkpoint_init cdg (c\<lparr>dpc_digest := cdg c\<rparr>))"

text \<open>The assessment comes from the verifier and the trust anchor the identity binds.\<close>

definition same_verifier :: "ownership_assessment \<Rightarrow> evidence_identity \<Rightarrow> bool" where
  "same_verifier a i = (la_verifier_id a = di_verifier_id i \<and>
     la_verifier_version a = di_verifier_version i \<and> la_trust_anchor a = di_trust_anchor i)"

definition continuity_reason ::
  "evidence_identity \<Rightarrow> ownership_assessment \<Rightarrow> int \<Rightarrow> int \<Rightarrow> unproven_reason option" where
  "continuity_reason i a boundary t =
     (if \<not> same_verifier a i then Some UN_ASSESSMENT_FAILED
      else if la_evaluated_at a < boundary then Some UN_STALE
      else case require_current_ownership a (Some t) of
          Inr _ \<Rightarrow> None
        | Inl _ \<Rightarrow> Some (if \<not> la_eligible a then UN_INELIGIBLE else UN_STALE))"

definition checkpoint_from_assessment ::
  "(ownership_checkpoint \<Rightarrow> string) \<Rightarrow> evidence_identity \<Rightarrow> ownership_assessment \<Rightarrow> int option \<Rightarrow> int option \<Rightarrow>
     ownership_checkpoint res" where
  "checkpoint_from_assessment cdg i a not_before observed =
     (if rc_receipt_digest (la_receipt a) \<noteq> di_acquisition i
      then Inl (ValueError ''pre-release assessment changed acquisition'')
      else bind_res (evidence_time ''not_before'' not_before) (\<lambda>boundary.
           bind_res (evidence_time ''observed_at'' observed) (\<lambda>t.
             checkpoint_create cdg i (Some a) t (continuity_reason i a boundary t))))"

definition checkpoint_unproven ::
  "(ownership_checkpoint \<Rightarrow> string) \<Rightarrow> evidence_identity \<Rightarrow> unproven_reason \<Rightarrow> int option \<Rightarrow>
     ownership_checkpoint res" where
  "checkpoint_unproven cdg i reason observed =
     bind_res (evidence_time ''observed_at'' observed) (\<lambda>t. checkpoint_create cdg i None t (Some reason))"

section \<open>Record\<close>

definition evidence_shape :: "evidence \<Rightarrow> (bool \<times> string) list" where
  "evidence_shape r =
     (let other_identity = (\<lambda>d. d \<noteq> di_digest (dev_identity r)) in
      case dev_state r of
        DE_BUNDLE_PERSISTED \<Rightarrow>
          [(dev_revision r \<noteq> 1 \<or> dev_start r \<noteq> None \<or> dev_observation r \<noteq> None \<or> dev_checkpoint r \<noteq> None,
            ''bundle-persisted dispatch evidence shape is invalid'')]
      | DE_DISPATCH_STARTED \<Rightarrow>
          [((case dev_start r of None \<Rightarrow> True | Some s \<Rightarrow> other_identity (dst_identity s)) \<or>
              dev_observation r \<noteq> None \<or> dev_checkpoint r \<noteq> None,
            ''dispatch-started evidence shape is invalid'')]
      | DE_DISPATCH_OBSERVED \<Rightarrow>
          [(dev_start r = None \<or>
              (case dev_observation r of None \<Rightarrow> True | Some ob \<Rightarrow> other_identity (dob_identity ob)) \<or>
              dev_checkpoint r \<noteq> None, ''dispatch-observed evidence shape is invalid'')]
      | DE_PRE_RELEASE \<Rightarrow>
          [(dev_start r = None \<or> dev_observation r = None \<or>
              (case dev_checkpoint r of None \<Rightarrow> True | Some c \<Rightarrow> other_identity (dpc_identity c)),
            ''pre-release dispatch evidence shape is invalid'')])"

text \<open>The payload that the check of a record hashes keeps the key set of its identity's revision.\<close>

definition revision_safe_body :: "evidence \<Rightarrow> bool \<times> evidence" where
  "revision_safe_body r = (binds_provenance_keys (dev_identity r), r\<lparr>dev_digest := []\<rparr>)"

definition evidence_checks :: "(bool \<times> evidence \<Rightarrow> string) \<Rightarrow> evidence \<Rightarrow> (bool \<times> string) list" where
  "evidence_checks rdg r =
     [(sb_digest (dev_bundle r) \<noteq> di_bundle (dev_identity r), ''safeguard dispatch evidence bundle changed''),
      (dev_revision r < 1, ''safeguard dispatch evidence revision MUST be positive'')] @
     (if dev_revision r = 1 then
        [(dev_prior r \<noteq> None, ''initial safeguard dispatch evidence has predecessor'')]
      else
        [(dev_prior r = None, ''safeguard dispatch evidence transition lacks predecessor''),
         optional_check (evidence_digest_check ''prior_record_digest'') (dev_prior r)]) @
     evidence_shape r @
     [evidence_digest_check ''record_digest'' (dev_digest r),
      (dev_digest r \<noteq> rdg (revision_safe_body r), ''safeguard dispatch evidence record digest mismatched'')]"

definition evidence_init :: "(bool \<times> evidence \<Rightarrow> string) \<Rightarrow> evidence \<Rightarrow> evidence res" where
  "evidence_init rdg r = bind_res (first_failure (evidence_checks rdg r)) (\<lambda>_. Inr r)"

text \<open>The builder hashes the whole identity, provenance keys included.\<close>

definition build_evidence :: "(bool \<times> evidence \<Rightarrow> string) \<Rightarrow> evidence \<Rightarrow> evidence res" where
  "build_evidence rdg r = (let r = r\<lparr>dev_digest := []\<rparr> in evidence_init rdg (r\<lparr>dev_digest := rdg (True, r)\<rparr>))"

text \<open>A record as \<open>_build_record\<close> starts it, with the optional arguments at their defaults.\<close>

definition blank_evidence ::
  "evidence_identity \<Rightarrow> safeguard_bundle \<Rightarrow> evidence_state \<Rightarrow> int \<Rightarrow> string option \<Rightarrow> int \<Rightarrow> evidence" where
  "blank_evidence i b state revision prior changed =
     \<lparr>dev_identity = i, dev_bundle = b, dev_state = state, dev_revision = revision, dev_prior = prior,
      dev_start = None, dev_observation = None, dev_checkpoint = None, dev_changed_at = changed, dev_digest = []\<rparr>"

section \<open>The gate before the provider call\<close>

text \<open>The receipt of a reservation that went from reserved to in flight for this attempt, current at \<open>t\<close>.\<close>

definition reservation_in_flight :: "evidence_identity \<Rightarrow> reservation_receipt \<Rightarrow> int \<Rightarrow> bool" where
  "reservation_in_flight i rec t =
     ((case rt_prior rec of
         None \<Rightarrow> False
       | Some p \<Rightarrow> rs_state p = RESERVED \<and> record_digest p = di_reservation_record i \<and>
           rs_revision p = di_reservation_revision i) \<and>
      rs_state (rt_record rec) = IN_FLIGHT \<and>
      identity_digest (rs_identity (rt_record rec)) = di_reservation i \<and>
      rc_attempt (ri_receipt (rs_identity (rt_record rec))) = di_attempt i \<and>
      (case dispatch_started_at (rt_record rec) of None \<Rightarrow> False | Some d \<Rightarrow> d \<le> t) \<and>
      rt_recorded_at rec \<le> t \<and> t < lease_expires_at (rt_record rec))"

definition fence_prepared_for :: "evidence_identity \<Rightarrow> fence \<Rightarrow> bool" where
  "fence_prepared_for i p =
     (tf_state p = TF_PREPARED \<and> tf_identity_digest (tf_identity p) = di_fence_identity i \<and>
      tf_prior p = Some (di_fence_record i) \<and> tf_revision p = di_fence_revision i + 1 \<and>
      tf_audit p = Some (di_audit i) \<and> tf_bundle p = Some (di_bundle i))"

definition fence_in_flight_for :: "evidence_identity \<Rightarrow> fence \<Rightarrow> fence \<Rightarrow> int \<Rightarrow> bool" where
  "fence_in_flight_for i p f t =
     (tf_state f = TF_IN_FLIGHT \<and> tf_identity f = tf_identity p \<and> tf_prior f = Some (tf_digest p) \<and>
      tf_revision f = tf_revision p + 1 \<and> tf_audit f = tf_audit p \<and> tf_bundle f = tf_bundle p \<and>
      tf_changed_at p \<le> tf_changed_at f \<and> tf_changed_at f \<le> t \<and>
      t < di_lease_expires_at i \<and> t < di_assessment_until i)"

definition validate_dispatch_start ::
  "evidence_receipt \<Rightarrow> reservation_receipt \<Rightarrow> fence \<Rightarrow> fence \<Rightarrow> int option \<Rightarrow> unit res" where
  "validate_dispatch_start br rec prepared in_flight started =
     bind_res (first_failure
       [(dtr_prior br \<noteq> None \<or> dev_state (dtr_record br) \<noteq> DE_BUNDLE_PERSISTED,
          ''dispatch start requires authoritative persisted safeguard bundle'')]) (\<lambda>_.
     let i = dev_identity (dtr_record br) in
     bind_res (evidence_time ''started_at'' started) (\<lambda>t. first_failure
       [(\<not> reservation_in_flight i rec t, ''dispatch start requires current in-flight reservation''),
        (\<not> fence_prepared_for i prepared \<or> tf_changed_at prepared < dtr_recorded_at br,
          ''dispatch start requires exact prepared fence''),
        (\<not> fence_in_flight_for i prepared in_flight t \<or> tf_audit in_flight \<noteq> Some (di_audit i) \<or>
           tf_bundle in_flight \<noteq> Some (di_bundle i),
          ''dispatch start requires exact current in-flight fence'')]))"

definition start_checks :: "(start_checkpoint \<Rightarrow> string) \<Rightarrow> start_checkpoint \<Rightarrow> (bool \<times> string) list" where
  "start_checks sdg s =
     [evidence_digest_check ''evidence_identity_digest'' (dst_identity s),
      evidence_digest_check ''bundle_record_digest'' (dst_bundle_record s),
      evidence_digest_check ''bundle_persistence_receipt_digest'' (dst_bundle_receipt s),
      (dst_bundle_revision s < 1, ''safeguard dispatch-start bundle revision MUST be positive''),
      evidence_digest_check ''checkpoint_digest'' (dst_digest s),
      (dst_digest s \<noteq> sdg (s\<lparr>dst_digest := []\<rparr>), ''safeguard dispatch-start checkpoint digest mismatched'')]"

definition start_init :: "(start_checkpoint \<Rightarrow> string) \<Rightarrow> start_checkpoint \<Rightarrow> start_checkpoint res" where
  "start_init sdg s = bind_res (first_failure (start_checks sdg s)) (\<lambda>_. Inr s)"

text \<open>The started time is normalised twice in the code, by the gate and by the checkpoint's own check.\<close>

definition start_create ::
  "(start_checkpoint \<Rightarrow> string) \<Rightarrow> evidence_receipt \<Rightarrow> reservation_receipt \<Rightarrow> fence \<Rightarrow> fence \<Rightarrow> int option \<Rightarrow>
     start_checkpoint res" where
  "start_create sdg br rec prepared in_flight started =
     bind_res (first_failure
       [(dtr_prior br \<noteq> None, ''dispatch start requires authoritative bundle persistence'')]) (\<lambda>_.
     bind_res (validate_dispatch_start br rec prepared in_flight started) (\<lambda>_.
     bind_res (evidence_time ''dispatch_started_at'' started) (\<lambda>t.
       let r = dtr_record br;
           s = \<lparr>dst_identity = di_digest (dev_identity r), dst_bundle_record = dev_digest r,
                dst_bundle_revision = dev_revision r, dst_bundle_receipt = dtr_digest br,
                dst_reservation = rec, dst_prepared = prepared, dst_in_flight = in_flight,
                dst_started_at = t, dst_digest = []\<rparr>
       in start_init sdg (s\<lparr>dst_digest := sdg s\<rparr>))))"

section \<open>Transitions\<close>

definition start_edge_checks :: "evidence \<Rightarrow> evidence \<Rightarrow> (bool \<times> string) list" where
  "start_edge_checks p c =
     (case dev_start c of
        None \<Rightarrow> [(True, ''dispatch-start evidence edge is invalid'')]
      | Some s \<Rightarrow>
          [(dev_observation c \<noteq> None \<or> dev_checkpoint c \<noteq> None \<or>
              dst_identity s \<noteq> di_digest (dev_identity p) \<or> dst_bundle_record s \<noteq> dev_digest p \<or>
              dst_bundle_revision s \<noteq> dev_revision p \<or> dev_changed_at c < dst_started_at s,
            ''dispatch-start evidence edge is invalid''),
           (\<not> reservation_in_flight (dev_identity p) (dst_reservation s) (dst_started_at s),
            ''dispatch-start reservation lineage is invalid''),
           (\<not> fence_prepared_for (dev_identity p) (dst_prepared s) \<or>
              \<not> fence_in_flight_for (dev_identity p) (dst_prepared s) (dst_in_flight s) (dst_started_at s),
            ''dispatch-start target fence lineage is invalid'')])"

definition observation_edge_checks :: "evidence \<Rightarrow> evidence \<Rightarrow> (bool \<times> string) list" where
  "observation_edge_checks p c =
     [((case (dev_start p, dev_observation c) of
          (Some s, Some ob) \<Rightarrow>
            dev_start c \<noteq> Some s \<or> dev_checkpoint c \<noteq> None \<or>
            dob_bundle_record ob \<noteq> dst_bundle_record s \<or> dob_bundle_revision ob \<noteq> dst_bundle_revision s \<or>
            dob_start_record ob \<noteq> dev_digest p \<or> dob_start_revision ob \<noteq> dev_revision p \<or>
            dob_reservation ob \<noteq> rt_digest (dst_reservation s) \<or>
            dob_fence_record ob \<noteq> tf_digest (dst_in_flight s) \<or>
            dob_fence_revision ob \<noteq> tf_revision (dst_in_flight s) \<or>
            dob_started_at ob \<noteq> dst_started_at s \<or> dev_changed_at c < dob_observed_at ob
        | _ \<Rightarrow> True), ''dispatch observation edge is invalid'')]"

definition pre_release_assessment_ok :: "evidence \<Rightarrow> ownership_assessment option \<Rightarrow> bool" where
  "pre_release_assessment_ok r a =
     (case (dev_checkpoint r, dev_observation r, a) of
        (Some c, Some ob, Some x) \<Rightarrow>
          dev_state r = DE_PRE_RELEASE \<and> dpc_continuity c = PR_CURRENT \<and>
          Some (la_digest x) = dpc_assessment c \<and>
          rc_receipt_digest (la_receipt x) = di_acquisition (dev_identity r) \<and>
          same_verifier x (dev_identity r) \<and> dob_observed_at ob \<le> la_evaluated_at x \<and>
          Some (la_evaluated_at x) = dpc_evaluated_at c \<and> Some (la_valid_until x) = dpc_valid_until c \<and>
          dev_changed_at r < la_valid_until x
      | _ \<Rightarrow> False)"

definition validate_pre_release_assessment :: "evidence \<Rightarrow> ownership_assessment option \<Rightarrow> unit res" where
  "validate_pre_release_assessment r a =
     bind_res (first_failure
       [(\<not> pre_release_assessment_ok r a, ''pre-release current assessment is not exact'')]) (\<lambda>_.
     case a of None \<Rightarrow> Inr ()
     | Some x \<Rightarrow> bind_res (require_current_ownership x (Some (dev_changed_at r))) (\<lambda>_. Inr ()))"

definition validate_pre_release_edge :: "evidence \<Rightarrow> ownership_assessment option \<Rightarrow> unit res" where
  "validate_pre_release_edge r a =
     (case (dev_checkpoint r, dev_observation r) of
        (Some c, Some ob) \<Rightarrow>
          bind_res (first_failure
            [(dpc_identity c \<noteq> di_digest (dev_identity r) \<or> dpc_acquisition c \<noteq> di_acquisition (dev_identity r) \<or>
                dpc_observed_at c < dob_observed_at ob \<or> dev_changed_at r < dpc_observed_at c,
              ''pre-release checkpoint edge is invalid'')]) (\<lambda>_.
          if dpc_continuity c = PR_CURRENT then
            bind_res (first_failure
              [(dpc_assessment c = None \<or> dpc_verifier_id c \<noteq> Some (di_verifier_id (dev_identity r)) \<or>
                  dpc_verifier_version c \<noteq> Some (di_verifier_version (dev_identity r)) \<or>
                  dpc_trust_anchor c \<noteq> Some (di_trust_anchor (dev_identity r)) \<or>
                  (case dpc_evaluated_at c of None \<Rightarrow> True | Some e \<Rightarrow> e < dob_observed_at ob) \<or>
                  (case dpc_valid_until c of None \<Rightarrow> True | Some u \<Rightarrow> dev_changed_at r \<ge> u),
                ''pre-release current ownership edge is invalid'')])
              (\<lambda>_. validate_pre_release_assessment r a)
          else first_failure
            [(a \<noteq> None, ''continuity-unproven edge cannot carry current assessment'')])
      | _ \<Rightarrow> Inl (ValueError ''pre-release checkpoint edge is invalid''))"

definition validate_evidence_transition ::
  "evidence \<Rightarrow> evidence \<Rightarrow> ownership_assessment option \<Rightarrow> unit res" where
  "validate_evidence_transition p c a =
     bind_res (first_failure
       [(dev_identity c \<noteq> dev_identity p \<or> dev_bundle c \<noteq> dev_bundle p \<or> dev_revision c \<noteq> dev_revision p + 1 \<or>
           dev_prior c \<noteq> Some (dev_digest p) \<or> dev_changed_at c < dev_changed_at p,
         ''safeguard dispatch evidence predecessor mismatched'')]) (\<lambda>_.
     if dev_state p = DE_BUNDLE_PERSISTED \<and> dev_state c = DE_DISPATCH_STARTED then
       first_failure ((a \<noteq> None, ''dispatch-start edge cannot carry pre-release assessment'') #
         start_edge_checks p c)
     else if dev_state p = DE_DISPATCH_STARTED \<and> dev_state c = DE_DISPATCH_OBSERVED then
       first_failure ((a \<noteq> None, ''dispatch-observation edge cannot carry pre-release assessment'') #
         observation_edge_checks p c)
     else if dev_state p = DE_DISPATCH_OBSERVED \<and> dev_state c = DE_PRE_RELEASE \<and>
         dev_start c = dev_start p \<and> dev_observation c = dev_observation p then
       validate_pre_release_edge c a
     else Inl (ValueError ''safeguard dispatch evidence transition edge is invalid''))"

section \<open>The steps of the record\<close>

definition create_bundle_persisted ::
  "(bool \<times> evidence \<Rightarrow> string) \<Rightarrow> evidence_identity \<Rightarrow> fence \<Rightarrow> safeguard_bundle \<Rightarrow> int option \<Rightarrow> evidence res" where
  "create_bundle_persisted rdg i preparing b persisted =
     bind_res (evidence_time ''persisted_at'' persisted) (\<lambda>t.
     if t < sb_recorded_at b \<or> t < tf_changed_at preparing \<or> t \<ge> di_lease_expires_at i \<or> t \<ge> di_assessment_until i
     then Inl (ValueError ''safeguard bundle persistence is backdated'')
     else build_evidence rdg (blank_evidence i b DE_BUNDLE_PERSISTED 1 None t))"

definition record_dispatch_start ::
  "evidence_digests \<Rightarrow> evidence \<Rightarrow> evidence_receipt \<Rightarrow> reservation_receipt \<Rightarrow> fence \<Rightarrow> fence \<Rightarrow> int option \<Rightarrow>
     int option \<Rightarrow> evidence res" where
  "record_dispatch_start H r br rec prepared in_flight started changed =
     bind_res (first_failure
       [(dev_state r \<noteq> DE_BUNDLE_PERSISTED, ''safeguard dispatch evidence is not bundle-persisted'')]) (\<lambda>_.
     bind_res (start_create (h_start H) br rec prepared in_flight started) (\<lambda>s.
     bind_res (first_failure
       [(dtr_record br \<noteq> r \<or> dst_identity s \<noteq> di_digest (dev_identity r),
          ''safeguard dispatch start changed persisted bundle'')]) (\<lambda>_.
     bind_res (evidence_time ''changed_at'' changed) (\<lambda>t.
     if t < dst_started_at s \<or> t < dev_changed_at r
     then Inl (ValueError ''safeguard dispatch-start transition is backdated'')
     else build_evidence (h_record H)
       ((blank_evidence (dev_identity r) (dev_bundle r) DE_DISPATCH_STARTED (dev_revision r + 1)
           (Some (dev_digest r)) t)\<lparr>dev_start := Some s\<rparr>)))))"

definition record_dispatch_observation ::
  "evidence_digests \<Rightarrow> evidence \<Rightarrow> dispatch_observation \<Rightarrow> int option \<Rightarrow> evidence res" where
  "record_dispatch_observation H r ob changed =
     bind_res (first_failure
       [(dev_state r \<noteq> DE_DISPATCH_STARTED, ''safeguard dispatch evidence has no durable dispatch start''),
        (dob_identity ob \<noteq> di_digest (dev_identity r), ''safeguard dispatch observation changed identity''),
        (dob_start_record ob \<noteq> dev_digest r \<or> dob_start_revision ob \<noteq> dev_revision r,
          ''safeguard dispatch observation changed dispatch start'')]) (\<lambda>_.
     bind_res (evidence_time ''changed_at'' changed) (\<lambda>t.
     if t < dob_observed_at ob \<or> t < dev_changed_at r
     then Inl (ValueError ''safeguard dispatch observation transition is backdated'')
     else build_evidence (h_record H)
       ((blank_evidence (dev_identity r) (dev_bundle r) DE_DISPATCH_OBSERVED (dev_revision r + 1)
           (Some (dev_digest r)) t)\<lparr>dev_start := dev_start r, dev_observation := Some ob\<rparr>)))"

definition record_pre_release ::
  "evidence_digests \<Rightarrow> evidence \<Rightarrow> ownership_checkpoint \<Rightarrow> ownership_assessment option \<Rightarrow> int option \<Rightarrow>
     evidence res" where
  "record_pre_release H r c a changed =
     bind_res (first_failure
       [(dev_state r \<noteq> DE_DISPATCH_OBSERVED, ''safeguard dispatch evidence has no dispatch observation''),
        (dpc_identity c \<noteq> di_digest (dev_identity r), ''pre-release checkpoint changed evidence identity''),
        ((case dev_observation r of None \<Rightarrow> True | Some ob \<Rightarrow> dpc_observed_at c < dob_observed_at ob),
          ''pre-release checkpoint predates dispatch'')]) (\<lambda>_.
     bind_res (evidence_time ''changed_at'' changed) (\<lambda>t.
     bind_res (first_failure
       [(dpc_continuity c = PR_CURRENT \<and>
           (case (dpc_evaluated_at c, dpc_valid_until c, dev_observation r) of
              (Some e, Some u, Some ob) \<Rightarrow> e < dob_observed_at ob \<or> t \<ge> u
            | _ \<Rightarrow> True), ''pre-release ownership assessment is not current''),
        (t < dpc_observed_at c \<or> t < dev_changed_at r,
          ''pre-release checkpoint transition is backdated'')]) (\<lambda>_.
     bind_res (build_evidence (h_record H)
       ((blank_evidence (dev_identity r) (dev_bundle r) DE_PRE_RELEASE (dev_revision r + 1)
           (Some (dev_digest r)) t)
         \<lparr>dev_start := dev_start r, dev_observation := dev_observation r, dev_checkpoint := Some c\<rparr>)) (\<lambda>current.
     bind_res (validate_evidence_transition r current a) (\<lambda>_. Inr current)))))"

section \<open>Receipts and results\<close>

definition evidence_receipt_prior :: "evidence_receipt \<Rightarrow> unit res" where
  "evidence_receipt_prior t =
     (let r = dtr_record t in
      case dtr_prior t of
        None \<Rightarrow> first_failure
          [(dev_revision r \<noteq> 1 \<or> dev_prior r \<noteq> None \<or> dev_state r \<noteq> DE_BUNDLE_PERSISTED,
             ''initial safeguard dispatch transition is invalid''),
           (dtr_bundle_receipt t \<noteq> None \<or> dtr_assessment t \<noteq> None,
             ''initial safeguard dispatch transition has prerequisites'')]
      | Some p \<Rightarrow>
          bind_res (validate_evidence_transition p r (dtr_assessment t)) (\<lambda>_. first_failure
            (if dev_state r = DE_DISPATCH_STARTED then
               [((case (dtr_bundle_receipt t, dev_start r) of
                    (Some q, Some s) \<Rightarrow>
                      dtr_prior q \<noteq> None \<or> dtr_record q \<noteq> p \<or> dst_bundle_receipt s \<noteq> dtr_digest q
                  | _ \<Rightarrow> True), ''dispatch-start transition lacks bundle persistence receipt'')]
             else
               [(dtr_bundle_receipt t \<noteq> None, ''non-start transition has bundle persistence receipt'')])))"

definition blank_receipt :: "evidence_receipt \<Rightarrow> evidence_receipt" where
  "blank_receipt t = EvidenceReceipt (dtr_prior t) (dtr_record t) (dtr_bundle_receipt t) (dtr_assessment t)
     (dtr_store_digest t) (dtr_recorded_at t) []"

definition evidence_receipt_init ::
  "(evidence_receipt \<Rightarrow> string) \<Rightarrow> evidence_receipt \<Rightarrow> evidence_receipt res" where
  "evidence_receipt_init tdg t =
     bind_res (evidence_receipt_prior t) (\<lambda>_.
     bind_res (first_failure
       [evidence_digest_check ''store_receipt_digest'' (dtr_store_digest t),
        (dtr_recorded_at t < dev_changed_at (dtr_record t) \<or>
           (case dtr_prior t of None \<Rightarrow> False | Some p \<Rightarrow> dtr_recorded_at t < dev_changed_at p),
          ''safeguard dispatch transition receipt is backdated''),
        evidence_digest_check ''receipt_digest'' (dtr_digest t),
        (dtr_digest t \<noteq> tdg (blank_receipt t), ''safeguard dispatch transition receipt digest mismatched'')])
       (\<lambda>_. Inr t))"

definition evidence_receipt_create ::
  "(evidence_receipt \<Rightarrow> string) \<Rightarrow> evidence option \<Rightarrow> evidence \<Rightarrow> evidence_receipt option \<Rightarrow>
     ownership_assessment option \<Rightarrow> string \<Rightarrow> int option \<Rightarrow> evidence_receipt res" where
  "evidence_receipt_create tdg prior r br a store_digest recorded =
     bind_res (evidence_time ''recorded_at'' recorded) (\<lambda>t.
       evidence_receipt_init tdg (EvidenceReceipt prior r br a store_digest t
         (tdg (EvidenceReceipt prior r br a store_digest t []))))"

datatype persistence_decision = PD_PERSISTED | PD_DUPLICATE_SAME | PD_CONFLICT

record persistence_result =
  dps_candidate :: evidence_identity
  dps_decision :: persistence_decision
  dps_observed :: evidence
  dps_receipt :: "evidence_receipt option"

definition classify_evidence :: "evidence \<Rightarrow> evidence_identity \<Rightarrow> persistence_decision res" where
  "classify_evidence existing candidate =
     (if di_target (dev_identity existing) \<noteq> di_target candidate \<or>
         di_generation (dev_identity existing) \<noteq> di_generation candidate
      then Inl (ValueError ''safeguard dispatch persistence key mismatched'')
      else Inr (if di_digest (dev_identity existing) = di_digest candidate then PD_DUPLICATE_SAME else PD_CONFLICT))"

definition persistence_result_init :: "persistence_result \<Rightarrow> persistence_result res" where
  "persistence_result_init s =
     (if dps_decision s = PD_PERSISTED then
        bind_res (first_failure
          [((case dps_receipt s of
               None \<Rightarrow> True
             | Some t \<Rightarrow> dtr_prior t \<noteq> None \<or> dtr_record t \<noteq> dps_observed s) \<or>
              dev_identity (dps_observed s) \<noteq> dps_candidate s,
            ''persisted safeguard dispatch evidence requires insert receipt'')]) (\<lambda>_. Inr s)
      else
        bind_res (first_failure
          [(dps_receipt s \<noteq> None, ''observed safeguard dispatch evidence MUST NOT claim persistence'')]) (\<lambda>_.
        bind_res (classify_evidence (dps_observed s) (dps_candidate s)) (\<lambda>expected.
          if dps_decision s \<noteq> expected
          then Inl (ValueError ''safeguard dispatch persistence result mismatched candidate'')
          else Inr s)))"

section \<open>Stores\<close>

text \<open>A store maps a target and a fence generation to the current record.\<close>

type_synonym evidence_store = "string \<times> int \<Rightarrow> evidence option"

definition evidence_key :: "evidence \<Rightarrow> string \<times> int" where
  "evidence_key r = (di_target (dev_identity r), di_generation (dev_identity r))"

text \<open>
  The PostgreSQL store: each operation is one transaction, rolled back by any exception. \<open>recorded\<close> is the
  later of the write and the readback time, and \<open>sdg\<close> the digest of the readback evidence. The row read
  back is the record written.
\<close>

definition pg_persist ::
  "(evidence_receipt \<Rightarrow> string) \<Rightarrow> (evidence \<Rightarrow> int \<Rightarrow> string) \<Rightarrow> int \<Rightarrow> evidence \<Rightarrow> evidence_store \<Rightarrow>
     persistence_result res \<times> evidence_store" where
  "pg_persist tdg sdg recorded r st =
     (if dev_state r \<noteq> DE_BUNDLE_PERSISTED \<or> dev_revision r \<noteq> 1 \<or> dev_prior r \<noteq> None
      then (Inl (ValueError ''PostgreSQL safeguard dispatch insert requires revision-one bundle evidence''), st)
      else case st (evidence_key r) of
          Some existing \<Rightarrow>
            (bind_res (classify_evidence existing (dev_identity r)) (\<lambda>d.
               persistence_result_init \<lparr>dps_candidate = dev_identity r, dps_decision = d,
                 dps_observed = existing, dps_receipt = None\<rparr>), st)
        | None \<Rightarrow>
            (case bind_res (evidence_receipt_create tdg None r None None (sdg r recorded) (Some recorded)) (\<lambda>t.
                persistence_result_init \<lparr>dps_candidate = dev_identity r, dps_decision = PD_PERSISTED,
                  dps_observed = r, dps_receipt = Some t\<rparr>) of
               Inl e \<Rightarrow> (Inl e, st)
             | Inr s \<Rightarrow> (Inr s, st(evidence_key r \<mapsto> r))))"

definition evidence_cas_matches :: "string \<Rightarrow> int \<Rightarrow> evidence \<Rightarrow> bool" where
  "evidence_cas_matches digest expected p = (dev_digest p = digest \<and> dev_revision p = expected)"

text \<open>The bundle receipt a compare-and-set has to come with.\<close>

definition start_receipt_checks ::
  "evidence \<Rightarrow> evidence \<Rightarrow> evidence_receipt option \<Rightarrow> (bool \<times> string) list" where
  "start_receipt_checks p r br =
     (if dev_state r = DE_DISPATCH_STARTED then
        [((case (br, dev_start r) of
             (Some q, Some s) \<Rightarrow> dtr_prior q \<noteq> None \<or> dtr_record q \<noteq> p \<or> dst_bundle_receipt s \<noteq> dtr_digest q
           | _ \<Rightarrow> True), ''PostgreSQL dispatch-start CAS requires bundle persistence receipt'')]
      else [(br \<noteq> None, ''PostgreSQL non-start CAS received bundle persistence receipt'')])"

definition pg_evidence_transition ::
  "(evidence_receipt \<Rightarrow> string) \<Rightarrow> (evidence \<Rightarrow> int \<Rightarrow> string) \<Rightarrow> string \<Rightarrow> int \<Rightarrow> int \<Rightarrow> evidence \<Rightarrow>
     evidence_receipt option \<Rightarrow> ownership_assessment option \<Rightarrow> evidence_store \<Rightarrow>
     evidence_receipt res \<times> evidence_store" where
  "pg_evidence_transition tdg sdg digest expected recorded r br a st =
     (case st (evidence_key r) of
        None \<Rightarrow> (Inl (RuntimeError ''PostgreSQL safeguard dispatch evidence is unavailable''), st)
      | Some p \<Rightarrow>
          (if \<not> evidence_cas_matches digest expected p
           then (Inl (RuntimeError ''PostgreSQL safeguard dispatch predecessor changed''), st)
           else case bind_res (validate_evidence_transition p r a) (\<lambda>_.
                bind_res (first_failure (start_receipt_checks p r br)) (\<lambda>_.
                evidence_receipt_create tdg (Some p) r br a (sdg r recorded) (Some recorded))) of
               Inl e \<Rightarrow> (Inl e, st)
             | Inr t \<Rightarrow> (Inr t, st(evidence_key r \<mapsto> r))))"

text \<open>
  The in-memory store: it checks the state of a new bundle, but it writes a record before the receipt's
  checks, and the record stays if they fail. \<open>mdg\<close> digests a tag with the record's digest.
\<close>

definition memory_persist ::
  "(evidence_receipt \<Rightarrow> string) \<Rightarrow> (string \<Rightarrow> string \<Rightarrow> string) \<Rightarrow> evidence \<Rightarrow> evidence_store \<Rightarrow>
     persistence_result res \<times> evidence_store" where
  "memory_persist tdg mdg r st =
     (if dev_state r \<noteq> DE_BUNDLE_PERSISTED
      then (Inl (ValueError ''in-memory evidence store requires bundle-persisted state''), st)
      else case st (evidence_key r) of
          Some existing \<Rightarrow>
            (bind_res (classify_evidence existing (dev_identity r)) (\<lambda>d.
               persistence_result_init \<lparr>dps_candidate = dev_identity r, dps_decision = d,
                 dps_observed = existing, dps_receipt = None\<rparr>), st)
        | None \<Rightarrow>
            (bind_res (evidence_receipt_create tdg None r None None (mdg ''memory-safeguard'' (dev_digest r))
                 (Some (dev_changed_at r))) (\<lambda>t.
               persistence_result_init \<lparr>dps_candidate = dev_identity r, dps_decision = PD_PERSISTED,
                 dps_observed = r, dps_receipt = Some t\<rparr>), st(evidence_key r \<mapsto> r)))"

definition memory_evidence_transition ::
  "(evidence_receipt \<Rightarrow> string) \<Rightarrow> (string \<Rightarrow> string \<Rightarrow> string) \<Rightarrow> string \<Rightarrow> int \<Rightarrow> evidence \<Rightarrow>
     evidence_receipt option \<Rightarrow> ownership_assessment option \<Rightarrow> evidence_store \<Rightarrow>
     evidence_receipt res \<times> evidence_store" where
  "memory_evidence_transition tdg mdg digest expected r br a st =
     (case st (evidence_key r) of
        None \<Rightarrow> (Inl (RuntimeError ''in-memory safeguard predecessor changed''), st)
      | Some p \<Rightarrow>
          (if \<not> evidence_cas_matches digest expected p
           then (Inl (RuntimeError ''in-memory safeguard predecessor changed''), st)
           else (evidence_receipt_create tdg (Some p) r br a (mdg ''memory-safeguard-cas'' (dev_digest r))
               (Some (dev_changed_at r)), st(evidence_key r \<mapsto> r))))"

section \<open>Every step is a legal transition\<close>

definition valid_evidence :: "evidence_digests \<Rightarrow> evidence \<Rightarrow> bool" where
  "valid_evidence H r = (evidence_init (h_record H) r = Inr r)"

lemma evidence_time_Inr [simp]:
  "evidence_time name v = Inr t \<longleftrightarrow> v = Some t" "evidence_time name (Some t) = Inr t"
  by (auto simp: evidence_time_def split: option.splits)

lemma valid_evidence_checks:
  "valid_evidence H r \<longleftrightarrow> list_all (\<lambda>c. \<not> fst c) (evidence_checks (h_record H) r)"
proof -
  have "valid_evidence H r \<longleftrightarrow> first_failure (evidence_checks (h_record H) r) = Inr ()"
    by (cases "first_failure (evidence_checks (h_record H) r)") (simp_all add: valid_evidence_def evidence_init_def)
  then show ?thesis by (simp add: first_failure_ok)
qed

lemma valid_evidence_shape: "valid_evidence H r \<Longrightarrow> list_all (\<lambda>c. \<not> fst c) (evidence_shape r)"
  by (simp add: valid_evidence_checks evidence_checks_def)

lemma build_evidence_Inr:
  "build_evidence (h_record H) r = Inr r' \<Longrightarrow> valid_evidence H r' \<and> (\<exists>d. r' = r\<lparr>dev_digest := d\<rparr>)"
  by (auto simp: build_evidence_def Let_def evidence_init_def bind_res_Inr valid_evidence_def)

text \<open>One step of a record, with the assessment a compare-and-set of it carries.\<close>

inductive evidence_next ::
  "evidence_digests \<Rightarrow> evidence \<Rightarrow> ownership_assessment option \<Rightarrow> evidence \<Rightarrow> bool" for H r where
  en_start: "record_dispatch_start H r br rec prepared in_flight started changed = Inr r' \<Longrightarrow>
     evidence_next H r None r'"
| en_observe: "observation_create (h_observation H) r transport sink operation status observed = Inr ob \<Longrightarrow>
     record_dispatch_observation H r ob changed = Inr r' \<Longrightarrow> evidence_next H r None r'"
| en_pre_release: "record_pre_release H r c a changed = Inr r' \<Longrightarrow> evidence_next H r a r'"

lemma record_dispatch_start_Inr:
  assumes "record_dispatch_start H r br rec prepared in_flight started changed = Inr r'"
  obtains s t where "started = Some (dst_started_at s)" "changed = Some t" "dst_started_at s \<le> t"
    "dev_changed_at r \<le> t" "dev_state r = DE_BUNDLE_PERSISTED" "dtr_prior br = None" "dtr_record br = r"
    "valid_evidence H r'" "dev_identity r' = dev_identity r" "dev_bundle r' = dev_bundle r"
    "dev_state r' = DE_DISPATCH_STARTED" "dev_revision r' = dev_revision r + 1"
    "dev_prior r' = Some (dev_digest r)" "dev_start r' = Some s" "dev_observation r' = None"
    "dev_checkpoint r' = None" "dev_changed_at r' = t"
    "dst_identity s = di_digest (dev_identity r)" "dst_bundle_record s = dev_digest r"
    "dst_bundle_revision s = dev_revision r" "dst_bundle_receipt s = dtr_digest br"
    "dst_reservation s = rec" "dst_prepared s = prepared" "dst_in_flight s = in_flight"
    "reservation_in_flight (dev_identity r) rec (dst_started_at s)"
    "fence_prepared_for (dev_identity r) prepared" "dtr_recorded_at br \<le> tf_changed_at prepared"
    "fence_in_flight_for (dev_identity r) prepared in_flight (dst_started_at s)"
proof -
  from assms obtain s t where st: "dev_state r = DE_BUNDLE_PERSISTED"
    and s: "start_create (h_start H) br rec prepared in_flight started = Inr s"
    and br: "dtr_record br = r" and t: "changed = Some t" "dst_started_at s \<le> t" "dev_changed_at r \<le> t"
    and b: "build_evidence (h_record H) ((blank_evidence (dev_identity r) (dev_bundle r) DE_DISPATCH_STARTED
        (dev_revision r + 1) (Some (dev_digest r)) t)\<lparr>dev_start := Some s\<rparr>) = Inr r'"
    by (auto simp: record_dispatch_start_def bind_res_Inr split: if_splits)
  from build_evidence_Inr [OF b] obtain d where v: "valid_evidence H r'"
    and r': "r' = (blank_evidence (dev_identity r) (dev_bundle r) DE_DISPATCH_STARTED
        (dev_revision r + 1) (Some (dev_digest r)) t)\<lparr>dev_start := Some s, dev_digest := d\<rparr>" by auto
  from s obtain u where u: "started = Some u" "dtr_prior br = None"
    and g: "validate_dispatch_start br rec prepared in_flight (Some u) = Inr ()"
    and su: "\<exists>d. s = \<lparr>dst_identity = di_digest (dev_identity r), dst_bundle_record = dev_digest r,
                dst_bundle_revision = dev_revision r, dst_bundle_receipt = dtr_digest br,
                dst_reservation = rec, dst_prepared = prepared, dst_in_flight = in_flight,
                dst_started_at = u, dst_digest = d\<rparr>"
    by (auto simp: start_create_def start_init_def bind_res_Inr Let_def br)
  from g have "reservation_in_flight (dev_identity r) rec u" "fence_prepared_for (dev_identity r) prepared"
    "dtr_recorded_at br \<le> tf_changed_at prepared" "fence_in_flight_for (dev_identity r) prepared in_flight u"
    by (auto simp: validate_dispatch_start_def bind_res_Inr Let_def br)
  with u su v r' st br t show ?thesis by (intro that [of s t]) (auto simp: blank_evidence_def)
qed

definition evidence_follows :: "evidence \<Rightarrow> evidence \<Rightarrow> bool" where
  "evidence_follows p r = (\<exists>a. validate_evidence_transition p r a = Inr ())"

lemma evidence_next_legal:
  assumes "evidence_next H r a r'"
  shows "validate_evidence_transition r r' a = Inr () \<and> valid_evidence H r' \<and> evidence_key r' = evidence_key r"
  using assms
proof cases
  case (en_start br rec prepared in_flight started changed)
  from this(2) show ?thesis
    by (rule record_dispatch_start_Inr)
      (use en_start(1) in \<open>simp add: validate_evidence_transition_def start_edge_checks_def evidence_key_def
          bind_res_Inr\<close>)
next
  case (en_observe transport sink operation status observed ob changed)
  from en_observe(2) obtain s where s: "dev_state r = DE_DISPATCH_STARTED" "dev_start r = Some s"
    and ob: "dob_bundle_record ob = dst_bundle_record s" "dob_bundle_revision ob = dst_bundle_revision s"
      "dob_start_record ob = dev_digest r" "dob_start_revision ob = dev_revision r"
      "dob_reservation ob = rt_digest (dst_reservation s)" "dob_fence_record ob = tf_digest (dst_in_flight s)"
      "dob_fence_revision ob = tf_revision (dst_in_flight s)" "dob_started_at ob = dst_started_at s"
    by (auto simp: observation_create_def observation_init_def bind_res_Inr Let_def
        split: evidence_state.splits option.splits if_splits)
  from en_observe(3) obtain t where t: "dob_observed_at ob \<le> t" "dev_changed_at r \<le> t"
    and b: "build_evidence (h_record H) ((blank_evidence (dev_identity r) (dev_bundle r) DE_DISPATCH_OBSERVED
        (dev_revision r + 1) (Some (dev_digest r)) t)\<lparr>dev_start := dev_start r, dev_observation := Some ob\<rparr>) = Inr r'"
    by (auto simp: record_dispatch_observation_def bind_res_Inr not_less split: if_splits)
  from build_evidence_Inr [OF b] s ob t show ?thesis
    by (auto simp: en_observe(1) validate_evidence_transition_def observation_edge_checks_def blank_evidence_def
        evidence_key_def bind_res_Inr)
next
  case en_pre_release
  then obtain t c where v: "validate_evidence_transition r r' a = Inr ()"
    and b: "build_evidence (h_record H) ((blank_evidence (dev_identity r) (dev_bundle r) DE_PRE_RELEASE (dev_revision r + 1)
           (Some (dev_digest r)) t)
         \<lparr>dev_start := dev_start r, dev_observation := dev_observation r, dev_checkpoint := Some c\<rparr>) = Inr r'"
    by (auto simp: record_pre_release_def bind_res_Inr)
  from build_evidence_Inr [OF b] v show ?thesis by (auto simp: evidence_key_def blank_evidence_def)
qed

section \<open>Histories of the durable store\<close>

text \<open>Callers hand over valid records, since no other can be constructed.\<close>

inductive evidence_write :: "evidence_digests \<Rightarrow> evidence_store \<Rightarrow> evidence_store \<Rightarrow> bool" for H where
  ew_persist: "valid_evidence H r \<Longrightarrow> pg_persist (h_receipt H) sdg recorded r st = (answer, st') \<Longrightarrow>
     evidence_write H st st'"
| ew_transition: "valid_evidence H r \<Longrightarrow>
     pg_evidence_transition (h_receipt H) sdg digest expected recorded r br a st = (answer, st') \<Longrightarrow>
     evidence_write H st st'"

abbreviation evidence_start :: "evidence_store \<times> (string \<times> int, evidence) history \<Rightarrow> bool" where
  "evidence_start \<equiv> history_start"

abbreviation evidence_step where
  "evidence_step H \<equiv> history_step (evidence_write H)"

definition evidence_initial :: "evidence \<Rightarrow> bool" where
  "evidence_initial r = (dev_state r = DE_BUNDLE_PERSISTED \<and> dev_revision r = 1 \<and> dev_prior r = None)"

lemma evidence_receipt_Inr:
  "evidence_receipt_create tdg prior r br a d recorded = Inr t \<Longrightarrow>
     dtr_prior t = prior \<and> dtr_record t = r \<and> dtr_bundle_receipt t = br \<and> dtr_assessment t = a \<and>
     recorded = Some (dtr_recorded_at t) \<and> dev_changed_at r \<le> dtr_recorded_at t \<and>
     evidence_receipt_prior t = Inr ()"
  by (auto simp: evidence_receipt_create_def evidence_receipt_init_def bind_res_Inr)

lemma pg_persist_cases:
  assumes "pg_persist tdg sdg recorded r st = (answer, st')"
  shows "st' = st \<or> (st' = st(evidence_key r \<mapsto> r) \<and> st (evidence_key r) = None \<and> evidence_initial r)"
  using assms
  by (auto simp: pg_persist_def evidence_initial_def split: if_splits option.splits sum.splits)

lemma pg_evidence_transition_cases:
  assumes "pg_evidence_transition tdg sdg digest expected recorded r br a st = (answer, st')"
  shows "st' = st \<or> (st' = st(evidence_key r \<mapsto> r) \<and>
    (\<exists>p. st (evidence_key r) = Some p \<and> evidence_follows p r))"
  using assms
  by (auto simp: pg_evidence_transition_def evidence_follows_def bind_res_Inr
      split: if_splits option.splits sum.splits)

fun phase_number :: "evidence_state \<Rightarrow> nat" where
  "phase_number DE_BUNDLE_PERSISTED = 0"
| "phase_number DE_DISPATCH_STARTED = 1"
| "phase_number DE_DISPATCH_OBSERVED = 2"
| "phase_number DE_PRE_RELEASE = 3"

lemma phase_number_bound: "phase_number s \<le> 3"
  by (cases s) simp_all

text \<open>What the lineage of a started record says of its identity.\<close>

definition started_lineage :: "evidence \<Rightarrow> start_checkpoint \<Rightarrow> bool" where
  "started_lineage r s =
     (reservation_in_flight (dev_identity r) (dst_reservation s) (dst_started_at s) \<and>
      fence_prepared_for (dev_identity r) (dst_prepared s) \<and>
      fence_in_flight_for (dev_identity r) (dst_prepared s) (dst_in_flight s) (dst_started_at s) \<and>
      dst_started_at s \<le> dev_changed_at r)"

definition observed_lineage :: "evidence \<Rightarrow> start_checkpoint \<Rightarrow> dispatch_observation \<Rightarrow> bool" where
  "observed_lineage r s ob =
     (dob_bundle_record ob = dst_bundle_record s \<and> dob_reservation ob = rt_digest (dst_reservation s) \<and>
      dob_fence_record ob = tf_digest (dst_in_flight s) \<and> dob_started_at ob = dst_started_at s \<and>
      dob_observed_at ob \<le> dev_changed_at r)"

lemma evidence_follows_cases:
  assumes "evidence_follows p r"
  shows "dev_identity r = dev_identity p" "dev_bundle r = dev_bundle p" "dev_revision r = dev_revision p + 1"
    "dev_prior r = Some (dev_digest p)" "dev_changed_at p \<le> dev_changed_at r"
    "phase_number (dev_state r) = phase_number (dev_state p) + 1"
    "dev_state r = DE_DISPATCH_STARTED \<Longrightarrow> \<exists>s. dev_start r = Some s \<and> started_lineage r s"
    "dev_state r \<noteq> DE_DISPATCH_STARTED \<Longrightarrow> dev_start r = dev_start p"
    "dev_state r = DE_DISPATCH_OBSERVED \<Longrightarrow>
       \<exists>s ob. dev_start r = Some s \<and> dev_observation r = Some ob \<and> observed_lineage r s ob"
    "dev_state r = DE_PRE_RELEASE \<Longrightarrow> dev_observation r = dev_observation p"
  using assms
  by (auto simp: evidence_follows_def validate_evidence_transition_def bind_res_Inr start_edge_checks_def
      observation_edge_checks_def started_lineage_def observed_lineage_def not_less
      split: if_splits option.splits)

interpretation dispatches: record_store evidence_key "valid_evidence H" evidence_initial evidence_follows
  "evidence_write H" for H
proof unfold_locales
  fix st st' assume "evidence_write H st st'"
  then show "st' = st \<or> (\<exists>r. valid_evidence H r \<and> st' = st(evidence_key r \<mapsto> r) \<and>
      (case st (evidence_key r) of None \<Rightarrow> evidence_initial r | Some p \<Rightarrow> evidence_follows p r))"
  proof cases
    case (ew_persist r sdg recorded answer)
    with pg_persist_cases [OF ew_persist(2)] show ?thesis by auto
  next
    case (ew_transition r sdg digest expected recorded br a answer)
    with pg_evidence_transition_cases [OF ew_transition(2)] show ?thesis by auto
  qed
next
  show "\<not> evidence_follows r r" for r using evidence_follows_cases(3) [of r r] by auto
qed

lemma evidence_run:
  assumes "\<And>m. Suc m < length rs \<Longrightarrow> evidence_follows (rs ! m) (rs ! Suc m)"
    and "dev_state (rs ! 0) = DE_BUNDLE_PERSISTED" and "i < length rs"
  shows "phase_number (dev_state (rs ! i)) = i \<and> dev_identity (rs ! i) = dev_identity (rs ! 0) \<and>
    dev_bundle (rs ! i) = dev_bundle (rs ! 0) \<and>
    (1 \<le> i \<longrightarrow> (\<exists>s. dev_start (rs ! i) = Some s \<and> started_lineage (rs ! 1) s)) \<and>
    (2 \<le> i \<longrightarrow> (\<exists>s ob. dev_start (rs ! i) = Some s \<and> dev_observation (rs ! i) = Some ob \<and>
       observed_lineage (rs ! 2) s ob))"
  using assms(3)
proof (induction i)
  case 0
  then show ?case using assms(2) by simp
next
  case (Suc i)
  have f: "evidence_follows (rs ! i) (rs ! Suc i)" using assms(1) Suc.prems .
  from evidence_follows_cases(6) [OF f] Suc have n: "phase_number (dev_state (rs ! Suc i)) = Suc i" by simp
  with phase_number_bound [of "dev_state (rs ! Suc i)"] consider "i = 0" | "i = 1" | "i = 2" by linarith
  then show ?case
  proof cases
    case 1
    then have "dev_state (rs ! Suc i) = DE_DISPATCH_STARTED" using n by (cases "dev_state (rs ! Suc i)") auto
    then show ?thesis using evidence_follows_cases(1,2,7) [OF f] Suc n 1 by auto
  next
    case 2
    then have "dev_state (rs ! Suc i) = DE_DISPATCH_OBSERVED" using n by (cases "dev_state (rs ! Suc i)") auto
    then show ?thesis
      using evidence_follows_cases(1,2,8,9) [OF f] Suc n 2 by (auto simp: numeral_2_eq_2)
  next
    case 3
    then have "dev_state (rs ! Suc i) = DE_PRE_RELEASE" using n by (cases "dev_state (rs ! Suc i)") auto
    then show ?thesis using evidence_follows_cases(1,2,8,10) [OF f] Suc n 3 by auto
  qed
qed


text \<open>
  Every step of a record is a transition that the stores accept, and its result is valid evidence for the
  same target and generation.
\<close>

theorem evidence_step_is_legal:
  assumes "evidence_next H r a r'"
  shows "validate_evidence_transition r r' a = Inr () \<and> evidence_init (h_record H) r' = Inr r' \<and>
    evidence_key r' = evidence_key r \<and> dev_revision r' = dev_revision r + 1 \<and>
    phase_number (dev_state r') = phase_number (dev_state r) + 1"
proof -
  from evidence_next_legal [OF assms]
  have v: "validate_evidence_transition r r' a = Inr ()" "evidence_init (h_record H) r' = Inr r'"
    "evidence_key r' = evidence_key r" by (simp_all add: valid_evidence_def)
  then have "evidence_follows r r'" by (auto simp: evidence_follows_def)
  with v evidence_follows_cases(3,6) [of r r'] show ?thesis by simp
qed

text \<open>
  Evidence of the first identity revision verifies, but no step leads on from it: the builder hashes the
  provenance keys, which the check of the new record leaves out.
\<close>

lemma legacy_evidence_cannot_advance:
  assumes "di_schema (dev_identity r) = ''1.0.0''" and "\<And>x. h_record H (True, x) \<noteq> h_record H (False, x)"
  shows "\<not> evidence_next H r a r'"
proof
  have b: "build_evidence (h_record H) x \<noteq> Inr r'" if "dev_identity x = dev_identity r" for x
    using assms that
    by (simp add: build_evidence_def Let_def evidence_init_def evidence_checks_def revision_safe_body_def
        binds_provenance_keys_def bind_res_Inr)
  assume "evidence_next H r a r'"
  then show False
    using b by cases (auto simp: record_dispatch_start_def record_dispatch_observation_def record_pre_release_def
        bind_res_Inr blank_evidence_def split: if_splits)
qed

text \<open>A checkpoint is current only on a fresh assessment of the acquisition and verifier of the identity.\<close>

theorem current_checkpoint_iff:
  assumes "checkpoint_from_assessment cdg i a (Some boundary) (Some t) = Inr c"
  shows "dpc_continuity c = PR_CURRENT \<longleftrightarrow>
    same_verifier a i \<and> boundary \<le> la_evaluated_at a \<and> la_evaluated_at a \<le> t \<and> t < la_valid_until a \<and> la_eligible a"
proof -
  have "require_current_ownership a (Some t) = Inr a \<longleftrightarrow>
      la_evaluated_at a \<le> t \<and> t < la_valid_until a \<and> la_eligible a"
    by (auto simp: require_current_ownership_def lock_time_def bind_res_Inr not_less not_le)
  moreover have "(\<exists>e. require_current_ownership a (Some t) = Inl e) \<or> require_current_ownership a (Some t) = Inr a"
    by (auto simp: require_current_ownership_def lock_time_def bind_res_def split: sum.splits)
  moreover have "dpc_continuity c = PR_CURRENT \<longleftrightarrow> continuity_reason i a boundary t = None"
    using assms by (auto simp: checkpoint_from_assessment_def checkpoint_create_def checkpoint_init_def Let_def
        bind_res_Inr split: if_splits)
  ultimately show ?thesis
    by (auto simp: continuity_reason_def split: if_splits sum.splits)
qed

section \<open>A concrete dispatch\<close>

definition flat_digests :: evidence_digests where
  "flat_digests = \<lparr>h_start = \<lambda>_. filler_digest, h_observation = \<lambda>_. filler_digest, h_checkpoint = \<lambda>_. filler_digest,
     h_record = \<lambda>_. filler_digest, h_receipt = \<lambda>_. filler_digest\<rparr>"

definition run_bundle :: safeguard_bundle where
  "run_bundle = sample_bundle\<lparr>sb_digest := filler_digest\<rparr>"

definition run_evidence_identity :: evidence_identity where
  "run_evidence_identity = \<lparr>di_schema = ''1.1.0'', di_action_id = ''a1'', di_target = filler_digest,
     di_fence_identity = filler_digest, di_fence_record = filler_digest, di_generation = 1, di_fence_revision = 1,
     di_reservation = filler_digest, di_attempt = 1, di_acquisition = filler_digest,
     di_reservation_receipt = filler_digest, di_reservation_record = filler_digest, di_reservation_revision = 1,
     di_lease_expires_at = 100, di_audit = filler_digest, di_assessment = filler_digest,
     di_assessment_until = 90, di_lock_proof = filler_digest, di_idempotency_proof = filler_digest,
     di_audit_proof = filler_digest, di_pre_bundle = filler_digest, di_verifier_id = ''pg'',
     di_verifier_version = ''1'', di_trust_anchor = ''anchor'', di_bundle = filler_digest,
     di_policy = filler_digest, di_path = ''direct_api'', di_fingerprint = filler_digest,
     di_source_revision = sample_revision, di_correlation_id = ''c1'', di_sink_key = ''k1'',
     di_digest = filler_digest, di_origin = Some ''core'', di_venue = Some ''core''\<rparr>"

definition run_in_flight_receipt :: reservation_receipt where
  "run_in_flight_receipt = \<lparr>rt_prior = Some run_1, rt_record = run_2, rt_expected = 1,
     rt_store_digest = filler_digest, rt_recorded_at = 20, rt_digest = filler_digest\<rparr>"

definition run_start :: start_checkpoint where
  "run_start = \<lparr>dst_identity = filler_digest, dst_bundle_record = filler_digest, dst_bundle_revision = 1,
     dst_bundle_receipt = filler_digest, dst_reservation = run_in_flight_receipt,
     dst_prepared = run_fence False TF_PREPARED 2 15 True False,
     dst_in_flight = run_fence False TF_IN_FLIGHT 3 16 True False, dst_started_at = 20,
     dst_digest = filler_digest\<rparr>"

definition run_observation :: dispatch_observation where
  "run_observation = \<lparr>dob_identity = filler_digest, dob_bundle_record = filler_digest, dob_bundle_revision = 1,
     dob_start_record = filler_digest, dob_start_revision = 2, dob_reservation = filler_digest,
     dob_fence_record = filler_digest, dob_fence_revision = 3, dob_transport = TP_ACKNOWLEDGED,
     dob_sink = SK_COMMITTED, dob_operation = Some filler_digest, dob_status = Some filler_digest,
     dob_started_at = 20, dob_observed_at = 25, dob_digest = filler_digest\<rparr>"

definition fresh_assessment :: "int \<Rightarrow> ownership_assessment" where
  "fresh_assessment t = sample_assessment\<lparr>la_evaluated_at := t, la_valid_until := 90\<rparr>"

definition run_checkpoint :: ownership_checkpoint where
  "run_checkpoint = \<lparr>dpc_identity = filler_digest, dpc_continuity = PR_CURRENT, dpc_acquisition = filler_digest,
     dpc_assessment = Some filler_digest, dpc_verifier_id = Some ''pg'', dpc_verifier_version = Some ''1'',
     dpc_trust_anchor = Some ''anchor'', dpc_evaluated_at = Some 26, dpc_valid_until = Some 90,
     dpc_rejections = [], dpc_unproven = None, dpc_observed_at = 27, dpc_digest = filler_digest\<rparr>"

definition run_evidence :: "evidence_state \<Rightarrow> evidence" where
  "run_evidence s = (let n = phase_number s in
     \<lparr>dev_identity = run_evidence_identity, dev_bundle = run_bundle, dev_state = s, dev_revision = int n + 1,
      dev_prior = (if n = 0 then None else Some filler_digest),
      dev_start = (if n = 0 then None else Some run_start),
      dev_observation = (if n < 2 then None else Some run_observation),
      dev_checkpoint = (if n < 3 then None else Some run_checkpoint),
      dev_changed_at = [15, 20, 25, 27] ! n, dev_digest = filler_digest\<rparr>)"

definition run_bundle_receipt :: evidence_receipt where
  "run_bundle_receipt = EvidenceReceipt None (run_evidence DE_BUNDLE_PERSISTED) None None filler_digest 15 filler_digest"

lemma run_receipt_facts:
  "rt_prior run_in_flight_receipt = Some run_1" "rt_record run_in_flight_receipt = run_2"
  "rt_recorded_at run_in_flight_receipt = 20" "rt_digest run_in_flight_receipt = filler_digest"
  "rs_identity run_2 = sample_identity 1 0" "identity_digest (sample_identity 1 0) = filler_digest"
  "rc_attempt (ri_receipt (sample_identity 1 0)) = 1" "record_digest run_1 = filler_digest"
  "lease_expires_at run_2 = 100"
  by (simp_all add: run_in_flight_receipt_def run_defs)

lemma run_identity_sel:
  "di_schema run_evidence_identity = ''1.1.0''" "di_digest run_evidence_identity = filler_digest"
  "di_bundle run_evidence_identity = filler_digest" "di_acquisition run_evidence_identity = filler_digest"
  "di_verifier_id run_evidence_identity = ''pg''" "di_verifier_version run_evidence_identity = ''1''"
  "di_trust_anchor run_evidence_identity = ''anchor''" "di_lease_expires_at run_evidence_identity = 100"
  "di_assessment_until run_evidence_identity = 90" "di_target run_evidence_identity = filler_digest"
  "di_generation run_evidence_identity = 1" "di_audit run_evidence_identity = filler_digest"
  by (simp_all add: run_evidence_identity_def)

lemma phase_zero: "phase_number s = 0 \<longleftrightarrow> s = DE_BUNDLE_PERSISTED"
  by (cases s) simp_all

lemma run_evidence_sel:
  "dev_identity (run_evidence s) = run_evidence_identity" "dev_bundle (run_evidence s) = run_bundle"
  "dev_state (run_evidence s) = s" "dev_revision (run_evidence s) = int (phase_number s) + 1"
  "dev_prior (run_evidence s) = (if s = DE_BUNDLE_PERSISTED then None else Some filler_digest)"
  "dev_start (run_evidence s) = (if s = DE_BUNDLE_PERSISTED then None else Some run_start)"
  "dev_observation (run_evidence s) = (if phase_number s < 2 then None else Some run_observation)"
  "dev_checkpoint (run_evidence s) = (if phase_number s < 3 then None else Some run_checkpoint)"
  "dev_changed_at (run_evidence s) = [15, 20, 25, 27] ! phase_number s"
  "dev_digest (run_evidence s) = filler_digest" "evidence_key (run_evidence s) = (filler_digest, 1)"
  "dst_bundle_receipt run_start = filler_digest"
  by (simp_all add: run_evidence_def Let_def phase_zero evidence_key_def run_identity_sel run_start_def)

lemma run_bundle_sel: "dtr_prior run_bundle_receipt = None" "dtr_record run_bundle_receipt = run_evidence DE_BUNDLE_PERSISTED"
  "dtr_recorded_at run_bundle_receipt = 15" "dtr_digest run_bundle_receipt = filler_digest"
  by (simp_all add: run_bundle_receipt_def)

lemma run_gate:
  "reservation_in_flight run_evidence_identity run_in_flight_receipt 20"
  "fence_prepared_for run_evidence_identity (run_fence False TF_PREPARED 2 15 True False)"
  "fence_in_flight_for run_evidence_identity (run_fence False TF_PREPARED 2 15 True False)
     (run_fence False TF_IN_FLIGHT 3 16 True False) 20"
  by (simp_all add: reservation_in_flight_def fence_prepared_for_def fence_in_flight_for_def run_receipt_facts
      run_sel run_1_sel run_fence_sel run_evidence_identity_def)

lemma run_texts: "canonical_text 512 ''pg''" "canonical_text 512 ''1''" "canonical_text 512 ''anchor''"
  by code_simp+

lemma run_evidence_identity_valid:
  "evidence_identity_init (\<lambda>_. filler_digest) run_evidence_identity = Inr run_evidence_identity"
proof -
  have "canonical_text 512 ''a1''" "canonical_text 512 ''c1''" "canonical_text 512 ''k1''"
    "canonical_text 512 ''direct_api''" "canonical_text 512 sample_revision" by code_simp+
  then show ?thesis
    by (simp add: evidence_identity_init_def evidence_identity_checks_def provenance_checks_def
        run_evidence_identity_def evidence_digest_check_def evidence_text_check_def filler_ok run_texts bind_res_Inr)
qed

lemmas run_evidence_checks = evidence_checks_def evidence_shape_def evidence_digest_check_def evidence_text_check_def
  optional_check_def filler_ok run_texts run_evidence_def run_start_def run_observation_def run_checkpoint_def
  run_bundle_def run_identity_sel flat_digests_def Let_def

lemma run_evidence_valid: "valid_evidence flat_digests (run_evidence s)"
  unfolding valid_evidence_checks by (cases s) (simp_all add: run_evidence_checks)

lemma run_evidence_built:
  "dev_identity r = run_evidence_identity \<Longrightarrow> r\<lparr>dev_digest := filler_digest\<rparr> = run_evidence s \<Longrightarrow>
     build_evidence (h_record flat_digests) r = Inr (run_evidence s)"
  using run_evidence_valid [of s] by (simp add: build_evidence_def Let_def valid_evidence_def flat_digests_def)

lemma run_start_created:
  "start_create (h_start flat_digests) run_bundle_receipt run_in_flight_receipt
     (run_fence False TF_PREPARED 2 15 True False) (run_fence False TF_IN_FLIGHT 3 16 True False) (Some 20) =
   Inr run_start"
  using run_gate
  by (simp add: start_create_def validate_dispatch_start_def start_init_def start_checks_def run_bundle_receipt_def
      run_evidence_def run_fence_sel first_failure.simps evidence_digest_check_def filler_ok flat_digests_def
      run_start_def Let_def run_identity_sel)

lemma run_steps:
  "record_dispatch_start flat_digests (run_evidence DE_BUNDLE_PERSISTED) run_bundle_receipt run_in_flight_receipt
     (run_fence False TF_PREPARED 2 15 True False) (run_fence False TF_IN_FLIGHT 3 16 True False) (Some 20) (Some 20) =
   Inr (run_evidence DE_DISPATCH_STARTED)"
  "observation_create (h_observation flat_digests) (run_evidence DE_DISPATCH_STARTED) TP_ACKNOWLEDGED SK_COMMITTED
     (Some filler_digest) (Some filler_digest) (Some 25) = Inr run_observation"
  "record_dispatch_observation flat_digests (run_evidence DE_DISPATCH_STARTED) run_observation (Some 25) =
   Inr (run_evidence DE_DISPATCH_OBSERVED)"
  "checkpoint_from_assessment (\<lambda>_. filler_digest) run_evidence_identity (fresh_assessment 26) (Some 25) (Some 27) =
   Inr run_checkpoint"
proof -
  let ?e = run_evidence
  have s: "dst_started_at run_start = 20" "dst_identity run_start = filler_digest" by (simp_all add: run_start_def)
  have b: "build_evidence (h_record flat_digests) ((blank_evidence run_evidence_identity run_bundle DE_DISPATCH_STARTED 2
      (Some filler_digest) 20)\<lparr>dev_start := Some run_start\<rparr>) = Inr (?e DE_DISPATCH_STARTED)"
    by (rule run_evidence_built) (simp_all add: blank_evidence_def run_evidence_def Let_def)
  show "record_dispatch_start flat_digests (?e DE_BUNDLE_PERSISTED) run_bundle_receipt run_in_flight_receipt
     (run_fence False TF_PREPARED 2 15 True False) (run_fence False TF_IN_FLIGHT 3 16 True False) (Some 20) (Some 20) =
   Inr (?e DE_DISPATCH_STARTED)"
    using b by (simp add: record_dispatch_start_def run_start_created first_failure.simps run_bundle_sel
        run_evidence_sel run_identity_sel s)
  show "observation_create (h_observation flat_digests) (?e DE_DISPATCH_STARTED) TP_ACKNOWLEDGED SK_COMMITTED
     (Some filler_digest) (Some filler_digest) (Some 25) = Inr run_observation"
    by (simp add: observation_create_def run_evidence_sel run_identity_sel observation_init_def observation_checks_def
        first_failure.simps evidence_digest_check_def optional_check_def filler_ok flat_digests_def run_start_def
        run_observation_def Let_def run_receipt_facts run_fence_sel)
  have b: "build_evidence (h_record flat_digests) ((blank_evidence run_evidence_identity run_bundle DE_DISPATCH_OBSERVED 3
      (Some filler_digest) 25)\<lparr>dev_start := Some run_start, dev_observation := Some run_observation\<rparr>) =
      Inr (?e DE_DISPATCH_OBSERVED)"
    by (rule run_evidence_built) (simp_all add: blank_evidence_def run_evidence_def Let_def)
  have "dob_identity run_observation = filler_digest" "dob_start_record run_observation = filler_digest"
    "dob_start_revision run_observation = 2" "dob_observed_at run_observation = 25"
    by (simp_all add: run_observation_def)
  with b show "record_dispatch_observation flat_digests (?e DE_DISPATCH_STARTED) run_observation (Some 25) =
      Inr (?e DE_DISPATCH_OBSERVED)"
    by (simp add: record_dispatch_observation_def first_failure.simps run_evidence_sel run_identity_sel)
  show "checkpoint_from_assessment (\<lambda>_. filler_digest) run_evidence_identity (fresh_assessment 26) (Some 25) (Some 27) =
   Inr run_checkpoint"
    by (simp add: checkpoint_from_assessment_def checkpoint_create_def checkpoint_init_def checkpoint_checks_def
        checkpoint_shape_def continuity_reason_def same_verifier_def require_current_ownership_def lock_time_def
        first_failure.simps evidence_digest_check_def evidence_text_check_def optional_check_def filler_ok run_texts
        run_identity_sel fresh_assessment_def sample_assessment_def sample_receipt_def run_checkpoint_def Let_def)
qed

lemma run_pre_release:
  "record_pre_release flat_digests (run_evidence DE_DISPATCH_OBSERVED) run_checkpoint (Some (fresh_assessment 26))
     (Some 27) = Inr (run_evidence DE_PRE_RELEASE)"
proof -
  have c: "dpc_identity run_checkpoint = filler_digest" "dpc_observed_at run_checkpoint = 27"
    "dpc_evaluated_at run_checkpoint = Some 26" "dpc_valid_until run_checkpoint = Some 90"
    "dpc_acquisition run_checkpoint = filler_digest" "dpc_assessment run_checkpoint = Some filler_digest"
    "dpc_continuity run_checkpoint = PR_CURRENT" "dpc_verifier_id run_checkpoint = Some ''pg''"
    "dpc_verifier_version run_checkpoint = Some ''1''" "dpc_trust_anchor run_checkpoint = Some ''anchor''"
    "dob_observed_at run_observation = 25"
    by (simp_all add: run_checkpoint_def run_observation_def)
  have a: "la_digest (fresh_assessment 26) = filler_digest" "la_evaluated_at (fresh_assessment 26) = 26"
    "la_valid_until (fresh_assessment 26) = 90" "la_eligible (fresh_assessment 26)"
    "rc_receipt_digest (la_receipt (fresh_assessment 26)) = filler_digest"
    "same_verifier (fresh_assessment 26) run_evidence_identity"
    by (simp_all add: fresh_assessment_def sample_assessment_def sample_receipt_def same_verifier_def run_identity_sel)
  have "build_evidence (h_record flat_digests) ((blank_evidence run_evidence_identity run_bundle DE_PRE_RELEASE 4
      (Some filler_digest) 27)\<lparr>dev_start := Some run_start, dev_observation := Some run_observation,
        dev_checkpoint := Some run_checkpoint\<rparr>) = Inr (run_evidence DE_PRE_RELEASE)"
    by (rule run_evidence_built) (simp_all add: blank_evidence_def run_evidence_def Let_def)
  moreover have "validate_evidence_transition (run_evidence DE_DISPATCH_OBSERVED) (run_evidence DE_PRE_RELEASE)
      (Some (fresh_assessment 26)) = Inr ()"
    by (simp add: validate_evidence_transition_def validate_pre_release_edge_def validate_pre_release_assessment_def
        pre_release_assessment_ok_def require_current_ownership_def lock_time_def first_failure.simps
        run_evidence_sel run_identity_sel c a)
  ultimately show ?thesis
    by (simp add: record_pre_release_def first_failure.simps run_evidence_sel run_identity_sel c)
qed

lemma put_evidence:
  assumes "reachable evidence_start (evidence_step H) (st, h)" and p: "st (evidence_key r) = Some p"
    and v: "valid_evidence H r" and t: "validate_evidence_transition p r a = Inr ()"
    and c: "first_failure (start_receipt_checks p r br) = Inr ()"
    and q: "evidence_receipt_create (h_receipt H) (Some p) r br a filler_digest (Some recorded) = Inr q"
  shows "reachable evidence_start (evidence_step H)
    (st(evidence_key r \<mapsto> r), h(evidence_key r := h (evidence_key r) @ [r]))"
proof -
  have "pg_evidence_transition (h_receipt H) (\<lambda>_ _. filler_digest) (dev_digest p) (dev_revision p) recorded r br a st =
      (Inr q, st(evidence_key r \<mapsto> r))"
    by (simp only: pg_evidence_transition_def evidence_cas_matches_def p t c q option.case sum.case bind_res_simps
        simp_thms if_False)
  from ew_transition [OF v this] have w: "evidence_write H st (st(evidence_key r \<mapsto> r))" .
  have "reachable evidence_start (evidence_step H)
    (st(evidence_key r \<mapsto> r), record_changes st (st(evidence_key r \<mapsto> r)) h)"
    by (rule reachable_step [OF assms(1)]) (rule hs_write, rule w)
  moreover have "\<not> validate_evidence_transition r r a = Inr ()"
    using dispatches.follows_irrefl [of r] by (simp add: evidence_follows_def)
  with t have "p \<noteq> r" by blast
  with p have "st (evidence_key r) \<noteq> Some r" by simp
  from record_changes_put [of st "evidence_key r" r h, OF this]
  have "record_changes st (st(evidence_key r \<mapsto> r)) h = h(evidence_key r := h (evidence_key r) @ [r])" .
  ultimately show ?thesis by (simp only:)
qed

lemma put_bundle:
  assumes "valid_evidence H r" and "evidence_initial r"
    and "evidence_receipt_create (h_receipt H) None r None None filler_digest (Some t) = Inr q"
    and "persistence_result_init \<lparr>dps_candidate = dev_identity r, dps_decision = PD_PERSISTED,
      dps_observed = r, dps_receipt = Some q\<rparr> = Inr s"
  shows "reachable evidence_start (evidence_step H)
    (Map.empty(evidence_key r \<mapsto> r), (\<lambda>_. [])(evidence_key r := [r]))"
proof -
  have "pg_persist (h_receipt H) (\<lambda>_ _. filler_digest) t r Map.empty = (Inr s, Map.empty(evidence_key r \<mapsto> r))"
    using assms(2-4) by (simp add: pg_persist_def evidence_initial_def)
  from ew_persist [OF assms(1) this] have w: "evidence_write H Map.empty (Map.empty(evidence_key r \<mapsto> r))" .
  have "reachable evidence_start (evidence_step H) (Map.empty, (\<lambda>_. []))"
    by (rule reachable_start) (simp add: history_start_def)
  from reachable_step [OF this hs_write [where writes = "evidence_write H", OF w, of "\<lambda>_. []"]]
  show ?thesis by (simp add: record_changes_put)
qed

definition run_receipts :: "evidence_state \<Rightarrow> evidence_receipt" where
  "run_receipts s = EvidenceReceipt
     (case s of DE_BUNDLE_PERSISTED \<Rightarrow> None | DE_DISPATCH_STARTED \<Rightarrow> Some (run_evidence DE_BUNDLE_PERSISTED)
      | DE_DISPATCH_OBSERVED \<Rightarrow> Some (run_evidence DE_DISPATCH_STARTED)
      | DE_PRE_RELEASE \<Rightarrow> Some (run_evidence DE_DISPATCH_OBSERVED))
     (run_evidence s) (if s = DE_DISPATCH_STARTED then Some run_bundle_receipt else None)
     (if s = DE_PRE_RELEASE then Some (fresh_assessment 26) else None) filler_digest
     (dev_changed_at (run_evidence s)) filler_digest"

lemma run_evidence_next:
  "evidence_next flat_digests (run_evidence DE_BUNDLE_PERSISTED) None (run_evidence DE_DISPATCH_STARTED)"
  "evidence_next flat_digests (run_evidence DE_DISPATCH_STARTED) None (run_evidence DE_DISPATCH_OBSERVED)"
  "evidence_next flat_digests (run_evidence DE_DISPATCH_OBSERVED) (Some (fresh_assessment 26)) (run_evidence DE_PRE_RELEASE)"
  by (rule en_start [OF run_steps(1)], rule en_observe [OF run_steps(2,3)], rule en_pre_release [OF run_pre_release])

lemmas run_validated = run_evidence_next [THEN evidence_next_legal, THEN conjunct1]

lemma filler_receipt:
  assumes "evidence_receipt_prior (EvidenceReceipt prior r br a filler_digest t filler_digest) = Inr ()"
    and "dev_changed_at r \<le> t" and "\<And>p. prior = Some p \<Longrightarrow> dev_changed_at p \<le> t"
  shows "evidence_receipt_create (h_receipt flat_digests) prior r br a filler_digest (Some t) =
    Inr (EvidenceReceipt prior r br a filler_digest t filler_digest)"
  using assms
  by (auto simp: evidence_receipt_create_def evidence_receipt_init_def evidence_digest_check_def filler_ok
      flat_digests_def bind_res_Inr not_less split: option.splits)

lemma run_receipts_created:
  "evidence_receipt_create (h_receipt flat_digests) None (run_evidence DE_BUNDLE_PERSISTED) None None filler_digest
     (Some 15) = Inr (run_receipts DE_BUNDLE_PERSISTED)"
  "evidence_receipt_create (h_receipt flat_digests) (Some (run_evidence DE_BUNDLE_PERSISTED))
     (run_evidence DE_DISPATCH_STARTED) (Some run_bundle_receipt) None filler_digest (Some 20) =
   Inr (run_receipts DE_DISPATCH_STARTED)"
  "evidence_receipt_create (h_receipt flat_digests) (Some (run_evidence DE_DISPATCH_STARTED))
     (run_evidence DE_DISPATCH_OBSERVED) None None filler_digest (Some 25) = Inr (run_receipts DE_DISPATCH_OBSERVED)"
  "evidence_receipt_create (h_receipt flat_digests) (Some (run_evidence DE_DISPATCH_OBSERVED))
     (run_evidence DE_PRE_RELEASE) None (Some (fresh_assessment 26)) filler_digest (Some 27) =
   Inr (run_receipts DE_PRE_RELEASE)"
  by (subst filler_receipt; simp add: run_receipts_def evidence_receipt_prior_def bind_res_Inr run_validated
      run_evidence_sel run_bundle_receipt_def)+

abbreviation evidence_run_key :: "string \<times> int" where
  "evidence_run_key \<equiv> (filler_digest, 1)"

lemma run_evidence_reachable:
  "reachable evidence_start (evidence_step flat_digests)
     (Map.empty(evidence_run_key \<mapsto> run_evidence DE_PRE_RELEASE),
      (\<lambda>_. [])(evidence_run_key := map run_evidence [DE_BUNDLE_PERSISTED, DE_DISPATCH_STARTED, DE_DISPATCH_OBSERVED, DE_PRE_RELEASE]))"
proof -
  have s: "persistence_result_init \<lparr>dps_candidate = dev_identity (run_evidence DE_BUNDLE_PERSISTED),
      dps_decision = PD_PERSISTED, dps_observed = run_evidence DE_BUNDLE_PERSISTED,
      dps_receipt = Some (run_receipts DE_BUNDLE_PERSISTED)\<rparr> = Inr \<lparr>dps_candidate = dev_identity (run_evidence DE_BUNDLE_PERSISTED),
      dps_decision = PD_PERSISTED, dps_observed = run_evidence DE_BUNDLE_PERSISTED,
      dps_receipt = Some (run_receipts DE_BUNDLE_PERSISTED)\<rparr>"
    by (simp add: persistence_result_init_def run_receipts_def bind_res_Inr)
  have i: "evidence_initial (run_evidence DE_BUNDLE_PERSISTED)" by (simp add: evidence_initial_def run_evidence_sel)
  note r = put_bundle [OF run_evidence_valid i run_receipts_created(1) s, unfolded run_evidence_sel]
  note r = put_evidence [OF r _ run_evidence_valid run_validated(1) _ run_receipts_created(2), unfolded run_evidence_sel]
  from r have r: "reachable evidence_start (evidence_step flat_digests)
      (Map.empty(evidence_run_key \<mapsto> run_evidence DE_DISPATCH_STARTED),
       (\<lambda>_. [])(evidence_run_key := map run_evidence [DE_BUNDLE_PERSISTED, DE_DISPATCH_STARTED]))"
    by (simp add: start_receipt_checks_def run_evidence_sel run_bundle_receipt_def)
  note r = put_evidence [OF r _ run_evidence_valid run_validated(2) _ run_receipts_created(3), unfolded run_evidence_sel]
  from r have r: "reachable evidence_start (evidence_step flat_digests)
      (Map.empty(evidence_run_key \<mapsto> run_evidence DE_DISPATCH_OBSERVED),
       (\<lambda>_. [])(evidence_run_key := map run_evidence [DE_BUNDLE_PERSISTED, DE_DISPATCH_STARTED, DE_DISPATCH_OBSERVED]))"
    by (simp add: start_receipt_checks_def run_evidence_sel)
  note r = put_evidence [OF r _ run_evidence_valid run_validated(3) _ run_receipts_created(4), unfolded run_evidence_sel]
  from r show ?thesis by (simp add: start_receipt_checks_def run_evidence_sel)
qed


theorem evidence_step_is_legal_witness:
  "validate_evidence_transition (run_evidence DE_BUNDLE_PERSISTED) (run_evidence DE_DISPATCH_STARTED) None = Inr () \<and>
   evidence_init (h_record flat_digests) (run_evidence DE_DISPATCH_STARTED) = Inr (run_evidence DE_DISPATCH_STARTED)"
  using evidence_step_is_legal [OF run_evidence_next(1)] by simp

theorem current_checkpoint_iff_witness:
  "dpc_continuity run_checkpoint = PR_CURRENT \<and> same_verifier (fresh_assessment 26) run_evidence_identity"
  using current_checkpoint_iff [OF run_steps(4)] by (simp add: run_checkpoint_def)

text \<open>
  The in-memory store writes before the receipt's checks: a record that skips a phase is refused and kept.
\<close>

lemma memory_evidence_keeps_refused_record:
  "memory_evidence_transition (\<lambda>_. filler_digest) (\<lambda>_ _. filler_digest) filler_digest 1
     (run_evidence DE_DISPATCH_OBSERVED) None None (Map.empty(evidence_run_key \<mapsto> run_evidence DE_BUNDLE_PERSISTED)) =
   (Inl (ValueError ''safeguard dispatch evidence predecessor mismatched''),
    Map.empty(evidence_run_key \<mapsto> run_evidence DE_DISPATCH_OBSERVED))"
  by (simp add: memory_evidence_transition_def evidence_cas_matches_def run_evidence_sel evidence_receipt_create_def
      evidence_receipt_init_def evidence_receipt_prior_def validate_evidence_transition_def first_failure.simps)

end
