(* ===== verification/Effects.thy ===== *)
theory Effects
  imports Prelude
begin

text \<open>
  Programs that change a state and may raise: the shape of the modelled coroutines, which await one
  operation after the other. A program maps a state to an exception or a value and the state after it; the
  triples say what holds after a normal and after an exceptional end, with one rule per construct.
\<close>

type_synonym ('s, 'e, 'a) prog = "'s \<Rightarrow> ('e + 'a) \<times> 's"

text \<open>An exception of the modelled code, a cancellation, the port's proof of no publication, or another class.\<close>

datatype failure = Raised exc | Cancelled | NotAttempted | Other string

text \<open>\<open>type(exc).__name__\<close>\<close>

fun exc_class :: "exc \<Rightarrow> string" where
  "exc_class (ValueError _) = ''ValueError''"
| "exc_class (KeyError _) = ''KeyError''"
| "exc_class (LookupError _) = ''LookupError''"
| "exc_class (TypeError _) = ''TypeError''"
| "exc_class (RuntimeError _) = ''RuntimeError''"
| "exc_class CircuitOpenError = ''CircuitOpenError''"
| "exc_class LoadShedError = ''LoadShedError''"
| "exc_class (OverrideWriterError _) = ''OverrideWriterError''"
| "exc_class (RiskTableError _) = ''RiskTableError''"
| "exc_class UnknownLinkTypeError = ''UnknownLinkTypeError''"
| "exc_class TraversalDepthExceededError = ''TraversalDepthExceededError''"
| "exc_class IncidentTransitionError = ''IncidentTransitionError''"
| "exc_class (IncidentWriteConflictError _) = ''IncidentWriteConflictError''"
| "exc_class (IncidentReplayError _) = ''IncidentReplayError''"

fun failure_class :: "failure \<Rightarrow> string" where
  "failure_class (Raised e) = exc_class e"
| "failure_class Cancelled = ''CancelledError''"
| "failure_class NotAttempted = ''DispatchNotAttemptedError''"
| "failure_class (Other name) = name"

definition give :: "'a \<Rightarrow> ('s, 'e, 'a) prog" where
  "give x = (\<lambda>s. (Inr x, s))"

definition fail_with :: "'e \<Rightarrow> ('s, 'e, 'a) prog" where
  "fail_with e = (\<lambda>s. (Inl e, s))"

definition seq :: "('s, 'e, 'a) prog \<Rightarrow> ('a \<Rightarrow> ('s, 'e, 'b) prog) \<Rightarrow> ('s, 'e, 'b) prog" where
  "seq m f = (\<lambda>s. case m s of (Inl e, s') \<Rightarrow> (Inl e, s') | (Inr x, s') \<Rightarrow> f x s')"

text \<open>A value computed without the state, and \<open>try\<close> with a handler that sees the exception.\<close>

definition from_sum :: "'e + 'a \<Rightarrow> ('s, 'e, 'a) prog" where
  "from_sum r = (\<lambda>s. (r, s))"

definition catch :: "('s, 'e, 'a) prog \<Rightarrow> ('s, 'e, 'e + 'a) prog" where
  "catch m = (\<lambda>s. case m s of (r, s') \<Rightarrow> (Inr r, s'))"

section \<open>Triples\<close>

definition triple ::
  "('s \<Rightarrow> bool) \<Rightarrow> ('s, 'e, 'a) prog \<Rightarrow> ('a \<Rightarrow> 's \<Rightarrow> bool) \<Rightarrow> ('e \<Rightarrow> 's \<Rightarrow> bool) \<Rightarrow> bool" where
  "triple P m Q E = (\<forall>s. P s \<longrightarrow> (case m s of (Inl e, s') \<Rightarrow> E e s' | (Inr x, s') \<Rightarrow> Q x s'))"

named_theorems triple_rules \<open>the rules of the program constructs\<close>

lemma triple_give [triple_rules]: "(\<And>s. P s \<Longrightarrow> Q x s) \<Longrightarrow> triple P (give x) Q E"
  by (simp add: triple_def give_def)

lemma triple_fail [triple_rules]: "(\<And>s. P s \<Longrightarrow> E e s) \<Longrightarrow> triple P (fail_with e) Q E"
  by (simp add: triple_def fail_with_def)

lemma triple_seq [triple_rules]:
  "triple P m R E \<Longrightarrow> (\<And>x. triple (R x) (f x) Q E) \<Longrightarrow> triple P (seq m f) Q E"
  by (fastforce simp: triple_def seq_def split: prod.splits sum.splits)

lemma triple_from_sum [triple_rules]:
  "(\<And>x s. P s \<Longrightarrow> r = Inr x \<Longrightarrow> Q x s) \<Longrightarrow> (\<And>e s. P s \<Longrightarrow> r = Inl e \<Longrightarrow> E e s) \<Longrightarrow>
     triple P (from_sum r) Q E"
  by (cases r) (simp_all add: triple_def from_sum_def)

lemma triple_catch:
  assumes "triple P m (\<lambda>x. Q (Inr x)) (\<lambda>e. Q (Inl e))"
  shows "triple P (catch m) Q E"
  unfolding triple_def
proof (intro allI impI)
  fix s assume "P s"
  moreover obtain r s' where "m s = (r, s')" by fastforce
  ultimately show "case catch m s of (Inl e, s') \<Rightarrow> E e s' | (Inr x, s') \<Rightarrow> Q x s'"
    using assms by (cases r) (auto simp: triple_def catch_def)
qed

lemma triple_if [triple_rules]:
  "(b \<Longrightarrow> triple P m Q E) \<Longrightarrow> (\<not> b \<Longrightarrow> triple P n Q E) \<Longrightarrow> triple P (if b then m else n) Q E"
  by simp

lemma triple_split [triple_rules]: "(\<And>x y. triple P (f x y) Q E) \<Longrightarrow> triple P (case p of (x, y) \<Rightarrow> f x y) Q E"
  by (cases p) simp

lemma triple_weaken:
  "triple P' m Q' E' \<Longrightarrow> (\<And>s. P s \<Longrightarrow> P' s) \<Longrightarrow> (\<And>x s. Q' x s \<Longrightarrow> Q x s) \<Longrightarrow> (\<And>e s. E' e s \<Longrightarrow> E e s) \<Longrightarrow>
     triple P m Q E"
  by (fastforce simp: triple_def split: prod.splits sum.splits)

lemma triple_assume: "(\<And>s. P s \<Longrightarrow> b) \<Longrightarrow> (b \<Longrightarrow> triple P m Q E) \<Longrightarrow> triple P m Q E"
  by (auto simp: triple_def)

lemma triple_Inr: "triple P m Q E \<Longrightarrow> P s \<Longrightarrow> m s = (Inr x, s') \<Longrightarrow> Q x s'"
  by (fastforce simp: triple_def)

lemma triple_Inl: "triple P m Q E \<Longrightarrow> P s \<Longrightarrow> m s = (Inl e, s') \<Longrightarrow> E e s'"
  by (fastforce simp: triple_def)

lemma give_simp [simp]: "give x s = (Inr x, s)"
  by (simp add: give_def)

lemma fail_simp [simp]: "fail_with e s = (Inl e, s)"
  by (simp add: fail_with_def)

lemma from_sum_simp [simp]: "from_sum r s = (r, s)"
  by (simp add: from_sum_def)

lemma seq_Inr: "seq m f s = (Inr y, s'') \<longleftrightarrow> (\<exists>x s'. m s = (Inr x, s') \<and> f x s' = (Inr y, s''))"
  by (auto simp: seq_def split: prod.splits sum.splits)

lemma seq_simp: "m s = (Inr x, s') \<Longrightarrow> seq m f s = f x s'"
  by (simp add: seq_def)

end
