(* ===== verification/Lifecycle.thy ===== *)
theory Lifecycle
  imports DispatchEvidence Effects
begin

text \<open>
  The in-lock safeguard evidence lifecycle (\<open>core/executor/safeguard_evidence_lifecycle.py\<close>): bundle
  persistence, fence and reservation in flight, dispatch start, the guarded call of the provider, the
  observation, the pre-release checkpoint, the release-pending fence, and the cancellation before dispatch.

  The stores, the held lock, the clock and the dispatch port are arguments: a record \<open>ports\<close> of operations
  on a world of any type. An awaited operation answers with a \<open>task\<close>: the number of cancellations of the
  caller that arrive while it runs, and its own end. The dispatch port is a \<open>script\<close> of changes of the
  world and calls of the guard, so it can neither see nor change the orchestrator's variables. The run
  keeps, beside the world and the code's \<open>provider_call_at\<close>, the list of calls made so far; it is written
  only, and the properties speak of it.
\<close>

section \<open>Receipts of fence transitions\<close>

record fence_receipt =
  ft_prior :: "fence option"
  ft_record :: fence
  ft_store_digest :: string
  ft_recorded_at :: int
  ft_digest :: string

definition fence_receipt_init :: "(fence_receipt \<Rightarrow> string) \<Rightarrow> fence_receipt \<Rightarrow> fence_receipt res" where
  "fence_receipt_init tdg t =
     (let r = ft_record t in
      bind_res (first_failure
        ((case ft_prior t of
            None \<Rightarrow> [(tf_revision r \<noteq> 1 \<or> tf_prior r \<noteq> None \<or> tf_state r \<noteq> TF_PREPARING \<or>
                tf_generation (tf_identity r) \<noteq> 1, ''initial target dispatch fence transition is invalid'')]
          | Some p \<Rightarrow> fence_transition_checks p r) @
         [fence_digest_check ''store_receipt_digest'' (ft_store_digest t),
          (ft_recorded_at t < tf_changed_at r \<or>
             (case ft_prior t of None \<Rightarrow> False | Some p \<Rightarrow> ft_recorded_at t < tf_changed_at p),
            ''target dispatch fence transition receipt is backdated''),
          fence_digest_check ''receipt_digest'' (ft_digest t),
          (ft_digest t \<noteq> tdg (t\<lparr>ft_digest := []\<rparr>),
            ''target dispatch fence transition receipt digest mismatched'')])) (\<lambda>_. Inr t))"

definition fence_receipt_create ::
  "(fence_receipt \<Rightarrow> string) \<Rightarrow> fence option \<Rightarrow> fence \<Rightarrow> string \<Rightarrow> int option \<Rightarrow> fence_receipt res" where
  "fence_receipt_create tdg prior r store_digest recorded =
     bind_res (fence_time ''recorded_at'' recorded) (\<lambda>t.
       let q = \<lparr>ft_prior = prior, ft_record = r, ft_store_digest = store_digest, ft_recorded_at = t, ft_digest = []\<rparr>
       in fence_receipt_init tdg (q\<lparr>ft_digest := tdg q\<rparr>))"

section \<open>Failures and awaited operations\<close>

datatype 'a task = Task (cancels: nat) (ending: "failure + 'a")

text \<open>A plain \<open>await\<close>: a cancellation of the caller ends the operation.\<close>

definition plain_await :: "'a task \<Rightarrow> failure + 'a" where
  "plain_await t = (if cancels t = 0 then ending t else Inl Cancelled)"

text \<open>
  \<open>_await_after_dispatch\<close>: the loop around the shielded operation. A cancellation of the caller is
  remembered and waited out; one of the operation itself ends the wait.
\<close>

fun await_shielded :: "nat \<Rightarrow> failure + 'a \<Rightarrow> bool \<Rightarrow> failure + ('a \<times> bool)" where
  "await_shielded (Suc n) r cancellation = await_shielded n r True"
| "await_shielded 0 (Inr x) cancellation = Inr (x, cancellation)"
| "await_shielded 0 (Inl Cancelled) cancellation = Inl Cancelled"
| "await_shielded 0 (Inl e) cancellation = Inl (if cancellation then Cancelled else e)"

definition await_after_dispatch :: "'a task \<Rightarrow> failure + ('a \<times> bool)" where
  "await_after_dispatch t = await_shielded (cancels t) (ending t) False"

definition code_res :: "'a res \<Rightarrow> failure + 'a" where
  "code_res r = map_sum Raised id r"

section \<open>The ports\<close>

type_synonym dispatch_answer = "transport_state \<times> sink_state \<times> string option \<times> string option"

datatype 'w script =
    Finish "failure + dispatch_answer"
  | CallGuard "failure + int \<Rightarrow> 'w script"
  | Act "'w \<Rightarrow> 'w" "'w \<Rightarrow> 'w script"

record 'w ports =
  p_clock :: "'w \<Rightarrow> int option \<times> 'w"
  p_active :: "'w \<Rightarrow> unit res \<times> 'w"
  p_assess :: "'w \<Rightarrow> ownership_assessment task \<times> 'w"
  p_persist :: "evidence \<Rightarrow> 'w \<Rightarrow> persistence_result task \<times> 'w"
  p_evidence :: "string \<Rightarrow> int \<Rightarrow> evidence \<Rightarrow> evidence_receipt option \<Rightarrow> ownership_assessment option \<Rightarrow> 'w \<Rightarrow>
     evidence_receipt task \<times> 'w"
  p_fence :: "string \<Rightarrow> int \<Rightarrow> fence \<Rightarrow> 'w \<Rightarrow> fence_receipt task \<times> 'w"
  p_reservation :: "string \<Rightarrow> int \<Rightarrow> reservation \<Rightarrow> 'w \<Rightarrow> reservation_receipt task \<times> 'w"
  p_dispatch :: "evidence \<Rightarrow> int \<Rightarrow> 'w script"

text \<open>The calls that came back normally, with what was written, and the grants of the guard.\<close>

datatype call =
    BundleCall evidence persistence_decision
  | FenceCall fence
  | ReservationCall reservation
  | EvidenceCall evidence
  | Granted int ownership_assessment

record 'w run =
  rn_world :: 'w
  rn_call_at :: "int option"
  rn_calls :: "call list"

type_synonym ('w, 'a) act = "('w run, failure, 'a) prog"

definition on_world :: "('w \<Rightarrow> 'a \<times> 'w) \<Rightarrow> ('w, 'a) act" where
  "on_world f = (\<lambda>s. case f (rn_world s) of (x, w) \<Rightarrow> (Inr x, s\<lparr>rn_world := w\<rparr>))"

definition log_call :: "call \<Rightarrow> ('w, unit) act" where
  "log_call c = (\<lambda>s. (Inr (), s\<lparr>rn_calls := rn_calls s @ [c]\<rparr>))"

definition set_call_at :: "int option \<Rightarrow> ('w, unit) act" where
  "set_call_at v = (\<lambda>s. (Inr (), s\<lparr>rn_call_at := v\<rparr>))"

definition get_call_at :: "('w, int option) act" where
  "get_call_at = (\<lambda>s. (Inr (rn_call_at s), s))"

abbreviation code :: "'a res \<Rightarrow> ('w, 'a) act" where
  "code r \<equiv> from_sum (code_res r)"

definition read_clock :: "'w ports \<Rightarrow> ('w, int) act" where
  "read_clock P = seq (on_world (p_clock P)) (\<lambda>v. code (evidence_time ''clock'' v))"

definition check_active :: "'w ports \<Rightarrow> ('w, unit) act" where
  "check_active P = seq (on_world (p_active P)) code"

text \<open>The calls of the stores: \<open>plain\<close> before the dispatch, shielded after it, with the cancellation flag.\<close>

definition write_fence_plain :: "'w ports \<Rightarrow> fence \<Rightarrow> fence \<Rightarrow> ('w, fence_receipt) act" where
  "write_fence_plain P p r =
     seq (on_world (p_fence P (tf_digest p) (tf_revision p) r)) (\<lambda>t.
     seq (from_sum (plain_await t)) (\<lambda>q. seq (log_call (FenceCall r)) (\<lambda>_. give q)))"

definition write_fence_shielded :: "'w ports \<Rightarrow> fence \<Rightarrow> fence \<Rightarrow> ('w, fence_receipt \<times> bool) act" where
  "write_fence_shielded P p r =
     seq (on_world (p_fence P (tf_digest p) (tf_revision p) r)) (\<lambda>t.
     seq (from_sum (await_after_dispatch t)) (\<lambda>q. seq (log_call (FenceCall r)) (\<lambda>_. give q)))"

definition write_reservation :: "'w ports \<Rightarrow> reservation \<Rightarrow> reservation \<Rightarrow> ('w, reservation_receipt) act" where
  "write_reservation P p r =
     seq (on_world (p_reservation P (record_digest p) (rs_revision p) r)) (\<lambda>t.
     seq (from_sum (plain_await t)) (\<lambda>q. seq (log_call (ReservationCall r)) (\<lambda>_. give q)))"

definition write_start :: "'w ports \<Rightarrow> evidence \<Rightarrow> evidence \<Rightarrow> evidence_receipt \<Rightarrow> ('w, evidence_receipt) act" where
  "write_start P p r br =
     seq (on_world (p_evidence P (dev_digest p) (dev_revision p) r (Some br) None)) (\<lambda>t.
     seq (from_sum (plain_await t)) (\<lambda>q. seq (log_call (EvidenceCall r)) (\<lambda>_. give q)))"

definition write_evidence_shielded ::
  "'w ports \<Rightarrow> evidence \<Rightarrow> evidence \<Rightarrow> ownership_assessment option \<Rightarrow> ('w, evidence_receipt \<times> bool) act" where
  "write_evidence_shielded P p r a =
     seq (on_world (p_evidence P (dev_digest p) (dev_revision p) r None a)) (\<lambda>t.
     seq (from_sum (await_after_dispatch t)) (\<lambda>q. seq (log_call (EvidenceCall r)) (\<lambda>_. give q)))"

definition persist_bundle :: "'w ports \<Rightarrow> evidence \<Rightarrow> ('w, persistence_result) act" where
  "persist_bundle P r =
     seq (on_world (p_persist P r)) (\<lambda>t.
     seq (from_sum (plain_await t)) (\<lambda>q. seq (log_call (BundleCall r (dps_decision q))) (\<lambda>_. give q)))"

text \<open>What the port does, with the guard it is given.\<close>

primrec run_script :: "('w, int) act \<Rightarrow> 'w script \<Rightarrow> ('w, dispatch_answer) act" where
  "run_script g (Finish r) = from_sum r"
| "run_script g (CallGuard k) = seq (catch g) (\<lambda>x. run_script g (k x))"
| "run_script g (Act f k) = (\<lambda>s. run_script g (k (rn_world s)) (s\<lparr>rn_world := f (rn_world s)\<rparr>))"

section \<open>Results\<close>

datatype terminal_kind =
  TK_RESOLVED | TK_QUARANTINED | TK_FENCE_BLOCKED | TK_FENCE_DUPLICATE | TK_EVIDENCE_CONFLICT | TK_CANCELLED

record lifecycle_result =
  lcr_kind :: terminal_kind
  lcr_bundle :: "string option"
  lcr_fence :: "fence option"
  lcr_evidence :: "evidence option"
  lcr_pre_release :: "evidence_receipt option"
  lcr_release_fence :: "fence option"
  lcr_release_receipt :: "fence_receipt option"
  lcr_dispatched :: bool
  lcr_cancelled :: bool
  lcr_reason :: "string option"

definition terminal_shape :: "lifecycle_result \<Rightarrow> (bool \<times> string) list" where
  "terminal_shape r =
     (if lcr_kind r \<in> {TK_RESOLVED, TK_QUARANTINED} then
        [(lcr_bundle r = None, ''completed lifecycle requires bundle digest''),
         (lcr_fence r = None \<or> lcr_evidence r = None, ''completed lifecycle requires terminal records''),
         (lcr_pre_release r = None, ''completed lifecycle requires pre-release receipt''),
         (lcr_release_fence r = None, ''completed lifecycle requires release-pending fence''),
         (lcr_release_receipt r = None, ''completed lifecycle requires release-pending receipt'')]
      else []) @
     (if lcr_kind r = TK_CANCELLED then
        [(lcr_bundle r \<noteq> None, ''cancelled lifecycle MUST NOT have bundle digest''),
         (lcr_fence r = None, ''cancelled lifecycle requires resolved fence'')]
      else []) @
     (if lcr_kind r \<in> {TK_FENCE_BLOCKED, TK_FENCE_DUPLICATE, TK_EVIDENCE_CONFLICT} then
        [(lcr_pre_release r \<noteq> None, ''early-exit lifecycle MUST NOT have pre-release receipt''),
         (lcr_release_fence r \<noteq> None, ''early-exit lifecycle MUST NOT have release-pending fence''),
         (lcr_release_receipt r \<noteq> None, ''early-exit lifecycle MUST NOT have release-pending receipt'')]
      else [])"

definition lifecycle_result_init :: "lifecycle_result \<Rightarrow> lifecycle_result res" where
  "lifecycle_result_init r =
     bind_res (first_failure (optional_check (evidence_digest_check ''bundle_digest'') (lcr_bundle r) # terminal_shape r))
       (\<lambda>_. Inr r)"

definition early_exit :: "terminal_kind \<Rightarrow> evidence \<Rightarrow> fence \<Rightarrow> evidence \<Rightarrow> lifecycle_result res" where
  "early_exit kind b f observed = lifecycle_result_init
     \<lparr>lcr_kind = kind, lcr_bundle = Some (sb_digest (dev_bundle b)), lcr_fence = Some f, lcr_evidence = Some observed,
      lcr_pre_release = None, lcr_release_fence = None, lcr_release_receipt = None, lcr_dispatched = False,
      lcr_cancelled = False, lcr_reason = None\<rparr>"

section \<open>Checks of the inputs\<close>

record lifecycle_digests =
  h_evidence :: evidence_digests
  h_fence :: "fence \<Rightarrow> string"
  h_reservation :: "reservation \<Rightarrow> string"
  h_failure :: "string \<Rightarrow> string \<Rightarrow> string"

definition validate_prior_phases ::
  "'w ports \<Rightarrow> reservation_receipt \<Rightarrow> append_receipt \<Rightarrow> evidence \<Rightarrow> fence \<Rightarrow> ('w, unit) act" where
  "validate_prior_phases P rec audit b f =
     seq (check_active P) (\<lambda>_. code (first_failure
       [(rs_state (rt_record rec) \<noteq> RESERVED, ''lifecycle requires a current reserved idempotency state''),
        (identity_digest (rs_identity (rt_record (ai_reservation (ap_intent audit)))) \<noteq>
           identity_digest (rs_identity (rt_record rec)), ''lifecycle audit intent changed reservation identity''),
        (dev_state b \<noteq> DE_BUNDLE_PERSISTED, ''lifecycle requires bundle-persisted evidence state''),
        (tf_state f \<noteq> TF_PREPARING, ''lifecycle requires a preparing target fence''),
        (tf_reservation (tf_identity f) \<noteq> identity_digest (rs_identity (rt_record rec)),
          ''lifecycle fence changed reservation identity'')]))"

definition validate_pre_dispatch_ownership :: "evidence_identity \<Rightarrow> ownership_assessment \<Rightarrow> int \<Rightarrow> unit res" where
  "validate_pre_dispatch_ownership i a t =
     bind_res (first_failure
       [(rc_receipt_digest (la_receipt a) \<noteq> di_acquisition i \<or> \<not> same_verifier a i,
          ''dispatch-start lock ownership evidence changed identity''),
        (t \<ge> di_lease_expires_at i \<or> t \<ge> di_assessment_until i,
          ''dispatch-start evidence expired before provider I/O'')]) (\<lambda>_.
     bind_res (require_current_ownership a (Some t)) (\<lambda>_. Inr ()))"

section \<open>Phases 6 and 7: fence, reservation and evidence in flight\<close>

definition begin_in_flight ::
  "lifecycle_digests \<Rightarrow> 'w ports \<Rightarrow> reservation_receipt \<Rightarrow> append_receipt \<Rightarrow> evidence \<Rightarrow> fence \<Rightarrow> evidence_receipt \<Rightarrow> int \<Rightarrow>
     ('w, fence \<times> evidence \<times> int \<times> evidence_receipt) act" where
  "begin_in_flight H P rec audit b preparing br now =
     seq (read_clock P) (\<lambda>c. let t = max (max now (dtr_recorded_at br)) c in
     seq (code (attach_prepared_evidence (h_fence H) preparing audit (sb_digest (dev_bundle b)) (Some t))) (\<lambda>prepared.
     seq (write_fence_plain P preparing prepared) (\<lambda>q.
     seq (read_clock P) (\<lambda>c. let t = max (max t (ft_recorded_at q)) c in
     seq (code (mark_in_flight (h_fence H) prepared (Some t))) (\<lambda>in_flight.
     seq (write_fence_plain P prepared in_flight) (\<lambda>q.
     seq (read_clock P) (\<lambda>c. let t = max (max t (ft_recorded_at q)) c in
     seq (code (begin_dispatch (h_reservation H) (rt_record rec) (Some t))) (\<lambda>r.
     seq (write_reservation P (rt_record rec) r) (\<lambda>rec'.
     seq (read_clock P) (\<lambda>c. let t = max (max t (rt_recorded_at rec')) c in
     seq (code (record_dispatch_start (h_evidence H) b br rec' prepared in_flight (Some t) (Some t))) (\<lambda>started.
     seq (write_start P b started br) (\<lambda>sr. give (in_flight, started, t, sr)))))))))))))"

section \<open>Phase 8: the guarded call\<close>

definition pre_invoke_guard :: "'w ports \<Rightarrow> evidence_identity \<Rightarrow> int \<Rightarrow> evidence_receipt \<Rightarrow> ('w, int) act" where
  "pre_invoke_guard P i t sr =
     seq (on_world (p_assess P)) (\<lambda>k.
     seq (from_sum (plain_await k)) (\<lambda>a.
     seq (read_clock P) (\<lambda>c. let call_at = max (max t (dtr_recorded_at sr)) (max (la_evaluated_at a) c) in
     seq (code (validate_pre_dispatch_ownership i a call_at)) (\<lambda>_.
     seq (check_active P) (\<lambda>_.
     seq (log_call (Granted call_at a)) (\<lambda>_.
     seq (set_call_at (Some call_at)) (\<lambda>_. give call_at)))))))"

text \<open>What the rest of the run knows of the dispatch: the answer, a cancellation and a failure reason.\<close>

type_synonym dispatch_end = "dispatch_answer \<times> bool \<times> string option"

definition blocked :: "lifecycle_digests \<Rightarrow> evidence \<Rightarrow> string \<Rightarrow> bool \<Rightarrow> string \<Rightarrow> dispatch_end" where
  "blocked H b kind cancelled reason =
     ((TP_FAILED, SK_NOT_ACCEPTED, None, Some (h_failure H (sb_digest (dev_bundle b)) kind)), cancelled, Some reason)"

definition dispatch_provider ::
  "lifecycle_digests \<Rightarrow> 'w ports \<Rightarrow> evidence \<Rightarrow> evidence \<Rightarrow> int \<Rightarrow> evidence_receipt \<Rightarrow> ('w, dispatch_end) act" where
  "dispatch_provider H P b started t sr =
     seq (catch (run_script (pre_invoke_guard P (dev_identity b) t sr) (p_dispatch P started t))) (\<lambda>x.
     seq get_call_at (\<lambda>call_at.
     case x of
       Inl NotAttempted \<Rightarrow> seq (set_call_at None) (\<lambda>_.
         give (blocked H b ''DispatchNotAttempted'' False ''dispatch transport proved no publication''))
     | Inl e \<Rightarrow>
         (if call_at \<noteq> None then fail_with e
          else if e = Cancelled
          then give (blocked H b ''CancelledError'' True ''dispatch cancelled before provider invocation'')
          else give (blocked H b (failure_class e) False
            (''dispatch blocked before provider invocation: '' @ failure_class e)))
     | Inr answer \<Rightarrow>
         (if call_at = None
          then give (blocked H b ''DispatchNotInvoked'' False ''dispatch blocked before provider invocation'')
          else give (answer, False, None))))"

section \<open>Phases 8a and 9: observation, continuity and the release-pending fence\<close>

definition observe_dispatch ::
  "lifecycle_digests \<Rightarrow> 'w ports \<Rightarrow> evidence \<Rightarrow> int \<Rightarrow> evidence_receipt \<Rightarrow> dispatch_answer \<Rightarrow>
     ('w, evidence \<times> dispatch_observation \<times> int \<times> evidence_receipt \<times> bool) act" where
  "observe_dispatch H P started t sr answer =
     seq get_call_at (\<lambda>call_at.
     seq (read_clock P) (\<lambda>c.
       let t_obs = max (max t (dtr_recorded_at sr)) (max (case call_at of None \<Rightarrow> t | Some x \<Rightarrow> x) c) in
     seq (code (case answer of (transport, sink, operation, status) \<Rightarrow>
         observation_create (h_observation (h_evidence H)) started transport sink operation status (Some t_obs))) (\<lambda>ob.
     seq (code (record_dispatch_observation (h_evidence H) started ob (Some t_obs))) (\<lambda>observed.
     seq (write_evidence_shielded P started observed None) (\<lambda>q. give (observed, ob, t_obs, q))))))"

text \<open>The fresh assessment, or why there is none; the reason given first is kept.\<close>

definition assessment_outcome ::
  "failure + (ownership_assessment \<times> bool) \<Rightarrow> string option \<Rightarrow>
     ownership_assessment option \<times> unproven_reason \<times> bool \<times> string option" where
  "assessment_outcome x reason = (case x of
     Inr (a, cancelled) \<Rightarrow> (Some a, UN_MISSING, cancelled, reason)
   | Inl e \<Rightarrow>
       (if e = Cancelled
        then (None, UN_CALLBACK_CANCELLED, True,
          Some (case reason of None \<Rightarrow> ''pre-release ownership assessment was cancelled'' | Some r \<Rightarrow> r))
        else (None, UN_CALLBACK_FAILED, False,
          Some (case reason of None \<Rightarrow> ''pre-release ownership assessment failed'' | Some r \<Rightarrow> r))))"

definition record_continuity ::
  "lifecycle_digests \<Rightarrow> 'w ports \<Rightarrow> evidence \<Rightarrow> evidence \<Rightarrow> dispatch_observation \<Rightarrow> int \<Rightarrow> int \<Rightarrow> string option \<Rightarrow>
     ('w, evidence \<times> ownership_checkpoint \<times> int \<times> evidence_receipt \<times> bool \<times> string option) act" where
  "record_continuity H P b observed ob t_obs q_recorded reason =
     seq (on_world (p_assess P)) (\<lambda>k. case assessment_outcome (await_after_dispatch k) reason of
       (a, why, cancelled, reason) \<Rightarrow>
     seq (read_clock P) (\<lambda>c.
       let t_pre = max (max t_obs q_recorded) (max (case a of None \<Rightarrow> t_obs | Some x \<Rightarrow> la_evaluated_at x) c) in
     seq (code (case a of
         None \<Rightarrow> checkpoint_unproven (h_checkpoint (h_evidence H)) (dev_identity b) why (Some t_pre)
       | Some x \<Rightarrow> checkpoint_from_assessment (h_checkpoint (h_evidence H)) (dev_identity b) x
           (Some (dob_observed_at ob)) (Some t_pre))) (\<lambda>cp.
       let fresh = (if dpc_continuity cp = PR_CURRENT then a else None) in
     seq (code (record_pre_release (h_evidence H) observed cp fresh (Some t_pre))) (\<lambda>pre.
     seq (write_evidence_shielded P observed pre fresh) (\<lambda>(q, cancelled').
       give (pre, cp, t_pre, q, cancelled \<or> cancelled', reason))))))"

definition quarantined :: "bool \<Rightarrow> pre_release_continuity \<Rightarrow> sink_state \<Rightarrow> transport_state \<Rightarrow> bool" where
  "quarantined called_provider continuity sink transport =
     (\<not> called_provider \<or> continuity = PR_UNPROVEN \<or> sink \<in> {SK_UNOBSERVED, SK_UNKNOWN} \<or>
      transport \<in> {TP_FAILED, TP_UNKNOWN})"

definition release_fence ::
  "lifecycle_digests \<Rightarrow> 'w ports \<Rightarrow> evidence \<Rightarrow> fence \<Rightarrow> dispatch_answer \<Rightarrow> evidence \<Rightarrow> ownership_checkpoint \<Rightarrow> int \<Rightarrow>
     evidence_receipt \<Rightarrow> bool \<Rightarrow> string option \<Rightarrow> ('w, lifecycle_result) act" where
  "release_fence H P b in_flight answer pre cp t_pre q_pre cancelled reason =
     seq (read_clock P) (\<lambda>c.
       let t_release = max (max t_pre (dtr_recorded_at q_pre)) c in
     seq (code (mark_release_pending (h_fence H) in_flight (Some t_release))) (\<lambda>release.
     seq (write_fence_shielded P in_flight release) (\<lambda>(q_fence, cancelled').
     seq get_call_at (\<lambda>call_at.
       code (lifecycle_result_init
         \<lparr>lcr_kind = (if quarantined (call_at \<noteq> None) (dpc_continuity cp) (fst (snd answer)) (fst answer)
            then TK_QUARANTINED else TK_RESOLVED),
          lcr_bundle = Some (sb_digest (dev_bundle b)), lcr_fence = Some release, lcr_evidence = Some pre,
          lcr_pre_release = Some q_pre, lcr_release_fence = Some release, lcr_release_receipt = Some q_fence,
          lcr_dispatched = (call_at \<noteq> None), lcr_cancelled = (cancelled \<or> cancelled'), lcr_reason = reason\<rparr>)))))"

definition close_dispatch ::
  "lifecycle_digests \<Rightarrow> 'w ports \<Rightarrow> evidence \<Rightarrow> fence \<Rightarrow> evidence \<Rightarrow> int \<Rightarrow> evidence_receipt \<Rightarrow> dispatch_end \<Rightarrow>
     ('w, lifecycle_result) act" where
  "close_dispatch H P b in_flight started t sr = (\<lambda>(answer, cancelled, reason).
     seq (observe_dispatch H P started t sr answer) (\<lambda>(observed, ob, t_obs, q_obs, cancelled_obs).
     seq (record_continuity H P b observed ob t_obs (dtr_recorded_at q_obs) reason)
       (\<lambda>(pre, cp, t_pre, q_pre, cancelled_pre, reason).
     release_fence H P b in_flight answer pre cp t_pre q_pre (cancelled \<or> cancelled_obs \<or> cancelled_pre) reason)))"

section \<open>The lifecycle\<close>

definition run_lifecycle ::
  "lifecycle_digests \<Rightarrow> 'w ports \<Rightarrow> reservation_receipt \<Rightarrow> append_receipt \<Rightarrow> evidence \<Rightarrow> fence \<Rightarrow> int option \<Rightarrow>
     ('w, lifecycle_result) act" where
  "run_lifecycle H P rec audit b preparing now =
     seq (code (evidence_time ''now'' now)) (\<lambda>now.
     seq (validate_prior_phases P rec audit b preparing) (\<lambda>_.
     seq (persist_bundle P b) (\<lambda>q.
     if dps_decision q \<noteq> PD_PERSISTED
     then code (early_exit TK_EVIDENCE_CONFLICT b preparing (dps_observed q))
     else case dps_receipt q of
         None \<Rightarrow> fail_with (Raised (ValueError ''store contract violated: persisted bundle lacks receipt''))
       | Some br \<Rightarrow>
           seq (begin_in_flight H P rec audit b preparing br now) (\<lambda>(in_flight, started, t, sr).
           seq (dispatch_provider H P b started t sr) (\<lambda>e.
             close_dispatch H P b in_flight started t sr e)))))"

definition cancel_before_dispatch ::
  "lifecycle_digests \<Rightarrow> 'w ports \<Rightarrow> fence \<Rightarrow> string \<Rightarrow> int option \<Rightarrow> ('w, lifecycle_result) act" where
  "cancel_before_dispatch H P preparing evidence_dg now =
     seq (code (evidence_time ''now'' now)) (\<lambda>now.
     seq (check_active P) (\<lambda>_.
     seq (code (resolve_without_dispatch (h_fence H) preparing evidence_dg (Some now))) (\<lambda>resolved.
     seq (write_fence_plain P preparing resolved) (\<lambda>_.
       code (lifecycle_result_init
         \<lparr>lcr_kind = TK_CANCELLED, lcr_bundle = None, lcr_fence = Some resolved, lcr_evidence = None,
          lcr_pre_release = None, lcr_release_fence = None, lcr_release_receipt = None, lcr_dispatched = False,
          lcr_cancelled = False, lcr_reason = None\<rparr>)))))"

definition start_run :: "'w \<Rightarrow> 'w run" where
  "start_run w = \<lparr>rn_world = w, rn_call_at = None, rn_calls = []\<rparr>"

section \<open>The order of the calls\<close>

text \<open>
  The abstract protocol of one run: an automaton over the calls, which remembers the fence and the evidence
  written last. A grant of the guard is a call of its own.
\<close>

datatype phase =
    Waiting | Settled | Persisted | Prepared fence | InFlight fence fence | Reserved fence fence
  | Started fence evidence | Observed fence evidence | PreReleased fence | Released

definition chained :: "evidence \<Rightarrow> evidence \<Rightarrow> bool" where
  "chained p r = (dev_prior r = Some (dev_digest p) \<and> dev_revision r = dev_revision p + 1 \<and>
     dev_identity r = dev_identity p \<and> dev_bundle r = dev_bundle p \<and>
     phase_number (dev_state r) = phase_number (dev_state p) + 1)"

definition fence_chained :: "fence \<Rightarrow> fence \<Rightarrow> bool" where
  "fence_chained p f = (tf_prior f = Some (tf_digest p) \<and> tf_revision f = tf_revision p + 1 \<and>
     tf_identity f = tf_identity p \<and> tf_audit f = tf_audit p \<and> tf_bundle f = tf_bundle p)"

definition start_bound :: "evidence \<Rightarrow> fence \<Rightarrow> fence \<Rightarrow> bool" where
  "start_bound e p f = (case dev_start e of
     None \<Rightarrow> False
   | Some s \<Rightarrow> dst_prepared s = p \<and> dst_in_flight s = f \<and> started_lineage e s)"

text \<open>What the guard demands at its grant.\<close>

definition grant_ok :: "evidence \<Rightarrow> int \<Rightarrow> ownership_assessment \<Rightarrow> bool" where
  "grant_ok e t a = (let i = dev_identity e in
     rc_receipt_digest (la_receipt a) = di_acquisition i \<and> same_verifier a i \<and>
     t < di_lease_expires_at i \<and> t < di_assessment_until i \<and>
     la_evaluated_at a \<le> t \<and> t < la_valid_until a \<and> la_eligible a \<and>
     (case dev_start e of None \<Rightarrow> False | Some s \<Rightarrow> dst_started_at s \<le> t))"

fun protocol_step :: "evidence \<Rightarrow> phase \<Rightarrow> call \<Rightarrow> phase option" where
  "protocol_step b Waiting (BundleCall r d) =
     (if r = b then Some (if d = PD_PERSISTED then Persisted else Settled) else None)"
| "protocol_step b Persisted (FenceCall p) =
     (if tf_state p = TF_PREPARED \<and> tf_bundle p = Some (sb_digest (dev_bundle b)) then Some (Prepared p) else None)"
| "protocol_step b (Prepared p) (FenceCall f) =
     (if tf_state f = TF_IN_FLIGHT \<and> fence_chained p f then Some (InFlight p f) else None)"
| "protocol_step b (InFlight p f) (ReservationCall r) = (if rs_state r = IN_FLIGHT then Some (Reserved p f) else None)"
| "protocol_step b (Reserved p f) (EvidenceCall e) = (if chained b e \<and> start_bound e p f then Some (Started f e) else None)"
| "protocol_step b (Started f e) (Granted t a) = (if grant_ok e t a then Some (Started f e) else None)"
| "protocol_step b (Started f e) (EvidenceCall e') = (if chained e e' then Some (Observed f e') else None)"
| "protocol_step b (Observed f e) (EvidenceCall e') = (if chained e e' then Some (PreReleased f) else None)"
| "protocol_step b (PreReleased f) (FenceCall g) =
     (if tf_state g = TF_RELEASE_PENDING \<and> fence_chained f g then Some Released else None)"
| "protocol_step b _ _ = None"

fun track :: "evidence \<Rightarrow> phase \<Rightarrow> call list \<Rightarrow> phase option" where
  "track b ph [] = Some ph"
| "track b ph (c # cs) = (case protocol_step b ph c of None \<Rightarrow> None | Some ph' \<Rightarrow> track b ph' cs)"

lemma track_snoc: "track b ph (cs @ [c]) = (case track b ph cs of None \<Rightarrow> None | Some ph' \<Rightarrow> protocol_step b ph' c)"
  by (induction cs arbitrary: ph) (simp_all split: option.splits)

lemma code_res_Inr [simp]: "code_res r = Inr x \<longleftrightarrow> r = Inr x"
  by (cases r) (simp_all add: code_res_def)

text \<open>A recorded time of the provider call has its grant among the calls.\<close>

definition call_logged :: "'w run \<Rightarrow> bool" where
  "call_logged s = (\<forall>t. rn_call_at s = Some t \<longrightarrow> (\<exists>a. Granted t a \<in> set (rn_calls s)))"

definition at_phase :: "evidence \<Rightarrow> phase \<Rightarrow> 'w run \<Rightarrow> bool" where
  "at_phase b ph s = (track b Waiting (rn_calls s) = Some ph \<and> call_logged s)"

definition in_protocol :: "evidence \<Rightarrow> 'w run \<Rightarrow> bool" where
  "in_protocol b s = (track b Waiting (rn_calls s) \<noteq> None \<and> call_logged s)"

lemma at_phase_in [simp, intro]: "at_phase b ph s \<Longrightarrow> in_protocol b s"
  by (simp add: at_phase_def in_protocol_def)

text \<open>The rules of the constructs, in the order a program meets them.\<close>

lemma seq_sum:
  "(\<And>x. r = Inr x \<Longrightarrow> triple P (f x) Q E) \<Longrightarrow> (\<And>e s. P s \<Longrightarrow> E e s) \<Longrightarrow> triple P (seq (from_sum r) f) Q E"
  by (cases r) (auto simp: triple_def seq_def)

lemma seq_world:
  fixes g :: "'w \<Rightarrow> 'x \<times> 'w"
  assumes "\<And>x. triple (at_phase b ph) (f x) Q E"
  shows "triple (at_phase b ph) (seq (on_world g) f) Q E"
  unfolding triple_def
proof (intro allI impI)
  fix s :: "'w run" assume s: "at_phase b ph s"
  obtain x w where g: "g (rn_world s) = (x, w)" by fastforce
  from s have "at_phase b ph (s\<lparr>rn_world := w\<rparr>)" by (simp add: at_phase_def call_logged_def)
  with assms [of x] show "case seq (on_world g) f s of (Inl e, s') \<Rightarrow> E e s' | (Inr y, s') \<Rightarrow> Q y s'"
    by (simp add: triple_def seq_def on_world_def g)
qed

lemma seq_get: "(\<And>x. triple (at_phase b ph) (f x) Q E) \<Longrightarrow> triple (at_phase b ph) (seq get_call_at f) Q E"
  by (simp add: triple_def seq_def get_call_at_def)

lemma seq_clear:
  "triple (at_phase b ph) (f ()) Q E \<Longrightarrow> triple (at_phase b ph) (seq (set_call_at None) f) Q E"
  by (simp add: triple_def seq_def set_call_at_def at_phase_def call_logged_def)

lemma seq_called:
  assumes "protocol_step b ph c \<noteq> None" and "triple (at_phase b (the (protocol_step b ph c))) (f ()) Q E"
  shows "triple (at_phase b ph) (seq (log_call c) f) Q E"
proof -
  have "at_phase b ph s \<Longrightarrow> at_phase b (the (protocol_step b ph c)) (s\<lparr>rn_calls := rn_calls s @ [c]\<rparr>)" for s :: "'a run"
    using assms(1) by (auto simp: at_phase_def track_snoc call_logged_def)
  then show ?thesis using assms(2) by (simp add: triple_def seq_def log_call_def)
qed

lemma seq_granted:
  assumes "protocol_step b ph (Granted t a) = Some ph" and "triple (at_phase b ph) (f ()) Q E"
  shows "triple (at_phase b ph) (seq (log_call (Granted t a)) (\<lambda>_. seq (set_call_at (Some t)) f)) Q E"
proof -
  have "at_phase b ph s \<Longrightarrow> at_phase b ph (s\<lparr>rn_calls := rn_calls s @ [Granted t a], rn_call_at := Some t\<rparr>)"
    for s :: "'a run"
    using assms(1) by (auto simp: at_phase_def track_snoc call_logged_def)
  then show ?thesis using assms(2) by (simp add: triple_def seq_def log_call_def set_call_at_def)
qed

lemma seq_clock:
  "(\<And>c. triple (at_phase b ph) (f c) Q E) \<Longrightarrow> (\<And>e s. at_phase b ph s \<Longrightarrow> E e s) \<Longrightarrow>
     triple (at_phase b ph) (seq (read_clock P) f) Q E"
  unfolding read_clock_def
  by (rule triple_seq [where R = "\<lambda>_. at_phase b ph"], rule seq_world, rule triple_from_sum) auto

lemma seq_active:
  "triple (at_phase b ph) (f ()) Q E \<Longrightarrow> (\<And>e s. at_phase b ph s \<Longrightarrow> E e s) \<Longrightarrow>
     triple (at_phase b ph) (seq (check_active P) f) Q E"
  unfolding check_active_def
  by (rule triple_seq [where R = "\<lambda>_. at_phase b ph"], rule seq_world, rule triple_from_sum) auto

lemma seq_write:
  assumes "protocol_step b ph c \<noteq> None" and "\<And>x. triple (at_phase b (the (protocol_step b ph c))) (f x) Q E"
    and "\<And>e s. at_phase b ph s \<Longrightarrow> E e s"
  shows "triple (at_phase b ph) (seq (seq (on_world g) (\<lambda>t. seq (from_sum (k t)) (\<lambda>q.
    seq (log_call c) (\<lambda>_. give q)))) f) Q E"
  by (rule triple_seq [where R = "\<lambda>_. at_phase b (the (protocol_step b ph c))"])
    (auto intro!: seq_world seq_sum seq_called [OF assms(1)] triple_give assms(2,3))

lemmas protocol_rules = seq_sum seq_world seq_get seq_clear seq_clock seq_active seq_write triple_give

lemmas write_defs = write_fence_plain_def write_fence_shielded_def write_reservation_def write_start_def
  write_evidence_shielded_def

lemma attach_facts:
  "attach_prepared_evidence fdg r audit d (Some t) = Inr p \<Longrightarrow> tf_state p = TF_PREPARED \<and> tf_bundle p = Some d"
  by (auto simp: attach_prepared_evidence_def bind_res_Inr elim!: next_fence_Inr)

lemma in_flight_facts:
  "mark_in_flight fdg p (Some t) = Inr f \<Longrightarrow> tf_state f = TF_IN_FLIGHT \<and> fence_chained p f"
  by (auto simp: mark_in_flight_def fence_chained_def bind_res_Inr elim!: next_fence_Inr)

lemma release_facts:
  "mark_release_pending fdg p (Some t) = Inr f \<Longrightarrow> tf_state f = TF_RELEASE_PENDING \<and> fence_chained p f"
  by (auto simp: mark_release_pending_def fence_chained_def bind_res_Inr elim!: next_fence_Inr)

lemma begin_facts: "begin_dispatch dg r (Some t) = Inr r' \<Longrightarrow> rs_state r' = IN_FLIGHT"
  by (auto simp: begin_dispatch_def successor_def blank_record_def bind_res_Inr dest!: build_record_Inr split: if_splits)

lemma start_facts:
  assumes "record_dispatch_start H b br rec p f (Some t) (Some t) = Inr e"
  shows "chained b e \<and> start_bound e p f \<and> (\<exists>s. dev_start e = Some s \<and> dst_started_at s = t)"
  using assms
  by (rule record_dispatch_start_Inr) (auto simp: chained_def start_bound_def started_lineage_def)

text \<open>Each operation followed by its write, as one rule.\<close>

lemma seq_prepared:
  assumes "\<And>p q. tf_state p = TF_PREPARED \<Longrightarrow> triple (at_phase b (Prepared p)) (f p q) Q E"
    and "\<And>e s ph. at_phase b ph s \<Longrightarrow> E e s"
  shows "triple (at_phase b Persisted) (seq (code (attach_prepared_evidence fdg r audit (sb_digest (dev_bundle b)) (Some t)))
    (\<lambda>p. seq (write_fence_plain P r p) (f p))) Q E"
proof (intro seq_sum)
  fix p assume "code_res (attach_prepared_evidence fdg r audit (sb_digest (dev_bundle b)) (Some t)) = Inr p"
  then have p: "tf_state p = TF_PREPARED" "tf_bundle p = Some (sb_digest (dev_bundle b))"
    using attach_facts by force+
  show "triple (at_phase b Persisted) (seq (write_fence_plain P r p) (f p)) Q E"
    unfolding write_fence_plain_def by (rule seq_write) (use p assms in simp_all)
qed (use assms(2) in blast)

lemma seq_in_flight:
  assumes "\<And>g q. tf_state g = TF_IN_FLIGHT \<Longrightarrow> triple (at_phase b (InFlight p g)) (f g q) Q E"
    and "\<And>e s ph. at_phase b ph s \<Longrightarrow> E e s"
  shows "triple (at_phase b (Prepared p)) (seq (code (mark_in_flight fdg p (Some t)))
    (\<lambda>g. seq (write_fence_plain P p g) (f g))) Q E"
proof (intro seq_sum)
  fix g assume "code_res (mark_in_flight fdg p (Some t)) = Inr g"
  then have g: "tf_state g = TF_IN_FLIGHT" "fence_chained p g" using in_flight_facts by force+
  show "triple (at_phase b (Prepared p)) (seq (write_fence_plain P p g) (f g)) Q E"
    unfolding write_fence_plain_def by (rule seq_write) (use g assms in simp_all)
qed (use assms(2) in blast)

lemma seq_reserved:
  assumes "\<And>x q. triple (at_phase b (Reserved p g)) (f x q) Q E" and "\<And>e s ph. at_phase b ph s \<Longrightarrow> E e s"
  shows "triple (at_phase b (InFlight p g)) (seq (code (begin_dispatch dg r (Some t)))
    (\<lambda>x. seq (write_reservation P r x) (f x))) Q E"
proof (intro seq_sum)
  fix x assume "code_res (begin_dispatch dg r (Some t)) = Inr x"
  then have x: "rs_state x = IN_FLIGHT" using begin_facts by force
  show "triple (at_phase b (InFlight p g)) (seq (write_reservation P r x) (f x)) Q E"
    unfolding write_reservation_def by (rule seq_write) (use x assms in simp_all)
qed (use assms(2) in blast)

lemma seq_started:
  assumes "\<And>e q. chained b e \<Longrightarrow> (\<exists>s. dev_start e = Some s \<and> dst_started_at s = t) \<Longrightarrow>
      triple (at_phase b (Started g e)) (f e q) Q E"
    and "\<And>e s ph. at_phase b ph s \<Longrightarrow> E e s"
  shows "triple (at_phase b (Reserved p g)) (seq (code (record_dispatch_start H b br rec p g (Some t) (Some t)))
    (\<lambda>e. seq (write_start P b e br) (f e))) Q E"
proof (intro seq_sum)
  fix e assume "code_res (record_dispatch_start H b br rec p g (Some t) (Some t)) = Inr e"
  then have e: "chained b e" "start_bound e p g" "\<exists>s. dev_start e = Some s \<and> dst_started_at s = t"
    using start_facts by force+
  show "triple (at_phase b (Reserved p g)) (seq (write_start P b e br) (f e)) Q E"
    unfolding write_start_def by (rule seq_write) (use e assms in simp_all)
qed (use assms(2) in blast)

lemma begin_in_flight_protocol:
  "triple (at_phase b Persisted) (begin_in_flight H P rec audit b preparing br now)
     (\<lambda>(f, e, t, sr) s. at_phase b (Started f e) s \<and> chained b e \<and>
        (\<exists>x. dev_start e = Some x \<and> dst_started_at x = t)) (\<lambda>_. in_protocol b)"
  unfolding begin_in_flight_def Let_def
  by (intro seq_clock seq_prepared seq_in_flight seq_reserved seq_started triple_give) (blast | simp only: prod.case)+

lemma guard_protocol:
  fixes P :: "'w ports"
  assumes "chained b e" and "dev_start e = Some x" and "dst_started_at x = t"
  shows "triple (at_phase b (Started f e)) (pre_invoke_guard P (dev_identity b) t sr)
    (\<lambda>_. at_phase b (Started f e)) (\<lambda>_. at_phase b (Started f e))"
  unfolding pre_invoke_guard_def Let_def
proof (intro seq_world seq_sum seq_clock seq_active seq_granted triple_give)
  fix a c and u :: unit
  assume "code_res (validate_pre_dispatch_ownership (dev_identity b) a
    (max (max t (dtr_recorded_at sr)) (max (la_evaluated_at a) c))) = Inr u"
  then show "protocol_step b (Started f e) (Granted (max (max t (dtr_recorded_at sr)) (max (la_evaluated_at a) c)) a) =
      Some (Started f e)"
    using assms
    by (auto simp: validate_pre_dispatch_ownership_def require_current_ownership_def lock_time_def bind_res_Inr
        grant_ok_def chained_def not_le)
qed

lemma script_protocol:
  fixes sc :: "'w script"
  assumes "triple (at_phase b ph) g (\<lambda>_. at_phase b ph) (\<lambda>_. at_phase b ph)"
  shows "triple (at_phase b ph) (run_script g sc) (\<lambda>_. at_phase b ph) (\<lambda>_. at_phase b ph)"
proof (induction sc)
  case (Finish r)
  show ?case unfolding run_script.simps by (rule triple_from_sum) auto
next
  case (CallGuard k)
  have "triple (at_phase b ph) (catch g) (\<lambda>_. at_phase b ph) (\<lambda>_. at_phase b ph)"
    by (rule triple_catch) (rule assms)
  then show ?case by (simp add: triple_seq CallGuard.IH)
next
  case (Act w k)
  have "at_phase b ph (s\<lparr>rn_world := x\<rparr>)" if "at_phase b ph s" for s :: "'w run" and x
    using that by (simp add: at_phase_def call_logged_def)
  with Act.IH show ?case by (simp add: triple_def)
qed

lemma dispatch_protocol:
  fixes P :: "'w ports"
  assumes "chained b e" and "dev_start e = Some x" and "dst_started_at x = t"
  shows "triple (at_phase b (Started f e)) (dispatch_provider H P b e t sr)
    (\<lambda>_. at_phase b (Started f e)) (\<lambda>_. in_protocol b)"
proof -
  note g = script_protocol [OF guard_protocol [OF assms]]
  show ?thesis
    unfolding dispatch_provider_def
  proof (rule triple_seq [where R = "\<lambda>_. at_phase b (Started f e)"])
    show "triple (at_phase b (Started f e))
        (catch (run_script (pre_invoke_guard P (dev_identity b) t sr) (p_dispatch P e t)))
        (\<lambda>_. at_phase b (Started f e)) (\<lambda>_. in_protocol b)"
      by (rule triple_catch) (rule g)
  qed (auto intro!: seq_get seq_clear triple_give triple_fail split: sum.splits failure.splits)
qed

lemma observation_facts:
  "record_dispatch_observation H e ob (Some t) = Inr r \<Longrightarrow> chained e r \<and> dev_observation r = Some ob"
  by (auto simp: record_dispatch_observation_def chained_def blank_evidence_def bind_res_Inr
      dest!: build_evidence_Inr split: if_splits)

lemma pre_release_facts:
  assumes "record_pre_release H e cp a (Some t) = Inr r"
  shows "chained e r \<and> dev_observation r = dev_observation e \<and> dev_checkpoint r = Some cp \<and> dev_state r = DE_PRE_RELEASE"
proof -
  from assms have s: "dev_state e = DE_DISPATCH_OBSERVED"
    and b: "build_evidence (h_record H)
       ((blank_evidence (dev_identity e) (dev_bundle e) DE_PRE_RELEASE (dev_revision e + 1) (Some (dev_digest e)) t)
         \<lparr>dev_start := dev_start e, dev_observation := dev_observation e, dev_checkpoint := Some cp\<rparr>) = Inr r"
    by (auto simp: record_pre_release_def bind_res_Inr)
  from build_evidence_Inr [OF b] s show ?thesis by (auto simp: chained_def blank_evidence_def)
qed

lemma observation_create_facts:
  "observation_create odg e transport sink operation status (Some t) = Inr ob \<Longrightarrow>
     dob_transport ob = transport \<and> dob_sink ob = sink \<and> dob_observed_at ob = t"
  by (auto simp: observation_create_def observation_init_def bind_res_Inr Let_def
      split: evidence_state.splits option.splits if_splits)

lemma seq_created:
  assumes "\<And>ob. dob_transport ob = fst answer \<Longrightarrow> dob_sink ob = fst (snd answer) \<Longrightarrow> triple (at_phase b ph) (f ob) Q E"
    and "\<And>e s ph. at_phase b ph s \<Longrightarrow> E e s"
  shows "triple (at_phase b ph) (seq (code (case answer of (transport, sink, operation, status) \<Rightarrow>
    observation_create odg e transport sink operation status (Some t))) f) Q E"
proof (intro seq_sum)
  fix ob
  assume "code_res (case answer of (transport, sink, operation, status) \<Rightarrow>
    observation_create odg e transport sink operation status (Some t)) = Inr ob"
  then have "dob_transport ob = fst answer" "dob_sink ob = fst (snd answer)"
    using observation_create_facts by (fastforce split: prod.splits)+
  then show "triple (at_phase b ph) (f ob) Q E" by (rule assms(1))
qed (use assms(2) in blast)

lemma seq_observed:
  assumes "\<And>r q. dev_observation r = Some ob \<Longrightarrow> triple (at_phase b (Observed g r)) (f r q) Q E"
    and "\<And>e s ph. at_phase b ph s \<Longrightarrow> E e s"
  shows "triple (at_phase b (Started g e)) (seq (code (record_dispatch_observation H e ob (Some t)))
    (\<lambda>r. seq (write_evidence_shielded P e r a) (f r))) Q E"
proof (intro seq_sum)
  fix r assume "code_res (record_dispatch_observation H e ob (Some t)) = Inr r"
  then have r: "chained e r" "dev_observation r = Some ob" using observation_facts by force+
  show "triple (at_phase b (Started g e)) (seq (write_evidence_shielded P e r a) (f r)) Q E"
    unfolding write_evidence_shielded_def by (rule seq_write) (use r assms in simp_all)
qed (use assms(2) in blast)

lemma seq_pre_released:
  assumes "\<And>r q. dev_observation r = dev_observation e \<Longrightarrow> dev_checkpoint r = Some cp \<Longrightarrow>
      dev_state r = DE_PRE_RELEASE \<Longrightarrow> triple (at_phase b (PreReleased g)) (f r q) Q E"
    and "\<And>e s ph. at_phase b ph s \<Longrightarrow> E e s"
  shows "triple (at_phase b (Observed g e)) (seq (code (record_pre_release H e cp a (Some t)))
    (\<lambda>r. seq (write_evidence_shielded P e r a') (f r))) Q E"
proof (intro seq_sum)
  fix r assume "code_res (record_pre_release H e cp a (Some t)) = Inr r"
  then have r: "chained e r" "dev_observation r = dev_observation e" "dev_checkpoint r = Some cp"
    "dev_state r = DE_PRE_RELEASE" using pre_release_facts by force+
  show "triple (at_phase b (Observed g e)) (seq (write_evidence_shielded P e r a') (f r)) Q E"
    unfolding write_evidence_shielded_def by (rule seq_write) (use r assms in simp_all)
qed (use assms(2) in blast)

lemma seq_released:
  assumes "\<And>r q. triple (at_phase b Released) (f r q) Q E" and "\<And>e s ph. at_phase b ph s \<Longrightarrow> E e s"
  shows "triple (at_phase b (PreReleased g)) (seq (code (mark_release_pending fdg g (Some t)))
    (\<lambda>r. seq (write_fence_shielded P g r) (f r))) Q E"
proof (intro seq_sum)
  fix r assume "code_res (mark_release_pending fdg g (Some t)) = Inr r"
  then have r: "tf_state r = TF_RELEASE_PENDING" "fence_chained g r" using release_facts by force+
  show "triple (at_phase b (PreReleased g)) (seq (write_fence_shielded P g r) (f r)) Q E"
    unfolding write_fence_shielded_def by (rule seq_write) (use r assms in simp_all)
qed (use assms(2) in blast)

lemma observe_protocol:
  "triple (at_phase b (Started g e)) (observe_dispatch H P e t sr answer)
     (\<lambda>(r, ob, t_obs, q) s. at_phase b (Observed g r) s \<and> dev_observation r = Some ob \<and>
        dob_transport ob = fst answer \<and> dob_sink ob = fst (snd answer)) (\<lambda>_. in_protocol b)"
  unfolding observe_dispatch_def Let_def
  by (intro seq_get seq_clock seq_created seq_observed triple_give) (blast | simp only: prod.case)+

lemma continuity_protocol:
  "triple (at_phase b (Observed g e)) (record_continuity H P b e ob t_obs recorded reason)
     (\<lambda>(r, cp, t_pre, q, cancelled, reason') s. at_phase b (PreReleased g) s \<and>
        dev_observation r = dev_observation e \<and> dev_checkpoint r = Some cp \<and> dev_state r = DE_PRE_RELEASE)
     (\<lambda>_. in_protocol b)"
  unfolding record_continuity_def Let_def
  by (intro seq_world triple_split seq_clock seq_sum seq_pre_released triple_give) (blast | simp only: prod.case)+

text \<open>What a completed run says of itself.\<close>

definition completed :: "lifecycle_result \<Rightarrow> bool" where
  "completed r = (\<exists>e ob cp. lcr_evidence r = Some e \<and> dev_state e = DE_PRE_RELEASE \<and>
     dev_observation e = Some ob \<and> dev_checkpoint e = Some cp \<and>
     lcr_kind r = (if lcr_dispatched r \<and> dpc_continuity cp = PR_CURRENT \<and> dob_sink ob \<notin> {SK_UNOBSERVED, SK_UNKNOWN} \<and>
         dob_transport ob \<notin> {TP_FAILED, TP_UNKNOWN} then TK_RESOLVED else TK_QUARANTINED))"

lemma quarantined_iff: "quarantined called_provider continuity sink transport \<longleftrightarrow>
    \<not> (called_provider \<and> continuity = PR_CURRENT \<and> sink \<notin> {SK_UNOBSERVED, SK_UNKNOWN} \<and>
       transport \<notin> {TP_FAILED, TP_UNKNOWN})"
  by (cases continuity) (auto simp: quarantined_def)

lemma triple_pure: "(B \<Longrightarrow> triple P m Q E) \<Longrightarrow> triple (\<lambda>s. P s \<and> B) m Q E"
  by (auto simp: triple_def)

lemma seq_last:
  assumes "\<And>v x s. at_phase b ph s \<Longrightarrow> r v = Inr x \<Longrightarrow> rn_call_at s = v \<Longrightarrow> Q x s"
  shows "triple (at_phase b ph) (seq get_call_at (\<lambda>v. code (r v))) Q (\<lambda>_. in_protocol b)"
  using assms
  by (auto simp: triple_def seq_def get_call_at_def split: sum.splits)

lemma result_Inr: "lifecycle_result_init r = Inr x \<longleftrightarrow>
    x = r \<and> first_failure (optional_check (evidence_digest_check ''bundle_digest'') (lcr_bundle r) # terminal_shape r) = Inr ()"
  by (auto simp: lifecycle_result_init_def bind_res_Inr)

lemma release_protocol:
  assumes "dev_observation pre = Some ob" and "dev_checkpoint pre = Some cp" and "dev_state pre = DE_PRE_RELEASE"
    and "dob_transport ob = fst answer" and "dob_sink ob = fst (snd answer)"
  shows "triple (at_phase b (PreReleased g)) (release_fence H P b g answer pre cp t_pre q_pre cancelled reason)
     (\<lambda>r s. at_phase b Released s \<and> completed r \<and> (lcr_dispatched r \<longrightarrow> (\<exists>t a. Granted t a \<in> set (rn_calls s))))
     (\<lambda>_. in_protocol b)"
  unfolding release_fence_def Let_def
  by (intro seq_clock seq_released triple_split seq_last)
    (auto simp: result_Inr completed_def quarantined_iff assms at_phase_def call_logged_def)

lemma close_protocol:
  "triple (at_phase b (Started g e)) (close_dispatch H P b g e t sr d)
     (\<lambda>r s. at_phase b Released s \<and> completed r \<and> (lcr_dispatched r \<longrightarrow> (\<exists>t a. Granted t a \<in> set (rn_calls s))))
     (\<lambda>_. in_protocol b)"
  unfolding close_dispatch_def
  apply (intro triple_split)
  apply (rule triple_seq [OF observe_protocol])
  subgoal for answer rest cancelled reason x
    apply (cases x)
    apply (simp only: prod.case)
    apply (rule triple_pure)
    apply (rule triple_seq [OF continuity_protocol])
    subgoal for r ob t_obs q c y
      apply (cases y)
      apply (simp only: prod.case)
      apply (rule triple_pure)
      apply (rule release_protocol [where ob = ob]; simp)
      done
    done
  done

section \<open>The provider is called only after every phase\<close>

lemma at_start: "at_phase b Waiting (start_run w)"
  by (simp add: at_phase_def call_logged_def start_run_def)

abbreviation finished :: "evidence \<Rightarrow> lifecycle_result \<Rightarrow> 'w run \<Rightarrow> bool" where
  "finished b r s \<equiv> at_phase b Released s \<and> completed r \<and>
     (lcr_dispatched r \<longrightarrow> (\<exists>t a. Granted t a \<in> set (rn_calls s)))"

lemma flight_protocol:
  "triple (at_phase b Persisted)
     (seq (begin_in_flight H P rec audit b preparing br now) (\<lambda>(in_flight, started, t, sr).
      seq (dispatch_provider H P b started t sr) (\<lambda>e. close_dispatch H P b in_flight started t sr e)))
     (finished b) (\<lambda>_. in_protocol b)"
  apply (rule triple_seq [OF begin_in_flight_protocol])
  subgoal for x
    apply (cases x)
    apply (simp only: prod.case)
    apply (rule triple_pure)
    apply (elim conjE exE)
    apply (rule triple_seq [OF dispatch_protocol]; (assumption | rule close_protocol))
    done
  done

lemma run_protocol:
  "triple (at_phase b Waiting) (run_lifecycle H P rec audit b preparing now)
     (\<lambda>r s. in_protocol b s \<and> (lcr_kind r = TK_EVIDENCE_CONFLICT \<and> \<not> lcr_dispatched r \<or> finished b r s))
     (\<lambda>_. in_protocol b)"
  unfolding run_lifecycle_def validate_prior_phases_def
  apply (rule seq_sum)
   apply (rule triple_seq [where R = "\<lambda>_. at_phase b Waiting"])
    apply (rule seq_active)
     apply (rule triple_from_sum; blast)
    apply blast
   apply (rule triple_seq [where R = "\<lambda>q. at_phase b (if dps_decision q = PD_PERSISTED then Persisted else Settled)"])
    apply (unfold persist_bundle_def)
    apply (intro seq_world seq_sum seq_called triple_give; simp)
   apply (rule triple_if)
    apply (rule triple_from_sum)
     apply (fastforce simp: early_exit_def result_Inr)
    apply (rule at_phase_in, assumption)
   apply (simp split: option.split add: triple_fail)
   apply (intro allI impI)
   apply (rule triple_weaken [OF flight_protocol]; blast)
  apply blast
  done

text \<open>The calls that open a run: bundle, prepared fence, fence in flight, reservation in flight, dispatch start.\<close>

definition opened :: "evidence \<Rightarrow> fence \<Rightarrow> fence \<Rightarrow> reservation \<Rightarrow> evidence \<Rightarrow> call list \<Rightarrow> bool" where
  "opened b p f r e cs =
     (take 5 cs = [BundleCall b PD_PERSISTED, FenceCall p, FenceCall f, ReservationCall r, EvidenceCall e] \<and>
      tf_state p = TF_PREPARED \<and> tf_bundle p = Some (sb_digest (dev_bundle b)) \<and>
      tf_state f = TF_IN_FLIGHT \<and> fence_chained p f \<and> rs_state r = IN_FLIGHT \<and> chained b e \<and> start_bound e p f)"

definition grants_ok :: "evidence \<Rightarrow> call list \<Rightarrow> bool" where
  "grants_ok e cs = (\<forall>t a. Granted t a \<in> set cs \<longrightarrow> grant_ok e t a)"

lemma opened_snoc: "opened b p f r e cs \<Longrightarrow> opened b p f r e (cs @ [c])"
proof -
  assume o: "opened b p f r e cs"
  then have "length (take 5 cs) = 5" by (simp add: opened_def)
  then have "take 5 (cs @ [c]) = take 5 cs" by simp
  with o show ?thesis by (simp only: opened_def)
qed

lemma grants_ok_snoc [simp]:
  "grants_ok e (cs @ [c]) \<longleftrightarrow> grants_ok e cs \<and> (\<forall>t a. c = Granted t a \<longrightarrow> grant_ok e t a)"
  by (auto simp: grants_ok_def)

fun phase_shape :: "evidence \<Rightarrow> call list \<Rightarrow> phase \<Rightarrow> bool" where
  "phase_shape b cs Waiting = (cs = [])"
| "phase_shape b cs Settled = (\<exists>d. cs = [BundleCall b d])"
| "phase_shape b cs Persisted = (cs = [BundleCall b PD_PERSISTED])"
| "phase_shape b cs (Prepared p) =
     (cs = [BundleCall b PD_PERSISTED, FenceCall p] \<and> tf_state p = TF_PREPARED \<and>
      tf_bundle p = Some (sb_digest (dev_bundle b)))"
| "phase_shape b cs (InFlight p f) =
     (cs = [BundleCall b PD_PERSISTED, FenceCall p, FenceCall f] \<and> tf_state p = TF_PREPARED \<and>
      tf_bundle p = Some (sb_digest (dev_bundle b)) \<and> tf_state f = TF_IN_FLIGHT \<and> fence_chained p f)"
| "phase_shape b cs (Reserved p f) =
     (\<exists>r. cs = [BundleCall b PD_PERSISTED, FenceCall p, FenceCall f, ReservationCall r] \<and> tf_state p = TF_PREPARED \<and>
      tf_bundle p = Some (sb_digest (dev_bundle b)) \<and> tf_state f = TF_IN_FLIGHT \<and> fence_chained p f \<and>
      rs_state r = IN_FLIGHT)"
| "phase_shape b cs (Started f e) = (\<exists>p r. opened b p f r e cs \<and> grants_ok e cs)"
| "phase_shape b cs _ = (\<exists>p f r e. opened b p f r e cs \<and> grants_ok e cs)"

lemma protocol_step_shape:
  assumes "phase_shape b cs ph" and "protocol_step b ph c = Some ph'"
  shows "phase_shape b (cs @ [c]) ph'"
  using assms(2,1)
proof (cases rule: protocol_step.elims)
  case (5 p f e)
  then show ?thesis using assms by (auto simp: opened_def grants_ok_def split: if_splits)
qed (use assms(1) in \<open>fastforce intro: opened_snoc split: if_splits\<close>)+

lemma track_shape: "track b Waiting cs = Some ph \<Longrightarrow> phase_shape b cs ph"
proof (induction cs arbitrary: ph rule: rev_induct)
  case (snoc c cs)
  then show ?case using protocol_step_shape by (auto simp: track_snoc split: option.splits)
qed simp

lemma granted_shape:
  assumes "track b Waiting cs = Some ph" and "Granted t a \<in> set cs"
  shows "\<exists>p f r e. opened b p f r e cs \<and> grant_ok e t a"
proof -
  have "phase_shape b cs ph" by (rule track_shape [OF assms(1)])
  with assms(2) show ?thesis by (cases ph; fastforce simp: grants_ok_def)
qed



section \<open>A concrete run\<close>

definition run_digests :: lifecycle_digests where
  "run_digests = \<lparr>h_evidence = flat_digests, h_fence = fence_dg, h_reservation = const_dg,
     h_failure = \<lambda>_ _. filler_digest\<rparr>"

text \<open>The world is the list of the clock's readings to come; an assessment is one time unit older than the next.\<close>

definition run_ports :: "int list ports" where
  "run_ports = \<lparr>p_clock = \<lambda>w. (Some (hd w), tl w), p_active = \<lambda>w. (Inr (), w),
     p_assess = \<lambda>w. (Task 0 (Inr (fresh_assessment (hd w - 1))), w),
     p_persist = \<lambda>r w. (Task 0 (Inr \<lparr>dps_candidate = dev_identity r, dps_decision = PD_PERSISTED, dps_observed = r,
        dps_receipt = Some run_bundle_receipt\<rparr>), w),
     p_evidence = \<lambda>_ _ r _ _ w. (Task 0 (Inr (run_receipts (dev_state r))), w),
     p_fence = \<lambda>_ _ r w. (Task 0 (Inr \<lparr>ft_prior = None, ft_record = r, ft_store_digest = filler_digest,
        ft_recorded_at = tf_changed_at r, ft_digest = filler_digest\<rparr>), w),
     p_reservation = \<lambda>_ _ r w. (Task 0 (Inr run_in_flight_receipt), w),
     p_dispatch = \<lambda>_ _. CallGuard (\<lambda>_. Finish
       (Inr (TP_ACKNOWLEDGED, SK_COMMITTED, Some filler_digest, Some filler_digest)))\<rparr>"

abbreviation run_preparing :: fence where
  "run_preparing \<equiv> run_fence False TF_PREPARING 1 12 False False"

abbreviation run_prepared :: fence where
  "run_prepared \<equiv> run_fence False TF_PREPARED 2 15 True False"

abbreviation run_in_flight :: fence where
  "run_in_flight \<equiv> run_fence False TF_IN_FLIGHT 3 16 True False"

abbreviation run_pending :: fence where
  "run_pending \<equiv> run_fence False TF_RELEASE_PENDING 4 28 True False"

lemma run_fence_built:
  assumes "1 \<le> n" "0 \<le> t" "list_all (\<lambda>c. \<not> fst c) (fence_shape (run_fence False x n t a c))"
  shows "build_fence fence_dg ((run_fence False x n t a c)\<lparr>tf_digest := y\<rparr>) = Inr (run_fence False x n t a c)"
proof -
  have "valid_fence fence_dg (run_fence False x n t a c)" by (rule run_fence_valid) (use assms in simp_all)
  then show ?thesis by (simp add: build_fence_def valid_fence_def Let_def) (simp add: run_fence_def)
qed

lemma run_mark:
  "mark_in_flight fence_dg run_prepared (Some 16) = Inr run_in_flight"
  "mark_release_pending fence_dg run_in_flight (Some 28) = Inr run_pending"
proof -
  have "build_fence fence_dg (run_in_flight\<lparr>tf_digest := []\<rparr>) = Inr run_in_flight"
    "build_fence fence_dg (run_pending\<lparr>tf_digest := []\<rparr>) = Inr run_pending"
    by (rule run_fence_built; simp add: fence_shape_def run_fence_sel)+
  then show "mark_in_flight fence_dg run_prepared (Some 16) = Inr run_in_flight"
    "mark_release_pending fence_dg run_in_flight (Some 28) = Inr run_pending"
    by (simp_all add: mark_in_flight_def mark_release_pending_def next_fence_def run_fence_def blank_fence_def
        first_failure.simps)
qed

lemmas run_simps = seq_simp on_world_def log_call_def set_call_at_def get_call_at_def read_clock_def check_active_def
  write_defs plain_await_def await_after_dispatch_def code_res_def from_sum_def give_def

lemma run_ports_sel:
  "p_clock run_ports w = (Some (hd w), tl w)" "p_active run_ports w = (Inr (), w)"
  "p_assess run_ports w = (Task 0 (Inr (fresh_assessment (hd w - 1))), w)"
  "p_evidence run_ports d n r br a w = (Task 0 (Inr (run_receipts (dev_state r))), w)"
  "p_fence run_ports d n f w = (Task 0 (Inr \<lparr>ft_prior = None, ft_record = f, ft_store_digest = filler_digest,
        ft_recorded_at = tf_changed_at f, ft_digest = filler_digest\<rparr>), w)"
  "p_reservation run_ports d n x w = (Task 0 (Inr run_in_flight_receipt), w)"
  "p_dispatch run_ports r t = CallGuard (\<lambda>_. Finish
       (Inr (TP_ACKNOWLEDGED, SK_COMMITTED, Some filler_digest, Some filler_digest)))"
  "p_persist run_ports r w = (Task 0 (Inr \<lparr>dps_candidate = dev_identity r, dps_decision = PD_PERSISTED,
     dps_observed = r, dps_receipt = Some run_bundle_receipt\<rparr>), w)"
  "h_evidence run_digests = flat_digests" "h_fence run_digests = fence_dg" "h_reservation run_digests = const_dg"
  by (simp_all add: run_ports_def run_digests_def)

lemma run_receipts_sel: "dtr_recorded_at (run_receipts s) = dev_changed_at (run_evidence s)"
  by (simp add: run_receipts_def)

text \<open>One call each on the concrete ports.\<close>

lemma seq_weak_cong: "m = m' \<Longrightarrow> s = s' \<Longrightarrow> seq m f s = seq m' f s'"
  by simp

lemma run_calls:
  "read_clock run_ports \<lparr>rn_world = c # w, rn_call_at = v, rn_calls = cs\<rparr> =
     (Inr c, \<lparr>rn_world = w, rn_call_at = v, rn_calls = cs\<rparr>)"
  "check_active run_ports s = (Inr (), s)"
  "write_fence_plain run_ports p f s = (Inr \<lparr>ft_prior = None, ft_record = f, ft_store_digest = filler_digest,
     ft_recorded_at = tf_changed_at f, ft_digest = filler_digest\<rparr>, s\<lparr>rn_calls := rn_calls s @ [FenceCall f]\<rparr>)"
  "write_fence_shielded run_ports p f s = (Inr (\<lparr>ft_prior = None, ft_record = f, ft_store_digest = filler_digest,
     ft_recorded_at = tf_changed_at f, ft_digest = filler_digest\<rparr>, False),
     s\<lparr>rn_calls := rn_calls s @ [FenceCall f]\<rparr>)"
  "write_reservation run_ports p' r s = (Inr run_in_flight_receipt, s\<lparr>rn_calls := rn_calls s @ [ReservationCall r]\<rparr>)"
  "write_start run_ports e e' br s =
     (Inr (run_receipts (dev_state e')), s\<lparr>rn_calls := rn_calls s @ [EvidenceCall e']\<rparr>)"
  "write_evidence_shielded run_ports e e' a s =
     (Inr (run_receipts (dev_state e'), False), s\<lparr>rn_calls := rn_calls s @ [EvidenceCall e']\<rparr>)"
  "code (Inr x) s = (Inr x, s)"
  by (simp_all add: run_simps run_ports_sel evidence_time_def)

lemma run_begin:
  "begin_in_flight run_digests run_ports run_receipt (run_append 14) (run_evidence DE_BUNDLE_PERSISTED) run_preparing
     run_bundle_receipt 14 \<lparr>rn_world = 15 # 16 # 20 # 20 # w, rn_call_at = None, rn_calls = cs\<rparr> =
   (Inr (run_in_flight, run_evidence DE_DISPATCH_STARTED, 20, run_receipts DE_DISPATCH_STARTED),
    \<lparr>rn_world = w, rn_call_at = None, rn_calls = cs @ [FenceCall run_prepared, FenceCall run_in_flight,
       ReservationCall run_2, EvidenceCall (run_evidence DE_DISPATCH_STARTED)]\<rparr>)"
proof -
  have b: "sb_digest run_bundle = filler_digest" "rt_record run_receipt = run_1" by (simp_all add: run_bundle_def run_receipt_def)
  show ?thesis
  unfolding begin_in_flight_def
  by (simp add: seq_simp run_calls run_ports_sel run_bundle_sel run_evidence_sel run_attach run_mark give_def b
      run_operations run_steps run_receipt_facts run_fence_sel Let_def cong: seq_weak_cong let_weak_cong)
qed


lemma fresh_sel: "la_evaluated_at (fresh_assessment t) = t" "la_valid_until (fresh_assessment t) = 90"
  "la_eligible (fresh_assessment t)" "rc_receipt_digest (la_receipt (fresh_assessment t)) = filler_digest"
  "same_verifier (fresh_assessment t) run_evidence_identity"
  by (simp_all add: fresh_assessment_def sample_assessment_def sample_receipt_def same_verifier_def run_identity_sel)

lemma run_guard:
  "pre_invoke_guard run_ports run_evidence_identity 20 (run_receipts DE_DISPATCH_STARTED)
     \<lparr>rn_world = 22 # w, rn_call_at = v, rn_calls = cs\<rparr> =
   (Inr 22, \<lparr>rn_world = w, rn_call_at = Some 22, rn_calls = cs @ [Granted 22 (fresh_assessment 21)]\<rparr>)"
proof -
  have "validate_pre_dispatch_ownership run_evidence_identity (fresh_assessment 21) 22 = Inr ()"
    by (simp add: validate_pre_dispatch_ownership_def require_current_ownership_def lock_time_def fresh_sel
        run_identity_sel first_failure.simps)
  moreover have "on_world (p_assess run_ports) \<lparr>rn_world = 22 # w, rn_call_at = v, rn_calls = cs\<rparr> =
      (Inr (Task 0 (Inr (fresh_assessment 21))), \<lparr>rn_world = 22 # w, rn_call_at = v, rn_calls = cs\<rparr>)"
    by (simp add: on_world_def run_ports_sel)
  ultimately show ?thesis
    unfolding pre_invoke_guard_def
    by (simp add: seq_simp run_calls plain_await_def fresh_sel run_receipts_sel run_evidence_sel log_call_def set_call_at_def
        Let_def cong: seq_weak_cong let_weak_cong)
qed

lemma run_dispatch:
  "dispatch_provider run_digests run_ports (run_evidence DE_BUNDLE_PERSISTED) (run_evidence DE_DISPATCH_STARTED) 20
     (run_receipts DE_DISPATCH_STARTED) \<lparr>rn_world = 22 # w, rn_call_at = v, rn_calls = cs\<rparr> =
   (Inr ((TP_ACKNOWLEDGED, SK_COMMITTED, Some filler_digest, Some filler_digest), False, None),
    \<lparr>rn_world = w, rn_call_at = Some 22, rn_calls = cs @ [Granted 22 (fresh_assessment 21)]\<rparr>)"
  unfolding dispatch_provider_def
  by (simp add: seq_simp catch_def run_ports_sel run_evidence_sel run_guard get_call_at_def cong: seq_weak_cong)

definition run_result_of :: "lifecycle_result" where
  "run_result_of = \<lparr>lcr_kind = TK_RESOLVED, lcr_bundle = Some filler_digest, lcr_fence = Some run_pending,
     lcr_evidence = Some (run_evidence DE_PRE_RELEASE), lcr_pre_release = Some (run_receipts DE_PRE_RELEASE),
     lcr_release_fence = Some run_pending,
     lcr_release_receipt = Some \<lparr>ft_prior = None, ft_record = run_pending, ft_store_digest = filler_digest,
       ft_recorded_at = 28, ft_digest = filler_digest\<rparr>,
     lcr_dispatched = True, lcr_cancelled = False, lcr_reason = None\<rparr>"

lemma run_close:
  "close_dispatch run_digests run_ports (run_evidence DE_BUNDLE_PERSISTED) run_in_flight
     (run_evidence DE_DISPATCH_STARTED) 20 (run_receipts DE_DISPATCH_STARTED)
     ((TP_ACKNOWLEDGED, SK_COMMITTED, Some filler_digest, Some filler_digest), False, None)
     \<lparr>rn_world = 25 # 27 # 28 # w, rn_call_at = Some 22, rn_calls = cs\<rparr> =
   (Inr run_result_of, \<lparr>rn_world = w, rn_call_at = Some 22, rn_calls = cs @ [EvidenceCall (run_evidence DE_DISPATCH_OBSERVED),
      EvidenceCall (run_evidence DE_PRE_RELEASE), FenceCall run_pending]\<rparr>)"
proof -
  have "dpc_continuity run_checkpoint = PR_CURRENT" "dob_observed_at run_observation = 25"
    "sb_digest run_bundle = filler_digest" "h_checkpoint flat_digests = (\<lambda>_. filler_digest)"
    by (simp_all add: run_checkpoint_def run_observation_def run_bundle_def flat_digests_def)
  moreover have "on_world (p_assess run_ports) \<lparr>rn_world = 27 # w, rn_call_at = v, rn_calls = cs\<rparr> =
      (Inr (Task 0 (Inr (fresh_assessment 26))), \<lparr>rn_world = 27 # w, rn_call_at = v, rn_calls = cs\<rparr>)" for v w cs
    by (simp add: on_world_def run_ports_sel)
  moreover have "lifecycle_result_init run_result_of = Inr run_result_of"
    by (simp add: lifecycle_result_init_def run_result_of_def terminal_shape_def optional_check_def
        evidence_digest_check_def filler_ok first_failure.simps)
  ultimately show ?thesis
    unfolding close_dispatch_def observe_dispatch_def record_continuity_def release_fence_def
    by (simp add: seq_simp run_calls get_call_at_def run_ports_sel run_evidence_sel run_receipts_sel run_steps run_pre_release
      run_mark await_after_dispatch_def assessment_outcome_def fresh_sel quarantined_def run_fence_sel
      run_result_of_def Let_def cong: seq_weak_cong let_weak_cong)
qed

lemma run_resolved:
  "run_lifecycle run_digests run_ports run_receipt (run_append 14) (run_evidence DE_BUNDLE_PERSISTED) run_preparing
     (Some 14) (start_run [15, 16, 20, 20, 22, 25, 27, 28]) =
   (Inr run_result_of, \<lparr>rn_world = [], rn_call_at = Some 22,
     rn_calls = [BundleCall (run_evidence DE_BUNDLE_PERSISTED) PD_PERSISTED, FenceCall run_prepared,
       FenceCall run_in_flight, ReservationCall run_2, EvidenceCall (run_evidence DE_DISPATCH_STARTED),
       Granted 22 (fresh_assessment 21), EvidenceCall (run_evidence DE_DISPATCH_OBSERVED),
       EvidenceCall (run_evidence DE_PRE_RELEASE), FenceCall run_pending]\<rparr>)"
proof -
  have "rt_record run_receipt = run_1" "rt_record (ai_reservation (ap_intent (run_append 14))) = run_1"
    by (simp_all add: run_receipt_def run_append_def run_intent_def)
  then have "validate_prior_phases run_ports run_receipt (run_append 14) (run_evidence DE_BUNDLE_PERSISTED) run_preparing s =
      (Inr (), s)" for s
    unfolding validate_prior_phases_def
    by (simp add: seq_simp run_calls first_failure.simps run_1_sel run_evidence_sel run_fence_sel code_res_def cong: seq_weak_cong)
  moreover have "persist_bundle run_ports (run_evidence DE_BUNDLE_PERSISTED) s =
      (Inr \<lparr>dps_candidate = run_evidence_identity, dps_decision = PD_PERSISTED,
        dps_observed = run_evidence DE_BUNDLE_PERSISTED, dps_receipt = Some run_bundle_receipt\<rparr>,
       s\<lparr>rn_calls := rn_calls s @ [BundleCall (run_evidence DE_BUNDLE_PERSISTED) PD_PERSISTED]\<rparr>)" for s
    unfolding persist_bundle_def by (simp add: run_simps run_ports_sel run_evidence_sel)
  ultimately show ?thesis
    unfolding run_lifecycle_def start_run_def
    by (simp add: seq_simp run_calls evidence_time_def run_begin run_dispatch run_close cong: seq_weak_cong)
qed



end
