(* ===== verification/HilPark.thy ===== *)
theory HilPark
  imports Approval
begin

text \<open>
  Deciding one parked human approval (\<open>core/hil_resume\<close>): who may approve (\<open>delegation.py\<close>), the
  checks of a park record (\<open>approval_records.py\<close>, \<open>integrity.py\<close>, \<open>rule_source.py\<close>,
  \<open>approval_profile_gate.py\<close>, \<open>report_line.py\<close>), and what \<open>HilResumeCoordinator.resolve\<close>
  makes of a decision and the park it read (\<open>coordinator.py\<close>).

  A park is the mapping the state store keeps. \<open>hil_env\<close> holds what is fixed for a coordinator: the
  parsers of the contract models, the digests, \<open>str\<close> on foreign values and the catalog of rules.
  \<open>resolve_reads\<close> holds what the awaited calls and the clock gave during one call.
\<close>

type_synonym park = "(string, json) dict"

section \<open>Who may approve\<close>

datatype delegation_mode = DIRECT | DELEGATED | ROLE_SCOPED

datatype delegation_refusal =
    DR_BLANK_APPROVER | DR_UNKNOWN_SUBMITTER | DR_SELF_APPROVAL | DR_MISSING_CAPABILITY
  | DR_UNNAMED_PRINCIPAL | DR_APPROVER_IS_EXECUTOR

fun delegation_refusal_value :: "delegation_refusal \<Rightarrow> string" where
  "delegation_refusal_value DR_BLANK_APPROVER = ''blank_approver''"
| "delegation_refusal_value DR_UNKNOWN_SUBMITTER = ''unknown_submitter''"
| "delegation_refusal_value DR_SELF_APPROVAL = ''self_approval''"
| "delegation_refusal_value DR_MISSING_CAPABILITY = ''missing_capability''"
| "delegation_refusal_value DR_UNNAMED_PRINCIPAL = ''unnamed_principal''"
| "delegation_refusal_value DR_APPROVER_IS_EXECUTOR = ''approver_is_executor''"

record delegation =
  dl_allowed :: bool
  dl_mode :: "delegation_mode option"
  dl_refusal :: "delegation_refusal option"
  dl_profile :: "approval_decision option"

fun delegation_refusal_of :: "approval_refusal option \<Rightarrow> delegation_refusal" where
  "delegation_refusal_of (Some BLANK_APPROVER) = DR_BLANK_APPROVER"
| "delegation_refusal_of (Some UNKNOWN_REQUESTER) = DR_UNKNOWN_SUBMITTER"
| "delegation_refusal_of (Some UNNAMED_PRINCIPAL) = DR_UNNAMED_PRINCIPAL"
| "delegation_refusal_of (Some APPROVER_IS_EXECUTOR) = DR_APPROVER_IS_EXECUTOR"
| "delegation_refusal_of _ = DR_SELF_APPROVAL"

definition same_principal :: "string \<Rightarrow> string \<Rightarrow> bool" where
  "same_principal left right = (py_casefold left = py_casefold right)"

definition evaluate_hil_delegation ::
  "string \<Rightarrow> string \<Rightarrow> bool \<Rightarrow> string option \<Rightarrow> approval_profile option \<Rightarrow> int \<Rightarrow> string option \<Rightarrow>
     delegation res" where
  "evaluate_hil_delegation approver_oid submitter_oid can_approve assignee_oid profile q executor =
     (let approver = py_strip approver_oid; submitter = py_strip submitter_oid;
          assignee = py_strip (case assignee_oid of None \<Rightarrow> [] | Some a \<Rightarrow> a)
      in bind_res (evaluate_profile_approval profile approver submitter q executor) (\<lambda>d.
        let allow = (\<lambda>m. Inr \<lparr>dl_allowed = True, dl_mode = Some m, dl_refusal = None, dl_profile = Some d\<rparr>);
            refuse = (\<lambda>r. Inr \<lparr>dl_allowed = False, dl_mode = None, dl_refusal = Some r, dl_profile = Some d\<rparr>)
        in if \<not> allowed d then refuse (delegation_refusal_of (refusal d))
           else if \<not> can_approve then refuse DR_MISSING_CAPABILITY
           else if assignee = [] then allow ROLE_SCOPED
           else if same_principal approver assignee then allow DIRECT
           else allow DELEGATED))"

definition is_delegated :: "delegation \<Rightarrow> bool" where
  "is_delegated d = (dl_allowed d \<and> dl_mode d = Some DELEGATED)"

section \<open>Environment\<close>

text \<open>
  Of the parsed contract models only what this code reads. The workflow lineage is the condition
  \<open>action.workflow_action is not None\<close>.
\<close>

record hil_action =
  ha_id :: string
  ha_type :: string
  ha_workflow :: bool

record hil_rule =
  hr_id :: string
  hr_remediates :: string
  hr_reference :: string

record hil_env =
  he_str :: "json \<Rightarrow> string"
  he_sha :: "(string \<times> json) list \<Rightarrow> string"
  he_isofmt :: "int \<Rightarrow> string"
  he_from_iso :: "string \<Rightarrow> int option option"
  he_action_hash :: "(string, json) dict \<Rightarrow> string"
  he_action :: "json \<Rightarrow> hil_action option"
  he_rule :: "json \<Rightarrow> hil_rule option"
  he_rules :: "string \<Rightarrow> hil_rule option"
  he_report_line :: bool

text \<open>
  \<open>rd_pinned\<close> is the answer of \<open>approval_profile_pin_is_authorized\<close>, \<open>rd_route\<close> the digest and path
  revision of the route planned now, \<open>rd_admission\<close> and \<open>rd_revalidation\<close> the eligibility (with a
  grant) and reason of the development admission and of the revalidated category denial.
\<close>

record resolve_reads =
  rd_now :: int
  rd_consent_now :: int
  rd_pinned :: "bool res"
  rd_route :: "(string \<times> json) option"
  rd_admission :: "bool \<times> string"
  rd_revalidation :: "bool \<times> string"

definition field_is :: "park \<Rightarrow> string \<Rightarrow> string \<Rightarrow> bool" where
  "field_is p key v = (dict_get p key = Some (JStr v))"

section \<open>Checks on a park\<close>

datatype hil_decision = HD_APPROVE | HD_REJECT | HD_TIMEOUT | HD_PENDING

fun hil_decision_value :: "hil_decision \<Rightarrow> string" where
  "hil_decision_value HD_APPROVE = ''approve''"
| "hil_decision_value HD_REJECT = ''reject''"
| "hil_decision_value HD_TIMEOUT = ''timeout''"
| "hil_decision_value HD_PENDING = ''pending''"

definition parse_hil_decision :: "string \<Rightarrow> hil_decision option" where
  "parse_hil_decision s = (if s = ''approve'' then Some HD_APPROVE else if s = ''reject'' then Some HD_REJECT
     else if s = ''timeout'' then Some HD_TIMEOUT else if s = ''pending'' then Some HD_PENDING else None)"

text \<open>The argument is \<open>None\<close> for a value that is not a string.\<close>

definition resolvable_decision :: "string option \<Rightarrow> hil_decision option" where
  "resolvable_decision v = (case Option.bind v parse_hil_decision of
     Some d \<Rightarrow> (if d \<in> {HD_APPROVE, HD_REJECT, HD_TIMEOUT} then Some d else None)
   | None \<Rightarrow> None)"

text \<open>\<open>datetime.fromisoformat(raw.replace("Z", "+00:00"))\<close>\<close>

definition iso_instant :: "hil_env \<Rightarrow> string \<Rightarrow> int option option" where
  "iso_instant E raw = he_from_iso E
     (concat (map (\<lambda>c. if c = CHR ''Z'' then ''+00:00'' else [c]) raw))"

text \<open>A deadline read from a field: missing, blank, malformed, naive and past ones are all due.\<close>

definition deadline_due :: "hil_env \<Rightarrow> json option \<Rightarrow> int \<Rightarrow> bool" where
  "deadline_due E raw now = (case raw of
     Some (JStr s) \<Rightarrow> s = [] \<or> (case iso_instant E s of Some (Some t) \<Rightarrow> t \<le> now | _ \<Rightarrow> True)
   | _ \<Rightarrow> True)"

definition approval_expired :: "hil_env \<Rightarrow> park \<Rightarrow> int \<Rightarrow> bool" where
  "approval_expired E p now = (case as_mapping (dict_get p ''approval_context'') of
     None \<Rightarrow> True | Some context \<Rightarrow> deadline_due E (dict_get context ''expires_at'') now)"

definition contact_consent_expired :: "hil_env \<Rightarrow> park \<Rightarrow> int \<Rightarrow> bool" where
  "contact_consent_expired E p now = deadline_due E (dict_get p ''contact_consent_expires_at'') now"

definition parked_action_integrity_matches :: "hil_env \<Rightarrow> park \<Rightarrow> bool" where
  "parked_action_integrity_matches E p =
     (let recorded = dict_get_null p ''action_hash'';
          expected = (case as_mapping (dict_get p ''escalation'') of
              Some escalation \<Rightarrow> (if recorded = JNull then dict_get_null escalation ''action_hash'' else recorded)
            | None \<Rightarrow> recorded)
      in case (expected, as_mapping (dict_get p ''action'')) of
           (JStr h, Some action) \<Rightarrow> h \<noteq> [] \<and> h = he_action_hash E action
         | _ \<Rightarrow> False)"

definition resolve_parked_rule :: "hil_env \<Rightarrow> park \<Rightarrow> hil_action \<Rightarrow> hil_rule option" where
  "resolve_parked_rule E p action =
     (let rule_id = text_or (he_str E) p ''rule_id'' [] in
      case he_rules E rule_id of
        Some rule \<Rightarrow> Some rule
      | None \<Rightarrow>
          (if rule_id \<noteq> ''operator.request.'' @ ha_type action then None
           else (case he_rule E (dict_get_null p ''rule'') of
               None \<Rightarrow> None
             | Some rule \<Rightarrow>
                 (if hr_id rule \<noteq> rule_id \<or> hr_remediates rule \<noteq> ha_type action \<or>
                     hr_reference rule \<noteq> ''server-validated-operator-request''
                  then None else Some rule))))"

definition development_owner_only :: "park \<Rightarrow> bool" where
  "development_owner_only p = (case as_mapping (dict_get p ''development_authority'') of
     None \<Rightarrow> False
   | Some block \<Rightarrow> dict_get block ''owner_self_approval_only'' \<noteq> None \<or> field_is block ''original_level'' ''deny'')"

text \<open>The pinned profile, or the reason why it cannot be honored.\<close>

definition parked_approval_profile ::
  "hil_env \<Rightarrow> resolve_reads \<Rightarrow> park \<Rightarrow> (string + approval_profile option) res" where
  "parked_approval_profile E rd p =
     (case approval_profile_from_audit_dict (he_sha E) (he_isofmt E) (he_from_iso E) (py_str (he_str E))
         (as_mapping (dict_get p ''approval_profile'')) of
       Inl _ \<Rightarrow> Inr (Inl ''approval_profile_malformed'')
     | Inr None \<Rightarrow> Inr (Inr None)
     | Inr (Some profile) \<Rightarrow> bind_res (rd_pinned rd) (\<lambda>ok.
         Inr (if ok then Inr (Some profile) else Inl ''approval_profile_unavailable'')))"

text \<open>\<open>ReportLineHilCoordinator.route_is_current\<close>\<close>

definition route_is_current :: "hil_env \<Rightarrow> resolve_reads \<Rightarrow> park \<Rightarrow> string \<Rightarrow> bool" where
  "route_is_current E rd p approver =
     (case as_mapping (dict_get p ''report_line_route'') of
        None \<Rightarrow> True
      | Some route \<Rightarrow> (case rd_route rd of
          None \<Rightarrow> False
        | Some (digest, path_revision) \<Rightarrow>
            field_is route ''route_digest'' digest \<and>
            py_eq path_revision (dict_get_null route ''path_revision'') \<and>
            py_casefold (py_strip approver) =
              py_casefold (py_strip (text_or (he_str E) p ''assignee_oid'' []))))"

text \<open>\<open>int(x)\<close>: decimal digits, single underscores between them, a sign and blanks around.\<close>

fun int_digits :: "int \<Rightarrow> bool \<Rightarrow> string \<Rightarrow> int option" where
  "int_digits acc digit [] = (if digit then Some acc else None)"
| "int_digits acc digit (c # cs) =
     (let n = code_point c in
      if 48 \<le> n \<and> n \<le> 57 then int_digits (acc * 10 + (int n - 48)) True cs
      else if n = 95 \<and> digit then int_digits acc False cs
      else None)"

definition parse_int :: "string \<Rightarrow> int option" where
  "parse_int s = (case py_strip s of
     [] \<Rightarrow> None
   | c # cs \<Rightarrow> (if c = CHR ''-'' then map_option uminus (int_digits 0 False cs)
       else if c = CHR ''+'' then int_digits 0 False cs else int_digits 0 False (c # cs)))"

definition py_int :: "json \<Rightarrow> int res" where
  "py_int j = (case j of
     JInt i \<Rightarrow> Inr i
   | JBool b \<Rightarrow> Inr (if b then 1 else 0)
   | JFloat r \<Rightarrow> Inr (if r < 0 then \<lceil>r\<rceil> else \<lfloor>r\<rfloor>)
   | JStr s \<Rightarrow> (case parse_int s of
       None \<Rightarrow> Inl (ValueError ''invalid literal for int() with base 10'') | Some i \<Rightarrow> Inr i)
   | _ \<Rightarrow> Inl (TypeError ''int() argument must be a string or a real number''))"

definition recorded_quorum :: "park \<Rightarrow> int res" where
  "recorded_quorum p =
     (let original = dict_get_null p ''original_quorum_required'';
          effective = dict_get_null p ''effective_quorum_required''
      in py_int (if json_truthy original then original
                 else if json_truthy effective then effective else JInt 1))"

section \<open>What a decision comes to\<close>

datatype resolve_outcome =
    RZ_EXECUTED | RZ_EXECUTE_FAILED | RZ_EXECUTION_PENDING | RZ_EXECUTION_NOT_ATTEMPTED
  | RZ_REJECTED | RZ_TIMED_OUT | RZ_ALREADY_RESOLVED | RZ_NOT_FOUND | RZ_SELF_APPROVAL_REFUSED
  | RZ_OWNER_SELF_APPROVAL_REQUIRED | RZ_DECISION_REFUSED | RZ_MISSING_CAPABILITY
  | RZ_CONFLICTING_DECISION | RZ_OWNED_ROUTE_HELD | RZ_CONTACT_CONSENT_REQUIRED

record resolve_result =
  rz_outcome :: resolve_outcome
  rz_reason :: "string option"
  rz_delegated :: bool
  rz_assignee :: "string option"

definition rz :: "resolve_outcome \<Rightarrow> string option \<Rightarrow> string option \<Rightarrow> resolve_result" where
  "rz outcome reason assignee =
     \<lparr>rz_outcome = outcome, rz_reason = reason, rz_delegated = False, rz_assignee = assignee\<rparr>"

record hil_audit =
  au_kind :: string
  au_key :: string
  au_approval :: string
  au_correlation :: string

record resolve_call =
  rc_approval :: string
  rc_decision :: "string option"
  rc_approver :: string
  rc_reason :: string
  rc_can_approve :: bool
  rc_attested :: bool

text \<open>
  Up to its first write a call only reads, so the park it read determines what it does next: an
  answer that leaves the park alone, closing the park without an execution, or claiming it for the
  execution. The audit entries are those written on the way.
\<close>

datatype hil_plan =
    Answer "hil_audit list" resolve_result
  | Close "hil_audit list" hil_decision string string resolve_result
  | Claim "hil_audit list" delegation hil_action "hil_rule option"

definition park_audit :: "hil_env \<Rightarrow> resolve_call \<Rightarrow> park \<Rightarrow> string \<Rightarrow> string \<Rightarrow> hil_audit" where
  "park_audit E c p kind suffix =
     \<lparr>au_kind = kind, au_key = text_or (he_str E) p ''idempotency_key'' (rc_approval c) @ suffix,
      au_approval = rc_approval c, au_correlation = text_or (he_str E) p ''correlation_id'' (rc_approval c)\<rparr>"

definition parked_assignee :: "hil_env \<Rightarrow> park \<Rightarrow> string option" where
  "parked_assignee E p = some_stripped (text_or (he_str E) p ''assignee_oid'' [])"

text \<open>
  \<open>_admit_development_self_approval\<close>: the admitted Owner approves directly; any refusal closes
  the park as rejected.
\<close>

definition development_gate ::
  "hil_env \<Rightarrow> resolve_reads \<Rightarrow> resolve_call \<Rightarrow> park \<Rightarrow> hil_plan + hil_audit list \<times> delegation" where
  "development_gate E rd c p =
     (let (eligible, reason) =
        (if development_owner_only p \<and> fst (rd_admission rd) \<and> \<not> fst (rd_revalidation rd)
         then rd_revalidation rd else rd_admission rd);
          audit = park_audit E c p
            (if eligible then ''hil.resolve.development_self_approval''
             else ''hil.resolve.development_self_approval_refused'') '':hil_development_self_approval''
      in if eligible
         then Inr ([audit], \<lparr>dl_allowed = True, dl_mode = Some DIRECT, dl_refusal = None, dl_profile = None\<rparr>)
         else Inl (Close [audit] HD_REJECT ''system:development-admission''
                ''hil.resolve.development_self_approval_closed'' (rz RZ_SELF_APPROVAL_REFUSED (Some reason) None)))"

definition refusal_plan :: "hil_env \<Rightarrow> resolve_call \<Rightarrow> park \<Rightarrow> delegation \<Rightarrow> hil_plan" where
  "refusal_plan E c p d =
     (let assignee = parked_assignee E p in
      if dl_refusal d = Some DR_MISSING_CAPABILITY
      then Answer [park_audit E c p ''hil.resolve.capability_refused'' '':hil_capability_refused'']
             (rz RZ_MISSING_CAPABILITY None assignee)
      else if dl_refusal d \<in> {Some DR_UNNAMED_PRINCIPAL, Some DR_APPROVER_IS_EXECUTOR}
      then Answer [park_audit E c p ''hil.resolve.approval_profile_refused'' '':hil_approval_profile_refused'']
             (rz RZ_DECISION_REFUSED (map_option delegation_refusal_value (dl_refusal d)) assignee)
      else Answer [park_audit E c p ''hil.resolve.self_approval_refused'' '':hil_self_approval'']
             (rz RZ_SELF_APPROVAL_REFUSED None None))"

text \<open>What the delegation verdict of an approval leads to.\<close>

definition delegated_plan ::
  "hil_env \<Rightarrow> resolve_reads \<Rightarrow> resolve_call \<Rightarrow> park \<Rightarrow> hil_action \<Rightarrow> delegation \<Rightarrow> hil_plan" where
  "delegated_plan E rd c p action d =
     (if dl_refusal d = Some DR_SELF_APPROVAL \<and> rc_attested c \<and> rc_can_approve c then
        (case development_gate E rd c p of
           Inl plan \<Rightarrow> plan
         | Inr (audits, d) \<Rightarrow> Claim audits d action (resolve_parked_rule E p action))
      else if dl_allowed d \<and> development_owner_only p then
        Answer [park_audit E c p ''hil.resolve.development_owner_only_refused'' '':hil_development_owner_only'']
          (rz RZ_OWNER_SELF_APPROVAL_REQUIRED (Some ''development_owner_self_approval_required'')
            (parked_assignee E p))
      else if \<not> dl_allowed d then refusal_plan E c p d
      else Claim [] d action (resolve_parked_rule E p action))"

text \<open>The branch of \<open>resolve\<close> for an approval that has not expired.\<close>

definition approve_plan ::
  "hil_env \<Rightarrow> resolve_reads \<Rightarrow> resolve_call \<Rightarrow> park \<Rightarrow> approval_profile option \<Rightarrow> hil_plan res" where
  "approve_plan E rd c p profile = (case he_action E (dict_get_null p ''action'') of
     None \<Rightarrow> Inl (ValueError ''validation error for Action'')
   | Some action \<Rightarrow>
      (let assignee = parked_assignee E p;
           routed = as_mapping (dict_get p ''report_line_route'') \<noteq> None in
       if routed \<and> \<not> he_report_line E
       then Inr (Close [] HD_TIMEOUT (rc_approver c) ''hil.report_line.route_unavailable''
              (rz RZ_TIMED_OUT (Some ''report_line_route_unavailable'') assignee))
       else if routed \<and> \<not> route_is_current E rd p (rc_approver c)
       then Inr (Close [] HD_TIMEOUT (rc_approver c) ''hil.report_line.route_stale''
              (rz RZ_TIMED_OUT (Some ''report_line_route_stale'')
                (let a = text_or (he_str E) p ''assignee_oid'' [] in if a = [] then None else Some a)))
       else bind_res (recorded_quorum p) (\<lambda>q.
            bind_res (evaluate_hil_delegation (rc_approver c)
              (py_strip (text_or (he_str E) p ''submitter_oid'' [])) (rc_can_approve c) assignee profile q None)
              (\<lambda>d. Inr (delegated_plan E rd c p action d)))))"

text \<open>A park that is already resolved.\<close>

definition resolved_answer :: "hil_env \<Rightarrow> resolve_call \<Rightarrow> hil_decision \<Rightarrow> park \<Rightarrow> hil_plan" where
  "resolved_answer E c d p =
     (let prior = text_or (he_str E) p ''decision'' [] in
      if prior = ''timeout'' then Answer [] (rz RZ_TIMED_OUT (Some ''approval_expired'') None)
      else if prior \<noteq> [] \<and> prior \<noteq> hil_decision_value d
      then Answer [park_audit E c p ''hil.resolve.conflict'' '':hil_resolve_conflict'']
             (rz RZ_CONFLICTING_DECISION (Some (''already resolved as '' @ prior)) None)
      else Answer [] (rz RZ_ALREADY_RESOLVED None None))"

definition resolve_plan ::
  "hil_env \<Rightarrow> resolve_reads \<Rightarrow> resolve_call \<Rightarrow> hil_decision \<Rightarrow> park \<Rightarrow> hil_plan res" where
  "resolve_plan E rd c d p =
     bind_res (parked_approval_profile E rd p) (\<lambda>pinned.
     case pinned of
       Inl reason \<Rightarrow> Inr (Answer [park_audit E c p ''hil.resolve.approval_profile_refused'' ('':hil_'' @ reason)]
                        (rz RZ_DECISION_REFUSED (Some reason) None))
     | Inr profile \<Rightarrow>
       if field_is p ''status'' ''awaiting_contact_consent'' then
         (if he_report_line E \<and> contact_consent_expired E p (rd_consent_now rd)
          then Inr (Close [] HD_TIMEOUT ''system:contact-consent-expiry''
                 ''hil.report_line.contact_consent_expired''
                 (rz RZ_TIMED_OUT (Some ''contact_consent_expired'') (parked_assignee E p)))
          else Inr (Answer [park_audit E c p ''hil.resolve.contact_consent_required'' '':contact_consent_required'']
                 (rz RZ_CONTACT_CONSENT_REQUIRED
                   (Some ''report-line approval request has not been sent'') (parked_assignee E p))))
       else if (case as_mapping (dict_get p ''metadata'') of
           None \<Rightarrow> False | Some metadata \<Rightarrow> field_is metadata ''decision_route'' ''human_access'') then
         Inr (Answer [park_audit E c p ''hil.resolve.owned_route_held'' '':owned_route_held'']
           (rz RZ_OWNED_ROUTE_HELD
             (Some ''human access approval requires the Var-owned exact-material quorum'') None))
       else if field_is p ''status'' ''resolved'' then Inr (resolved_answer E c d p)
       else if \<not> parked_action_integrity_matches E p then
         Inr (Close [] HD_TIMEOUT (rc_approver c) ''hil.resolve.integrity_failed''
           (rz RZ_TIMED_OUT (Some ''approval_integrity_failed'') None))
       else if d = HD_APPROVE \<and> approval_expired E p (rd_now rd) then
         Inr (Close [] HD_TIMEOUT (rc_approver c) ''hil.timeout''
           (rz RZ_TIMED_OUT (Some ''approval_expired'') None))
       else (case d of
           HD_APPROVE \<Rightarrow> approve_plan E rd c p profile
         | HD_REJECT \<Rightarrow> Inr (Close [] d (rc_approver c) ''hil.rejected'' (rz RZ_REJECTED (Some (rc_reason c)) None))
         | HD_TIMEOUT \<Rightarrow> Inr (Close [] d (rc_approver c) ''hil.timeout'' (rz RZ_TIMED_OUT None None))
         | HD_PENDING \<Rightarrow> Inr (Answer [park_audit E c p ''hil.resolve.dispatch_refused'' '':hil_dispatch_refused'']
             (rz RZ_DECISION_REFUSED (Some ''approval_not_admitted'') None))))"

text \<open>\<open>_race_result\<close>: another writer got there first.\<close>

definition race_result :: "hil_env \<Rightarrow> hil_decision \<Rightarrow> park option \<Rightarrow> resolve_result" where
  "race_result E attempted latest =
     (let prior = (case latest of None \<Rightarrow> [] | Some p \<Rightarrow> text_or (he_str E) p ''decision'' []) in
      if prior = ''timeout'' then rz RZ_TIMED_OUT (Some ''approval_expired'') None
      else if prior \<noteq> [] \<and> prior \<noteq> hil_decision_value attempted
      then rz RZ_CONFLICTING_DECISION (Some (''already resolved as '' @ prior)) None
      else rz RZ_ALREADY_RESOLVED None None)"

section \<open>Writing the decision\<close>

text \<open>
  \<open>_mark_resolved\<close>: the record one attempt writes over its candidate, and the fields that must
  not have changed when another attempt starts from a newer record.
\<close>

definition park_revision :: "park \<Rightarrow> int res" where
  "park_revision p = (case dict_get p ''revision'' of
     None \<Rightarrow> Inr 0
   | Some (JInt n) \<Rightarrow> (if n < 0
       then Inl (ValueError ''parked approval revision MUST be a non-negative integer'') else Inr n)
   | Some _ \<Rightarrow> Inl (ValueError ''parked approval revision MUST be a non-negative integer''))"

definition dict_merge :: "(string, json) dict \<Rightarrow> (string \<times> json) list \<Rightarrow> (string, json) dict" where
  "dict_merge d kvs = fold (\<lambda>(k, v) d. dict_set d k v) kvs d"

definition resolved_record :: "hil_decision \<Rightarrow> string \<Rightarrow> string \<Rightarrow> int \<Rightarrow> park \<Rightarrow> park" where
  "resolved_record d approver stamp revision p =
     (let updated = dict_merge p
        [(''status'', JStr ''resolved''), (''decision'', JStr (hil_decision_value d)),
         (''approver_oid'', JStr approver), (''resolved_at'', JStr stamp), (''revision'', JInt (revision + 1))]
      in case as_mapping (dict_get updated ''escalation'') of
           None \<Rightarrow> updated
         | Some escalation \<Rightarrow> dict_set updated ''escalation'' (JObj (dict_merge escalation
             [(''status'', JStr ''decided''), (''terminal_decision'', JStr (hil_decision_value d))])))"

definition immutable_fields :: "park \<Rightarrow> json \<times> json \<times> json \<times> json" where
  "immutable_fields p = (dict_get_null p ''request_fingerprint'', dict_get_null p ''action_hash'',
     dict_get_null p ''action'', dict_get_null p ''development_authority'')"

definition still_claimable :: "park \<Rightarrow> park option \<Rightarrow> bool" where
  "still_claimable original latest = (case latest of
     None \<Rightarrow> False
   | Some p \<Rightarrow> field_is p ''status'' ''pending'' \<and> immutable_fields p = immutable_fields original)"

text \<open>The state store's compare-and-set on one key; a missing record has revision 0.\<close>

definition cas_park ::
  "(string \<Rightarrow> park option) \<Rightarrow> string \<Rightarrow> park \<Rightarrow> int \<Rightarrow> (string \<Rightarrow> park option) option" where
  "cas_park parks key updated expected =
     (let current = (case parks key of
          None \<Rightarrow> JInt 0
        | Some p \<Rightarrow> (case dict_get p ''revision'' of None \<Rightarrow> JInt 0 | Some r \<Rightarrow> r))
      in if py_eq current (JInt expected) then Some (parks(key \<mapsto> updated)) else None)"

section \<open>Dispatch\<close>

datatype executor_call = EX_DIRECT_API | EX_TOOL_CALL | EX_PR execution_path

text \<open>
  The bindings of \<open>_dispatch\<close>: the conflict reader and the kinetic safety writer with what their
  calls gave (\<open>None\<close> when unbound), the path declared by a known ActionType, the workflow
  coordinator, and which executors are bound.
\<close>

record dispatch_env =
  de_conflicts :: "(bool \<times> string) res option"
  de_writer :: "unit res option"
  de_types :: "string \<Rightarrow> execution_path option option"
  de_coordinator :: "unit res option"
  de_direct :: bool
  de_tool :: bool

definition path_or_pr :: "execution_path option \<Rightarrow> execution_path" where
  "path_or_pr path = (case path of None \<Rightarrow> PR_NATIVE | Some p \<Rightarrow> p)"

definition hil_dispatch :: "dispatch_env \<Rightarrow> hil_action \<Rightarrow> string + executor_call" where
  "hil_dispatch D action =
     (let known = de_types D (ha_type action);
          conflict = (case (de_conflicts D, known) of
             (Some (Inl _), Some _) \<Rightarrow> Some ''evidence-conflict current state is unavailable''
           | (Some (Inr (True, disposition)), Some _) \<Rightarrow>
               Some (''evidence conflict requires shadow-only: '' @ disposition)
           | _ \<Rightarrow> None);
          unsafe = (case de_writer D of
             Some (Inl _) \<Rightarrow> Some ''pre-dispatch kinetic safety evidence is invalid'' | _ \<Rightarrow> None);
          workflow = (if known \<noteq> None \<and> ha_workflow action then (case de_coordinator D of
               None \<Rightarrow> Some ''workflow safeguard pre-bundle coordinator is unavailable''
             | Some (Inl _) \<Rightarrow> Some ''workflow safeguard pre-bundle commitment failed''
             | Some (Inr _) \<Rightarrow> None) else None)
      in case conflict of Some r \<Rightarrow> Inl r | None \<Rightarrow>
        (case unsafe of Some r \<Rightarrow> Inl r | None \<Rightarrow>
        (case workflow of Some r \<Rightarrow> Inl r | None \<Rightarrow>
          (case known of
             Some path \<Rightarrow>
               (if de_direct D \<and> path = Some DIRECT_API then Inr EX_DIRECT_API
                else if de_tool D \<and> path = Some TOOL_CALL then Inr EX_TOOL_CALL
                else Inr (EX_PR (path_or_pr path)))
           | None \<Rightarrow> Inr (EX_PR PR_NATIVE)))))"

text \<open>The outcome an executor reports, by its value (\<open>shared/contracts/execution_outcomes.py\<close>).\<close>

datatype execution_disposition = ED_ACCEPTED | ED_PENDING | ED_NO_EFFECT | ED_FAILED

definition execution_lifecycle_disposition :: "string option \<Rightarrow> execution_disposition" where
  "execution_lifecycle_disposition outcome = (case outcome of
     None \<Rightarrow> ED_FAILED
   | Some v \<Rightarrow>
      if v \<in> {''published'', ''already_existed'', ''dispatched'', ''already_applied'', ''succeeded''}
      then ED_ACCEPTED
      else if v \<in> {''publish_outcome_unknown'', ''awaiting_effect_evidence'', ''receipt_timeout'',
        ''execution_unknown''} then ED_PENDING
      else if v \<in> {''dispatch_not_attempted'', ''abstained_blast_radius'', ''abstained_precondition'',
        ''abstained_render_error'', ''authentication_failed'', ''permission_denied'', ''policy_denied'',
        ''network_denied'', ''rejected_mode'', ''rejected_invariant'', ''rejected_capability_unavailable'',
        ''rejected_idempotency_conflict'', ''expired''} then ED_NO_EFFECT
      else ED_FAILED)"

definition is_execution_success :: "string \<Rightarrow> bool" where
  "is_execution_success v \<longleftrightarrow> v \<in> {''published'', ''already_existed'', ''dispatched'', ''already_applied''}"

text \<open>The last part of \<open>resolve\<close>: the audit entry and the answer for an executor outcome.\<close>

definition executed_answer ::
  "hil_env \<Rightarrow> resolve_call \<Rightarrow> park \<Rightarrow> delegation \<Rightarrow> string \<Rightarrow> hil_audit \<times> resolve_result" where
  "executed_answer E c p d v =
     (let (kind, outcome) =
        (if is_execution_success v then (''hil.approved.executed'', RZ_EXECUTED)
         else if execution_lifecycle_disposition (Some v) = ED_PENDING
           then (''hil.approved.execution_pending'', RZ_EXECUTION_PENDING)
         else if execution_lifecycle_disposition (Some v) = ED_NO_EFFECT
           then (''hil.approved.execution_not_attempted'', RZ_EXECUTION_NOT_ATTEMPTED)
         else (''hil.approved.execute_failed'', RZ_EXECUTE_FAILED))
      in (park_audit E c p kind '':hil_executed'',
          \<lparr>rz_outcome = outcome, rz_reason = None, rz_delegated = is_delegated d,
           rz_assignee = parked_assignee E p\<rparr>))"

end
