(* ===== verification/HilEscalation.thy ===== *)
theory HilEscalation
  imports HilPark StepSystem
begin

text \<open>
  The human non-response supervisor (\<open>core/hil_resume/escalation_supervisor.py\<close>), which walks a
  parked approval up a ladder of responders until somebody decides or the ladder is exhausted, and
  the expiry of parks (\<open>load_control.py\<close>).

  \<open>tick\<close> decides on a park it read and then writes it by compare-and-set; since every write raises
  the revision, a write that succeeds applies to the park it was decided on, and is modelled as one
  step. The optional timing from an escalation catalog is not modelled.
\<close>

record escalation_rung =
  er_subject :: string
  er_duty :: string
  er_role :: string

record escalation_policy =
  ep_decision_timeout :: int
  ep_overall_timeout :: int
  ep_delivery_retry :: int
  ep_mode :: mode

definition seconds :: "int \<Rightarrow> int" where
  "seconds n = n * 1000000"

definition timestamp_of :: "hil_env \<Rightarrow> string \<Rightarrow> json \<Rightarrow> int res" where
  "timestamp_of E name j = (case j of
     JStr s \<Rightarrow> (case iso_instant E s of
         None \<Rightarrow> Inl (ValueError ''Invalid isoformat string'')
       | Some None \<Rightarrow> Inl (ValueError ''escalation timestamp MUST be timezone-aware'')
       | Some (Some t) \<Rightarrow> Inr t)
   | _ \<Rightarrow> Inl (ValueError (name @ '' MUST be an ISO timestamp'')))"

definition park_escalation :: "park \<Rightarrow> (string, json) dict res" where
  "park_escalation p = (case as_mapping (dict_get p ''escalation'') of
     None \<Rightarrow> Inl (ValueError ''parked escalation state MUST be an object'') | Some e \<Rightarrow> Inr e)"

fun all_mappings :: "json list \<Rightarrow> (string, json) dict list option" where
  "all_mappings [] = Some []"
| "all_mappings (j # js) = (case (as_mapping (Some j), all_mappings js) of
     (Some d, Some ds) \<Rightarrow> Some (d # ds) | _ \<Rightarrow> None)"

definition escalation_rungs :: "(string, json) dict \<Rightarrow> (string, json) dict list res" where
  "escalation_rungs e = (case dict_get_null e ''rungs'' of
     JList (j # js) \<Rightarrow> (case all_mappings (j # js) of
         Some ds \<Rightarrow> Inr ds
       | None \<Rightarrow> Inl (ValueError ''parked escalation rungs MUST be a non-empty array''))
   | _ \<Rightarrow> Inl (ValueError ''parked escalation rungs MUST be a non-empty array''))"

section \<open>Attaching a ladder\<close>

definition folded :: "string \<Rightarrow> string" where
  "folded s = py_casefold (py_strip s)"

text \<open>The rungs without the requester and without repetitions.\<close>

fun unique_rungs :: "string list \<Rightarrow> escalation_rung list \<Rightarrow> escalation_rung list" where
  "unique_rungs seen [] = []"
| "unique_rungs seen (r # rs) =
     (if folded (er_subject r) \<in> set seen then unique_rungs seen rs
      else r # unique_rungs (folded (er_subject r) # seen) rs)"

definition rung_json :: "escalation_rung \<Rightarrow> json" where
  "rung_json r = JObj [(''subject_ref'', JStr (er_subject r)), (''duty'', JStr (er_duty r)),
     (''minimum_role'', JStr (er_role r))]"

definition attached_record ::
  "hil_env \<Rightarrow> escalation_policy \<Rightarrow> park \<Rightarrow> escalation_rung list \<Rightarrow> int \<Rightarrow> int \<Rightarrow> (string, json) dict \<Rightarrow> int \<Rightarrow> park" where
  "attached_record E pol p unique deadline revision action now = dict_merge p
     [(''revision'', JInt revision), (''assignee_oid'', JStr (er_subject (hd unique))),
      (''escalation'', JObj
        [(''status'', JStr ''pending_delivery''), (''current_rung'', JInt 0),
         (''rungs'', JList (map rung_json unique)), (''attempted_subjects'', JList []),
         (''action_hash'', JStr (he_action_hash E action)),
         (''request_fingerprint'', JStr (text_or (he_str E) p ''request_fingerprint'' [])),
         (''overall_deadline'', JStr (he_isofmt E (min deadline (now + seconds (ep_overall_timeout pol))))),
         (''next_delivery_at'', JStr (he_isofmt E now)), (''delivery_attempts'', JInt 0),
         (''delivered_at'', JNull), (''decision_deadline'', JNull)])]"

definition attach :: "hil_env \<Rightarrow> escalation_policy \<Rightarrow> park \<Rightarrow> escalation_rung list \<Rightarrow> int \<Rightarrow> park res" where
  "attach E pol p rungs now =
     (let unique = unique_rungs [folded (text_or (he_str E) p ''submitter_oid'' [])] rungs in
      bind_res (first_failure
        [(unique = [], ''escalation ladder requires a non-requester rung''),
         (length unique > 8, ''escalation ladder exceeds the eight-rung limit'')])
      (\<lambda>_. case as_mapping (dict_get p ''approval_context'') of
         None \<Rightarrow> Inl (ValueError ''parked approval_context MUST be an object'')
       | Some context \<Rightarrow>
       bind_res (timestamp_of E ''approval expires_at'' (dict_get_null context ''expires_at'')) (\<lambda>deadline.
       bind_res (park_revision p) (\<lambda>revision.
       case as_mapping (dict_get p ''action'') of
         None \<Rightarrow> Inl (ValueError ''parked action MUST be an object'')
       | Some action \<Rightarrow> Inr (attached_record E pol p unique deadline revision action now)))))"

section \<open>Writes\<close>

text \<open>\<open>_cas\<close>: the record that replaces \<open>p\<close>.\<close>

definition escalation_write ::
  "(string, json) dict \<Rightarrow> (string \<times> json) list \<Rightarrow> park \<Rightarrow> park res" where
  "escalation_write e kvs p = bind_res (park_revision p) (\<lambda>revision.
     Inr (dict_merge p (kvs @ [(''escalation'', JObj e), (''revision'', JInt (revision + 1))])))"

text \<open>\<open>int(escalation.get(key) or 0)\<close>\<close>

definition int_or_zero :: "(string, json) dict \<Rightarrow> string \<Rightarrow> int res" where
  "int_or_zero d key = (let j = dict_get_null d key in if json_truthy j then py_int j else Inr 0)"

text \<open>\<open>list(d.get(key) or [])\<close> for the lists the supervisor itself writes.\<close>

definition list_or_nil :: "(string, json) dict \<Rightarrow> string \<Rightarrow> json list" where
  "list_or_nil d key = (case dict_get d key of Some (JList xs) \<Rightarrow> xs | _ \<Rightarrow> [])"

definition subject_text :: "hil_env \<Rightarrow> (string, json) dict \<Rightarrow> string res" where
  "subject_text E rung = (case dict_get rung ''subject_ref'' of
     None \<Rightarrow> Inl (KeyError ''subject_ref'') | Some j \<Rightarrow> Inr (py_str (he_str E) j))"

text \<open>
  \<open>_advance\<close>: \<open>None\<close> when the ladder has no next rung. Indices below zero, which Python counts from the end,
  do not occur: the supervisor starts at zero and only adds.
\<close>

definition advance :: "hil_env \<Rightarrow> int \<Rightarrow> park \<Rightarrow> park option res" where
  "advance E now p =
     bind_res (park_escalation p) (\<lambda>e.
     bind_res (int_or_zero e ''current_rung'') (\<lambda>current.
     bind_res (escalation_rungs e) (\<lambda>rungs.
       if int (length rungs) \<le> current + 1 then Inr None
       else
         bind_res (subject_text E (rungs ! nat current)) (\<lambda>attempted.
         bind_res (subject_text E (rungs ! nat (current + 1))) (\<lambda>subject.
         bind_res (escalation_write (dict_merge e
           [(''status'', JStr ''pending_delivery''), (''current_rung'', JInt (current + 1)),
            (''attempted_subjects'', JList (list_or_nil e ''attempted_subjects'' @ [JStr attempted])),
            (''next_delivery_at'', JStr (he_isofmt E now)), (''delivery_attempts'', JInt 0),
            (''delivered_at'', JNull), (''decision_deadline'', JNull)])
           [(''assignee_oid'', JStr subject)] p) (\<lambda>p'. Inr (Some p')))))))"

definition exhaust :: "hil_env \<Rightarrow> int \<Rightarrow> string \<Rightarrow> park \<Rightarrow> park res" where
  "exhaust E now reason p =
     bind_res (park_escalation p) (\<lambda>e. escalation_write
       (dict_merge e [(''status'', JStr ''exhausted''), (''exhausted_reason'', JStr reason)])
       [(''status'', JStr ''resolved''), (''decision'', JStr ''timeout''),
        (''approver_oid'', JStr ''system:approval-escalation''), (''resolved_at'', JStr (he_isofmt E now))] p)"

definition observe_due :: "hil_env \<Rightarrow> int \<Rightarrow> string \<Rightarrow> park \<Rightarrow> park option res" where
  "observe_due E now reason p =
     bind_res (park_escalation p) (\<lambda>e.
       if dict_get_null e ''shadow_observed_at'' \<noteq> JNull then Inr None
       else bind_res (int_or_zero e ''current_rung'') (\<lambda>current.
         bind_res (escalation_write (dict_merge e
           [(''shadow_observed_at'', JStr (he_isofmt E now)), (''shadow_reason'', JStr reason),
            (''shadow_next_rung'', JInt (current + 1))]) [] p) (\<lambda>p'. Inr (Some p'))))"

definition claim_delivery :: "hil_env \<Rightarrow> escalation_policy \<Rightarrow> int \<Rightarrow> park \<Rightarrow> park res" where
  "claim_delivery E pol now p =
     bind_res (park_escalation p) (\<lambda>e.
     bind_res (int_or_zero e ''delivery_attempts'') (\<lambda>n. escalation_write (dict_merge e
       [(''delivery_attempts'', JInt (n + 1)),
        (''next_delivery_at'', JStr (he_isofmt E (now + seconds (ep_delivery_retry pol))))]) [] p))"

text \<open>\<open>_cas\<close> with the escalation unchanged, to leave an audit entry.\<close>

definition touch :: "park \<Rightarrow> park res" where
  "touch p = bind_res (park_escalation p) (\<lambda>e. escalation_write e [] p)"

text \<open>The window of the current rung, when a catalog recorded windows.\<close>

definition decision_window :: "escalation_policy \<Rightarrow> (string, json) dict \<Rightarrow> int res" where
  "decision_window pol e = (case dict_get_null e ''catalog_ttl_seconds'' of
     JList windows \<Rightarrow> (case dict_get_null e ''current_rung'' of
         JInt i \<Rightarrow> (if 0 \<le> i \<and> i < int (length windows)
             then (case windows ! nat i of
                 JInt w \<Rightarrow> (if 1 \<le> w \<and> w \<le> 86400 then Inr (min (ep_decision_timeout pol) w)
                   else Inl (ValueError ''catalog escalation window is invalid''))
               | _ \<Rightarrow> Inl (ValueError ''catalog escalation window is invalid''))
             else Inl (ValueError ''catalog escalation window index is invalid''))
       | _ \<Rightarrow> Inl (ValueError ''catalog escalation window index is invalid''))
   | _ \<Rightarrow> Inr (ep_decision_timeout pol))"

definition mark_delivered :: "hil_env \<Rightarrow> escalation_policy \<Rightarrow> int \<Rightarrow> park \<Rightarrow> park option res" where
  "mark_delivered E pol now p =
     (if \<not> field_is p ''status'' ''pending'' then Inr None
      else bind_res (park_escalation p) (\<lambda>e.
        if \<not> field_is e ''status'' ''pending_delivery'' then Inr None
        else bind_res (timestamp_of E ''overall_deadline'' (dict_get_null e ''overall_deadline'')) (\<lambda>overall.
          if overall \<le> now then Inr None
          else bind_res (decision_window pol e) (\<lambda>ttl.
            bind_res (escalation_write (dict_merge e
              [(''status'', JStr ''awaiting_decision''), (''delivered_at'', JStr (he_isofmt E now)),
               (''decision_deadline'', JStr (he_isofmt E (min overall (now + seconds ttl))))]) [] p)
              (\<lambda>p'. Inr (Some p'))))))"

text \<open>\<open>_expire_contact_consent\<close>, and \<open>ApprovalExpiryReconciler._expire\<close> of \<open>load_control.py\<close>.\<close>

definition timed_out_record :: "string \<Rightarrow> string \<Rightarrow> int \<Rightarrow> park \<Rightarrow> park" where
  "timed_out_record approver stamp revision p = dict_merge p
     [(''status'', JStr ''resolved''), (''decision'', JStr ''timeout''), (''approver_oid'', JStr approver),
      (''resolved_at'', JStr stamp), (''revision'', JInt (revision + 1))]"

definition expire_contact_consent :: "hil_env \<Rightarrow> int \<Rightarrow> park \<Rightarrow> park res" where
  "expire_contact_consent E now p = bind_res (park_revision p) (\<lambda>revision. Inr
     (timed_out_record ''system:contact-consent-expiry'' (he_isofmt E now) revision p))"

text \<open>The revision a writer expects that takes a malformed one for zero.\<close>

definition lenient_revision :: "park \<Rightarrow> int" where
  "lenient_revision p = (case dict_get p ''revision'' of Some (JInt n) \<Rightarrow> n | _ \<Rightarrow> 0)"

definition expire_park :: "hil_env \<Rightarrow> int \<Rightarrow> park \<Rightarrow> park" where
  "expire_park E now p = timed_out_record
     (if field_is p ''status'' ''awaiting_contact_consent''
      then ''system:contact-consent-expiry'' else ''system:approval-expiry'')
     (he_isofmt E now) (lenient_revision p) p"

definition expiry_due :: "hil_env \<Rightarrow> int \<Rightarrow> park \<Rightarrow> bool" where
  "expiry_due E now p =
     (if (case as_mapping (dict_get p ''metadata'') of
         None \<Rightarrow> False | Some metadata \<Rightarrow> field_is metadata ''decision_route'' ''workflow'') then False
      else if field_is p ''status'' ''pending'' then approval_expired E p now
      else if field_is p ''status'' ''awaiting_contact_consent'' then contact_consent_expired E p now
      else False)"

section \<open>One tick on one park\<close>

definition escalation_integrity :: "hil_env \<Rightarrow> park \<Rightarrow> (string, json) dict \<Rightarrow> bool res" where
  "escalation_integrity E p e = (case as_mapping (dict_get p ''action'') of
     None \<Rightarrow> Inl (ValueError ''parked action MUST be an object'')
   | Some action \<Rightarrow> Inr (field_is e ''action_hash'' (he_action_hash E action) \<and>
       dict_get_null e ''request_fingerprint'' = dict_get_null p ''request_fingerprint''))"

datatype tick_choice =
  TK_SKIP | TK_EXPIRE_CONSENT | TK_OBSERVE string | TK_EXHAUST string | TK_ADVANCE string string | TK_DISPATCH

datatype escalation_status = ES_PENDING_DELIVERY | ES_AWAITING_DECISION | ES_EXHAUSTED | ES_DECIDED

definition parse_escalation_status :: "json \<Rightarrow> escalation_status res" where
  "parse_escalation_status j =
     (if j = JStr ''pending_delivery'' then Inr ES_PENDING_DELIVERY
      else if j = JStr ''awaiting_decision'' then Inr ES_AWAITING_DECISION
      else if j = JStr ''exhausted'' then Inr ES_EXHAUSTED
      else if j = JStr ''decided'' then Inr ES_DECIDED
      else Inl (ValueError ''is not a valid EscalationStatus''))"

text \<open>A choice to advance carries the reason to exhaust the ladder when it has no next rung.\<close>

definition tick_choice :: "hil_env \<Rightarrow> escalation_policy \<Rightarrow> int \<Rightarrow> park \<Rightarrow> tick_choice res" where
  "tick_choice E pol now p =
     (if field_is p ''status'' ''awaiting_contact_consent'' then
        Inr (if contact_consent_expired E p now then TK_EXPIRE_CONSENT else TK_SKIP)
      else if \<not> field_is p ''status'' ''pending'' \<or> as_mapping (dict_get p ''escalation'') = None then Inr TK_SKIP
      else bind_res (park_escalation p) (\<lambda>e.
        bind_res (escalation_integrity E p e) (\<lambda>intact.
        if \<not> intact then
          Inr (if ep_mode pol = SHADOW then TK_OBSERVE ''integrity_failed'' else TK_EXHAUST ''integrity_failed'')
        else
          bind_res (timestamp_of E ''overall_deadline'' (dict_get_null e ''overall_deadline'')) (\<lambda>overall.
          bind_res (parse_escalation_status (dict_get_null e ''status'')) (\<lambda>status.
          if ep_mode pol = SHADOW \<and> status = ES_PENDING_DELIVERY \<and> \<not> overall \<le> now then Inr TK_SKIP
          else bind_res (if status = ES_AWAITING_DECISION
              then map_sum id (\<lambda>t. t \<le> now)
                (timestamp_of E ''decision_deadline'' (dict_get_null e ''decision_deadline''))
              else Inr False) (\<lambda>decision_due.
            if ep_mode pol = SHADOW then
              Inr (if overall \<le> now then TK_OBSERVE ''overall_deadline''
                   else if decision_due then TK_OBSERVE ''human_non_response'' else TK_SKIP)
            else if overall \<le> now then Inr (TK_EXHAUST ''overall_deadline'')
            else if status = ES_AWAITING_DECISION then
              Inr (if decision_due then TK_ADVANCE ''human_non_response'' ''ladder_exhausted'' else TK_SKIP)
            else if status \<noteq> ES_PENDING_DELIVERY then Inr TK_SKIP
            else bind_res (timestamp_of E ''next_delivery_at'' (dict_get_null e ''next_delivery_at'')) (\<lambda>due.
              Inr (if now < due then TK_SKIP else TK_DISPATCH))))))))"

text \<open>
  \<open>_dispatch\<close> up to its first write: the current rung's eligibility is \<open>None\<close> when the check raised, and
  \<open>clock\<close> is the time after it.
\<close>

datatype dispatch_choice = DC_TOUCH | DC_EXHAUST string | DC_ADVANCE string string | DC_CLAIM

definition current_rung :: "(string, json) dict \<Rightarrow> (string, json) dict res" where
  "current_rung e = bind_res (escalation_rungs e) (\<lambda>rungs.
     case dict_get_null e ''current_rung'' of
       JInt i \<Rightarrow> (if 0 \<le> i \<and> i < int (length rungs) then Inr (rungs ! nat i)
         else Inl (ValueError ''parked escalation current_rung is invalid''))
     | _ \<Rightarrow> Inl (ValueError ''parked escalation current_rung is invalid''))"

definition dispatch_choice ::
  "hil_env \<Rightarrow> bool option \<Rightarrow> int \<Rightarrow> int \<Rightarrow> park \<Rightarrow> dispatch_choice res" where
  "dispatch_choice E eligible clock now p =
     bind_res (park_escalation p) (\<lambda>e.
     bind_res (current_rung e) (\<lambda>_. case eligible of
       None \<Rightarrow> Inr DC_TOUCH
     | Some ok \<Rightarrow>
         bind_res (timestamp_of E ''overall_deadline'' (dict_get_null e ''overall_deadline'')) (\<lambda>overall.
           Inr (if overall \<le> max now clock then DC_EXHAUST ''overall_deadline''
                else if \<not> ok then DC_ADVANCE ''rung_ineligible'' ''no_eligible_rung''
                else DC_CLAIM))))"

text \<open>\<open>if await self._advance(...)\<close>, otherwise \<open>_exhaust\<close>.\<close>

definition advance_or_exhaust :: "hil_env \<Rightarrow> int \<Rightarrow> string \<Rightarrow> park \<Rightarrow> park res" where
  "advance_or_exhaust E now end_reason p = bind_res (advance E now p) (\<lambda>next. case next of
     Some p' \<Rightarrow> Inr p' | None \<Rightarrow> exhaust E now end_reason p)"

text \<open>Every write of the supervisor on a park: by a tick, after a delivery, or by the expiry worker.\<close>

inductive supervisor_write :: "hil_env \<Rightarrow> escalation_policy \<Rightarrow> int \<Rightarrow> park \<Rightarrow> park \<Rightarrow> bool"
  for E :: hil_env and pol :: escalation_policy and now :: int where
  sw_consent: "tick_choice E pol now p = Inr TK_EXPIRE_CONSENT \<Longrightarrow> expire_contact_consent E now p = Inr p' \<Longrightarrow>
    supervisor_write E pol now p p'"
| sw_observe: "tick_choice E pol now p = Inr (TK_OBSERVE reason) \<Longrightarrow> observe_due E now reason p = Inr (Some p') \<Longrightarrow>
    supervisor_write E pol now p p'"
| sw_exhaust: "tick_choice E pol now p = Inr (TK_EXHAUST reason) \<Longrightarrow> exhaust E now reason p = Inr p' \<Longrightarrow>
    supervisor_write E pol now p p'"
| sw_advance: "tick_choice E pol now p = Inr (TK_ADVANCE reason fin) \<Longrightarrow>
    advance_or_exhaust E now fin p = Inr p' \<Longrightarrow> supervisor_write E pol now p p'"
| sw_touch: "tick_choice E pol now p = Inr TK_DISPATCH \<Longrightarrow>
    dispatch_choice E eligible clock now p = Inr DC_TOUCH \<Longrightarrow> touch p = Inr p' \<Longrightarrow>
    supervisor_write E pol now p p'"
| sw_late: "tick_choice E pol now p = Inr TK_DISPATCH \<Longrightarrow>
    dispatch_choice E eligible clock now p = Inr (DC_EXHAUST reason) \<Longrightarrow>
    exhaust E (max now clock) reason p = Inr p' \<Longrightarrow> supervisor_write E pol now p p'"
| sw_ineligible: "tick_choice E pol now p = Inr TK_DISPATCH \<Longrightarrow>
    dispatch_choice E eligible clock now p = Inr (DC_ADVANCE reason fin) \<Longrightarrow>
    advance_or_exhaust E (max now clock) fin p = Inr p' \<Longrightarrow> supervisor_write E pol now p p'"
| sw_claim: "tick_choice E pol now p = Inr TK_DISPATCH \<Longrightarrow>
    dispatch_choice E eligible clock now p = Inr DC_CLAIM \<Longrightarrow>
    claim_delivery E pol (max now clock) p = Inr p' \<Longrightarrow> supervisor_write E pol now p p'"
| sw_undelivered: "field_is p ''status'' ''pending'' \<Longrightarrow> touch p = Inr p' \<Longrightarrow> supervisor_write E pol now p p'"
| sw_delivered: "mark_delivered E pol now p = Inr (Some p') \<Longrightarrow> supervisor_write E pol now p p'"
| sw_expired: "expiry_due E now p \<Longrightarrow> supervisor_write E pol now p (expire_park E now p)"

section \<open>What a write of the supervisor may change\<close>

definition open_park :: "park \<Rightarrow> bool" where
  "open_park p = (field_is p ''status'' ''pending'' \<or> field_is p ''status'' ''awaiting_contact_consent'')"

definition supervised_fields :: "string list" where
  "supervised_fields = [''status'', ''decision'', ''approver_oid'', ''resolved_at'', ''revision'',
     ''escalation'', ''assignee_oid'']"

definition same_request :: "park \<Rightarrow> park \<Rightarrow> bool" where
  "same_request p p' = (\<forall>key. key \<notin> set supervised_fields \<longrightarrow> dict_get p' key = dict_get p key)"

definition park_at :: "int \<Rightarrow> park \<Rightarrow> bool" where
  "park_at n p = (dict_get p ''revision'' = Some (JInt n) \<and> 0 \<le> n)"

lemma dict_get_merge [simp]:
  "dict_get (dict_merge d kvs) key =
     (case map_of (rev kvs) key of Some v \<Rightarrow> Some v | None \<Rightarrow> dict_get d key)"
  by (induction kvs arbitrary: d) (auto simp: dict_merge_def map_add_def split: option.splits)

lemma as_mapping_simps [simp]: "as_mapping j = Some kvs \<longleftrightarrow> j = Some (JObj kvs)"
  by (cases j rule: as_mapping.cases) auto

lemma park_at_simps [simp]:
  "park_at n p \<Longrightarrow> park_revision p = Inr n" "park_at n p \<Longrightarrow> lenient_revision p = n"
  by (simp_all add: park_at_def park_revision_def lenient_revision_def)

lemma int_or_zero_JInt: "dict_get e key = Some (JInt i) \<Longrightarrow> int_or_zero e key = Inr i"
  by (simp add: int_or_zero_def dict_get_null_def py_int_def)

text \<open>The four shapes of a write.\<close>

definition closes_park :: "park \<Rightarrow> park \<Rightarrow> bool" where
  "closes_park p p' = (field_is p' ''status'' ''resolved'' \<and> field_is p' ''decision'' ''timeout'')"

definition keeps_open :: "park \<Rightarrow> park \<Rightarrow> bool" where
  "keeps_open p p' = (field_is p ''status'' ''pending'' \<and> dict_get p' ''status'' = dict_get p ''status'' \<and>
     dict_get p' ''decision'' = dict_get p ''decision'')"

definition supervised :: "park \<Rightarrow> park \<Rightarrow> bool" where
  "supervised p p' = (same_request p p' \<and> (closes_park p p' \<or> keeps_open p p') \<and>
     (\<forall>n. park_at n p \<longrightarrow> park_at (n + 1) p'))"

lemma escalation_write_Inr:
  "escalation_write e kvs p = Inr p' \<longleftrightarrow> (\<exists>n. park_revision p = Inr n \<and>
     p' = dict_merge p (kvs @ [(''escalation'', JObj e), (''revision'', JInt (n + 1))]))"
  by (auto simp: escalation_write_def bind_res_Inr)

lemma supervised_merge:
  assumes "set (map fst kvs) \<subseteq> set supervised_fields"
    and "map_of (rev kvs) ''revision'' = Some (JInt (n + 1))" and "\<And>m. park_at m p \<Longrightarrow> m = n"
    and "(map_of (rev kvs) ''status'' = Some (JStr ''resolved'') \<and> map_of (rev kvs) ''decision'' = Some (JStr ''timeout'')) \<or>
      (field_is p ''status'' ''pending'' \<and> map_of (rev kvs) ''status'' = None \<and> map_of (rev kvs) ''decision'' = None)"
  shows "supervised p (dict_merge p kvs)"
proof -
  have "map_of (rev kvs) key = None" if "key \<notin> set supervised_fields" for key
    using assms(1) that by (auto simp: map_of_eq_None_iff)
  then have "same_request p (dict_merge p kvs)" by (simp add: same_request_def)
  then show ?thesis
    using assms(2,3,4)
    by (auto simp: supervised_def closes_park_def keeps_open_def field_is_def park_at_def)
qed

lemma revision_unique: "park_revision p = Inr n \<Longrightarrow> park_at m p \<Longrightarrow> m = n"
  by simp

lemma escalation_write_supervised:
  assumes "escalation_write e kvs p = Inr p'" and "field_is p ''status'' ''pending''"
    and "kvs = [] \<or> (\<exists>v. kvs = [(''assignee_oid'', v)]) \<or> (\<exists>v w. kvs =
      [(''status'', JStr ''resolved''), (''decision'', JStr ''timeout''), (''approver_oid'', v), (''resolved_at'', w)])"
  shows "supervised p p'"
proof -
  obtain n where n: "park_revision p = Inr n"
    and p': "p' = dict_merge p (kvs @ [(''escalation'', JObj e), (''revision'', JInt (n + 1))])"
    using assms(1) by (auto simp: escalation_write_Inr)
  note u = revision_unique [OF n]
  show ?thesis
    unfolding p' using assms(2,3) u
    by (intro supervised_merge [where n = n]) (auto simp: supervised_fields_def)
qed

lemma advance_supervised:
  assumes "field_is p ''status'' ''pending''"
  shows "advance E now p = Inr (Some p') \<Longrightarrow> supervised p p'"
    and "exhaust E now reason p = Inr p' \<Longrightarrow> supervised p p'"
    and "observe_due E now reason p = Inr (Some p') \<Longrightarrow> supervised p p'"
    and "claim_delivery E pol now p = Inr p' \<Longrightarrow> supervised p p'"
    and "touch p = Inr p' \<Longrightarrow> supervised p p'"
  using assms
  by (auto simp: advance_def exhaust_def observe_due_def claim_delivery_def touch_def bind_res_Inr
      split: if_splits elim!: escalation_write_supervised)

lemma advance_or_exhaust_supervised:
  "field_is p ''status'' ''pending'' \<Longrightarrow> advance_or_exhaust E now fin p = Inr p' \<Longrightarrow> supervised p p'"
  by (auto simp: advance_or_exhaust_def bind_res_Inr split: option.splits dest: advance_supervised)

lemma mark_delivered_supervised: "mark_delivered E pol now p = Inr (Some p') \<Longrightarrow> supervised p p'"
  by (auto simp: mark_delivered_def bind_res_Inr split: if_splits elim!: escalation_write_supervised)

lemma tick_pending:
  assumes "tick_choice E pol now p = Inr choice" and "choice \<notin> {TK_SKIP, TK_EXPIRE_CONSENT}"
  shows "field_is p ''status'' ''pending''"
  using assms by (auto simp: tick_choice_def split: if_splits)

lemma timed_out_supervised: "(\<And>m. park_at m p \<Longrightarrow> m = n) \<Longrightarrow> supervised p (timed_out_record a stamp n p)"
  unfolding timed_out_record_def by (rule supervised_merge [where n = n]) (auto simp: supervised_fields_def)

lemma expire_supervised:
  "expire_contact_consent E now p = Inr p' \<Longrightarrow> supervised p p'" "supervised p (expire_park E now p)"
  by (auto simp: expire_contact_consent_def expire_park_def bind_res_Inr intro!: timed_out_supervised)

text \<open>Whatever the supervisor or the expiry worker writes, it keeps the request or times it out.\<close>

lemma supervisor_write_supervised: "supervisor_write E pol now p p' \<Longrightarrow> supervised p p' \<and> open_park p"
proof (induction rule: supervisor_write.induct)
  case (sw_consent p p')
  then have "field_is p ''status'' ''awaiting_contact_consent''"
    by (auto simp: tick_choice_def bind_res_Inr split: if_splits)
  with sw_consent show ?case by (auto simp: open_park_def intro: expire_supervised)
next
  case (sw_expired p)
  then show ?case by (auto simp: open_park_def expiry_due_def intro: expire_supervised split: if_splits)
next
  case (sw_delivered p p')
  then have "field_is p ''status'' ''pending''" by (auto simp: mark_delivered_def split: if_splits)
  with sw_delivered show ?case by (auto simp: open_park_def intro: mark_delivered_supervised)
qed (auto simp: open_park_def dest: tick_pending intro: advance_supervised advance_or_exhaust_supervised)

section \<open>The ladder\<close>

definition rung_subject :: "(string, json) dict \<Rightarrow> string" where
  "rung_subject r = (case dict_get r ''subject_ref'' of Some (JStr s) \<Rightarrow> s | _ \<Rightarrow> [])"

definition requester_of :: "hil_env \<Rightarrow> park \<Rightarrow> string" where
  "requester_of E p = folded (text_or (he_str E) p ''submitter_oid'' [])"

text \<open>The ladder stands at rung \<open>i\<close>: the rungs below were asked, in order.\<close>

definition at_rung :: "(string, json) dict \<Rightarrow> (string, json) dict list \<Rightarrow> nat \<Rightarrow> bool" where
  "at_rung e rungs i \<longleftrightarrow> escalation_rungs e = Inr rungs \<and> dict_get e ''current_rung'' = Some (JInt (int i)) \<and>
     i < length rungs \<and> dict_get e ''attempted_subjects'' = Some (JList (map (JStr \<circ> rung_subject) (take i rungs)))"

definition sound_rungs :: "string \<Rightarrow> (string, json) dict list \<Rightarrow> bool" where
  "sound_rungs requester rungs \<longleftrightarrow> length rungs \<le> 8 \<and>
     (\<forall>r\<in>set rungs. dict_get r ''subject_ref'' = Some (JStr (rung_subject r)) \<and>
        folded (rung_subject r) \<noteq> requester) \<and> distinct (map (folded \<circ> rung_subject) rungs)"

definition ladder_ok :: "hil_env \<Rightarrow> park \<Rightarrow> bool" where
  "ladder_ok E p \<longleftrightarrow> (\<exists>e rungs i. dict_get p ''escalation'' = Some (JObj e) \<and> at_rung e rungs i \<and>
     sound_rungs (requester_of E p) rungs \<and> dict_get p ''assignee_oid'' = Some (JStr (rung_subject (rungs ! i))))"

lemma at_rung_merge:
  assumes "map_of (rev kvs) ''rungs'' = None" and "map_of (rev kvs) ''current_rung'' = None"
    and "map_of (rev kvs) ''attempted_subjects'' = None"
  shows "at_rung (dict_merge e kvs) rungs i = at_rung e rungs i"
  using assms by (simp add: at_rung_def escalation_rungs_def dict_get_null_def)

lemma requester_kept: "supervised p p' \<Longrightarrow> requester_of E p' = requester_of E p"
  by (simp add: supervised_def same_request_def requester_of_def text_or_def supervised_fields_def)

lemma escalation_write_sel:
  assumes "escalation_write e kvs p = Inr p'" and "''escalation'' \<notin> fst ` set kvs"
  shows "dict_get p' ''escalation'' = Some (JObj e)"
    and "dict_get p' ''assignee_oid'' = (case map_of (rev kvs) ''assignee_oid'' of
       Some v \<Rightarrow> Some v | None \<Rightarrow> dict_get p ''assignee_oid'')"
  using assms by (auto simp: escalation_write_Inr)

text \<open>A write that leaves the rung alone.\<close>

lemma ladder_same_rung:
  assumes "ladder_ok E p" and "park_escalation p = Inr e"
    and "escalation_write (dict_merge e kvs) fs p = Inr p'" and "supervised p p'"
    and "fst ` set kvs \<inter> {''rungs'', ''current_rung'', ''attempted_subjects''} = {}"
    and "fst ` set fs \<inter> {''escalation'', ''assignee_oid''} = {}"
  shows "ladder_ok E p'"
proof -
  have n: "map_of (rev kvs) k = None" if "k \<in> {''rungs'', ''current_rung'', ''attempted_subjects''}" for k
  proof -
    have "k \<notin> fst ` set kvs" using assms(5) that by blast
    then show ?thesis by (simp add: map_of_eq_None_iff)
  qed
  have f: "''assignee_oid'' \<notin> fst ` set fs" "''escalation'' \<notin> fst ` set fs"
    using assms(6) by blast+
  then have "map_of (rev fs) ''assignee_oid'' = None" "''escalation'' \<notin> fst ` set fs"
    by (simp_all add: map_of_eq_None_iff)
  with escalation_write_sel [OF assms(3)] have
    "dict_get p' ''escalation'' = Some (JObj (dict_merge e kvs))" "dict_get p' ''assignee_oid'' = dict_get p ''assignee_oid''"
    by simp_all
  then show ?thesis
    using assms(1,2) n requester_kept [OF assms(4)]
    by (auto simp: ladder_ok_def park_escalation_def at_rung_merge split: option.splits)
qed

lemma dict_merge_Nil [simp]: "dict_merge d [] = d"
  by (simp add: dict_merge_def)

lemma ladder_touch:
  assumes "ladder_ok E p" and "touch p = Inr p'" and "supervised p p'"
  shows "ladder_ok E p'"
proof -
  obtain e where e: "park_escalation p = Inr e" "escalation_write (dict_merge e []) [] p = Inr p'"
    using assms(2) by (auto simp: touch_def bind_res_Inr)
  show ?thesis by (rule ladder_same_rung [OF assms(1) e assms(3)]) auto
qed

lemma ladder_other_writes:
  assumes "ladder_ok E p" and "supervised p p'"
  shows "exhaust E now reason p = Inr p' \<Longrightarrow> ladder_ok E p'"
    and "observe_due E now reason p = Inr (Some p') \<Longrightarrow> ladder_ok E p'"
    and "claim_delivery E pol now p = Inr p' \<Longrightarrow> ladder_ok E p'"
    and "mark_delivered E pol now p = Inr (Some p') \<Longrightarrow> ladder_ok E p'"
  using assms
  by (auto simp: exhaust_def observe_due_def claim_delivery_def mark_delivered_def bind_res_Inr
      split: if_splits elim!: ladder_same_rung [rotated 2])

lemma ladder_advance:
  assumes "ladder_ok E p" and "advance E now p = Inr (Some p')" and "supervised p p'"
  shows "ladder_ok E p'"
proof -
  obtain e rungs i where e: "dict_get p ''escalation'' = Some (JObj e)" and i: "at_rung e rungs i"
    and s: "sound_rungs (requester_of E p) rungs"
    using assms(1) by (auto simp: ladder_ok_def)
  have n: "nat (int i + 1) = Suc i" by simp
  have c: "int_or_zero e ''current_rung'' = Inr (int i)" "escalation_rungs e = Inr rungs"
    "list_or_nil e ''attempted_subjects'' = map (JStr \<circ> rung_subject) (take i rungs)"
    using i by (auto simp: at_rung_def list_or_nil_def intro: int_or_zero_JInt)
  have sub: "subject_text E r = Inr (rung_subject r)" if "r \<in> set rungs" for r
    using s that by (auto simp: subject_text_def sound_rungs_def py_str_def)
  have nxt: "Suc i < length rungs"
    using assms(2) e c by (auto simp: advance_def park_escalation_def split: if_splits)
  have "escalation_write (dict_merge e
           [(''status'', JStr ''pending_delivery''), (''current_rung'', JInt (int i + 1)),
            (''attempted_subjects'', JList (map (JStr \<circ> rung_subject) (take i rungs) @ [JStr (rung_subject (rungs ! i))])),
            (''next_delivery_at'', JStr (he_isofmt E now)), (''delivery_attempts'', JInt 0),
            (''delivered_at'', JNull), (''decision_deadline'', JNull)])
           [(''assignee_oid'', JStr (rung_subject (rungs ! Suc i)))] p = Inr p'"
    using assms(2) e c nxt sub by (simp add: advance_def park_escalation_def n bind_res_Inr)
  note w = escalation_write_sel [OF this]
  have "at_rung (dict_merge e
           [(''status'', JStr ''pending_delivery''), (''current_rung'', JInt (int i + 1)),
            (''attempted_subjects'', JList (map (JStr \<circ> rung_subject) (take i rungs) @ [JStr (rung_subject (rungs ! i))])),
            (''next_delivery_at'', JStr (he_isofmt E now)), (''delivery_attempts'', JInt 0),
            (''delivered_at'', JNull), (''decision_deadline'', JNull)]) rungs (Suc i)"
    using i nxt by (auto simp: at_rung_def escalation_rungs_def dict_get_null_def take_Suc_conv_app_nth)
  then show ?thesis
    using w s requester_kept [OF assms(3)] unfolding ladder_ok_def by auto
qed

lemma timed_out_sel:
  "dict_get (timed_out_record a stamp n p) ''escalation'' = dict_get p ''escalation''"
  "dict_get (timed_out_record a stamp n p) ''assignee_oid'' = dict_get p ''assignee_oid''"
  by (simp_all add: timed_out_record_def)

lemma ladder_timed_out:
  "ladder_ok E p \<Longrightarrow> supervised p (timed_out_record a stamp n p) \<Longrightarrow> ladder_ok E (timed_out_record a stamp n p)"
  by (simp add: ladder_ok_def timed_out_sel requester_kept)

lemma advance_or_exhaust_shape:
  "advance_or_exhaust E now fin p = Inr p' \<Longrightarrow> advance E now p = Inr (Some p') \<or> exhaust E now fin p = Inr p'"
  by (auto simp: advance_or_exhaust_def bind_res_Inr split: option.splits)

lemma supervisor_write_shape:
  assumes "supervisor_write E pol now p p'"
  shows "(\<exists>a stamp n. p' = timed_out_record a stamp n p) \<or> (\<exists>t. advance E t p = Inr (Some p')) \<or>
    (\<exists>t reason. exhaust E t reason p = Inr p') \<or> (\<exists>t reason. observe_due E t reason p = Inr (Some p')) \<or>
    (\<exists>t. claim_delivery E pol t p = Inr p') \<or> touch p = Inr p' \<or> mark_delivered E pol now p = Inr (Some p')"
  using assms
proof cases
  case sw_consent
  then show ?thesis unfolding expire_contact_consent_def bind_res_Inr by (auto simp del: as_mapping_simps)
next
  case sw_expired
  then show ?thesis unfolding expire_park_def by blast
qed (blast dest: advance_or_exhaust_shape)+

lemma ladder_write:
  assumes "supervisor_write E pol now p p'" and "ladder_ok E p"
  shows "ladder_ok E p'"
proof -
  have s: "supervised p p'" using supervisor_write_supervised [OF assms(1)] by simp
  have t: "ladder_ok E p'" if "p' = timed_out_record a stamp n p" for a stamp n
    using ladder_timed_out [OF assms(2)] s that by blast
  note keeps = t ladder_advance [OF assms(2) _ s] ladder_other_writes [OF assms(2) s] ladder_touch [OF assms(2) _ s]
  from supervisor_write_shape [OF assms(1)] show ?thesis by (elim disjE exE) (erule keeps)+
qed

lemma all_mappings_rungs:
  "all_mappings (map rung_json rs) = Some (map (\<lambda>r. [(''subject_ref'', JStr (er_subject r)),
     (''duty'', JStr (er_duty r)), (''minimum_role'', JStr (er_role r))]) rs)"
  by (induction rs) (simp_all add: rung_json_def)

lemma escalation_rungs_of:
  assumes "us \<noteq> []" and "dict_get_null e ''rungs'' = JList (map rung_json us)"
  shows "escalation_rungs e = Inr (map (\<lambda>r. [(''subject_ref'', JStr (er_subject r)),
     (''duty'', JStr (er_duty r)), (''minimum_role'', JStr (er_role r))]) us)"
proof (cases us)
  case (Cons u vs)
  with assms(2) all_mappings_rungs [of us] show ?thesis
    by (simp add: escalation_rungs_def del: all_mappings.simps)
qed (use assms(1) in simp)

lemma unique_rungs_fresh: "r \<in> set (unique_rungs seen rs) \<Longrightarrow> folded (er_subject r) \<notin> set seen"
  by (induction seen rs rule: unique_rungs.induct) (auto split: if_splits)

lemma unique_rungs_distinct: "distinct (map (folded \<circ> er_subject) (unique_rungs seen rs))"
  by (induction seen rs rule: unique_rungs.induct) (auto dest: unique_rungs_fresh)

lemma attach_Inr:
  assumes "attach E pol p rungs now = Inr p'"
  shows "\<exists>deadline n action. unique_rungs [requester_of E p] rungs \<noteq> [] \<and>
    length (unique_rungs [requester_of E p] rungs) \<le> 8 \<and> dict_get p ''action'' = Some (JObj action) \<and>
    park_revision p = Inr n \<and>
    p' = attached_record E pol p (unique_rungs [requester_of E p] rungs) deadline n action now"
  using assms unfolding attach_def Let_def requester_of_def
  by (auto simp: bind_res_Inr split: option.splits)

lemma ladder_attach:
  assumes "attach E pol p rungs now = Inr p'"
  shows "ladder_ok E p'"
proof -
  let ?u = "unique_rungs [requester_of E p] rungs"
  let ?d = "\<lambda>r. [(''subject_ref'', JStr (er_subject r)), (''duty'', JStr (er_duty r)), (''minimum_role'', JStr (er_role r))]"
  obtain deadline n action where u: "?u \<noteq> []" "length ?u \<le> 8"
    and p': "p' = attached_record E pol p ?u deadline n action now"
    using attach_Inr [OF assms] by blast
  have r: "requester_of E p' = requester_of E p"
    by (simp add: p' requester_of_def text_or_def attached_record_def)
  have "rung_subject (map ?d ?u ! 0) = er_subject (hd ?u)"
    using u(1) by (simp add: rung_subject_def nth_map hd_conv_nth)
  moreover have "sound_rungs (requester_of E p) (map ?d ?u)"
    using u(2) unique_rungs_fresh [of _ "[requester_of E p]" rungs]
      unique_rungs_distinct [of "[requester_of E p]" rungs]
    by (auto simp: sound_rungs_def rung_subject_def comp_def)
  moreover have "at_rung e (map ?d ?u) 0"
    if "dict_get_null e ''rungs'' = JList (map rung_json ?u)" "dict_get e ''current_rung'' = Some (JInt 0)"
      "dict_get e ''attempted_subjects'' = Some (JList [])" for e
    using u(1) that by (simp add: at_rung_def escalation_rungs_of)
  ultimately show ?thesis
    unfolding ladder_ok_def r
    by (auto simp: p' attached_record_def dict_get_null_def intro!: exI [of _ "map ?d ?u"] exI [of _ "0::nat"])
qed

section \<open>Deadlines\<close>

definition clock_ok :: "hil_env \<Rightarrow> (string, json) dict \<Rightarrow> bool" where
  "clock_ok E e \<longleftrightarrow> (\<exists>t. dict_get e ''overall_deadline'' = Some (JStr (he_isofmt E t))) \<and>
     (field_is e ''status'' ''pending_delivery'' \<or> field_is e ''status'' ''exhausted'' \<or>
      field_is e ''status'' ''awaiting_decision'' \<and>
        (\<exists>t. dict_get e ''decision_deadline'' = Some (JStr (he_isofmt E t))))"

definition timed_ok :: "hil_env \<Rightarrow> park \<Rightarrow> bool" where
  "timed_ok E p \<longleftrightarrow> (\<exists>e a n. dict_get p ''escalation'' = Some (JObj e) \<and> clock_ok E e \<and>
     dict_get p ''action'' = Some (JObj a) \<and> park_at n p)"

lemma timed_write:
  assumes "timed_ok E p" and "park_escalation p = Inr e" and "escalation_write (dict_merge e kvs) fs p = Inr p'"
    and "supervised p p'" and "''escalation'' \<notin> fst ` set fs"
    and "clock_ok E e \<Longrightarrow> clock_ok E (dict_merge e kvs)"
  shows "timed_ok E p'"
proof -
  have "dict_get p' ''escalation'' = Some (JObj (dict_merge e kvs))" by (rule escalation_write_sel [OF assms(3,5)])
  moreover have "dict_get p' ''action'' = dict_get p ''action''"
    using assms(4) by (simp add: supervised_def same_request_def supervised_fields_def)
  ultimately show ?thesis
    using assms(1,2,4,6) by (auto simp: timed_ok_def park_escalation_def supervised_def split: option.splits)
qed

lemma timed_writes:
  assumes "timed_ok E p" and "supervised p p'"
  shows "exhaust E now reason p = Inr p' \<Longrightarrow> timed_ok E p'"
    and "observe_due E now reason p = Inr (Some p') \<Longrightarrow> timed_ok E p'"
    and "claim_delivery E pol now p = Inr p' \<Longrightarrow> timed_ok E p'"
    and "mark_delivered E pol now p = Inr (Some p') \<Longrightarrow> timed_ok E p'"
    and "advance E now p = Inr (Some p') \<Longrightarrow> timed_ok E p'"
  using assms
  by (auto simp: exhaust_def observe_due_def claim_delivery_def mark_delivered_def advance_def bind_res_Inr
      split: if_splits elim!: timed_write [rotated 2]) (auto simp: clock_ok_def field_is_def)

lemma timed_touch:
  assumes "timed_ok E p" and "touch p = Inr p'" and "supervised p p'"
  shows "timed_ok E p'"
proof -
  obtain e where e: "park_escalation p = Inr e" "escalation_write (dict_merge e []) [] p = Inr p'"
    using assms(2) by (auto simp: touch_def bind_res_Inr)
  show ?thesis by (rule timed_write [OF assms(1) e assms(3)]) auto
qed

lemma timed_timed_out:
  assumes "timed_ok E p" and "supervised p (timed_out_record a stamp n p)"
  shows "timed_ok E (timed_out_record a stamp n p)"
proof -
  have "dict_get (timed_out_record a stamp n p) ''action'' = dict_get p ''action''"
    using assms(2) by (simp add: supervised_def same_request_def supervised_fields_def)
  then show ?thesis using assms by (auto simp: timed_ok_def timed_out_sel supervised_def)
qed

lemma timed_supervisor_write:
  assumes "supervisor_write E pol now p p'" and "timed_ok E p"
  shows "timed_ok E p'"
proof -
  have s: "supervised p p'" using supervisor_write_supervised [OF assms(1)] by simp
  have t: "timed_ok E p'" if "p' = timed_out_record a stamp n p" for a stamp n
    using timed_timed_out [OF assms(2)] s that by blast
  note keeps = t timed_writes [OF assms(2) s] timed_touch [OF assms(2) _ s]
  from supervisor_write_shape [OF assms(1)] show ?thesis by (elim disjE exE) (erule keeps)+
qed

lemma timed_attach:
  assumes "attach E pol p rungs now = Inr p'"
  shows "timed_ok E p'"
proof -
  obtain deadline n action where a: "dict_get p ''action'' = Some (JObj action)" "park_revision p = Inr n"
    and p': "p' = attached_record E pol p (unique_rungs [requester_of E p] rungs) deadline n action now"
    using attach_Inr [OF assms] by blast
  have "0 \<le> n" using a(2) by (auto simp: park_revision_def split: option.splits json.splits if_splits)
  then show ?thesis
    using a(1) by (auto simp: timed_ok_def clock_ok_def field_is_def park_at_def p' attached_record_def)
qed

section \<open>Histories of one park under supervision\<close>

definition escalation_start :: "hil_env \<Rightarrow> park \<Rightarrow> bool" where
  "escalation_start E p \<longleftrightarrow> (\<exists>pol p0 rungs now. attach E pol p0 rungs now = Inr p)"

definition escalation_step :: "hil_env \<Rightarrow> park \<Rightarrow> park \<Rightarrow> bool" where
  "escalation_step E p p' \<longleftrightarrow> (\<exists>pol now. supervisor_write E pol now p p')"

interpretation escalations: safe_system "escalation_start E" "escalation_step E" "\<lambda>p. ladder_ok E p \<and> timed_ok E p" for E
  by unfold_locales (auto simp: escalation_start_def escalation_step_def
      intro: ladder_attach timed_attach ladder_write timed_supervisor_write)

text \<open>
  C9: However a supervised park moves along its ladder, the person it is assigned to is
  never its requester.
\<close>

theorem escalation_never_asks_requester:
  assumes "reachable (escalation_start E) (escalation_step E) p"
  shows "\<exists>a earlier e. dict_get p ''assignee_oid'' = Some (JStr a) \<and>
    dict_get p ''escalation'' = Some (JObj e) \<and>
    dict_get e ''attempted_subjects'' = Some (JList (map JStr earlier)) \<and> length earlier < 8 \<and>
    distinct (map folded (earlier @ [a])) \<and> requester_of E p \<notin> set (map folded (earlier @ [a]))"
proof -
  have "ladder_ok E p" using escalations.reachable_inv [OF assms] by simp
  then obtain e rungs i where e: "dict_get p ''escalation'' = Some (JObj e)" "at_rung e rungs i"
    and s: "sound_rungs (requester_of E p) rungs"
    and a: "dict_get p ''assignee_oid'' = Some (JStr (rung_subject (rungs ! i)))"
    by (auto simp: ladder_ok_def)
  let ?sub = "map rung_subject rungs"
  have i: "i < length ?sub" "length ?sub \<le> 8" using e s by (auto simp: at_rung_def sound_rungs_def)
  have t: "take i ?sub @ [rung_subject (rungs ! i)] = take (Suc i) ?sub"
    using i by (simp add: take_Suc_conv_app_nth)
  have "distinct (map folded (take (Suc i) ?sub))"
    using s by (simp add: sound_rungs_def distinct_take flip: take_map map_map)
  moreover have "requester_of E p \<notin> set (map folded (take (Suc i) ?sub))"
  proof
    assume "requester_of E p \<in> set (map folded (take (Suc i) ?sub))"
    then obtain x where x: "x \<in> set (take (Suc i) ?sub)" "requester_of E p = folded x" by auto
    from x(1) have "x \<in> set ?sub" by (rule in_set_takeD)
    then show False using s x(2) by (auto simp: sound_rungs_def)
  qed
  moreover have "dict_get e ''attempted_subjects'' = Some (JList (map JStr (take i ?sub)))"
    using e by (simp add: at_rung_def take_map)
  ultimately show ?thesis using e a i t by (intro exI conjI) (assumption, assumption, assumption, simp_all)
qed

definition iso_ok :: "hil_env \<Rightarrow> bool" where
  "iso_ok E \<longleftrightarrow> (\<forall>t. iso_instant E (he_isofmt E t) = Some (Some t))"

text \<open>
  C10: From every reachable pending park under an enforcing supervisor there is a time after
  which a tick exhausts the ladder and closes the park as timed out.
\<close>

theorem supervised_park_is_closed:
  assumes "reachable (escalation_start E) (escalation_step E) p" and "iso_ok E"
    and "field_is p ''status'' ''pending''" and "ep_mode pol = ENFORCE"
  shows "\<exists>deadline. \<forall>now. deadline \<le> now \<longrightarrow> (\<exists>reason p'. tick_choice E pol now p = Inr (TK_EXHAUST reason) \<and>
    exhaust E now reason p = Inr p' \<and> field_is p' ''status'' ''resolved'' \<and> field_is p' ''decision'' ''timeout'')"
proof -
  obtain e a n where e: "dict_get p ''escalation'' = Some (JObj e)" "clock_ok E e"
    "dict_get p ''action'' = Some (JObj a)" "park_at n p"
    using escalations.reachable_inv [OF assms(1)] by (auto simp: timed_ok_def)
  obtain t where t: "dict_get e ''overall_deadline'' = Some (JStr (he_isofmt E t))"
    using e(2) by (auto simp: clock_ok_def)
  have ts: "timestamp_of E name (JStr (he_isofmt E u)) = Inr u" for name u
    using assms(2) by (simp add: timestamp_of_def iso_ok_def)
  have w: "exhaust E now reason p = Inr p' \<Longrightarrow> closes_park p p'" for now reason p'
    by (auto simp: exhaust_def bind_res_Inr escalation_write_Inr closes_park_def field_is_def)
  have x: "\<exists>p'. exhaust E now reason p = Inr p'" for now reason
    using e by (simp add: exhaust_def park_escalation_def escalation_write_def)
  have not_waiting: "\<not> field_is p ''status'' ''awaiting_contact_consent''"
    using assms(3) by (simp add: field_is_def)
  have "\<exists>reason. tick_choice E pol now p = Inr (TK_EXHAUST reason)" if "t \<le> now" for now
    using e(2) that assms(3,4) not_waiting e(1,3) t
    by (auto simp: tick_choice_def park_escalation_def escalation_integrity_def clock_ok_def ts
        dict_get_null_def parse_escalation_status_def field_is_def)
  then show ?thesis using w x by (intro exI [of _ t]) (meson closes_park_def)
qed

section \<open>A concrete ladder\<close>

text \<open>A timestamp format for examples: a sign and the binary digits, lowest first.\<close>

fun bit_text :: "int \<Rightarrow> string" where
  "bit_text n = (if n \<le> 0 then [] else (if n mod 2 = 0 then CHR ''0'' else CHR ''1'') # bit_text (n div 2))"

declare bit_text.simps [simp del]

fun of_bit_text :: "string \<Rightarrow> int" where
  "of_bit_text [] = 0"
| "of_bit_text (c # cs) = (if c = CHR ''1'' then 1 else 0) + 2 * of_bit_text cs"

definition sample_isofmt :: "int \<Rightarrow> string" where
  "sample_isofmt t = (if t < 0 then CHR ''-'' else CHR ''+'') # bit_text \<bar>t\<bar>"

definition sample_from_iso :: "string \<Rightarrow> int option option" where
  "sample_from_iso s = (case s of [] \<Rightarrow> None
     | c # cs \<Rightarrow> Some (Some (if c = CHR ''-'' then - of_bit_text cs else of_bit_text cs)))"

lemma of_bit_text_inv [simp]: "0 \<le> n \<Longrightarrow> of_bit_text (bit_text n) = n"
  by (induction n rule: bit_text.induct) (subst bit_text.simps, auto, presburger)

lemma bit_text_no_Z: "set (bit_text n) \<subseteq> {CHR ''0'', CHR ''1''}"
  by (induction n rule: bit_text.induct) (subst bit_text.simps, auto)

lemma map_no_Z: "CHR ''Z'' \<notin> set s \<Longrightarrow> concat (map (\<lambda>c. if c = CHR ''Z'' then ''+00:00'' else [c]) s) = s"
  by (induction s) auto

definition sample_env :: hil_env where
  "sample_env = \<lparr>he_str = (\<lambda>_. []), he_sha = (\<lambda>_. []), he_isofmt = sample_isofmt,
     he_from_iso = sample_from_iso, he_action_hash = (\<lambda>d. ''h'' @ concat (map fst d)),
     he_action = (\<lambda>j. Some \<lparr>ha_id = ''x1'', ha_type = ''restart'', ha_workflow = False\<rparr>),
     he_rule = (\<lambda>_. None), he_rules = (\<lambda>r. Some \<lparr>hr_id = r, hr_remediates = ''restart'', hr_reference = []\<rparr>),
     he_report_line = False\<rparr>"

lemma sample_iso_ok: "iso_ok sample_env"
proof -
  have "CHR ''Z'' \<notin> set (sample_isofmt t)" for t
    using bit_text_no_Z [of "\<bar>t\<bar>"] by (auto simp: sample_isofmt_def)
  then show ?thesis
    by (simp add: iso_ok_def iso_instant_def sample_env_def map_no_Z) (simp add: sample_isofmt_def sample_from_iso_def)
qed

definition sample_park :: park where
  "sample_park = [(''status'', JStr ''pending''), (''revision'', JInt 0), (''approval_id'', JStr ''a1''),
     (''action'', JObj [(''id'', JStr ''x1'')]), (''action_hash'', JStr ''hid''), (''submitter_oid'', JStr ''alice''),
     (''request_fingerprint'', JStr ''f''), (''rule_id'', JStr ''r1''),
     (''approval_context'', JObj [(''expires_at'', JStr (sample_isofmt 1000))])]"

definition sample_policy :: escalation_policy where
  "sample_policy = \<lparr>ep_decision_timeout = 300, ep_overall_timeout = 1800, ep_delivery_retry = 60, ep_mode = ENFORCE\<rparr>"

definition sample_rungs :: "escalation_rung list" where
  "sample_rungs = [\<lparr>er_subject = ''Alice'', er_duty = ''primary'', er_role = ''Approver''\<rparr>,
     \<lparr>er_subject = ''bob'', er_duty = ''primary'', er_role = ''Approver''\<rparr>,
     \<lparr>er_subject = ''carol'', er_duty = ''manager'', er_role = ''Owner''\<rparr>]"

definition sample_attached :: park where
  "sample_attached = attached_record sample_env sample_policy sample_park (tl sample_rungs) 1000 0
     [(''id'', JStr ''x1'')] 5"

lemma sample_attach: "attach sample_env sample_policy sample_park sample_rungs 5 = Inr sample_attached"
proof -
  have "unique_rungs [folded (text_or (he_str sample_env) sample_park ''submitter_oid'' [])] sample_rungs = tl sample_rungs"
    by code_simp
  moreover have "timestamp_of sample_env ''approval expires_at'' (JStr (sample_isofmt 1000)) = Inr 1000"
    using sample_iso_ok by (simp add: iso_ok_def timestamp_of_def) (simp add: sample_env_def)
  moreover have "tl sample_rungs \<noteq> []" "length (tl sample_rungs) \<le> 8" by (simp_all add: sample_rungs_def)
  ultimately show ?thesis
    by (simp add: attach_def Let_def first_failure.simps sample_attached_def)
      (simp add: sample_park_def dict_get_null_def park_revision_def)
qed

lemma sample_reachable: "reachable (escalation_start sample_env) (escalation_step sample_env) sample_attached"
  by (rule reachable_start) (use sample_attach in \<open>auto simp: escalation_start_def\<close>)

theorem escalation_never_asks_requester_witness:
  "\<exists>a. dict_get sample_attached ''assignee_oid'' = Some (JStr a) \<and> folded a \<noteq> requester_of sample_env sample_attached"
  using escalation_never_asks_requester [OF sample_reachable] by auto

theorem supervised_park_is_closed_witness:
  "\<exists>now reason p'. tick_choice sample_env sample_policy now sample_attached = Inr (TK_EXHAUST reason) \<and>
     exhaust sample_env now reason sample_attached = Inr p' \<and> field_is p' ''decision'' ''timeout''"
proof -
  have "field_is sample_attached ''status'' ''pending''" "ep_mode sample_policy = ENFORCE"
    by (simp_all add: sample_attached_def attached_record_def sample_park_def field_is_def sample_policy_def)
  from supervised_park_is_closed [OF sample_reachable sample_iso_ok this] show ?thesis by blast
qed

end
