(* ===== verification/HilResume.thy ===== *)
theory HilResume
  imports HilEscalation
begin

text \<open>
  Concurrent resolutions of parked approvals: \<open>HilResumeCoordinator.resolve\<close> cut at its awaits
  (\<open>coordinator.py\<close>, \<open>dispatch.py\<close>), together with the other writers of a park: a request
  (\<open>request.py\<close>), the supervisor and the expiry worker, the contact consent (\<open>report_line.py\<close>), the
  cleanup of duplicates (\<open>subject_cleanup.py\<close>) and a rejected workflow slot
  (\<open>delivery/persistence/state_store_hil_registry.py\<close>).
\<close>

section \<open>Other writers\<close>

record approval_request =
  hq_id :: string
  hq_action :: "(string, json) dict"
  hq_action_type :: string
  hq_rule_id :: string
  hq_rule :: json
  hq_severity :: string
  hq_category :: string
  hq_submitter :: string
  hq_assignee :: "string option"
  hq_correlation :: string
  hq_idempotency :: string
  hq_fingerprint :: string
  hq_parked_at :: int
  hq_reasons :: "string list"
  hq_blast_summary :: string
  hq_ttl :: int
  hq_original_quorum :: "int option"
  hq_effective_quorum :: "int option"
  hq_on_call :: json
  hq_route :: json
  hq_consent_id :: json
  hq_consent_expires :: json
  hq_subject :: "(string \<times> int \<times> string option) option"
  hq_development :: "(string, json) dict option"
  hq_profile :: "(string, json) dict option"
  hq_policy :: "(string, json) dict option"

definition request_checks :: "approval_request \<Rightarrow> (bool \<times> string) list" where
  "request_checks r =
     [(py_strip (hq_submitter r) = [],
        ''submitter_oid MUST be non-empty - it is the no-self-approval authority''),
      (hq_ttl r \<le> 0, ''ttl_seconds MUST be > 0''),
      (py_strip (hq_id r) = [], ''approval_id MUST be non-empty when supplied''),
      ((hq_original_quorum r = None) \<noteq> (hq_effective_quorum r = None),
        ''original and effective quorum MUST be supplied together''),
      ((case (hq_original_quorum r, hq_effective_quorum r) of
          (Some m, Some n) \<Rightarrow> m < 1 \<or> n < 1 | _ \<Rightarrow> False),
        ''approval quorum fields MUST be positive integers''),
      (length (hq_id r) > 200, ''approval_id exceeds cap (200)'')]"

definition option_json :: "('a \<Rightarrow> json) \<Rightarrow> 'a option \<Rightarrow> json" where
  "option_json f v = (case v of None \<Rightarrow> JNull | Some x \<Rightarrow> f x)"

text \<open>
  The park as \<open>request_approval\<close> first writes it, before a ladder is attached. \<open>hq_subject\<close> holds the
  subject key, the lineage and the previous request of a generated approval id.
\<close>

definition str_field :: "hil_env \<Rightarrow> (string, json) dict \<Rightarrow> string \<Rightarrow> json" where
  "str_field E d key = JStr (case dict_get d key of None \<Rightarrow> [] | Some j \<Rightarrow> py_str (he_str E) j)"

definition count_text :: "int option \<Rightarrow> json" where
  "count_text n = JStr (case n of None \<Rightarrow> [] | Some k \<Rightarrow> if k = 0 then [] else str_int k)"

definition profile_metadata :: "hil_env \<Rightarrow> approval_request \<Rightarrow> (string, json) dict \<Rightarrow> (string, json) dict" where
  "profile_metadata E r profile =
     [(''decision_route'', JStr ''action''), (''approval_profile'', str_field E profile ''approval_profile''),
      (''approval_profile_revision_id'', str_field E profile ''revision_id''),
      (''approval_profile_operator_principal'', str_field E profile ''operator_principal''),
      (''approval_profile_executor_principal'', str_field E profile ''executor_principal''),
      (''approval_profile_policy_digest'', str_field E profile ''policy_digest''),
      (''approval_profile_effective_from'', str_field E profile ''effective_from''),
      (''original_quorum_required'', count_text (hq_original_quorum r)),
      (''effective_quorum_required'', count_text (hq_effective_quorum r))]"

definition policy_metadata :: "hil_env \<Rightarrow> (string, json) dict \<Rightarrow> (string, json) dict" where
  "policy_metadata E policy =
     [(''operator_policy_revision_id'', str_field E policy ''revision_id''),
      (''operator_policy_digest'', str_field E policy ''policy_digest''),
      (''operator_policy_outcome'', str_field E policy ''outcome'')]"

text \<open>The entries that are written only when the request has them.\<close>

definition optional_fields :: "hil_env \<Rightarrow> approval_request \<Rightarrow> park" where
  "optional_fields E r =
     (case hq_subject r of None \<Rightarrow> []
      | Some (subject, lineage, previous) \<Rightarrow> [(''subject_key'', JStr subject), (''lineage'', JInt lineage)] @
          (case previous of None \<Rightarrow> [] | Some a \<Rightarrow> [(''previous_approval_id'', JStr a)])) @
     (case hq_development r of None \<Rightarrow> [] | Some block \<Rightarrow> [(''development_authority'', JObj block)]) @
     (case hq_profile r of None \<Rightarrow> [] | Some profile \<Rightarrow> [(''approval_profile'', JObj profile)]) @
     (case hq_policy r of None \<Rightarrow> [] | Some policy \<Rightarrow> [(''operator_policy'', JObj policy)]) @
     (let m = (case hq_profile r of None \<Rightarrow> [] | Some profile \<Rightarrow> profile_metadata E r profile) @
        (case hq_policy r of None \<Rightarrow> [] | Some policy \<Rightarrow> policy_metadata E policy)
      in if m = [] then [] else [(''metadata'', JObj m)])"

definition new_park :: "hil_env \<Rightarrow> approval_request \<Rightarrow> park" where
  "new_park E r =
     [(''status'', JStr (if hq_route r \<noteq> JNull then ''awaiting_contact_consent'' else ''pending'')),
      (''revision'', JInt 0), (''approval_id'', JStr (hq_id r)), (''action'', JObj (hq_action r)),
      (''action_hash'', JStr (he_action_hash E (hq_action r))), (''rule_id'', JStr (hq_rule_id r)),
      (''rule'', hq_rule r), (''action_type'', JStr (hq_action_type r)),
      (''severity'', JStr (hq_severity r)), (''category'', JStr (hq_category r)),
      (''submitter_oid'', JStr (py_strip (hq_submitter r))), (''assignee_oid'', option_json JStr (hq_assignee r)),
      (''correlation_id'', JStr (hq_correlation r)), (''idempotency_key'', JStr (hq_idempotency r)),
      (''request_fingerprint'', JStr (hq_fingerprint r)), (''parked_at'', JStr (he_isofmt E (hq_parked_at r))),
      (''approval_context'', JObj
        [(''reasons'', JList (map JStr (hq_reasons r))), (''blast_radius_summary'', JStr (hq_blast_summary r)),
         (''ttl_seconds'', JInt (hq_ttl r)),
         (''expires_at'', JStr (he_isofmt E (hq_parked_at r + seconds (hq_ttl r))))]),
      (''original_quorum_required'', option_json JInt (hq_original_quorum r)),
      (''effective_quorum_required'', option_json JInt (hq_effective_quorum r)),
      (''on_call'', hq_on_call r), (''report_line_route'', hq_route r),
      (''contact_consent_id'', hq_consent_id r), (''contact_consent_expires_at'', hq_consent_expires r)] @
     optional_fields E r"

text \<open>\<open>_supersede\<close> of a duplicate request.\<close>

definition supersede :: "string \<Rightarrow> string \<Rightarrow> park \<Rightarrow> park option" where
  "supersede survivor stamp p =
     (if \<not> open_park p then None
      else Some (dict_merge p [(''status'', JStr ''superseded_duplicate''), (''superseded_by'', JStr survivor),
        (''superseded_at'', JStr stamp), (''revision'', JInt (lenient_revision p + 1))]))"

text \<open>The accepted contact consent of \<open>decide_contact\<close>, which makes the park pending.\<close>

definition consented_record :: "park \<Rightarrow> int \<Rightarrow> json \<Rightarrow> park" where
  "consented_record updated revision consent = dict_merge updated
     [(''status'', JStr ''pending''), (''revision'', JInt (revision + 1)), (''contact_consent'', consent)]"

definition contact_consented ::
  "hil_env \<Rightarrow> escalation_policy \<Rightarrow> escalation_rung list \<Rightarrow> int \<Rightarrow> json \<Rightarrow> park \<Rightarrow> park res" where
  "contact_consented E pol rungs now consent p =
     (if \<not> field_is p ''status'' ''awaiting_contact_consent'' \<or> \<not> parked_action_integrity_matches E p
      then Inl (ValueError ''report-line approval action integrity is invalid'')
      else case he_action E (dict_get_null p ''action'') of
        None \<Rightarrow> Inl (ValueError ''validation error for Action'')
      | Some action \<Rightarrow>
         if resolve_parked_rule E p action = None then Inl (ValueError ''report-line approval rule is unavailable'')
         else bind_res (attach E pol p rungs now) (\<lambda>updated.
              bind_res (park_revision p) (\<lambda>revision.
                Inr (consented_record updated revision consent))))"

text \<open>\<open>_close_rejected_workflow_slots\<close>\<close>

definition slot_rejected :: "string \<Rightarrow> park \<Rightarrow> park res" where
  "slot_rejected stamp p =
     (if \<not> field_is p ''status'' ''pending'' then Inl (ValueError ''not a pending slot'')
      else bind_res (py_int (case dict_get p ''revision'' of None \<Rightarrow> JInt 0 | Some r \<Rightarrow> r)) (\<lambda>revision.
        Inr (dict_merge p [(''status'', JStr ''resolved''), (''decision'', JStr ''reject''),
          (''resolved_at'', JStr stamp), (''revision'', JInt (revision + 1))])))"

text \<open>
  One write of somebody else. The declined, expired or changed contact consent closes the park
  through \<open>_mark_resolved\<close>, whose later attempts may find it pending.
\<close>

inductive other_write :: "hil_env \<Rightarrow> park \<Rightarrow> park \<Rightarrow> bool" for E :: hil_env where
  ow_supervisor: "supervisor_write E pol now p p' \<Longrightarrow> other_write E p p'"
| ow_supersede: "supersede survivor stamp p = Some p' \<Longrightarrow> other_write E p p'"
| ow_consented: "contact_consented E pol rungs now consent p = Inr p' \<Longrightarrow> other_write E p p'"
| ow_declined: "open_park p \<Longrightarrow> park_revision p = Inr n \<Longrightarrow>
    other_write E p (resolved_record HD_TIMEOUT requester stamp n p)"
| ow_slot: "slot_rejected stamp p = Inr p' \<Longrightarrow> other_write E p p'"

section \<open>Resolutions\<close>

record mark =
  mk_snapshot :: park
  mk_reads :: resolve_reads
  mk_attempted :: hil_decision
  mk_plan :: hil_plan

text \<open>
  Where a call waits: for the park, for the compare-and-set of an attempt (with the number of
  attempts after it), for the newer record after a lost one, for the record a race left, and for the
  executor.
\<close>

datatype resolve_phase = RP_READ | RP_CAS nat park mark | RP_REREAD nat mark | RP_RACE mark | RP_DISPATCH mark

text \<open>A call of an executor, with what led to it.\<close>

record dispatched =
  dp_call :: resolve_call
  dp_mark :: mark
  dp_action :: hil_action
  dp_executor :: executor_call

record hil_world =
  hw_parks :: "string \<Rightarrow> park option"
  hw_audit :: "hil_audit list"
  hw_tasks :: "nat \<Rightarrow> (resolve_call \<times> resolve_phase) option"
  hw_results :: "(nat \<times> resolve_result) list"
  hw_calls :: "dispatched list"

definition set_phase :: "nat \<Rightarrow> (resolve_call \<times> resolve_phase) option \<Rightarrow> hil_world \<Rightarrow> hil_world" where
  "set_phase t k w = w\<lparr>hw_tasks := (hw_tasks w)(t := k)\<rparr>"

definition add_audit :: "hil_audit list \<Rightarrow> hil_world \<Rightarrow> hil_world" where
  "add_audit es w = w\<lparr>hw_audit := hw_audit w @ es\<rparr>"

definition finish :: "nat \<Rightarrow> resolve_result \<Rightarrow> hil_world \<Rightarrow> hil_world" where
  "finish t r w = set_phase t None (w\<lparr>hw_results := hw_results w @ [(t, r)]\<rparr>)"

definition start_resolve :: "nat \<Rightarrow> resolve_call \<Rightarrow> hil_world \<Rightarrow> hil_world" where
  "start_resolve t c w = (case resolvable_decision (rc_decision c) of
     None \<Rightarrow> finish t (rz RZ_DECISION_REFUSED (Some ''decision_not_resolvable'') None)
       (add_audit [\<lparr>au_kind = ''hil.resolve.decision_refused'',
          au_key = rc_approval c @ '':hil_resolve_decision_refused'', au_approval = rc_approval c,
          au_correlation = rc_approval c\<rparr>] w)
   | Some _ \<Rightarrow> set_phase t (Some (c, RP_READ)) w)"

definition read_park :: "hil_env \<Rightarrow> resolve_reads \<Rightarrow> nat \<Rightarrow> resolve_call \<Rightarrow> hil_world \<Rightarrow> hil_world" where
  "read_park E rd t c w = (case resolvable_decision (rc_decision c) of
     None \<Rightarrow> set_phase t None w
   | Some d \<Rightarrow> (case hw_parks w (rc_approval c) of
       None \<Rightarrow> finish t (rz RZ_NOT_FOUND None None)
         (add_audit [\<lparr>au_kind = ''hil.resolve.not_found'', au_key = rc_approval c @ '':hil_resolve_not_found'',
            au_approval = rc_approval c, au_correlation = rc_approval c\<rparr>] w)
     | Some p \<Rightarrow> (case resolve_plan E rd c d p of
         Inl _ \<Rightarrow> set_phase t None w
       | Inr plan \<Rightarrow>
          (let m = \<lparr>mk_snapshot = p, mk_reads = rd, mk_attempted = d, mk_plan = plan\<rparr>
           in case plan of
             Answer audits r \<Rightarrow> finish t r (add_audit audits w)
           | Close audits _ _ _ _ \<Rightarrow> set_phase t (Some (c, RP_CAS 2 p m)) (add_audit audits w)
           | Claim audits _ _ _ \<Rightarrow> set_phase t (Some (c, RP_CAS 2 p m)) (add_audit audits w)))))"

fun mark_decision :: "hil_plan \<Rightarrow> hil_decision" where
  "mark_decision (Close _ d _ _ _) = d"
| "mark_decision _ = HD_APPROVE"

fun mark_approver :: "resolve_call \<Rightarrow> hil_plan \<Rightarrow> string" where
  "mark_approver c (Close _ _ a _ _) = a"
| "mark_approver c _ = rc_approver c"

fun mark_kind :: "hil_plan \<Rightarrow> string" where
  "mark_kind (Close _ _ _ k _) = k"
| "mark_kind _ = ''hil.approved.claimed''"

text \<open>What follows a successful compare-and-set.\<close>

definition claimed :: "hil_env \<Rightarrow> nat \<Rightarrow> resolve_call \<Rightarrow> mark \<Rightarrow> hil_world \<Rightarrow> hil_world" where
  "claimed E t c m w = (case mk_plan m of
     Close _ _ _ _ r \<Rightarrow> finish t r w
   | Claim _ d _ None \<Rightarrow> finish t \<lparr>rz_outcome = RZ_EXECUTE_FAILED, rz_reason = Some ''rule_not_in_catalog'',
         rz_delegated = is_delegated d, rz_assignee = parked_assignee E (mk_snapshot m)\<rparr>
       (add_audit [park_audit E c (mk_snapshot m) ''hil.approved.execute_failed'' '':hil_execute_failed''] w)
   | Claim _ _ _ (Some _) \<Rightarrow> set_phase t (Some (c, RP_DISPATCH m)) w
   | Answer _ r \<Rightarrow> finish t r w)"

definition park_id :: "hil_env \<Rightarrow> park \<Rightarrow> string option" where
  "park_id E p = map_option (py_str (he_str E)) (dict_get p ''approval_id'')"

definition cas_attempt ::
  "hil_env \<Rightarrow> string \<Rightarrow> nat \<Rightarrow> resolve_call \<Rightarrow> nat \<Rightarrow> park \<Rightarrow> mark \<Rightarrow> hil_world \<Rightarrow> hil_world" where
  "cas_attempt E stamp t c left candidate m w = (case (park_id E (mk_snapshot m), park_revision candidate) of
     (Some key, Inr revision) \<Rightarrow>
       (case cas_park (hw_parks w) key (resolved_record (mark_decision (mk_plan m))
            (mark_approver c (mk_plan m)) stamp revision candidate) revision of
          Some parks \<Rightarrow> claimed E t c m (add_audit
            [\<lparr>au_kind = mark_kind (mk_plan m),
              au_key = text_or (he_str E) candidate ''idempotency_key'' key @ '':'' @ mark_kind (mk_plan m) @
                '':'' @ str_int revision, au_approval = key,
              au_correlation = text_or (he_str E) candidate ''correlation_id'' key\<rparr>] (w\<lparr>hw_parks := parks\<rparr>))
        | None \<Rightarrow> set_phase t (Some (c, RP_REREAD left m)) w)
   | _ \<Rightarrow> set_phase t None w)"

definition reread :: "hil_env \<Rightarrow> nat \<Rightarrow> resolve_call \<Rightarrow> nat \<Rightarrow> mark \<Rightarrow> hil_world \<Rightarrow> hil_world" where
  "reread E t c left m w = (case Option.bind (park_id E (mk_snapshot m)) (hw_parks w) of
     None \<Rightarrow> set_phase t (Some (c, RP_RACE m)) w
   | Some latest \<Rightarrow>
      (case left of
         Suc n \<Rightarrow> (if still_claimable (mk_snapshot m) (Some latest)
           then set_phase t (Some (c, RP_CAS n latest m)) w
           else set_phase t (Some (c, RP_RACE m)) w)
       | 0 \<Rightarrow> set_phase t (Some (c, RP_RACE m)) w))"

definition lost_race :: "hil_env \<Rightarrow> nat \<Rightarrow> resolve_call \<Rightarrow> mark \<Rightarrow> hil_world \<Rightarrow> hil_world" where
  "lost_race E t c m w = finish t (race_result E (mk_attempted m) (hw_parks w (rc_approval c))) w"

text \<open>
  The dispatch: a refusal is an outcome of its own, otherwise the executor is called, which reports
  \<open>Some v\<close> or raises.
\<close>

definition dispatch_claimed ::
  "hil_env \<Rightarrow> dispatch_env \<Rightarrow> string option \<Rightarrow> nat \<Rightarrow> resolve_call \<Rightarrow> mark \<Rightarrow> hil_world \<Rightarrow> hil_world" where
  "dispatch_claimed E D reported t c m w = (case mk_plan m of
     Claim _ d action _ \<Rightarrow>
       (let answer = (\<lambda>v w. let (entry, r) = executed_answer E c (mk_snapshot m) d v
              in finish t r (add_audit [entry] w))
        in case hil_dispatch D action of
             Inl _ \<Rightarrow> answer ''rejected_invariant'' w
           | Inr ex \<Rightarrow>
              (let w = w\<lparr>hw_calls := hw_calls w @
                   [\<lparr>dp_call = c, dp_mark = m, dp_action = action, dp_executor = ex\<rparr>]\<rparr>
               in case reported of None \<Rightarrow> set_phase t None w | Some v \<Rightarrow> answer v w))
   | _ \<Rightarrow> set_phase t None w)"

section \<open>Interleavings\<close>

inductive hil_step :: "hil_env \<Rightarrow> hil_world \<Rightarrow> hil_world \<Rightarrow> bool" for E :: hil_env where
  hs_request: "first_failure (request_checks r) = Inr () \<Longrightarrow> hw_parks w (hq_id r) = None \<Longrightarrow>
    p = new_park E r \<or> attach E pol (new_park E r) rungs now = Inr p \<Longrightarrow>
    hil_step E w (w\<lparr>hw_parks := (hw_parks w)(hq_id r \<mapsto> p)\<rparr>)"
| hs_other: "hw_parks w aid = Some p \<Longrightarrow> other_write E p p' \<Longrightarrow>
    hil_step E w (w\<lparr>hw_parks := (hw_parks w)(aid \<mapsto> p')\<rparr>)"
| hs_start: "hw_tasks w t = None \<Longrightarrow> hil_step E w (start_resolve t c w)"
| hs_read: "hw_tasks w t = Some (c, RP_READ) \<Longrightarrow> hil_step E w (read_park E rd t c w)"
| hs_cas: "hw_tasks w t = Some (c, RP_CAS n candidate m) \<Longrightarrow>
    hil_step E w (cas_attempt E stamp t c n candidate m w)"
| hs_reread: "hw_tasks w t = Some (c, RP_REREAD n m) \<Longrightarrow> hil_step E w (reread E t c n m w)"
| hs_race: "hw_tasks w t = Some (c, RP_RACE m) \<Longrightarrow> hil_step E w (lost_race E t c m w)"
| hs_dispatch: "hw_tasks w t = Some (c, RP_DISPATCH m) \<Longrightarrow>
    hil_step E w (dispatch_claimed E D reported t c m w)"
| hs_abort: "hw_tasks w t = Some k \<Longrightarrow> hil_step E w (set_phase t None w)"

definition hil_start :: "hil_world \<Rightarrow> bool" where
  "hil_start w \<longleftrightarrow> hw_parks w = (\<lambda>_. None) \<and> hw_tasks w = (\<lambda>_. None) \<and> hw_calls w = []"

section \<open>What a plan tells about its park\<close>

definition resolved_park :: "park \<Rightarrow> bool" where
  "resolved_park p = field_is p ''status'' ''resolved''"

text \<open>The grounds of an approval: an admitted delegation, or the Owner's attested self-approval.\<close>

definition approval_grounds :: "hil_env \<Rightarrow> resolve_reads \<Rightarrow> resolve_call \<Rightarrow> park \<Rightarrow> delegation \<Rightarrow> bool" where
  "approval_grounds E rd c p d \<longleftrightarrow>
     (\<exists>profile q. parked_approval_profile E rd p = Inr (Inr profile) \<and>
        evaluate_hil_delegation (rc_approver c) (py_strip (text_or (he_str E) p ''submitter_oid'' []))
          (rc_can_approve c) (parked_assignee E p) profile q None = Inr d \<and>
        dl_allowed d \<and> \<not> development_owner_only p) \<or>
     (rc_attested c \<and> rc_can_approve c \<and> fst (rd_admission rd) \<and>
        (development_owner_only p \<longrightarrow> fst (rd_revalidation rd)))"

definition route_holds :: "hil_env \<Rightarrow> resolve_reads \<Rightarrow> resolve_call \<Rightarrow> park \<Rightarrow> bool" where
  "route_holds E rd c p \<longleftrightarrow> as_mapping (dict_get p ''report_line_route'') = None \<or>
     he_report_line E \<and> route_is_current E rd p (rc_approver c)"

lemma development_gate_admits:
  "development_gate E rd c p = Inr (audits, d) \<Longrightarrow>
     fst (rd_admission rd) \<and> (development_owner_only p \<longrightarrow> fst (rd_revalidation rd)) \<and> dl_allowed d"
  by (cases "rd_admission rd"; cases "rd_revalidation rd")
    (auto simp: development_gate_def Let_def split: if_splits)

lemma development_gate_Inl:
  "development_gate E rd c p = Inl plan \<Longrightarrow> \<exists>audits r. plan = Close audits HD_REJECT ''system:development-admission''
     ''hil.resolve.development_self_approval_closed'' r"
  by (cases "rd_admission rd"; cases "rd_revalidation rd")
    (auto simp: development_gate_def Let_def split: if_splits)

lemma refusal_plan_Answer: "\<exists>audits r. refusal_plan E c p d = Answer audits r"
  by (simp add: refusal_plan_def Let_def)

lemma delegated_plan_Claim:
  assumes "delegated_plan E rd c p action d = Claim audits d' action' rule"
  shows "action' = action \<and> rule = resolve_parked_rule E p action \<and>
    (d' = d \<and> dl_allowed d \<and> \<not> development_owner_only p \<or>
     rc_attested c \<and> rc_can_approve c \<and> fst (rd_admission rd) \<and>
       (development_owner_only p \<longrightarrow> fst (rd_revalidation rd)))"
proof (cases "dl_refusal d = Some DR_SELF_APPROVAL \<and> rc_attested c \<and> rc_can_approve c")
  case True
  with assms obtain audits' d'' where "development_gate E rd c p = Inr (audits', d'')" "action' = action"
    "rule = resolve_parked_rule E p action"
    by (cases "development_gate E rd c p") (auto simp: delegated_plan_def dest: development_gate_Inl)
  with development_gate_admits [OF this(1)] True show ?thesis by simp
next
  case False
  with assms refusal_plan_Answer [of E c p d] show ?thesis by (auto simp: delegated_plan_def split: if_splits)
qed

lemma delegated_plan_Close: "delegated_plan E rd c p action d = Close audits dec a k r \<Longrightarrow> dec = HD_REJECT"
  using refusal_plan_Answer [of E c p d]
  by (auto simp: delegated_plan_def split: if_splits sum.splits dest: development_gate_Inl)

lemma approve_plan_shape:
  assumes "approve_plan E rd c p profile = Inr plan"
  shows "(\<exists>kind r. plan = Close [] HD_TIMEOUT (rc_approver c) kind r) \<or>
    (\<exists>action q d. he_action E (dict_get_null p ''action'') = Some action \<and> route_holds E rd c p \<and>
      plan = delegated_plan E rd c p action d \<and>
      evaluate_hil_delegation (rc_approver c) (py_strip (text_or (he_str E) p ''submitter_oid'' []))
        (rc_can_approve c) (parked_assignee E p) profile q None = Inr d)"
proof (cases "route_holds E rd c p")
  case True
  obtain action where a: "he_action E (dict_get_null p ''action'') = Some action"
    using assms by (auto simp: approve_plan_def split: option.splits)
  have "bind_res (recorded_quorum p) (\<lambda>q. bind_res (evaluate_hil_delegation (rc_approver c)
      (py_strip (text_or (he_str E) p ''submitter_oid'' [])) (rc_can_approve c) (parked_assignee E p) profile q None)
      (\<lambda>d. Inr (delegated_plan E rd c p action d))) = Inr plan"
    using assms True a unfolding approve_plan_def route_holds_def Let_def by (simp del: as_mapping_simps split: if_splits)
  then obtain q d where "evaluate_hil_delegation (rc_approver c) (py_strip (text_or (he_str E) p ''submitter_oid'' []))
      (rc_can_approve c) (parked_assignee E p) profile q None = Inr d" "plan = delegated_plan E rd c p action d"
    unfolding bind_res_Inr by (metis sum.inject(2))
  with True a show ?thesis by blast
next
  case False
  then show ?thesis
    using assms unfolding approve_plan_def route_holds_def Let_def
    by (simp del: as_mapping_simps split: if_splits option.splits) auto
qed

lemma approve_plan_cases:
  assumes "approve_plan E rd c p profile = Inr plan"
  obtains (closed) kind r where "plan = Close [] HD_TIMEOUT (rc_approver c) kind r"
  | (judged) action q d where "he_action E (dict_get_null p ''action'') = Some action"
      "route_holds E rd c p" "plan = delegated_plan E rd c p action d"
      "evaluate_hil_delegation (rc_approver c) (py_strip (text_or (he_str E) p ''submitter_oid'' []))
        (rc_can_approve c) (parked_assignee E p) profile q None = Inr d"
  using approve_plan_shape [OF assms] by blast

lemma approve_plan_Claim:
  assumes "approve_plan E rd c p profile = Inr (Claim audits d action rule)"
    and "parked_approval_profile E rd p = Inr (Inr profile)"
  shows "he_action E (dict_get_null p ''action'') = Some action \<and> rule = resolve_parked_rule E p action \<and>
    route_holds E rd c p \<and> approval_grounds E rd c p d"
  using assms(1)
proof (cases rule: approve_plan_cases)
  case (judged a q d')
  with delegated_plan_Claim [OF judged(3) [symmetric]] assms(2) show ?thesis
    unfolding approval_grounds_def by blast
qed simp

text \<open>A park that is claimed or closed was neither resolved nor waiting for a contact consent.\<close>

definition judged_park :: "hil_env \<Rightarrow> resolve_reads \<Rightarrow> hil_decision \<Rightarrow> park \<Rightarrow> bool" where
  "judged_park E rd d p \<longleftrightarrow> \<not> resolved_park p \<and> \<not> field_is p ''status'' ''awaiting_contact_consent'' \<and>
     parked_action_integrity_matches E p \<and> (d = HD_APPROVE \<longrightarrow> \<not> approval_expired E p (rd_now rd))"

lemma resolved_answer_Answer: "\<exists>audits r. resolved_answer E c d p = Answer audits r"
  by (simp add: resolved_answer_def Let_def)

lemma resolve_plan_cases:
  assumes "resolve_plan E rd c d p = Inr plan"
  obtains (answer) audits r where "plan = Answer audits r"
  | (close) audits dec a k r where "plan = Close audits dec a k r" "dec \<in> {HD_REJECT, HD_TIMEOUT}" "\<not> resolved_park p"
  | (approve) profile where "parked_approval_profile E rd p = Inr (Inr profile)" "d = HD_APPROVE"
      "judged_park E rd d p" "approve_plan E rd c p profile = Inr plan"
proof -
  have w: "\<not> resolved_park p" if "field_is p ''status'' ''awaiting_contact_consent''"
    using that by (simp add: resolved_park_def field_is_def)
  obtain audits r where ra: "resolved_answer E c d p = Answer audits r"
    using resolved_answer_Answer by blast
  obtain pinned where p: "parked_approval_profile E rd p = Inr pinned"
    using assms by (auto simp: resolve_plan_def bind_res_Inr)
  show ?thesis
  proof (cases pinned)
    case (Inl reason)
    with assms p show ?thesis by (auto simp: resolve_plan_def intro: answer)
  next
    case (Inr profile)
    from assms p Inr show ?thesis
      unfolding resolve_plan_def
      by (simp add: ra del: as_mapping_simps split: if_splits hil_decision.splits)
        (auto simp: resolved_park_def judged_park_def dest: w intro: answer close approve p)
  qed
qed

lemma resolve_plan_Claim:
  assumes "resolve_plan E rd c d p = Inr (Claim audits dlg action rule)"
  shows "d = HD_APPROVE \<and> judged_park E rd d p \<and> he_action E (dict_get_null p ''action'') = Some action \<and>
    rule = resolve_parked_rule E p action \<and> route_holds E rd c p \<and> approval_grounds E rd c p dlg"
  using assms
  by (cases rule: resolve_plan_cases) (auto dest: approve_plan_Claim)

lemma resolve_plan_Close:
  assumes "resolve_plan E rd c d p = Inr (Close audits dec a k r)"
  shows "dec \<in> {HD_REJECT, HD_TIMEOUT} \<and> \<not> resolved_park p"
  using assms
proof (cases rule: resolve_plan_cases)
  case (approve profile)
  from approve(4) show ?thesis
    using approve(3) by (cases rule: approve_plan_cases) (auto simp: judged_park_def dest: delegated_plan_Close [OF sym])
qed auto

section \<open>Writes and revisions\<close>

text \<open>A park keeps its id and counts its writes.\<close>

definition kept_park :: "string \<Rightarrow> park \<Rightarrow> bool" where
  "kept_park aid p \<longleftrightarrow> field_is p ''approval_id'' aid \<and> (\<exists>n. park_at n p)"

definition advances :: "park \<Rightarrow> park \<Rightarrow> bool" where
  "advances p p' \<longleftrightarrow> \<not> resolved_park p \<and> dict_get p' ''approval_id'' = dict_get p ''approval_id'' \<and>
     (\<forall>n. park_at n p \<longrightarrow> park_at (n + 1) p')"

lemma open_not_resolved: "open_park p \<Longrightarrow> \<not> resolved_park p"
  by (auto simp: open_park_def resolved_park_def field_is_def)

lemma park_revision_at: "park_at n p \<Longrightarrow> park_revision p = Inr m \<Longrightarrow> m = n"
  by simp

lemma resolved_record_sel:
  "field_is (resolved_record d approver stamp n p) ''status'' ''resolved''"
  "field_is (resolved_record d approver stamp n p) ''decision'' (hil_decision_value d)"
  "field_is (resolved_record d approver stamp n p) ''approver_oid'' approver"
  "dict_get (resolved_record d approver stamp n p) ''revision'' = Some (JInt (n + 1))"
  "key \<notin> {''status'', ''decision'', ''approver_oid'', ''resolved_at'', ''revision'', ''escalation''} \<Longrightarrow>
     dict_get (resolved_record d approver stamp n p) key = dict_get p key"
  by (simp_all add: resolved_record_def field_is_def Let_def split: option.splits)

lemma resolved_record_advances:
  assumes "\<not> resolved_park p" and "park_revision p = Inr n"
  shows "advances p (resolved_record d approver stamp n p)"
  using assms resolved_record_sel(5) [of "''approval_id''" d approver stamp n p]
  by (auto simp: advances_def park_at_def resolved_record_sel(4) park_revision_def)

lemma supervised_advances: "supervised p p' \<Longrightarrow> open_park p \<Longrightarrow> advances p p'"
  by (simp add: supervised_def same_request_def supervised_fields_def advances_def open_not_resolved)

lemma attach_keeps:
  assumes "attach E pol p rungs now = Inr p'"
  shows "dict_get p' ''approval_id'' = dict_get p ''approval_id''" "park_at n p \<Longrightarrow> park_at n p'"
  using attach_Inr [OF assms] by (auto simp: attached_record_def park_at_def park_revision_def)

lemma contact_consented_advances:
  assumes "contact_consented E pol rungs now consent p = Inr p'"
  shows "advances p p'"
proof -
  obtain updated n where u: "attach E pol p rungs now = Inr updated" "park_revision p = Inr n"
    and p': "p' = consented_record updated n consent"
    and w: "field_is p ''status'' ''awaiting_contact_consent''"
    using assms by (auto simp: contact_consented_def bind_res_Inr split: if_splits option.splits)
  show ?thesis
    using attach_keeps(1) [OF u(1)] u(2) w
    by (auto simp: p' consented_record_def advances_def park_at_def resolved_park_def field_is_def park_revision_def)
qed

lemma slot_rejected_advances:
  assumes "slot_rejected stamp p = Inr p'"
  shows "advances p p'"
  using assms
  by (auto simp: slot_rejected_def bind_res_Inr advances_def park_at_def resolved_park_def field_is_def py_int_def
      split: if_splits)

lemma supersede_advances: "supersede survivor stamp p = Some p' \<Longrightarrow> advances p p'"
  by (auto simp: supersede_def advances_def open_not_resolved park_at_def split: if_splits)

lemma other_write_advances: "other_write E p p' \<Longrightarrow> advances p p'"
  by (induction rule: other_write.induct)
    (auto dest: supervisor_write_supervised supervised_advances supersede_advances contact_consented_advances
      slot_rejected_advances intro: resolved_record_advances [OF open_not_resolved])

lemma kept_advances: "kept_park aid p \<Longrightarrow> advances p p' \<Longrightarrow> kept_park aid p'"
  by (auto simp: kept_park_def advances_def field_is_def)

lemma kept_new: "kept_park (hq_id r) (new_park E r)"
  by (simp add: kept_park_def new_park_def field_is_def park_at_def)

lemma kept_attached: "attach E pol (new_park E r) rungs now = Inr p \<Longrightarrow> kept_park (hq_id r) p"
  using kept_new [of r E] attach_keeps by (fastforce simp: kept_park_def field_is_def)

text \<open>A compare-and-set that succeeds found the candidate it was made from.\<close>

definition behind :: "park \<Rightarrow> park \<Rightarrow> bool" where
  "behind c p \<longleftrightarrow> (\<exists>m n. park_at m c \<and> park_at n p \<and> (m < n \<or> c = p))"

lemma cas_park_found:
  assumes "cas_park parks key updated m = Some parks'" and "parks key = Some p" and "behind c p"
    and "park_revision c = Inr m"
  shows "c = p \<and> parks' = parks(key \<mapsto> updated)"
  using assms by (auto simp: cas_park_def behind_def park_at_def park_revision_def py_eq_def split: if_splits)

lemma behind_refl: "kept_park aid p \<Longrightarrow> behind p p"
  by (auto simp: kept_park_def behind_def)

lemma behind_advances: "behind c p \<Longrightarrow> advances p p' \<Longrightarrow> behind c p'"
  by (fastforce simp: behind_def advances_def)

section \<open>The invariant\<close>

text \<open>A park claimed for execution by this call, with the action it was judged on.\<close>

definition won_by :: "resolve_call \<Rightarrow> park \<Rightarrow> park \<Rightarrow> bool" where
  "won_by c snapshot p \<longleftrightarrow> resolved_park p \<and> field_is p ''decision'' ''approve'' \<and>
     field_is p ''approver_oid'' (rc_approver c) \<and> immutable_fields p = immutable_fields snapshot"

definition mark_ok :: "hil_env \<Rightarrow> resolve_call \<Rightarrow> mark \<Rightarrow> bool" where
  "mark_ok E c m \<longleftrightarrow> resolvable_decision (rc_decision c) = Some (mk_attempted m) \<and>
     resolve_plan E (mk_reads m) c (mk_attempted m) (mk_snapshot m) = Inr (mk_plan m) \<and>
     field_is (mk_snapshot m) ''approval_id'' (rc_approval c) \<and> (\<forall>audits r. mk_plan m \<noteq> Answer audits r)"

fun phase_ok :: "hil_env \<Rightarrow> resolve_call \<Rightarrow> park option \<Rightarrow> resolve_phase \<Rightarrow> bool" where
  "phase_ok E c current RP_READ \<longleftrightarrow> True"
| "phase_ok E c current (RP_CAS n candidate m) \<longleftrightarrow> mark_ok E c m \<and> \<not> resolved_park candidate \<and>
     immutable_fields candidate = immutable_fields (mk_snapshot m) \<and> (\<exists>p. current = Some p \<and> behind candidate p)"
| "phase_ok E c current (RP_REREAD n m) \<longleftrightarrow> mark_ok E c m \<and> current \<noteq> None"
| "phase_ok E c current (RP_RACE m) \<longleftrightarrow> mark_ok E c m \<and> current \<noteq> None"
| "phase_ok E c current (RP_DISPATCH m) \<longleftrightarrow> mark_ok E c m \<and> (\<exists>p. current = Some p \<and> won_by c (mk_snapshot m) p)"

definition call_ok :: "hil_env \<Rightarrow> (string \<Rightarrow> park option) \<Rightarrow> dispatched \<Rightarrow> bool" where
  "call_ok E parks d \<longleftrightarrow> mark_ok E (dp_call d) (dp_mark d) \<and>
     (\<exists>audits dlg rule. mk_plan (dp_mark d) = Claim audits dlg (dp_action d) rule) \<and>
     (\<exists>p. parks (rc_approval (dp_call d)) = Some p \<and> won_by (dp_call d) (mk_snapshot (dp_mark d)) p)"

definition called :: "hil_world \<Rightarrow> string \<Rightarrow> bool" where
  "called w aid \<longleftrightarrow> aid \<in> set (map (rc_approval \<circ> dp_call) (hw_calls w))"

definition dispatching :: "hil_world \<Rightarrow> nat \<Rightarrow> string \<Rightarrow> bool" where
  "dispatching w t aid \<longleftrightarrow> (\<exists>c m. hw_tasks w t = Some (c, RP_DISPATCH m) \<and> rc_approval c = aid)"

definition hil_inv :: "hil_env \<Rightarrow> hil_world \<Rightarrow> bool" where
  "hil_inv E w \<longleftrightarrow> (\<forall>aid p. hw_parks w aid = Some p \<longrightarrow> kept_park aid p) \<and>
     (\<forall>t c ph. hw_tasks w t = Some (c, ph) \<longrightarrow> phase_ok E c (hw_parks w (rc_approval c)) ph) \<and>
     (\<forall>d\<in>set (hw_calls w). call_ok E (hw_parks w) d) \<and>
     distinct (map (rc_approval \<circ> dp_call) (hw_calls w)) \<and>
     (\<forall>t u aid. dispatching w t aid \<longrightarrow> \<not> called w aid \<and> (dispatching w u aid \<longrightarrow> u = t))"

lemma phase_ok_put:
  assumes "phase_ok E c current ph" and "current = None \<or> (\<exists>p. current = Some p \<and> advances p p')"
  shows "phase_ok E c (Some p') ph"
  using assms by (cases ph) (auto dest: behind_advances simp: won_by_def advances_def)

lemma inv_put:
  assumes "hil_inv E w" and "kept_park aid p'"
    and "hw_parks w aid = None \<or> (\<exists>p. hw_parks w aid = Some p \<and> advances p p')"
  shows "hil_inv E (w\<lparr>hw_parks := (hw_parks w)(aid \<mapsto> p')\<rparr>)"
proof -
  have "call_ok E ((hw_parks w)(aid \<mapsto> p')) d" if "call_ok E (hw_parks w) d" for d
    using that assms(3) by (auto simp: call_ok_def won_by_def advances_def)
  moreover have "phase_ok E c (((hw_parks w)(aid \<mapsto> p')) (rc_approval c)) ph"
    if "hw_tasks w t = Some (c, ph)" for t c ph
  proof -
    have "phase_ok E c (hw_parks w (rc_approval c)) ph" using assms(1) that by (simp add: hil_inv_def)
    with phase_ok_put [OF this, of p'] assms(3) show ?thesis by auto
  qed
  ultimately show ?thesis using assms(1,2) by (simp add: hil_inv_def dispatching_def called_def)
qed

lemma dispatching_set [simp]:
  "dispatching (set_phase t k w) u aid \<longleftrightarrow>
     (if u = t then \<exists>c m. k = Some (c, RP_DISPATCH m) \<and> rc_approval c = aid else dispatching w u aid)"
  by (simp add: dispatching_def set_phase_def)

lemma set_phase_sel [simp]:
  "hw_parks (set_phase t k w) = hw_parks w" "hw_calls (set_phase t k w) = hw_calls w"
  "hw_tasks (set_phase t k w) u = (if u = t then k else hw_tasks w u)" "called (set_phase t k w) = called w"
  by (auto simp: set_phase_def called_def)

lemma inv_set:
  assumes "hil_inv E w"
    and "\<And>c ph. k = Some (c, ph) \<Longrightarrow> phase_ok E c (hw_parks w (rc_approval c)) ph"
    and "\<And>c m. k = Some (c, RP_DISPATCH m) \<Longrightarrow> \<not> called w (rc_approval c) \<and> (\<forall>u. \<not> dispatching w u (rc_approval c))"
  shows "hil_inv E (set_phase t k w)"
proof -
  have "\<not> called w aid \<and> (dispatching (set_phase t k w) v aid \<longrightarrow> v = u)"
    if "dispatching (set_phase t k w) u aid" for u v aid
    using that assms(1,3) by (auto simp: hil_inv_def split: if_splits)
  then show ?thesis using assms(1,2) by (auto simp: hil_inv_def)
qed

lemma inv_none: "hil_inv E w \<Longrightarrow> hil_inv E (set_phase t None w)"
  by (rule inv_set) auto

lemma inv_audit [simp]: "hil_inv E (add_audit es w) = hil_inv E w"
  by (simp add: hil_inv_def add_audit_def dispatching_def called_def)

lemma inv_finish: "hil_inv E w \<Longrightarrow> hil_inv E (finish t r w)"
  unfolding finish_def by (rule inv_none) (simp add: hil_inv_def dispatching_def called_def)

lemma audit_sel [simp]:
  "hw_parks (add_audit es w) = hw_parks w" "called (add_audit es w) = called w"
  "dispatching (add_audit es w) = dispatching w"
  by (auto simp: add_audit_def called_def dispatching_def fun_eq_iff)

lemma no_claim:
  assumes "hil_inv E w" and "hw_parks w aid = Some p" and "\<not> resolved_park p"
  shows "\<not> called w aid" "\<not> dispatching w u aid"
  using assms by (fastforce simp: hil_inv_def called_def dispatching_def call_ok_def won_by_def)+

lemma inv_task:
  "hil_inv E w \<Longrightarrow> hw_tasks w t = Some (c, ph) \<Longrightarrow> phase_ok E c (hw_parks w (rc_approval c)) ph"
  by (simp add: hil_inv_def)

lemma inv_start: "hil_inv E w \<Longrightarrow> hil_inv E (start_resolve t c w)"
  unfolding start_resolve_def by (auto split: option.splits intro!: inv_finish inv_set)

lemma inv_read:
  assumes "hil_inv E w"
  shows "hil_inv E (read_park E rd t c w)"
proof (cases "resolvable_decision (rc_decision c)")
  case (Some d)
  show ?thesis
  proof (cases "hw_parks w (rc_approval c)")
    case None
    with Some assms show ?thesis by (simp add: read_park_def inv_finish)
  next
    case (Some p)
    then have k: "kept_park (rc_approval c) p" using assms by (simp add: hil_inv_def)
    show ?thesis
    proof (cases "resolve_plan E rd c d p")
      case (Inr plan)
      have "\<not> resolved_park p" if "\<not> (\<exists>audits r. plan = Answer audits r)"
        using Inr that by (cases plan) (auto dest: resolve_plan_Close resolve_plan_Claim simp: judged_park_def)
      with Inr Some \<open>resolvable_decision (rc_decision c) = Some d\<close> k assms show ?thesis
        by (cases plan) (auto simp: read_park_def Let_def mark_ok_def kept_park_def intro!: inv_finish inv_set
            intro: behind_refl [OF k])
    qed (use Some \<open>resolvable_decision (rc_decision c) = Some d\<close> assms in \<open>simp add: read_park_def inv_none\<close>)
  qed
qed (use assms in \<open>simp add: read_park_def inv_none\<close>)

lemma mark_ok_id: "mark_ok E c m \<Longrightarrow> park_id E (mk_snapshot m) = Some (rc_approval c)"
  by (simp add: mark_ok_def park_id_def field_is_def py_str_def)

lemma inv_reread:
  assumes "hil_inv E w" and "hw_tasks w t = Some (c, RP_REREAD n m)"
  shows "hil_inv E (reread E t c n m w)"
proof -
  from inv_task [OF assms] obtain p where m: "mark_ok E c m" and p: "hw_parks w (rc_approval c) = Some p" by auto
  have k: "kept_park (rc_approval c) p" using assms(1) p by (simp add: hil_inv_def)
  have "\<not> resolved_park p" if "still_claimable (mk_snapshot m) (Some p)"
    using that by (auto simp: still_claimable_def resolved_park_def field_is_def)
  with m p k assms(1) mark_ok_id [OF m] show ?thesis
    by (auto simp: reread_def still_claimable_def split: nat.splits if_splits intro!: inv_set intro: behind_refl)
qed

lemma claimed_ok:
  assumes "hil_inv E w" and "mark_ok E c m" and "hw_parks w (rc_approval c) = Some p"
    and "\<And>audits d a r. mk_plan m = Claim audits d a r \<Longrightarrow> won_by c (mk_snapshot m) p"
    and "\<not> called w (rc_approval c)" and "\<forall>u. \<not> dispatching w u (rc_approval c)"
  shows "hil_inv E (claimed E t c m w)"
  using assms
  by (auto simp: claimed_def split: hil_plan.splits option.splits intro!: inv_finish inv_set)

lemma inv_cas:
  assumes "hil_inv E w" and "hw_tasks w t = Some (c, RP_CAS n candidate m)"
  shows "hil_inv E (cas_attempt E stamp t c n candidate m w)"
proof -
  from inv_task [OF assms] obtain p where m: "mark_ok E c m" and p: "hw_parks w (rc_approval c) = Some p"
    and c: "\<not> resolved_park candidate" "immutable_fields candidate = immutable_fields (mk_snapshot m)" "behind candidate p"
    by auto
  note k = mark_ok_id [OF m]
  obtain rev where rev: "park_revision candidate = Inr rev" using c(3) by (auto simp: behind_def)
  let ?new = "resolved_record (mark_decision (mk_plan m)) (mark_approver c (mk_plan m)) stamp rev candidate"
  show ?thesis
  proof (cases "cas_park (hw_parks w) (rc_approval c) ?new rev")
    case None
    with m p k rev assms(1) show ?thesis by (auto simp: cas_attempt_def intro!: inv_set)
  next
    case (Some parks)
    from cas_park_found [OF this p c(3) rev] have found: "candidate = p" "parks = (hw_parks w)(rc_approval c \<mapsto> ?new)"
      by simp_all
    have adv: "advances p ?new" using resolved_record_advances [OF c(1) rev] found(1) by simp
    note quiet = no_claim [OF assms(1) p] c(1) found(1)
    let ?w = "w\<lparr>hw_parks := parks\<rparr>"
    have "kept_park (rc_approval c) ?new"
      using assms(1) p adv kept_advances by (fastforce simp: hil_inv_def)
    then have inv: "hil_inv E ?w" unfolding found(2) by (rule inv_put [OF assms(1)]) (use p adv in auto)
    have won: "won_by c (mk_snapshot m) ?new" if "mk_plan m = Claim audits d a r" for audits d a r
      using that c(2) resolved_record_sel(2) [of HD_APPROVE]
      by (simp add: won_by_def resolved_park_def resolved_record_sel(1,3,5) immutable_fields_def dict_get_null_def)
    have "hil_inv E (claimed E t c m (add_audit es ?w))" for es
      using inv m found won quiet by (intro claimed_ok [where p = ?new]) (auto simp: called_def dispatching_def)
    with Some k rev show ?thesis by (simp add: cas_attempt_def)
  qed
qed

lemma inv_dispatch:
  assumes "hil_inv E w" and "hw_tasks w t = Some (c, RP_DISPATCH m)"
  shows "hil_inv E (dispatch_claimed E D reported t c m w)"
proof (cases "mk_plan m")
  case (Claim audits d action rule)
  show ?thesis
  proof (cases "hil_dispatch D action")
    case (Inl reason)
    with Claim assms(1) show ?thesis
      by (auto simp: dispatch_claimed_def Let_def split: prod.splits intro: inv_finish)
  next
    case (Inr ex)
    let ?d = "\<lparr>dp_call = c, dp_mark = m, dp_action = action, dp_executor = ex\<rparr>"
    have "hil_inv E (set_phase t None (w\<lparr>hw_calls := hw_calls w @ [?d], hw_audit := as, hw_results := rs\<rparr>))" for rs as
    proof -
      have "call_ok E (hw_parks w) ?d" using inv_task [OF assms] Claim by (auto simp: call_ok_def)
      moreover have "dispatching w t (rc_approval c)" using assms(2) by (simp add: dispatching_def)
      ultimately have quiet: "\<not> called w (rc_approval c)" "\<And>u. dispatching w u (rc_approval c) \<Longrightarrow> u = t"
        and d: "call_ok E (hw_parks w) ?d"
        using assms(1) by (auto simp: hil_inv_def)
      let ?v = "w\<lparr>hw_calls := hw_calls w @ [?d], hw_audit := as, hw_results := rs\<rparr>"
      have "called ?v aid \<longleftrightarrow> called w aid \<or> aid = rc_approval c" "dispatching ?v u aid = dispatching w u aid" for aid u
        by (auto simp: called_def dispatching_def)
      then show ?thesis
        using assms(1) quiet d by (auto simp: hil_inv_def called_def)
    qed
    from this [where rs = "hw_results w" and as = "hw_audit w"] this
    show ?thesis using Claim Inr
      by (auto simp: dispatch_claimed_def Let_def finish_def add_audit_def split: prod.splits option.splits)
  qed
qed (use inv_none [OF assms(1)] in \<open>simp_all add: dispatch_claimed_def\<close>)

lemma hil_step_inv: "hil_step E w w' \<Longrightarrow> hil_inv E w \<Longrightarrow> hil_inv E w'"
proof (induction rule: hil_step.induct)
  case (hs_request r w p pol rungs now)
  then show ?case by (intro inv_put) (auto intro: kept_new kept_attached)
next
  case (hs_other w aid p p')
  then have "advances p p'" by (simp add: other_write_advances)
  with hs_other show ?case by (intro inv_put) (auto simp: hil_inv_def intro: kept_advances)
qed (auto intro: inv_start inv_read inv_cas inv_reread inv_dispatch inv_none simp: lost_race_def inv_finish)

lemma hil_start_inv: "hil_start w \<Longrightarrow> hil_inv E w"
  by (simp add: hil_start_def hil_inv_def dispatching_def called_def)

interpretation approvals: safe_system hil_start "hil_step E" "hil_inv E" for E
  by unfold_locales (blast intro: hil_start_inv hil_step_inv)+

section \<open>Properties\<close>

lemma calls_won:
  assumes "reachable hil_start (hil_step E) w" and "d \<in> set (hw_calls w)"
  shows "call_ok E (hw_parks w) d"
  using approvals.reachable_inv [OF assms(1)] assms(2) by (simp add: hil_inv_def)

text \<open>
  C5: In every interleaving of requests, resolutions, supervisors and other writers, the
  executor is called at most once per approval, and then the park stays resolved as approved
  by the caller whose approval executed.
\<close>

theorem approval_executes_once:
  assumes "reachable hil_start (hil_step E) w" and "i < length (hw_calls w)" "j < length (hw_calls w)"
    and "rc_approval (dp_call (hw_calls w ! i)) = rc_approval (dp_call (hw_calls w ! j))"
  shows "i = j \<and> (\<exists>p. hw_parks w (rc_approval (dp_call (hw_calls w ! i))) = Some p \<and>
    field_is p ''status'' ''resolved'' \<and> field_is p ''decision'' ''approve'' \<and>
    field_is p ''approver_oid'' (rc_approver (dp_call (hw_calls w ! i))))"
proof -
  have "distinct (map (rc_approval \<circ> dp_call) (hw_calls w))"
    using approvals.reachable_inv [OF assms(1)] by (simp add: hil_inv_def)
  with assms(2-4) have "i = j" by (simp add: distinct_conv_nth) metis
  moreover have "call_ok E (hw_parks w) (hw_calls w ! i)" using calls_won [OF assms(1)] assms(2) by simp
  ultimately show ?thesis unfolding call_ok_def won_by_def resolved_park_def by blast
qed

text \<open>What an admitted delegation says of the two principals.\<close>

lemma delegation_allowed:
  assumes "evaluate_hil_delegation approver submitter can assignee profile q None = Inr d" and "dl_allowed d"
  shows "can \<and> py_strip (py_strip approver) \<noteq> [] \<and> py_strip (py_strip submitter) \<noteq> [] \<and>
    (single_profile profile \<longrightarrow> (\<exists>p. profile = Some p \<and> names p (py_strip approver))) \<and>
    (\<not> single_profile profile \<longrightarrow> normalized (py_strip approver) \<noteq> normalized (py_strip submitter))"
  using assms
  by (auto simp: evaluate_hil_delegation_def Let_def bind_res_Inr evaluate_profile_approval_def effective_quorum_cases
      single_profile_def split: if_splits option.splits)

text \<open>
  C6: Every executed action is the one in the resolved park and passed, on the park it was
  judged on, the integrity and expiry checks and the capability check, by an approver other
  than the submitter (or the named operator, or the Owner by an admitted self-approval).
\<close>

theorem execution_was_approved:
  assumes "reachable hil_start (hil_step E) w" and "d \<in> set (hw_calls w)"
    and "dp_call d = c" and "mk_snapshot (dp_mark d) = s" and "mk_reads (dp_mark d) = rd"
  shows "\<exists>p. hw_parks w (rc_approval c) = Some p \<and> he_action E (dict_get_null p ''action'') = Some (dp_action d) \<and>
    dict_get_null p ''action'' = dict_get_null s ''action'' \<and> parked_action_integrity_matches E s \<and>
    \<not> approval_expired E s (rd_now rd) \<and> \<not> field_is s ''status'' ''resolved'' \<and>
    \<not> field_is s ''status'' ''awaiting_contact_consent'' \<and> rc_can_approve c \<and>
    (development_owner_only s \<longrightarrow> rc_attested c \<and> fst (rd_admission rd) \<and> fst (rd_revalidation rd)) \<and>
    (\<not> (rc_attested c \<and> fst (rd_admission rd)) \<longrightarrow>
       (\<exists>profile. parked_approval_profile E rd s = Inr (Inr profile) \<and>
         (if single_profile profile then \<exists>pr. profile = Some pr \<and> names pr (py_strip (rc_approver c))
          else normalized (py_strip (rc_approver c)) \<noteq>
            normalized (py_strip (py_strip (text_or (he_str E) s ''submitter_oid'' []))))))"
proof -
  have ok: "call_ok E (hw_parks w) d" by (rule calls_won [OF assms(1,2)])
  then obtain audits dlg rule p where pl: "mk_plan (dp_mark d) = Claim audits dlg (dp_action d) rule"
    and p: "hw_parks w (rc_approval c) = Some p" "won_by c s p" and m: "mark_ok E c (dp_mark d)"
    using assms(3,4) by (auto simp: call_ok_def)
  have "resolve_plan E rd c (mk_attempted (dp_mark d)) s = Inr (Claim audits dlg (dp_action d) rule)"
    using m pl assms(4,5) by (simp add: mark_ok_def)
  from resolve_plan_Claim [OF this]
  have j: "judged_park E rd HD_APPROVE s" "he_action E (dict_get_null s ''action'') = Some (dp_action d)"
    and g: "approval_grounds E rd c s dlg" by auto
  have "dict_get_null p ''action'' = dict_get_null s ''action''" using p(2) by (simp add: won_by_def immutable_fields_def)
  moreover have "rc_can_approve c" using g by (auto simp: approval_grounds_def dest: delegation_allowed)
  moreover have "\<exists>profile. parked_approval_profile E rd s = Inr (Inr profile) \<and>
         (if single_profile profile then \<exists>pr. profile = Some pr \<and> names pr (py_strip (rc_approver c))
          else normalized (py_strip (rc_approver c)) \<noteq>
            normalized (py_strip (py_strip (text_or (he_str E) s ''submitter_oid'' []))))"
    if "\<not> (rc_attested c \<and> fst (rd_admission rd))"
  proof -
    from g that obtain profile q where "parked_approval_profile E rd s = Inr (Inr profile)"
      and e: "evaluate_hil_delegation (rc_approver c) (py_strip (text_or (he_str E) s ''submitter_oid'' []))
        (rc_can_approve c) (parked_assignee E s) profile q None = Inr dlg" "dl_allowed dlg"
      by (auto simp: approval_grounds_def)
    with delegation_allowed [OF e] show ?thesis by auto
  qed
  ultimately show ?thesis using p j g by (auto simp: judged_park_def resolved_park_def approval_grounds_def)
qed

text \<open>A resolved park is never written again.\<close>

lemma resolved_kept:
  assumes "hil_step E w w'" and "hil_inv E w" and "hw_parks w aid = Some p" and "resolved_park p"
  shows "hw_parks w' aid = Some p"
  using assms(1)
proof cases
  case (hs_other aid' q q')
  with assms(3,4) other_write_advances [OF hs_other(3)] show ?thesis by (auto simp: advances_def)
next
  case (hs_cas t c n candidate m stamp)
  from inv_task [OF assms(2) hs_cas(2)] obtain q where m: "mark_ok E c m" and q: "hw_parks w (rc_approval c) = Some q"
    and c: "\<not> resolved_park candidate" "behind candidate q" by auto
  note k = mark_ok_id [OF m]
  obtain rev where rev: "park_revision candidate = Inr rev" using c(2) by (auto simp: behind_def)
  have keep: "hw_parks (claimed E t c m v) = hw_parks v" for v
    by (simp add: claimed_def finish_def split: hil_plan.splits option.splits)
  let ?new = "resolved_record (mark_decision (mk_plan m)) (mark_approver c (mk_plan m)) stamp rev candidate"
  show ?thesis
  proof (cases "cas_park (hw_parks w) (rc_approval c) ?new rev")
    case None
    with hs_cas(1) k rev assms(3) show ?thesis by (simp add: cas_attempt_def)
  next
    case (Some parks)
    from cas_park_found [OF this q c(2) rev] have f: "candidate = q" "parks = (hw_parks w)(rc_approval c \<mapsto> ?new)"
      by simp_all
    with c(1) q assms(3,4) have "aid \<noteq> rc_approval c" by auto
    with hs_cas(1) Some f k rev assms(3) show ?thesis by (simp add: cas_attempt_def keep)
  qed
qed (use assms(3) in \<open>auto simp: start_resolve_def read_park_def reread_def lost_race_def dispatch_claimed_def
    finish_def Let_def split: option.splits sum.splits hil_plan.splits nat.splits prod.splits\<close>)

text \<open>
  Once a park is resolved no later step of any writer changes it.
\<close>

theorem resolved_park_is_final:
  assumes "reachable hil_start (hil_step E) w" and "hw_parks w aid = Some p" and "field_is p ''status'' ''resolved''"
    and "(hil_step E)\<^sup>*\<^sup>* w w'"
  shows "hw_parks w' aid = Some p"
proof -
  have start: "hil_inv E w" by (rule approvals.reachable_inv [OF assms(1)])
  have r: "resolved_park p" using assms(3) by (simp add: resolved_park_def)
  from assms(4) show ?thesis
  proof (induction rule: rtranclp_induct)
    case (step y z)
    have "hil_inv E y" using step(1) start by (rule approvals.steps_inv)
    with step(2,3) r show ?case by (blast intro: resolved_kept)
  qed (rule assms(2))
qed

text \<open>
  C8: Every stored park names its own approval id and has a natural number as revision, and
  a resolution that is about to write always has a key, a revision and a stored park, so
  that step cannot raise.
\<close>

theorem parks_stay_typed:
  assumes "reachable hil_start (hil_step E) w"
  shows "(hw_parks w aid = Some p \<longrightarrow>
      field_is p ''approval_id'' aid \<and> (\<exists>n\<ge>0. dict_get p ''revision'' = Some (JInt n))) \<and>
    (hw_tasks w t = Some (c, RP_CAS left candidate m) \<longrightarrow>
      park_id E (mk_snapshot m) = Some (rc_approval c) \<and> (\<exists>n\<ge>0. park_revision candidate = Inr n) \<and>
      hw_parks w (rc_approval c) \<noteq> None)"
proof -
  have inv: "hil_inv E w" by (rule approvals.reachable_inv [OF assms])
  have "park_id E (mk_snapshot m) = Some (rc_approval c) \<and> (\<exists>n\<ge>0. park_revision candidate = Inr n) \<and>
      hw_parks w (rc_approval c) \<noteq> None"
    if "hw_tasks w t = Some (c, RP_CAS left candidate m)"
    using inv_task [OF inv that] mark_ok_id by (auto simp: behind_def park_at_def park_revision_def)
  moreover have "field_is p ''approval_id'' aid \<and> (\<exists>n\<ge>0. dict_get p ''revision'' = Some (JInt n))"
    if "hw_parks w aid = Some p"
  proof -
    from inv that have "kept_park aid p" by (simp add: hil_inv_def)
    then show ?thesis unfolding kept_park_def park_at_def by blast
  qed
  ultimately show ?thesis by blast
qed

section \<open>Concrete histories\<close>

text \<open>One step of a task with the reads, the bindings and the answer of the executor given.\<close>

definition run_task ::
  "hil_env \<Rightarrow> resolve_reads \<Rightarrow> dispatch_env \<Rightarrow> string option \<Rightarrow> nat \<Rightarrow> hil_world \<Rightarrow> hil_world" where
  "run_task E rd D reported t w = (case hw_tasks w t of
     None \<Rightarrow> w
   | Some (c, RP_READ) \<Rightarrow> read_park E rd t c w
   | Some (c, RP_CAS n candidate m) \<Rightarrow> cas_attempt E (he_isofmt E (rd_now rd)) t c n candidate m w
   | Some (c, RP_REREAD n m) \<Rightarrow> reread E t c n m w
   | Some (c, RP_RACE m) \<Rightarrow> lost_race E t c m w
   | Some (c, RP_DISPATCH m) \<Rightarrow> dispatch_claimed E D reported t c m w)"

lemma run_task_reachable:
  assumes "reachable hil_start (hil_step E) w"
  shows "reachable hil_start (hil_step E) (run_task E rd D reported t w)"
proof (cases "hw_tasks w t")
  case (Some k)
  obtain c ph where k: "k = (c, ph)" by force
  have "hil_step E w (run_task E rd D reported t w)"
    using Some unfolding k
    by (cases ph) (auto simp: run_task_def intro: hil_step.intros)
  with assms show ?thesis by (rule reachable_step)
qed (use assms in \<open>simp add: run_task_def\<close>)

definition empty_world :: hil_world where
  "empty_world = \<lparr>hw_parks = (\<lambda>_. None), hw_audit = [], hw_tasks = (\<lambda>_. None), hw_results = [], hw_calls = []\<rparr>"

definition sample_request :: approval_request where
  "sample_request = \<lparr>hq_id = ''a1'', hq_action = [(''id'', JStr ''x1'')], hq_action_type = ''restart'',
     hq_rule_id = ''r1'', hq_rule = JNull, hq_severity = ''high'', hq_category = ''ops'', hq_submitter = ''alice'',
     hq_assignee = Some ''bob'', hq_correlation = ''c1'', hq_idempotency = ''k1'', hq_fingerprint = ''f'',
     hq_parked_at = 0, hq_reasons = [''two approvers''], hq_blast_summary = ''one service'', hq_ttl = 60,
     hq_original_quorum = Some 2, hq_effective_quorum = Some 2, hq_on_call = JNull, hq_route = JNull,
     hq_consent_id = JNull, hq_consent_expires = JNull, hq_subject = None, hq_development = None,
     hq_profile = None, hq_policy = None\<rparr>"

definition sample_call :: "string \<Rightarrow> resolve_call" where
  "sample_call approver = \<lparr>rc_approval = ''a1'', rc_decision = Some ''approve'', rc_approver = approver,
     rc_reason = ''ok'', rc_can_approve = True, rc_attested = False\<rparr>"

definition sample_reads :: resolve_reads where
  "sample_reads = \<lparr>rd_now = 10, rd_consent_now = 10, rd_pinned = Inr True, rd_route = None,
     rd_admission = (False, ''no grant''), rd_revalidation = (False, ''no grant'')\<rparr>"

definition sample_dispatch :: dispatch_env where
  "sample_dispatch = \<lparr>de_conflicts = None, de_writer = None, de_types = (\<lambda>_. Some (Some PR_NATIVE)),
     de_coordinator = None, de_direct = False, de_tool = False\<rparr>"

definition requested_world :: hil_world where
  "requested_world = empty_world\<lparr>hw_parks := (hw_parks empty_world)(hq_id sample_request \<mapsto> new_park sample_env sample_request)\<rparr>"

definition sample_task :: "nat \<Rightarrow> hil_world \<Rightarrow> hil_world" where
  "sample_task = run_task sample_env sample_reads sample_dispatch (Some ''published'')"

text \<open>Two approvers answer at the same time; both read the pending park before either claims it.\<close>

definition approved_world :: hil_world where
  "approved_world = fold sample_task [0, 1, 0, 1, 1, 0, 1]
     (start_resolve 1 (sample_call ''carol'') (start_resolve 0 (sample_call ''bob'') requested_world))"

lemma requested_reachable: "reachable hil_start (hil_step sample_env) requested_world"
proof (rule reachable_step)
  show "reachable hil_start (hil_step sample_env) empty_world"
    by (rule reachable_start) (simp add: hil_start_def empty_world_def)
  show "hil_step sample_env empty_world requested_world"
    unfolding requested_world_def
  proof (rule hs_request)
    show "first_failure (request_checks sample_request) = Inr ()" by code_simp
    show "hw_parks empty_world (hq_id sample_request) = None" by (simp add: empty_world_def)
  qed simp
qed

lemma sample_tasks_reachable:
  "reachable hil_start (hil_step sample_env) w \<Longrightarrow> reachable hil_start (hil_step sample_env) (fold sample_task ts w)"
  by (induction ts arbitrary: w) (auto simp: sample_task_def intro: run_task_reachable)

lemma started_reachable:
  "reachable hil_start (hil_step E) w \<Longrightarrow> hw_tasks w t = None \<Longrightarrow> reachable hil_start (hil_step E) (start_resolve t c w)"
  by (blast intro: reachable_step hs_start)

lemma approved_reachable: "reachable hil_start (hil_step sample_env) approved_world"
proof -
  have "hw_tasks requested_world 0 = None" "hw_tasks (start_resolve 0 (sample_call ''bob'') requested_world) 1 = None"
    by code_simp+
  with requested_reachable show ?thesis
    unfolding approved_world_def by (intro sample_tasks_reachable started_reachable)
qed

lemma approved_facts:
  "(map (\<lambda>d. (rc_approval (dp_call d), rc_approver (dp_call d))) (hw_calls approved_world),
    map (\<lambda>(t, r). (t, rz_outcome r)) (hw_results approved_world), map au_kind (hw_audit approved_world)) =
   ([(''a1'', ''bob'')], [(0, RZ_EXECUTED), (1, RZ_ALREADY_RESOLVED)],
    [''hil.approved.claimed'', ''hil.approved.executed''])"
  by code_simp

lemma approved_call:
  "\<exists>d. hw_calls approved_world = [d] \<and> rc_approval (dp_call d) = ''a1'' \<and> rc_approver (dp_call d) = ''bob''"
  using approved_facts by auto

theorem approval_executes_once_witness:
  "\<exists>p. hw_parks approved_world ''a1'' = Some p \<and> field_is p ''status'' ''resolved'' \<and>
     field_is p ''decision'' ''approve'' \<and> field_is p ''approver_oid'' ''bob''"
proof -
  obtain d where "hw_calls approved_world = [d]" "rc_approval (dp_call d) = ''a1''" "rc_approver (dp_call d) = ''bob''"
    using approved_call by blast
  with approval_executes_once [OF approved_reachable, of 0 0] show ?thesis by simp
qed

theorem execution_was_approved_witness:
  "\<exists>d p. hw_calls approved_world = [d] \<and> hw_parks approved_world ''a1'' = Some p \<and>
     he_action sample_env (dict_get_null p ''action'') = Some (dp_action d) \<and>
     parked_action_integrity_matches sample_env (mk_snapshot (dp_mark d))"
proof -
  obtain d where d: "hw_calls approved_world = [d]" "rc_approval (dp_call d) = ''a1''"
    using approved_call by blast
  then have "d \<in> set (hw_calls approved_world)" by simp
  from execution_was_approved [OF approved_reachable this refl refl refl] d show ?thesis by auto
qed

theorem resolved_park_is_final_witness:
  "\<exists>p. field_is p ''approver_oid'' ''bob'' \<and>
     hw_parks (start_resolve 2 (sample_call ''carol'') approved_world) ''a1'' = Some p"
proof -
  obtain p where p: "hw_parks approved_world ''a1'' = Some p" "field_is p ''status'' ''resolved''"
    "field_is p ''approver_oid'' ''bob''"
    using calls_won [OF approved_reachable] approved_call
    by (fastforce simp: call_ok_def won_by_def resolved_park_def)
  have "hw_tasks approved_world 2 = None" by code_simp
  then have "(hil_step sample_env)\<^sup>*\<^sup>* approved_world (start_resolve 2 (sample_call ''carol'') approved_world)"
    by (blast intro: hs_start)
  from resolved_park_is_final [OF approved_reachable p(1,2) this] p(3) show ?thesis by blast
qed

theorem parks_stay_typed_witness:
  "\<exists>p. hw_parks requested_world ''a1'' = Some p \<and> field_is p ''approval_id'' ''a1'' \<and>
     (\<exists>n. n \<ge> 0 \<and> dict_get p ''revision'' = Some (JInt n))"
proof -
  have "hw_parks requested_world ''a1'' = Some (new_park sample_env sample_request)"
    by (simp add: requested_world_def sample_request_def)
  with parks_stay_typed [OF requested_reachable, of "''a1''" "new_park sample_env sample_request"]
  show ?thesis by blast
qed

section \<open>What the checks do not cover\<close>

text \<open>The approval above was the only one, although the park asked for two.\<close>

lemma one_approval_executes_quorum_two:
  "dict_get (new_park sample_env sample_request) ''effective_quorum_required'' = Some (JInt 2) \<and>
   (\<exists>d. hw_calls approved_world = [d])"
  using approved_call by (auto simp: new_park_def sample_request_def option_json_def)

text \<open>
  A duplicate that was superseded by another request is neither resolved nor waiting, so it is
  claimed and executed like a pending one.
\<close>

definition superseded_world :: hil_world where
  "superseded_world = requested_world\<lparr>hw_parks := (hw_parks requested_world)(''a1'' \<mapsto>
     the (supersede ''a0'' [] (new_park sample_env sample_request)))\<rparr>"

lemma superseded_reachable: "reachable hil_start (hil_step sample_env) superseded_world"
proof (rule reachable_step [OF requested_reachable])
  have "supersede ''a0'' [] (new_park sample_env sample_request) =
      Some (the (supersede ''a0'' [] (new_park sample_env sample_request)))"
    by (simp add: supersede_def open_park_def new_park_def sample_request_def field_is_def)
  then show "hil_step sample_env requested_world superseded_world"
    unfolding superseded_world_def
    by (intro hs_other ow_supersede) (auto simp: requested_world_def sample_request_def)
qed

lemma superseded_park_executes:
  "(case hw_parks superseded_world ''a1'' of Some p \<Rightarrow> field_is p ''status'' ''superseded_duplicate'' | None \<Rightarrow> False) \<and>
   map (\<lambda>(t, r). rz_outcome r)
     (hw_results (fold sample_task [0, 0, 0] (start_resolve 0 (sample_call ''bob'') superseded_world))) = [RZ_EXECUTED]"
proof
  show "case hw_parks superseded_world ''a1'' of Some p \<Rightarrow> field_is p ''status'' ''superseded_duplicate'' | None \<Rightarrow> False"
    by code_simp
  show "map (\<lambda>(t, r). rz_outcome r)
     (hw_results (fold sample_task [0, 0, 0] (start_resolve 0 (sample_call ''bob'') superseded_world))) = [RZ_EXECUTED]"
    by code_simp
qed

end
