(* ===== verification/HilSubject.thy ===== *)
theory HilSubject
  imports HilResume
begin

text \<open>
  One open approval per subject (\<open>core/hil_resume/subject_index.py\<close>): the subject index, the
  admission of a proposal cut at its awaits, the operator's reopening of a rejected subject, and the
  write of the admitted request (\<open>request.py\<close>), interleaved with every writer of a park.
\<close>

section \<open>The subject index\<close>

text \<open>The digest is taken over the content of the question and never over a per-event value.\<close>

record subject_question =
  sq_action_type :: string
  sq_target :: string
  sq_operation :: string
  sq_params :: json
  sq_workflow :: json
  sq_rule_id :: string
  sq_rule_version :: string
  sq_submitter :: string
  sq_development :: "string option"
  sq_policy :: "string option"

definition subject_payload :: "subject_question \<Rightarrow> (string \<times> json) list" where
  "subject_payload q =
     [(''action_type'', JStr (sq_action_type q)), (''target_resource_ref'', JStr (sq_target q)),
      (''operation'', JStr (sq_operation q)), (''params'', sq_params q), (''workflow_action'', sq_workflow q),
      (''rule'', JObj [(''id'', JStr (sq_rule_id q)), (''version'', JStr (sq_rule_version q))]),
      (''submitter_oid'', JStr (py_strip (sq_submitter q))),
      (''development_digest'', option_json JStr (sq_development q)),
      (''operator_policy_digest'', option_json JStr (sq_policy q))]"

definition subject_key :: "hil_env \<Rightarrow> subject_question \<Rightarrow> string" where
  "subject_key E q = he_sha E (subject_payload q)"

definition claim_window :: int where
  "claim_window = seconds 60"

definition int_field :: "(string, json) dict \<Rightarrow> string \<Rightarrow> int \<Rightarrow> int" where
  "int_field d key fallback = (case dict_get d key of Some (JInt n) \<Rightarrow> n | _ \<Rightarrow> fallback)"

definition parse_instant :: "hil_env \<Rightarrow> json option \<Rightarrow> int option" where
  "parse_instant E raw = (case raw of
     Some (JStr s) \<Rightarrow> (if s = [] then None else case iso_instant E s of Some (Some t) \<Rightarrow> Some t | _ \<Rightarrow> None)
   | _ \<Rightarrow> None)"

text \<open>\<open>xs[-n:]\<close>\<close>

definition last_n :: "nat \<Rightarrow> 'a list \<Rightarrow> 'a list" where
  "last_n n xs = drop (length xs - n) xs"

datatype head_state = HS_OPEN | HS_REJECTED | HS_REUSABLE

definition head_state :: "hil_env \<Rightarrow> park \<Rightarrow> park option \<Rightarrow> int \<Rightarrow> bool \<Rightarrow> head_state" where
  "head_state E record head now reopen = (case head of
     None \<Rightarrow> (case parse_instant E (dict_get record ''claimed_at'') of
         Some claimed_at \<Rightarrow> (if now - claimed_at < claim_window then HS_OPEN else HS_REUSABLE)
       | None \<Rightarrow> HS_REUSABLE)
   | Some p \<Rightarrow>
      (let reopened = py_eq (dict_get_null record ''reopened_head'') (dict_get_null p ''approval_id'') in
       if open_park p then
         (if \<not> approval_expired E p now then HS_OPEN
          else if \<not> reopen \<and> \<not> reopened then HS_OPEN else HS_REUSABLE)
       else if field_is p ''status'' ''resolved'' \<and> field_is p ''decision'' ''reject''
       then (if reopened then HS_REUSABLE else HS_REJECTED)
       else if \<not> reopen \<and> field_is p ''status'' ''resolved'' \<and> field_is p ''decision'' ''timeout'' \<and> \<not> reopened
       then HS_OPEN
       else HS_REUSABLE))"

definition event_json :: "hil_env \<Rightarrow> string \<Rightarrow> int \<Rightarrow> json" where
  "event_json E event now = JObj [(''event_id'', JStr event), (''observed_at'', JStr (he_isofmt E now))]"

definition new_subject :: "hil_env \<Rightarrow> string \<Rightarrow> string \<Rightarrow> string \<Rightarrow> int \<Rightarrow> park" where
  "new_subject E key approval event now =
     [(''revision'', JInt 0), (''subject_key'', JStr key), (''approval_id'', JStr approval), (''lineage'', JInt 1),
      (''claimed_at'', JStr (he_isofmt E now)), (''first_seen_at'', JStr (he_isofmt E now)),
      (''last_seen_at'', JStr (he_isofmt E now)), (''observed_count'', JInt 1),
      (''recent_events'', JList [event_json E event now]), (''lineage_refs'', JList [])]"

definition observed_record :: "hil_env \<Rightarrow> string \<Rightarrow> int \<Rightarrow> park \<Rightarrow> park" where
  "observed_record E event now record = dict_merge record
     [(''recent_events'', JList (last_n 5 (list_or_nil record ''recent_events'' @ [event_json E event now]))),
      (''observed_count'', JInt (int_field record ''observed_count'' 0 + 1)),
      (''last_seen_at'', JStr (he_isofmt E now))]"

definition ended_reason :: "hil_env \<Rightarrow> park option \<Rightarrow> string" where
  "ended_reason E head = (case head of
     None \<Rightarrow> ''never_parked''
   | Some p \<Rightarrow> (if field_is p ''status'' ''resolved'' then text_or (he_str E) p ''decision'' ''resolved''
       else ''expired''))"

definition lineage_refs :: "hil_env \<Rightarrow> park \<Rightarrow> park option \<Rightarrow> string \<Rightarrow> json list" where
  "lineage_refs E record head head_id = list_or_nil record ''lineage_refs'' @
     (if head_id = [] then [] else [JObj
       [(''approval_id'', JStr head_id), (''lineage'', JInt (int_field record ''lineage'' 1)),
        (''ended'', JStr (ended_reason E head)),
        (''ended_at'', case head of None \<Rightarrow> JNull | Some p \<Rightarrow> dict_get_null p ''resolved_at'')]])"

definition reopened_record ::
  "hil_env \<Rightarrow> park \<Rightarrow> park option \<Rightarrow> string \<Rightarrow> string \<Rightarrow> string \<Rightarrow> int \<Rightarrow> park" where
  "reopened_record E record head head_id candidate event now = dict_merge (observed_record E event now record)
     [(''revision'', JInt (int_field record ''revision'' 0 + 1)), (''approval_id'', JStr candidate),
      (''lineage'', JInt (int_field record ''lineage'' 1 + 1)), (''claimed_at'', JStr (he_isofmt E now)),
      (''lineage_refs'', JList (last_n 20 (lineage_refs E record head head_id)))]"

text \<open>The best-effort update of \<open>_observe\<close>.\<close>

definition observe_update :: "hil_env \<Rightarrow> string \<Rightarrow> int \<Rightarrow> (string \<times> json) list \<Rightarrow> park \<Rightarrow> park" where
  "observe_update E event now extra record = dict_merge (observed_record E event now record)
     ((''revision'', JInt (int_field record ''revision'' 0 + 1)) # extra)"

section \<open>Admitting a proposal\<close>

datatype subject_admission = SA_PARK | SA_OPEN_REQUEST | SA_REJECTED

record subject_result =
  sr_admission :: subject_admission
  sr_approval :: string
  sr_lineage :: int
  sr_previous :: "string option"
  sr_suppressed :: bool

record subject_call =
  sc_key :: string
  sc_candidate :: string
  sc_event :: string
  sc_now :: int
  sc_reopen :: bool

text \<open>
  Where an admission waits: for the record of the subject (with the number of attempts after this one),
  for the write of a first record, for the park of the record's head, for the best-effort update, for
  the compare-and-set of the next lineage, for the last read after every attempt was lost, and, once
  admitted, for the write of its park.
\<close>

datatype subject_phase =
    SP_READ nat | SP_CREATE nat | SP_HEAD nat park
  | SP_OBSERVE park "(string \<times> json) list" subject_result | SP_REOPEN nat park park subject_result
  | SP_LAST | SP_PARK int "string option"

record subject_world =
  su_now :: int
  su_subjects :: "string \<Rightarrow> park option"
  su_parks :: "string \<Rightarrow> park option"
  su_tasks :: "nat \<Rightarrow> (subject_call \<times> subject_phase) option"
  su_results :: "(nat \<times> subject_result) list"

definition goto :: "nat \<Rightarrow> subject_call \<Rightarrow> subject_phase \<Rightarrow> subject_world \<Rightarrow> subject_world" where
  "goto t c ph w = w\<lparr>su_tasks := (su_tasks w)(t \<mapsto> (c, ph))\<rparr>"

definition stop :: "nat \<Rightarrow> subject_world \<Rightarrow> subject_world" where
  "stop t w = w\<lparr>su_tasks := (su_tasks w)(t := None)\<rparr>"

definition answer_subject :: "nat \<Rightarrow> subject_result \<Rightarrow> subject_world \<Rightarrow> subject_world" where
  "answer_subject t r w = stop t (w\<lparr>su_results := su_results w @ [(t, r)]\<rparr>)"

definition retry :: "nat \<Rightarrow> subject_phase" where
  "retry n = (case n of 0 \<Rightarrow> SP_LAST | Suc m \<Rightarrow> SP_READ m)"

definition head_id :: "hil_env \<Rightarrow> park \<Rightarrow> string" where
  "head_id E record = text_or (he_str E) record ''approval_id'' []"

definition subject_read :: "nat \<Rightarrow> subject_call \<Rightarrow> nat \<Rightarrow> subject_world \<Rightarrow> subject_world" where
  "subject_read t c n w = (case su_subjects w (sc_key c) of
     None \<Rightarrow> goto t c (SP_CREATE n) w | Some record \<Rightarrow> goto t c (SP_HEAD n record) w)"

definition subject_create :: "hil_env \<Rightarrow> nat \<Rightarrow> subject_call \<Rightarrow> nat \<Rightarrow> subject_world \<Rightarrow> subject_world" where
  "subject_create E t c n w = (case su_subjects w (sc_key c) of
     None \<Rightarrow> goto t c (SP_PARK 1 None) (w\<lparr>su_subjects := (su_subjects w)(sc_key c \<mapsto>
       new_subject E (sc_key c) (sc_candidate c) (sc_event c) (sc_now c))\<rparr>)
   | Some _ \<Rightarrow> goto t c (retry n) w)"

definition subject_head :: "hil_env \<Rightarrow> nat \<Rightarrow> subject_call \<Rightarrow> nat \<Rightarrow> park \<Rightarrow> subject_world \<Rightarrow> subject_world" where
  "subject_head E t c n record w =
     (let hid = head_id E record; head = (if hid = [] then None else su_parks w hid);
          lineage = int_field record ''lineage'' 1
      in case head_state E record head (sc_now c) (sc_reopen c) of
           HS_OPEN \<Rightarrow> goto t c (SP_OBSERVE record []
             \<lparr>sr_admission = SA_OPEN_REQUEST, sr_approval = hid, sr_lineage = lineage,
              sr_previous = None, sr_suppressed = False\<rparr>) w
         | HS_REJECTED \<Rightarrow> goto t c (SP_OBSERVE record [(''suppression_audited_for'', JStr hid)]
             \<lparr>sr_admission = SA_REJECTED, sr_approval = hid, sr_lineage = lineage,
              sr_previous = None, sr_suppressed = \<not> field_is record ''suppression_audited_for'' hid\<rparr>) w
         | HS_REUSABLE \<Rightarrow>
             (let reopened = reopened_record E record head hid (sc_candidate c) (sc_event c) (sc_now c)
              in goto t c (SP_REOPEN n record reopened
                \<lparr>sr_admission = SA_PARK, sr_approval = sc_candidate c,
                 sr_lineage = int_field reopened ''lineage'' 1,
                 sr_previous = (if hid = [] then None else Some hid), sr_suppressed = False\<rparr>) w))"

definition subject_observe ::
  "hil_env \<Rightarrow> nat \<Rightarrow> subject_call \<Rightarrow> park \<Rightarrow> (string \<times> json) list \<Rightarrow> subject_result \<Rightarrow>
     subject_world \<Rightarrow> subject_world" where
  "subject_observe E t c record extra r w =
     (case cas_park (su_subjects w) (sc_key c) (observe_update E (sc_event c) (sc_now c) extra record)
         (int_field record ''revision'' 0) of
        None \<Rightarrow> answer_subject t r w
      | Some subjects \<Rightarrow> answer_subject t r (w\<lparr>su_subjects := subjects\<rparr>))"

definition subject_reopen ::
  "nat \<Rightarrow> subject_call \<Rightarrow> nat \<Rightarrow> park \<Rightarrow> park \<Rightarrow> subject_result \<Rightarrow> subject_world \<Rightarrow> subject_world" where
  "subject_reopen t c n record reopened r w =
     (case cas_park (su_subjects w) (sc_key c) reopened (int_field record ''revision'' 0) of
        None \<Rightarrow> goto t c (retry n) w
      | Some subjects \<Rightarrow> goto t c (SP_PARK (sr_lineage r) (sr_previous r)) (w\<lparr>su_subjects := subjects\<rparr>))"

definition subject_last :: "hil_env \<Rightarrow> nat \<Rightarrow> subject_call \<Rightarrow> subject_world \<Rightarrow> subject_world" where
  "subject_last E t c w = answer_subject t \<lparr>sr_admission = SA_OPEN_REQUEST,
     sr_approval = (case su_subjects w (sc_key c) of None \<Rightarrow> [] | Some record \<Rightarrow> head_id E record),
     sr_lineage = 1, sr_previous = None, sr_suppressed = False\<rparr> w"

text \<open>
  The write of the admitted request. Its report-line route, its responders and its remaining content are
  those of the request \<open>r\<close>.
\<close>

definition written_park :: "hil_env \<Rightarrow> approval_request \<Rightarrow> park \<Rightarrow> bool" where
  "written_park E r p \<longleftrightarrow> p = new_park E r \<or> (\<exists>pol rungs now. attach E pol (new_park E r) rungs now = Inr p)"

definition subject_park :: "nat \<Rightarrow> subject_call \<Rightarrow> park \<Rightarrow> subject_world \<Rightarrow> subject_world" where
  "subject_park t c p w = (case su_parks w (sc_candidate c) of
     Some _ \<Rightarrow> stop t w
   | None \<Rightarrow> stop t (w\<lparr>su_parks := (su_parks w)(sc_candidate c \<mapsto> p)\<rparr>))"

section \<open>Reopening a rejected subject\<close>

datatype reopen_outcome = RO_REOPENED | RO_ALREADY_REOPENED | RO_NOT_FOUND | RO_NOT_REJECTED | RO_STALE

text \<open>
  \<open>reopen_rejected_subject\<close>, with \<open>lost\<close> when its compare-and-set is lost. One that succeeds finds the record it
  read, and the rejected park it read is final.
\<close>

definition reopen_rejected_subject ::
  "string \<Rightarrow> string \<Rightarrow> bool \<Rightarrow> bool \<Rightarrow> subject_world \<Rightarrow> (reopen_outcome \<times> subject_world) res" where
  "reopen_rejected_subject approval actor enforce lost w =
     (if py_strip actor = [] then Inl (ValueError ''actor MUST be non-empty'')
      else Inr (case su_parks w approval of
        None \<Rightarrow> (RO_NOT_FOUND, w)
      | Some p \<Rightarrow> (case dict_get p ''subject_key'' of
          Some (JStr key) \<Rightarrow>
            (if \<not> (field_is p ''status'' ''resolved'' \<and> field_is p ''decision'' ''reject'')
             then (RO_NOT_REJECTED, w)
             else (case su_subjects w key of
                 None \<Rightarrow> (RO_STALE, w)
               | Some record \<Rightarrow>
                   (if \<not> field_is record ''approval_id'' approval then (RO_STALE, w)
                    else if field_is record ''reopened_head'' approval then (RO_ALREADY_REOPENED, w)
                    else if \<not> enforce then (RO_REOPENED, w)
                    else if lost then (RO_STALE, w)
                    else (case cas_park (su_subjects w) key (dict_merge record
                          [(''revision'', JInt (int_field record ''revision'' 0 + 1)),
                           (''reopened_head'', JStr approval)]) (int_field record ''revision'' 0) of
                        None \<Rightarrow> (RO_STALE, w)
                      | Some subjects \<Rightarrow> (RO_REOPENED, w\<lparr>su_subjects := subjects\<rparr>)))))
        | _ \<Rightarrow> (RO_NOT_FOUND, w))))"

section \<open>Interleavings\<close>

text \<open>Every later write of a park, by a resolution or by another writer.\<close>

inductive park_write :: "hil_env \<Rightarrow> park \<Rightarrow> park \<Rightarrow> bool" for E :: hil_env where
  pw_other: "other_write E p p' \<Longrightarrow> park_write E p p'"
| pw_resolved: "\<not> resolved_park p \<Longrightarrow> park_revision p = Inr n \<Longrightarrow>
    park_write E p (resolved_record d approver stamp n p)"

text \<open>
  A generated approval id is used by nobody else: no park, no head of a record and no candidate of a
  task in flight has it.
\<close>

definition fresh_id :: "string \<Rightarrow> subject_world \<Rightarrow> bool" where
  "fresh_id a w \<longleftrightarrow> a \<noteq> [] \<and> su_parks w a = None \<and>
     (\<forall>key record. su_subjects w key = Some record \<longrightarrow> \<not> field_is record ''approval_id'' a) \<and>
     (\<forall>t c ph. su_tasks w t = Some (c, ph) \<longrightarrow> sc_candidate c \<noteq> a)"

text \<open>
  With \<open>timely\<close>, an admitted request writes its park within the claim window. \<open>ss_explicit\<close> is a request with an
  approval id of the caller's, which has no subject.
\<close>

inductive subject_step :: "hil_env \<Rightarrow> bool \<Rightarrow> subject_world \<Rightarrow> subject_world \<Rightarrow> bool"
  for E :: hil_env and timely :: bool where
  ss_time: "su_now w \<le> now \<Longrightarrow> subject_step E timely w (w\<lparr>su_now := now\<rparr>)"
| ss_start: "su_tasks w t = None \<Longrightarrow> fresh_id (sc_candidate c) w \<Longrightarrow> sc_now c = su_now w \<Longrightarrow>
    subject_step E timely w (goto t c (SP_READ 3) w)"
| ss_read: "su_tasks w t = Some (c, SP_READ n) \<Longrightarrow> subject_step E timely w (subject_read t c n w)"
| ss_create: "su_tasks w t = Some (c, SP_CREATE n) \<Longrightarrow> subject_step E timely w (subject_create E t c n w)"
| ss_head: "su_tasks w t = Some (c, SP_HEAD n record) \<Longrightarrow>
    subject_step E timely w (subject_head E t c n record w)"
| ss_observe: "su_tasks w t = Some (c, SP_OBSERVE record extra r) \<Longrightarrow>
    subject_step E timely w (subject_observe E t c record extra r w)"
| ss_reopen: "su_tasks w t = Some (c, SP_REOPEN n record reopened r) \<Longrightarrow>
    subject_step E timely w (subject_reopen t c n record reopened r w)"
| ss_last: "su_tasks w t = Some (c, SP_LAST) \<Longrightarrow> subject_step E timely w (subject_last E t c w)"
| ss_park: "su_tasks w t = Some (c, SP_PARK lineage previous) \<Longrightarrow>
    timely \<longrightarrow> su_now w < sc_now c + claim_window \<Longrightarrow> hq_id r = sc_candidate c \<Longrightarrow>
    hq_parked_at r = sc_now c \<Longrightarrow> hq_subject r = Some (sc_key c, lineage, previous) \<Longrightarrow> written_park E r p \<Longrightarrow>
    subject_step E timely w (subject_park t c p w)"
| ss_abort: "su_tasks w t = Some k \<Longrightarrow> subject_step E timely w (stop t w)"
| ss_explicit: "fresh_id (hq_id r) w \<Longrightarrow> hq_subject r = None \<Longrightarrow> written_park E r p \<Longrightarrow>
    subject_step E timely w (w\<lparr>su_parks := (su_parks w)(hq_id r \<mapsto> p)\<rparr>)"
| ss_write: "su_parks w a = Some p \<Longrightarrow> park_write E p p' \<Longrightarrow>
    subject_step E timely w (w\<lparr>su_parks := (su_parks w)(a \<mapsto> p')\<rparr>)"
| ss_reopened: "reopen_rejected_subject approval actor enforce lost w = Inr (outcome, w') \<Longrightarrow>
    subject_step E timely w w'"

definition subject_start :: "subject_world \<Rightarrow> bool" where
  "subject_start w \<longleftrightarrow> su_subjects w = (\<lambda>_. None) \<and> su_parks w = (\<lambda>_. None) \<and> su_tasks w = (\<lambda>_. None)"

section \<open>The invariant\<close>

text \<open>A park that no longer asks anybody: closed, superseded or past its deadline.\<close>

definition settled :: "hil_env \<Rightarrow> int \<Rightarrow> park \<Rightarrow> bool" where
  "settled E now p \<longleftrightarrow> \<not> open_park p \<or> approval_expired E p now"

text \<open>A record claims its subject for a request since a time.\<close>

definition claims :: "hil_env \<Rightarrow> park \<Rightarrow> string \<Rightarrow> int \<Rightarrow> bool" where
  "claims E record h since \<longleftrightarrow> field_is record ''approval_id'' h \<and> h \<noteq> [] \<and>
     parse_instant E (dict_get record ''claimed_at'') = Some since"

definition head_settled :: "hil_env \<Rightarrow> int \<Rightarrow> (string \<Rightarrow> park option) \<Rightarrow> park \<Rightarrow> bool" where
  "head_settled E now parks record \<longleftrightarrow> (\<exists>h since. claims E record h since \<and>
     (case parks h of None \<Rightarrow> since + claim_window \<le> now | Some p \<Rightarrow> settled E now p))"

text \<open>What a task that read a record knows of the current one.\<close>

definition read_before :: "subject_world \<Rightarrow> string \<Rightarrow> park \<Rightarrow> bool" where
  "read_before w key record \<longleftrightarrow> (\<exists>current. su_subjects w key = Some current \<and> behind record current)"

fun admission_ok :: "hil_env \<Rightarrow> subject_world \<Rightarrow> subject_call \<Rightarrow> subject_phase \<Rightarrow> bool" where
  "admission_ok E w c (SP_HEAD n record) \<longleftrightarrow> read_before w (sc_key c) record"
| "admission_ok E w c (SP_OBSERVE record extra r) \<longleftrightarrow> read_before w (sc_key c) record \<and>
     (extra = [] \<or> (\<exists>v. extra = [(''suppression_audited_for'', v)]))"
| "admission_ok E w c (SP_REOPEN n record reopened r) \<longleftrightarrow> read_before w (sc_key c) record \<and>
     claims E reopened (sc_candidate c) (sc_now c) \<and>
     (\<forall>m. park_at m record \<longrightarrow> park_at (m + 1) reopened) \<and>
     (su_subjects w (sc_key c) = Some record \<longrightarrow> head_settled E (su_now w) (su_parks w) record)"
| "admission_ok E w c (SP_PARK lineage previous) \<longleftrightarrow>
     (\<exists>record. su_subjects w (sc_key c) = Some record \<and> claims E record (sc_candidate c) (sc_now c)) \<or>
     sc_now c + claim_window \<le> su_now w"
| "admission_ok E w c _ \<longleftrightarrow> True"

definition parking :: "subject_phase \<Rightarrow> bool" where
  "parking ph = (case ph of SP_PARK _ _ \<Rightarrow> True | _ \<Rightarrow> False)"

definition records_ok :: "hil_env \<Rightarrow> subject_world \<Rightarrow> bool" where
  "records_ok E w \<longleftrightarrow> (\<forall>key record. su_subjects w key = Some record \<longrightarrow>
     (\<exists>h since n. claims E record h since \<and> since \<le> su_now w \<and> park_at n record))"

definition parks_ok :: "hil_env \<Rightarrow> subject_world \<Rightarrow> bool" where
  "parks_ok E w \<longleftrightarrow> (\<forall>a p key. su_parks w a = Some p \<longrightarrow> field_is p ''subject_key'' key \<longrightarrow>
     (\<exists>record. su_subjects w key = Some record \<and>
        (field_is record ''approval_id'' a \<or> settled E (su_now w) p)))"

definition task_ok :: "hil_env \<Rightarrow> subject_world \<Rightarrow> nat \<Rightarrow> subject_call \<Rightarrow> subject_phase \<Rightarrow> bool" where
  "task_ok E w t c ph \<longleftrightarrow> sc_candidate c \<noteq> [] \<and> sc_now c \<le> su_now w \<and>
     su_parks w (sc_candidate c) = None \<and> admission_ok E w c ph \<and>
     (\<forall>u d ph'. su_tasks w u = Some (d, ph') \<longrightarrow> sc_candidate d = sc_candidate c \<longrightarrow> u = t) \<and>
     (\<forall>key record. su_subjects w key = Some record \<longrightarrow> field_is record ''approval_id'' (sc_candidate c) \<longrightarrow>
        parking ph \<and> key = sc_key c)"

definition tasks_ok :: "hil_env \<Rightarrow> subject_world \<Rightarrow> bool" where
  "tasks_ok E w \<longleftrightarrow> (\<forall>t c ph. su_tasks w t = Some (c, ph) \<longrightarrow> task_ok E w t c ph)"

definition subject_inv :: "hil_env \<Rightarrow> subject_world \<Rightarrow> bool" where
  "subject_inv E w \<longleftrightarrow> records_ok E w \<and> parks_ok E w \<and> tasks_ok E w"

lemma claims_unique: "claims E r h s \<Longrightarrow> field_is r ''approval_id'' h' \<Longrightarrow> h' = h"
  "claims E r h s \<Longrightarrow> claims E r h' s' \<Longrightarrow> h' = h \<and> s' = s"
  by (auto simp: claims_def field_is_def)

lemma claims_head: "claims E r h s \<Longrightarrow> head_id E r = h"
  by (auto simp: claims_def head_id_def field_is_def text_or_def py_str_def)

lemma taskD:
  assumes "subject_inv E w" and "su_tasks w t = Some (c, ph)"
  shows "sc_candidate c \<noteq> []" "sc_now c \<le> su_now w" "su_parks w (sc_candidate c) = None" "admission_ok E w c ph"
    "su_tasks w u = Some (d, ph') \<Longrightarrow> sc_candidate d = sc_candidate c \<Longrightarrow> u = t"
    "su_subjects w key = Some r \<Longrightarrow> field_is r ''approval_id'' (sc_candidate c) \<Longrightarrow> parking ph \<and> key = sc_key c"
  using assms unfolding subject_inv_def tasks_ok_def task_ok_def by blast+

lemma recordD:
  assumes "subject_inv E w" and "su_subjects w key = Some r"
  obtains h since n where "claims E r h since" "since \<le> su_now w" "park_at n r"
  using assms unfolding subject_inv_def records_ok_def by blast

lemma parkD:
  assumes "subject_inv E w" and "su_parks w a = Some p" and "field_is p ''subject_key'' key"
  obtains r where "su_subjects w key = Some r" "field_is r ''approval_id'' a \<or> settled E (su_now w) p"
  using assms unfolding subject_inv_def parks_ok_def by blast

text \<open>Tasks may move between phases, as long as the new one is justified.\<close>

lemma world_sel [simp]:
  "su_subjects (goto t c ph w) = su_subjects w" "su_parks (goto t c ph w) = su_parks w" "su_now (goto t c ph w) = su_now w"
  "su_subjects (stop t w) = su_subjects w" "su_parks (stop t w) = su_parks w" "su_now (stop t w) = su_now w"
  "su_tasks (goto t c ph w) u = (if u = t then Some (c, ph) else su_tasks w u)"
  "su_tasks (stop t w) u = (if u = t then None else su_tasks w u)"
  by (simp_all add: goto_def stop_def)

lemma admission_ok_cong:
  assumes "su_subjects w' = su_subjects w" "su_parks w' = su_parks w" "su_now w' = su_now w"
  shows "admission_ok E w' c ph = admission_ok E w c ph"
proof -
  have "read_before w' = read_before w" by (simp add: fun_eq_iff read_before_def assms)
  then show ?thesis by (cases ph) (simp_all add: assms)
qed

lemma admission_ok_goto [simp]:
  "admission_ok E (goto t c ph w) d ph' = admission_ok E w d ph'" "admission_ok E (stop t w) d ph' = admission_ok E w d ph'"
  by (rule admission_ok_cong; simp)+

lemma inv_goto:
  assumes "subject_inv E w" and "su_tasks w t = Some (c, old)" and "\<not> parking old" and "admission_ok E w c ph"
  shows "subject_inv E (goto t c ph w)"
proof -
  have "tasks_ok E (goto t c ph w)"
    unfolding tasks_ok_def
  proof (intro allI impI, goal_cases)
    case (1 u d ph')
    show ?case
    proof (cases "u = t")
      case True
      with 1 have d: "d = c" "ph' = ph" by simp_all
      have no: "\<not> field_is r ''approval_id'' (sc_candidate c)" if "su_subjects w key = Some r" for key r
        using taskD(6) [OF assms(1,2) that] assms(3) by blast
      have "v = t" if "su_tasks (goto t c ph w) v = Some (e, ph'')" "sc_candidate e = sc_candidate c" for v e ph''
        using that taskD(5) [OF assms(1,2), of v e ph''] by (auto split: if_splits)
      with taskD(1-3) [OF assms(1,2)] assms(4) no show ?thesis
        unfolding d True task_ok_def world_sel(1-3) admission_ok_goto by blast
    next
      case False
      with 1 have old: "su_tasks w u = Some (d, ph')" by simp
      have "v = u" if "su_tasks (goto t c ph w) v = Some (e, ph'')" "sc_candidate e = sc_candidate d" for v e ph''
        using that taskD(5) [OF assms(1) old] assms(2) by (auto split: if_splits)
      with taskD(1-4,6) [OF assms(1) old] show ?thesis
        unfolding task_ok_def world_sel(1-3) admission_ok_goto by blast
    qed
  qed
  then show ?thesis using assms(1) by (simp add: subject_inv_def records_ok_def parks_ok_def)
qed

lemma inv_stop:
  assumes "subject_inv E w"
  shows "subject_inv E (stop t w)"
proof -
  have "task_ok E (stop t w) u d ph" if "su_tasks (stop t w) u = Some (d, ph)" for u d ph
  proof -
    have old: "su_tasks w u = Some (d, ph)" using that by (simp split: if_splits)
    have "v = u" if "su_tasks (stop t w) v = Some (e, ph'')" "sc_candidate e = sc_candidate d" for v e ph''
      using that taskD(5) [OF assms old] by (auto split: if_splits)
    with taskD(1-4,6) [OF assms old] show ?thesis
      unfolding task_ok_def world_sel(4-6) admission_ok_goto by blast
  qed
  then show ?thesis using assms by (simp add: subject_inv_def records_ok_def parks_ok_def tasks_ok_def)
qed

lemma inv_results: "subject_inv E (w\<lparr>su_results := rs\<rparr>) = subject_inv E w"
proof -
  have "admission_ok E (w\<lparr>su_results := rs\<rparr>) c ph = admission_ok E w c ph" for c ph
    by (rule admission_ok_cong) simp_all
  then show ?thesis by (simp add: subject_inv_def records_ok_def parks_ok_def tasks_ok_def task_ok_def)
qed

lemma inv_answer: "subject_inv E w \<Longrightarrow> subject_inv E (answer_subject t r w)"
  unfolding answer_subject_def by (rule inv_stop) (simp add: inv_results)

lemma inv_begin:
  assumes "subject_inv E w" and "su_tasks w t = None" and "fresh_id (sc_candidate c) w" and "sc_now c = su_now w"
  shows "subject_inv E (goto t c (SP_READ n) w)"
proof -
  have "task_ok E (goto t c (SP_READ n) w) u d ph"
    if u: "su_tasks (goto t c (SP_READ n) w) u = Some (d, ph)" for u d ph
  proof (cases "u = t")
    case True
    with u assms(3,4) show ?thesis unfolding task_ok_def fresh_id_def by (auto split: if_splits)
  next
    case False
    with u have old: "su_tasks w u = Some (d, ph)" by simp
    then have "sc_candidate d \<noteq> sc_candidate c" using assms(3) unfolding fresh_id_def by blast
    then have "v = u" if "su_tasks (goto t c (SP_READ n) w) v = Some (e, ph'')" "sc_candidate e = sc_candidate d" for v e ph''
      using that taskD(5) [OF assms(1) old] by (auto split: if_splits)
    with taskD(1-4,6) [OF assms(1) old] show ?thesis
      unfolding task_ok_def world_sel(1-3) admission_ok_goto by blast
  qed
  then show ?thesis using assms(1) by (simp add: subject_inv_def records_ok_def parks_ok_def tasks_ok_def)
qed

text \<open>Time only settles parks and ages claims.\<close>

lemma deadline_due_mono: "deadline_due E raw now \<Longrightarrow> now \<le> later \<Longrightarrow> deadline_due E raw later"
  by (auto simp: deadline_due_def split: option.splits json.splits)

lemma settled_mono: "settled E now p \<Longrightarrow> now \<le> later \<Longrightarrow> settled E later p"
  by (auto simp: settled_def approval_expired_def deadline_due_mono split: option.splits)

lemma head_settled_time: "head_settled E now parks r \<Longrightarrow> now \<le> later \<Longrightarrow> head_settled E later parks r"
  by (fastforce simp: head_settled_def settled_mono split: option.splits)

lemma inv_time:
  assumes "subject_inv E w" and "su_now w \<le> now"
  shows "subject_inv E (w\<lparr>su_now := now\<rparr>)"
proof -
  have "admission_ok E (w\<lparr>su_now := now\<rparr>) c ph" if "admission_ok E w c ph" for c ph
    using that assms(2) by (cases ph) (auto simp: read_before_def head_settled_time)
  then have "tasks_ok E (w\<lparr>su_now := now\<rparr>)"
    using assms by (fastforce simp: subject_inv_def tasks_ok_def task_ok_def)
  moreover have "parks_ok E (w\<lparr>su_now := now\<rparr>)"
    using assms by (fastforce simp: subject_inv_def parks_ok_def settled_mono)
  moreover have "records_ok E (w\<lparr>su_now := now\<rparr>)"
    using assms by (fastforce simp: subject_inv_def records_ok_def)
  ultimately show ?thesis by (simp add: subject_inv_def)
qed

text \<open>A write of a record that keeps its head.\<close>

lemma read_before_put:
  assumes "su_subjects w key = Some r" and "park_at n r" and "park_at (n + 1) r1" and "read_before w k q"
  shows "read_before (w\<lparr>su_subjects := (su_subjects w)(key \<mapsto> r1)\<rparr>) k q" "k = key \<Longrightarrow> q \<noteq> r1"
  using assms by (fastforce simp: read_before_def behind_def park_at_def)+

lemma inv_touch_record:
  assumes "subject_inv E w" and "su_subjects w key = Some r" and "park_at n r" and "park_at (n + 1) r1"
    and "dict_get r1 ''approval_id'' = dict_get r ''approval_id''" "dict_get r1 ''claimed_at'' = dict_get r ''claimed_at''"
  shows "subject_inv E (w\<lparr>su_subjects := (su_subjects w)(key \<mapsto> r1)\<rparr>)"
proof -
  let ?w = "w\<lparr>su_subjects := (su_subjects w)(key \<mapsto> r1)\<rparr>"
  have same: "field_is r1 ''approval_id'' h = field_is r ''approval_id'' h" "claims E r1 h s = claims E r h s" for h s
    using assms(5,6) by (simp_all add: field_is_def claims_def)
  have "admission_ok E ?w c ph" if "admission_ok E w c ph" for c ph
    using that read_before_put [OF assms(2-4)] assms(2) by (cases ph) (auto simp: same)
  then have "tasks_ok E ?w"
    using assms(1,2) by (auto simp: subject_inv_def tasks_ok_def task_ok_def same)
  moreover have "records_ok E ?w"
    unfolding records_ok_def
  proof (intro allI impI)
    fix k q
    assume q: "su_subjects ?w k = Some q"
    from recordD [OF assms(1,2)] obtain h s where "claims E r h s" "s \<le> su_now w" .
    then have "claims E r1 h s \<and> s \<le> su_now w \<and> park_at (n + 1) r1" using assms(4) by (simp add: same)
    moreover have "\<exists>h since n. claims E q h since \<and> since \<le> su_now w \<and> park_at n q" if "k \<noteq> key"
    proof -
      have "su_subjects w k = Some q" using q that by simp
      from recordD [OF assms(1) this] show ?thesis by blast
    qed
    ultimately show "\<exists>h since n. claims E q h since \<and> since \<le> su_now ?w \<and> park_at n q"
      using q by (cases "k = key") (simp, blast, simp)
  qed
  moreover have "parks_ok E ?w"
    using assms(1,2) by (fastforce simp: subject_inv_def parks_ok_def same)
  ultimately show ?thesis by (simp add: subject_inv_def)
qed

text \<open>A task claims the subject for its candidate.\<close>

lemma inv_claim:
  assumes inv: "subject_inv E w" and t: "su_tasks w t = Some (c, old)" "\<not> parking old"
    and r1: "claims E r1 (sc_candidate c) (sc_now c)" "park_at k r1"
    and before: "su_subjects w (sc_key c) = None \<or>
      (\<exists>r n. su_subjects w (sc_key c) = Some r \<and> park_at n r \<and> k = n + 1 \<and> head_settled E (su_now w) (su_parks w) r)"
  shows "subject_inv E (goto t c (SP_PARK lineage previous) (w\<lparr>su_subjects := (su_subjects w)(sc_key c \<mapsto> r1)\<rparr>))"
    (is "subject_inv E (goto t c ?ph ?w)")
proof -
  have no: "\<not> field_is r ''approval_id'' (sc_candidate c)" if "su_subjects w key = Some r" for key r
    using taskD(6) [OF inv t(1) that] t(2) by blast
  have adm: "admission_ok E ?w d ph" if u: "su_tasks w u = Some (d, ph)" "u \<noteq> t" for u d ph
  proof (cases "sc_key d = sc_key c")
    case False
    with taskD(4) [OF inv u(1)] show ?thesis by (cases ph) (simp_all add: read_before_def)
  next
    case True
    note ok = taskD(4) [OF inv u(1)]
    show ?thesis
    proof (cases "parking ph")
      case False
      show ?thesis
      proof (cases "su_subjects w (sc_key c)")
        case None
        with False ok True show ?thesis by (cases ph) (simp_all add: parking_def read_before_def)
      next
        case (Some r)
        with before r1(2) obtain n where "park_at n r" "park_at (n + 1) r1" by auto
        note put = read_before_put [OF Some this]
        with False ok True show ?thesis by (cases ph) (auto simp: parking_def)
      qed
    next
      case parking: True
      then obtain l p where ph: "ph = SP_PARK l p" by (cases ph) (auto simp: parking_def)
      have "sc_now d + claim_window \<le> su_now w"
      proof (rule ccontr)
        assume fresh: "\<not> ?thesis"
        with ok obtain r where r: "su_subjects w (sc_key c) = Some r" "claims E r (sc_candidate d) (sc_now d)"
          unfolding ph using True by auto
        with before have "head_settled E (su_now w) (su_parks w) r" by auto
        then obtain h s where h: "claims E r h s"
          "case su_parks w h of None \<Rightarrow> s + claim_window \<le> su_now w | Some p \<Rightarrow> settled E (su_now w) p"
          by (auto simp: head_settled_def)
        with claims_unique(2) [OF h(1) r(2)] taskD(3) [OF inv u(1)] fresh show False by auto
      qed
      then show ?thesis by (simp add: ph)
    qed
  qed
  have sel: "su_now (goto t c ?ph ?w) = su_now w" "su_parks (goto t c ?ph ?w) = su_parks w"
    "su_subjects (goto t c ?ph ?w) = su_subjects ?w" by simp_all
  have "task_ok E (goto t c ?ph ?w) u d ph" if u: "su_tasks (goto t c ?ph ?w) u = Some (d, ph)" for u d ph
  proof (cases "u = t")
    case True
    with u have d: "d = c" "ph = ?ph" by simp_all
    have "v = t" if "su_tasks (goto t c ?ph ?w) v = Some (e, ph'')" "sc_candidate e = sc_candidate c" for v e ph''
      using that taskD(5) [OF inv t(1), of v e ph''] by (auto split: if_splits)
    moreover have "admission_ok E ?w c ?ph" using r1 by auto
    moreover have "parking ?ph \<and> key = sc_key c"
      if "su_subjects ?w key = Some r" "field_is r ''approval_id'' (sc_candidate c)" for key r
      using that no by (simp add: parking_def split: if_splits)
    ultimately show ?thesis
      using taskD(1-3) [OF inv t(1)] unfolding d True task_ok_def admission_ok_goto sel by blast
  next
    case False
    with u have old: "su_tasks w u = Some (d, ph)" by simp
    have ne: "sc_candidate d \<noteq> sc_candidate c" using taskD(5) [OF inv t(1) old] False by auto
    have "v = u" if "su_tasks (goto t c ?ph ?w) v = Some (e, ph'')" "sc_candidate e = sc_candidate d" for v e ph''
      using that taskD(5) [OF inv old] ne by (auto split: if_splits)
    moreover have "parking ph \<and> key = sc_key d"
      if "su_subjects ?w key = Some r" "field_is r ''approval_id'' (sc_candidate d)" for key r
    proof -
      have "\<not> field_is r1 ''approval_id'' (sc_candidate d)" using r1(1) ne by (auto simp: claims_def field_is_def)
      with that have "su_subjects w key = Some r" by (auto split: if_splits)
      from taskD(6) [OF inv old this that(2)] show ?thesis .
    qed
    ultimately show ?thesis
      using taskD(1-3) [OF inv old] adm [OF old False] unfolding task_ok_def admission_ok_goto sel by blast
  qed
  moreover have "parks_ok E ?w"
    unfolding parks_ok_def
  proof (intro allI impI)
    fix a p key
    assume p: "su_parks ?w a = Some p" "field_is p ''subject_key'' key"
    then have p': "su_parks w a = Some p" by simp
    from parkD [OF inv p' p(2)] obtain r where r: "su_subjects w key = Some r"
      "field_is r ''approval_id'' a \<or> settled E (su_now w) p" .
    show "\<exists>record. su_subjects ?w key = Some record \<and>
        (field_is record ''approval_id'' a \<or> settled E (su_now ?w) p)"
    proof (cases "key = sc_key c")
      case True
      with before r(1) have "head_settled E (su_now w) (su_parks w) r" by auto
      with r(2) p' have "settled E (su_now w) p" by (auto simp: head_settled_def dest: claims_unique(1))
      with True show ?thesis by simp
    qed (use r in auto)
  qed
  moreover have "records_ok E ?w"
    using inv r1 taskD(2) [OF inv t(1)] by (auto simp: subject_inv_def records_ok_def)
  ultimately show ?thesis by (simp add: subject_inv_def tasks_ok_def records_ok_def parks_ok_def)
qed

text \<open>Parks that are added or rewritten.\<close>

lemma inv_parks:
  assumes inv: "subject_inv E w"
    and parks: "\<And>a p key. P a = Some p \<Longrightarrow> field_is p ''subject_key'' key \<Longrightarrow> \<exists>record. su_subjects w key = Some record \<and>
        (field_is record ''approval_id'' a \<or> settled E (su_now w) p)"
    and free: "\<And>t c ph. su_tasks w t = Some (c, ph) \<Longrightarrow> P (sc_candidate c) = None"
    and heads: "\<And>key r. su_subjects w key = Some r \<Longrightarrow> head_settled E (su_now w) (su_parks w) r \<Longrightarrow> head_settled E (su_now w) P r"
  shows "subject_inv E (w\<lparr>su_parks := P\<rparr>)"
proof -
  let ?w = "w\<lparr>su_parks := P\<rparr>"
  have adm: "admission_ok E ?w c ph" if "admission_ok E w c ph" for c ph
    using that heads by (cases ph) (auto simp: read_before_def)
  have sel: "su_now ?w = su_now w" "su_subjects ?w = su_subjects w" "su_tasks ?w = su_tasks w" "su_parks ?w = P"
    by simp_all
  have "task_ok E ?w t c ph" if "su_tasks ?w t = Some (c, ph)" for t c ph
  proof -
    have old: "su_tasks w t = Some (c, ph)" using that by simp
    from taskD [OF inv old] free [OF old] adm [OF taskD(4) [OF inv old]] show ?thesis
      unfolding task_ok_def sel by blast
  qed
  moreover have "parks_ok E ?w" using parks unfolding parks_ok_def sel by blast
  moreover have "records_ok E ?w" using inv unfolding subject_inv_def records_ok_def sel by blast
  ultimately show ?thesis by (simp add: subject_inv_def tasks_ok_def)
qed

text \<open>Every writer of a park leaves the request alone and never opens it again.\<close>

definition same_question :: "park \<Rightarrow> park \<Rightarrow> bool" where
  "same_question p p' \<longleftrightarrow> dict_get p' ''subject_key'' = dict_get p ''subject_key'' \<and>
     dict_get p' ''approval_context'' = dict_get p ''approval_context'' \<and> (open_park p' \<longrightarrow> open_park p)"

lemma attach_question:
  "attach E pol p rungs now = Inr p' \<Longrightarrow> dict_get p' ''subject_key'' = dict_get p ''subject_key'' \<and>
     dict_get p' ''approval_context'' = dict_get p ''approval_context''"
  by (auto dest!: attach_Inr simp: attached_record_def)

lemma other_write_question: "other_write E p p' \<Longrightarrow> same_question p p'"
proof (induction rule: other_write.induct)
  case (ow_supervisor pol now p p')
  then show ?case
    by (auto dest!: supervisor_write_supervised simp: supervised_def same_request_def supervised_fields_def same_question_def)
next
  case (ow_consented pol rungs now consent p p')
  then obtain updated n where "attach E pol p rungs now = Inr updated" "p' = consented_record updated n consent"
    "field_is p ''status'' ''awaiting_contact_consent''"
    by (auto simp: contact_consented_def bind_res_Inr split: if_splits option.splits)
  with attach_question show ?case by (auto simp: same_question_def consented_record_def open_park_def)
next
  case (ow_declined p n requester stamp)
  then show ?case by (simp add: same_question_def resolved_record_sel(5))
qed (auto simp: supersede_def slot_rejected_def same_question_def open_park_def field_is_def bind_res_Inr split: if_splits)

lemma park_write_question: "park_write E p p' \<Longrightarrow> same_question p p'"
proof (induction rule: park_write.induct)
  case (pw_resolved p n d approver stamp)
  have "\<not> open_park (resolved_record d approver stamp n p)"
    using resolved_record_sel(1) [of d approver stamp n p] by (auto simp: open_park_def field_is_def)
  then show ?case by (simp add: same_question_def resolved_record_sel(5))
qed (rule other_write_question)

lemma same_question_settled: "same_question p p' \<Longrightarrow> settled E now p \<Longrightarrow> settled E now p'"
  by (auto simp: same_question_def settled_def approval_expired_def)

lemma inv_park_write:
  assumes inv: "subject_inv E w" and a: "su_parks w a = Some p" and q: "same_question p p'"
  shows "subject_inv E (w\<lparr>su_parks := (su_parks w)(a \<mapsto> p')\<rparr>)"
proof (rule inv_parks [OF inv])
  fix b q key
  assume "((su_parks w)(a \<mapsto> p')) b = Some q" and k: "field_is q ''subject_key'' key"
  then consider "b = a" "q = p'" | "b \<noteq> a" "su_parks w b = Some q" by (auto split: if_splits)
  then show "\<exists>record. su_subjects w key = Some record \<and>
      (field_is record ''approval_id'' b \<or> settled E (su_now w) q)"
  proof cases
    case 1
    with k assms(3) have "field_is p ''subject_key'' key" by (simp add: same_question_def field_is_def)
    from parkD [OF inv a this] 1 show ?thesis using same_question_settled [OF assms(3)] by blast
  qed (use parkD [OF inv _ k] in blast)
next
  fix t c ph
  assume "su_tasks w t = Some (c, ph)"
  with taskD(3) [OF inv this] a show "((su_parks w)(a \<mapsto> p')) (sc_candidate c) = None" by auto
next
  fix key r
  assume "head_settled E (su_now w) (su_parks w) r"
  then obtain h s where h: "claims E r h s"
    "case su_parks w h of None \<Rightarrow> s + claim_window \<le> su_now w | Some p \<Rightarrow> settled E (su_now w) p"
    by (auto simp: head_settled_def)
  with a same_question_settled [OF q]
  have "case ((su_parks w)(a \<mapsto> p')) h of None \<Rightarrow> s + claim_window \<le> su_now w | Some p \<Rightarrow> settled E (su_now w) p"
    by (cases "h = a") auto
  with h(1) show "head_settled E (su_now w) ((su_parks w)(a \<mapsto> p')) r"
    unfolding head_settled_def by blast
qed

lemma inv_park_new:
  assumes inv: "subject_inv E w"
    and key: "\<And>key. field_is p ''subject_key'' key \<Longrightarrow> \<exists>r. su_subjects w key = Some r \<and> field_is r ''approval_id'' a"
    and free: "\<And>t c ph. su_tasks w t = Some (c, ph) \<Longrightarrow> sc_candidate c \<noteq> a"
    and head: "\<And>key r since. su_subjects w key = Some r \<Longrightarrow> claims E r a since \<Longrightarrow> su_now w < since + claim_window"
    and new: "su_parks w a = None"
  shows "subject_inv E (w\<lparr>su_parks := (su_parks w)(a \<mapsto> p)\<rparr>)"
proof (rule inv_parks [OF inv])
  fix b q k
  assume "((su_parks w)(a \<mapsto> p)) b = Some q" and k: "field_is q ''subject_key'' k"
  then consider "b = a" "q = p" | "su_parks w b = Some q" by (cases "b = a") simp_all
  then show "\<exists>record. su_subjects w k = Some record \<and> (field_is record ''approval_id'' b \<or> settled E (su_now w) q)"
  proof cases
    case 1
    with key k show ?thesis by blast
  next
    case 2
    from parkD [OF inv this k] show ?thesis by blast
  qed
next
  fix t c ph
  assume "su_tasks w t = Some (c, ph)"
  with taskD(3) [OF inv this] free [OF this] show "((su_parks w)(a \<mapsto> p)) (sc_candidate c) = None" by simp
next
  fix k r
  assume r: "su_subjects w k = Some r" and "head_settled E (su_now w) (su_parks w) r"
  then obtain h s where h: "claims E r h s"
    "case su_parks w h of None \<Rightarrow> s + claim_window \<le> su_now w | Some p \<Rightarrow> settled E (su_now w) p"
    by (auto simp: head_settled_def)
  have "h \<noteq> a" using head [OF r, of s] h new by force
  with h show "head_settled E (su_now w) ((su_parks w)(a \<mapsto> p)) r" by (auto simp: head_settled_def)
qed

section \<open>Every step keeps the invariant\<close>

lemma written_subject:
  assumes "written_park E r p"
  shows "dict_get p ''subject_key'' = map_option (\<lambda>(key, _). JStr key) (hq_subject r)"
proof -
  have "dict_get (new_park E r) ''subject_key'' = map_option (\<lambda>(key, _). JStr key) (hq_subject r)"
    by (auto simp: new_park_def optional_fields_def Let_def map_add_def split: option.splits)
  with assms show ?thesis by (auto simp: written_park_def dest: attach_question)
qed

definition instants_ok :: "hil_env \<Rightarrow> bool" where
  "instants_ok E \<longleftrightarrow> (\<forall>t. parse_instant E (Some (JStr (he_isofmt E t))) = Some t)"

lemma behind_self: "park_at n r \<Longrightarrow> behind r r"
  by (auto simp: behind_def)

lemma int_field_revision: "park_at n r \<Longrightarrow> int_field r ''revision'' k = n"
  by (simp add: park_at_def int_field_def)

lemma observed_sel:
  "key \<notin> {''recent_events'', ''observed_count'', ''last_seen_at''} \<Longrightarrow>
     dict_get (observed_record E event now r) key = dict_get r key"
  by (simp add: observed_record_def)

lemma inv_subject_read:
  assumes "subject_inv E w" and "su_tasks w t = Some (c, SP_READ n)"
  shows "subject_inv E (subject_read t c n w)"
proof (cases "su_subjects w (sc_key c)")
  case None
  then show ?thesis unfolding subject_read_def by (simp add: inv_goto [OF assms] parking_def)
next
  case (Some r)
  from recordD [OF assms(1) Some] have "behind r r" by (blast intro: behind_self)
  with Some show ?thesis unfolding subject_read_def by (simp add: inv_goto [OF assms] parking_def read_before_def)
qed

lemma inv_retry: "subject_inv E w \<Longrightarrow> su_tasks w t = Some (c, old) \<Longrightarrow> \<not> parking old \<Longrightarrow> subject_inv E (goto t c (retry n) w)"
  by (cases n) (auto simp: retry_def intro: inv_goto)

lemma inv_subject_create:
  assumes "subject_inv E w" and "su_tasks w t = Some (c, SP_CREATE n)" and "instants_ok E"
  shows "subject_inv E (subject_create E t c n w)"
proof (cases "su_subjects w (sc_key c)")
  case None
  let ?r = "new_subject E (sc_key c) (sc_candidate c) (sc_event c) (sc_now c)"
  have "claims E ?r (sc_candidate c) (sc_now c)" "park_at 0 ?r"
    using assms(3) taskD(1) [OF assms(1,2)]
    by (simp_all add: claims_def new_subject_def field_is_def instants_ok_def park_at_def)
  from inv_claim [OF assms(1,2) _ this] None show ?thesis by (simp add: subject_create_def parking_def)
next
  case (Some r)
  then show ?thesis using inv_retry [OF assms(1,2)] by (simp add: subject_create_def parking_def)
qed

lemma reusable_settled:
  assumes "head_state E r head now reopen = HS_REUSABLE" and "claims E r h since" and "now \<le> later"
    and "head = parks h"
  shows "head_settled E later parks r"
proof -
  have "settled E later p" if "head = Some p" for p
    using assms(1,3) that
    by (auto simp: head_state_def settled_def Let_def approval_expired_def intro: deadline_due_mono
        split: if_splits option.splits)
  moreover have "since + claim_window \<le> later" if "head = None"
    using assms(1-3) that by (auto simp: head_state_def claims_def split: if_splits)
  ultimately have "case parks h of None \<Rightarrow> since + claim_window \<le> later | Some p \<Rightarrow> settled E later p"
    using assms(4) by (simp split: option.split)
  with assms(2) show ?thesis unfolding head_settled_def by blast
qed

lemma inv_subject_head:
  assumes "subject_inv E w" and "su_tasks w t = Some (c, SP_HEAD n r)" and "instants_ok E"
  shows "subject_inv E (subject_head E t c n r w)"
proof -
  have before: "read_before w (sc_key c) r" using taskD(4) [OF assms(1,2)] by simp
  let ?head = "if head_id E r = [] then None else su_parks w (head_id E r)"
  let ?r = "reopened_record E r ?head (head_id E r) (sc_candidate c) (sc_event c) (sc_now c)"
  have "claims E ?r (sc_candidate c) (sc_now c)"
    using assms(3) taskD(1) [OF assms(1,2)]
    by (simp add: claims_def reopened_record_def field_is_def instants_ok_def)
  moreover have "park_at (m + 1) ?r" if "park_at m r" for m
    using that by (simp add: reopened_record_def park_at_def int_field_def)
  moreover have "head_settled E (su_now w) (su_parks w) r"
    if cur: "su_subjects w (sc_key c) = Some r"
      and state: "head_state E r ?head (sc_now c) (sc_reopen c) = HS_REUSABLE"
  proof -
    from recordD [OF assms(1) cur] obtain h s where h: "claims E r h s" by blast
    then have "head_id E r = h" "h \<noteq> []" by (simp_all add: claims_head) (simp add: claims_def)
    with reusable_settled [OF state h taskD(2) [OF assms(1,2)], of "su_parks w"] show ?thesis by simp
  qed
  ultimately have "admission_ok E w c (SP_REOPEN n r ?r res)"
    if "head_state E r ?head (sc_now c) (sc_reopen c) = HS_REUSABLE" for res
    using before that by simp
  then show ?thesis
    using before unfolding subject_head_def Let_def
    by (auto split: head_state.splits simp: parking_def intro!: inv_goto [OF assms(1,2)])
qed

lemma record_cas:
  assumes "cas_park (su_subjects w) key r1 (int_field r ''revision'' 0) = Some subjects"
    and "read_before w key r"
  obtains n where "su_subjects w key = Some r" "park_at n r" "subjects = (su_subjects w)(key \<mapsto> r1)"
proof -
  obtain current n where c: "su_subjects w key = Some current" "behind r current" and n: "park_at n r"
    using assms(2) by (auto simp: read_before_def behind_def)
  from cas_park_found [OF assms(1)] c n have "r = current \<and> subjects = (su_subjects w)(key \<mapsto> r1)"
    by (simp add: int_field_revision)
  with c n that show ?thesis by blast
qed

lemma inv_subject_observe:
  assumes "subject_inv E w" and "su_tasks w t = Some (c, SP_OBSERVE r extra res)"
  shows "subject_inv E (subject_observe E t c r extra res w)"
proof -
  have ok: "read_before w (sc_key c) r" "extra = [] \<or> (\<exists>v. extra = [(''suppression_audited_for'', v)])"
    using taskD(4) [OF assms] by simp_all
  let ?r = "observe_update E (sc_event c) (sc_now c) extra r"
  show ?thesis
  proof (cases "cas_park (su_subjects w) (sc_key c) ?r (int_field r ''revision'' 0)")
    case None
    then show ?thesis by (simp add: subject_observe_def inv_answer [OF assms(1)])
  next
    case (Some subjects)
    from record_cas [OF Some ok(1)] obtain n where n: "su_subjects w (sc_key c) = Some r" "park_at n r"
      "subjects = (su_subjects w)(sc_key c \<mapsto> ?r)" .
    have "park_at (n + 1) ?r" "dict_get ?r ''approval_id'' = dict_get r ''approval_id''"
      "dict_get ?r ''claimed_at'' = dict_get r ''claimed_at''"
      using ok(2) n(2) by (auto simp: observe_update_def park_at_def int_field_def observed_sel)
    from inv_touch_record [OF assms(1) n(1,2) this] Some n(3)
    show ?thesis by (simp add: subject_observe_def inv_answer)
  qed
qed

lemma inv_subject_reopen:
  assumes "subject_inv E w" and "su_tasks w t = Some (c, SP_REOPEN n r r1 res)"
  shows "subject_inv E (subject_reopen t c n r r1 res w)"
proof -
  have ok: "read_before w (sc_key c) r" "claims E r1 (sc_candidate c) (sc_now c)"
    "\<And>m. park_at m r \<Longrightarrow> park_at (m + 1) r1"
    "su_subjects w (sc_key c) = Some r \<Longrightarrow> head_settled E (su_now w) (su_parks w) r"
    using taskD(4) [OF assms] by simp_all
  show ?thesis
  proof (cases "cas_park (su_subjects w) (sc_key c) r1 (int_field r ''revision'' 0)")
    case None
    then show ?thesis using inv_retry [OF assms] by (simp add: subject_reopen_def parking_def)
  next
    case (Some subjects)
    from record_cas [OF Some ok(1)] obtain m where m: "su_subjects w (sc_key c) = Some r" "park_at m r"
      "subjects = (su_subjects w)(sc_key c \<mapsto> r1)" .
    from inv_claim [OF assms _ ok(2) ok(3) [OF m(2)]] m ok(4) [OF m(1)] Some
    show ?thesis by (auto simp: subject_reopen_def parking_def)
  qed
qed

lemma inv_subject_park:
  assumes inv: "subject_inv E w" and t: "su_tasks w t = Some (c, SP_PARK l prev)"
    and time: "su_now w < sc_now c + claim_window"
    and r: "hq_subject r = Some (sc_key c, l, prev)" "written_park E r p"
  shows "subject_inv E (subject_park t c p w)"
proof -
  have new: "su_parks w (sc_candidate c) = None" by (rule taskD(3) [OF inv t])
  obtain rec where rec: "su_subjects w (sc_key c) = Some rec" "claims E rec (sc_candidate c) (sc_now c)"
    using taskD(4) [OF inv t] time by auto
  have "subject_inv E ((stop t w)\<lparr>su_parks := (su_parks (stop t w))(sc_candidate c \<mapsto> p)\<rparr>)"
  proof (rule inv_park_new [OF inv_stop [OF inv]])
    fix key
    assume "field_is p ''subject_key'' key"
    with written_subject [OF r(2)] r(1) have "key = sc_key c" by (simp add: field_is_def)
    with rec show "\<exists>q. su_subjects (stop t w) key = Some q \<and> field_is q ''approval_id'' (sc_candidate c)"
      by (auto simp: claims_def)
  next
    fix u d ph
    assume "su_tasks (stop t w) u = Some (d, ph)"
    then have "u \<noteq> t" "su_tasks w u = Some (d, ph)" by (simp_all split: if_splits)
    with taskD(5) [OF inv t this(2)] show "sc_candidate d \<noteq> sc_candidate c" by blast
  next
    fix key q since
    assume q: "su_subjects (stop t w) key = Some q" and cl: "claims E q (sc_candidate c) since"
    then have "key = sc_key c" using taskD(6) [OF inv t, of key q] by (simp add: claims_def)
    with q rec have "q = rec" by simp
    with claims_unique(2) [OF cl] rec time show "su_now (stop t w) < since + claim_window" by auto
  qed (simp add: new)
  also have "(stop t w)\<lparr>su_parks := (su_parks (stop t w))(sc_candidate c \<mapsto> p)\<rparr> = subject_park t c p w"
    using new by (simp add: subject_park_def stop_def)
  finally show ?thesis .
qed

lemma inv_reopened:
  assumes "subject_inv E w" and "reopen_rejected_subject approval actor enforce lost w = Inr (outcome, w')"
  shows "subject_inv E w'"
proof (cases "w' = w")
  case False
  with assms(2) obtain key r subjects where r: "su_subjects w key = Some r"
    and cas: "cas_park (su_subjects w) key (dict_merge r
        [(''revision'', JInt (int_field r ''revision'' 0 + 1)), (''reopened_head'', JStr approval)])
        (int_field r ''revision'' 0) = Some subjects" and w': "w' = w\<lparr>su_subjects := subjects\<rparr>"
    by (auto simp: reopen_rejected_subject_def split: if_splits option.splits json.splits)
  from recordD [OF assms(1) r] obtain n where n: "park_at n r" by blast
  then have "read_before w key r" using r by (auto simp: read_before_def intro: behind_self)
  from record_cas [OF cas this] have s: "subjects = (su_subjects w)(key \<mapsto> dict_merge r
        [(''revision'', JInt (int_field r ''revision'' 0 + 1)), (''reopened_head'', JStr approval)])" by blast
  show ?thesis unfolding w' s
    by (rule inv_touch_record [OF assms(1) r n]) (use n in \<open>simp_all add: park_at_def int_field_def\<close>)
qed (use assms(1) in simp)

lemma subject_step_inv:
  assumes "instants_ok E"
  shows "subject_step E True w w' \<Longrightarrow> subject_inv E w \<Longrightarrow> subject_inv E w'"
proof (induction rule: subject_step.induct)
  case (ss_explicit r w p)
  from ss_explicit(1) have f: "su_parks w (hq_id r) = None"
    "\<And>t c ph. su_tasks w t = Some (c, ph) \<Longrightarrow> sc_candidate c \<noteq> hq_id r"
    "\<And>key q since. su_subjects w key = Some q \<Longrightarrow> \<not> claims E q (hq_id r) since"
    unfolding fresh_id_def claims_def by blast+
  have no: "\<not> field_is p ''subject_key'' key" for key
    using written_subject [OF ss_explicit(3)] ss_explicit(2) by (simp add: field_is_def)
  show ?case by (rule inv_park_new [OF ss_explicit(4)]) (use f no in blast)+
next
  case (ss_write w a p p')
  then show ?case by (blast intro: inv_park_write park_write_question)
next
  case (ss_last w t c)
  then show ?case by (simp add: subject_last_def inv_answer)
qed (auto intro: inv_time inv_begin inv_subject_read inv_subject_create [OF _ _ assms] inv_subject_head [OF _ _ assms]
    inv_subject_observe inv_subject_reopen inv_subject_park inv_stop inv_reopened)

lemma subject_start_inv: "subject_start w \<Longrightarrow> subject_inv E w"
  by (simp add: subject_start_def subject_inv_def records_ok_def parks_ok_def tasks_ok_def)

interpretation subjects: safe_system subject_start "subject_step E True" "\<lambda>w. instants_ok E \<longrightarrow> subject_inv E w" for E
  by unfold_locales (blast intro: subject_start_inv subject_step_inv)+

section \<open>One open request per subject\<close>

text \<open>
  C7: However proposals, resolutions and other writers interleave, if every admitted request
  writes its park within the claim window, two unexpired open parks of one subject are the
  same park, and it is the head of the subject's record.
\<close>

theorem one_live_request_per_subject:
  assumes "instants_ok E" and "reachable subject_start (subject_step E True) w"
    and "su_parks w a = Some p" "field_is p ''subject_key'' key" "open_park p" "\<not> approval_expired E p (su_now w)"
    and "su_parks w b = Some q" "field_is q ''subject_key'' key" "open_park q" "\<not> approval_expired E q (su_now w)"
  shows "a = b \<and> (\<exists>record. su_subjects w key = Some record \<and> field_is record ''approval_id'' a)"
proof -
  have inv: "subject_inv E w" using subjects.reachable_inv [OF assms(2)] assms(1) by blast
  from parkD [OF inv assms(3,4)] obtain r where r: "su_subjects w key = Some r" "field_is r ''approval_id'' a"
    using assms(5,6) by (auto simp: settled_def)
  from parkD [OF inv assms(7,8)] obtain r' where "su_subjects w key = Some r'" "field_is r' ''approval_id'' b"
    using assms(9,10) by (auto simp: settled_def)
  with r show ?thesis by (simp add: field_is_def)
qed

section \<open>Concrete histories\<close>

text \<open>One step of a task, parking the request \<open>q\<close> with the id and the lineage it was admitted with.\<close>

definition run_subject :: "hil_env \<Rightarrow> bool \<Rightarrow> approval_request \<Rightarrow> nat \<Rightarrow> subject_world \<Rightarrow> subject_world" where
  "run_subject E timely q t w = (case su_tasks w t of
     None \<Rightarrow> w
   | Some (c, SP_READ n) \<Rightarrow> subject_read t c n w
   | Some (c, SP_CREATE n) \<Rightarrow> subject_create E t c n w
   | Some (c, SP_HEAD n r) \<Rightarrow> subject_head E t c n r w
   | Some (c, SP_OBSERVE r extra res) \<Rightarrow> subject_observe E t c r extra res w
   | Some (c, SP_REOPEN n r r1 res) \<Rightarrow> subject_reopen t c n r r1 res w
   | Some (c, SP_LAST) \<Rightarrow> subject_last E t c w
   | Some (c, SP_PARK lineage previous) \<Rightarrow>
       (if timely \<and> \<not> su_now w < sc_now c + claim_window then w
        else subject_park t c (new_park E (q\<lparr>hq_id := sc_candidate c, hq_parked_at := sc_now c,
          hq_subject := Some (sc_key c, lineage, previous)\<rparr>)) w))"

lemma run_subject_reachable:
  assumes "reachable subject_start (subject_step E timely) w"
  shows "reachable subject_start (subject_step E timely) (run_subject E timely q t w)"
proof (cases "run_subject E timely q t w = w")
  case False
  then obtain c ph where t: "su_tasks w t = Some (c, ph)" by (cases "su_tasks w t") (auto simp: run_subject_def)
  have "subject_step E timely w (run_subject E timely q t w)"
  proof (cases ph)
    case (SP_PARK l prev)
    let ?r = "q\<lparr>hq_id := sc_candidate c, hq_parked_at := sc_now c, hq_subject := Some (sc_key c, l, prev)\<rparr>"
    have "timely \<longrightarrow> su_now w < sc_now c + claim_window"
      using False t SP_PARK by (auto simp: run_subject_def split: if_splits)
    moreover from this have "run_subject E timely q t w = subject_park t c (new_park E ?r) w"
      using t SP_PARK by (auto simp: run_subject_def)
    ultimately show ?thesis
      using ss_park [of w t c l prev timely ?r E "new_park E ?r"] t SP_PARK by (simp add: written_park_def)
  qed (use t in \<open>auto simp: run_subject_def intro: subject_step.intros\<close>)
  with assms show ?thesis by (rule reachable_step)
qed (use assms in simp)

definition empty_subjects :: subject_world where
  "empty_subjects = \<lparr>su_now = 0, su_subjects = (\<lambda>_. None), su_parks = (\<lambda>_. None), su_tasks = (\<lambda>_. None),
     su_results = []\<rparr>"

definition proposal :: "string \<Rightarrow> int \<Rightarrow> subject_call" where
  "proposal candidate now = \<lparr>sc_key = ''k'', sc_candidate = candidate, sc_event = ''e'', sc_now = now, sc_reopen = True\<rparr>"

definition long_request :: approval_request where
  "long_request = sample_request\<lparr>hq_ttl := 1800\<rparr>"

text \<open>Two proposals of one subject at the same time: one parks, the other observes.\<close>

definition observed_world :: subject_world where
  "observed_world = fold (run_subject sample_env True long_request) [0, 1, 0, 0, 1, 1, 1, 1]
     (goto 1 (proposal ''n2'' 0) (SP_READ 3) (goto 0 (proposal ''n1'' 0) (SP_READ 3) empty_subjects))"

definition waiting_world :: subject_world where
  "waiting_world = fold (run_subject sample_env False long_request) [0, 0]
     (goto 0 (proposal ''n1'' 0) (SP_READ 3) empty_subjects)"

text \<open>The first proposal is admitted but writes its park only after another took its claim over.\<close>

definition late_world :: subject_world where
  "late_world = fold (run_subject sample_env False long_request) [1, 1, 1, 1, 0]
     (goto 1 (proposal ''n2'' (seconds 61)) (SP_READ 3) (waiting_world\<lparr>su_now := seconds 61\<rparr>))"

lemma observed_facts:
  "(case su_parks observed_world ''n1'' of None \<Rightarrow> False | Some p \<Rightarrow> field_is p ''subject_key'' ''k'' \<and> open_park p \<and>
     \<not> approval_expired sample_env p (su_now observed_world)) \<and>
   map (\<lambda>(t, r). (t, sr_admission r, sr_approval r)) (su_results observed_world) = [(1, SA_OPEN_REQUEST, ''n1'')]"
  by code_simp

lemma late_facts:
  "(case (su_parks late_world ''n1'', su_parks late_world ''n2'') of
      (Some p, Some q) \<Rightarrow> field_is p ''subject_key'' ''k'' \<and> field_is q ''subject_key'' ''k'' \<and> open_park p \<and> open_park q \<and>
        \<not> approval_expired sample_env p (su_now late_world) \<and> \<not> approval_expired sample_env q (su_now late_world)
    | _ \<Rightarrow> False)"
  by code_simp

lemma run_fold_reachable:
  "reachable subject_start (subject_step E timely) w \<Longrightarrow>
     reachable subject_start (subject_step E timely) (fold (run_subject E timely q) ts w)"
  by (induction ts arbitrary: w) (auto intro: run_subject_reachable)

lemma start_reachable:
  "reachable subject_start (subject_step E timely) w \<Longrightarrow> su_tasks w t = None \<Longrightarrow> fresh_id (sc_candidate c) w \<Longrightarrow>
     sc_now c = su_now w \<Longrightarrow> reachable subject_start (subject_step E timely) (goto t c (SP_READ 3) w)"
  by (blast intro: reachable_step ss_start)

lemma empty_reachable: "reachable subject_start (subject_step E timely) empty_subjects"
  by (rule reachable_start) (simp add: subject_start_def empty_subjects_def)

lemma first_reachable:
  "reachable subject_start (subject_step E timely) (goto 0 (proposal ''n1'' 0) (SP_READ 3) empty_subjects)"
  by (rule start_reachable [OF empty_reachable]) (simp_all add: empty_subjects_def proposal_def fresh_id_def)

lemma observed_reachable: "reachable subject_start (subject_step sample_env True) observed_world"
  unfolding observed_world_def
  by (rule run_fold_reachable, rule start_reachable [OF first_reachable])
    (simp_all add: empty_subjects_def proposal_def fresh_id_def)

lemma waiting_facts:
  "su_now waiting_world = 0" "su_parks waiting_world = (\<lambda>_. None)"
  "su_tasks waiting_world = [0 \<mapsto> (proposal ''n1'' 0, SP_PARK 1 None)]"
  "su_subjects waiting_world = [''k'' \<mapsto> new_subject sample_env ''k'' ''n1'' ''e'' 0]"
  by (simp_all add: waiting_world_def run_subject_def subject_read_def subject_create_def empty_subjects_def goto_def
      proposal_def)

lemma late_reachable: "reachable subject_start (subject_step sample_env False) late_world"
  unfolding late_world_def
proof (rule run_fold_reachable, rule start_reachable)
  have "reachable subject_start (subject_step sample_env False) waiting_world"
    unfolding waiting_world_def by (rule run_fold_reachable [OF first_reachable])
  then show "reachable subject_start (subject_step sample_env False) (waiting_world\<lparr>su_now := seconds 61\<rparr>)"
    by (rule reachable_step) (simp add: ss_time waiting_facts seconds_def)
qed (simp_all add: fresh_id_def waiting_facts proposal_def new_subject_def field_is_def)

lemma sample_instants_ok: "instants_ok sample_env"
proof -
  have "iso_instant sample_env (sample_isofmt t) = Some (Some t)" "sample_isofmt t \<noteq> []" for t
    using sample_iso_ok by (simp_all add: iso_ok_def) (simp_all add: sample_env_def sample_isofmt_def)
  then show ?thesis by (simp add: instants_ok_def parse_instant_def) (simp add: sample_env_def)
qed

theorem one_live_request_per_subject_witness:
  "\<exists>p. su_parks observed_world ''n1'' = Some p \<and> open_park p \<and>
     \<not> (\<exists>b q. b \<noteq> ''n1'' \<and> su_parks observed_world b = Some q \<and> field_is q ''subject_key'' ''k'' \<and> open_park q \<and>
       \<not> approval_expired sample_env q (su_now observed_world))"
proof -
  obtain p where p: "su_parks observed_world ''n1'' = Some p" "field_is p ''subject_key'' ''k''" "open_park p"
    "\<not> approval_expired sample_env p (su_now observed_world)"
    using observed_facts by (auto split: option.splits)
  from one_live_request_per_subject [OF sample_instants_ok observed_reachable p] p show ?thesis by blast
qed

text \<open>Without the bound on the delay two live requests of one subject exist.\<close>

lemma late_park_duplicates_request:
  "reachable subject_start (subject_step sample_env False) late_world \<and>
   (\<exists>p q. su_parks late_world ''n1'' = Some p \<and> su_parks late_world ''n2'' = Some q \<and>
      field_is p ''subject_key'' ''k'' \<and> field_is q ''subject_key'' ''k'' \<and> open_park p \<and> open_park q \<and>
      \<not> approval_expired sample_env p (su_now late_world) \<and> \<not> approval_expired sample_env q (su_now late_world))"
  using late_reachable late_facts by (auto split: option.splits)

end
