(* ===== verification/RuleIndex.thy ===== *)
theory RuleIndex
  imports Contracts StepSystem "HOL-Library.Multiset"
begin

text \<open>
  The rule lookup of tier T0: signal types (\<open>fdai_service_contracts/workflow_catalog/signal_type.py\<close>), the
  index over a rule catalogue and its versions (\<open>core/tiers/t0_deterministic/index.py\<close>). A rule holds the
  fields that dispatch reads, the others are \<open>cr_rest\<close>. Shell patterns are those of \<open>fnmatch.fnmatchcase\<close>; the hash of a catalogue's
  content (SHA-256 of its JSON text) is the parameter \<open>h\<close>, its values are of an uninterpreted type.
\<close>

section \<open>Rules\<close>

datatype rule_severity = SEV_CRITICAL | SEV_HIGH | SEV_MEDIUM | SEV_LOW

record catalog_rule =
  cr_id :: string
  cr_version :: string
  cr_severity :: rule_severity
  cr_resource_type :: string
  cr_target_object :: "string option"
  cr_applies_to :: "string list"
  cr_triggered_by :: "string list"
  cr_remediates :: string
  cr_alternatives :: "string list"
  cr_parameters :: "(string, json) dict"
  cr_cost :: "rat option"
  cr_rest :: json

fun rule_severity_rank :: "rule_severity \<Rightarrow> int" where
  "rule_severity_rank SEV_CRITICAL = 4"
| "rule_severity_rank SEV_HIGH = 3"
| "rule_severity_rank SEV_MEDIUM = 2"
| "rule_severity_rank SEV_LOW = 1"

definition severity_order_key :: "catalog_rule \<Rightarrow> int \<times> string" where
  "severity_order_key r = (- rule_severity_rank (cr_severity r), cr_id r)"

section \<open>Shell patterns\<close>

datatype glob_token = GStar | GAny | GSet bool "(char \<times> char) list" | GChar char

text \<open>The items of a bracket: a hyphen between two characters makes a range.\<close>

fun bracket_items :: "string \<Rightarrow> (char \<times> char) list" where
  "bracket_items (a # h # b # cs) =
     (if h = CHR ''-'' then (a, b) # bracket_items cs else (a, a) # bracket_items (h # b # cs))"
| "bracket_items (a # cs) = (a, a) # bracket_items cs"
| "bracket_items [] = []"

text \<open>The text up to the closing bracket and the rest; a closing bracket right at the start is literal.\<close>

definition bracket_end :: "string \<Rightarrow> (string \<times> string) option" where
  "bracket_end cs = (case cs of
     [] \<Rightarrow> None
   | c # rest \<Rightarrow>
       (if CHR '']'' \<in> set rest
        then Some (c # takeWhile (\<lambda>x. x \<noteq> CHR '']'') rest, tl (dropWhile (\<lambda>x. x \<noteq> CHR '']'') rest))
        else None))"

definition bracket :: "string \<Rightarrow> (glob_token \<times> string) option" where
  "bracket cs =
     (if cs \<noteq> [] \<and> hd cs = CHR ''!''
      then map_option (\<lambda>(body, rest). (GSet True (bracket_items body), rest)) (bracket_end (tl cs))
      else map_option (\<lambda>(body, rest). (GSet False (bracket_items body), rest)) (bracket_end cs))"

lemma bracket_shorter: "bracket cs = Some (t, rest) \<Longrightarrow> length rest < length cs"
proof -
  have d: "length (tl (dropWhile P xs)) \<le> length xs" for P and xs :: string
    using length_dropWhile_le [of P xs] by simp
  assume "bracket cs = Some (t, rest)"
  then show ?thesis
    using d by (cases cs) (auto simp: bracket_def bracket_end_def less_Suc_eq_le le_SucI split: if_splits list.splits)
qed

function glob_tokens :: "string \<Rightarrow> glob_token list" where
  "glob_tokens [] = []"
| "glob_tokens (c # cs) =
     (if c = CHR ''*'' then GStar # glob_tokens cs
      else if c = CHR ''?'' then GAny # glob_tokens cs
      else if c = CHR ''['' then
        (case bracket cs of
           None \<Rightarrow> GChar c # glob_tokens cs
         | Some (t, rest) \<Rightarrow> t # glob_tokens rest)
      else GChar c # glob_tokens cs)"
  by pat_completeness auto
termination by (relation "measure length") (auto dest: bracket_shorter)

fun glob_match :: "glob_token list \<Rightarrow> string \<Rightarrow> bool" where
  "glob_match [] s = (s = [])"
| "glob_match (GStar # ts) [] = glob_match ts []"
| "glob_match (GStar # ts) (x # xs) = (glob_match ts (x # xs) \<or> glob_match (GStar # ts) xs)"
| "glob_match (t # ts) [] = False"
| "glob_match (GAny # ts) (x # xs) = glob_match ts xs"
| "glob_match (GSet negated items # ts) (x # xs) =
     ((list_ex (\<lambda>(a, b). a \<le> x \<and> x \<le> b) items \<noteq> negated) \<and> glob_match ts xs)"
| "glob_match (GChar c # ts) (x # xs) = (x = c \<and> glob_match ts xs)"

definition fnmatchcase :: "string \<Rightarrow> string \<Rightarrow> bool" where
  "fnmatchcase value pattern = glob_match (glob_tokens pattern) value"

section \<open>Signal types\<close>

datatype signal_dispatch_mode = BASELINE | EXACT

record signal_type_entry =
  st_id :: string
  st_mode :: signal_dispatch_mode
  st_patterns :: "string list"

type_synonym signal_registry = "signal_type_entry list"

definition signal_registry_init :: "signal_registry \<Rightarrow> signal_registry res" where
  "signal_registry_init types = bind_res (first_failure
     [(\<not> distinct (map st_id types), ''SignalType ids MUST be unique''),
      (length (filter (\<lambda>t. st_mode t = BASELINE) types) \<noteq> 1,
        ''SignalType registry MUST declare exactly one baseline'')]) (\<lambda>_. Inr types)"

definition resolve_declared :: "signal_registry \<Rightarrow> string option \<Rightarrow> string list" where
  "resolve_declared types event_type =
     (let value = py_casefold (py_strip (case event_type of None \<Rightarrow> [] | Some v \<Rightarrow> v))
      in map st_id (filter (\<lambda>t. value = st_id t \<or>
           list_ex (\<lambda>p. fnmatchcase value (py_casefold p)) (st_patterns t)) types))"

definition resolve_signal :: "signal_registry \<Rightarrow> string option \<Rightarrow> string list" where
  "resolve_signal types event_type =
     (let exact = resolve_declared types event_type
      in if exact \<noteq> [] then exact else map st_id (filter (\<lambda>t. st_mode t = BASELINE) types))"

section \<open>The index\<close>

record rule_index =
  ix_by_type :: "(string, catalog_rule list) dict"
  ix_by_signal :: "(string, string list) dict"
  ix_by_id :: "(string, catalog_rule) dict"
  ix_signals :: "signal_registry option"

definition dict_or :: "('k, 'v) dict \<Rightarrow> 'k \<Rightarrow> 'v \<Rightarrow> 'v" where
  "dict_or d k v = (case dict_get d k of None \<Rightarrow> v | Some x \<Rightarrow> x)"

text \<open>The types a rule applies to: blanks stripped, empty ones dropped, the target object type last.\<close>

definition applied_types :: "catalog_rule \<Rightarrow> string list" where
  "applied_types r =
     (let types = filter (\<lambda>t. t \<noteq> []) (map py_strip
            (if cr_applies_to r = [] then [cr_resource_type r] else cr_applies_to r))
      in case cr_target_object r of
          None \<Rightarrow> types
        | Some object \<Rightarrow>
            (if py_strip object \<noteq> [] \<and> py_strip object \<notin> set types then types @ [py_strip object] else types))"

definition triggers :: "catalog_rule \<Rightarrow> string list" where
  "triggers r = (if cr_triggered_by r = [] then [''*''] else cr_triggered_by r)"

text \<open>One rule enters the grouped dictionaries, once per type; the sets of rule ids are lists.\<close>

definition add_rule :: "catalog_rule \<Rightarrow> rule_index \<Rightarrow> rule_index" where
  "add_rule r ix = ix
     \<lparr>ix_by_id := dict_set (ix_by_id ix) (cr_id r) r,
      ix_by_type := fold (\<lambda>t d. dict_set d t (dict_or d t [] @ [r])) (fromkeys (applied_types r)) (ix_by_type ix),
      ix_by_signal := fold (\<lambda>t d. dict_set d t (dict_or d t [] @ [cr_id r])) (triggers r) (ix_by_signal ix)\<rparr>"

fun group_rules :: "catalog_rule list \<Rightarrow> rule_index \<Rightarrow> rule_index res" where
  "group_rules [] ix = Inr ix"
| "group_rules (r # rs) ix =
     (if dict_get (ix_by_id ix) (cr_id r) \<noteq> None
      then Inl (ValueError ''duplicate rule id in index build'')
      else group_rules rs (add_rule r ix))"

definition build_index :: "signal_registry option \<Rightarrow> catalog_rule list \<Rightarrow> rule_index res" where
  "build_index signals rules =
     bind_res (group_rules rules \<lparr>ix_by_type = [], ix_by_signal = [], ix_by_id = [], ix_signals = signals\<rparr>)
       (\<lambda>ix. Inr (ix\<lparr>ix_by_type := map (\<lambda>(t, rs). (t, sort_key severity_order_key rs)) (ix_by_type ix)\<rparr>))"

definition rules_for_type :: "rule_index \<Rightarrow> string \<Rightarrow> catalog_rule list" where
  "rules_for_type ix t = dict_or (ix_by_type ix) (py_strip t) []"

definition ends_with :: "string \<Rightarrow> string \<Rightarrow> bool" where
  "ends_with suffix s = starts_with (rev suffix) (rev s)"

text \<open>The signal types whose rules an event may trigger, beside the rules triggered by anything.\<close>

definition resolved_signals :: "rule_index \<Rightarrow> string option \<Rightarrow> string list" where
  "resolved_signals ix signal =
     (case ix_signals ix of
        Some types \<Rightarrow> resolve_signal types signal
      | None \<Rightarrow>
          (let keys = dict_keys (ix_by_signal ix); one = (case signal of None \<Rightarrow> [] | Some s \<Rightarrow> [s])
           in if ''*'' \<in> set keys then one
              else if keys \<noteq> [] \<and> list_all (ends_with ''.observed'') keys then keys
              else one))"

definition rules_for_signal :: "rule_index \<Rightarrow> string \<Rightarrow> string option \<Rightarrow> string option \<Rightarrow> catalog_rule list" where
  "rules_for_signal ix resource signal object =
     (let allowed = dict_or (ix_by_signal ix) ''*'' [] @
            concat (map (\<lambda>t. dict_or (ix_by_signal ix) t []) (resolved_signals ix signal));
          key = (case object of None \<Rightarrow> resource | Some ob \<Rightarrow> (if ob = [] then resource else py_strip ob))
      in filter (\<lambda>r. cr_id r \<in> set allowed) (rules_for_type ix key))"

definition index_rule :: "rule_index \<Rightarrow> string \<Rightarrow> catalog_rule res" where
  "index_rule ix i = (case dict_get (ix_by_id ix) i of
     None \<Rightarrow> Inl (LookupError ''unknown rule id'') | Some r \<Rightarrow> Inr r)"

definition index_with_rules :: "rule_index \<Rightarrow> catalog_rule list \<Rightarrow> rule_index res" where
  "index_with_rules ix rules = build_index (ix_signals ix) rules"

definition index_ids :: "rule_index \<Rightarrow> string list" where
  "index_ids ix = dict_keys (ix_by_id ix)"

definition index_resource_types :: "rule_index \<Rightarrow> string list" where
  "index_resource_types ix = dict_keys (ix_by_type ix)"

definition index_object_types :: "rule_index \<Rightarrow> string list" where
  "index_object_types ix = concat (map (\<lambda>r. case cr_target_object r of
     None \<Rightarrow> [] | Some ob \<Rightarrow> (if py_strip ob = [] then [] else [py_strip ob])) (dict_values (ix_by_id ix)))"

text \<open>The rules and dispatch bindings an index digest covers, in the order of the rule ids.\<close>

definition index_payload ::
  "rule_index \<Rightarrow> (string \<times> string \<times> string \<times> string option \<times> string list \<times> string list) list" where
  "index_payload ix = map (\<lambda>r. (cr_id r, cr_version r, cr_resource_type r, cr_target_object r,
     cr_applies_to r, cr_triggered_by r)) (sort_key cr_id (dict_values (ix_by_id ix)))"

text \<open>\<open>==\<close> of two indexes: dictionaries are compared as mappings, the id sets as sets.\<close>

definition same_dict :: "('v \<Rightarrow> 'v \<Rightarrow> bool) \<Rightarrow> ('k, 'v) dict \<Rightarrow> ('k, 'v) dict \<Rightarrow> bool" where
  "same_dict eq d e =
     (set (dict_keys d) = set (dict_keys e) \<and>
      list_all (\<lambda>k. case (dict_get d k, dict_get e k) of (Some x, Some y) \<Rightarrow> eq x y | _ \<Rightarrow> False) (dict_keys d))"

definition same_index :: "rule_index \<Rightarrow> rule_index \<Rightarrow> bool" where
  "same_index a b =
     (same_dict (=) (ix_by_type a) (ix_by_type b) \<and>
      same_dict (\<lambda>x y. set x = set y) (ix_by_signal a) (ix_by_signal b) \<and>
      same_dict (=) (ix_by_id a) (ix_by_id b) \<and> ix_signals a = ix_signals b)"

section \<open>Catalogue versions\<close>

record 'd reload_receipt =
  rr_attempted :: string
  rr_previous :: "string option"
  rr_current :: string
  rr_accepted :: bool
  rr_retained :: "string list"
  rr_digest :: 'd
  rr_failure :: "string option"

record 'd catalog_state =
  cat_indexes :: "(string, rule_index) dict"
  cat_digests :: "(string, 'd) dict"
  cat_current :: string
  cat_previous :: "string option"
  cat_receipt :: "'d reload_receipt"
  cat_signals :: "signal_registry option"
  cat_limit :: int

definition rules_digest :: "(catalog_rule list \<Rightarrow> 'd) \<Rightarrow> catalog_rule list \<Rightarrow> 'd" where
  "rules_digest h rules = h (sort_key cr_id rules)"

definition retained_versions :: "'d catalog_state \<Rightarrow> string list" where
  "retained_versions s = cat_current s # (case cat_previous s of None \<Rightarrow> [] | Some v \<Rightarrow> [v])"

definition catalog_init ::
  "(catalog_rule list \<Rightarrow> 'd) \<Rightarrow> string \<Rightarrow> catalog_rule list \<Rightarrow> signal_registry option \<Rightarrow> int \<Rightarrow>
     'd catalog_state res" where
  "catalog_init h version rules signals limit = bind_res (first_failure
     [(py_strip version = [], ''catalog_version MUST be non-empty''),
      (limit < 1, ''max_version_tombstones MUST be >= 1'')]) (\<lambda>_.
     bind_res (build_index signals rules) (\<lambda>ix. Inr
       \<lparr>cat_indexes = [(version, ix)], cat_digests = [(version, rules_digest h rules)],
        cat_current = version, cat_previous = None,
        cat_receipt = \<lparr>rr_attempted = version, rr_previous = None, rr_current = version, rr_accepted = True,
          rr_retained = [version], rr_digest = rules_digest h rules, rr_failure = None\<rparr>,
        cat_signals = signals, cat_limit = limit\<rparr>))"

definition current_index :: "'d catalog_state \<Rightarrow> rule_index res" where
  "current_index s = (case dict_get (cat_indexes s) (cat_current s) of
     None \<Rightarrow> Inl (KeyError ''current'') | Some ix \<Rightarrow> Inr ix)"

text \<open>A refused reload leaves a receipt and nothing else; building an index raises \<open>ValueError\<close> only.\<close>

definition refuse_reload ::
  "'d catalog_state \<Rightarrow> string \<Rightarrow> 'd \<Rightarrow> exc \<Rightarrow> 'd reload_receipt res \<times> 'd catalog_state" where
  "refuse_reload s version digest e = (Inl e, s\<lparr>cat_receipt :=
     \<lparr>rr_attempted = version, rr_previous = Some (cat_current s), rr_current = cat_current s, rr_accepted = False,
      rr_retained = retained_versions s, rr_digest = digest, rr_failure = Some ''ValueError''\<rparr>\<rparr>)"

definition accept_reload ::
  "'d catalog_state \<Rightarrow> string \<Rightarrow> string option \<Rightarrow> 'd \<Rightarrow> 'd reload_receipt res \<times> 'd catalog_state" where
  "accept_reload s version previous digest =
     (let receipt = \<lparr>rr_attempted = version, rr_previous = previous, rr_current = cat_current s,
        rr_accepted = True, rr_retained = retained_versions s, rr_digest = digest, rr_failure = None\<rparr>
      in (Inr receipt, s\<lparr>cat_receipt := receipt\<rparr>))"

definition reload ::
  "(catalog_rule list \<Rightarrow> 'd) \<Rightarrow> string \<Rightarrow> catalog_rule list \<Rightarrow> 'd catalog_state \<Rightarrow>
     'd reload_receipt res \<times> 'd catalog_state" where
  "reload h version rules s =
     (if py_strip version = [] then (Inl (ValueError ''catalog_version MUST be non-empty''), s)
      else let digest = rules_digest h rules; previous = cat_current s in
      case build_index (cat_signals s) rules of
        Inl e \<Rightarrow> refuse_reload s version digest e
      | Inr candidate \<Rightarrow>
      (case dict_get (cat_indexes s) previous of
        None \<Rightarrow> (Inl (KeyError ''current''), s)
      | Some serving \<Rightarrow>
       if version = previous then
         (if \<not> same_index candidate serving
          then refuse_reload s version digest
            (ValueError ''catalog version was already accepted with different rules'')
          else accept_reload s version (cat_previous s) digest)
       else if version \<in> set (dict_keys (cat_indexes s))
         then refuse_reload s version digest (ValueError ''catalog version is retained; use rollback explicitly'')
       else (case dict_get (cat_digests s) version of
          Some accepted \<Rightarrow>
            (if accepted \<noteq> digest
             then refuse_reload s version digest
               (ValueError ''catalog version was previously accepted with different rules'')
             else accept_reload (s\<lparr>cat_indexes := [(previous, serving), (version, candidate)],
                 cat_previous := Some previous, cat_current := version\<rparr>) version (Some previous) digest)
        | None \<Rightarrow>
            (if int (length (cat_digests s)) \<ge> cat_limit s
             then refuse_reload s version digest
               (ValueError ''catalog version tombstone capacity is exhausted; refusing reload'')
             else accept_reload (s\<lparr>cat_indexes := [(previous, serving), (version, candidate)],
                 cat_digests := dict_set (cat_digests s) version digest,
                 cat_previous := Some previous, cat_current := version\<rparr>) version (Some previous) digest))))"

definition rollback :: "'d catalog_state \<Rightarrow> 'd reload_receipt res \<times> 'd catalog_state" where
  "rollback s = (case cat_previous s of
     None \<Rightarrow> (Inl (LookupError ''catalog rollback requires a retained previous version''), s)
   | Some previous \<Rightarrow>
       (let current = cat_current s; t = s\<lparr>cat_current := previous, cat_previous := Some current\<rparr> in
        case (dict_get (cat_indexes s) previous, dict_get (cat_indexes s) current, dict_get (cat_digests s) previous) of
          (Some ixp, Some ixc, Some digest) \<Rightarrow>
            accept_reload (t\<lparr>cat_indexes := dict_set [(previous, ixp)] current ixc\<rparr>) previous (Some current) digest
        | _ \<Rightarrow> (Inl (KeyError ''index''), t)))"

definition index_for :: "'d catalog_state \<Rightarrow> string \<Rightarrow> rule_index res" where
  "index_for s version = (case dict_get (cat_indexes s) version of
     None \<Rightarrow> Inl (LookupError ''catalog version is not replayable'') | Some ix \<Rightarrow> Inr ix)"

section \<open>Lookup is a scan of the catalogue\<close>

text \<open>What a lookup means: the rules of the catalogue that apply to the type and that the signal triggers.\<close>

definition observed_only :: "catalog_rule list \<Rightarrow> bool" where
  "observed_only rules = list_all (\<lambda>r. list_all (ends_with ''.observed'') (triggers r)) rules"

definition rule_triggered ::
  "signal_registry option \<Rightarrow> catalog_rule list \<Rightarrow> string option \<Rightarrow> catalog_rule \<Rightarrow> bool" where
  "rule_triggered signals rules signal r = list_ex (\<lambda>t. t = ''*'' \<or> (case signals of
     Some types \<Rightarrow> t \<in> set (resolve_signal types signal)
   | None \<Rightarrow> signal = Some t \<or> observed_only rules)) (triggers r)"

definition rule_applies ::
  "signal_registry option \<Rightarrow> catalog_rule list \<Rightarrow> string \<Rightarrow> string option \<Rightarrow> string option \<Rightarrow> catalog_rule \<Rightarrow>
     bool" where
  "rule_applies signals rules resource signal object r =
     (py_strip (case object of None \<Rightarrow> resource | Some ob \<Rightarrow> (if ob = [] then resource else py_strip ob))
        \<in> set (applied_types r) \<and> rule_triggered signals rules signal r)"

lemma dict_or_set: "dict_or (dict_set d k v) j w = (if j = k then v else dict_or d j w)"
  by (simp add: dict_or_def)

lemma fold_append_get:
  "distinct ts \<Longrightarrow> dict_or (fold (\<lambda>t d. dict_set d t (dict_or d t [] @ [x])) ts d) k [] =
     dict_or d k [] @ (if k \<in> set ts then [x] else [])"
  by (induction ts arbitrary: d) (auto simp: dict_or_set)

lemma fold_append_set:
  "set (dict_or (fold (\<lambda>t d. dict_set d t (dict_or d t [] @ [x])) ts d) k []) =
     set (dict_or d k []) \<union> (if k \<in> set ts then {x} else {})"
  by (induction ts arbitrary: d) (auto simp: dict_or_set)

lemma fold_append_keys:
  "set (dict_keys (fold (\<lambda>t d. dict_set d t (dict_or d t [] @ [x])) ts d)) = set (dict_keys d) \<union> set ts"
  by (induction ts arbitrary: d) (auto simp del: set_map)

lemma add_rule_simps [simp]:
  "ix_by_id (add_rule r ix) = dict_set (ix_by_id ix) (cr_id r) r"
  "dict_or (ix_by_type (add_rule r ix)) k [] =
     dict_or (ix_by_type ix) k [] @ (if k \<in> set (applied_types r) then [r] else [])"
  "set (dict_or (ix_by_signal (add_rule r ix)) k []) =
     set (dict_or (ix_by_signal ix) k []) \<union> (if k \<in> set (triggers r) then {cr_id r} else {})"
  "set (dict_keys (ix_by_signal (add_rule r ix))) = set (dict_keys (ix_by_signal ix)) \<union> set (triggers r)"
  "ix_signals (add_rule r ix) = ix_signals ix"
  by (simp_all add: add_rule_def fold_append_get fold_append_set fold_append_keys del: set_map)

lemma group_rules_facts:
  assumes "group_rules rules ix = Inr ix'"
  shows "dict_or (ix_by_type ix') k [] = dict_or (ix_by_type ix) k [] @ filter (\<lambda>r. k \<in> set (applied_types r)) rules"
    and "set (dict_or (ix_by_signal ix') k []) =
           set (dict_or (ix_by_signal ix) k []) \<union> cr_id ` {r \<in> set rules. k \<in> set (triggers r)}"
    and "set (dict_keys (ix_by_signal ix')) = set (dict_keys (ix_by_signal ix)) \<union> (\<Union>r\<in>set rules. set (triggers r))"
    and "ix_signals ix' = ix_signals ix"
    and "distinct (map cr_id rules) \<and> (\<forall>r\<in>set rules. dict_get (ix_by_id ix) (cr_id r) = None)"
    and "dict_get (ix_by_id ix') = dict_get (ix_by_id ix) ++ map_of (map (\<lambda>r. (cr_id r, r)) rules)"
proof -
  have "dict_or (ix_by_type ix') k [] = dict_or (ix_by_type ix) k [] @ filter (\<lambda>r. k \<in> set (applied_types r)) rules
    \<and> set (dict_or (ix_by_signal ix') k []) =
           set (dict_or (ix_by_signal ix) k []) \<union> cr_id ` {r \<in> set rules. k \<in> set (triggers r)}
    \<and> set (dict_keys (ix_by_signal ix')) = set (dict_keys (ix_by_signal ix)) \<union> (\<Union>r\<in>set rules. set (triggers r))
    \<and> ix_signals ix' = ix_signals ix
    \<and> distinct (map cr_id rules) \<and> (\<forall>r\<in>set rules. dict_get (ix_by_id ix) (cr_id r) = None)
    \<and> dict_get (ix_by_id ix') = dict_get (ix_by_id ix) ++ map_of (map (\<lambda>r. (cr_id r, r)) rules)"
    using assms
  proof (induction rules arbitrary: ix)
    case (Cons r rs)
    from Cons.prems have n: "dict_get (ix_by_id ix) (cr_id r) = None"
      and g: "group_rules rs (add_rule r ix) = Inr ix'"
      by (auto split: if_splits)
    note IH = Cons.IH [OF g]
    have fresh: "\<forall>q\<in>set rs. cr_id q \<noteq> cr_id r \<and> dict_get (ix_by_id ix) (cr_id q) = None"
      using IH by (auto split: if_splits)
    have m: "dict_get (ix_by_id (add_rule r ix)) = (dict_get (ix_by_id ix))(cr_id r \<mapsto> r)"
      by (auto simp: fun_eq_iff)
    have nn: "map_of (map (\<lambda>r. (cr_id r, r)) rs) (cr_id r) = None"
      using fresh by (auto simp: map_of_eq_None_iff)
    have nin: "cr_id r \<notin> set (map cr_id rs)" using fresh by force
    show ?case
    proof (intro conjI)
      show "dict_get (ix_by_id ix') = dict_get (ix_by_id ix) ++ map_of (map (\<lambda>r. (cr_id r, r)) (r # rs))"
        using IH m nn by (auto simp: fun_eq_iff map_add_def split: option.splits)
    qed (use IH fresh n nin in \<open>auto simp del: set_map\<close>)
  qed auto
  then show "dict_or (ix_by_type ix') k [] = dict_or (ix_by_type ix) k [] @ filter (\<lambda>r. k \<in> set (applied_types r)) rules"
    and "set (dict_or (ix_by_signal ix') k []) =
           set (dict_or (ix_by_signal ix) k []) \<union> cr_id ` {r \<in> set rules. k \<in> set (triggers r)}"
    and "set (dict_keys (ix_by_signal ix')) = set (dict_keys (ix_by_signal ix)) \<union> (\<Union>r\<in>set rules. set (triggers r))"
    and "ix_signals ix' = ix_signals ix"
    and "distinct (map cr_id rules) \<and> (\<forall>r\<in>set rules. dict_get (ix_by_id ix) (cr_id r) = None)"
    and "dict_get (ix_by_id ix') = dict_get (ix_by_id ix) ++ map_of (map (\<lambda>r. (cr_id r, r)) rules)"
    by blast+
qed

lemma dict_or_map: "f [] = [] \<Longrightarrow> dict_or (map (\<lambda>(t, v). (t, f v)) d) k [] = f (dict_or d k [])"
  by (auto simp: dict_or_def map_of_map split: option.splits)

lemma build_index_facts:
  assumes "build_index signals rules = Inr ix"
  shows "rules_for_type ix t = sort_key severity_order_key (filter (\<lambda>r. py_strip t \<in> set (applied_types r)) rules)"
    and "set (dict_or (ix_by_signal ix) k []) = cr_id ` {r \<in> set rules. k \<in> set (triggers r)}"
    and "set (dict_keys (ix_by_signal ix)) = (\<Union>r\<in>set rules. set (triggers r))"
    and "ix_signals ix = signals" and "distinct (map cr_id rules)"
    and "dict_get (ix_by_id ix) = map_of (map (\<lambda>r. (cr_id r, r)) rules)"
proof -
  let ?e = "\<lparr>ix_by_type = [], ix_by_signal = [], ix_by_id = [], ix_signals = signals\<rparr> :: rule_index"
  obtain ix0 where g: "group_rules rules ?e = Inr ix0"
    and ix: "ix = ix0\<lparr>ix_by_type := map (\<lambda>(t, rs). (t, sort_key severity_order_key rs)) (ix_by_type ix0)\<rparr>"
    using assms by (auto simp: build_index_def bind_res_Inr)
  note f = group_rules_facts [OF g]
  show "rules_for_type ix t = sort_key severity_order_key (filter (\<lambda>r. py_strip t \<in> set (applied_types r)) rules)"
    by (simp add: rules_for_type_def ix dict_or_map f(1)) (simp add: dict_or_def)
  show "set (dict_or (ix_by_signal ix) k []) = cr_id ` {r \<in> set rules. k \<in> set (triggers r)}"
    by (simp add: ix f(2)) (simp add: dict_or_def)
  show "set (dict_keys (ix_by_signal ix)) = (\<Union>r\<in>set rules. set (triggers r))"
    using f(3) by (simp add: ix del: set_map)
  show "ix_signals ix = signals" by (simp add: ix f(4))
  show "distinct (map cr_id rules)" using f(5) by simp
  show "dict_get (ix_by_id ix) = map_of (map (\<lambda>r. (cr_id r, r)) rules)" by (simp add: ix f(6))
qed

lemma same_id: "distinct (map cr_id rules) \<Longrightarrow> r \<in> set rules \<Longrightarrow> q \<in> set rules \<Longrightarrow> cr_id r = cr_id q \<Longrightarrow> r = q"
  by (auto simp: distinct_map inj_on_def)

lemma triggers_nonempty [simp]: "triggers r \<noteq> []"
  by (simp add: triggers_def)

lemma star_not_observed: "\<not> ends_with ''.observed'' ''*''"
  by code_simp

lemma rule_allowed:
  assumes b: "build_index signals rules = Inr ix" and r: "r \<in> set rules"
  shows "cr_id r \<in> set (dict_or (ix_by_signal ix) ''*'' [] @
           concat (map (\<lambda>t. dict_or (ix_by_signal ix) t []) (resolved_signals ix signal))) \<longleftrightarrow>
         rule_triggered signals rules signal r"
proof -
  note f = build_index_facts [OF b]
  have mem: "cr_id r \<in> set (dict_or (ix_by_signal ix) k []) \<longleftrightarrow> k \<in> set (triggers r)" for k
    using f(2) [of k] same_id [OF f(5) r] r by auto
  have res: "t \<in> set (resolved_signals ix signal) \<longleftrightarrow> (case signals of
     Some types \<Rightarrow> t \<in> set (resolve_signal types signal)
   | None \<Rightarrow> signal = Some t \<or> observed_only rules)" if t: "t \<in> set (triggers r)" "t \<noteq> ''*''" for t
  proof (cases signals)
    case None
    let ?keys = "dict_keys (ix_by_signal ix)"
    have obs: "observed_only rules \<longleftrightarrow> list_all (ends_with ''.observed'') ?keys"
      by (simp add: observed_only_def list_all_iff f(3) del: set_map)
    have k: "t \<in> set ?keys" "?keys \<noteq> []" using f(3) t r by (auto simp del: set_map)
    have st: "observed_only rules \<Longrightarrow> ''*'' \<notin> set ?keys"
      using star_not_observed by (auto simp: obs list_all_iff simp del: set_map)
    show ?thesis
      using k obs st by (auto simp: resolved_signals_def f(4) None Let_def split: option.splits simp del: set_map)
  qed (simp add: resolved_signals_def f(4))
  have "cr_id r \<in> set (dict_or (ix_by_signal ix) ''*'' [] @
           concat (map (\<lambda>t. dict_or (ix_by_signal ix) t []) (resolved_signals ix signal))) \<longleftrightarrow>
        ''*'' \<in> set (triggers r) \<or> (\<exists>t \<in> set (resolved_signals ix signal). t \<in> set (triggers r))"
    by (simp add: mem)
  also have "\<dots> \<longleftrightarrow> rule_triggered signals rules signal r"
    using res by (auto simp: rule_triggered_def list_ex_iff)
  finally show ?thesis .
qed

text \<open>
  C19: An index lookup returns what a scan of the whole catalogue would: the rules that
  apply to the type and that the signal triggers, highest severity first and then by rule
  id.
\<close>

theorem lookup_is_linear_scan:
  assumes "build_index signals rules = Inr ix"
  shows "rules_for_signal ix resource signal object =
    sort_key severity_order_key (filter (rule_applies signals rules resource signal object) rules)"
proof -
  let ?key = "case object of None \<Rightarrow> resource | Some ob \<Rightarrow> if ob = [] then resource else py_strip ob"
  have "rules_for_signal ix resource signal object = sort_key severity_order_key
      (filter (rule_triggered signals rules signal) (filter (\<lambda>r. py_strip ?key \<in> set (applied_types r)) rules))"
    unfolding rules_for_signal_def Let_def build_index_facts(1) [OF assms] filter_sort
    by (rule arg_cong [where f = "sort_key _"], rule filter_cong [OF refl])
      (rule rule_allowed [OF assms], simp)
  then show ?thesis
    by (simp add: rule_applies_def [abs_def] conj_commute)
qed

section \<open>Versions are immutable\<close>

inductive catalog_step ::
  "(catalog_rule list \<Rightarrow> 'd) \<Rightarrow> 'd catalog_state \<Rightarrow> 'd catalog_state \<Rightarrow> bool" for h :: "catalog_rule list \<Rightarrow> 'd" where
  reloaded: "reload h version rules s = (r, t) \<Longrightarrow> catalog_step h s t"
| rolled_back: "rollback s = (r, t) \<Longrightarrow> catalog_step h s t"

definition catalog_start :: "(catalog_rule list \<Rightarrow> 'd) \<Rightarrow> 'd catalog_state \<Rightarrow> bool" where
  "catalog_start h s = (\<exists>version rules signals limit. catalog_init h version rules signals limit = Inr s)"

text \<open>
  The retained versions are the current one and its predecessor, each has an index built from rules whose
  digest is on record, and no more versions are on record than the limit allows.
\<close>

definition index_recorded :: "(catalog_rule list \<Rightarrow> 'd) \<Rightarrow> 'd catalog_state \<Rightarrow> string \<Rightarrow> rule_index \<Rightarrow> bool" where
  "index_recorded h s v ix =
     (\<exists>rules. build_index (cat_signals s) rules = Inr ix \<and> dict_get (cat_digests s) v = Some (rules_digest h rules))"

definition catalog_ok :: "(catalog_rule list \<Rightarrow> 'd) \<Rightarrow> 'd catalog_state \<Rightarrow> bool" where
  "catalog_ok h s =
     (set (dict_keys (cat_indexes s)) = set (retained_versions s) \<and> distinct (retained_versions s) \<and>
      (\<forall>v ix. dict_get (cat_indexes s) v = Some ix \<longrightarrow> index_recorded h s v ix) \<and>
      int (length (cat_digests s)) \<le> cat_limit s)"

lemma length_dict_set: "dict_get d k = None \<Longrightarrow> length (dict_set d k v) = Suc (length d)"
  by (induction d) auto

lemma retained_index:
  "catalog_ok h s \<Longrightarrow> v \<in> set (retained_versions s) \<Longrightarrow> \<exists>ix. dict_get (cat_indexes s) v = Some ix"
  by (metis catalog_ok_def map_of_eq_None_iff not_None_eq image_set)

text \<open>What a transition may do: leave dispatch alone, serve a new version, or swap the two retained ones.\<close>

definition version_served ::
  "(catalog_rule list \<Rightarrow> 'd) \<Rightarrow> string \<Rightarrow> catalog_rule list \<Rightarrow> 'd catalog_state \<Rightarrow> 'd catalog_state \<Rightarrow> bool" where
  "version_served h version rules s t = (\<exists>candidate serving digests c.
     build_index (cat_signals s) rules = Inr candidate \<and>
     dict_get (cat_indexes s) (cat_current s) = Some serving \<and> version \<noteq> cat_current s \<and>
     version \<notin> set (dict_keys (cat_indexes s)) \<and>
     (dict_get (cat_digests s) version = Some (rules_digest h rules) \<and> digests = cat_digests s \<or>
      dict_get (cat_digests s) version = None \<and> int (length (cat_digests s)) < cat_limit s \<and>
        digests = dict_set (cat_digests s) version (rules_digest h rules)) \<and>
     t = s\<lparr>cat_indexes := [(cat_current s, serving), (version, candidate)], cat_digests := digests,
       cat_previous := Some (cat_current s), cat_current := version, cat_receipt := c\<rparr>)"

lemma refuse_reload_state: "refuse_reload s version digest e = (r, t) \<Longrightarrow> \<exists>c. t = s\<lparr>cat_receipt := c\<rparr>"
  by (auto simp: refuse_reload_def)

lemma accept_reload_state: "accept_reload s version previous digest = (r, t) \<Longrightarrow> \<exists>c. t = s\<lparr>cat_receipt := c\<rparr>"
  by (auto simp: accept_reload_def Let_def)

lemma receipt_self: "\<exists>c. s = s\<lparr>cat_receipt := c\<rparr>"
  by (rule exI [of _ "cat_receipt s"]) simp

lemma reload_cases:
  assumes "reload h version rules s = (r, t)"
  shows "(\<exists>c. t = s\<lparr>cat_receipt := c\<rparr>) \<or> version_served h version rules s t"
proof (cases "build_index (cat_signals s) rules")
  case Inl
  with assms receipt_self [of s] show ?thesis
    by (auto simp: reload_def Let_def dest: refuse_reload_state split: if_splits)
next
  case (Inr candidate)
  show ?thesis
  proof (cases "dict_get (cat_indexes s) (cat_current s)")
    case None
    with assms Inr have "t = s" by (auto simp: reload_def Let_def split: if_splits)
    then show ?thesis using receipt_self by blast
  next
    case (Some serving)
    let ?s = "s\<lparr>cat_indexes := [(cat_current s, serving), (version, candidate)],
        cat_previous := Some (cat_current s), cat_current := version\<rparr>"
    let ?d = "rules_digest h rules"
    consider (kept) "\<exists>c. t = s\<lparr>cat_receipt := c\<rparr>"
      | (known) "version \<noteq> cat_current s" "version \<notin> set (dict_keys (cat_indexes s))"
          "dict_get (cat_digests s) version = Some ?d"
          "accept_reload ?s version (Some (cat_current s)) ?d = (r, t)"
      | (fresh) "version \<noteq> cat_current s" "version \<notin> set (dict_keys (cat_indexes s))"
          "dict_get (cat_digests s) version = None" "int (length (cat_digests s)) < cat_limit s"
          "accept_reload (s\<lparr>cat_indexes := [(cat_current s, serving), (version, candidate)],
            cat_digests := dict_set (cat_digests s) version ?d, cat_previous := Some (cat_current s),
            cat_current := version\<rparr>) version (Some (cat_current s)) ?d = (r, t)"
    proof (cases "py_strip version = [] \<or> version = cat_current s \<or> version \<in> set (dict_keys (cat_indexes s))")
      case True
      with receipt_self [of s] assms Inr Some kept show ?thesis
        by (auto simp: reload_def Let_def simp del: set_map dest!: refuse_reload_state accept_reload_state split: if_splits)
    next
      case False
      show ?thesis
      proof (cases "dict_get (cat_digests s) version")
        case None
        with False assms Inr Some kept fresh show ?thesis
          by (cases "int (length (cat_digests s)) \<ge> cat_limit s")
            (auto simp: reload_def Let_def simp del: set_map dest: refuse_reload_state)
      next
        case (Some accepted)
        with False assms Inr \<open>dict_get (cat_indexes s) (cat_current s) = Some serving\<close> kept known show ?thesis
          by (cases "accepted = ?d") (auto simp: reload_def Let_def simp del: set_map dest: refuse_reload_state)
      qed
    qed
    then show ?thesis
    proof cases
      case known
      from accept_reload_state [OF known(4)] obtain c where "t = ?s\<lparr>cat_receipt := c\<rparr>" ..
      then have "version_served h version rules s t"
        unfolding version_served_def using known Inr Some
        by (intro exI [of _ candidate] exI [of _ serving] exI [of _ "cat_digests s"] exI [of _ c]) (simp del: set_map)
      then show ?thesis ..
    next
      case fresh
      from accept_reload_state [OF fresh(5)]
      obtain c where "t = s\<lparr>cat_indexes := [(cat_current s, serving), (version, candidate)],
        cat_digests := dict_set (cat_digests s) version ?d, cat_previous := Some (cat_current s),
        cat_current := version, cat_receipt := c\<rparr>" by auto
      then have "version_served h version rules s t"
        unfolding version_served_def using fresh Inr Some
        by (intro exI [of _ candidate] exI [of _ serving] exI [of _ "dict_set (cat_digests s) version ?d"] exI [of _ c])
          (simp del: set_map)
      then show ?thesis ..
    qed simp
  qed
qed

lemma rollback_cases:
  assumes "rollback s = (r, t)" and "catalog_ok h s"
  obtains (kept) "t = s" "cat_previous s = None" "r = Inl (LookupError ''catalog rollback requires a retained previous version'')"
  | (swapped) previous ixp ixc receipt where "cat_previous s = Some previous" "previous \<noteq> cat_current s"
      "dict_get (cat_indexes s) previous = Some ixp" "dict_get (cat_indexes s) (cat_current s) = Some ixc"
      "r = Inr receipt"
      "t = s\<lparr>cat_current := previous, cat_previous := Some (cat_current s),
        cat_indexes := [(previous, ixp), (cat_current s, ixc)], cat_receipt := receipt\<rparr>"
proof (cases "cat_previous s")
  case None
  with assms that(1) show ?thesis by (simp add: rollback_def)
next
  case (Some previous)
  have ret: "retained_versions s = [cat_current s, previous]" by (simp add: retained_versions_def Some)
  obtain ixp where ixp: "dict_get (cat_indexes s) previous = Some ixp"
    using retained_index [OF assms(2), of previous] ret by auto
  obtain ixc where ixc: "dict_get (cat_indexes s) (cat_current s) = Some ixc"
    using retained_index [OF assms(2), of "cat_current s"] ret by auto
  have ne: "previous \<noteq> cat_current s" using assms(2) ret by (auto simp: catalog_ok_def)
  obtain d where d: "dict_get (cat_digests s) previous = Some d"
    using assms(2) ixp unfolding catalog_ok_def index_recorded_def by blast
  show ?thesis
    using assms(1) Some ixp ixc d ne that(2)
    by (auto simp: rollback_def accept_reload_def Let_def)
qed

lemma catalog_ok_start: "catalog_start h s \<Longrightarrow> catalog_ok h s"
  by (auto simp: catalog_start_def catalog_init_def bind_res_Inr catalog_ok_def index_recorded_def retained_versions_def
    split: if_splits)

lemma catalog_step_digests:
  assumes "catalog_step h s t" and "catalog_ok h s"
  shows "cat_signals t = cat_signals s"
    and "dict_get (cat_digests s) v = Some d \<Longrightarrow> dict_get (cat_digests t) v = Some d"
  using assms
  by (auto simp: version_served_def elim!: catalog_step.cases dest!: reload_cases elim!: rollback_cases simp del: set_map)

lemma catalog_ok_step: "catalog_ok h s \<Longrightarrow> catalog_step h s t \<Longrightarrow> catalog_ok h t"
proof (erule catalog_step.cases)
  fix version rules s0 r t0
  assume ok: "catalog_ok h s" and eq: "s = s0" "t = t0" and r: "reload h version rules s0 = (r, t0)"
  from reload_cases [OF r] show "catalog_ok h t"
  proof
    assume "\<exists>c. t0 = s0\<lparr>cat_receipt := c\<rparr>"
    then obtain c where t: "t = s\<lparr>cat_receipt := c\<rparr>" unfolding eq ..
    then have "retained_versions t = retained_versions s" by (simp add: retained_versions_def)
    then show ?thesis using ok t by (simp add: catalog_ok_def index_recorded_def)
  next
    assume "version_served h version rules s0 t0"
    then obtain candidate serving digests c where served:
      "build_index (cat_signals s) rules = Inr candidate" "dict_get (cat_indexes s) (cat_current s) = Some serving"
      "version \<noteq> cat_current s" and digests: "(dict_get (cat_digests s) version = Some (rules_digest h rules) \<and> digests = cat_digests s \<or>
      dict_get (cat_digests s) version = None \<and> int (length (cat_digests s)) < cat_limit s \<and>
        digests = dict_set (cat_digests s) version (rules_digest h rules))"
      and t: "t = s\<lparr>cat_indexes := [(cat_current s, serving), (version, candidate)], cat_digests := digests,
       cat_previous := Some (cat_current s), cat_current := version, cat_receipt := c\<rparr>"
      unfolding version_served_def eq by blast
    have "index_recorded h s (cat_current s) serving" using ok served(2) by (simp add: catalog_ok_def)
    then have "index_recorded h t (cat_current s) serving" "index_recorded h t version candidate"
      using served digests by (auto simp: index_recorded_def t)
    then show ?thesis
      using ok served(3) digests by (auto simp: catalog_ok_def retained_versions_def length_dict_set t)
  qed
next
  fix s0 r t0
  assume ok: "catalog_ok h s" and eq: "s = s0" "t = t0" and r: "rollback s0 = (r, t0)"
  from r ok [unfolded eq] show "catalog_ok h t"
  proof (cases rule: rollback_cases)
    case kept
    then show ?thesis using ok eq by simp
  next
    case (swapped previous ixp ixc receipt)
    have "index_recorded h s previous ixp" "index_recorded h s (cat_current s) ixc"
      using ok swapped eq by (auto simp: catalog_ok_def)
    then have "index_recorded h t previous ixp" "index_recorded h t (cat_current s) ixc"
      using swapped eq by (auto simp: index_recorded_def)
    then show ?thesis
      using ok eq swapped by (auto simp: catalog_ok_def retained_versions_def)
  qed
qed

interpretation cat: safe_system "catalog_start h" "catalog_step h" "catalog_ok h"
  for h by unfold_locales (rule catalog_ok_start, assumption, rule catalog_ok_step)

lemma catalog_steps_digests:
  assumes "(catalog_step h)\<^sup>*\<^sup>* s t" and "catalog_ok h s" and "dict_get (cat_digests s) v = Some d"
  shows "cat_signals t = cat_signals s \<and> dict_get (cat_digests t) v = Some d \<and> catalog_ok h t"
  using assms
  by (induction rule: rtranclp_induct) (auto dest: catalog_step_digests catalog_ok_step)

text \<open>The rules behind a digest are determined up to their order, and the order does not matter.\<close>

lemma same_digest_same_answers:
  assumes "inj h" and "rules_digest h rules = rules_digest h rules'"
    and "build_index signals rules = Inr ix" and "build_index signals rules' = Inr ix'"
  shows "rules_for_signal ix resource signal object = rules_for_signal ix' resource signal object"
proof -
  have "sort_key cr_id rules = sort_key cr_id rules'"
    using assms(1,2) by (auto simp: rules_digest_def inj_def)
  then have m: "mset rules = mset rules'" by (metis mset_sort)
  then have st: "set rules = set rules'" by (metis set_mset_mset)
  then have ob: "observed_only rules = observed_only rules'" by (simp only: observed_only_def list_all_iff)
  have app: "rule_applies signals rules resource signal object = rule_applies signals rules' resource signal object"
    unfolding rule_applies_def [abs_def] rule_triggered_def [abs_def] ob by (rule refl)
  let ?P = "rule_applies signals rules' resource signal object"
  have inj: "inj_on severity_order_key (set (filter ?P rules'))"
    using build_index_facts(5) [OF assms(4)] by (auto simp: inj_on_def severity_order_key_def distinct_map)
  have "sort_key severity_order_key (filter ?P rules') = sort_key severity_order_key (filter ?P rules)"
    by (rule sort_key_inj_key_eq) (use m inj in simp_all)
  then show ?thesis
    by (simp add: lookup_is_linear_scan [OF assms(3)] lookup_is_linear_scan [OF assms(4)] app)
qed

text \<open>
  C20: A catalogue version never changes its meaning: whatever reloads (accepted or refused)
  and rollbacks happen in between, a version that can still be replayed answers every lookup
  as it did before.
\<close>

theorem catalog_replay_is_stable:
  assumes "inj h" and "reachable (catalog_start h) (catalog_step h) s" and "(catalog_step h)\<^sup>*\<^sup>* s t"
    and "index_for s version = Inr ix" and "index_for t version = Inr ix'"
  shows "rules_for_signal ix' resource signal object = rules_for_signal ix resource signal object"
proof -
  have ok: "catalog_ok h s" using assms(2) by (rule cat.reachable_inv)
  have "dict_get (cat_indexes s) version = Some ix" "dict_get (cat_indexes t) version = Some ix'"
    using assms(4,5) by (auto simp: index_for_def split: option.splits)
  then obtain rules where r: "build_index (cat_signals s) rules = Inr ix"
      "dict_get (cat_digests s) version = Some (rules_digest h rules)"
    using ok unfolding catalog_ok_def index_recorded_def by blast
  note t = catalog_steps_digests [OF assms(3) ok r(2)]
  then obtain rules' where "build_index (cat_signals t) rules' = Inr ix'"
      "rules_digest h rules' = rules_digest h rules"
    using \<open>dict_get (cat_indexes t) version = Some ix'\<close> by (fastforce simp: catalog_ok_def index_recorded_def)
  with t r(1) assms(1) show ?thesis by (metis same_digest_same_answers)
qed

text \<open>A reload that raises, or a receipt that is not accepted, leaves dispatch as it was.\<close>

lemma refused_reload_keeps_dispatch:
  assumes "reload h version rules s = (Inl e, t)"
  shows "t = s\<lparr>cat_receipt := cat_receipt t\<rparr> \<and> (cat_receipt t \<noteq> cat_receipt s \<longrightarrow> \<not> rr_accepted (cat_receipt t))"
  using assms
  by (auto simp: reload_def refuse_reload_def accept_reload_def Let_def split: if_splits sum.splits option.splits)

text \<open>Two rollbacks in a row serve what was served before, from the same two indexes.\<close>

theorem rollback_twice:
  assumes "reachable (catalog_start h) (catalog_step h) s" and "cat_previous s \<noteq> None"
  shows "\<exists>r r' t u. rollback s = (Inr r, t) \<and> current_index t = index_for s (the (cat_previous s)) \<and>
    rollback t = (Inr r', u) \<and> cat_current u = cat_current s \<and> cat_previous u = cat_previous s \<and>
    cat_digests u = cat_digests s \<and> (\<forall>v. index_for u v = index_for s v)"
proof -
  have ok: "catalog_ok h s" using assms(1) by (rule cat.reachable_inv)
  obtain r t where t: "rollback s = (r, t)" by fastforce
  then have okt: "catalog_ok h t" using ok by (blast intro: catalog_ok_step rolled_back)
  obtain r' u where u: "rollback t = (r', u)" by fastforce
  from t ok show ?thesis
  proof (cases rule: rollback_cases)
    case kept
    with assms(2) show ?thesis by simp
  next
    case (swapped previous ixp ixc receipt)
    have keys: "set (dict_keys (cat_indexes s)) = {cat_current s, previous}"
      using ok swapped(1) by (simp add: catalog_ok_def retained_versions_def)
    have look: "dict_get (cat_indexes s) v = (if v = cat_current s then Some ixc else if v = previous then Some ixp else None)" for v
    proof (cases "v = cat_current s \<or> v = previous")
      case False
      then have "v \<notin> set (dict_keys (cat_indexes s))" using keys by blast
      then show ?thesis using False by (simp add: map_of_eq_None_iff)
    qed (use swapped in auto)
    from u okt show ?thesis
    proof (cases rule: rollback_cases)
      case kept
      with swapped show ?thesis by simp
    next
      case (swapped previous' ixp' ixc' receipt')
      with \<open>r = Inr receipt\<close> t u look \<open>cat_previous s = Some previous\<close> \<open>previous \<noteq> cat_current s\<close>
        \<open>t = _\<close> show ?thesis by (auto simp: index_for_def current_index_def)
    qed
  qed
qed

section \<open>Witnesses\<close>

definition demo_rule :: "string \<Rightarrow> rule_severity \<Rightarrow> string list \<Rightarrow> catalog_rule" where
  "demo_rule i sev signals = \<lparr>cr_id = i, cr_version = ''1'', cr_severity = sev, cr_resource_type = ''vm'',
     cr_target_object = None, cr_applies_to = [], cr_triggered_by = signals, cr_remediates = ''ops.tag'',
     cr_alternatives = [], cr_parameters = [], cr_cost = None, cr_rest = JNull\<rparr>"

definition demo_rules :: "catalog_rule list" where
  "demo_rules = [demo_rule ''a'' SEV_LOW [], demo_rule ''b'' SEV_HIGH [''vm.changed''],
     demo_rule ''c'' SEV_HIGH [''vm.deleted'']]"

lemma Inr_projr: "\<not> isl x \<Longrightarrow> x = Inr (projr x)"
  by (cases x) auto

theorem lookup_is_linear_scan_witness:
  "(\<exists>ix. build_index None demo_rules = Inr ix \<and>
     rules_for_signal ix ''vm'' (Some ''vm.changed'') None =
       sort_key severity_order_key (filter (rule_applies None demo_rules ''vm'' (Some ''vm.changed'') None) demo_rules)) \<and>
   map cr_id (sort_key severity_order_key
     (filter (rule_applies None demo_rules ''vm'' (Some ''vm.changed'') None) demo_rules)) = [''b'', ''a'']"
proof
  have "\<not> isl (build_index None demo_rules)" by code_simp
  then have b: "build_index None demo_rules = Inr (projr (build_index None demo_rules))" by (rule Inr_projr)
  show "\<exists>ix. build_index None demo_rules = Inr ix \<and>
     rules_for_signal ix ''vm'' (Some ''vm.changed'') None =
       sort_key severity_order_key (filter (rule_applies None demo_rules ''vm'' (Some ''vm.changed'') None) demo_rules)"
    using b lookup_is_linear_scan [OF b] by blast
  show "map cr_id (sort_key severity_order_key
     (filter (rule_applies None demo_rules ''vm'' (Some ''vm.changed'') None) demo_rules)) = [''b'', ''a'']"
    by code_simp
qed

text \<open>A run: version 1, a reload to version 2 with one rule less, a refused reload and a rollback.\<close>

definition demo_start :: "catalog_rule list catalog_state" where
  "demo_start = projr (catalog_init id ''1'' demo_rules None 4)"

definition demo_reloaded :: "catalog_rule list catalog_state" where
  "demo_reloaded = snd (reload id ''2'' (tl demo_rules) demo_start)"

definition demo_refused :: "catalog_rule list catalog_state" where
  "demo_refused = snd (reload id ''1'' (tl demo_rules) demo_reloaded)"

definition demo_rolled_back :: "catalog_rule list catalog_state" where
  "demo_rolled_back = snd (rollback demo_refused)"

lemma demo_start_ok: "catalog_start id demo_start"
proof -
  have "\<not> isl (catalog_init id ''1'' demo_rules None 4)" by code_simp
  then show ?thesis unfolding catalog_start_def demo_start_def using Inr_projr by blast
qed

lemma demo_run: "(catalog_step id)\<^sup>*\<^sup>* demo_start demo_rolled_back"
proof -
  have "catalog_step id demo_start demo_reloaded" "catalog_step id demo_reloaded demo_refused"
    "catalog_step id demo_refused demo_rolled_back"
    by (auto simp: demo_reloaded_def demo_refused_def demo_rolled_back_def intro: catalog_step.intros prod.collapse [symmetric])
  then show ?thesis by (meson converse_rtranclp_into_rtranclp r_into_rtranclp)
qed

theorem catalog_replay_is_stable_witness:
  "\<exists>ix ix'. index_for demo_start ''1'' = Inr ix \<and> index_for demo_rolled_back ''1'' = Inr ix' \<and>
     rules_for_signal ix' ''vm'' None None = rules_for_signal ix ''vm'' None None \<and>
     map cr_id (rules_for_signal ix ''vm'' None None) = [''a''] \<and> cat_previous demo_rolled_back = Some ''2''"
proof -
  have i: "index_for demo_start ''1'' = Inr (projr (index_for demo_start ''1''))"
    by (rule Inr_projr) code_simp
  have j: "index_for demo_rolled_back ''1'' = Inr (projr (index_for demo_rolled_back ''1''))"
    by (rule Inr_projr) code_simp
  have r: "reachable (catalog_start id) (catalog_step id) demo_start"
    by (rule reachable_start) (rule demo_start_ok)
  have "map cr_id (rules_for_signal (projr (index_for demo_start ''1'')) ''vm'' None None) = [''a'']"
    "cat_previous demo_rolled_back = Some ''2''" by code_simp+
  with catalog_replay_is_stable [OF inj_on_id r demo_run i j] i j
  show ?thesis by (intro exI conjI)
qed

end
