(* ===== verification/EventIngest.thy ===== *)
theory EventIngest
  imports Contracts IncidentModel
begin

text \<open>
  The entry of the control loop: normalisation and deduplication (\<open>core/event_ingest/__init__.py\<close>) and the
  correlation of events into incidents (\<open>core/event_ingest/correlator.py\<close>). The schema validation, the UUID of
  a name and the rendering of the clock are parameters; a time is a number of seconds.
\<close>

section \<open>Events\<close>

record event =
  ev_id :: string
  ev_key :: string
  ev_correlation :: "string option"
  ev_source :: string
  ev_type :: string
  ev_resource :: "string option"
  ev_payload :: "(string, json) dict"
  ev_detected :: rat
  ev_ingested :: rat
  ev_correlates :: bool
  ev_mode :: mode

datatype raw_event = Typed event | Untyped "(string, json) dict"

text \<open>\<open>ie_validate\<close> is the validator followed by \<open>Event.model_validate\<close>.\<close>

record ingest_env =
  ie_validate :: "(string, json) dict \<Rightarrow> event res"
  ie_uuid5 :: "string \<Rightarrow> string"
  ie_now :: string
  ie_str :: "json \<Rightarrow> string"

section \<open>Operator proposals\<close>

text \<open>\<open>str(UUID(value)) == value\<close>: the canonical form of a UUID, 8-4-4-4-12 lower-case hexadecimal digits.\<close>

definition canonical_uuid :: "string \<Rightarrow> bool" where
  "canonical_uuid v =
     (length v = 36 \<and> list_all (\<lambda>i. if i \<in> {8, 13, 18, 23} then v ! i = CHR ''-'' else hex_lower (v ! i)) [0..<36])"

fun valid_incident_id :: "json \<Rightarrow> bool" where
  "valid_incident_id (JStr v) = (py_strip v \<noteq> [] \<and> canonical_uuid v)"
| "valid_incident_id _ = False"

fun non_empty_str :: "json option \<Rightarrow> string option" where
  "non_empty_str (Some (JStr s)) = (if s = [] then None else Some s)"
| "non_empty_str _ = None"

fun valid_attempt :: "json option \<Rightarrow> bool" where
  "valid_attempt None = True"
| "valid_attempt (Some (JInt i)) = (1 \<le> i)"
| "valid_attempt (Some _) = False"

definition workflow_fields :: "string list" where
  "workflow_fields = [''process_id'', ''step_id'', ''proposal_ref'']"

fun valid_workflow_action :: "string \<Rightarrow> json \<Rightarrow> bool" where
  "valid_workflow_action key (JObj d) =
     (list_all (\<lambda>f. f \<in> set (dict_keys d)) workflow_fields \<and>
      list_all (\<lambda>k. k \<in> set (workflow_fields @ [''attempt''])) (dict_keys d) \<and>
      list_all (\<lambda>f. non_empty_str (dict_get d f) \<noteq> None) workflow_fields \<and>
      valid_attempt (dict_get d ''attempt'') \<and> dict_get d ''proposal_ref'' = Some (JStr key))"
| "valid_workflow_action key _ = False"

text \<open>\<open>value.get(name)\<close> where an absent key and a null value are the same.\<close>

definition non_null :: "(string, json) dict \<Rightarrow> string \<Rightarrow> json option" where
  "non_null d k = (case dict_get d k of None \<Rightarrow> None | Some j \<Rightarrow> (if j = JNull then None else Some j))"

definition or_null :: "json option \<Rightarrow> json" where
  "or_null j = (case j of None \<Rightarrow> JNull | Some v \<Rightarrow> v)"

definition mapping_entry :: "string \<Rightarrow> json option \<Rightarrow> (string, json) dict" where
  "mapping_entry k j = (case as_mapping j of None \<Rightarrow> [] | Some d \<Rightarrow> [(k, JObj d)])"

definition proposal_resource :: "(string, json) dict \<Rightarrow> json" where
  "proposal_resource v = (case dict_get v ''resource_id'' of
     Some (JStr r) \<Rightarrow> (if py_strip r = [] then JNull else JStr r) | _ \<Rightarrow> JNull)"

definition wrapped_proposal ::
  "ingest_env \<Rightarrow> (string, json) dict \<Rightarrow> string \<Rightarrow> string \<Rightarrow> string \<Rightarrow> (string, json) dict \<Rightarrow> (string, json) dict" where
  "wrapped_proposal E v key initiator action params =
     (let event_id = ie_uuid5 E (''fdai.operator-request://'' @ key); resource = proposal_resource v in
      [(''schema_version'', JStr ''1.0.0''), (''event_id'', JStr event_id), (''idempotency_key'', JStr key),
       (''correlation_id'', JStr (text_or (ie_str E) v ''correlation_id'' event_id)),
       (''source'', JStr ''operator_console''), (''event_type'', JStr ''operator_request''),
       (''resource_ref'', resource),
       (''payload'', JObj
         ([(''operator_request'', JObj [(''initiator_principal'', JStr initiator), (''action_type'', JStr action),
             (''params'', JObj params)])] @
          mapping_entry ''workflow_action'' (dict_get v ''workflow_action'') @
          mapping_entry ''scheduled_task'' (dict_get v ''scheduled_task'') @
          (case non_null v ''incident_id'' of None \<Rightarrow> [] | Some i \<Rightarrow> [(''incident'', JObj [(''incident_id'', i)])]) @
          [(''resource'', JObj [(''resource_id'', resource), (''resource_type'', or_null (dict_get v ''resource_type'')),
             (''props'', JObj [])])])),
       (''detected_at'', JStr (ie_now E)), (''ingested_at'', JStr (ie_now E)), (''mode'', JStr ''shadow'')])"

definition normalize_operator_proposal :: "ingest_env \<Rightarrow> (string, json) dict \<Rightarrow> (string, json) dict" where
  "normalize_operator_proposal E v =
     (if dict_get v ''event_type'' \<noteq> Some (JStr ''operator_request'') \<or>
         dict_get v ''operator_initiated'' \<noteq> Some (JBool True)
      then v
      else (case (non_empty_str (dict_get v ''idempotency_key''), non_empty_str (dict_get v ''initiator_principal''),
          non_empty_str (dict_get v ''action_type''), as_mapping (dict_get v ''params'')) of
        (Some key, Some initiator, Some action, Some params) \<Rightarrow>
          (if (case non_null v ''workflow_action'' of None \<Rightarrow> False | Some w \<Rightarrow> \<not> valid_workflow_action key w) then v
           else if (case non_null v ''incident_id'' of None \<Rightarrow> False | Some i \<Rightarrow> \<not> valid_incident_id i) then v
           else wrapped_proposal E v key initiator action params)
      | _ \<Rightarrow> v))"

section \<open>Deduplication\<close>

record event_ingest =
  ing_max :: int
  ing_seen :: "string list"

definition event_ingest_init :: "int \<Rightarrow> event_ingest res" where
  "event_ingest_init max_entries =
     (if max_entries < 1 then Inl (ValueError ''max_entries MUST be >= 1'')
      else Inr \<lparr>ing_max = max_entries, ing_seen = []\<rparr>)"

definition coerce :: "ingest_env \<Rightarrow> raw_event \<Rightarrow> event res" where
  "coerce E raw = (case raw of Typed ev \<Rightarrow> Inr ev | Untyped v \<Rightarrow> ie_validate E (normalize_operator_proposal E v))"

text \<open>A duplicate gives \<open>None\<close>; the oldest key leaves a full cache.\<close>

definition ingest :: "ingest_env \<Rightarrow> raw_event \<Rightarrow> event_ingest \<Rightarrow> event option res \<times> event_ingest" where
  "ingest E raw s = (case coerce E raw of
     Inl e \<Rightarrow> (Inl e, s)
   | Inr ev \<Rightarrow>
       (if ev_key ev \<in> set (ing_seen s) then (Inr None, s)
        else let seen = ing_seen s @ [ev_key ev]
             in (Inr (Some ev), s\<lparr>ing_seen := if int (length seen) > ing_max s then tl seen else seen\<rparr>)))"

text \<open>The keys of the events that a sequence of deliveries accepts, in order, and the state after it.\<close>

fun ingest_all :: "ingest_env \<Rightarrow> raw_event list \<Rightarrow> event_ingest \<Rightarrow> string list \<times> event_ingest" where
  "ingest_all E [] s = ([], s)"
| "ingest_all E (raw # raws) s = (case ingest E raw s of
     (Inr (Some ev), t) \<Rightarrow> (let (keys, u) = ingest_all E raws t in (ev_key ev # keys, u))
   | (_, t) \<Rightarrow> ingest_all E raws t)"

section \<open>Correlation\<close>

record correlation_result =
  cor_correlated :: bool
  cor_incident :: "string option"
  cor_keys :: "string list"
  cor_bucket :: "int option"
  cor_reason :: string

definition correlator_init :: "rat \<Rightarrow> rat res" where
  "correlator_init window = (if window \<le> 0 then Inl (ValueError ''window_seconds MUST be > 0'') else Inr window)"

text \<open>\<open>resource.get("resource_id") or resource.get("resource_ref")\<close>, when it is a text that is not blank.\<close>

definition resource_ref_from_payload :: "(string, json) dict \<Rightarrow> string option" where
  "resource_ref_from_payload payload = (case as_mapping (dict_get payload ''resource'') of
     None \<Rightarrow> None
   | Some r \<Rightarrow>
       (let ref = (case dict_get r ''resource_id'' of
              Some j \<Rightarrow> (if json_truthy j then Some j else dict_get r ''resource_ref'')
            | None \<Rightarrow> dict_get r ''resource_ref'')
        in (case ref of Some (JStr s) \<Rightarrow> some_stripped s | _ \<Rightarrow> None)))"

definition anchor_keys :: "event \<Rightarrow> string list" where
  "anchor_keys ev =
     (case ev_correlation ev of None \<Rightarrow> [] | Some c \<Rightarrow>
        (if py_strip c = [] then [] else [''corr:'' @ py_strip c])) @
     (case (case ev_resource ev of None \<Rightarrow> None | Some r \<Rightarrow> some_stripped r) of
        Some r \<Rightarrow> [''res:'' @ r]
      | None \<Rightarrow> (case resource_ref_from_payload (ev_payload ev) of None \<Rightarrow> [] | Some r \<Rightarrow> [''res:'' @ r]))"

definition uncorrelated :: "string \<Rightarrow> correlation_result" where
  "uncorrelated reason = \<lparr>cor_correlated = False, cor_incident = None, cor_keys = [], cor_bucket = None,
     cor_reason = reason\<rparr>"

definition window_bucket :: "rat \<Rightarrow> event \<Rightarrow> int" where
  "window_bucket window ev = \<lfloor>ev_detected ev / window\<rfloor>"

definition correlate :: "incident_env \<Rightarrow> rat \<Rightarrow> event \<Rightarrow> correlation_result res" where
  "correlate I window ev =
     (if \<not> ev_correlates ev then Inr (uncorrelated ''incident_correlation_disabled'')
      else if anchor_keys ev = [] then Inr (uncorrelated ''no_correlation_anchor'')
      else let bucket = window_bucket window ev; keys = anchor_keys ev @ [''window:'' @ str_int bucket]
           in bind_res (incident_id_for I keys) (\<lambda>i. Inr
             \<lparr>cor_correlated = True, cor_incident = Some i, cor_keys = keys, cor_bucket = Some bucket,
              cor_reason = ''correlated''\<rparr>))"

section \<open>The window of the duplicate check\<close>

definition latest :: "nat \<Rightarrow> 'a list \<Rightarrow> 'a list" where
  "latest n xs = drop (length xs - n) xs"

lemma latest_snoc: "latest n (latest n xs @ [x]) = latest n (xs @ [x])"
  by (cases "length xs \<le> n") (auto simp: latest_def Suc_diff_le)

lemma latest_full: "length (latest n xs @ [x]) > n \<Longrightarrow> 0 < n \<Longrightarrow> latest n (xs @ [x]) = tl (latest n xs @ [x])"
  by (auto simp: latest_def tl_drop drop_Suc Suc_diff_le simp flip: drop_Suc)

lemma latest_room: "length (latest n xs @ [x]) \<le> n \<Longrightarrow> latest n (xs @ [x]) = latest n xs @ [x]"
  by (auto simp: latest_def)

text \<open>Equal entries are more than \<open>n\<close> places apart.\<close>

definition spaced :: "nat \<Rightarrow> 'a list \<Rightarrow> bool" where
  "spaced n xs = (\<forall>i j. i < j \<longrightarrow> j < length xs \<longrightarrow> xs ! i = xs ! j \<longrightarrow> n < j - i)"

lemma spaced_snoc:
  assumes "spaced n xs" and "x \<notin> set (latest n xs)"
  shows "spaced n (xs @ [x])"
  unfolding spaced_def
proof (intro allI impI)
  fix i j assume ij: "i < j" "j < length (xs @ [x])" "(xs @ [x]) ! i = (xs @ [x]) ! j"
  show "n < j - i"
  proof (cases "j < length xs")
    case True
    then show ?thesis using assms(1) ij by (auto simp: spaced_def nth_append)
  next
    case False
    then have j: "j = length xs" and i: "i < length xs" "xs ! i = x" using ij by (auto simp: nth_append)
    show ?thesis
    proof (rule ccontr)
      assume "\<not> n < j - i"
      then have "length xs - n \<le> i" using j by simp
      then have "xs ! i \<in> set (latest n xs)"
        using i(1) by (auto simp: latest_def in_set_conv_nth intro!: exI [of _ "i - (length xs - n)"])
      with assms(2) i(2) show False by simp
    qed
  qed
qed

lemma ingest_accepts:
  assumes "ingest E raw s = (Inr (Some ev), t)" and "ing_seen s = latest n past" and "ing_max s = int n" and "0 < n"
  shows "ing_seen t = latest n (past @ [ev_key ev]) \<and> ev_key ev \<notin> set (latest n past) \<and> ing_max t = int n"
  using assms latest_full [of n past "ev_key ev"] latest_room [of n past "ev_key ev"]
  by (auto simp: ingest_def Let_def split: sum.splits if_splits)

lemma ingest_refuses: "ingest E raw s = (r, t) \<Longrightarrow> (\<forall>ev. r \<noteq> Inr (Some ev)) \<Longrightarrow> t = s"
  by (auto simp: ingest_def Let_def split: sum.splits if_splits)

lemma ingest_all_log:
  "ingest_all E raws s = (keys, t) \<Longrightarrow> ing_seen s = latest n past \<Longrightarrow> ing_max s = int n \<Longrightarrow> 0 < n \<Longrightarrow>
     spaced n past \<Longrightarrow> ing_seen t = latest n (past @ keys) \<and> spaced n (past @ keys) \<and> ing_max t = int n"
proof (induction raws arbitrary: s past keys)
  case (Cons raw raws)
  obtain r u where r: "ingest E raw s = (r, u)" by fastforce
  show ?case
  proof (cases "\<exists>ev. r = Inr (Some ev)")
    case True
    then obtain ev keys' where ev: "r = Inr (Some ev)" and k: "keys = ev_key ev # keys'" "ingest_all E raws u = (keys', t)"
      using Cons.prems(1) r by (auto split: prod.splits)
    note a = ingest_accepts [OF r [unfolded ev] Cons.prems(2-4)]
    then have "spaced n (past @ [ev_key ev])" using Cons.prems(5) by (blast intro: spaced_snoc)
    with Cons.IH [OF k(2), of "past @ [ev_key ev]"] a Cons.prems(4) show ?thesis by (simp add: k(1))
  next
    case False
    then have "u = s" using ingest_refuses [OF r] by blast
    moreover have "ingest_all E raws u = (keys, t)"
      using Cons.prems(1) r False by (auto split: sum.splits option.splits)
    ultimately show ?thesis using Cons by blast
  qed
qed simp

text \<open>
  C17: Deduplication over any sequence of deliveries: at least \<open>max_entries\<close>
  other events are accepted between two acceptances of one key, a key among the latest
  \<open>max_entries\<close> accepted ones is refused, and the cache holds exactly these
  keys.
\<close>

theorem dedupe_window:
  assumes "event_ingest_init max_entries = Inr s" and "ingest_all E raws s = (keys, t)"
  shows "(\<forall>i j. i < j \<longrightarrow> j < length keys \<longrightarrow> keys ! i = keys ! j \<longrightarrow> max_entries < int (j - i)) \<and>
    ing_seen t = latest (nat max_entries) keys \<and>
    (\<forall>raw ev. coerce E raw = Inr ev \<longrightarrow>
       (fst (ingest E raw t) = Inr None \<longleftrightarrow> ev_key ev \<in> set (latest (nat max_entries) keys)))"
proof -
  have s: "ing_seen s = latest (nat max_entries) []" "ing_max s = int (nat max_entries)" "0 < nat max_entries"
    using assms(1) by (auto simp: event_ingest_init_def latest_def split: if_splits)
  have "spaced (nat max_entries) ([] :: string list)" by (simp add: spaced_def)
  from ingest_all_log [OF assms(2) s this]
  have t: "ing_seen t = latest (nat max_entries) keys" and sp: "spaced (nat max_entries) keys" by auto
  have "max_entries < int (j - i)" if "i < j" "j < length keys" "keys ! i = keys ! j" for i j
    using sp that s(3) by (fastforce simp: spaced_def)
  moreover have "fst (ingest E raw t) = Inr None \<longleftrightarrow> ev_key ev \<in> set (latest (nat max_entries) keys)"
    if "coerce E raw = Inr ev" for raw ev
    using that by (simp add: ingest_def t Let_def)
  ultimately show ?thesis using t by blast
qed

section \<open>A proposal is wrapped once, in shadow\<close>

lemma normalize_cases:
  "normalize_operator_proposal E v = v \<or>
     (\<exists>key initiator action params. non_empty_str (dict_get v ''idempotency_key'') = Some key \<and>
        normalize_operator_proposal E v = wrapped_proposal E v key initiator action params)"
  by (auto simp: normalize_operator_proposal_def split: option.splits)

text \<open>Normalising twice is normalising once, and what is wrapped asks for shadow mode only.\<close>

lemma normalize_idempotent:
  "normalize_operator_proposal E (normalize_operator_proposal E v) = normalize_operator_proposal E v"
proof -
  have "normalize_operator_proposal E (wrapped_proposal E v key initiator action params) =
      wrapped_proposal E v key initiator action params" for key initiator action params
    by (simp add: normalize_operator_proposal_def wrapped_proposal_def Let_def)
  then show ?thesis using normalize_cases [of E v] by (metis (full_types))
qed

lemma normalized_shadow:
  "normalize_operator_proposal E v \<noteq> v \<Longrightarrow>
     dict_get (normalize_operator_proposal E v) ''mode'' = Some (JStr ''shadow'') \<and>
     dict_get (normalize_operator_proposal E v) ''idempotency_key'' = dict_get v ''idempotency_key''"
  using normalize_cases [of E v]
  by (auto simp: wrapped_proposal_def Let_def elim!: non_empty_str.elims split: if_splits)

section \<open>Correlation is by anchors and window\<close>

fun digits_to_nat :: "nat \<Rightarrow> string \<Rightarrow> nat" where
  "digits_to_nat n [] = n"
| "digits_to_nat n (c # cs) = digits_to_nat (10 * n + (code_point c - 48)) cs"

lemma digits_to_nat_append: "digits_to_nat n (xs @ ys) = digits_to_nat (digits_to_nat n xs) ys"
  by (induction xs arbitrary: n) auto

lemma code_digit: "d < 10 \<Longrightarrow> code_point (digit_char d) = 48 + d"
  by (simp add: code_point_def digit_char_def)

lemma digits_str_nat: "digits_to_nat 0 (str_nat n) = n"
proof (induction n rule: str_nat.induct)
  case (1 n)
  then show ?case
    by (subst str_nat.simps) (auto simp: digits_to_nat_append code_digit)
qed

lemma str_nat_inject [simp]: "str_nat m = str_nat n \<longleftrightarrow> m = n"
  by (metis digits_str_nat)

lemma str_nat_no_minus: "CHR ''-'' \<notin> set (str_nat n)"
proof (induction n rule: str_nat.induct)
  case (1 n)
  have "digit_char d \<noteq> CHR ''-''" if "d < 10" for d
    using code_digit [OF that] by (auto simp: code_point_def)
  with 1 show ?case by (subst str_nat.simps) (auto dest: sym)
qed

lemma str_int_inject: "str_int i = str_int j \<longleftrightarrow> i = j"
proof -
  have "hd (str_nat n) \<noteq> CHR ''-''" for n
    using str_nat_no_minus [of n] by (metis hd_in_set str_nat_nonempty)
  then have "str_nat n \<noteq> CHR ''-'' # s" for n s by (metis list.sel(1))
  from this this [symmetric] show ?thesis by (auto simp: str_int_def)
qed

lemma join_bar_Cons: "join_bar (k # ks) = k @ (if ks = [] then [] else bar # join_bar ks)"
  by (cases ks) auto

lemma bar_split:
  "x @ u = y @ v \<Longrightarrow> bar \<notin> set x \<Longrightarrow> bar \<notin> set y \<Longrightarrow> (u = [] \<or> hd u = bar) \<Longrightarrow> (v = [] \<or> hd v = bar) \<Longrightarrow> x = y \<and> u = v"
proof (induction x arbitrary: y)
  case Nil
  then show ?case by (cases y) auto
next
  case (Cons a x)
  then show ?case by (cases y) auto
qed

lemma join_bar_inject:
  "\<forall>k\<in>set xs. k \<noteq> [] \<and> bar \<notin> set k \<Longrightarrow> \<forall>k\<in>set ys. k \<noteq> [] \<and> bar \<notin> set k \<Longrightarrow> join_bar xs = join_bar ys \<Longrightarrow>
     xs = ys"
proof (induction xs arbitrary: ys)
  case Nil
  then show ?case by (cases ys) (auto simp: join_bar_Cons)
next
  case (Cons x xs)
  then obtain y ys' where ys: "ys = y # ys'" by (cases ys) (auto simp: join_bar_Cons)
  let ?tail = "\<lambda>zs. if zs = [] then [] else bar # join_bar zs"
  have e: "x @ ?tail xs = y @ ?tail ys'" using Cons.prems(3) by (simp only: ys join_bar_Cons)
  have "x = y \<and> ?tail xs = ?tail ys'"
    by (rule bar_split [OF e]) (use Cons.prems ys in auto)
  with Cons.IH [of ys'] Cons.prems ys show ?case by (auto split: if_splits)
qed

lemma py_strip_tail:
  assumes "q \<noteq> []" and "\<not> py_space (last q)" and "p \<noteq> []" and "\<not> py_space (hd p)"
  shows "py_strip (p @ q) = p @ q"
proof -
  obtain c p' where p: "p = c # p'" "\<not> py_space c" using assms(3,4) by (cases p) auto
  obtain q' d where q: "q = q' @ [d]" "\<not> py_space d" using assms(1,2) by (cases q rule: rev_cases) auto
  show ?thesis by (simp add: py_strip_def p q)
qed

lemma py_strip_last: "py_strip s \<noteq> [] \<Longrightarrow> \<not> py_space (last (py_strip s))"
  unfolding py_strip_def by (simp add: last_rev hd_dropWhile)

lemma digit_not_space: "d < 10 \<Longrightarrow> \<not> py_space (digit_char d)"
  by (simp add: py_space_def Let_def code_digit)

lemma str_int_last: "\<not> py_space (last (str_int i))"
proof -
  have "\<not> py_space (last (str_nat n))" for n
    by (subst str_nat.simps) (simp add: digit_not_space)
  then show ?thesis by (simp add: str_int_def)
qed

definition anchored :: "string option \<Rightarrow> string option \<Rightarrow> string list" where
  "anchored a b = (case a of None \<Rightarrow> [] | Some c \<Rightarrow> [''corr:'' @ c]) @ (case b of None \<Rightarrow> [] | Some r \<Rightarrow> [''res:'' @ r])"

definition tight :: "string option \<Rightarrow> bool" where
  "tight a = (\<forall>c. a = Some c \<longrightarrow> c \<noteq> [] \<and> \<not> py_space (last c))"

lemma tight_stripped: "tight (some_stripped s)"
  by (simp add: tight_def some_stripped_def py_strip_last)

lemma tight_None [simp]: "tight None"
  by (simp add: tight_def)

lemma anchor_keys_anchored: "\<exists>a b. anchor_keys ev = anchored a b \<and> tight a \<and> tight b"
proof -
  let ?a = "case ev_correlation ev of None \<Rightarrow> None | Some c \<Rightarrow> some_stripped c"
  let ?r = "case ev_resource ev of None \<Rightarrow> None | Some r \<Rightarrow> some_stripped r"
  let ?b = "case ?r of None \<Rightarrow> resource_ref_from_payload (ev_payload ev) | Some r \<Rightarrow> Some r"
  have "anchor_keys ev = anchored ?a ?b"
    by (auto simp: anchor_keys_def anchored_def some_stripped_def split: option.splits)
  moreover have "tight ?a" by (cases "ev_correlation ev") (simp_all add: tight_stripped)
  moreover have "tight ?r" by (cases "ev_resource ev") (simp_all add: tight_stripped)
  moreover have "tight (resource_ref_from_payload (ev_payload ev))"
    by (auto simp: resource_ref_from_payload_def Let_def tight_stripped split: option.splits json.splits)
  ultimately have "anchor_keys ev = anchored ?a ?b \<and> tight ?a \<and> tight ?b" by (cases ?r) auto
  then show ?thesis by blast
qed

text \<open>Anchors and the window's key are canonical as they are, so the canonical list has the same elements.\<close>

lemma canonical_anchored:
  assumes "canonical_incident_correlation_keys (anchored a b @ [''window:'' @ str_int n]) = Inr ks"
    and "tight a" and "tight b"
  shows "set ks = set (anchored a b) \<union> {''window:'' @ str_int n} \<and> (\<forall>k\<in>set ks. k \<noteq> [] \<and> bar \<notin> set k)"
proof -
  have space: "\<not> py_space (CHR ''c'')" "\<not> py_space (CHR ''r'')" "\<not> py_space (CHR ''w'')" by code_simp+
  let ?keys = "anchored a b @ [''window:'' @ str_int n]"
  have "py_strip k = k \<and> k \<noteq> []" if "k \<in> set ?keys" for k
    using that assms(2,3) space py_strip_tail [of "str_int n" "''window:''"] str_int_last [of n]
      py_strip_tail [of _ "''corr:''"] py_strip_tail [of _ "''res:''"]
    by (auto simp: anchored_def tight_def split: option.splits)
  then have m: "filter (\<lambda>k. k \<noteq> []) (map py_strip ?keys) = ?keys" by (simp add: map_idI cong: map_cong)
  have ks: "ks = sort (remdups ?keys)" "\<forall>k\<in>set ks. bar \<notin> set k"
    using assms(1) unfolding canonical_incident_correlation_keys_def m by (auto simp: Let_def list_ex_iff split: if_splits)
  have "set ks = set ?keys" by (simp only: ks(1) set_sort set_remdups)
  with ks(2) show ?thesis by (auto simp: anchored_def split: option.splits)
qed

abbreviation windowed_keys :: "string option \<Rightarrow> string option \<Rightarrow> int \<Rightarrow> string set" where
  "windowed_keys a b n \<equiv> set (anchored a b) \<union> {''window:'' @ str_int n}"

lemma windowed_parts:
  "{k \<in> windowed_keys a b n. hd k = CHR ''c''} = (case a of None \<Rightarrow> {} | Some c \<Rightarrow> {''corr:'' @ c})"
  "{k \<in> windowed_keys a b n. hd k = CHR ''r''} = (case b of None \<Rightarrow> {} | Some r \<Rightarrow> {''res:'' @ r})"
  "{k \<in> windowed_keys a b n. hd k = CHR ''w''} = {''window:'' @ str_int n}"
  by (auto simp: anchored_def split: option.splits)

lemma anchored_inject:
  assumes "windowed_keys a b n = windowed_keys a' b' n'"
  shows "a = a' \<and> b = b' \<and> n = n'"
proof -
  have "(case a of None \<Rightarrow> {} | Some c \<Rightarrow> {''corr:'' @ c}) = (case a' of None \<Rightarrow> {} | Some c \<Rightarrow> {''corr:'' @ c})"
    using windowed_parts(1) [of a b n, unfolded assms] by (simp only: windowed_parts(1))
  moreover have "(case b of None \<Rightarrow> {} | Some r \<Rightarrow> {''res:'' @ r}) = (case b' of None \<Rightarrow> {} | Some r \<Rightarrow> {''res:'' @ r})"
    using windowed_parts(2) [of a b n, unfolded assms] by (simp only: windowed_parts(2))
  moreover have "{''window:'' @ str_int n} = {''window:'' @ str_int n'}"
    using windowed_parts(3) [of a b n, unfolded assms] by (simp only: windowed_parts(3))
  ultimately show ?thesis by (auto simp: str_int_inject split: option.splits)
qed

text \<open>
  C18: Two correlated events are put into the same incident exactly when they carry the same
  anchors and fall into the same window, when the hash behind the incident id has no
  collisions.
\<close>

theorem same_incident_iff:
  assumes "inj (env_uuid5 I)" and "correlate I window e = Inr r" and "correlate I window e' = Inr r'"
    and "cor_correlated r" and "cor_correlated r'"
  shows "cor_incident r = cor_incident r' \<longleftrightarrow> anchor_keys e = anchor_keys e' \<and> window_bucket window e = window_bucket window e'"
proof -
  have inc: "\<exists>ks. canonical_incident_correlation_keys (anchor_keys v @ [''window:'' @ str_int (window_bucket window v)]) = Inr ks
      \<and> cor_incident x = Some (env_uuid5 I (''fdai.incident://'' @ join_bar ks))"
    if "correlate I window v = Inr x" "cor_correlated x" for v x
    using that by (auto simp: correlate_def incident_id_for_def bind_res_Inr uncorrelated_def Let_def split: if_splits)
  obtain ks where ks: "canonical_incident_correlation_keys (anchor_keys e @ [''window:'' @ str_int (window_bucket window e)]) = Inr ks"
      "cor_incident r = Some (env_uuid5 I (''fdai.incident://'' @ join_bar ks))"
    using inc [OF assms(2,4)] by blast
  obtain ks' where ks': "canonical_incident_correlation_keys (anchor_keys e' @ [''window:'' @ str_int (window_bucket window e')]) = Inr ks'"
      "cor_incident r' = Some (env_uuid5 I (''fdai.incident://'' @ join_bar ks'))"
    using inc [OF assms(3,5)] by blast
  obtain a b where ab: "anchor_keys e = anchored a b" "tight a" "tight b" using anchor_keys_anchored by blast
  obtain a' b' where ab': "anchor_keys e' = anchored a' b'" "tight a'" "tight b'" using anchor_keys_anchored by blast
  note c = canonical_anchored [OF ks(1) [unfolded ab(1)] ab(2,3)]
  note c' = canonical_anchored [OF ks'(1) [unfolded ab'(1)] ab'(2,3)]
  have "cor_incident r = cor_incident r' \<longleftrightarrow> join_bar ks = join_bar ks'"
    using assms(1) by (simp add: ks(2) ks'(2) inj_eq)
  also have "\<dots> \<longleftrightarrow> ks = ks'" using join_bar_inject [OF conjunct2 [OF c] conjunct2 [OF c']] by auto
  also have "\<dots> \<longleftrightarrow> anchor_keys e = anchor_keys e' \<and> window_bucket window e = window_bucket window e'"
  proof
    assume "ks = ks'"
    then have "windowed_keys a b (window_bucket window e) = windowed_keys a' b' (window_bucket window e')"
      by (simp only: conjunct1 [OF c, symmetric] conjunct1 [OF c', symmetric])
    from anchored_inject [OF this]
    show "anchor_keys e = anchor_keys e' \<and> window_bucket window e = window_bucket window e'"
      by (simp only: ab(1) ab'(1) simp_thms)
  next
    assume "anchor_keys e = anchor_keys e' \<and> window_bucket window e = window_bucket window e'"
    then show "ks = ks'" using ks(1) ks'(1) by simp
  qed
  finally show ?thesis .
qed

section \<open>Witnesses\<close>

definition sample_event :: "string \<Rightarrow> string \<Rightarrow> rat \<Rightarrow> event" where
  "sample_event key correlation t = \<lparr>ev_id = ''e-'' @ key, ev_key = key, ev_correlation = Some correlation,
     ev_source = ''monitor'', ev_type = ''vm.changed'', ev_resource = Some ''vm-1'', ev_payload = [],
     ev_detected = t, ev_ingested = t, ev_correlates = True, ev_mode = SHADOW\<rparr>"

definition sample_ingest_env :: ingest_env where
  "sample_ingest_env = \<lparr>ie_validate = (\<lambda>_. Inl (ValueError ''schema'')), ie_uuid5 = id, ie_now = ''now'', ie_str = (\<lambda>_. [])\<rparr>"

definition sample_deliveries :: "raw_event list" where
  "sample_deliveries = map (\<lambda>k. Typed (sample_event k ''c'' 0)) [''a'', ''b'', ''a'', ''c'', ''a'']"

theorem dedupe_window_witness:
  "\<exists>s t. event_ingest_init 2 = Inr s \<and> ingest_all sample_ingest_env sample_deliveries s = ([''a'', ''b'', ''c'', ''a''], t) \<and>
     ing_seen t = latest 2 [''a'', ''b'', ''c'', ''a'']"
proof -
  let ?s = "\<lparr>ing_max = 2, ing_seen = []\<rparr>"
  have s: "event_ingest_init 2 = Inr ?s" by (simp add: event_ingest_init_def)
  have r: "ingest_all sample_ingest_env sample_deliveries ?s = ([''a'', ''b'', ''c'', ''a''], \<lparr>ing_max = 2, ing_seen = [''c'', ''a'']\<rparr>)"
    by code_simp
  from s r dedupe_window [OF s r] show ?thesis by auto
qed

definition sample_incident_env :: incident_env where
  "sample_incident_env = \<lparr>env_uuid5 = id, env_isofmt = (\<lambda>_. []), env_sha256 = id\<rparr>"

text \<open>
  The correlator does not pass every event through: one whose anchor holds a bar, or is longer than 1,024
  characters, raises, and the loop ends before any other stage.
\<close>

theorem reserved_anchor_raises:
  "correlate sample_incident_env 60 (sample_event ''k'' ''a|b'' 0) =
     Inl (ValueError ''incident correlation key contains a reserved delimiter'')"
  by code_simp

theorem same_incident_iff_witness:
  "\<exists>r r'. correlate sample_incident_env 60 (sample_event ''k1'' ''c'' 10) = Inr r \<and>
     correlate sample_incident_env 60 (sample_event ''k2'' ''c'' 59) = Inr r' \<and> cor_incident r = cor_incident r'"
proof -
  let ?c = "\<lambda>k t. correlate sample_incident_env 60 (sample_event k ''c'' t)"
  have one: "isl (?c ''k1'' 10) = False \<and> cor_correlated (projr (?c ''k1'' 10))" by code_simp
  have two: "isl (?c ''k2'' 59) = False \<and> cor_correlated (projr (?c ''k2'' 59))" by code_simp
  have eqs: "?c ''k1'' 10 = Inr (projr (?c ''k1'' 10))" "?c ''k2'' 59 = Inr (projr (?c ''k2'' 59))"
    using one two by (simp_all add: sum.expand)
  have "anchor_keys (sample_event ''k1'' ''c'' 10) = anchor_keys (sample_event ''k2'' ''c'' 59)"
    "window_bucket 60 (sample_event ''k1'' ''c'' 10) = window_bucket 60 (sample_event ''k2'' ''c'' 59)"
    by code_simp+
  moreover have "inj (env_uuid5 sample_incident_env)" by (simp add: sample_incident_env_def)
  ultimately show ?thesis
    using same_incident_iff [OF _ eqs conjunct2 [OF one] conjunct2 [OF two]] eqs by blast
qed

end
