(* ===== verification/TierZero.thy ===== *)
theory TierZero
  imports RuleIndex EventIngest
begin

text \<open>
  Routing and the deterministic tier: the trust router (\<open>core/trust_router/__init__.py\<close>), the verdict of tier T0
  (\<open>core/tiers/t0_deterministic/engine.py\<close>, \<open>models.py\<close>) and the replacement of the rule generation in the running
  loop (\<open>core/control_loop/orchestrator.py\<close>). The policy evaluator is a parameter that may raise.
\<close>

section \<open>The trust router\<close>

datatype routing_tier = ROUTE_T0 | ROUTE_T1 | ROUTE_ABSTAIN

record routing_decision =
  rou_tier :: routing_tier
  rou_type :: "string option"
  rou_rules :: "string list"
  rou_reason :: "string option"

fun normalized_resource_type :: "json option \<Rightarrow> string option" where
  "normalized_resource_type (Some (JStr s)) = some_stripped s"
| "normalized_resource_type _ = None"

definition extract_resource_type :: "(string, json) dict \<Rightarrow> string option" where
  "extract_resource_type payload =
     (let nested = (case as_mapping (dict_get payload ''resource'') of
            None \<Rightarrow> None
          | Some r \<Rightarrow> (case normalized_resource_type (dict_get r ''type'') of
                Some t \<Rightarrow> Some t
              | None \<Rightarrow> normalized_resource_type (dict_get r ''resource_type'')))
      in case nested of Some t \<Rightarrow> Some t | None \<Rightarrow> normalized_resource_type (dict_get payload ''resource_type''))"

definition route :: "rule_index \<Rightarrow> event \<Rightarrow> routing_decision" where
  "route ix ev = (case extract_resource_type (ev_payload ev) of
     None \<Rightarrow> \<lparr>rou_tier = ROUTE_ABSTAIN, rou_type = None, rou_rules = [],
       rou_reason = Some ''event_payload_missing_resource_type''\<rparr>
   | Some t \<Rightarrow>
       (let candidates = rules_for_signal ix t (Some (ev_type ev)) None
        in if candidates = []
           then \<lparr>rou_tier = ROUTE_T1, rou_type = Some t, rou_rules = [],
                  rou_reason = Some ''no_rule_matches_resource_and_signal_type''\<rparr>
           else \<lparr>rou_tier = ROUTE_T0, rou_type = Some t, rou_rules = map cr_id candidates, rou_reason = None\<rparr>))"

section \<open>Verdicts\<close>

record rego_receipt =
  rego_path :: string
  rego_opa_version :: string
  rego_parser :: string
  rego_parser_version :: string
  rego_source_digest :: string
  rego_semantic_digest :: string
  rego_input_digest :: string
  rego_denied :: bool
  rego_result_digest :: string

definition rego_receipt_init :: "rego_receipt \<Rightarrow> rego_receipt res" where
  "rego_receipt_init r =
     (if list_ex (\<lambda>v. py_strip v = [])
        [rego_path r, rego_opa_version r, rego_parser r, rego_parser_version r, rego_source_digest r, rego_semantic_digest r,
         rego_input_digest r, rego_result_digest r]
      then Inl (ValueError ''RegoEvaluationReceipt requires boolean denied and non-empty fields'')
      else Inr r)"

record policy_result =
  pr_denied :: bool
  pr_context :: "(string, json) dict"
  pr_receipt :: "rego_receipt option"

type_synonym policy_evaluator = "catalog_rule \<Rightarrow> (string, json) dict \<Rightarrow> policy_result option res"

definition abstain_evaluator :: policy_evaluator where
  "abstain_evaluator rule props = Inr None"

datatype pipeline_stage = L1_EVALUATE | L1_SIMULATE | STAGE_ABSTAIN

record finding =
  fd_id :: string
  fd_rule :: string
  fd_version :: string
  fd_resource :: string
  fd_signal :: string
  fd_severity :: rule_severity
  fd_context :: "(string, json) dict"
  fd_receipt :: "rego_receipt option"

record audit_hint =
  ah_event :: string
  ah_stage :: pipeline_stage
  ah_mode :: mode
  ah_citing :: "string list"
  ah_abstained :: "string list"
  ah_receipts :: "rego_receipt list"
  ah_reason :: "string option"

record verdict =
  vd_findings :: "finding list"
  vd_hint :: "audit_hint option"

definition matched :: "verdict \<Rightarrow> bool" where
  "matched v = (vd_findings v \<noteq> [])"

record t0_engine =
  te_index :: rule_index
  te_evaluator :: policy_evaluator

definition engine_with_rules :: "t0_engine \<Rightarrow> catalog_rule list \<Rightarrow> t0_engine res" where
  "engine_with_rules e rules = bind_res (index_with_rules (te_index e) rules) (\<lambda>ix. Inr (e\<lparr>te_index := ix\<rparr>))"

definition finding_id :: "catalog_rule \<Rightarrow> string \<Rightarrow> string \<Rightarrow> string" where
  "finding_id r resource signal = cr_id r @ ''::'' @ cr_version r @ ''::'' @ resource @ ''::'' @ signal"

definition make_finding :: "string \<Rightarrow> string \<Rightarrow> catalog_rule \<Rightarrow> policy_result \<Rightarrow> finding" where
  "make_finding resource signal r p =
     \<lparr>fd_id = finding_id r resource signal, fd_rule = cr_id r, fd_version = cr_version r, fd_resource = resource,
      fd_signal = signal, fd_severity = cr_severity r, fd_context = pr_context p, fd_receipt = pr_receipt p\<rparr>"

text \<open>The loop over the candidates; the lists grow at their ends.\<close>

record evaluation_state =
  es_findings :: "finding list"
  es_citing :: "string list"
  es_abstained :: "string list"
  es_receipts :: "rego_receipt list"

fun evaluate_candidates ::
  "policy_evaluator \<Rightarrow> (string, json) dict \<Rightarrow> string \<Rightarrow> string \<Rightarrow> catalog_rule list \<Rightarrow> evaluation_state \<Rightarrow>
     evaluation_state" where
  "evaluate_candidates ev props resource signal [] s = s"
| "evaluate_candidates ev props resource signal (r # rs) s =
     (let s = s\<lparr>es_citing := es_citing s @ [cr_id r]\<rparr> in
      case ev r props of
        Inl _ \<Rightarrow> evaluate_candidates ev props resource signal rs (s\<lparr>es_abstained := es_abstained s @ [cr_id r]\<rparr>)
      | Inr None \<Rightarrow> evaluate_candidates ev props resource signal rs (s\<lparr>es_abstained := es_abstained s @ [cr_id r]\<rparr>)
      | Inr (Some p) \<Rightarrow>
          (let s = (case pr_receipt p of None \<Rightarrow> s | Some x \<Rightarrow> s\<lparr>es_receipts := es_receipts s @ [x]\<rparr>)
           in evaluate_candidates ev props resource signal rs
                (if \<not> pr_denied p then s
                 else s\<lparr>es_findings := es_findings s @ [make_finding resource signal r p]\<rparr>)))"

definition finding_order_key :: "finding \<Rightarrow> int \<times> string" where
  "finding_order_key f = (- rule_severity_rank (fd_severity f), fd_rule f)"

definition no_rule_denied :: string where
  "no_rule_denied = ''no_rule_denied''"

definition abstain_reason :: "catalog_rule list \<Rightarrow> string list \<Rightarrow> finding list \<Rightarrow> string option" where
  "abstain_reason candidates abstained findings =
     (if findings \<noteq> [] then None
      else if candidates = [] then Some ''no_rule_matched_resource_type''
      else if length abstained = length candidates then Some ''evaluator_abstained_on_all_candidates''
      else if abstained \<noteq> [] then Some ''evaluator_abstained_on_some_candidates''
      else Some no_rule_denied)"

definition printable_text :: "string \<Rightarrow> bool" where
  "printable_text s = (py_strip s \<noteq> [] \<and> \<not> list_ex (\<lambda>c. code_point c < 32) s)"

definition t0_evaluate ::
  "t0_engine \<Rightarrow> string \<Rightarrow> string \<Rightarrow> string \<Rightarrow> string \<Rightarrow> (string, json) dict \<Rightarrow> string option \<Rightarrow> string option \<Rightarrow>
     verdict res" where
  "t0_evaluate e event_id signal_id resource_id resource_type props signal object = bind_res (first_failure
     [(\<not> printable_text event_id, ''event_id MUST be non-empty printable text''),
      (\<not> printable_text signal_id, ''signal_id MUST be non-empty printable text''),
      (\<not> printable_text resource_id, ''resource_id MUST be non-empty printable text'')]) (\<lambda>_.
     let candidates = rules_for_signal (te_index e) resource_type signal object;
         s = evaluate_candidates (te_evaluator e) props resource_id signal_id candidates
               \<lparr>es_findings = [], es_citing = [], es_abstained = [], es_receipts = []\<rparr>;
         findings = sort_key finding_order_key (es_findings s)
     in Inr \<lparr>vd_findings = findings, vd_hint = Some
          \<lparr>ah_event = event_id, ah_stage = (if findings \<noteq> [] then L1_EVALUATE else STAGE_ABSTAIN), ah_mode = SHADOW,
           ah_citing = es_citing s, ah_abstained = es_abstained s, ah_receipts = es_receipts s,
           ah_reason = abstain_reason candidates (es_abstained s) findings\<rparr>\<rparr>)"

section \<open>Rule generations of the running loop\<close>

text \<open>The router keeps the index it was constructed with; the engine and the rules by id are replaced together.\<close>

record rule_generation =
  gen_router :: rule_index
  gen_engine :: t0_engine
  gen_rules :: "(string, catalog_rule) dict"
  gen_digest :: "string option"
  gen_time :: int

definition replace_rule_generation ::
  "int \<Rightarrow> catalog_rule list \<Rightarrow> string \<Rightarrow> rule_generation \<Rightarrow> unit res \<times> rule_generation" where
  "replace_rule_generation now rules digest s =
     (let by_id = fold (\<lambda>r d. dict_set d (cr_id r) r) rules [] in
      if by_id = [] \<or> length by_id \<noteq> length rules
      then (Inl (ValueError ''Rule generation MUST contain unique non-empty membership''), s)
      else if length digest \<noteq> 64 \<or> \<not> list_all hex_lower digest
      then (Inl (ValueError ''Rule generation digest MUST be lowercase SHA-256''), s)
      else (case engine_with_rules (gen_engine s) rules of
          Inl e \<Rightarrow> (Inl e, s)
        | Inr e \<Rightarrow> (Inr (), s\<lparr>gen_engine := e, gen_rules := by_id, gen_digest := Some digest,
            gen_time := max now (gen_time s + 1)\<rparr>)))"

section \<open>What a verdict says\<close>

definition denies :: "policy_evaluator \<Rightarrow> (string, json) dict \<Rightarrow> catalog_rule \<Rightarrow> bool" where
  "denies ev props r = (case ev r props of Inr (Some p) \<Rightarrow> pr_denied p | _ \<Rightarrow> False)"

definition silent :: "policy_evaluator \<Rightarrow> (string, json) dict \<Rightarrow> catalog_rule \<Rightarrow> bool" where
  "silent ev props r = (case ev r props of Inr (Some p) \<Rightarrow> False | _ \<Rightarrow> True)"

definition finding_of :: "policy_evaluator \<Rightarrow> (string, json) dict \<Rightarrow> string \<Rightarrow> string \<Rightarrow> catalog_rule \<Rightarrow> finding" where
  "finding_of ev props resource signal r = (case ev r props of
     Inr (Some p) \<Rightarrow> make_finding resource signal r p
   | _ \<Rightarrow> make_finding resource signal r \<lparr>pr_denied = False, pr_context = [], pr_receipt = None\<rparr>)"

lemma evaluate_candidates_fields:
  "es_findings (evaluate_candidates ev props resource signal rs s) =
     es_findings s @ map (finding_of ev props resource signal) (filter (denies ev props) rs) \<and>
   es_citing (evaluate_candidates ev props resource signal rs s) = es_citing s @ map cr_id rs \<and>
   es_abstained (evaluate_candidates ev props resource signal rs s) =
     es_abstained s @ map cr_id (filter (silent ev props) rs)"
proof (induction rs arbitrary: s)
  case (Cons r rs)
  then show ?case
    by (cases "ev r props"; cases "projr (ev r props)")
      (auto simp: denies_def silent_def finding_of_def Let_def split: option.splits)
qed simp

lemma finding_of_key: "finding_order_key (finding_of ev props resource signal r) = severity_order_key r"
  by (auto simp: finding_of_def make_finding_def finding_order_key_def severity_order_key_def split: sum.splits option.splits)

lemma findings_sorted:
  assumes "sorted (map severity_order_key rs)"
  shows "sort_key finding_order_key (map (finding_of ev props resource signal) (filter P rs)) =
    map (finding_of ev props resource signal) (filter P rs)"
proof (rule sort_key_id_if_sorted)
  have "map finding_order_key (map (finding_of ev props resource signal) (filter P rs)) =
      map severity_order_key (filter P rs)" (is "?l = _")
    by (simp add: finding_of_key)
  moreover have "sorted (map severity_order_key (filter P rs))" by (rule sorted_filter [OF assms])
  ultimately show "sorted ?l" by (simp only:)
qed

text \<open>
  C14: The verdict of tier T0 on a catalogue: a finding for exactly the rules that apply to
  the signal and that the evaluator says are violated, in the order of severity and rule id;
  every applicable rule is cited; a rule whose evaluation raised or gave nothing is recorded
  as abstained and takes away no other finding; compliance is claimed only when every
  applicable rule was decided and none was violated.
\<close>

theorem verdict_is_catalogue_scan:
  assumes "build_index signals rules = Inr (te_index e)"
    and "t0_evaluate e event_id signal_id resource_id rtype props signal object = Inr v"
  defines "candidates \<equiv> sort_key severity_order_key (filter (rule_applies signals rules rtype signal object) rules)"
  shows "vd_findings v = map (finding_of (te_evaluator e) props resource_id signal_id)
      (filter (denies (te_evaluator e) props) candidates) \<and>
    (\<exists>h. vd_hint v = Some h \<and> ah_mode h = SHADOW \<and> ah_citing h = map cr_id candidates \<and>
       ah_abstained h = map cr_id (filter (silent (te_evaluator e) props) candidates) \<and>
       (ah_stage h = L1_EVALUATE \<longleftrightarrow> (\<exists>r\<in>set candidates. denies (te_evaluator e) props r)) \<and>
       (ah_reason h = Some no_rule_denied \<longleftrightarrow> candidates \<noteq> [] \<and>
          (\<forall>r\<in>set candidates. \<not> denies (te_evaluator e) props r \<and> \<not> silent (te_evaluator e) props r)))"
proof -
  let ?s = "evaluate_candidates (te_evaluator e) props resource_id signal_id candidates
      \<lparr>es_findings = [], es_citing = [], es_abstained = [], es_receipts = []\<rparr>"
  let ?f = "map (finding_of (te_evaluator e) props resource_id signal_id) (filter (denies (te_evaluator e) props) candidates)"
  have cand: "rules_for_signal (te_index e) rtype signal object = candidates"
    unfolding candidates_def by (rule lookup_is_linear_scan [OF assms(1)])
  have f: "es_findings ?s = ?f" "es_citing ?s = map cr_id candidates"
      "es_abstained ?s = map cr_id (filter (silent (te_evaluator e) props) candidates)"
    using evaluate_candidates_fields by simp_all
  have "sort_key finding_order_key ?f = ?f"
    by (rule findings_sorted) (simp add: candidates_def)
  then have v: "v = \<lparr>vd_findings = ?f, vd_hint = Some
      \<lparr>ah_event = event_id, ah_stage = (if ?f \<noteq> [] then L1_EVALUATE else STAGE_ABSTAIN), ah_mode = SHADOW,
       ah_citing = map cr_id candidates, ah_abstained = map cr_id (filter (silent (te_evaluator e) props) candidates),
       ah_receipts = es_receipts ?s,
       ah_reason = abstain_reason candidates (map cr_id (filter (silent (te_evaluator e) props) candidates)) ?f\<rparr>\<rparr>"
    using assms(2) by (simp add: t0_evaluate_def bind_res_Inr cand f Let_def)
  have "?f \<noteq> [] \<longleftrightarrow> (\<exists>r\<in>set candidates. denies (te_evaluator e) props r)"
    by (auto simp: filter_empty_conv)
  moreover have "abstain_reason candidates (map cr_id (filter (silent (te_evaluator e) props) candidates)) ?f =
        Some no_rule_denied \<longleftrightarrow> candidates \<noteq> [] \<and>
          (\<forall>r\<in>set candidates. \<not> denies (te_evaluator e) props r \<and> \<not> silent (te_evaluator e) props r)"
    by (auto simp: abstain_reason_def no_rule_denied_def filter_empty_conv)
  ultimately show ?thesis by (simp add: v)
qed


text \<open>One broken rule silences no other: if its evaluation raises, exactly its own finding is missing.\<close>

definition fails_at :: "string \<Rightarrow> exc \<Rightarrow> policy_evaluator \<Rightarrow> policy_evaluator" where
  "fails_at i x ev = (\<lambda>r props. if cr_id r = i then Inl x else ev r props)"

lemma fails_at_simps:
  "denies (fails_at i x ev) props r \<longleftrightarrow> denies ev props r \<and> cr_id r \<noteq> i"
  "cr_id r \<noteq> i \<Longrightarrow> finding_of (fails_at i x ev) props resource signal r = finding_of ev props resource signal r"
  "fd_rule (finding_of ev props resource signal r) = cr_id r"
  by (simp_all add: denies_def finding_of_def fails_at_def make_finding_def split: sum.splits option.splits)

lemma t0_findings:
  "t0_evaluate e event_id signal_id resource_id rtype props signal object = Inr v \<Longrightarrow>
     vd_findings v = sort_key finding_order_key (map (finding_of (te_evaluator e) props resource_id signal_id)
       (filter (denies (te_evaluator e) props) (rules_for_signal (te_index e) rtype signal object)))"
  by (auto simp: t0_evaluate_def bind_res_Inr Let_def evaluate_candidates_fields)

lemma broken_rule_isolated:
  assumes "t0_evaluate e event_id signal_id resource_id rtype props signal object = Inr v"
    and "t0_evaluate (e\<lparr>te_evaluator := fails_at i x (te_evaluator e)\<rparr>) event_id signal_id resource_id rtype props
      signal object = Inr v'"
  shows "vd_findings v' = filter (\<lambda>f. fd_rule f \<noteq> i) (vd_findings v)"
proof -
  have "map (finding_of (fails_at i x ev) props resource_id signal_id) (filter (denies (fails_at i x ev) props) c) =
      filter (\<lambda>f. fd_rule f \<noteq> i) (map (finding_of ev props resource_id signal_id) (filter (denies ev props) c))" for ev c
    by (induction c) (simp_all add: fails_at_simps)
  then show ?thesis
    unfolding t0_findings [OF assms(1)] t0_findings [OF assms(2)] by (simp add: filter_sort)
qed

section \<open>Routing against the active generation\<close>

text \<open>On one index, the router announces exactly the rules that the engine then cites.\<close>

lemma routed_rules_are_cited:
  assumes "route (te_index e) ev = d" and "rou_tier d = ROUTE_T0" and "rou_type d = Some t"
    and "t0_evaluate e event_id signal_id resource_id t props (Some (ev_type ev)) None = Inr v"
  shows "\<exists>h. vd_hint v = Some h \<and> ah_citing h = rou_rules d"
  using assms
  by (auto simp: route_def t0_evaluate_def bind_res_Inr Let_def evaluate_candidates_fields split: option.splits if_splits)

text \<open>Replacements whose members all belong to the catalogue that the router was given.\<close>

inductive generation_step :: "catalog_rule list \<Rightarrow> rule_generation \<Rightarrow> rule_generation \<Rightarrow> bool" for installed where
  replaced: "set rules \<subseteq> set installed \<Longrightarrow> replace_rule_generation now rules digest s = (r, t) \<Longrightarrow>
    generation_step installed s t"

definition generation_start :: "signal_registry \<Rightarrow> catalog_rule list \<Rightarrow> rule_generation \<Rightarrow> bool" where
  "generation_start types installed s =
     (build_index (Some types) installed = Inr (gen_router s) \<and> te_index (gen_engine s) = gen_router s)"

definition generation_ok :: "signal_registry \<Rightarrow> catalog_rule list \<Rightarrow> rule_generation \<Rightarrow> bool" where
  "generation_ok types installed s =
     (build_index (Some types) installed = Inr (gen_router s) \<and>
      (\<exists>active. set active \<subseteq> set installed \<and> build_index (Some types) active = Inr (te_index (gen_engine s))))"

lemma replace_cases:
  "replace_rule_generation now rules digest s = (r, t) \<Longrightarrow> t = s \<or>
     (build_index (ix_signals (te_index (gen_engine s))) rules = Inr (te_index (gen_engine t)) \<and>
      gen_router t = gen_router s \<and> te_evaluator (gen_engine t) = te_evaluator (gen_engine s) \<and>
      gen_time s < gen_time t \<and> gen_digest t = Some digest)"
  by (auto simp: replace_rule_generation_def engine_with_rules_def index_with_rules_def Let_def bind_res_Inr
      split: if_splits sum.splits)

interpretation gens: safe_system "generation_start types installed" "generation_step installed" "generation_ok types installed"
  for types installed
proof unfold_locales
  show "generation_ok types installed s" if "generation_start types installed s" for s
    using that by (auto simp: generation_start_def generation_ok_def intro!: exI [of _ installed])
  show "generation_ok types installed t" if "generation_ok types installed s" "generation_step installed s t" for s t
    using that(2)
  proof cases
    case (replaced rules now digest r)
    from replace_cases [OF replaced(2)] show ?thesis
    proof
      assume "t = s"
      then show ?thesis using that(1) by simp
    next
      assume t: "build_index (ix_signals (te_index (gen_engine s))) rules = Inr (te_index (gen_engine t)) \<and>
        gen_router t = gen_router s \<and> te_evaluator (gen_engine t) = te_evaluator (gen_engine s) \<and>
        gen_time s < gen_time t \<and> gen_digest t = Some digest"
      have "ix_signals (te_index (gen_engine s)) = Some types"
        using that(1) build_index_facts(4) by (auto simp: generation_ok_def)
      then show ?thesis using that(1) t replaced(1) by (auto simp: generation_ok_def)
    qed
  qed
qed


section \<open>Witnesses\<close>

definition demo_evaluator :: policy_evaluator where
  "demo_evaluator r props =
     (if cr_id r = ''a'' then Inl (ValueError ''broken'')
      else Inr (Some \<lparr>pr_denied = True, pr_context = props, pr_receipt = None\<rparr>))"

definition demo_index :: "signal_registry option \<Rightarrow> catalog_rule list \<Rightarrow> rule_index" where
  "demo_index signals rules = projr (build_index signals rules)"

definition demo_engine :: t0_engine where
  "demo_engine = \<lparr>te_index = demo_index None demo_rules, te_evaluator = demo_evaluator\<rparr>"

lemma demo_engine_built: "build_index None demo_rules = Inr (te_index demo_engine)"
proof -
  have "\<not> isl (build_index None demo_rules)" by code_simp
  then show ?thesis by (simp add: demo_engine_def demo_index_def Inr_projr)
qed

theorem verdict_is_catalogue_scan_witness:
  "\<exists>v h. t0_evaluate demo_engine ''e1'' ''e1'' ''vm-1'' ''vm'' [] (Some ''vm.changed'') None = Inr v \<and>
     map fd_rule (vd_findings v) = [''b''] \<and> vd_hint v = Some h \<and> ah_citing h = [''b'', ''a''] \<and>
     ah_abstained h = [''a''] \<and> ah_mode h = SHADOW"
proof -
  let ?v = "t0_evaluate demo_engine ''e1'' ''e1'' ''vm-1'' ''vm'' [] (Some ''vm.changed'') None"
  have "\<not> isl ?v" by code_simp
  then have v: "?v = Inr (projr ?v)" by (rule Inr_projr)
  let ?c = "sort_key severity_order_key (filter (rule_applies None demo_rules ''vm'' (Some ''vm.changed'') None) demo_rules)"
  have c: "map fd_rule (map (finding_of (te_evaluator demo_engine) [] ''vm-1'' ''e1'')
      (filter (denies (te_evaluator demo_engine) []) ?c)) = [''b'']" "map cr_id ?c = [''b'', ''a'']"
    "map cr_id (filter (silent (te_evaluator demo_engine) []) ?c) = [''a'']" by code_simp+
  note w = verdict_is_catalogue_scan [OF demo_engine_built v]
  from conjunct2 [OF w] obtain h where h: "vd_hint (projr ?v) = Some h" "ah_mode h = SHADOW" "ah_citing h = map cr_id ?c"
      "ah_abstained h = map cr_id (filter (silent (te_evaluator demo_engine) []) ?c)" by blast
  have "map fd_rule (vd_findings (projr ?v)) = [''b'']" by (subst conjunct1 [OF w]) (rule c(1))
  moreover have "ah_citing h = [''b'', ''a'']" "ah_abstained h = [''a'']" by (simp_all only: h(3,4) c(2,3))
  ultimately show ?thesis using v h(1,2) by (intro exI conjI)
qed

definition demo_types :: signal_registry where
  "demo_types = [\<lparr>st_id = ''any.observed'', st_mode = BASELINE, st_patterns = []\<rparr>,
     \<lparr>st_id = ''vm.changed'', st_mode = EXACT, st_patterns = [''vm.*'']\<rparr>]"

definition demo_generation :: rule_generation where
  "demo_generation = \<lparr>gen_router = demo_index (Some demo_types) demo_rules,
     gen_engine = \<lparr>te_index = demo_index (Some demo_types) demo_rules, te_evaluator = demo_evaluator\<rparr>,
     gen_rules = map (\<lambda>r. (cr_id r, r)) demo_rules, gen_digest = None, gen_time = 0\<rparr>"

lemma demo_generation_start: "generation_start demo_types demo_rules demo_generation"
proof -
  have "\<not> isl (build_index (Some demo_types) demo_rules)" by code_simp
  then show ?thesis by (simp add: generation_start_def demo_generation_def demo_index_def Inr_projr)
qed

definition demo_replaced :: "catalog_rule list \<Rightarrow> rule_generation" where
  "demo_replaced rules = snd (replace_rule_generation 5 rules (replicate 64 CHR ''0'') demo_generation)"

definition demo_event :: "string \<Rightarrow> event" where
  "demo_event rtype = (sample_event ''k'' ''c'' 0)\<lparr>ev_payload := [(''resource_type'', JStr rtype)]\<rparr>"


text \<open>
  A replacement that brings a rule the router was not given is not refused, and the rule is then never
  evaluated: its events are routed past tier T0, because the router keeps its old index.
\<close>

theorem new_rule_is_bypassed:
  "\<exists>s t rules ev. generation_start demo_types demo_rules s \<and>
     replace_rule_generation 5 rules (replicate 64 CHR ''0'') s = (Inr (), t) \<and>
     map cr_id (rules_for_signal (te_index (gen_engine t)) ''disk'' (Some (ev_type ev)) None) = [''d''] \<and>
     extract_resource_type (ev_payload ev) = Some ''disk'' \<and> rou_tier (route (gen_router t) ev) = ROUTE_T1"
proof -
  let ?rules = "[(demo_rule ''d'' SEV_HIGH [''*''])\<lparr>cr_resource_type := ''disk''\<rparr>]"
  have "isl (fst (replace_rule_generation 5 ?rules (replicate 64 CHR ''0'') demo_generation)) = False" by code_simp
  then have "replace_rule_generation 5 ?rules (replicate 64 CHR ''0'') demo_generation = (Inr (), demo_replaced ?rules)"
    unfolding demo_replaced_def
    by (cases "replace_rule_generation 5 ?rules (replicate 64 CHR ''0'') demo_generation";
        cases "fst (replace_rule_generation 5 ?rules (replicate 64 CHR ''0'') demo_generation)") simp_all
  moreover have "map cr_id (rules_for_signal (te_index (gen_engine (demo_replaced ?rules))) ''disk''
      (Some (ev_type (demo_event ''disk''))) None) = [''d'']"
    "extract_resource_type (ev_payload (demo_event ''disk'')) = Some ''disk''"
    "rou_tier (route (gen_router (demo_replaced ?rules)) (demo_event ''disk'')) = ROUTE_T1" by code_simp+
  ultimately show ?thesis using demo_generation_start by (intro exI conjI)
qed

end
