(* ===== verification/ActionBuild.thy ===== *)
theory ActionBuild
  imports TierZero
begin

text \<open>
  From a finding, a model candidate, a learned action, an operator's proposal or a readiness remediation to an
  action (\<open>core/executor/action_builder.py\<close>), with the ontology release it refers to
  (\<open>shared/contracts/models/_base.py\<close>, \<open>shared/ontology/release.py\<close>) and the remediation request
  (\<open>fdai_service_contracts/readiness_remediation.py\<close>). An ActionType is extended by the fields that only the
  builder reads, its stop conditions by their kinds; the JSON Schema validator, the hash functions, the clock, Unicode normalisation and the field
  types and the text stripping of Pydantic are parameters.
\<close>

section \<open>ActionTypes and actions with their builder fields\<close>

datatype trigger_kind = ON_RULE_VIOLATION | ON_OPERATOR_REQUEST | ON_BOTH

datatype stop_condition_kind =
    ERROR_RATE_ABOVE | LATENCY_P99_ABOVE_MS | DEPENDENT_RESOURCE_DEGRADED | TIME_BOX_EXCEEDED_SECONDS
  | PROVIDER_API_ERROR_STREAK

fun stop_condition_value :: "stop_condition_kind \<Rightarrow> string" where
  "stop_condition_value ERROR_RATE_ABOVE = ''error_rate_above''"
| "stop_condition_value LATENCY_P99_ABOVE_MS = ''latency_p99_above_ms''"
| "stop_condition_value DEPENDENT_RESOURCE_DEGRADED = ''dependent_resource_degraded''"
| "stop_condition_value TIME_BOX_EXCEEDED_SECONDS = ''time_box_exceeded_seconds''"
| "stop_condition_value PROVIDER_API_ERROR_STREAK = ''provider_api_error_streak''"

record action_spec = action_type +
  as_stop_conditions :: "stop_condition_kind list"
  as_schema :: "json option"
  as_trigger :: "trigger_kind option"

datatype declaration_kind = DK_OBJECT | DK_LINK | DK_ACTION | DK_INTERFACE | DK_FUNCTION

fun declaration_kind_value :: "declaration_kind \<Rightarrow> string" where
  "declaration_kind_value DK_OBJECT = ''object''"
| "declaration_kind_value DK_LINK = ''link''"
| "declaration_kind_value DK_ACTION = ''action''"
| "declaration_kind_value DK_INTERFACE = ''interface''"
| "declaration_kind_value DK_FUNCTION = ''function''"

record declaration_ref =
  dr_kind :: declaration_kind
  dr_name :: string
  dr_version :: string
  dr_digest :: string

record type_ref =
  otr_kind :: declaration_kind
  otr_name :: string
  otr_version :: string
  otr_catalog :: string

record ontology_release =
  rel_digest :: string
  rel_declarations :: "declaration_ref list"

record workflow_ref =
  wf_process :: string
  wf_step :: string
  wf_proposal :: string
  wf_attempt :: int

record built_action = action +
  ba_event :: string
  ba_operation :: operation
  ba_params :: "(string, json) dict"
  ba_stop_conditions :: "stop_condition_kind list"
  ba_rollback :: rollback_kind
  ba_mode :: mode
  ba_created :: rat
  ba_type_ref :: type_ref
  ba_identity :: "string option"
  ba_workflow :: "workflow_ref option"

text \<open>
  \<open>ActionBuildError\<close>, which the control loop catches, and every other exception of the builder, among them the
  validation errors of \<open>Action\<close>, which it does not.
\<close>

datatype build_error = BuildError string | Escaped exc

text \<open>The fields of a remediation request that are not constants.\<close>

record readiness_request =
  rq_id :: string
  rq_key :: string
  rq_type :: string
  rq_target :: string
  rq_revision :: string
  rq_params :: "(string, json) dict"
  rq_citing :: "string list"
  rq_evidence :: "string list"
  rq_submitter :: string
  rq_approver :: string
  rq_approved :: rat
  rq_requested :: rat
  rq_severity :: rule_severity
  rq_digest :: string

text \<open>
  \<open>be_strip\<close> is the stripping of texts by the base model, \<open>be_parse_request\<close> the reading of a request's fields at their
  types, \<open>be_identity_key\<close> the folded normal form of a name; the digests are those of the JSON texts.
\<close>

record builder_env =
  be_types :: "(string, action_spec) dict"
  be_rules :: "(string, catalog_rule) dict"
  be_release :: "ontology_release option"
  be_created :: rat
  be_strip :: "string \<Rightarrow> string"
  be_uuid5 :: "string \<Rightarrow> string"
  be_sha256 :: "string \<Rightarrow> string"
  be_declaration_digest :: "action_spec \<Rightarrow> string"
  be_release_digest :: "declaration_ref list \<Rightarrow> string"
  be_schema_error :: "json \<Rightarrow> (string, json) dict \<Rightarrow> string option"
  be_parse_request :: "json option \<Rightarrow> readiness_request option"
  be_identity_key :: "string \<Rightarrow> string"
  be_request_digest :: "readiness_request \<Rightarrow> string"

text \<open>The validation of \<open>Action\<close>: texts are stripped, then their bounds and the two model validators are checked.\<close>

definition action_init :: "builder_env \<Rightarrow> built_action \<Rightarrow> build_error + built_action" where
  "action_init B a0 =
     (let a = a0\<lparr>idempotency_key := be_strip B (idempotency_key a0), act_type := be_strip B (act_type a0),
            target_resource_ref := be_strip B (target_resource_ref a0), citing_rules := map (be_strip B) (citing_rules a0)\<rparr>
      in if idempotency_key a = [] \<or> length (idempotency_key a) > 512 \<or> act_type a = [] \<or>
            target_resource_ref a = [] \<or> stop_condition a = [] \<or> ba_stop_conditions a = [] \<or> citing_rules a = [] \<or>
            stop_condition a \<noteq> stop_condition_value (hd (ba_stop_conditions a)) \<or>
            otr_kind (ba_type_ref a) \<noteq> DK_ACTION \<or> otr_name (ba_type_ref a) \<noteq> act_type a
         then Inl (Escaped (ValueError ''Action'')) else Inr a)"

section \<open>Ontology releases\<close>

definition declaration_order_key :: "declaration_ref \<Rightarrow> string \<times> string \<times> string" where
  "declaration_order_key d = (declaration_kind_value (dr_kind d), dr_name d, dr_version d)"

definition action_declaration :: "builder_env \<Rightarrow> action_spec \<Rightarrow> declaration_ref" where
  "action_declaration B t = \<lparr>dr_kind = DK_ACTION, dr_name = at_name t, dr_version = at_version t,
     dr_digest = be_declaration_digest B t\<rparr>"

definition validate_release :: "builder_env \<Rightarrow> ontology_release \<Rightarrow> ontology_release res" where
  "validate_release B rel = bind_res (first_failure
     [(\<not> distinct (map (\<lambda>d. (dr_kind d, dr_name d)) (rel_declarations rel)),
       ''ontology release declaration identities MUST be unique''),
      (rel_declarations rel \<noteq> sort_key declaration_order_key (rel_declarations rel),
       ''ontology release declarations MUST use canonical order''),
      (rel_digest rel \<noteq> be_release_digest B (rel_declarations rel),
       ''ontology release digest does not match declarations'')]) (\<lambda>_. Inr rel)"

definition build_release :: "builder_env \<Rightarrow> action_spec list \<Rightarrow> ontology_release res" where
  "build_release B ts =
     (let ds = sort_key declaration_order_key (map (action_declaration B) ts)
      in validate_release B \<lparr>rel_digest = be_release_digest B ds, rel_declarations = ds\<rparr>)"

definition release_type_ref :: "builder_env \<Rightarrow> ontology_release \<Rightarrow> declaration_kind \<Rightarrow> string \<Rightarrow> type_ref res" where
  "release_type_ref B rel kind name =
     (case find (\<lambda>d. dr_kind d = kind \<and> dr_name d = name) (rel_declarations rel) of
        None \<Rightarrow> Inl (KeyError name)
      | Some d \<Rightarrow> Inr \<lparr>otr_kind = kind, otr_name = be_strip B name, otr_version = dr_version d, otr_catalog = rel_digest rel\<rparr>)"

definition action_type_ref :: "builder_env \<Rightarrow> action_spec \<Rightarrow> type_ref res" where
  "action_type_ref B t =
     bind_res (case be_release B of Some rel \<Rightarrow> Inr rel | None \<Rightarrow> build_release B (map snd (be_types B)))
       (\<lambda>rel. release_type_ref B rel DK_ACTION (at_name t))"

section \<open>Derived safeguards and identities\<close>

definition derive_stop_condition :: "action_spec \<Rightarrow> build_error + string" where
  "derive_stop_condition t = (case as_stop_conditions t of
     [] \<Rightarrow> Inl (BuildError ''ActionType declares no stop_conditions; P1 executor requires at least one'')
   | k # _ \<Rightarrow> Inr (stop_condition_value k))"

definition derive_blast_radius :: "action_spec \<Rightarrow> blast_radius" where
  "derive_blast_radius t = (case at_blast_radius t of
     None \<Rightarrow> \<lparr>br_scope = RESOURCE, br_count = Some 1, br_rate_per_minute = None\<rparr>
   | Some ar \<Rightarrow>
       (if computation ar = STATIC_ENUM
        then \<lparr>br_scope = (case static_bucket ar of None \<Rightarrow> RESOURCE | Some b \<Rightarrow> b), br_count = Some 1,
               br_rate_per_minute = None\<rparr>
        else \<lparr>br_scope = RESOURCE, br_count = None, br_rate_per_minute = None\<rparr>))"

definition build_idempotency_key :: "event \<Rightarrow> finding \<Rightarrow> string" where
  "build_idempotency_key ev f = ev_key ev @ ''::'' @ fd_rule f @ ''::'' @ fd_resource f"

definition build_action_id :: "builder_env \<Rightarrow> string \<Rightarrow> string" where
  "build_action_id B key = be_uuid5 B (''fdai.action://'' @ key)"

definition build_operator_idempotency_key :: "builder_env \<Rightarrow> string \<Rightarrow> string \<Rightarrow> string" where
  "build_operator_idempotency_key B event_key type_name =
     ''operator:'' @ be_sha256 B (event_key @ [char_of (10::nat)] @ type_name)"

definition bind_build :: "build_error + 'a \<Rightarrow> ('a \<Rightarrow> build_error + 'b) \<Rightarrow> build_error + 'b" where
  "bind_build r f = (case r of Inl e \<Rightarrow> Inl e | Inr x \<Rightarrow> f x)"

lemma bind_build_Inr: "bind_build r f = Inr y \<longleftrightarrow> (\<exists>x. r = Inr x \<and> f x = Inr y)"
  by (cases r) (auto simp: bind_build_def)

definition lift_exc :: "'a res \<Rightarrow> build_error + 'a" where
  "lift_exc r = (case r of Inl e \<Rightarrow> Inl (Escaped e) | Inr x \<Rightarrow> Inr x)"

lemma lift_exc_Inr [simp]: "lift_exc r = Inr x \<longleftrightarrow> r = Inr x"
  by (cases r) (simp_all add: lift_exc_def)

text \<open>The common tail of the builders: the derived safeguards, the type reference and the validation.\<close>

definition assemble_action ::
  "builder_env \<Rightarrow> event \<Rightarrow> action_spec \<Rightarrow> string \<Rightarrow> string \<Rightarrow> (string, json) dict \<Rightarrow> string list \<Rightarrow> workflow_ref option \<Rightarrow>
     build_error + built_action" where
  "assemble_action B ev t key target params citing lineage =
     bind_build (derive_stop_condition t) (\<lambda>stop.
     bind_build (lift_exc (action_type_ref B t)) (\<lambda>type_ref. action_init B
       \<lparr>action_id = build_action_id B key, idempotency_key = key, act_type = at_name t, target_resource_ref = target,
        stop_condition = stop, act_blast_radius = derive_blast_radius t, citing_rules = citing,
        ba_event = ev_id ev, ba_operation = at_operation t, ba_params = params,
        ba_stop_conditions = as_stop_conditions t, ba_rollback = rollback_contract t, ba_mode = SHADOW,
        ba_created = be_created B, ba_type_ref = type_ref, ba_identity = None, ba_workflow = lineage\<rparr>))"

section \<open>The builders\<close>

definition build_from_finding ::
  "builder_env \<Rightarrow> event \<Rightarrow> finding \<Rightarrow> catalog_rule \<Rightarrow> build_error + built_action" where
  "build_from_finding B ev f r = (case dict_get (be_types B) (cr_remediates r) of
     None \<Rightarrow> Inl (BuildError ''rule remediates an ActionType which is not registered in the ActionType catalog'')
   | Some t \<Rightarrow>
       (let params = (if exec_path t = Some DIRECT_API \<and> dict_get (cr_parameters r) ''target_resource_ref'' = None
              then dict_set (cr_parameters r) ''target_resource_ref'' (JStr (fd_resource f)) else cr_parameters r)
        in assemble_action B ev t (build_idempotency_key ev f) (fd_resource f) params [fd_rule f] None))"

definition validate_action_params ::
  "builder_env \<Rightarrow> action_spec \<Rightarrow> (string, json) dict option \<Rightarrow> build_error + (string, json) dict" where
  "validate_action_params B t params = (case params of
     None \<Rightarrow> Inl (BuildError ''params MUST be an object'')
   | Some ps \<Rightarrow> (case as_schema t of
         None \<Rightarrow> (if ps \<noteq> [] then Inl (BuildError ''ActionType declares no argument_schema; params MUST be empty'') else Inr ps)
       | Some schema \<Rightarrow> (case be_schema_error B schema ps of
             Some _ \<Rightarrow> Inl (BuildError ''params violate argument_schema'') | None \<Rightarrow> Inr ps)))"

record quality_candidate =
  qc_type :: string
  qc_target :: string
  qc_params :: "(string, json) dict option"
  qc_cited :: "string list"

definition build_from_candidate :: "builder_env \<Rightarrow> event \<Rightarrow> quality_candidate \<Rightarrow> build_error + built_action" where
  "build_from_candidate B ev c = (case dict_get (be_types B) (qc_type c) of
     None \<Rightarrow> Inl (BuildError ''candidate action_type is not registered'')
   | Some t \<Rightarrow>
       (if qc_cited c = [] then Inl (BuildError ''candidate MUST cite at least one catalog rule'')
        else bind_build (validate_action_params B t (qc_params c)) (\<lambda>params.
          assemble_action B ev t (ev_key ev @ ''::t2::'' @ qc_type c @ ''::'' @ qc_target c) (qc_target c) params
            (qc_cited c) None)))"

record learned_action =
  la_signature :: string
  la_rule :: string
  la_type :: string
  la_params :: "(string, json) dict option"

definition build_from_learned_action ::
  "builder_env \<Rightarrow> event \<Rightarrow> learned_action \<Rightarrow> string \<Rightarrow> build_error + built_action" where
  "build_from_learned_action B ev l target = (case dict_get (be_types B) (la_type l) of
     None \<Rightarrow> Inl (BuildError ''learned action_type is not registered'')
   | Some t \<Rightarrow>
       (if target = [] then Inl (BuildError ''learned action target_resource_ref MUST be non-empty'')
        else bind_build (validate_action_params B t (la_params l)) (\<lambda>params.
          assemble_action B ev t (ev_key ev @ ''::t1::'' @ la_signature l @ ''::'' @ target) target params [la_rule l] None)))"

text \<open>\<open>WorkflowActionRef.model_validate\<close>: no other fields, texts stripped and bounded, an attempt of at least one.\<close>

definition bounded_field :: "builder_env \<Rightarrow> (string, json) dict \<Rightarrow> string \<Rightarrow> nat \<Rightarrow> string option" where
  "bounded_field B d k n = (case dict_get d k of
     Some (JStr s) \<Rightarrow> (let v = be_strip B s in if v \<noteq> [] \<and> length v \<le> n then Some v else None) | _ \<Rightarrow> None)"

definition parse_workflow_ref :: "builder_env \<Rightarrow> json \<Rightarrow> workflow_ref option" where
  "parse_workflow_ref B j = (case as_mapping (Some j) of
     None \<Rightarrow> None
   | Some d \<Rightarrow>
       (if \<not> list_all (\<lambda>k. k \<in> set (workflow_fields @ [''attempt''])) (dict_keys d) then None
        else (case (bounded_field B d ''process_id'' 200, bounded_field B d ''step_id'' 200, bounded_field B d ''proposal_ref'' 512,
            (case dict_get d ''attempt'' of None \<Rightarrow> Some 1 | Some (JInt i) \<Rightarrow> (if 1 \<le> i then Some i else None) | _ \<Rightarrow> None)) of
          (Some p, Some s, Some r, Some n) \<Rightarrow> Some \<lparr>wf_process = p, wf_step = s, wf_proposal = r, wf_attempt = n\<rparr>
        | _ \<Rightarrow> None)))"

definition workflow_action_ref :: "builder_env \<Rightarrow> event \<Rightarrow> build_error + workflow_ref option" where
  "workflow_action_ref B ev = (case non_null (ev_payload ev) ''workflow_action'' of
     None \<Rightarrow> Inr None
   | Some j \<Rightarrow> (case parse_workflow_ref B j of
         None \<Rightarrow> Inl (BuildError ''workflow_action is malformed'')
       | Some w \<Rightarrow> (if wf_proposal w \<noteq> ev_key ev
           then Inl (BuildError ''workflow_action.proposal_ref MUST match event idempotency_key'') else Inr (Some w))))"

text \<open>
  The rule that stands for a request. The pattern of ActionType names makes its id and its ActionType valid, so that
  of its fields only the resource type can be refused.
\<close>

definition request_rule ::
  "builder_env \<Rightarrow> string \<Rightarrow> rule_severity \<Rightarrow> string \<Rightarrow> string \<Rightarrow> (string, json) dict \<Rightarrow> build_error + catalog_rule" where
  "request_rule B i severity type_name rtype params =
     (if be_strip B rtype = [] then Inl (Escaped (ValueError ''Rule''))
      else Inr \<lparr>cr_id = i, cr_version = ''1.0.0'', cr_severity = severity, cr_resource_type = be_strip B rtype,
        cr_target_object = None, cr_applies_to = [], cr_triggered_by = [''*''], cr_remediates = type_name,
        cr_alternatives = [], cr_parameters = params, cr_cost = None, cr_rest = JNull\<rparr>)"

definition operator_request_rule :: "builder_env \<Rightarrow> action_spec \<Rightarrow> string \<Rightarrow> build_error + catalog_rule" where
  "operator_request_rule B t rtype = request_rule B (''operator.request.'' @ at_name t) SEV_HIGH (at_name t) rtype []"

definition request_resource_type :: "string \<Rightarrow> event \<Rightarrow> string" where
  "request_resource_type fallback ev = (case as_mapping (dict_get (ev_payload ev) ''resource'') of
     None \<Rightarrow> fallback
   | Some r \<Rightarrow> (case dict_get r ''resource_type'' of Some (JStr t) \<Rightarrow> t | _ \<Rightarrow> fallback))"

definition request_schema_check ::
  "builder_env \<Rightarrow> action_spec \<Rightarrow> (string, json) dict \<Rightarrow> build_error + unit" where
  "request_schema_check B t params = (case as_schema t of
     None \<Rightarrow> (if params \<noteq> [] then Inl (BuildError ''ActionType has no argument_schema; params MUST be empty'') else Inr ())
   | Some schema \<Rightarrow> (case be_schema_error B schema params of
         Some _ \<Rightarrow> Inl (BuildError ''operator_request params violate argument_schema'') | None \<Rightarrow> Inr ()))"

definition build_from_operator_request ::
  "builder_env \<Rightarrow> event \<Rightarrow> build_error + built_action \<times> catalog_rule" where
  "build_from_operator_request B ev = (case as_mapping (dict_get (ev_payload ev) ''operator_request'') of
     None \<Rightarrow> Inl (BuildError ''event payload has no normalized operator_request'')
   | Some raw \<Rightarrow> (case non_empty_str (dict_get raw ''action_type'') of
     None \<Rightarrow> Inl (BuildError ''operator_request action_type MUST be non-empty'')
   | Some type_name \<Rightarrow> (case non_empty_str (dict_get raw ''initiator_principal'') of
     None \<Rightarrow> Inl (BuildError ''operator_request initiator_principal MUST be non-empty'')
   | Some _ \<Rightarrow> (case as_mapping (dict_get raw ''params'') of
     None \<Rightarrow> Inl (BuildError ''operator_request params MUST be an object'')
   | Some params \<Rightarrow> (case (case ev_resource ev of None \<Rightarrow> [] | Some r \<Rightarrow> r) of
     [] \<Rightarrow> Inl (BuildError ''operator_request resource_ref MUST be non-empty'')
   | target \<Rightarrow> (case dict_get (be_types B) type_name of
     None \<Rightarrow> Inl (BuildError ''operator_request ActionType is unknown'')
   | Some t \<Rightarrow>
       (if as_trigger t \<notin> {Some ON_OPERATOR_REQUEST, Some ON_BOTH}
        then Inl (BuildError ''ActionType does not allow operator_request triggers'')
        else bind_build (request_schema_check B t params) (\<lambda>_.
          bind_build (operator_request_rule B t (request_resource_type ''operator-request'' ev)) (\<lambda>rule.
          bind_build (workflow_action_ref B ev) (\<lambda>lineage.
          bind_build (assemble_action B ev t (build_operator_idempotency_key B (ev_key ev) type_name) target params
              [cr_id rule] lineage) (\<lambda>a. Inr (a, rule)))))))))))) "

section \<open>Readiness remediations\<close>

definition event_type_remediation :: string where
  "event_type_remediation = ''readiness_remediation_request''"

definition event_source_remediation :: string where
  "event_source_remediation = ''operational_readiness''"

definition exact_texts :: "readiness_request \<Rightarrow> bool" where
  "exact_texts q = list_all (\<lambda>(n, s). s \<noteq> [] \<and> length s \<le> n \<and> s = py_strip s)
     [(200, rq_key q), (256, rq_type q), (512, rq_target q), (512, rq_revision q), (256, rq_submitter q), (256, rq_approver q)]"

definition unique_ordered :: "string list \<Rightarrow> bool" where
  "unique_ordered vs = (vs \<noteq> [] \<and> length vs \<le> 32 \<and> vs = sort (remdups vs) \<and> list_all (\<lambda>v. v \<noteq> [] \<and> v = py_strip v) vs)"

definition request_digest :: "builder_env \<Rightarrow> readiness_request \<Rightarrow> string" where
  "request_digest B q = be_request_digest B (q\<lparr>rq_id := [], rq_digest := []\<rparr>)"

definition remediation_id :: "string \<Rightarrow> string" where
  "remediation_id digest =
     ''orr-remediation-'' @ take 32 (if starts_with ''sha256:'' digest then drop 7 digest else digest)"

text \<open>\<open>ReadinessRemediationRequest.model_validate\<close>: the stripping, then the field and model validators, whose failure is a
  \<open>ValueError\<close>.\<close>

definition strip_request :: "builder_env \<Rightarrow> readiness_request \<Rightarrow> readiness_request" where
  "strip_request B q =
     (let st = be_strip B
      in q\<lparr>rq_id := st (rq_id q), rq_key := st (rq_key q), rq_type := st (rq_type q), rq_target := st (rq_target q),
           rq_revision := st (rq_revision q), rq_citing := map st (rq_citing q), rq_evidence := map st (rq_evidence q),
           rq_submitter := st (rq_submitter q), rq_approver := st (rq_approver q), rq_digest := st (rq_digest q)\<rparr>)"

definition request_ok :: "builder_env \<Rightarrow> readiness_request \<Rightarrow> bool" where
  "request_ok B q = (exact_texts q \<and> sha256_ref (rq_digest q) \<and>
     be_identity_key B (rq_submitter q) \<noteq> be_identity_key B (rq_approver q) \<and> rq_approved q \<le> rq_requested q \<and>
     unique_ordered (rq_citing q) \<and> unique_ordered (rq_evidence q) \<and> rq_digest q = request_digest B q \<and>
     rq_id q = remediation_id (rq_digest q))"

definition parse_readiness_request :: "builder_env \<Rightarrow> json option \<Rightarrow> readiness_request option" where
  "parse_readiness_request B raw = (case be_parse_request B raw of
     None \<Rightarrow> None
   | Some q \<Rightarrow> (if request_ok B (strip_request B q) then Some (strip_request B q) else None))"

fun cited_rule_error :: "builder_env \<Rightarrow> action_spec \<Rightarrow> string list \<Rightarrow> build_error + unit" where
  "cited_rule_error B t [] = Inr ()"
| "cited_rule_error B t (i # is) = (case dict_get (be_rules B) i of
     None \<Rightarrow> Inl (BuildError ''readiness remediation cited rule is not registered'')
   | Some r \<Rightarrow>
       (if cr_remediates r \<noteq> at_name t
        then Inl (BuildError ''readiness remediation cited rule does not remediate the ActionType'')
        else cited_rule_error B t is))"

definition build_from_readiness_remediation :: "builder_env \<Rightarrow> event \<Rightarrow> build_error + built_action \<times> catalog_rule" where
  "build_from_readiness_remediation B ev =
     (if ev_type ev \<noteq> event_type_remediation \<or> ev_source ev \<noteq> event_source_remediation
      then Inl (BuildError ''readiness remediation event source or type is invalid'')
      else if ev_mode ev \<noteq> SHADOW then Inl (BuildError ''readiness remediation event MUST remain in shadow mode'')
      else (case parse_readiness_request B (dict_get (ev_payload ev) ''readiness_remediation_request'') of
        None \<Rightarrow> Inl (BuildError ''readiness remediation request is malformed'')
      | Some q \<Rightarrow>
          (if ev_key ev \<noteq> rq_key q
           then Inl (BuildError ''readiness remediation idempotency identity does not match'')
           else if ev_resource ev \<noteq> Some (rq_target q)
           then Inl (BuildError ''readiness remediation target does not match the event'')
           else (case be_release B of
             None \<Rightarrow> Inl (BuildError ''readiness remediation requires an active ontology release'')
           | Some rel \<Rightarrow>
               (if rq_revision q \<noteq> rel_digest rel
                then Inl (BuildError ''readiness remediation target revision is stale'')
                else (case dict_get (be_types B) (rq_type q) of
                  None \<Rightarrow> Inl (BuildError ''readiness remediation ActionType is unknown'')
                | Some t \<Rightarrow>
                    bind_build (lift_exc (build_release B [t])) (\<lambda>loaded.
                    if find (\<lambda>d. dr_kind d = DK_ACTION \<and> dr_name d = at_name t) (rel_declarations rel) \<noteq>
                       Some (hd (rel_declarations loaded))
                    then Inl (BuildError ''readiness remediation ActionType is outside the active release'')
                    else if as_trigger t \<notin> {Some ON_RULE_VIOLATION, Some ON_BOTH}
                    then Inl (BuildError ''ActionType does not allow rule_violation triggers'')
                    else bind_build (validate_action_params B t (Some (rq_params q))) (\<lambda>params.
                      bind_build (cited_rule_error B t (rq_citing q)) (\<lambda>_.
                      bind_build (request_rule B (''operational-readiness.'' @ rq_id q) (rq_severity q) (rq_type q)
                          (request_resource_type ''operational-readiness'' ev) (rq_params q)) (\<lambda>rule.
                      bind_build (assemble_action B ev t (rq_id q) (rq_target q) params (rq_citing q) None)
                        (\<lambda>a. Inr (a, rule))))))))))))"

section \<open>What every built action has\<close>

text \<open>The identity of an action is derived from its key, its safeguards from the registered ActionType.\<close>

definition declared_count :: "action_spec \<Rightarrow> int option" where
  "declared_count t = (case at_blast_radius t of
     None \<Rightarrow> Some 1 | Some ar \<Rightarrow> (if computation ar = STATIC_ENUM then Some 1 else None))"

definition derives_from :: "builder_env \<Rightarrow> action_spec \<Rightarrow> built_action \<Rightarrow> bool" where
  "derives_from B t a = (ba_rollback a = rollback_contract t \<and> ba_operation a = at_operation t \<and>
     act_type a = be_strip B (at_name t) \<and> as_stop_conditions t \<noteq> [] \<and> ba_stop_conditions a = as_stop_conditions t \<and>
     stop_condition a = stop_condition_value (hd (as_stop_conditions t)) \<and>
     br_count (act_blast_radius a) = declared_count t \<and> br_rate_per_minute (act_blast_radius a) = None)"

definition sound_action :: "builder_env \<Rightarrow> event \<Rightarrow> built_action \<Rightarrow> bool" where
  "sound_action B ev a = (ba_mode a = SHADOW \<and> ba_identity a = None \<and> ba_event a = ev_id ev \<and>
     0 < length (idempotency_key a) \<and> length (idempotency_key a) \<le> 512 \<and> target_resource_ref a \<noteq> [] \<and>
     citing_rules a \<noteq> [] \<and> (\<exists>name t. dict_get (be_types B) name = Some t \<and> derives_from B t a))"

lemma action_init_Inr:
  "action_init B a0 = Inr a \<Longrightarrow> a = a0\<lparr>idempotency_key := be_strip B (idempotency_key a0), act_type := be_strip B (act_type a0),
     target_resource_ref := be_strip B (target_resource_ref a0), citing_rules := map (be_strip B) (citing_rules a0)\<rparr> \<and>
     idempotency_key a \<noteq> [] \<and> length (idempotency_key a) \<le> 512 \<and> target_resource_ref a \<noteq> [] \<and> citing_rules a \<noteq> []"
  by (auto simp: action_init_def Let_def split: if_splits)

lemma derive_stop_Inr:
  "derive_stop_condition t = Inr stop \<Longrightarrow> as_stop_conditions t \<noteq> [] \<and> stop = stop_condition_value (hd (as_stop_conditions t))"
  by (auto simp: derive_stop_condition_def split: list.splits)

lemma derive_blast_radius_count:
  "br_count (derive_blast_radius t) = declared_count t" "br_rate_per_minute (derive_blast_radius t) = None"
  by (simp_all add: derive_blast_radius_def declared_count_def split: option.splits)

lemma assemble_sound:
  assumes "assemble_action B ev t key target params citing lineage = Inr a" and "dict_get (be_types B) name = Some t"
  shows "sound_action B ev a \<and> idempotency_key a = be_strip B key \<and> target_resource_ref a = be_strip B target \<and>
     citing_rules a = map (be_strip B) citing \<and> ba_workflow a = lineage \<and> action_id a = build_action_id B key"
proof -
  from assms(1) obtain stop ref where stop: "derive_stop_condition t = Inr stop"
    and a0: "action_init B \<lparr>action_id = build_action_id B key, idempotency_key = key, act_type = at_name t, target_resource_ref = target,
        stop_condition = stop, act_blast_radius = derive_blast_radius t, citing_rules = citing,
        ba_event = ev_id ev, ba_operation = at_operation t, ba_params = params,
        ba_stop_conditions = as_stop_conditions t, ba_rollback = rollback_contract t, ba_mode = SHADOW,
        ba_created = be_created B, ba_type_ref = ref, ba_identity = None, ba_workflow = lineage\<rparr> = Inr a"
    by (auto simp: assemble_action_def bind_build_Inr)
  note i = action_init_Inr [OF a0]
  have "derives_from B t a"
    using derive_stop_Inr [OF stop] conjunct1 [OF i] by (simp add: derives_from_def derive_blast_radius_count)
  then show ?thesis using i assms(2) unfolding sound_action_def by auto
qed

lemma finding_action:
  "build_from_finding B ev f r = Inr a \<Longrightarrow>
     sound_action B ev a \<and> idempotency_key a = be_strip B (build_idempotency_key ev f) \<and>
     target_resource_ref a = be_strip B (fd_resource f) \<and> citing_rules a = [be_strip B (fd_rule f)] \<and> ba_workflow a = None"
  by (auto simp: build_from_finding_def Let_def dest: assemble_sound split: option.splits)

lemma candidate_action: "build_from_candidate B ev c = Inr a \<Longrightarrow> sound_action B ev a \<and> citing_rules a = map (be_strip B) (qc_cited c)"
  by (auto simp: build_from_candidate_def bind_build_Inr dest: assemble_sound split: option.splits if_splits)

lemma reused_action: "build_from_learned_action B ev l target = Inr a \<Longrightarrow> sound_action B ev a \<and> citing_rules a = [be_strip B (la_rule l)]"
  by (auto simp: build_from_learned_action_def bind_build_Inr dest: assemble_sound split: option.splits if_splits)

lemma operator_action:
  assumes "build_from_operator_request B ev = Inr (a, rule)"
  shows "sound_action B ev a"
proof -
  obtain t name key target params citing lineage where "dict_get (be_types B) name = Some t"
    "assemble_action B ev t key target params citing lineage = Inr a"
    using assms unfolding build_from_operator_request_def bind_build_Inr
    by (clarsimp simp: bind_build_Inr split: option.split_asm if_split_asm list.split_asm)
  then show ?thesis using assemble_sound by blast
qed

lemma cited_rules_registered:
  "cited_rule_error B t is = Inr () \<Longrightarrow> i \<in> set is \<Longrightarrow> \<exists>r. dict_get (be_rules B) i = Some r \<and> cr_remediates r = at_name t"
  by (induction "is") (auto split: option.splits if_splits)

lemma build_release_single: "build_release B [t] = Inr rel \<Longrightarrow> rel_declarations rel = [action_declaration B t]"
  by (auto simp: build_release_def validate_release_def Let_def bind_res_Inr)

text \<open>What a remediation's request has to say, against the catalogues of the builder.\<close>

definition grounded_request :: "builder_env \<Rightarrow> event \<Rightarrow> readiness_request \<Rightarrow> bool" where
  "grounded_request B ev q =
     (ev_mode ev = SHADOW \<and> ev_key ev = rq_key q \<and> ev_resource ev = Some (rq_target q) \<and>
      be_identity_key B (rq_submitter q) \<noteq> be_identity_key B (rq_approver q) \<and> rq_approved q \<le> rq_requested q \<and>
      rq_digest q = request_digest B q \<and> rq_id q = remediation_id (rq_digest q) \<and> rq_evidence q \<noteq> [] \<and>
      (\<exists>rel t. be_release B = Some rel \<and> rq_revision q = rel_digest rel \<and> dict_get (be_types B) (rq_type q) = Some t \<and>
         action_declaration B t \<in> set (rel_declarations rel) \<and> as_trigger t \<in> {Some ON_RULE_VIOLATION, Some ON_BOTH} \<and>
         (\<forall>i\<in>set (rq_citing q). \<exists>r. dict_get (be_rules B) i = Some r \<and> cr_remediates r = at_name t)))"

lemma readiness_request_facts:
  "parse_readiness_request B raw = Some q \<Longrightarrow>
     be_identity_key B (rq_submitter q) \<noteq> be_identity_key B (rq_approver q) \<and> rq_approved q \<le> rq_requested q \<and>
     rq_digest q = request_digest B q \<and> rq_id q = remediation_id (rq_digest q) \<and> rq_evidence q \<noteq> []"
  by (auto simp: parse_readiness_request_def request_ok_def unique_ordered_def split: option.splits if_splits)

lemma remediation_parts:
  assumes "build_from_readiness_remediation B ev = Inr (a, rule)"
  obtains q rel t loaded params where
    "ev_mode ev = SHADOW" "parse_readiness_request B (dict_get (ev_payload ev) ''readiness_remediation_request'') = Some q"
    "ev_key ev = rq_key q" "ev_resource ev = Some (rq_target q)" "be_release B = Some rel" "rq_revision q = rel_digest rel"
    "dict_get (be_types B) (rq_type q) = Some t" "build_release B [t] = Inr loaded"
    "find (\<lambda>d. dr_kind d = DK_ACTION \<and> dr_name d = at_name t) (rel_declarations rel) = Some (hd (rel_declarations loaded))"
    "as_trigger t \<in> {Some ON_RULE_VIOLATION, Some ON_BOTH}" "cited_rule_error B t (rq_citing q) = Inr ()"
    "assemble_action B ev t (rq_id q) (rq_target q) params (rq_citing q) None = Inr a"
  using assms unfolding build_from_readiness_remediation_def
  by (clarsimp simp: bind_build_Inr split: option.split_asm if_split_asm)

lemma remediation_action:
  assumes "build_from_readiness_remediation B ev = Inr (a, rule)"
  shows "sound_action B ev a \<and> (\<exists>q. grounded_request B ev q \<and> action_id a = build_action_id B (rq_id q) \<and>
    idempotency_key a = be_strip B (rq_id q) \<and> citing_rules a = map (be_strip B) (rq_citing q))"
proof -
  from assms obtain q rel t loaded params where q: "ev_mode ev = SHADOW"
    "parse_readiness_request B (dict_get (ev_payload ev) ''readiness_remediation_request'') = Some q"
    "ev_key ev = rq_key q" "ev_resource ev = Some (rq_target q)" "be_release B = Some rel" "rq_revision q = rel_digest rel"
    "dict_get (be_types B) (rq_type q) = Some t" "build_release B [t] = Inr loaded"
    "find (\<lambda>d. dr_kind d = DK_ACTION \<and> dr_name d = at_name t) (rel_declarations rel) = Some (hd (rel_declarations loaded))"
    "as_trigger t \<in> {Some ON_RULE_VIOLATION, Some ON_BOTH}" "cited_rule_error B t (rq_citing q) = Inr ()"
    and a: "assemble_action B ev t (rq_id q) (rq_target q) params (rq_citing q) None = Inr a"
    by (rule remediation_parts)
  have "action_declaration B t \<in> set (rel_declarations rel)"
    using q(9) build_release_single [OF q(8)] by (auto simp: find_Some_iff in_set_conv_nth)
  then have "grounded_request B ev q"
    unfolding grounded_request_def
    using q(1,3-7,10) readiness_request_facts [OF q(2)] cited_rules_registered [OF q(11)] by blast
  with assemble_sound [OF a q(7)] show ?thesis by blast
qed



section \<open>Keys\<close>

lemma colon_split:
  assumes "x @ ''::'' @ u = y @ ''::'' @ v" and "CHR '':'' \<notin> set u" and "CHR '':'' \<notin> set v"
  shows "x = y \<and> u = v"
proof -
  have "length u = length v"
  proof (rule ccontr)
    assume "length u \<noteq> length v"
    moreover have False if "p @ ''::'' @ s = q @ ''::'' @ r" "length s < length r" "CHR '':'' \<notin> set r" for p q r s :: string
    proof -
      have "drop (length q + 2) (p @ ''::'' @ s) = r" using that(1) by simp
      moreover have "length q + 2 < length p + 2"
        using arg_cong [OF that(1), of length] that(2) by simp
      ultimately have "CHR '':'' \<in> set r" by (auto simp: drop_append drop_Cons' split: if_splits)
      with that(3) show False by simp
    qed
    ultimately show False using assms by (metis linorder_neqE_nat)
  qed
  with assms(1) show ?thesis by simp
qed

text \<open>Keys of findings tell event, rule and resource apart as long as rule ids and resource ids hold no colon.\<close>

lemma finding_key_inject:
  assumes "build_idempotency_key ev f = build_idempotency_key ev' f'"
    and "CHR '':'' \<notin> set (fd_rule f)" and "CHR '':'' \<notin> set (fd_rule f')"
    and "CHR '':'' \<notin> set (fd_resource f)" and "CHR '':'' \<notin> set (fd_resource f')"
  shows "ev_key ev = ev_key ev' \<and> fd_rule f = fd_rule f' \<and> fd_resource f = fd_resource f'"
proof -
  have "(ev_key ev @ ''::'' @ fd_rule f) @ ''::'' @ fd_resource f = (ev_key ev' @ ''::'' @ fd_rule f') @ ''::'' @ fd_resource f'"
    using assms(1) by (simp add: build_idempotency_key_def)
  from colon_split [OF this assms(4,5)] colon_split [OF _ assms(2,3)] show ?thesis by blast
qed

section \<open>Witnesses\<close>

definition sample_spec :: action_spec where
  "sample_spec = \<lparr>at_name = ''ops.tag'', at_version = ''1.0.0'', at_operation = OpTAG, interfaces = [],
     rollback_contract = PR_REVERT, irreversible = False,
     promotion_gate_of = \<lparr>min_shadow_days = 1, min_samples = 1, min_accuracy = 1, max_policy_escapes = 0\<rparr>,
     preconditions = [], at_blast_radius = None, exec_path = Some PR_NATIVE, ceilings = None, env_scope_of = ENV_ANY,
     prod_downgrade_of = None, live_probe_ref = None, as_stop_conditions = [ERROR_RATE_ABOVE], as_schema = None,
     as_trigger = Some ON_BOTH\<rparr>"

definition sample_release_digest :: string where
  "sample_release_digest = ''sha256:'' @ replicate 64 CHR ''a''"

definition sample_remediation :: readiness_request where
  "sample_remediation = \<lparr>rq_id = ''orr-remediation-'' @ replicate 32 CHR ''a'', rq_key = ''k'', rq_type = ''ops.tag'', rq_target = ''vm-1'',
     rq_revision = sample_release_digest, rq_params = [], rq_citing = [''r1''], rq_evidence = [''e1''], rq_submitter = ''ann'',
     rq_approver = ''bob'', rq_approved = 1, rq_requested = 2, rq_severity = SEV_HIGH, rq_digest = sample_release_digest\<rparr>"

definition sample_builder :: builder_env where
  "sample_builder = \<lparr>be_types = [(''ops.tag'', sample_spec)], be_rules = [(''r1'', demo_rule ''r1'' SEV_HIGH [])],
     be_release = Some \<lparr>rel_digest = sample_release_digest, rel_declarations =
       [\<lparr>dr_kind = DK_ACTION, dr_name = ''ops.tag'', dr_version = ''1.0.0'', dr_digest = sample_release_digest\<rparr>]\<rparr>,
     be_created = 0, be_strip = py_strip, be_uuid5 = id, be_sha256 = id, be_declaration_digest = (\<lambda>_. sample_release_digest),
     be_release_digest = (\<lambda>_. sample_release_digest), be_schema_error = (\<lambda>_ _. None),
     be_parse_request = (\<lambda>_. Some sample_remediation), be_identity_key = id, be_request_digest = (\<lambda>_. sample_release_digest)\<rparr>"

definition sample_finding :: "string \<Rightarrow> string \<Rightarrow> finding" where
  "sample_finding rule resource = make_finding resource ''s'' (demo_rule rule SEV_HIGH []) \<lparr>pr_denied = True, pr_context = [], pr_receipt = None\<rparr>"

definition sample_build :: "string \<Rightarrow> string \<Rightarrow> string \<Rightarrow> build_error + built_action" where
  "sample_build key rule resource =
     build_from_finding sample_builder (sample_event key ''c'' 0) (sample_finding rule resource) (demo_rule rule SEV_HIGH [])"


definition remediation_event :: event where
  "remediation_event = (sample_event ''k'' ''c'' 0)\<lparr>ev_type := event_type_remediation, ev_source := event_source_remediation\<rparr>"


text \<open>
  A resource id with two colons makes two different requests the same one: the actions of two events, by two
  rules and on two resources, get one idempotency key and one action id.
\<close>

theorem action_keys_collide:
  "\<exists>a b. sample_build ''e'' ''r1'' ''r2::vm'' = Inr a \<and> sample_build ''e::r1'' ''r2'' ''vm'' = Inr b \<and>
     idempotency_key a = idempotency_key b \<and> action_id a = action_id b \<and>
     target_resource_ref a \<noteq> target_resource_ref b \<and> citing_rules a \<noteq> citing_rules b"
proof -
  let ?a = "sample_build ''e'' ''r1'' ''r2::vm''" and ?b = "sample_build ''e::r1'' ''r2'' ''vm''"
  have "\<not> isl ?a" "\<not> isl ?b" by code_simp+
  then have "?a = Inr (projr ?a)" "?b = Inr (projr ?b)" by (simp_all add: Inr_projr)
  moreover have "idempotency_key (projr ?a) = idempotency_key (projr ?b)" "action_id (projr ?a) = action_id (projr ?b)"
    "target_resource_ref (projr ?a) \<noteq> target_resource_ref (projr ?b)" "citing_rules (projr ?a) \<noteq> citing_rules (projr ?b)"
    by code_simp+
  ultimately show ?thesis by blast
qed

text \<open>
  An event key within the contract's 512 characters may still make an action's key too long, and this error is
  not the one that the control loop catches.
\<close>

theorem long_key_escapes:
  "\<exists>key. length key \<le> 512 \<and> sample_build key ''r1'' ''vm-1'' = Inl (Escaped (ValueError ''Action''))"
proof -
  have "length (replicate 505 CHR ''k'') \<le> 512" by simp
  moreover have "sample_build (replicate 505 CHR ''k'') ''r1'' ''vm-1'' = Inl (Escaped (ValueError ''Action''))" by code_simp
  ultimately show ?thesis by blast
qed

end
