(* ===== verification/Spec2Isabelle.thy ===== *)
theory Spec2Isabelle
  imports Resilience Backpressure Promotion Exemption Approval Authority BlastRadius Precedence
    OverrideWriter OntologyEvidence IncidentHistory IncidentSla ResourceLock Reservation LockContinuity FenceCodec
    Lifecycle HilResume HilSubject RuleIndex ActionBuild
begin

text \<open>
  A verification library for the decision core of the FDAI control plane
  (\<open>src/services/core-control-plane/src/fdai\<close>, called \<open>fdai\<close> below).

  The program. Events reach a control loop that proposes actions on cloud resources. Before an
  action runs without a human, two evaluators have to agree: the risk gate (\<open>core/risk_gate/gate.py\<close>)
  judges the concrete action (holds, blast-radius caps, freshness and preconditions, human overrides, the
  promotion of its ActionType), and the authority pipeline (\<open>authority.py\<close>) computes a ceiling from a
  risk table, the tier, the declared ceilings, the principal, the environment and the fail-safe
  inputs. \<open>evaluator.py\<close> takes the lower of the two. Candidates that compete for one resource are ordered
  by \<open>precedence.py\<close>; the executor measures the blast radius once more. Shared resilience
  primitives (circuit breaker, kill switch, backpressure, resource locks) surround these calls. Incidents are kept in
  an append-only log (\<open>core/incident\<close>) with a live index in every process.

  Theories, in the order of their imports.
  \<^item> \<open>Prelude\<close>: results \<open>error + 'a\<close> with one constructor per Python exception, dictionaries as
    association lists in insertion order, Python text functions, JSON values, and the lemmas on them.
  \<^item> \<open>StepSystem\<close>: reachability over a step relation and the locale \<open>safe_system\<close>, interpreted
    by every stateful component with its own start states, steps and invariant.
  \<^item> \<open>Contracts\<close>: the contract models (\<open>shared/contracts/models\<close>): actions, ActionTypes.
  \<^item> \<open>Resilience\<close>: \<open>circuit_breaker.py\<close>, \<open>degradation.py\<close>, \<open>kill_switch.py\<close>.
  \<^item> \<open>Backpressure\<close>: \<open>backpressure.py\<close>, \<open>slot()\<close> cut at its suspension points.
  \<^item> \<open>RiskTable\<close>: \<open>risk_table.py\<close> and \<open>feature.py\<close>: loading, validation, evaluation.
  \<^item> \<open>Ceiling\<close>: \<open>ceiling.py\<close> and \<open>live_probe.py\<close>: the axes and their minimum, as a
    \<open>linorder\<close> of levels.
  \<^item> \<open>Promotion\<close>: the registry of \<open>gate.py\<close> and \<open>development_profile.py\<close>.
  \<^item> \<open>Exemption\<close>: the human-override registry (\<open>shared/providers/exemption.py\<close>), through the
    locale \<open>exemption_registry\<close> that the gate's proofs use.
  \<^item> \<open>Preconditions\<close>: \<open>preconditions.py\<close>; every result is backed by its source of evidence.
  \<^item> \<open>Gate\<close>: \<open>RiskGate.evaluate\<close> with every early return; \<open>gate_spec\<close> is its specification.
  \<^item> \<open>Approval\<close>: approval profiles (\<open>fdai_service_contracts/approval_profile.py\<close>) and the
    operator policy binder.
  \<^item> \<open>Authority\<close>: \<open>authority.py\<close>, \<open>category_denial.py\<close>, \<open>evaluator.py\<close>; the stages
    interpret the locale \<open>lowering\<close>.
  \<^item> \<open>BlastRadius\<close>: \<open>blast_radius_simulator.py\<close> (breadth-first search) and the executor's ceiling.
  \<^item> \<open>Precedence\<close>: \<open>precedence.py\<close>.
  \<^item> \<open>OverrideWriter\<close>: \<open>override_writer.py\<close>, the renderer of policy documents, with a reader as
    its specification.
  \<^item> \<open>OntologyEvidence\<close>: \<open>ontology_preconditions.py\<close> and
    \<open>operational_context/operating_intent_admission.py\<close>.
  \<^item> \<open>IncidentModel\<close>, \<open>IncidentStore\<close>, \<open>IncidentReplay\<close>, \<open>IncidentRegistry\<close>: the incident
    state machine and audit rows, the store's append contract, the replay of the log, and
    the registry's operations on a pair of index and store.
  \<^item> \<open>IncidentRefinement\<close>, \<open>IncidentHistory\<close>, \<open>IncidentSla\<close>: the live index refines the
    replayed log; what a history can do; the SLA evaluation against the index.
  \<^item> \<open>ResourceLock\<close>: \<open>core/executor/lock.py\<close> over a model of \<open>asyncio.Lock\<close> with its queue of
    waiters, and the interleavings of its callers.
  \<^item> \<open>Reservation\<close>: the executor's idempotency reservations, their lifecycle
    (\<open>core/executor/idempotency_reservation*.py\<close>) and the histories of their durable store.
  \<^item> \<open>RecordHistory\<close>: the locale \<open>record_store\<close> of stores that replace one versioned record at a
    time; the reservation store and the fence store interpret it.
  \<^item> \<open>LockEvidence\<close>, \<open>LockContinuity\<close>: what a lock provider attests
    (\<open>shared/providers/resource_lock.py\<close>) and what a dispatch concludes from it
    (\<open>core/executor/lock_continuity.py\<close>).
  \<^item> \<open>AuditIntent\<close>: \<open>core/executor/audit_intent.py\<close> and its append-only stores.
  \<^item> \<open>TargetFence\<close>, \<open>FenceCodec\<close>: the dispatch fence of a target
    (\<open>core/executor/target_dispatch_fence*.py\<close>), its stores and its JSON document.
  \<^item> \<open>SafeguardBundle\<close>: the proof bundle of the seven safeguards
    (\<open>fdai_service_contracts/execution_safeguards.py\<close>).
  \<^item> \<open>DispatchEvidence\<close>: the evidence record of one dispatch, its start, observation and pre-release
    checkpoints, transitions, receipts and stores (\<open>core/executor/safeguard_dispatch_*.py\<close>); its store interprets
    \<open>record_store\<close>. The identity of a record is an input.
  \<^item> \<open>Effects\<close>: programs with a state and exceptions and their triples, for coroutines that run alone.
  \<^item> \<open>Lifecycle\<close>: \<open>core/executor/safeguard_evidence_lifecycle.py\<close>: the run that takes fence, reservation and
    evidence through their phases around the guarded provider call, over arbitrary stores and ports, with
    cancellations at its awaits; an automaton over its calls is its specification.
  \<^item> \<open>RuleIndex\<close>: the rule lookup of tier T0 (\<open>core/tiers/t0_deterministic/index.py\<close>) and the signal types it
    reads; a lookup is a scan of the catalogue, and a catalogue version keeps its meaning across reloads.
  \<^item> \<open>EventIngest\<close>: the entry of the control loop (\<open>core/event_ingest\<close>): operator proposals, the bounded duplicate
    check over any sequence of deliveries, and which events share an incident.
  \<^item> \<open>TierZero\<close>: the trust router, the verdict of tier T0 against a scan of the catalogue, and the replacement of
    rule generations in the running loop (\<open>core/trust_router\<close>, \<open>core/tiers/t0_deterministic/engine.py\<close>,
    \<open>core/control_loop/orchestrator.py\<close>).
  \<^item> \<open>ActionBuild\<close>: \<open>core/executor/action_builder.py\<close>, from findings, candidates, learned actions, operator
    proposals and readiness remediations to actions, with the ontology release that actions refer to.
  \<^item> \<open>HilPark\<close>, \<open>HilEscalation\<close>, \<open>HilResume\<close>: parked human approvals
    (\<open>core/hil_resume\<close>): what a decision makes of the park it read, the supervisor that walks a park up a
    ladder of responders, and the interleavings of concurrent resolutions with every
    other writer of a park.
  \<^item> \<open>HilSubject\<close>: \<open>core/hil_resume/subject_index.py\<close>: the index that keeps one open request per
    subject, its admissions cut at their awaits, and the write of the admitted request.
  \<^item> This theory: the properties that span the components.

  Conventions. Dictionaries keep insertion order, as Python's do. Raised exceptions are the left
  side of a result. A time is an integer number of microseconds, or a rational where the code compares
  floating-point seconds only; numbers of a table are rationals. A coroutine is cut into the steps between its suspension
  points, and a step relation interleaves them. Code outside the repository is a
  parameter: hash functions, ISO parsing, \<open>str\<close> on foreign values, the ontology store's answer to a query.

  Bounds and recursion. The breadth-first search terminates on every graph by a multiset measure on the
  remaining depths of its queue; the escalation of an incident makes the code's own bounded number of
  attempts. No definition uses fuel of its own.

  Of the human approvals, the timing an escalation catalog may add, the queue of effect
  reconciliation requests and the checks inside the development admission (a parameter: its verdict)
  are not modelled.

  Not modelled, and why: the loop that calls the modelled stages one after another (audit rows, queues and
  metrics around them), tiers T1 and T2 and the agents, conversations and the ontology platform (orchestration of
  language models and databases), delivery adapters and runtime wiring, the other services, the deployment
  packages, scripts and user interfaces.
\<close>

section \<open>A level without a human, end to end\<close>




definition windowed_at :: action_type where
  "windowed_at = sample_at\<lparr>preconditions :=
     [\<lparr>pre_kind = MAINTENANCE_WINDOW_ACTIVE, pre_value = JNull, pre_property = None, pre_tag = None\<rparr>,
      \<lparr>pre_kind = NO_CONFLICTING_OPEN_ACTION_ON_RESOURCE, pre_value = JNull, pre_property = None,
       pre_tag = None\<rparr>]\<rparr>"

definition windowed_query :: gate_query where
  "windowed_query = sample_query\<lparr>gq_action_type := windowed_at,
     evaluations := governed_evaluate
       (Some (has_conflict (\<lambda>_. []) sample_window_query 500 ''vm-1'' ''k1'')) (Some True)
       sample_payload windowed_at\<rparr>"

lemma windowed_decision:
  "\<exists>d. gate_evaluate sample_gate 500 windowed_query = Inr d \<and> outcome d = AUTO"
proof -
  have "first_override sample_gate 500 sample_action = None" by code_simp
  then have o: "\<not> overridden sample_gate 500 (gq_action windowed_query)"
    using first_override_None [of sample_gate 500 sample_action]
    by (simp add: windowed_query_def sample_query_def)
  have "freshness_reasons default_gate_config windowed_at (Some 30) = Inr []"
    "precondition_reasons (evaluations windowed_query) windowed_at = []"
    "blast_reasons default_gate_config sample_action = []"
    "py_strip (stop_condition sample_action) \<noteq> []" "citing_rules sample_action \<noteq> []"
    "irreversible windowed_at = False" "at_name windowed_at = ''ops.tag''"
    "authority_mutation sample_gate windowed_at = False"
    by code_simp+
  then have c: "clean sample_gate 500 windowed_query"
    using promoted_registry_enforces
    by (simp add: clean_def authorised_def windowed_query_def sample_query_def sample_gate_def
        freshness_reasons_Nil precondition_reasons_Nil blast_reasons_Nil)
  have "\<not> stopped windowed_query" by (simp add: stopped_def windowed_query_def sample_query_def)
  with o c have "gate_spec sample_gate 500 windowed_query \<in> {Some AUTO, None}"
    by (simp add: gate_spec_def windowed_query_def sample_query_def)
  moreover have "\<not> requires_fresh windowed_at" by code_simp
  then have "gate_spec sample_gate 500 windowed_query = Some AUTO"
    using o c \<open>\<not> stopped windowed_query\<close> by (simp add: gate_spec_def windowed_query_def sample_query_def)
  ultimately show ?thesis
    using gate_outcome_helper [of sample_gate 500 windowed_query] by (auto split: sum.splits)
qed


text \<open>
  the gate and the executor measure one action against one pair of caps. An action the gate
  let run without a human passes the executor's ceiling with the same caps when, and only
  when, it declares an affected count; the one action on which they disagree is a
  \<open>RESOURCE\<close>-scoped one without a count, which the gate lets through and every
  executor path refuses.
\<close>

theorem executor_ceiling_agrees:
  assumes "gate_evaluate g now q = Inr d" and "outcome d = AUTO"
  shows "(blast_radius_refusal (gq_action q) \<lparr>bc_max_affected = cfg_max_affected (rg_config g),
        bc_max_rate = cfg_max_rate (rg_config g)\<rparr> = None \<longleftrightarrow>
      br_count (act_blast_radius (gq_action q)) \<noteq> None) \<and>
    (br_count (act_blast_radius (gq_action q)) = None \<longrightarrow>
      br_scope (act_blast_radius (gq_action q)) = RESOURCE)"
  using gate_evaluate_clean [OF assms]
  by (auto simp: clean_def within_caps_def refusal_None split: option.splits)

theorem executor_ceiling_agrees_witness:
  "blast_radius_refusal sample_action \<lparr>bc_max_affected = 10, bc_max_rate = 30\<rparr> = None"
  using executor_ceiling_agrees [OF sample_decision]
  by (simp add: sample_query_def sample_gate_def default_gate_config_def sample_action_def)

end
